(* ===== verification/Prelude.thy ===== *)
theory Prelude
  imports Main "HOL-Library.Word" "HOL-Library.Monad_Syntax"
begin

text \<open>
  Shared vocabulary of the development: machine integers, byte buffers with checked
  access, little-endian encoding, and the automation collections the component theories
  use.  A C buffer is the list of its bytes.  A read or a write that leaves the buffer is
  undefined behaviour in C; here it is the value \<open>None\<close> of an option, so every operation
  that touches memory returns an option and \<open>Some\<close> means that all its accesses stayed
  inside their objects.
\<close>

unbundle bit_operations_syntax

type_synonym u8 = "8 word"
type_synonym u16 = "16 word"
type_synonym u32 = "32 word"
type_synonym u64 = "64 word"
type_synonym bytes = "u8 list"

named_theorems mem_simps \<open>rewriting of checked memory accesses\<close>
named_theorems wire_simps \<open>shape of the datagrams and headers\<close>
named_theorems inv_intros \<open>preservation of component invariants\<close>

section \<open>Checked memory access\<close>

definition mem_read :: "'a list \<Rightarrow> nat \<Rightarrow> nat \<Rightarrow> 'a list option" where
  "mem_read buf off n = (if off + n \<le> length buf then Some (take n (drop off buf)) else None)"

definition mem_write :: "'a list \<Rightarrow> nat \<Rightarrow> 'a list \<Rightarrow> 'a list option" where
  "mem_write buf off xs =
     (if off + length xs \<le> length buf
      then Some (take off buf @ xs @ drop (off + length xs) buf) else None)"

lemma mem_read_Some [mem_simps]:
  "off + n \<le> length buf \<Longrightarrow> mem_read buf off n = Some (take n (drop off buf))"
  by (simp add: mem_read_def)

lemma mem_read_None [mem_simps]: "length buf < off + n \<Longrightarrow> mem_read buf off n = None"
  by (simp add: mem_read_def)

lemma mem_read_length: "mem_read buf off n = Some xs \<Longrightarrow> length xs = n"
  by (auto simp: mem_read_def split: if_splits)

lemma mem_read_eq_Some:
  "mem_read buf off n = Some xs \<longleftrightarrow> off + n \<le> length buf \<and> xs = take n (drop off buf)"
  by (auto simp: mem_read_def)

lemma mem_write_Some [mem_simps]:
  "off + length xs \<le> length buf \<Longrightarrow>
   mem_write buf off xs = Some (take off buf @ xs @ drop (off + length xs) buf)"
  by (simp add: mem_write_def)

lemma mem_write_None [mem_simps]:
  "length buf < off + length xs \<Longrightarrow> mem_write buf off xs = None"
  by (simp add: mem_write_def)

lemma mem_write_length: "mem_write buf off xs = Some buf' \<Longrightarrow> length buf' = length buf"
  by (auto simp: mem_write_def split: if_splits)

lemma mem_read_write:
  assumes "mem_write buf off xs = Some buf'"
  shows "mem_read buf' off (length xs) = Some xs"
  using assms by (auto simp: mem_write_def mem_read_def split: if_splits)

lemma mem_read_whole [simp]: "mem_read xs 0 (length xs) = Some xs"
  by (simp add: mem_read_def)

section \<open>Little-endian 32-bit fields\<close>

definition le32 :: "u32 \<Rightarrow> bytes" where
  "le32 w = [ucast w, ucast (drop_bit 8 w), ucast (drop_bit 16 w), ucast (drop_bit 24 w)]"

definition of_le32 :: "bytes \<Rightarrow> u32" where
  "of_le32 b = ucast (b ! 0) OR push_bit 8 (ucast (b ! 1)) OR
               push_bit 16 (ucast (b ! 2)) OR push_bit 24 (ucast (b ! 3))"

lemma length_le32 [simp]: "length (le32 w) = 4"
  by (simp add: le32_def)

lemma of_le32_le32 [simp]: "of_le32 (le32 w @ rest) = w"
proof (rule bit_word_eqI)
  fix n assume n: "n < LENGTH(32)"
  then consider "n < 8" | "8 \<le> n" "n < 16" | "16 \<le> n" "n < 24" | "24 \<le> n" "n < 32"
    by fastforce
  then show "bit (of_le32 (le32 w @ rest)) n \<longleftrightarrow> bit w n"
    by cases (auto simp: of_le32_def le32_def bit_or_iff bit_push_bit_iff bit_ucast_iff
        bit_drop_bit_eq)
qed

lemma of_le32_le32_exact [simp]: "of_le32 (le32 w) = w"
  using of_le32_le32 [of w "[]"] by simp

lemma take_le32 [simp]: "take 4 (le32 w @ rest) = le32 w"
  and drop_le32 [simp]: "drop 4 (le32 w @ rest) = rest"
  by simp_all

lemma unat_of_nat_u32 [simp]: "n < 2 ^ 32 \<Longrightarrow> unat (of_nat n :: u32) = n"
  by (simp add: unsigned_of_nat take_bit_nat_eq_self)

section \<open>Options and lists\<close>

lemma bind_eq_Some: "Option.bind m f = Some y \<longleftrightarrow> (\<exists>x. m = Some x \<and> f x = Some y)"
  by (cases m) auto

lemma takeWhile_append_stop:
  "(\<forall>x\<in>set xs. P x) \<Longrightarrow> \<not> P y \<Longrightarrow> takeWhile P (xs @ y # ys) = xs"
  by (induction xs) auto

lemma dropWhile_append_stop:
  "(\<forall>x\<in>set xs. P x) \<Longrightarrow> \<not> P y \<Longrightarrow> dropWhile P (xs @ y # ys) = y # ys"
  by (induction xs) auto

lemma takeWhile_all: "(\<forall>x\<in>set xs. P x) \<Longrightarrow> takeWhile P xs = xs"
  by (induction xs) auto

section \<open>The interface of a keyed store\<close>

text \<open>
  Several components keep a linked list of entries found by key: the device handles by
  handle value, the values of a registry key by case-insensitive name.  \<open>same\<close> is the
  equivalence of keys the code uses, \<open>can_add\<close> what it requires of a new key.
\<close>

datatype ('k, 'v) store_op = Add 'k 'v | Rem 'k

locale keyed_store =
  fixes ok :: "'s \<Rightarrow> bool"
    and look :: "'s \<Rightarrow> 'k \<Rightarrow> 'v option"
    and can_add :: "'k \<Rightarrow> 'v \<Rightarrow> 's \<Rightarrow> bool"
    and add :: "'k \<Rightarrow> 'v \<Rightarrow> 's \<Rightarrow> 's"
    and rem :: "'k \<Rightarrow> 's \<Rightarrow> 's"
    and same :: "'k \<Rightarrow> 'k \<Rightarrow> bool"
  assumes same_refl: "same k k"
    and same_sym: "same k k' \<Longrightarrow> same k' k"
    and same_trans: "same k k' \<Longrightarrow> same k' k'' \<Longrightarrow> same k k''"
    and add_ok: "ok s \<Longrightarrow> can_add k v s \<Longrightarrow> ok (add k v s)"
    and look_add: "ok s \<Longrightarrow> can_add k v s \<Longrightarrow>
      look (add k v s) k' = (if same k k' then Some v else look s k')"
    and rem_ok: "ok s \<Longrightarrow> ok (rem k s)"
    and look_rem: "ok s \<Longrightarrow> look (rem k s) k' = (if same k k' then None else look s k')"
begin

lemma look_rem_add:
  "ok s \<Longrightarrow> can_add k v s \<Longrightarrow>
   look (rem k (add k v s)) k' = (if same k k' then None else look s k')"
  by (simp add: look_rem look_add add_ok)

lemma look_add_add:
  "ok s \<Longrightarrow> can_add k v s \<Longrightarrow> can_add k v' (add k v s) \<Longrightarrow>
   look (add k v' (add k v s)) k' = (if same k k' then Some v' else look s k')"
  by (simp add: look_add add_ok)

text \<open>A run of operations is the run of updates on the abstract map.\<close>

fun run :: "('k, 'v) store_op list \<Rightarrow> 's \<Rightarrow> 's option" where
  "run [] s = Some s"
| "run (Add k v # xs) s = (if can_add k v s then run xs (add k v s) else None)"
| "run (Rem k # xs) s = run xs (rem k s)"

fun amap :: "('k, 'v) store_op list \<Rightarrow> ('k \<Rightarrow> 'v option) \<Rightarrow> 'k \<Rightarrow> 'v option" where
  "amap [] m = m"
| "amap (Add k v # xs) m = amap xs (\<lambda>k'. if same k k' then Some v else m k')"
| "amap (Rem k # xs) m = amap xs (\<lambda>k'. if same k k' then None else m k')"

lemma run_refines:
  "ok s \<Longrightarrow> run xs s = Some s' \<Longrightarrow> ok s' \<and> look s' = amap xs (look s)"
proof (induction xs s rule: run.induct)
  case (2 k v xs s)
  then have can: "can_add k v s" and r: "run xs (add k v s) = Some s'"
    by (auto split: if_splits)
  have "look (add k v s) = (\<lambda>k'. if same k k' then Some v else look s k')"
    using 2 can by (auto simp: look_add fun_eq_iff)
  then show ?case using 2 can r by (simp add: add_ok)
next
  case (3 k xs s)
  have "look (rem k s) = (\<lambda>k'. if same k k' then None else look s k')"
    using 3 by (auto simp: look_rem fun_eq_iff)
  then show ?case using 3 by (simp add: rem_ok)
qed simp

end

end
