(* ===== verification/C_Strings.thy ===== *)
theory C_Strings
  imports Prelude
begin

text \<open>
  The C string functions the sources call, on strings given as the list of their
  characters before the terminating NUL.  A narrow string is a \<open>u8\<close> list and a wide string
  a \<open>u16\<close> list (\<open>wchar_t\<close> has 16 bits on Windows), so the functions are polymorphic in the
  width.  Case folding is that of the "C" locale, which the program never leaves: only the
  letters A to Z are folded.
\<close>

type_synonym wstr = "u16 list"

definition str :: "string \<Rightarrow> 'w::len word list" where
  "str s = map of_char s"

lemma str_Nil [simp]: "str [] = []"
  and str_Cons [simp]: "str (c # s) = of_char c # str s"
  and length_str [simp]: "length (str s) = length s"
  by (simp_all add: str_def)

section \<open>Case-insensitive comparison: \<open>_stricmp\<close>, \<open>_wcsicmp\<close>\<close>

definition lower :: "'w::len word \<Rightarrow> 'w word" where
  "lower c = (if 65 \<le> c \<and> c \<le> 90 then c + 32 else c)"

definition icmp_eq :: "'w::len word list \<Rightarrow> 'w word list \<Rightarrow> bool" where
  "icmp_eq s t \<longleftrightarrow> map lower s = map lower t"

lemma icmp_eq_refl [simp]: "icmp_eq s s"
  by (simp add: icmp_eq_def)

lemma icmp_eq_sym: "icmp_eq s t \<longleftrightarrow> icmp_eq t s"
  by (auto simp: icmp_eq_def)

lemma icmp_eq_trans: "icmp_eq s t \<Longrightarrow> icmp_eq t u \<Longrightarrow> icmp_eq s u"
  by (simp add: icmp_eq_def)

lemma icmp_eq_length: "icmp_eq s t \<Longrightarrow> length s = length t"
  unfolding icmp_eq_def by (metis length_map)

lemma icmp_eq_Nil [simp]: "icmp_eq [] t \<longleftrightarrow> t = []" "icmp_eq s [] \<longleftrightarrow> s = []"
  by (auto simp: icmp_eq_def)

lemma icmp_eq_cong: "icmp_eq s t \<Longrightarrow> icmp_eq s u \<longleftrightarrow> icmp_eq t u"
  by (auto simp: icmp_eq_def)

lemma icmp_eq_append:
  "icmp_eq s t \<Longrightarrow> icmp_eq s' t' \<Longrightarrow> icmp_eq (s @ s') (t @ t')"
  by (simp add: icmp_eq_def)

section \<open>Search: \<open>strstr\<close>, \<open>wcsstr\<close>, \<open>wcschr\<close>\<close>

text \<open>\<open>strstr s p\<close> is the tail of \<open>s\<close> that starts at the first occurrence of \<open>p\<close>.\<close>

fun is_prefix :: "'a list \<Rightarrow> 'a list \<Rightarrow> bool" where
  "is_prefix [] s = True"
| "is_prefix (p # ps) [] = False"
| "is_prefix (p # ps) (c # s) = (p = c \<and> is_prefix ps s)"

fun strstr :: "'a list \<Rightarrow> 'a list \<Rightarrow> 'a list option" where
  "strstr [] p = (if p = [] then Some [] else None)"
| "strstr (c # s) p = (if is_prefix p (c # s) then Some (c # s) else strstr s p)"

definition contains :: "'a list \<Rightarrow> 'a list \<Rightarrow> bool" where
  "contains s p \<longleftrightarrow> strstr s p \<noteq> None"

fun strchr :: "'a list \<Rightarrow> 'a \<Rightarrow> 'a list option" where
  "strchr [] c = None"
| "strchr (d # s) c = (if c = d then Some (d # s) else strchr s c)"

lemma is_prefix_iff: "is_prefix p s \<longleftrightarrow> (\<exists>t. s = p @ t)"
  by (induction p s rule: is_prefix.induct) auto

lemma is_prefix_append [simp]: "is_prefix p (p @ t)"
  by (auto simp: is_prefix_iff)

lemma strstr_Some: "strstr s p = Some t \<Longrightarrow> (\<exists>pre. s = pre @ t) \<and> is_prefix p t"
proof (induction s p rule: strstr.induct)
  case (2 c s p)
  show ?case
  proof (cases "is_prefix p (c # s)")
    case True
    with 2 show ?thesis by auto
  next
    case False
    with 2 obtain pre where "s = pre @ t" "is_prefix p t" by auto
    then show ?thesis by (metis append_Cons)
  qed
qed (auto split: if_splits)

lemma contains_iff: "contains s p \<longleftrightarrow> (\<exists>pre post. s = pre @ p @ post)"
proof
  assume "contains s p"
  then obtain t where "strstr s p = Some t" by (auto simp: contains_def)
  from strstr_Some [OF this] show "\<exists>pre post. s = pre @ p @ post"
    by (auto simp: is_prefix_iff)
next
  assume "\<exists>pre post. s = pre @ p @ post"
  then obtain pre post where "s = pre @ p @ post" by blast
  then have "strstr s p \<noteq> None"
  proof (induction pre arbitrary: s)
    case Nil
    then have "is_prefix p s" by simp
    then show ?case by (cases s; cases p) auto
  next
    case (Cons a pre)
    then show ?case by (cases s) auto
  qed
  then show "contains s p" by (simp add: contains_def)
qed

lemma contains_append: "contains s p \<Longrightarrow> contains (pre @ s @ post) p"
  unfolding contains_iff by (metis append.assoc)

section \<open>Tokens: \<open>wcstok_s\<close>\<close>

text \<open>
  \<open>wcstok_s\<close> with one delimiter: skip the delimiters in front, return the characters up
  to the next delimiter, and continue behind it.  \<open>wcstok d s\<close> is None when only
  delimiters are left.
\<close>

definition wcstok :: "'a \<Rightarrow> 'a list \<Rightarrow> ('a list \<times> 'a list) option" where
  "wcstok d s =
     (let s' = dropWhile (\<lambda>c. c = d) s in
      if s' = [] then None
      else Some (takeWhile (\<lambda>c. c \<noteq> d) s', drop 1 (dropWhile (\<lambda>c. c \<noteq> d) s')))"

lemma wcstok_SomeE:
  assumes "wcstok d s = Some (t, r)"
  obtains a u where "dropWhile (\<lambda>c. c = d) s = a # u" "a \<noteq> d"
    "t = a # takeWhile (\<lambda>c. c \<noteq> d) u" "r = drop 1 (dropWhile (\<lambda>c. c \<noteq> d) u)"
proof (cases "dropWhile (\<lambda>c. c = d) s")
  case Nil
  then show ?thesis using assms by (simp add: wcstok_def)
next
  case (Cons a u)
  moreover from this have "a \<noteq> d" using hd_dropWhile [of "\<lambda>c. c = d" s] by auto
  ultimately show ?thesis using assms that by (auto simp: wcstok_def)
qed

lemma wcstok_shorter: "wcstok d s = Some (t, r) \<Longrightarrow> length r < length s"
proof (erule wcstok_SomeE)
  fix a u
  assume u: "dropWhile (\<lambda>c. c = d) s = a # u" and r: "r = drop 1 (dropWhile (\<lambda>c. c \<noteq> d) u)"
  have "length (a # u) \<le> length s" unfolding u [symmetric] by (rule length_dropWhile_le)
  moreover have "length (dropWhile (\<lambda>c. c \<noteq> d) u) \<le> length u" by (rule length_dropWhile_le)
  ultimately show "length r < length s" using r by simp
qed

function tokens :: "'a \<Rightarrow> 'a list \<Rightarrow> 'a list list" where
  "tokens d s = (case wcstok d s of None \<Rightarrow> [] | Some (t, r) \<Rightarrow> t # tokens d r)"
  by pat_completeness auto
termination
  by (relation "measure (\<lambda>(d, s). length s)") (auto dest: wcstok_shorter)

declare tokens.simps [simp del]

lemma wcstok_token: "wcstok d s = Some (t, r) \<Longrightarrow> t \<noteq> [] \<and> d \<notin> set t"
  by (erule wcstok_SomeE) (auto dest: set_takeWhileD)

lemma tokens_nonempty: "t \<in> set (tokens d s) \<Longrightarrow> t \<noteq> [] \<and> d \<notin> set t"
proof (induction d s rule: tokens.induct)
  case (1 d s)
  show ?case
  proof (cases "wcstok d s")
    case None
    then show ?thesis using "1.prems" by (simp add: tokens.simps [of d s])
  next
    case (Some p)
    obtain u r where p: "p = (u, r)" by (cases p)
    have ih: "t \<in> set (tokens d r) \<Longrightarrow> t \<noteq> [] \<and> d \<notin> set t"
      using "1.IH" [OF Some p [symmetric]] by simp
    have "t = u \<or> t \<in> set (tokens d r)"
      using "1.prems" Some p by (simp add: tokens.simps [of d s])
    then show ?thesis using ih Some p wcstok_token [of d s u r] by blast
  qed
qed

lemma tokens_Nil [simp]: "tokens d [] = []"
  by (simp add: tokens.simps wcstok_def)

lemma wcstok_append:
  assumes "t \<noteq> []" "d \<notin> set t"
  shows "wcstok d (t @ d # r) = Some (t, r)" "wcstok d t = Some (t, [])"
proof -
  obtain a t' where t: "t = a # t'" using assms(1) by (cases t) auto
  have a: "a \<noteq> d" and t': "\<forall>c\<in>set t'. c \<noteq> d" using assms(2) t by auto
  have "takeWhile (\<lambda>c. c \<noteq> d) (t' @ d # r) = t'" "dropWhile (\<lambda>c. c \<noteq> d) (t' @ d # r) = d # r"
    using t' by (auto intro: takeWhile_append_stop dropWhile_append_stop)
  then show "wcstok d (t @ d # r) = Some (t, r)"
    using t a by (simp add: wcstok_def)
  show "wcstok d t = Some (t, [])"
  proof -
    have "dropWhile (\<lambda>c. c \<noteq> d) t' = []" "takeWhile (\<lambda>c. c \<noteq> d) t' = t'"
      using t' by (simp_all add: takeWhile_all)
    then show ?thesis using t a by (simp add: wcstok_def del: dropWhile_eq_Nil_conv)
  qed
qed

lemma tokens_append:
  assumes "t \<noteq> []" "d \<notin> set t"
  shows "tokens d (t @ d # r) = t # tokens d r"
  by (subst tokens.simps) (simp add: wcstok_append [OF assms])

lemma tokens_single:
  assumes "t \<noteq> []" "d \<notin> set t"
  shows "tokens d t = [t]"
  by (subst tokens.simps) (simp add: wcstok_append [OF assms])

text \<open>Joining tokens with the delimiter and splitting again gives the tokens back.\<close>

fun join_path :: "'a \<Rightarrow> 'a list list \<Rightarrow> 'a list" where
  "join_path d [] = []"
| "join_path d [t] = t"
| "join_path d (t # u # ts) = t @ d # join_path d (u # ts)"

lemma tokens_join_path:
  "(\<forall>t\<in>set ts. t \<noteq> [] \<and> d \<notin> set t) \<Longrightarrow> tokens d (join_path d ts) = ts"
  by (induction d ts rule: join_path.induct) (auto simp: tokens_append tokens_single)

section \<open>Decimal numbers\<close>

text \<open>The digits \<open>%u\<close> prints, most significant first.\<close>

fun digits :: "nat \<Rightarrow> nat list" where
  "digits n = (if n < 10 then [n] else digits (n div 10) @ [n mod 10])"

declare digits.simps [simp del]

definition dec :: "nat \<Rightarrow> 'w::len word list" where
  "dec n = map (\<lambda>d. of_nat (48 + d)) (digits n)"

text \<open>
  \<open>atoi\<close>, \<open>_wtoi\<close>: optional white space and sign, then digits; the value of no digits is
  0.  The result is the mathematical value (the C result for values that fit an int).
\<close>

definition is_digit :: "'w::len word \<Rightarrow> bool" where
  "is_digit c \<longleftrightarrow> 48 \<le> c \<and> c \<le> 57"

definition is_space :: "'w::len word \<Rightarrow> bool" where
  "is_space c \<longleftrightarrow> c = 32 \<or> (9 \<le> c \<and> c \<le> 13)"

fun digits_value :: "int \<Rightarrow> 'w::len word list \<Rightarrow> int" where
  "digits_value acc [] = acc"
| "digits_value acc (c # s) =
     (if is_digit c then digits_value (10 * acc + (uint c - 48)) s else acc)"

definition atoi :: "'w::len word list \<Rightarrow> int" where
  "atoi s =
     (case dropWhile is_space s of
        [] \<Rightarrow> 0
      | c # r \<Rightarrow> if c = 45 then - digits_value 0 r
                 else if c = 43 then digits_value 0 r
                 else digits_value 0 (c # r))"

lemma digits_less: "d \<in> set (digits n) \<Longrightarrow> d < 10"
  by (induction n rule: digits.induct) (subst (asm) digits.simps, auto split: if_splits)

lemma digits_Nil [simp]: "digits n \<noteq> []"
  by (subst digits.simps) simp

lemma is_digit_code:
  assumes "d < 10" "8 \<le> LENGTH('w::len)"
  shows "is_digit (of_nat (48 + d) :: 'w word)" "uint (of_nat (48 + d) :: 'w word) = int (48 + d)"
proof -
  have "(2::nat) ^ 8 \<le> 2 ^ LENGTH('w)" using assms(2) by (rule power_increasing) simp
  then have l: "48 + d < 2 ^ LENGTH('w)" "57 < (2::nat) ^ LENGTH('w)" "48 < (2::nat) ^ LENGTH('w)"
    using assms(1) by simp_all
  have u: "unat (of_nat n :: 'w word) = n" if "n < 2 ^ LENGTH('w)" for n
    using that by (simp add: unsigned_of_nat take_bit_nat_eq_self)
  from u [OF l(1)] show "uint (of_nat (48 + d) :: 'w word) = int (48 + d)" by (metis uint_nat)
  have "unat (48 :: 'w word) = 48" "unat (57 :: 'w word) = 57"
    using u [OF l(3)] u [OF l(2)] by simp_all
  then show "is_digit (of_nat (48 + d) :: 'w word)"
    unfolding is_digit_def word_le_nat_alt u [OF l(1)] using assms by simp
qed

lemma digits_value_append:
  "(\<forall>c\<in>set s. is_digit c) \<Longrightarrow> digits_value acc (s @ t) = digits_value (digits_value acc s) t"
  by (induction s arbitrary: acc) auto

lemma digits_value_dec:
  assumes w: "8 \<le> LENGTH('w::len)"
  shows "digits_value 0 (dec n :: 'w word list) = int n"
proof (induction n rule: digits.induct)
  case (1 n)
  show ?case
  proof (cases "n < 10")
    case True
    then have d: "(dec n :: 'w word list) = [of_nat (48 + n)]" by (simp add: dec_def digits.simps)
    show ?thesis unfolding d using is_digit_code [OF True w] by simp
  next
    case False
    have m: "n mod 10 < 10" by simp
    have "(dec n :: 'w word list) = dec (n div 10) @ [of_nat (48 + n mod 10)]"
      using False by (simp add: dec_def digits.simps [of n])
    moreover have "\<forall>c\<in>set (dec (n div 10) :: 'w word list). is_digit c"
      using digits_less is_digit_code(1) [OF _ w] by (auto simp: dec_def)
    moreover have "10 * int (n div 10) + int (n mod 10) = int n"
      by (metis mult_div_mod_eq of_nat_add of_nat_mult of_nat_numeral)
    ultimately show ?thesis
      using "1.IH" [OF False] is_digit_code [OF m w] by (simp add: digits_value_append)
  qed
qed

lemma dec_all_digits: "8 \<le> LENGTH('w::len) \<Longrightarrow> c \<in> set (dec n :: 'w word list) \<Longrightarrow> is_digit c"
  using digits_less is_digit_code(1) by (auto simp: dec_def)

lemma dec_chars: "c \<in> set (dec n :: u8 list) \<Longrightarrow> is_digit c"
  by (rule dec_all_digits) simp_all

lemma digit_not_space:
  assumes "is_digit (c :: u8)"
  shows "\<not> is_space c" "c \<noteq> 45" "c \<noteq> 43" "c \<noteq> 0" "c \<noteq> 61" "c \<noteq> 10"
  using assms by (auto simp: is_digit_def is_space_def word_le_nat_alt)

text \<open>Reading a number back that was printed with \<open>%u\<close>.\<close>

lemma atoi_dec [simp]: "atoi (dec n :: u8 list) = int n"
proof -
  obtain c r where d: "(dec n :: u8 list) = c # r" by (cases "dec n :: u8 list") (auto simp: dec_def)
  then have "is_digit c" using dec_chars [of c n] by simp
  then show ?thesis using digit_not_space [of c] digits_value_dec [where 'w = 8, of n] d by (simp add: atoi_def)
qed

section \<open>Wide strings as bytes\<close>

fun wbytes :: "wstr \<Rightarrow> bytes" where
  "wbytes [] = []"
| "wbytes (c # s) = ucast c # ucast (drop_bit 8 c) # wbytes s"

fun of_wbytes :: "bytes \<Rightarrow> wstr" where
  "of_wbytes (a # b # s) = (ucast a OR push_bit 8 (ucast b)) # of_wbytes s"
| "of_wbytes s = []"

lemma length_wbytes [simp]: "length (wbytes s) = 2 * length s"
  by (induction s rule: wbytes.induct) auto

lemma u16_of_bytes: "ucast (ucast (c :: u16) :: u8) OR push_bit 8 (ucast (ucast (drop_bit 8 c) :: u8)) = c"
proof (rule bit_word_eqI)
  fix n assume n: "n < LENGTH(16)"
  then consider "n < 8" | "8 \<le> n" "n < 16" by fastforce
  then show "bit (ucast (ucast c :: u8) OR push_bit 8 (ucast (ucast (drop_bit 8 c) :: u8)) :: u16) n
      \<longleftrightarrow> bit c n"
    by cases (auto simp: bit_or_iff bit_push_bit_iff bit_ucast_iff bit_drop_bit_eq)
qed

lemma of_wbytes_wbytes [simp]: "of_wbytes (wbytes s) = s"
  by (induction s rule: wbytes.induct) (simp_all add: u16_of_bytes)

end
