(* ===== verification/Import_Table.thy ===== *)
theory Import_Table
  imports C_Strings
begin

text \<open>
  The import address table of a loaded module and its patching: src/iat_helpers.c.  The process
  is a 32-bit one; its address space is a partial map from addresses to bytes, and an access to
  an address that is not mapped is the value None.  The loops over descriptors and thunks have
  no bound in the code and are partial functions; on an image with terminated tables they
  return the result of a search in the list of the imports.
\<close>

section \<open>The address space\<close>

type_synonym ram = "u32 \<Rightarrow> u8 option"

definition load32 :: "ram \<Rightarrow> u32 \<Rightarrow> u32 option" where
  "load32 m a = do {
     b0 \<leftarrow> m a; b1 \<leftarrow> m (a + 1); b2 \<leftarrow> m (a + 2); b3 \<leftarrow> m (a + 3);
     Some (of_le32 [b0, b1, b2, b3]) }"

definition store8 :: "ram \<Rightarrow> u32 \<Rightarrow> u8 \<Rightarrow> ram option" where
  "store8 m a b = (if m a = None then None else Some (m(a \<mapsto> b)))"

fun store_bytes :: "ram \<Rightarrow> u32 \<Rightarrow> bytes \<Rightarrow> ram option" where
  "store_bytes m a [] = Some m"
| "store_bytes m a (b # bs) = do { m \<leftarrow> store8 m a b; store_bytes m (a + 1) bs }"

fun load_bytes :: "ram \<Rightarrow> u32 \<Rightarrow> nat \<Rightarrow> bytes option" where
  "load_bytes m a 0 = Some []"
| "load_bytes m a (Suc n) = do { b \<leftarrow> m a; bs \<leftarrow> load_bytes m (a + 1) n; Some (b # bs) }"

definition store32 :: "ram \<Rightarrow> u32 \<Rightarrow> u32 \<Rightarrow> ram option" where
  "store32 m a w = store_bytes m a (le32 w)"

text \<open>\<open>strcmp\<close> and \<open>_stricmp\<close> of the string at an address with a given one: the comparison stops
  at the first difference.\<close>

fun strcmp_at :: "ram \<Rightarrow> u32 \<Rightarrow> bytes \<Rightarrow> bool option" where
  "strcmp_at m a [] = do { c \<leftarrow> m a; Some (c = 0) }"
| "strcmp_at m a (x # xs) = do {
     c \<leftarrow> m a;
     if c = x then strcmp_at m (a + 1) xs else Some False }"

fun stricmp_at :: "ram \<Rightarrow> u32 \<Rightarrow> bytes \<Rightarrow> bool option" where
  "stricmp_at m a [] = do { c \<leftarrow> m a; Some (c = 0) }"
| "stricmp_at m a (x # xs) = do {
     c \<leftarrow> m a;
     if lower c = lower x then stricmp_at m (a + 1) xs else Some False }"

section \<open>Finding and patching an entry\<close>

text \<open>The two parallel arrays of one descriptor; an entry with bit 31 is an import by ordinal, a
  name stands 2 bytes behind its hint.\<close>

partial_function (option) iat_thunks ::
    "ram \<Rightarrow> u32 \<Rightarrow> bytes \<Rightarrow> u32 \<Rightarrow> u32 \<Rightarrow> u32 option option" where
  "iat_thunks m base fn thunk orig = do {
     a \<leftarrow> load32 m orig;
     if a = 0 then Some None
     else do {
       hit \<leftarrow> (if bit a 31 then Some False else strcmp_at m (base + a + 2) fn);
       if hit then Some (Some thunk) else iat_thunks m base fn (thunk + 4) (orig + 4) } }"

text \<open>The import descriptors, 20 bytes each.\<close>

partial_function (option) iat_descs ::
    "ram \<Rightarrow> u32 \<Rightarrow> bytes \<Rightarrow> bytes \<Rightarrow> u32 \<Rightarrow> u32 option option" where
  "iat_descs m base dll fn desc = do {
     nm \<leftarrow> load32 m (desc + 12);
     if nm = 0 then Some None
     else do {
       same \<leftarrow> stricmp_at m (base + nm) dll;
       r \<leftarrow> (if same then do {
              first \<leftarrow> load32 m (desc + 16);
              orig \<leftarrow> load32 m desc;
              iat_thunks m base fn (base + first) (base + orig) }
            else Some None);
       (case r of Some p \<Rightarrow> Some (Some p) | None \<Rightarrow> iat_descs m base dll fn (desc + 20)) } }"

text \<open>\<open>e_lfanew\<close> is at 60; the virtual address of the import directory is 128 bytes into the
  headers it points to.\<close>

definition GetIATEntry :: "ram \<Rightarrow> u32 \<Rightarrow> bytes \<Rightarrow> bytes \<Rightarrow> u32 option option" where
  "GetIATEntry m base dllName funcName = do {
     lfanew \<leftarrow> load32 m (base + 60);
     va \<leftarrow> load32 m (base + lfanew + 128);
     iat_descs m base dllName funcName (base + va) }"

definition PatchIAT :: "ram \<Rightarrow> u32 \<Rightarrow> u32 \<Rightarrow> ram option" where
  "PatchIAT m iatEntry hookFunc = store32 m iatEntry hookFunc"

text \<open>The macro \<open>PATCH_IAT_ENTRY\<close>, and the same without a warning in src/inject.c.\<close>

definition patch_iat_entry :: "ram \<Rightarrow> u32 \<Rightarrow> bytes \<Rightarrow> bytes \<Rightarrow> u32 \<Rightarrow> ram option" where
  "patch_iat_entry m base dll fn hook = do {
     p \<leftarrow> GetIATEntry m base dll fn;
     (case p of None \<Rightarrow> Some m | Some e \<Rightarrow> PatchIAT m e hook) }"

section \<open>The tables as a list\<close>

datatype import = By_Ordinal | By_Name bytes

record dll_import =
  di_name :: bytes
  di_first :: u32        \<comment> \<open>\<open>FirstThunk\<close>, relative to the base\<close>
  di_imports :: "import list"

text \<open>What the search means: the first import by that name from a module of that name.\<close>

fun find_import :: "bytes \<Rightarrow> u32 \<Rightarrow> import list \<Rightarrow> u32 option" where
  "find_import fn thunk [] = None"
| "find_import fn thunk (x # xs) =
     (if x = By_Name fn then Some thunk else find_import fn (thunk + 4) xs)"

fun find_entry :: "u32 \<Rightarrow> bytes \<Rightarrow> bytes \<Rightarrow> dll_import list \<Rightarrow> u32 option" where
  "find_entry base dll fn [] = None"
| "find_entry base dll fn (d # ds) =
     (case (if icmp_eq (di_name d) dll then find_import fn (base + di_first d) (di_imports d) else None) of
        Some p \<Rightarrow> Some p
      | None \<Rightarrow> find_entry base dll fn ds)"

text \<open>The layout in memory.\<close>

fun cstr_at :: "ram \<Rightarrow> u32 \<Rightarrow> bytes \<Rightarrow> bool" where
  "cstr_at m a [] = (m a = Some 0)"
| "cstr_at m a (x # xs) = (x \<noteq> 0 \<and> m a = Some x \<and> cstr_at m (a + 1) xs)"

definition import_at :: "ram \<Rightarrow> u32 \<Rightarrow> u32 \<Rightarrow> import \<Rightarrow> bool" where
  "import_at m base a x =
     (case x of By_Ordinal \<Rightarrow> bit a 31 | By_Name s \<Rightarrow> \<not> bit a 31 \<and> cstr_at m (base + a + 2) s)"

fun thunks_at :: "ram \<Rightarrow> u32 \<Rightarrow> u32 \<Rightarrow> import list \<Rightarrow> bool" where
  "thunks_at m base orig [] = (load32 m orig = Some 0)"
| "thunks_at m base orig (x # xs) =
     ((case load32 m orig of None \<Rightarrow> False | Some a \<Rightarrow> a \<noteq> 0 \<and> import_at m base a x) \<and>
      thunks_at m base (orig + 4) xs)"

fun descs_at :: "ram \<Rightarrow> u32 \<Rightarrow> u32 \<Rightarrow> dll_import list \<Rightarrow> bool" where
  "descs_at m base desc [] = (load32 m (desc + 12) = Some 0)"
| "descs_at m base desc (d # ds) =
     ((case load32 m (desc + 12) of None \<Rightarrow> False | Some nm \<Rightarrow> nm \<noteq> 0 \<and> cstr_at m (base + nm) (di_name d)) \<and>
      load32 m (desc + 16) = Some (di_first d) \<and>
      (case load32 m desc of None \<Rightarrow> False | Some orig \<Rightarrow> thunks_at m base (base + orig) (di_imports d)) \<and>
      descs_at m base (desc + 20) ds)"

definition image_at :: "ram \<Rightarrow> u32 \<Rightarrow> dll_import list \<Rightarrow> bool" where
  "image_at m base ds =
     (case load32 m (base + 60) of None \<Rightarrow> False
      | Some lfanew \<Rightarrow>
          (case load32 m (base + lfanew + 128) of None \<Rightarrow> False
           | Some va \<Rightarrow> descs_at m base (base + va) ds))"

section \<open>The search is right\<close>

lemma strcmp_at_cstr:
  "cstr_at m a s \<Longrightarrow> 0 \<notin> set t \<Longrightarrow> strcmp_at m a t = Some (s = t)"
  by (induction m a t arbitrary: s rule: strcmp_at.induct) (case_tac s; auto)+

lemma lower_zero: "lower (c :: u8) = 0 \<longleftrightarrow> c = 0"
proof -
  have "c + 32 \<noteq> 0" if "65 \<le> c" "c \<le> 90"
  proof -
    have "unat (c + 32) = unat c + 32"
      using that by (simp add: word_le_nat_alt unat_word_ariths)
    then show ?thesis by auto
  qed
  then show ?thesis by (auto simp: lower_def)
qed

lemma stricmp_at_cstr:
  "cstr_at m a s \<Longrightarrow> 0 \<notin> set t \<Longrightarrow> stricmp_at m a t = Some (icmp_eq s t)"
proof (induction m a t arbitrary: s rule: stricmp_at.induct)
  case (1 m a)
  then show ?case by (cases s) auto
next
  case (2 m a x xs)
  then show ?case
  proof (cases s)
    case Nil
    then have "lower x \<noteq> lower 0" using 2 lower_zero [of x] lower_zero [of 0] by auto
    then show ?thesis using Nil 2 by (auto simp: icmp_eq_def)
  next
    case (Cons y ys)
    then show ?thesis using 2 by (auto simp: icmp_eq_def)
  qed
qed

lemma iat_thunks_find:
  assumes "thunks_at m base orig xs" "0 \<notin> set fn"
  shows "iat_thunks m base fn thunk orig = Some (find_import fn thunk xs)"
  using assms(1)
proof (induction xs arbitrary: thunk orig)
  case Nil
  then show ?case by (subst iat_thunks.simps) simp
next
  case (Cons x xs)
  then obtain a where a: "load32 m orig = Some a" "a \<noteq> 0" "import_at m base a x"
    by (auto split: option.splits)
  have "(if bit a 31 then Some False else strcmp_at m (base + a + 2) fn) = Some (x = By_Name fn)"
    using a(3) strcmp_at_cstr [OF _ assms(2)] by (cases x) (auto simp: import_at_def)
  then show ?case using a Cons by (subst iat_thunks.simps) simp
qed

lemma iat_descs_find:
  assumes "descs_at m base desc ds" "0 \<notin> set fn" "0 \<notin> set dll"
  shows "iat_descs m base dll fn desc = Some (find_entry base dll fn ds)"
  using assms(1)
proof (induction ds arbitrary: desc)
  case Nil
  then show ?case by (subst iat_descs.simps) simp
next
  case (Cons d ds)
  then obtain nm orig where d: "load32 m (desc + 12) = Some nm" "nm \<noteq> 0" "cstr_at m (base + nm) (di_name d)"
      "load32 m (desc + 16) = Some (di_first d)" "load32 m desc = Some orig"
      "thunks_at m base (base + orig) (di_imports d)"
    by (auto split: option.splits)
  show ?case
    using d Cons stricmp_at_cstr [OF d(3) assms(3)] iat_thunks_find [OF d(6) assms(2), of "base + di_first d"]
    by (subst iat_descs.simps) (auto split: option.split)
qed

lemma GetIATEntry_find:
  "image_at m base ds \<Longrightarrow> 0 \<notin> set fn \<Longrightarrow> 0 \<notin> set dll \<Longrightarrow>
   GetIATEntry m base dll fn = Some (find_entry base dll fn ds)"
  by (auto simp: GetIATEntry_def image_at_def iat_descs_find split: option.splits)

section \<open>Stores\<close>

text \<open>The 4 bytes of a slot.\<close>

definition bytes4 :: "u32 \<Rightarrow> u32 set" where
  "bytes4 p = {p, p + 1, p + 2, p + 3}"

definition same_outside :: "u32 set \<Rightarrow> ram \<Rightarrow> ram \<Rightarrow> bool" where
  "same_outside S m m' \<longleftrightarrow> (\<forall>a. a \<notin> S \<longrightarrow> m' a = m a)"

lemma same_outside_trans:
  "same_outside S m m' \<Longrightarrow> same_outside S m' m'' \<Longrightarrow> same_outside S m m''"
  by (simp add: same_outside_def)

lemma same_outside_mono: "same_outside S m m' \<Longrightarrow> S \<subseteq> T \<Longrightarrow> same_outside T m m'"
  by (auto simp: same_outside_def)

lemma succ_distinct:
  "(p :: u32) + 1 \<noteq> p" "p + 2 \<noteq> p" "p + 3 \<noteq> p" "p + 2 \<noteq> p + 1" "p + 3 \<noteq> p + 1" "p + 3 \<noteq> p + 2"
  by simp_all

lemma store32_eq:
  assumes "m p \<noteq> None" "m (p + 1) \<noteq> None" "m (p + 2) \<noteq> None" "m (p + 3) \<noteq> None"
  shows "store32 m p w = Some (m(p \<mapsto> le32 w ! 0, p + 1 \<mapsto> le32 w ! 1, p + 2 \<mapsto> le32 w ! 2, p + 3 \<mapsto> le32 w ! 3))"
  using assms by (simp add: store32_def store8_def le32_def add.commute)

definition slot_mapped :: "ram \<Rightarrow> u32 \<Rightarrow> bool" where
  "slot_mapped m p \<longleftrightarrow> (\<forall>a\<in>bytes4 p. m a \<noteq> None)"

lemma store32_spec:
  assumes "slot_mapped m p"
  shows "\<exists>m'. store32 m p w = Some m' \<and> load32 m' p = Some w \<and> same_outside (bytes4 p) m m' \<and>
    (\<forall>a. m' a = None \<longleftrightarrow> m a = None)"
proof -
  have "m p \<noteq> None" "m (p + 1) \<noteq> None" "m (p + 2) \<noteq> None" "m (p + 3) \<noteq> None"
    using assms by (simp_all add: slot_mapped_def bytes4_def)
  moreover have "[le32 w ! 0, le32 w ! 1, le32 w ! 2, le32 w ! 3] = le32 w" by (simp add: le32_def)
  ultimately show ?thesis
    by (auto simp: store32_eq load32_def same_outside_def bytes4_def succ_distinct)
qed

lemma load32_same: "same_outside S m m' \<Longrightarrow> bytes4 p \<inter> S = {} \<Longrightarrow> load32 m' p = load32 m p"
  by (auto simp: load32_def same_outside_def bytes4_def)

section \<open>The entries of an image\<close>

fun import_slots :: "u32 \<Rightarrow> import list \<Rightarrow> u32 list" where
  "import_slots thunk [] = []"
| "import_slots thunk (x # xs) = thunk # import_slots (thunk + 4) xs"

definition image_slots :: "u32 \<Rightarrow> dll_import list \<Rightarrow> u32 set" where
  "image_slots base ds = (\<Union>d\<in>set ds. set (import_slots (base + di_first d) (di_imports d)))"

lemma find_import_slot: "find_import fn thunk xs = Some p \<Longrightarrow> p \<in> set (import_slots thunk xs)"
  by (induction fn thunk xs rule: find_import.induct) (auto split: if_splits)

lemma find_entry_slot: "find_entry base dll fn ds = Some p \<Longrightarrow> p \<in> image_slots base ds"
  by (induction base dll fn ds rule: find_entry.induct)
    (auto simp: image_slots_def split: option.splits if_splits dest: find_import_slot)

text \<open>A set of loaded modules: their entries are mapped, do not overlap each other, and are not
  part of any table or name, so that writing entries leaves the tables readable.\<close>

type_synonym modules = "(u32 \<times> dll_import list) list"

definition all_slots :: "modules \<Rightarrow> u32 set" where
  "all_slots ms = (\<Union>(base, ds)\<in>set ms. image_slots base ds)"

definition slot_bytes :: "modules \<Rightarrow> u32 set" where
  "slot_bytes ms = (\<Union>p\<in>all_slots ms. bytes4 p)"

definition modules_ok :: "u32 set \<Rightarrow> ram \<Rightarrow> modules \<Rightarrow> bool" where
  \<comment> \<open>\<open>C\<close>: further bytes, of code, that belong neither to tables nor to entries\<close>
  "modules_ok C m ms \<longleftrightarrow>
     C \<inter> slot_bytes ms = {} \<and>
     (\<forall>p\<in>all_slots ms. slot_mapped m p \<and>
        (\<forall>q\<in>all_slots ms. p \<noteq> q \<longrightarrow> bytes4 p \<inter> bytes4 q = {})) \<and>
     (\<forall>m'. same_outside (slot_bytes ms \<union> C) m m' \<longrightarrow> (\<forall>(base, ds)\<in>set ms. image_at m' base ds))"

text \<open>A change of code bytes only.\<close>

lemma modules_ok_code:
  assumes ok: "modules_ok C m ms" and c: "same_outside C m m'" and mapped: "\<forall>a. m a \<noteq> None \<longrightarrow> m' a \<noteq> None"
  shows "modules_ok C m' ms \<and> (\<forall>p\<in>all_slots ms. load32 m' p = load32 m p)"
proof -
  have "same_outside (slot_bytes ms \<union> C) m m'" using c by (auto simp: same_outside_def)
  then have "\<forall>m''. same_outside (slot_bytes ms \<union> C) m' m'' \<longrightarrow> (\<forall>(base, ds)\<in>set ms. image_at m'' base ds)"
    using ok same_outside_trans unfolding modules_ok_def by blast
  moreover have "load32 m' p = load32 m p" if "p \<in> all_slots ms" for p
    using ok that by (intro load32_same [OF c]) (auto simp: modules_ok_def slot_bytes_def)
  ultimately show ?thesis using ok mapped by (auto simp: modules_ok_def slot_mapped_def)
qed

lemma modules_ok_image: "modules_ok C m ms \<Longrightarrow> (base, ds) \<in> set ms \<Longrightarrow> image_at m base ds"
  by (auto simp: modules_ok_def same_outside_def)

text \<open>One patch: the entry found gets the hook, every other entry keeps its value, and the
  modules stay readable.\<close>

lemma patch_iat_entry_step:
  assumes ok: "modules_ok C m ms" and b: "(base, ds) \<in> set ms" and z: "0 \<notin> set fn" "0 \<notin> set dll"
  shows "\<exists>m'. patch_iat_entry m base dll fn hook = Some m' \<and> modules_ok C m' ms \<and>
    same_outside (slot_bytes ms) m m' \<and>
    (\<forall>p\<in>all_slots ms. load32 m' p = (if find_entry base dll fn ds = Some p then Some hook else load32 m p))"
proof (cases "find_entry base dll fn ds")
  case None
  then show ?thesis
    using ok GetIATEntry_find [OF modules_ok_image [OF ok b] z]
    by (intro exI [of _ m]) (simp add: patch_iat_entry_def same_outside_def)
next
  case (Some e)
  have e: "e \<in> all_slots ms" using find_entry_slot [OF Some] b by (auto simp: all_slots_def)
  then have me: "slot_mapped m e" using ok by (simp add: modules_ok_def)
  obtain m' where m': "store32 m e hook = Some m'" "load32 m' e = Some hook" "same_outside (bytes4 e) m m'"
    "\<forall>a. m' a = None \<longleftrightarrow> m a = None"
    using store32_spec [OF me, of hook] by blast
  have same: "same_outside (slot_bytes ms) m m'"
    using m'(3) e by (auto simp: same_outside_def slot_bytes_def)
  have "modules_ok C m' ms"
    using ok m'(4) same_outside_trans [OF same_outside_mono [OF same]]
    by (simp add: modules_ok_def slot_mapped_def)
  moreover have "load32 m' p = load32 m p" if "p \<in> all_slots ms" "p \<noteq> e" for p
    using ok that e by (intro load32_same [OF m'(3)]) (auto simp: modules_ok_def)
  ultimately show ?thesis
    using Some same m'(1,2) GetIATEntry_find [OF modules_ok_image [OF ok b] z]
    by (intro exI [of _ m']) (auto simp: patch_iat_entry_def PatchIAT_def)
qed

section \<open>The lookup\<close>

text \<open>C14. On a module whose import tables are terminated, \<open>GetIATEntry\<close> returns, and its result is
  that of a search in the list of the imports: the entry of the first import by that exact name
  from a module whose name matches without regard to case, imports by ordinal skipped; null
  when there is none.\<close>

theorem GetIATEntry_is_lookup:
  assumes "image_at m base ds" "0 \<notin> set dllName" "0 \<notin> set funcName"
  shows "GetIATEntry m base dllName funcName = Some (find_entry base dllName funcName ds)"
  using assms by (intro GetIATEntry_find)

text \<open>Memory given by its segments, and a module that imports by ordinal 16 and ReadFile from
  KERNEL32.dll.\<close>

definition code_ram :: "u32 \<Rightarrow> bytes \<Rightarrow> ram" where
  "code_ram p bs = (\<lambda>a. if unat (a - p) < length bs then Some (bs ! unat (a - p)) else None)"

fun ram_of :: "(u32 \<times> bytes) list \<Rightarrow> ram" where
  "ram_of [] a = None"
| "ram_of ((p, bs) # segs) a = (case code_ram p bs a of None \<Rightarrow> ram_of segs a | Some b \<Rightarrow> Some b)"

definition demo_ram :: ram where
  "demo_ram = ram_of
     [(0x1003C, le32 0x40), (0x100C0, le32 0x100),
      (0x10100, le32 0x200 @ le32 0 @ le32 0 @ le32 0x300 @ le32 0x210), (0x10120, le32 0),
      (0x10200, le32 0x80000010 @ le32 0x320 @ le32 0), (0x10210, le32 0x11111111 @ le32 0x22222222),
      (0x10300, str ''KERNEL32.dll'' @ [0]), (0x10320, [0, 0] @ str ''ReadFile'' @ [0])]"

definition demo_imports :: "dll_import list" where
  "demo_imports = [\<lparr>di_name = str ''KERNEL32.dll'', di_first = 0x210,
     di_imports = [By_Ordinal, By_Name (str ''ReadFile'')]\<rparr>]"

lemma demo_image: "same_outside {0x10210 .. 0x10217} demo_ram m \<Longrightarrow> image_at m 0x10000 demo_imports"
proof -
  assume s: "same_outside {0x10210 .. 0x10217} demo_ram m"
  have eq: "a < 0x10210 \<or> 0x10217 < a \<Longrightarrow> m a = demo_ram a" for a
    using s unfolding same_outside_def atLeastAtMost_iff not_le [symmetric] by blast
  show ?thesis
    by (simp add: image_at_def demo_imports_def load32_def eq import_at_def
        demo_ram_def code_ram_def le32_def of_le32_def)
qed

theorem GetIATEntry_is_lookup_witness:
  "GetIATEntry demo_ram 0x10000 (str ''kernel32.dll'') (str ''ReadFile'') = Some (Some 0x10214)"
proof -
  have "image_at demo_ram 0x10000 demo_imports" by (rule demo_image) (simp add: same_outside_def)
  from GetIATEntry_is_lookup [OF this, of "str ''kernel32.dll''" "str ''ReadFile''"]
  show ?thesis by (simp add: demo_imports_def icmp_eq_def lower_def)
qed

end
