(* ===== verification/Code_Patching.thy ===== *)
theory Code_Patching
  imports Import_Table
begin

text \<open>
  The patches of machine code in src/emulate_driver_running.c: relative jumps written over the
  start of a function (\<open>InstallVariantInitGlobalHook\<close>), trampolines that keep the overwritten bytes
  (\<open>InstallTrampolineHook\<close>) and the patch of one call site (\<open>InstallSub46c5a0CallSiteHook\<close>).  Addresses wrap at 32 bits, as the
  displacements of the processor do; the protection of pages and the flush of the instruction
  cache have no counterpart.
\<close>

section \<open>Ranges of bytes\<close>

definition span :: "u32 \<Rightarrow> nat \<Rightarrow> u32 set" where
  "span a n = {a + of_nat i |i. i < n}"

lemma in_span_iff: "n \<le> 2 ^ 32 \<Longrightarrow> x \<in> span a n \<longleftrightarrow> unat (x - a) < n"
proof
  assume n: "n \<le> 2 ^ 32" and "x \<in> span a n"
  then obtain i where "i < n" "x - a = of_nat i" by (auto simp: span_def)
  then show "unat (x - a) < n" using n by simp
next
  assume "unat (x - a) < n"
  moreover have "x = a + of_nat (unat (x - a))" by simp
  ultimately show "x \<in> span a n" unfolding span_def by blast
qed

lemma span_Suc: "span a (Suc n) = insert a (span (a + 1) n)"
proof -
  have "\<exists>j. a + of_nat i = a + 1 + of_nat j \<and> j < n" if "i < Suc n" "a + of_nat i \<noteq> a" for i
    using that by (cases i) auto
  moreover have "\<exists>i. a + 1 + of_nat j = a + of_nat i \<and> i < Suc n" if "j < n" for j
    using that by (intro exI [of _ "Suc j"]) simp
  moreover have "\<exists>i. a = a + of_nat i \<and> i < Suc n" by (intro exI [of _ 0]) simp
  ultimately show ?thesis unfolding span_def by auto
qed

lemma span_0 [simp]: "span a 0 = {}"
  by (simp add: span_def)

lemma not_in_later_span: "n < 2 ^ 32 \<Longrightarrow> a \<notin> span (a + 1) n"
  using in_span_iff [of n a "a + 1"] by (simp add: unsigned_minus_1_eq_mask mask_eq_exp_minus_1)

lemma store_bytes_spec:
  assumes "\<forall>x\<in>span a (length bs). m x \<noteq> None" "length bs < 2 ^ 32"
  shows "\<exists>m'. store_bytes m a bs = Some m' \<and> load_bytes m' a (length bs) = Some bs \<and>
    same_outside (span a (length bs)) m m' \<and> (\<forall>x. m' x = None \<longleftrightarrow> m x = None)"
  using assms
proof (induction bs arbitrary: a m)
  case (Cons b bs)
  let ?m = "m(a \<mapsto> b)"
  have map: "\<forall>x\<in>span (a + 1) (length bs). ?m x \<noteq> None" using Cons.prems(1) by (simp add: span_Suc)
  have "length bs < 2 ^ 32" using Cons.prems(2) by simp
  from Cons.IH [OF map this]
  obtain m' where m': "store_bytes ?m (a + 1) bs = Some m'" "load_bytes m' (a + 1) (length bs) = Some bs"
    "same_outside (span (a + 1) (length bs)) ?m m'" "\<forall>x. m' x = None \<longleftrightarrow> ?m x = None"
    by blast
  have "m' a = Some b"
    using m'(3) not_in_later_span [of "length bs" a] Cons.prems(2) by (simp add: same_outside_def)
  moreover have "store8 m a b = Some ?m" using Cons.prems(1) by (simp add: store8_def span_Suc)
  moreover have "m a \<noteq> None" using Cons.prems(1) by (simp add: span_Suc)
  ultimately show ?case using m' by (auto simp: same_outside_def span_Suc)
qed (simp add: same_outside_def)

lemma load_bytes_cong: "(\<forall>x\<in>span a n. m' x = m x) \<Longrightarrow> load_bytes m' a n = load_bytes m a n"
  by (induction n arbitrary: a) (simp_all add: span_Suc)

lemma load_bytes_same: "same_outside S m m' \<Longrightarrow> span a n \<inter> S = {} \<Longrightarrow> load_bytes m' a n = load_bytes m a n"
  by (rule load_bytes_cong) (auto simp: same_outside_def)

lemma load_bytes_length: "load_bytes m a n = Some bs \<Longrightarrow> length bs = n"
  by (induction m a n arbitrary: bs rule: load_bytes.induct) (auto simp: bind_eq_Some)

lemma load_bytes_mapped: "load_bytes m a n = Some bs \<Longrightarrow> x \<in> span a n \<Longrightarrow> m x \<noteq> None"
  by (induction m a n arbitrary: bs rule: load_bytes.induct) (auto simp: bind_eq_Some span_Suc)

lemma mapped_load_bytes: "\<forall>x\<in>span a n. m x \<noteq> None \<Longrightarrow> \<exists>bs. load_bytes m a n = Some bs"
  by (induction m a n rule: load_bytes.induct) (auto simp: span_Suc)

lemma high_bit: "8 \<le> k \<Longrightarrow> \<not> bit (b :: u8) (k + n)"
  using bit_imp_le_length [of b "k + n"] by auto

lemma of_le32_eq: "of_le32 [b0, b1, b2, b3] = r \<longleftrightarrow> [b0, b1, b2, b3] = le32 r"
proof
  assume "of_le32 [b0, b1, b2, b3] = r"
  then have "le32 (of_le32 [b0, b1, b2, b3]) = le32 r" by simp
  moreover have "le32 (of_le32 [b0, b1, b2, b3]) = [b0, b1, b2, b3]"
    by (auto simp: le32_def of_le32_def intro!: bit_word_eqI simp: bit_simps high_bit)
  ultimately show "[b0, b1, b2, b3] = le32 r" by simp
qed (metis of_le32_le32_exact)

lemma load_bytes_4: "load_bytes m a 4 = Some (le32 r) \<longleftrightarrow> load32 m a = Some r"
  by (simp add: load32_def bind_eq_Some numeral_eq_Suc add.assoc of_le32_eq)

lemma load_bytes_5:
  "load_bytes m a 5 = Some (op # le32 r) \<longleftrightarrow> m a = Some op \<and> load32 m (a + 1) = Some r"
proof -
  have "load_bytes m a 5 = do { b \<leftarrow> m a; bs \<leftarrow> load_bytes m (a + 1) 4; Some (b # bs) }"
    using load_bytes.simps(2) [of m a 4] by simp
  then show ?thesis by (auto simp: bind_eq_Some simp flip: load_bytes_4)
qed

section \<open>Jumps\<close>

text \<open>\<open>E9 rel32\<close>; the displacement counts from the end of the instruction.\<close>

definition put_jmp :: "ram \<Rightarrow> u32 \<Rightarrow> u32 \<Rightarrow> ram option" where
  "put_jmp m at target = do {
     m \<leftarrow> store8 m at 0xE9;
     store32 m (at + 1) (target - (at + 5)) }"

text \<open>What the processor makes of it.\<close>

definition jmp_target :: "ram \<Rightarrow> u32 \<Rightarrow> u32 option" where
  "jmp_target m a = do {
     op \<leftarrow> m a;
     rel \<leftarrow> load32 m (a + 1);
     if op = 0xE9 then Some (a + 5 + rel) else None }"

definition Fake_VariantInit :: "u16 option \<Rightarrow> u16 option" where
  \<comment> \<open>the type field of the variant, None for a null pointer\<close>
  "Fake_VariantInit pvarg = map_option (\<lambda>_. 0) pvarg"

definition InstallVariantInitGlobalHook :: "u32 option \<Rightarrow> u32 \<Rightarrow> ram \<Rightarrow> ram option" where
  \<comment> \<open>\<open>realFunc\<close>: the address of VariantInit, None when oleaut32.dll or the function is missing\<close>
  "InstallVariantInitGlobalHook realFunc fake m =
     (case realFunc of None \<Rightarrow> Some m | Some f \<Rightarrow> put_jmp m f fake)"

text \<open>\<open>VirtualAlloc\<close> of less than a page gives a zeroed page.\<close>

definition map_page :: "ram \<Rightarrow> u32 \<Rightarrow> ram" where
  "map_page m p = (\<lambda>a. if unat (a - p) < 4096 then Some 0 else m a)"

text \<open>The trampoline: the first five bytes of the function, then a jump behind them.  The result
  is the pointer stored in \<open>*realFuncOut\<close>, None when it is left as it was.\<close>

definition InstallTrampolineHook ::
    "u32 option \<Rightarrow> u32 option \<Rightarrow> u32 \<Rightarrow> ram \<Rightarrow> (ram \<times> u32 option) option" where
  "InstallTrampolineHook target tramp hookFunc m =
     (case target of
        None \<Rightarrow> Some (m, None)
      | Some t \<Rightarrow>
          (case tramp of
             None \<Rightarrow> Some (m, None)
           | Some tr \<Rightarrow> do {
               let m = map_page m tr;
               bs \<leftarrow> load_bytes m t 5;
               m \<leftarrow> store_bytes m tr bs;
               m \<leftarrow> put_jmp m (tr + 5) (t + 5);
               m \<leftarrow> put_jmp m t hookFunc;
               Some (m, Some tr) }))"

section \<open>The call site\<close>

text \<open>The instructions the trampoline of the call site is made of.\<close>

datatype instr =
    Pushad | Popad
  | Call_Rel u32          \<comment> \<open>the address called\<close>
  | Jmp_Rel u32
  | Push_At u32           \<comment> \<open>push the dword stored at an address\<close>
  | Jmp_At u32            \<comment> \<open>jump to the address stored at an address\<close>

definition decode :: "ram \<Rightarrow> u32 \<Rightarrow> (instr \<times> u32) option" where
  "decode m a = do {
     op \<leftarrow> m a;
     if op = 0x60 then Some (Pushad, a + 1)
     else if op = 0x61 then Some (Popad, a + 1)
     else if op = 0xE8 then do { r \<leftarrow> load32 m (a + 1); Some (Call_Rel (a + 5 + r), a + 5) }
     else if op = 0xE9 then do { r \<leftarrow> load32 m (a + 1); Some (Jmp_Rel (a + 5 + r), a + 5) }
     else if op = 0xFF then do {
       x \<leftarrow> m (a + 1);
       p \<leftarrow> load32 m (a + 2);
       if x = 0x35 then Some (Push_At p, a + 6)
       else if x = 0x25 then Some (Jmp_At p, a + 6)
       else None }
     else None }"

fun decode_run :: "nat \<Rightarrow> ram \<Rightarrow> u32 \<Rightarrow> instr list option" where
  "decode_run 0 m a = Some []"
| "decode_run (Suc n) m a = do {
     (i, a) \<leftarrow> decode m a;
     is \<leftarrow> decode_run n m a;
     Some (i # is) }"

text \<open>\<open>memcpy(p, &g_ReturnAddr, 4)\<close> copies the value of the variable, not its address.\<close>

definition BuildTrampoline :: "u32 option \<Rightarrow> u32 \<Rightarrow> u32 \<Rightarrow> u32 \<Rightarrow> ram \<Rightarrow> ram option" where
  "BuildTrampoline alloc log_fn g_ReturnAddr g_OrigCallTarget m =
     (case alloc of
        None \<Rightarrow> Some m
      | Some g_Trampoline \<Rightarrow> do {
          let m = map_page m g_Trampoline;
          let p = g_Trampoline;
          m \<leftarrow> store_bytes m p [0x60]; let p = p + 1;
          m \<leftarrow> store_bytes m p [0xE8]; let p = p + 1;
          m \<leftarrow> store32 m p (log_fn - p - 4); let p = p + 4;
          m \<leftarrow> store_bytes m p [0x61]; let p = p + 1;
          m \<leftarrow> store_bytes m p [0xFF, 0x35]; let p = p + 2;
          m \<leftarrow> store32 m p g_ReturnAddr; let p = p + 4;
          m \<leftarrow> store_bytes m p [0xFF, 0x25]; let p = p + 2;
          store32 m p g_OrigCallTarget })"

definition InstallSub46c5a0CallSiteHook :: "u32 \<Rightarrow> u32 option \<Rightarrow> u32 \<Rightarrow> ram \<Rightarrow> ram option" where
  "InstallSub46c5a0CallSiteHook base alloc log_fn m = do {
     let callSite = base + 0xB4C5C;
     let returnAddr = base + 0xB4C61;
     origRel \<leftarrow> load32 m (callSite + 1);
     let origTarget = callSite + 5 + origRel;
     m \<leftarrow> BuildTrampoline alloc log_fn returnAddr origTarget m;
     (case alloc of
        None \<Rightarrow> Some m
      | Some tr \<Rightarrow> put_jmp m callSite tr) }"

section \<open>Jumps arrive\<close>

lemma put_jmp_bytes: "put_jmp m at t = store_bytes m at (0xE9 # le32 (t - (at + 5)))"
  by (simp add: put_jmp_def store32_def)

lemma jmp_target_bytes: "load_bytes m a 5 = Some (0xE9 # le32 r) \<Longrightarrow> jmp_target m a = Some (a + 5 + r)"
  by (simp add: load_bytes_5 jmp_target_def)

lemma jmp_target_Some: "jmp_target m a = Some t \<longleftrightarrow> load_bytes m a 5 = Some (0xE9 # le32 (t - (a + 5)))"
  by (auto simp: load_bytes_5 jmp_target_def bind_eq_Some)

lemma put_jmp_spec:
  assumes "\<forall>x\<in>span at 5. m x \<noteq> None"
  shows "\<exists>m'. put_jmp m at t = Some m' \<and> jmp_target m' at = Some t \<and>
    same_outside (span at 5) m m' \<and> (\<forall>x. m' x = None \<longleftrightarrow> m x = None)"
  using store_bytes_spec [of at "0xE9 # le32 (t - (at + 5))" m] assms
  by (auto simp: put_jmp_bytes jmp_target_Some)

lemma jmp_target_same: "same_outside S m m' \<Longrightarrow> span a 5 \<inter> S = {} \<Longrightarrow> jmp_target m' a = jmp_target m a"
proof -
  assume s: "same_outside S m m'" "span a 5 \<inter> S = {}"
  have "jmp_target m' a = Some t \<longleftrightarrow> jmp_target m a = Some t" for t
    unfolding jmp_target_Some load_bytes_same [OF s] ..
  then show ?thesis by (metis option.exhaust)
qed

lemma map_page_mapped: "x \<in> span p 4096 \<Longrightarrow> map_page m p x = Some 0"
  by (simp add: map_page_def in_span_iff)

lemma map_page_other: "x \<notin> span p 4096 \<Longrightarrow> map_page m p x = m x"
  by (simp add: map_page_def in_span_iff)

lemma span_mono: "j + n \<le> k \<Longrightarrow> span (a + of_nat j) n \<subseteq> span a k"
proof
  fix x assume jn: "j + n \<le> k" and "x \<in> span (a + of_nat j) n"
  then obtain i where "x = a + of_nat (j + i)" "i < n" by (auto simp: span_def ac_simps)
  then show "x \<in> span a k" using jn unfolding span_def by (intro CollectI exI [of _ "j + i"]) auto
qed

lemma span_start: "0 < n \<Longrightarrow> a \<in> span a n"
  unfolding span_def by (intro CollectI exI [of _ 0]) simp

lemma span_prefix: "n \<le> k \<Longrightarrow> span a n \<subseteq> span a k"
  using span_mono [of 0 n k a] by simp

lemma spans_apart: "k \<le> j \<Longrightarrow> j + n \<le> 2 ^ 32 \<Longrightarrow> span a k \<inter> span (a + of_nat j) n = {}"
proof (intro equals0I)
  fix x assume b: "k \<le> j" "j + n \<le> 2 ^ 32" and x: "x \<in> span a k \<inter> span (a + of_nat j) n"
  from x obtain i where i: "x = a + of_nat i" "i < k" by (auto simp: span_def)
  from x obtain i' where i': "x = a + of_nat j + of_nat i'" "i' < n" by (auto simp: span_def)
  have "(of_nat i :: u32) = of_nat (j + i')" using i(1) i'(1) by (simp add: add.assoc)
  then have "unat (of_nat i :: u32) = unat (of_nat (j + i') :: u32)" by simp
  moreover have "unat (of_nat i :: u32) = i" using i(2) b by (intro unat_of_nat_u32) simp
  moreover have "unat (of_nat (j + i') :: u32) = j + i'" using i'(2) b by (intro unat_of_nat_u32) simp
  ultimately have "i = j + i'" by linarith
  then show False using i(2) b by simp
qed

lemma trampoline_effect:
  assumes t: "\<forall>x\<in>span t 5. m x \<noteq> None" and fresh: "\<forall>x\<in>span tr 4096. m x = None"
  shows "\<exists>m'. InstallTrampolineHook (Some t) (Some tr) hook m = Some (m', Some tr) \<and>
    jmp_target m' t = Some hook \<and>
    load_bytes m' tr 5 = load_bytes m t 5 \<and> jmp_target m' (tr + 5) = Some (t + 5) \<and>
    same_outside (span t 5 \<union> span tr 4096) m m' \<and> (\<forall>x. m x \<noteq> None \<longrightarrow> m' x \<noteq> None)"
proof -
  let ?m0 = "map_page m tr"
  have sub: "span tr 5 \<subseteq> span tr 4096" "span (tr + 5) 5 \<subseteq> span tr 4096"
    using span_prefix [of 5 4096 tr] span_mono [of 5 5 4096 tr] by simp_all
  have apart: "span tr 5 \<inter> span (tr + 5) 5 = {}" using spans_apart [of 5 5 5 tr] by simp
  have disj: "span t 5 \<inter> span tr 4096 = {}" using t fresh by auto
  obtain bs where bs: "load_bytes m t 5 = Some bs" using mapped_load_bytes [OF t] by blast
  then have bs0: "load_bytes ?m0 t 5 = Some bs" "length bs = 5"
    using load_bytes_cong [of t 5 ?m0 m] disj map_page_other load_bytes_length [OF bs] by auto
  have page: "\<forall>x\<in>span tr 4096. ?m0 x \<noteq> None" by (simp add: map_page_mapped)
  then have "\<forall>x\<in>span tr (length bs). ?m0 x \<noteq> None" using bs0(2) sub(1) by auto
  from store_bytes_spec [OF this] bs0(2)
  obtain m1 where m1: "store_bytes ?m0 tr bs = Some m1" "load_bytes m1 tr 5 = Some bs"
    "same_outside (span tr 5) ?m0 m1" "\<forall>x. m1 x = None \<longleftrightarrow> ?m0 x = None" by auto
  have "\<forall>x\<in>span (tr + 5) 5. m1 x \<noteq> None" using m1(4) sub(2) page by auto
  from put_jmp_spec [OF this]
  obtain m2 where m2: "put_jmp m1 (tr + 5) (t + 5) = Some m2" "jmp_target m2 (tr + 5) = Some (t + 5)"
    "same_outside (span (tr + 5) 5) m1 m2" "\<forall>x. m2 x = None \<longleftrightarrow> m1 x = None" by blast
  have "\<forall>x\<in>span t 5. m2 x \<noteq> None"
    using m2(4) m1(4) t by (auto simp: map_page_def)
  from put_jmp_spec [OF this]
  obtain m3 where m3: "put_jmp m2 t hook = Some m3" "jmp_target m3 t = Some hook"
    "same_outside (span t 5) m2 m3" "\<forall>x. m3 x = None \<longleftrightarrow> m2 x = None" by blast
  have "span tr 5 \<inter> span t 5 = {}" "span (tr + 5) 5 \<inter> span t 5 = {}" using disj sub by auto
  note later = load_bytes_same [OF m3(3) this(1)] jmp_target_same [OF m3(3) this(2)]
  have "load_bytes m3 tr 5 = Some bs"
    using later(1) load_bytes_same [OF m2(3) apart] m1(2) by simp
  moreover have "jmp_target m3 (tr + 5) = Some (t + 5)" using later(2) m2(2) by simp
  moreover have "same_outside (span t 5 \<union> span tr 4096) m m3"
    unfolding same_outside_def
  proof (intro allI impI)
    fix a assume "a \<notin> span t 5 \<union> span tr 4096"
    then have "a \<notin> span t 5" "a \<notin> span tr 4096" "a \<notin> span tr 5" "a \<notin> span (tr + 5) 5" using sub by auto
    then show "m3 a = m a"
      using m1(3) m2(3) m3(3) map_page_other [of a tr m] by (simp add: same_outside_def)
  qed
  moreover have "\<forall>x. m x \<noteq> None \<longrightarrow> m3 x \<noteq> None"
    using m1(4) m2(4) m3(4) by (auto simp: map_page_def)
  ultimately show ?thesis
    using bs bs0 m1(1) m2(1) m3(1,2)
    by (intro exI [of _ m3]) (simp only: InstallTrampolineHook_def Let_def option.case Option.bind.simps simp_thms)
qed

lemma decode_jmp: "decode m a = Some (Jmp_Rel x, n) \<longleftrightarrow> jmp_target m a = Some x \<and> n = a + 5"
proof
  assume "jmp_target m a = Some x \<and> n = a + 5"
  then obtain r where "m a = Some 0xE9" "load32 m (a + 1) = Some r" "x = a + 5 + r" "n = a + 5"
    by (auto simp: jmp_target_def bind_eq_Some split: if_splits)
  then show "decode m a = Some (Jmp_Rel x, n)" by (simp add: decode_def)
qed (auto simp: jmp_target_def decode_def bind_eq_Some split: if_splits)

text \<open>C15. A trampoline hook does what its comments say: control that enters the function goes to
  the hook; the trampoline starts with the five bytes overwritten and continues behind them;
  and nothing else of the mapped memory changes.\<close>

theorem trampoline_hook:
  assumes "\<forall>x\<in>span t 5. m x \<noteq> None" "\<forall>x\<in>span tr 4096. m x = None"
  shows "\<exists>m'. InstallTrampolineHook (Some t) (Some tr) hook m = Some (m', Some tr) \<and>
    decode m' t = Some (Jmp_Rel hook, t + 5) \<and>
    load_bytes m' tr 5 = load_bytes m t 5 \<and> decode m' (tr + 5) = Some (Jmp_Rel (t + 5), tr + 10) \<and>
    same_outside (span t 5 \<union> span tr 4096) m m'"
proof -
  obtain m' where m': "InstallTrampolineHook (Some t) (Some tr) hook m = Some (m', Some tr)"
    "jmp_target m' t = Some hook" "load_bytes m' tr 5 = load_bytes m t 5"
    "jmp_target m' (tr + 5) = Some (t + 5)" "same_outside (span t 5 \<union> span tr 4096) m m'"
    using trampoline_effect [OF assms] by blast
  then show ?thesis by (simp add: decode_jmp add.assoc)
qed

lemma code_ram_None: "length bs = n \<Longrightarrow> n \<le> 2 ^ 32 \<Longrightarrow> code_ram p bs a = None \<longleftrightarrow> a \<notin> span p n"
  by (simp add: code_ram_def in_span_iff)

theorem trampoline_hook_witness:
  "\<exists>m'. InstallTrampolineHook (Some 0x1000) (Some 0x8000) 0x6000
      (code_ram 0x1000 [0x8B, 0xFF, 0x55, 0x8B, 0xEC, 0xC3]) = Some (m', Some 0x8000) \<and>
    decode m' 0x1000 = Some (Jmp_Rel 0x6000, 0x1005) \<and> decode m' 0x8005 = Some (Jmp_Rel 0x1005, 0x800A)"
proof -
  let ?m = "code_ram 0x1000 [0x8B, 0xFF, 0x55, 0x8B, 0xEC, 0xC3]"
  have m: "?m x = None \<longleftrightarrow> x \<notin> span 0x1000 6" for x by (rule code_ram_None) simp_all
  have "\<forall>x\<in>span 0x1000 5. ?m x \<noteq> None" using span_prefix [of 5 6 "0x1000"] m by auto
  moreover have "span 0x8000 4096 \<inter> span (0x1000 :: u32) 6 = {}"
    using spans_apart [of 6 "0x7000" 4096 "0x1000"] by auto
  then have "\<forall>x\<in>span 0x8000 4096. ?m x = None" using m by blast
  ultimately show ?thesis using trampoline_hook [of "0x1000" ?m "0x8000" "0x6000"] by auto
qed

text \<open>The copy of the five bytes is not corrected for its new place: when the function already
  starts with a relative jump, for instance that of an earlier hook, the trampoline jumps as
  far beside the intended target as it lies beside the function, so the original behaviour is
  lost.\<close>

theorem trampoline_moves_relative_jump:
  assumes "decode m t = Some (Jmp_Rel old, n)" "\<forall>x\<in>span t 5. m x \<noteq> None" "\<forall>x\<in>span tr 4096. m x = None"
  shows "\<exists>m'. InstallTrampolineHook (Some t) (Some tr) hook m = Some (m', Some tr) \<and>
    decode m' tr = Some (Jmp_Rel (old + (tr - t)), tr + 5) \<and> old + (tr - t) \<noteq> old"
proof -
  obtain m' where m': "InstallTrampolineHook (Some t) (Some tr) hook m = Some (m', Some tr)"
    "load_bytes m' tr 5 = load_bytes m t 5"
    using trampoline_effect [OF assms(2,3)] by blast
  have "jmp_target m t = Some old"
    using assms(1) by (simp add: decode_jmp)
  then have "load_bytes m' tr 5 = Some (0xE9 # le32 (old - (t + 5)))"
    using m'(2) by (simp add: jmp_target_Some)
  then have "decode m' tr = Some (Jmp_Rel (old + (tr - t)), tr + 5)"
    by (simp add: decode_jmp jmp_target_Some algebra_simps)
  moreover have "tr \<noteq> t"
    using assms(2,3) span_start [of 5 t] span_start [of 4096 tr] by auto
  ultimately show ?thesis using m'(1) by simp
qed

theorem trampoline_moves_relative_jump_witness:
  "\<exists>m'. InstallTrampolineHook (Some 0x1000) (Some 0x8000) 0x6000
      (code_ram 0x1000 [0xE9, 0, 0x10, 0, 0]) = Some (m', Some 0x8000) \<and>
    decode m' 0x8000 = Some (Jmp_Rel 0x9005, 0x8005)"
proof -
  let ?m = "code_ram 0x1000 [0xE9, 0, 0x10, 0, 0]"
  have m: "?m x = None \<longleftrightarrow> x \<notin> span 0x1000 5" for x by (rule code_ram_None) simp_all
  have "span 0x8000 4096 \<inter> span (0x1000 :: u32) 5 = {}"
    using spans_apart [of 5 "0x7000" 4096 "0x1000"] by auto
  then have "\<forall>x\<in>span 0x8000 4096. ?m x = None" using m by blast
  moreover have "\<forall>x\<in>span 0x1000 5. ?m x \<noteq> None" using m by auto
  moreover have "decode ?m 0x1000 = Some (Jmp_Rel 0x2005, 0x1005)"
    by (simp add: decode_def load32_def code_ram_def of_le32_def)
  ultimately show ?thesis using trampoline_moves_relative_jump [of ?m "0x1000" "0x2005" "0x1005" "0x8000" "0x6000"] by auto
qed

section \<open>The trampoline of the call site\<close>

lemma store_bytes_append:
  "store_bytes m a (xs @ ys) = do { m \<leftarrow> store_bytes m a xs; store_bytes m (a + of_nat (length xs)) ys }"
  by (induction m a xs rule: store_bytes.induct) (auto simp: add.assoc bind_assoc intro!: bind_option_cong)

lemma load_bytes_append:
  "load_bytes m a (length xs + n) = Some (xs @ ys) \<longleftrightarrow>
   load_bytes m a (length xs) = Some xs \<and> load_bytes m (a + of_nat (length xs)) n = Some ys"
  by (induction xs arbitrary: a) (auto simp: bind_eq_Some add.assoc)

definition trampoline_code :: "u32 \<Rightarrow> u32 \<Rightarrow> u32 \<Rightarrow> bytes" where
  "trampoline_code rel ret target =
     [0x60, 0xE8] @ le32 rel @ [0x61, 0xFF, 0x35] @ le32 ret @ [0xFF, 0x25] @ le32 target"

lemma BuildTrampoline_bytes:
  "BuildTrampoline (Some tr) log_fn ret target m =
   store_bytes (map_page m tr) tr (trampoline_code (log_fn - tr - 6) ret target)"
proof -
  have "log_fn - (tr + 1 + 1) - 4 = log_fn - tr - 6" by simp
  then show ?thesis
    unfolding BuildTrampoline_def trampoline_code_def Let_def option.case store32_def
      store_bytes_append length_append
    by (simp add: add.assoc cong: bind_option_cong)
qed

lemma trampoline_decodes:
  assumes "load_bytes m tr 19 = Some (trampoline_code rel ret target)"
  shows "decode_run 5 m tr = Some [Pushad, Call_Rel (tr + 6 + rel), Popad, Push_At ret, Jmp_At target]"
proof -
  let ?l4 = "le32 target"
  let ?l3 = "[0xFF, 0x25] @ ?l4"
  let ?l2 = "[0x61, 0xFF, 0x35] @ le32 ret @ ?l3"
  have a: "load_bytes m tr (length [0x60, 0xE8 :: u8] + 17) = Some ([0x60, 0xE8] @ le32 rel @ ?l2)"
    using assms by (simp add: trampoline_code_def)
  from iffD1 [OF load_bytes_append a] have 1: "m tr = Some 0x60" "m (tr + 1) = Some 0xE8"
    and b: "load_bytes m (tr + 2) (length (le32 rel) + 13) = Some (le32 rel @ ?l2)"
    by (auto simp: bind_eq_Some)
  from iffD1 [OF load_bytes_append b] have 2: "load32 m (tr + 2) = Some rel"
    and c: "load_bytes m (tr + 6) (length [0x61, 0xFF, 0x35 :: u8] + 10) = Some ?l2"
    by (auto simp: load_bytes_4 add.assoc)
  from iffD1 [OF load_bytes_append c]
  have 3: "m (tr + 6) = Some 0x61" "m (tr + 7) = Some 0xFF" "m (tr + 8) = Some 0x35"
    and d: "load_bytes m (tr + 9) (length (le32 ret) + 6) = Some (le32 ret @ ?l3)"
    by (auto simp: bind_eq_Some add.assoc)
  from iffD1 [OF load_bytes_append d] have 4: "load32 m (tr + 9) = Some ret"
    and e: "load_bytes m (tr + 13) (length [0xFF, 0x25 :: u8] + 4) = Some ?l3"
    by (auto simp: load_bytes_4 add.assoc)
  from iffD1 [OF load_bytes_append e]
  have 5: "m (tr + 13) = Some 0xFF" "m (tr + 14) = Some 0x25" "load32 m (tr + 15) = Some target"
    by (auto simp: bind_eq_Some load_bytes_4 add.assoc)
  have run: "decode_run 5 m tr = decode_run (Suc (Suc (Suc (Suc (Suc 0))))) m tr" by (simp add: numeral_eq_Suc)
  show ?thesis
    unfolding run using 1 2 3 4 5 by (simp add: decode_def add.assoc)
qed

text \<open>The patch of the call site does not reach the function it stands for: the call becomes a
  jump to the trampoline, but the trampoline pushes and jumps through memory operands whose
  addresses are the return address and the function themselves, so it continues at whatever
  address the first four code bytes of the function spell.\<close>

theorem call_site_jumps_through_code:
  assumes c: "decode m (base + 0xB4C5C) = Some (Call_Rel f, n)" and f: "load32 m f = Some w"
    and page: "\<forall>x\<in>span tr 4096. m x = None" and apart: "span (base + 0xB4C5C) 5 \<inter> bytes4 f = {}"
  shows "\<exists>m'. InstallSub46c5a0CallSiteHook base (Some tr) log_fn m = Some m' \<and>
    decode m' (base + 0xB4C5C) = Some (Jmp_Rel tr, n) \<and>
    decode_run 5 m' tr =
      Some [Pushad, Call_Rel log_fn, Popad, Push_At (base + 0xB4C61), Jmp_At f] \<and>
    load32 m' f = Some w"
proof -
  let ?s = "base + 0xB4C5C"
  let ?code = "trampoline_code (log_fn - tr - 6) (base + 0xB4C61) f"
  obtain r where r: "m ?s = Some 0xE8" "load32 m (?s + 1) = Some r" "f = ?s + 5 + r" "n = ?s + 5"
    using c by (auto simp: decode_def bind_eq_Some split: if_splits)
  have site: "\<forall>x\<in>span ?s 5. m x \<noteq> None"
    using load_bytes_5 [of m ?s "0xE8" r] r load_bytes_mapped by blast
  have lc: "length ?code = 19" by (simp add: trampoline_code_def)
  have sub: "span tr 19 \<subseteq> span tr 4096" by (rule span_prefix) simp
  have "\<forall>x\<in>span tr (length ?code). map_page m tr x \<noteq> None"
    unfolding lc using sub map_page_mapped [of _ tr m] by auto
  from store_bytes_spec [OF this] lc
  obtain m1 where m1: "store_bytes (map_page m tr) tr ?code = Some m1" "load_bytes m1 tr 19 = Some ?code"
    "same_outside (span tr 19) (map_page m tr) m1" "\<forall>x. m1 x = None \<longleftrightarrow> map_page m tr x = None"
    by auto
  have "\<forall>x\<in>span ?s 5. m1 x \<noteq> None" using m1(4) site by (auto simp: map_page_def)
  from put_jmp_spec [OF this]
  obtain m2 where m2: "put_jmp m1 ?s tr = Some m2" "jmp_target m2 ?s = Some tr"
    "same_outside (span ?s 5) m1 m2" by blast
  have "span tr 19 \<inter> span ?s 5 = {}" using sub site page by blast
  then have "load_bytes m2 tr 19 = Some ?code" using load_bytes_same [OF m2(3)] m1(2) by simp
  from trampoline_decodes [OF this]
  have "decode_run 5 m2 tr = Some [Pushad, Call_Rel log_fn, Popad, Push_At (base + 0xB4C61), Jmp_At f]"
    by simp
  moreover have "InstallSub46c5a0CallSiteHook base (Some tr) log_fn m = Some m2"
    using m1(1) m2(1) r(2,3) by (simp add: InstallSub46c5a0CallSiteHook_def Let_def BuildTrampoline_bytes)
  moreover have "load32 m2 f = Some w"
  proof -
    have "m x \<noteq> None" if "x \<in> bytes4 f" for x
      using f that by (auto simp: load32_def bytes4_def bind_eq_Some)
    then have away: "x \<notin> span tr 4096" if "x \<in> bytes4 f" for x using that page by blast
    have "m2 x = m x" if x: "x \<in> bytes4 f" for x
    proof -
      have "x \<notin> span ?s 5" "x \<notin> span tr 19" using x apart sub away [OF x] by auto
      then show ?thesis
        using m1(3) m2(3) map_page_other [OF away [OF x], of m] by (simp add: same_outside_def)
    qed
    then show ?thesis using f by (simp add: load32_def bytes4_def)
  qed
  ultimately show ?thesis using m2(2) r(4) by (auto simp: decode_jmp)
qed

theorem call_site_jumps_through_code_witness:
  "\<exists>m'. InstallSub46c5a0CallSiteHook 0 (Some 0x800000) 0x123456
      (code_ram 0xB4C5C [0xE8, 3, 0, 0, 0, 0xC3, 0x90, 0x90, 0x55, 0x8B, 0xEC, 0x51]) = Some m' \<and>
    decode_run 5 m' 0x800000 =
      Some [Pushad, Call_Rel 0x123456, Popad, Push_At 0xB4C61, Jmp_At 0xB4C64] \<and>
    load32 m' 0xB4C64 = Some 0x51EC8B55"
proof -
  let ?m = "code_ram 0xB4C5C [0xE8, 3, 0, 0, 0, 0xC3, 0x90, 0x90, 0x55, 0x8B, 0xEC, 0x51]"
  have m: "?m x = None \<longleftrightarrow> x \<notin> span 0xB4C5C 12" for x by (rule code_ram_None) simp_all
  have "span 0x800000 4096 \<inter> span (0xB4C5C :: u32) 12 = {}"
    using spans_apart [of 12 "0x74B3A4" 4096 "0xB4C5C"] by auto
  then have "\<forall>x\<in>span 0x800000 4096. ?m x = None" using m by blast
  moreover have "decode ?m (0 + 0xB4C5C) = Some (Call_Rel 0xB4C64, 0xB4C61)"
    by (simp add: decode_def load32_def code_ram_def of_le32_def)
  moreover have "load32 ?m 0xB4C64 = Some 0x51EC8B55"
    by (simp add: load32_def code_ram_def of_le32_def)
  moreover have "span (0 + 0xB4C5C) 5 \<inter> bytes4 0xB4C64 = {}" by (simp add: in_span_iff bytes4_def)
  ultimately show ?thesis
    using call_site_jumps_through_code [of ?m 0 "0xB4C64" "0xB4C61" "0x51EC8B55" "0x800000" "0x123456"] by auto
qed

end
