(* ===== verification/Hook_Install.thy ===== *)
theory Hook_Install
  imports Code_Patching
begin

text \<open>
  The installation of all hooks: \<open>InstallHooks\<close> in src/inject.c, \<open>InstallSecurityHooks\<close> and
  \<open>EmulateDriverRunning_InstallHooks\<close> in src/emulate_driver_running.c (the build without
  REGISTER_HOOKS_REAL).  What the loader answers is the record \<open>process_env\<close>; handles and
  addresses are numbers, 0 is null.  Every hook is named after the function it replaces
  (\<open>Hook_CreateFileW\<close> for CreateFileW), so its address is a function of that name.
\<close>

record process_env =
  pe_exe :: u32
  pe_loaded :: "bytes \<Rightarrow> u32"             \<comment> \<open>\<open>GetModuleHandleW\<close>\<close>
  pe_load :: "bytes \<Rightarrow> u32"               \<comment> \<open>\<open>LoadLibraryW\<close>\<close>
  pe_self :: u32                          \<comment> \<open>the module of the hooks\<close>
  pe_proc :: "u32 \<Rightarrow> bytes \<Rightarrow> u32"        \<comment> \<open>\<open>GetProcAddress\<close>\<close>
  pe_alloc :: "nat \<Rightarrow> u32"                \<comment> \<open>the n-th \<open>VirtualAlloc\<close>\<close>
  pe_hook :: "bytes \<Rightarrow> u32"               \<comment> \<open>the address of our function for a name\<close>

text \<open>The memory, the pointers \<open>Real_...\<close> by name, and the number of pages allocated.\<close>

record hstate =
  h_ram :: ram
  h_real :: "bytes \<Rightarrow> u32"
  h_allocs :: nat

type_synonym step = "hstate \<Rightarrow> hstate option"

fun run_steps :: "step list \<Rightarrow> step" where
  "run_steps [] s = Some s"
| "run_steps (f # fs) s = do { s \<leftarrow> f s; run_steps fs s }"

definition set_real :: "bytes \<Rightarrow> u32 \<Rightarrow> step" where
  "set_real fn p s = Some (s\<lparr>h_real := (h_real s)(fn := p)\<rparr>)"

definition null_opt :: "u32 \<Rightarrow> u32 option" where
  "null_opt p = (if p = 0 then None else Some p)"

text \<open>The modules.\<close>

definition ADVAPI32 :: bytes where "ADVAPI32 = str ''advapi32.dll''"
definition KERNEL32 :: bytes where "KERNEL32 = str ''kernel32.dll''"
definition SETUPAPI :: bytes where "SETUPAPI = str ''setupapi.dll''"
definition OLE32 :: bytes where "OLE32 = str ''ole32.dll''"
definition IPHLPAPI :: bytes where "IPHLPAPI = str ''iphlpapi.dll''"
definition RVROLCLIENT :: bytes where "RVROLCLIENT = str ''RvROLClient.dll''"
definition OLEAUT32 :: bytes where "OLEAUT32 = str ''oleaut32.dll''"

section \<open>Single patches\<close>

definition patch :: "process_env \<Rightarrow> u32 \<Rightarrow> bytes \<Rightarrow> bytes \<Rightarrow> step" where
  "patch e base dll fn s =
     map_option (\<lambda>m. s\<lparr>h_ram := m\<rparr>) (patch_iat_entry (h_ram s) base dll fn (pe_hook e fn))"

text \<open>\<open>PATCH_IAT_EXE_AND_DLL\<close> and \<open>PATCH_IAT_EXE_AND_DLL_AND_SELF\<close>.\<close>

definition patch_exe_and_dll :: "process_env \<Rightarrow> u32 \<Rightarrow> bytes \<Rightarrow> bytes \<Rightarrow> step" where
  "patch_exe_and_dll e hOriginalDll dll fn s = do {
     s \<leftarrow> patch e (pe_exe e) dll fn s;
     if hOriginalDll \<noteq> 0 then patch e hOriginalDll dll fn s else Some s }"

definition patch_exe_dll_self :: "process_env \<Rightarrow> u32 \<Rightarrow> bytes \<Rightarrow> bytes \<Rightarrow> step" where
  "patch_exe_dll_self e hOriginalDll dll fn s = do {
     s \<leftarrow> patch_exe_and_dll e hOriginalDll dll fn s;
     if pe_self e \<noteq> 0 then patch e (pe_self e) dll fn s else Some s }"

text \<open>Resolve the real function; patch when it exists.\<close>

definition patch_if_found :: "process_env \<Rightarrow> u32 \<Rightarrow> u32 \<Rightarrow> bytes \<Rightarrow> bytes \<Rightarrow> step" where
  "patch_if_found e hOriginalDll hMod dll fn s = do {
     s \<leftarrow> set_real fn (pe_proc e hMod fn) s;
     if h_real s fn \<noteq> 0 then patch_exe_and_dll e hOriginalDll dll fn s else Some s }"

definition trampoline :: "process_env \<Rightarrow> bytes \<Rightarrow> step" where
  "trampoline e fn s =
     (let adv = pe_loaded e ADVAPI32 in
      if adv = 0 then Some s
      else do {
        (m, r) \<leftarrow> InstallTrampolineHook (null_opt (pe_proc e adv fn)) (null_opt (pe_alloc e (h_allocs s)))
                    (pe_hook e fn) (h_ram s);
        Some (s\<lparr>h_ram := m,
                h_real := (case r of None \<Rightarrow> h_real s | Some tr \<Rightarrow> (h_real s)(fn := tr)),
                h_allocs := (if pe_proc e adv fn = 0 then h_allocs s else h_allocs s + 1)\<rparr>) })"

section \<open>The lists\<close>

definition device_hooks :: "bytes list" where
  "device_hooks = map str [''CreateFileW'', ''ReadFile'', ''WriteFile'', ''CloseHandle'',
     ''DeviceIoControl'', ''GetOverlappedResult'']"

definition service_hooks :: "bytes list" where
  "service_hooks = map str [''QueryServiceStatus'', ''QueryServiceConfigW'', ''OpenSCManagerW'',
     ''OpenServiceW'', ''StartServiceW'']"

definition registry_hooks :: "bytes list" where
  "registry_hooks = map str [''RegOpenKeyW'', ''RegOpenKeyExW'', ''RegQueryValueExW'', ''RegCloseKey'',
     ''RegCreateKeyExW'', ''RegSetValueExW'', ''RegDeleteValueW'', ''RegNotifyChangeKeyValue'',
     ''RegCreateKeyW'', ''RegDeleteKeyW'', ''RegDeleteKeyExW'', ''RegEnumKeyW'', ''RegEnumKeyExW'',
     ''RegEnumValueW'', ''RegGetValueW'', ''RegSetKeySecurity'', ''RegGetKeySecurity'',
     ''RegQueryInfoKeyW'', ''RegDeleteTreeW'', ''RegCopyTreeW'']"

definition setup_hooks :: "bytes list" where
  "setup_hooks = map str [''SetupDiGetClassDevsW'', ''SetupDiEnumDeviceInfo'',
     ''SetupDiGetDeviceRegistryPropertyW'']"

definition blocked_security_hooks :: "bytes list" where
  "blocked_security_hooks = map str [''RegSetKeySecurity'', ''SetSecurityInfo'']"

definition descriptor_hooks :: "bytes list" where
  "descriptor_hooks = map str [''InitializeSecurityDescriptor'', ''InitializeAcl'', ''GetLengthSid'',
     ''IsValidSid'', ''AddAccessAllowedAce'', ''SetSecurityDescriptorDacl'',
     ''SetSecurityDescriptorOwner'', ''IsValidSecurityDescriptor'']"

definition late_security_hooks :: "bytes list" where
  "late_security_hooks = map str [''AddAccessDeniedAce'', ''FreeSid'']"

definition real_service_functions :: "bytes list" where
  "real_service_functions = service_hooks"

section \<open>Installation\<close>

text \<open>In src/inject.c: only the entries of the executable.\<close>

definition InstallHooks :: "process_env \<Rightarrow> step" where
  "InstallHooks e s = do {
     let hKernel32 = pe_loaded e KERNEL32;
     s \<leftarrow> (if hKernel32 \<noteq> 0
          then run_steps (map (\<lambda>fn. set_real fn (pe_proc e hKernel32 fn)) device_hooks) s else Some s);
     run_steps (map (patch e (pe_exe e) KERNEL32) device_hooks) s }"

definition InstallSecurityHooks :: "process_env \<Rightarrow> u32 \<Rightarrow> step" where
  "InstallSecurityHooks e hAdvapi32 s = do {
     let when_real = (\<lambda>f fn s. if h_real s fn \<noteq> 0 then f fn s else Some s);
     s \<leftarrow> run_steps (map (trampoline e) blocked_security_hooks) s;
     s \<leftarrow> run_steps (map (when_real (patch e (pe_exe e) ADVAPI32)) blocked_security_hooks) s;
     s \<leftarrow> run_steps (map (\<lambda>fn. set_real fn (pe_proc e hAdvapi32 fn)) descriptor_hooks) s;
     s \<leftarrow> run_steps (map (when_real (trampoline e)) descriptor_hooks) s;
     s \<leftarrow> run_steps (map (\<lambda>fn. set_real fn (pe_proc e hAdvapi32 fn)) late_security_hooks) s;
     s \<leftarrow> run_steps (map (when_real (trampoline e)) late_security_hooks) s;
     run_steps (map (when_real (patch e (pe_exe e) ADVAPI32)) descriptor_hooks) s }"

text \<open>The module of the original DLL: the one given, else loaded if need be, else none.\<close>

definition original_dll :: "process_env \<Rightarrow> u32 \<Rightarrow> u32" where
  "original_dll e hOriginalDll =
     (if hOriginalDll \<noteq> 0 then hOriginalDll
      else if pe_loaded e RVROLCLIENT \<noteq> 0 then pe_loaded e RVROLCLIENT
      else pe_load e RVROLCLIENT)"

text \<open>The pointers \<open>Register_InstallHooks\<close> of src/register.c resolves for the registry functions.\<close>

definition registry_reals :: "process_env \<Rightarrow> u32 \<Rightarrow> step" where
  "registry_reals e hAdvapi32 = run_steps (map (\<lambda>fn. set_real fn (pe_proc e hAdvapi32 fn)) registry_hooks)"

definition variant_init_hook :: "process_env \<Rightarrow> step" where
  "variant_init_hook e s =
     (let h = pe_loaded e OLEAUT32;
          f = (if h = 0 then 0 else pe_proc e h (str ''VariantInit'')) in
      map_option (\<lambda>m. s\<lparr>h_ram := m\<rparr>)
        (InstallVariantInitGlobalHook (null_opt f) (pe_hook e (str ''VariantInit'')) (h_ram s)))"

definition iphlpapi_hooks :: "process_env \<Rightarrow> u32 \<Rightarrow> step" where
  "iphlpapi_hooks e hDll s = do {
     let hIphlpapi = pe_loaded e IPHLPAPI;
     let names = map str [''GetAdaptersInfo'', ''GetAdaptersAddresses''];
     s \<leftarrow> (if hIphlpapi \<noteq> 0 then run_steps (map (\<lambda>fn. set_real fn (pe_proc e hIphlpapi fn)) names) s
          else Some s);
     run_steps (map (\<lambda>fn s. if h_real s fn \<noteq> 0 then patch_exe_and_dll e hDll IPHLPAPI fn s else Some s)
       names) s }"

definition EmulateDriverRunning_InstallHooks :: "process_env \<Rightarrow> u32 \<Rightarrow> step" where
  "EmulateDriverRunning_InstallHooks e hOriginal s = do {
     let hDll = original_dll e hOriginal;
     let hAdvapi32 = pe_loaded e ADVAPI32;
     let hSetupapi = pe_load e SETUPAPI;
     let hOle32 = pe_loaded e OLE32;
     s \<leftarrow> run_steps (map (\<lambda>fn. set_real fn (pe_proc e hAdvapi32 fn)) real_service_functions) s;
     s \<leftarrow> run_steps (map (\<lambda>fn. set_real fn (pe_proc e hSetupapi fn)) setup_hooks) s;
     s \<leftarrow> set_real (str ''CoCreateInstance'') (pe_proc e hOle32 (str ''CoCreateInstance'')) s;
     s \<leftarrow> run_steps (map (patch_exe_and_dll e hDll ADVAPI32) service_hooks) s;
     s \<leftarrow> run_steps (map (patch_exe_dll_self e hDll ADVAPI32) registry_hooks) s;
     s \<leftarrow> registry_reals e hAdvapi32 s;
     s \<leftarrow> run_steps (map (patch_exe_and_dll e hDll SETUPAPI) setup_hooks) s;
     s \<leftarrow> patch_exe_and_dll e hDll OLE32 (str ''CoCreateInstance'') s;
     let hKernel32 = pe_loaded e KERNEL32;
     s \<leftarrow> run_steps (map (patch_if_found e hDll hKernel32 KERNEL32)
            (map str [''CreateProcessW'', ''CreateProcessAsUserW''])) s;
     s \<leftarrow> variant_init_hook e s;
     s \<leftarrow> run_steps (map (patch_if_found e hDll hKernel32 KERNEL32)
            (map str [''ExitProcess'', ''TerminateProcess'', ''WaitForSingleObject''])) s;
     s \<leftarrow> iphlpapi_hooks e hDll s;
     InstallSecurityHooks e hAdvapi32 s }"

end
