(* ===== verification/Hook_Install_Properties.thy ===== *)
theory Hook_Install_Properties
  imports Hook_Install
begin

text \<open>
  What the installation of the hooks achieves, proved by composing the effects of its steps: each
  step keeps the import tables of the loaded modules readable, and changes an entry only to the
  hook of the function the entry is named after.
\<close>

section \<open>Entries and their names\<close>

fun slot_list :: "u32 \<Rightarrow> import list \<Rightarrow> (u32 \<times> import) list" where
  "slot_list thunk [] = []"
| "slot_list thunk (x # xs) = (thunk, x) # slot_list (thunk + 4) xs"

definition named_slots :: "modules \<Rightarrow> (u32 \<times> import) list" where
  "named_slots ms =
     concat (map (\<lambda>(base, ds). concat (map (\<lambda>d. slot_list (base + di_first d) (di_imports d)) ds)) ms)"

lemma slot_list_slots: "map fst (slot_list thunk xs) = import_slots thunk xs"
  by (induction thunk xs rule: slot_list.induct) simp_all

lemma all_slots_named: "all_slots ms = fst ` set (named_slots ms)"
  by (force simp: all_slots_def image_slots_def named_slots_def simp flip: slot_list_slots)

lemma find_import_named: "find_import fn thunk xs = Some p \<Longrightarrow> (p, By_Name fn) \<in> set (slot_list thunk xs)"
  by (induction fn thunk xs rule: find_import.induct) (auto split: if_splits)

lemma find_entry_in_list: "find_entry base dll fn ds = Some p \<Longrightarrow>
    \<exists>d\<in>set ds. (p, By_Name fn) \<in> set (slot_list (base + di_first d) (di_imports d))"
  by (induction base dll fn ds rule: find_entry.induct)
    (auto split: option.splits if_splits dest: find_import_named)

lemma find_entry_named:
  "(base, ds) \<in> set ms \<Longrightarrow> find_entry base dll fn ds = Some p \<Longrightarrow> (p, By_Name fn) \<in> set (named_slots ms)"
  using find_entry_in_list [of base dll fn ds p] by (force simp: named_slots_def)

lemma slot_name_unique:
  "distinct (map fst (named_slots ms)) \<Longrightarrow> (p, x) \<in> set (named_slots ms) \<Longrightarrow> (p, y) \<in> set (named_slots ms) \<Longrightarrow> x = y"
  by (rule eq_key_imp_eq_value)

section \<open>The process the hooks are installed in\<close>

definition trampolined :: "bytes list" where
  "trampolined = blocked_security_hooks @ descriptor_hooks @ late_security_hooks"

text \<open>The functions whose code is patched.\<close>

definition code_starts :: "process_env \<Rightarrow> u32 set" where
  "code_starts e =
     ({pe_proc e (pe_loaded e OLEAUT32) (str ''VariantInit'')} \<union>
      pe_proc e (pe_loaded e ADVAPI32) ` set trampolined) - {0}"

text \<open>What the loader provides: the tables of the modules \<open>ms\<close> are in order, each entry has its own
  address, and a handle in use is one of the modules; the functions and the pages that
  \<open>VirtualAlloc\<close> will give are in \<open>C\<close>, apart from the tables, and the pages apart from each other.\<close>

definition loaded_ok :: "process_env \<Rightarrow> u32 \<Rightarrow> u32 set \<Rightarrow> modules \<Rightarrow> bool" where
  "loaded_ok e hDll C ms \<longleftrightarrow>
     distinct (map fst (named_slots ms)) \<and> distinct (map fst ms) \<and>
     {pe_exe e, hDll, pe_self e} - {0} \<subseteq> fst ` set ms \<and> pe_exe e \<noteq> 0 \<and>
     (\<forall>f\<in>code_starts e. span f 5 \<subseteq> C) \<and>
     (\<forall>n. pe_alloc e n \<noteq> 0 \<longrightarrow> span (pe_alloc e n) 4096 \<subseteq> C) \<and>
     (\<forall>i j. i \<noteq> j \<longrightarrow> pe_alloc e i \<noteq> 0 \<longrightarrow> pe_alloc e j \<noteq> 0 \<longrightarrow>
        span (pe_alloc e i) 4096 \<inter> span (pe_alloc e j) 4096 = {})"

definition installing :: "process_env \<Rightarrow> u32 set \<Rightarrow> modules \<Rightarrow> hstate \<Rightarrow> bool" where
  "installing e C ms s \<longleftrightarrow>
     modules_ok C (h_ram s) ms \<and>
     (\<forall>f\<in>code_starts e. \<forall>x\<in>span f 5. h_ram s x \<noteq> None) \<and>
     (\<forall>n\<ge>h_allocs s. pe_alloc e n \<noteq> 0 \<longrightarrow> (\<forall>x\<in>span (pe_alloc e n) 4096. h_ram s x = None))"

section \<open>Effects\<close>

text \<open>The entries \<open>D\<close> end up with their hooks, and an entry whose name is not in \<open>N\<close> is as before.\<close>

definition patched :: "process_env \<Rightarrow> modules \<Rightarrow> (u32 \<times> bytes \<times> bytes) set \<Rightarrow> ram \<Rightarrow> bool" where
  "patched e ms D m \<longleftrightarrow>
     (\<forall>(base, dll, fn)\<in>D. \<forall>ds p. (base, ds) \<in> set ms \<longrightarrow> find_entry base dll fn ds = Some p \<longrightarrow>
        load32 m p = Some (pe_hook e fn))"

definition only_named :: "process_env \<Rightarrow> modules \<Rightarrow> bytes set \<Rightarrow> ram \<Rightarrow> ram \<Rightarrow> bool" where
  "only_named e ms N m m' \<longleftrightarrow>
     (\<forall>(p, x)\<in>set (named_slots ms).
        load32 m' p = load32 m p \<or> (\<exists>fn\<in>N. x = By_Name fn \<and> load32 m' p = Some (pe_hook e fn)))"

definition achieves :: "process_env \<Rightarrow> u32 set \<Rightarrow> modules \<Rightarrow> step \<Rightarrow> (u32 \<times> bytes \<times> bytes) set \<Rightarrow> bytes set \<Rightarrow> bool" where
  "achieves e C ms f D N \<longleftrightarrow>
     (\<forall>s. installing e C ms s \<longrightarrow>
       (\<exists>s'. f s = Some s' \<and> installing e C ms s' \<and> patched e ms D (h_ram s') \<and>
         only_named e ms N (h_ram s) (h_ram s')))"

lemma only_named_trans:
  "only_named e ms N m m' \<Longrightarrow> only_named e ms N' m' m'' \<Longrightarrow> only_named e ms (N \<union> N') m m''"
  unfolding only_named_def by fastforce

lemma patched_keeps:
  assumes d: "distinct (map fst (named_slots ms))" and p: "patched e ms D m" and o: "only_named e ms N m m'"
  shows "patched e ms D m'"
  unfolding patched_def
proof (clarify)
  fix base dll fn ds p
  assume D: "(base, dll, fn) \<in> D" and ds: "(base, ds) \<in> set ms" and f: "find_entry base dll fn ds = Some p"
  have "load32 m p = Some (pe_hook e fn)" using p D ds f unfolding patched_def by fast
  moreover have n: "(p, By_Name fn) \<in> set (named_slots ms)" by (rule find_entry_named [OF ds f])
  then consider "load32 m' p = load32 m p" | fn' where "By_Name fn = By_Name fn'" "load32 m' p = Some (pe_hook e fn')"
    using o unfolding only_named_def by fast
  then have "load32 m' p = load32 m p \<or> load32 m' p = Some (pe_hook e fn)" by cases simp_all
  ultimately show "load32 m' p = Some (pe_hook e fn)" by auto
qed

lemma achieves_skip: "(\<And>s. \<exists>s'. f s = Some s' \<and> h_ram s' = h_ram s \<and> h_allocs s' = h_allocs s) \<Longrightarrow> achieves e C ms f {} N"
  unfolding achieves_def
proof (intro allI impI)
  fix s assume f: "\<And>s. \<exists>s'. f s = Some s' \<and> h_ram s' = h_ram s \<and> h_allocs s' = h_allocs s" and i: "installing e C ms s"
  obtain s' where "f s = Some s'" "h_ram s' = h_ram s" "h_allocs s' = h_allocs s" using f by blast
  with i show "\<exists>s'. f s = Some s' \<and> installing e C ms s' \<and> patched e ms {} (h_ram s') \<and> only_named e ms N (h_ram s) (h_ram s')"
    by (intro exI [of _ s']) (auto simp: installing_def patched_def only_named_def)
qed

lemma achieves_bind:
  assumes d: "distinct (map fst (named_slots ms))"
    and f: "achieves e C ms f D N" and g: "achieves e C ms g D' N'"
  shows "achieves e C ms (\<lambda>s. Option.bind (f s) g) (D \<union> D') (N \<union> N')"
  unfolding achieves_def
proof (intro allI impI)
  fix s assume i: "installing e C ms s"
  obtain s1 where 1: "f s = Some s1" "installing e C ms s1" "patched e ms D (h_ram s1)"
    "only_named e ms N (h_ram s) (h_ram s1)" using f i unfolding achieves_def by blast
  obtain s2 where 2: "g s1 = Some s2" "installing e C ms s2" "patched e ms D' (h_ram s2)"
    "only_named e ms N' (h_ram s1) (h_ram s2)" using g 1(2) unfolding achieves_def by blast
  have "patched e ms (D \<union> D') (h_ram s2)"
    using patched_keeps [OF d 1(3) 2(4)] 2(3) by (auto simp: patched_def)
  then show "\<exists>s'. Option.bind (f s) g = Some s' \<and> installing e C ms s' \<and> patched e ms (D \<union> D') (h_ram s') \<and>
      only_named e ms (N \<union> N') (h_ram s) (h_ram s')"
    using 1 2 only_named_trans by auto
qed

lemma patched_mono: "patched e ms D m \<Longrightarrow> D' \<subseteq> D \<Longrightarrow> patched e ms D' m"
  unfolding patched_def by blast

lemma only_named_mono: "only_named e ms N m m' \<Longrightarrow> N \<subseteq> N' \<Longrightarrow> only_named e ms N' m m'"
  unfolding only_named_def by fast

lemma achieves_mono: "achieves e C ms f D N \<Longrightarrow> D' \<subseteq> D \<Longrightarrow> N \<subseteq> N' \<Longrightarrow> achieves e C ms f D' N'"
  unfolding achieves_def using patched_mono only_named_mono by meson

lemma achieves_run:
  assumes d: "distinct (map fst (named_slots ms))" and "\<And>x. x \<in> set xs \<Longrightarrow> achieves e C ms (g x) (D x) (N x)"
  shows "achieves e C ms (run_steps (map g xs)) (\<Union>x\<in>set xs. D x) (\<Union>x\<in>set xs. N x)"
  using assms(2)
proof (induction xs)
  case Nil
  then show ?case by (simp add: achieves_skip)
next
  case (Cons x xs)
  have "run_steps (map g (x # xs)) = (\<lambda>s. Option.bind (g x s) (run_steps (map g xs)))" by (simp add: fun_eq_iff)
  then show ?case using achieves_bind [OF d Cons.prems [of x] Cons.IH] Cons.prems by simp
qed

section \<open>The effect of each step\<close>

lemma set_real_achieves: "achieves e C ms (set_real fn p) {} N"
  by (rule achieves_skip) (simp add: set_real_def)

lemma store8_same_mapped: "store8 m a b = Some m' \<Longrightarrow> m' x = None \<longleftrightarrow> m x = None"
  by (auto simp: store8_def split: if_splits)

lemma store_bytes_same_mapped: "store_bytes m a bs = Some m' \<Longrightarrow> m' x = None \<longleftrightarrow> m x = None"
  by (induction m a bs rule: store_bytes.induct) (auto simp: bind_eq_Some store8_same_mapped)

lemma patch_iat_entry_same_mapped:
  "patch_iat_entry m base dll fn hook = Some m' \<Longrightarrow> m' x = None \<longleftrightarrow> m x = None"
  by (auto simp: patch_iat_entry_def PatchIAT_def store32_def bind_eq_Some store_bytes_same_mapped
      split: option.splits)

lemma all_slots_named_iff: "(p, x) \<in> set (named_slots ms) \<Longrightarrow> p \<in> all_slots ms"
  by (force simp: all_slots_named)

lemma patch_achieves:
  assumes d: "distinct (map fst (named_slots ms))" and b: "base \<in> fst ` set ms" and z: "0 \<notin> set fn" "0 \<notin> set dll"
    and one: "distinct (map fst ms)"
  shows "achieves e C ms (patch e base dll fn) {(base, dll, fn)} {fn}"
  unfolding achieves_def
proof (intro allI impI)
  fix s assume i: "installing e C ms s"
  obtain ds where ds: "(base, ds) \<in> set ms" using b by auto
  have ok: "modules_ok C (h_ram s) ms" using i by (simp add: installing_def)
  obtain m' where m': "patch_iat_entry (h_ram s) base dll fn (pe_hook e fn) = Some m'" "modules_ok C m' ms"
    "\<forall>p\<in>all_slots ms. load32 m' p = (if find_entry base dll fn ds = Some p then Some (pe_hook e fn) else load32 (h_ram s) p)"
    using patch_iat_entry_step [OF ok ds z, of "pe_hook e fn"] by blast
  have "installing e C ms (s\<lparr>h_ram := m'\<rparr>)"
    using i m'(2) patch_iat_entry_same_mapped [OF m'(1)] by (simp add: installing_def)
  moreover have "patched e ms {(base, dll, fn)} m'"
    unfolding patched_def
  proof (clarify)
    fix ds' p assume ds': "(base, ds') \<in> set ms" and f: "find_entry base dll fn ds' = Some p"
    have "ds' = ds" using eq_key_imp_eq_value [OF one ds' ds] .
    then show "load32 m' p = Some (pe_hook e fn)"
      using m'(3) all_slots_named_iff [OF find_entry_named [OF ds' f]] f by simp
  qed
  moreover have "only_named e ms {fn} (h_ram s) m'"
    unfolding only_named_def
  proof (clarify)
    fix p x assume n: "(p, x) \<in> set (named_slots ms)" and nf: "\<not> (\<exists>fn'\<in>{fn}. x = By_Name fn' \<and> load32 m' p = Some (pe_hook e fn'))"
    have "find_entry base dll fn ds \<noteq> Some p"
    proof
      assume f: "find_entry base dll fn ds = Some p"
      then have "x = By_Name fn" using slot_name_unique [OF d n find_entry_named [OF ds f]] by simp
      then show False using nf m'(3) all_slots_named_iff [OF n] f by simp
    qed
    then show "load32 m' p = load32 (h_ram s) p" using m'(3) all_slots_named_iff [OF n] by simp
  qed
  ultimately show "\<exists>s'. patch e base dll fn s = Some s' \<and> installing e C ms s' \<and>
      patched e ms {(base, dll, fn)} (h_ram s') \<and> only_named e ms {fn} (h_ram s) (h_ram s')"
    by (intro exI [of _ "s\<lparr>h_ram := m'\<rparr>"]) (simp add: patch_def m'(1))
qed

text \<open>A step that changes code only.\<close>

lemma code_achieves:
  assumes "\<And>s. installing e C ms s \<Longrightarrow> \<exists>s'. f s = Some s' \<and> same_outside C (h_ram s) (h_ram s') \<and>
    (\<forall>x. h_ram s x \<noteq> None \<longrightarrow> h_ram s' x \<noteq> None) \<and>
    (\<forall>n\<ge>h_allocs s'. pe_alloc e n \<noteq> 0 \<longrightarrow> (\<forall>x\<in>span (pe_alloc e n) 4096. h_ram s' x = None))"
  shows "achieves e C ms f {} N"
  unfolding achieves_def
proof (intro allI impI)
  fix s assume i: "installing e C ms s"
  obtain s' where s': "f s = Some s'" "same_outside C (h_ram s) (h_ram s')"
    "\<forall>x. h_ram s x \<noteq> None \<longrightarrow> h_ram s' x \<noteq> None"
    "\<forall>n\<ge>h_allocs s'. pe_alloc e n \<noteq> 0 \<longrightarrow> (\<forall>x\<in>span (pe_alloc e n) 4096. h_ram s' x = None)"
    using assms [OF i] by blast
  have ok: "modules_ok C (h_ram s) ms" using i by (simp add: installing_def)
  note m = modules_ok_code [OF ok s'(2,3)]
  have "installing e C ms s'" unfolding installing_def using m s'(3,4) i unfolding installing_def by blast
  moreover have "only_named e ms N (h_ram s) (h_ram s')"
    unfolding only_named_def using m all_slots_named_iff by fast
  ultimately show "\<exists>s'. f s = Some s' \<and> installing e C ms s' \<and> patched e ms {} (h_ram s') \<and>
      only_named e ms N (h_ram s) (h_ram s')"
    using s'(1) by (auto simp: patched_def)
qed

lemma variant_init_achieves:
  assumes ok: "loaded_ok e hDll C ms"
  shows "achieves e C ms (variant_init_hook e) {} N"
proof (rule code_achieves)
  fix s assume i: "installing e C ms s"
  let ?h = "pe_loaded e OLEAUT32"
  let ?f = "if ?h = 0 then 0 else pe_proc e ?h (str ''VariantInit'')"
  show "\<exists>s'. variant_init_hook e s = Some s' \<and> same_outside C (h_ram s) (h_ram s') \<and>
    (\<forall>x. h_ram s x \<noteq> None \<longrightarrow> h_ram s' x \<noteq> None) \<and>
    (\<forall>n\<ge>h_allocs s'. pe_alloc e n \<noteq> 0 \<longrightarrow> (\<forall>x\<in>span (pe_alloc e n) 4096. h_ram s' x = None))"
  proof (cases "?f = 0")
    case True
    then show ?thesis
      using i by (simp add: variant_init_hook_def Let_def null_opt_def InstallVariantInitGlobalHook_def
          same_outside_def installing_def)
  next
    case False
    then have f: "?f \<in> code_starts e" by (auto simp: code_starts_def split: if_splits)
    then have "\<forall>x\<in>span ?f 5. h_ram s x \<noteq> None" and sub: "span ?f 5 \<subseteq> C"
      using i ok by (auto simp only: installing_def loaded_ok_def)
    from put_jmp_spec [OF this(1), of "pe_hook e (str ''VariantInit'')"]
    obtain m' where m': "put_jmp (h_ram s) ?f (pe_hook e (str ''VariantInit'')) = Some m'"
      "same_outside (span ?f 5) (h_ram s) m'" "\<forall>x. m' x = None \<longleftrightarrow> h_ram s x = None" by blast
    have "variant_init_hook e s = Some (s\<lparr>h_ram := m'\<rparr>)"
      using False m'(1) unfolding variant_init_hook_def Let_def null_opt_def InstallVariantInitGlobalHook_def
      by (simp only: if_False option.case option.map)
    moreover have "\<forall>x. h_ram s x \<noteq> None \<longrightarrow> m' x \<noteq> None" using m'(3) by simp
    ultimately show ?thesis
      using m'(3) i same_outside_mono [OF m'(2) sub] by (simp add: installing_def del: not_None_eq)
  qed
qed

lemma trampoline_achieves:
  assumes ok: "loaded_ok e hDll C ms" and fn: "fn \<in> set trampolined"
  shows "achieves e C ms (trampoline e fn) {} N"
proof (rule code_achieves)
  fix s assume i: "installing e C ms s"
  let ?adv = "pe_loaded e ADVAPI32"
  let ?t = "pe_proc e ?adv fn"
  let ?tr = "pe_alloc e (h_allocs s)"
  show "\<exists>s'. trampoline e fn s = Some s' \<and> same_outside C (h_ram s) (h_ram s') \<and>
    (\<forall>x. h_ram s x \<noteq> None \<longrightarrow> h_ram s' x \<noteq> None) \<and>
    (\<forall>n\<ge>h_allocs s'. pe_alloc e n \<noteq> 0 \<longrightarrow> (\<forall>x\<in>span (pe_alloc e n) 4096. h_ram s' x = None))"
  proof (cases "?adv = 0 \<or> ?t = 0 \<or> ?tr = 0")
    case True
    then have "InstallTrampolineHook (null_opt ?t) (null_opt ?tr) (pe_hook e fn) (h_ram s) = Some (h_ram s, None) \<or> ?adv = 0"
      by (auto simp: null_opt_def InstallTrampolineHook_def)
    then have "\<exists>s'. trampoline e fn s = Some s' \<and> h_ram s' = h_ram s \<and> h_allocs s \<le> h_allocs s'"
      by (auto simp: trampoline_def Let_def)
    then obtain s' where s': "trampoline e fn s = Some s'" "h_ram s' = h_ram s" "h_allocs s \<le> h_allocs s'"
      by blast
    have "\<forall>n\<ge>h_allocs s'. pe_alloc e n \<noteq> 0 \<longrightarrow> (\<forall>x\<in>span (pe_alloc e n) 4096. h_ram s x = None)"
      using i le_trans [OF s'(3)] unfolding installing_def by blast
    then show ?thesis using s'(1,2) by (auto simp: same_outside_def)
  next
    case False
    then have t: "?t \<in> code_starts e" using fn by (auto simp: code_starts_def)
    have t5: "\<forall>x\<in>span ?t 5. h_ram s x \<noteq> None" using i t by (simp add: installing_def)
    have fresh: "\<forall>x\<in>span ?tr 4096. h_ram s x = None"
      using i False le_refl [of "h_allocs s"] unfolding installing_def by blast
    obtain m' where m': "InstallTrampolineHook (Some ?t) (Some ?tr) (pe_hook e fn) (h_ram s) = Some (m', Some ?tr)"
      "same_outside (span ?t 5 \<union> span ?tr 4096) (h_ram s) m'" "\<forall>x. h_ram s x \<noteq> None \<longrightarrow> m' x \<noteq> None"
      using trampoline_effect [OF t5 fresh, of "pe_hook e fn"] by blast
    have sub: "span ?t 5 \<union> span ?tr 4096 \<subseteq> C" using ok t False by (simp add: loaded_ok_def)
    have "m' x = None" if n: "h_allocs s < n" "pe_alloc e n \<noteq> 0" and x: "x \<in> span (pe_alloc e n) 4096" for n x
    proof -
      have o: "h_ram s x = None" using i n x less_imp_le [OF n(1)] unfolding installing_def by blast
      have "x \<notin> span ?t 5" using t5 o by auto
      moreover have "span (pe_alloc e n) 4096 \<inter> span ?tr 4096 = {}"
        using ok n False unfolding loaded_ok_def by auto
      ultimately show ?thesis using m'(2) o x by (auto simp: same_outside_def)
    qed
    then show ?thesis
      using False m'(1,3) same_outside_mono [OF m'(2) sub]
      by (simp add: trampoline_def null_opt_def Suc_le_eq)
  qed
qed

lemma when_achieves:
  assumes "achieves e C ms f D N"
  shows "achieves e C ms (\<lambda>s. if P s then f s else Some s) {} N"
proof -
  have f: "achieves e C ms f {} N" by (rule achieves_mono [OF assms]) simp_all
  have "achieves e C ms Some {} N" by (rule achieves_skip) simp
  with f show ?thesis unfolding achieves_def by simp
qed

section \<open>The whole installation\<close>

lemma no_nul:
  "fn \<in> set (device_hooks @ service_hooks @ registry_hooks @ setup_hooks @ trampolined) \<Longrightarrow> 0 \<notin> set fn"
  unfolding device_hooks_def service_hooks_def registry_hooks_def setup_hooks_def trampolined_def
    blocked_security_hooks_def descriptor_hooks_def late_security_hooks_def
  by (simp only: set_append set_map list.set image_insert image_empty) (elim UnE insertE emptyE; simp)

lemma no_nul_single:
  "(fn :: bytes) \<in> set (map str [''GetAdaptersInfo'', ''GetAdaptersAddresses'']) \<Longrightarrow> 0 \<notin> set fn"
  "(fn :: bytes) \<in> set (map str [''CreateProcessW'', ''CreateProcessAsUserW'']) \<Longrightarrow> 0 \<notin> set fn"
  "(fn :: bytes) \<in> set (map str [''ExitProcess'', ''TerminateProcess'', ''WaitForSingleObject'']) \<Longrightarrow> 0 \<notin> set fn"
  "0 \<notin> set (str ''CoCreateInstance'' :: bytes)"
  by auto

lemma no_nul_dll:
  "0 \<notin> set ADVAPI32" "0 \<notin> set KERNEL32" "0 \<notin> set SETUPAPI" "0 \<notin> set OLE32" "0 \<notin> set IPHLPAPI"
  by (simp_all add: ADVAPI32_def KERNEL32_def SETUPAPI_def OLE32_def IPHLPAPI_def)

text \<open>The modules whose entries are patched: the executable and the original DLL.\<close>

definition exe_and_dll :: "process_env \<Rightarrow> u32 \<Rightarrow> u32 set" where
  "exe_and_dll e hDll = {pe_exe e, hDll} - {0}"

definition with_self :: "process_env \<Rightarrow> u32 \<Rightarrow> u32 set" where
  "with_self e hDll = {pe_exe e, hDll, pe_self e} - {0}"

lemma patch_ok:
  assumes "loaded_ok e hDll C ms" "base \<in> with_self e hDll" "0 \<notin> set fn" "0 \<notin> set dll"
  shows "achieves e C ms (patch e base dll fn) {(base, dll, fn)} {fn}"
  using assms by (intro patch_achieves) (auto simp: loaded_ok_def with_self_def)

lemma bind_if_some: "Option.bind x (\<lambda>s. if b then f s else Some s) = (if b then Option.bind x f else x)"
  by (cases x) simp_all

lemma patch_exe_and_dll_achieves:
  assumes ok: "loaded_ok e hDll C ms" and z: "0 \<notin> set fn" "0 \<notin> set dll"
  shows "achieves e C ms (patch_exe_and_dll e hDll dll fn) (exe_and_dll e hDll \<times> {dll} \<times> {fn}) {fn}"
proof -
  have d: "distinct (map fst (named_slots ms))" and e0: "pe_exe e \<noteq> 0" using ok by (auto simp: loaded_ok_def)
  have x: "achieves e C ms (patch e (pe_exe e) dll fn) {(pe_exe e, dll, fn)} {fn}"
    using patch_ok [OF ok _ z] e0 by (simp add: with_self_def)
  show ?thesis
  proof (cases "hDll = 0")
    case True
    then have "patch_exe_and_dll e hDll dll fn = patch e (pe_exe e) dll fn"
      by (simp add: fun_eq_iff patch_exe_and_dll_def)
    moreover have "exe_and_dll e hDll = {pe_exe e}" using True e0 by (auto simp: exe_and_dll_def)
    ultimately show ?thesis using x by simp
  next
    case False
    have "achieves e C ms (patch e hDll dll fn) {(hDll, dll, fn)} {fn}"
      using patch_ok [OF ok _ z] False by (simp add: with_self_def)
    from achieves_bind [OF d x this] show ?thesis
      using False by (simp add: patch_exe_and_dll_def [abs_def]) (rule achieves_mono, auto simp: exe_and_dll_def)
  qed
qed

lemma patch_exe_dll_self_achieves:
  assumes ok: "loaded_ok e hDll C ms" and z: "0 \<notin> set fn" "0 \<notin> set dll"
  shows "achieves e C ms (patch_exe_dll_self e hDll dll fn) (with_self e hDll \<times> {dll} \<times> {fn}) {fn}"
proof -
  have d: "distinct (map fst (named_slots ms))" using ok by (simp add: loaded_ok_def)
  note x = patch_exe_and_dll_achieves [OF ok z]
  show ?thesis
  proof (cases "pe_self e = 0")
    case True
    then have "patch_exe_dll_self e hDll dll fn = patch_exe_and_dll e hDll dll fn"
      by (simp add: fun_eq_iff patch_exe_dll_self_def)
    then show ?thesis
      using x True by (simp add: exe_and_dll_def with_self_def insert_commute)
  next
    case False
    have "achieves e C ms (patch e (pe_self e) dll fn) {(pe_self e, dll, fn)} {fn}"
      using patch_ok [OF ok _ z] False by (simp add: with_self_def)
    from achieves_bind [OF d x this] show ?thesis
      using False by (simp add: patch_exe_dll_self_def [abs_def])
        (rule achieves_mono, auto simp: exe_and_dll_def with_self_def)
  qed
qed

lemma patch_if_found_achieves:
  assumes ok: "loaded_ok e hDll C ms" and z: "0 \<notin> set fn" "0 \<notin> set dll"
  shows "achieves e C ms (patch_if_found e hDll hMod dll fn) {} {fn}"
proof -
  have d: "distinct (map fst (named_slots ms))" using ok by (simp add: loaded_ok_def)
  from achieves_bind [OF d set_real_achieves when_achieves [OF patch_exe_and_dll_achieves [OF ok z]]]
  show ?thesis by (simp add: patch_if_found_def [abs_def])
qed

text \<open>The effect of a list of steps, each of which the same argument covers.\<close>

lemma run_patches:
  assumes ok: "loaded_ok e hDll C ms" and g: "\<And>fn. fn \<in> set fns \<Longrightarrow> achieves e C ms (g fn) (B \<times> {dll} \<times> {fn}) {fn}"
  shows "achieves e C ms (run_steps (map g fns)) (B \<times> {dll} \<times> set fns) (set fns)"
proof -
  have d: "distinct (map fst (named_slots ms))" using ok by (simp add: loaded_ok_def)
  from achieves_run [OF d, of fns e C g "\<lambda>fn. B \<times> {dll} \<times> {fn}" "\<lambda>fn. {fn}"] g
  have "achieves e C ms (run_steps (map g fns)) (\<Union>fn\<in>set fns. B \<times> {dll} \<times> {fn}) (\<Union>fn\<in>set fns. {fn})" by blast
  then show ?thesis by (rule achieves_mono) auto
qed

lemma run_others:
  assumes ok: "loaded_ok e hDll C ms" and g: "\<And>fn. fn \<in> set fns \<Longrightarrow> achieves e C ms (g fn) {} {fn}"
  shows "achieves e C ms (run_steps (map g fns)) {} (set fns)"
proof -
  have d: "distinct (map fst (named_slots ms))" using ok by (simp add: loaded_ok_def)
  from achieves_run [OF d, of fns e C g "\<lambda>fn. {}" "\<lambda>fn. {fn}"] g
  have "achieves e C ms (run_steps (map g fns)) (\<Union>fn\<in>set fns. {}) (\<Union>fn\<in>set fns. {fn})" by blast
  then show ?thesis by (rule achieves_mono) auto
qed

lemma run_reals:
  assumes "loaded_ok e hDll C ms"
  shows "achieves e C ms (run_steps (map (\<lambda>fn. set_real fn (pe_proc e h fn)) fns)) {} {}"
  using achieves_run [of ms fns e C "\<lambda>fn. set_real fn (pe_proc e h fn)" "\<lambda>_. {}" "\<lambda>_. {}"] assms set_real_achieves
  by (simp add: loaded_ok_def)

lemma InstallHooks_achieves:
  assumes ok: "loaded_ok e hDll C ms"
  shows "achieves e C ms (InstallHooks e) ({pe_exe e} \<times> {KERNEL32} \<times> set device_hooks) (set device_hooks)"
proof -
  have d: "distinct (map fst (named_slots ms))" and e0: "pe_exe e \<noteq> 0" using ok by (auto simp: loaded_ok_def)
  let ?h = "pe_loaded e KERNEL32"
  have "achieves e C ms (patch e (pe_exe e) KERNEL32 fn) ({pe_exe e} \<times> {KERNEL32} \<times> {fn}) {fn}"
    if "fn \<in> set device_hooks" for fn
    using patch_ok [OF ok, of "pe_exe e" fn KERNEL32] no_nul [of fn] that e0 no_nul_dll by (simp add: with_self_def)
  from achieves_bind [OF d when_achieves [OF run_reals [OF ok, of ?h device_hooks], of "\<lambda>_. ?h \<noteq> 0"] run_patches [OF ok this, of device_hooks]]
  show ?thesis unfolding InstallHooks_def [abs_def] Let_def by simp
qed

lemma iphlpapi_achieves:
  assumes ok: "loaded_ok e hDll C ms"
  shows "achieves e C ms (iphlpapi_hooks e hDll) {} (set (map str [''GetAdaptersInfo'', ''GetAdaptersAddresses'']))"
proof -
  have d: "distinct (map fst (named_slots ms))" using ok by (simp add: loaded_ok_def)
  let ?names = "map str [''GetAdaptersInfo'', ''GetAdaptersAddresses''] :: bytes list"
  let ?h = "pe_loaded e IPHLPAPI"
  have "achieves e C ms (\<lambda>s. if h_real s fn \<noteq> 0 then patch_exe_and_dll e hDll IPHLPAPI fn s else Some s) {} {fn}"
    if "fn \<in> set ?names" for fn
    by (rule when_achieves [OF patch_exe_and_dll_achieves [OF ok no_nul_single(1) [OF that] no_nul_dll(5)]])
  from achieves_bind [OF d when_achieves [OF run_reals [OF ok, of ?h ?names], of "\<lambda>_. ?h \<noteq> 0"] run_others [OF ok this, of ?names]]
  show ?thesis unfolding iphlpapi_hooks_def [abs_def] Let_def by simp
qed

text \<open>What \<open>EmulateDriverRunning_InstallHooks\<close> patches whenever an entry exists.\<close>

definition emulation_targets :: "process_env \<Rightarrow> u32 \<Rightarrow> (u32 \<times> bytes \<times> bytes) set" where
  "emulation_targets e hDll =
     exe_and_dll e hDll \<times> ({ADVAPI32} \<times> set service_hooks \<union> {SETUPAPI} \<times> set setup_hooks \<union>
       {(OLE32, str ''CoCreateInstance'')}) \<union>
     with_self e hDll \<times> {ADVAPI32} \<times> set registry_hooks"

definition hooked_names :: "bytes set" where
  "hooked_names =
     set (device_hooks @ service_hooks @ registry_hooks @ setup_hooks @ trampolined) \<union>
     {str ''CoCreateInstance''} \<union>
     set (map str [''CreateProcessW'', ''CreateProcessAsUserW'']) \<union>
     set (map str [''ExitProcess'', ''TerminateProcess'', ''WaitForSingleObject'']) \<union>
     set (map str [''GetAdaptersInfo'', ''GetAdaptersAddresses''])"

lemma security_achieves:
  assumes ok: "loaded_ok e hDll C ms"
  shows "achieves e C ms (InstallSecurityHooks e h) {} (set trampolined)"
proof -
  have d: "distinct (map fst (named_slots ms))" and e0: "pe_exe e \<noteq> 0" using ok by (auto simp: loaded_ok_def)
  have exe: "pe_exe e \<in> with_self e hDll" using e0 by (simp add: with_self_def)
  have p: "achieves e C ms (\<lambda>s. if h_real s fn \<noteq> 0 then patch e (pe_exe e) ADVAPI32 fn s else Some s) {} {fn}"
    if "fn \<in> set trampolined" for fn
    by (rule when_achieves [OF patch_ok [OF ok exe _ no_nul_dll(1)]]) (use no_nul that in simp)
  have t: "achieves e C ms (trampoline e fn) {} {fn}" if "fn \<in> set trampolined" for fn
    using trampoline_achieves [OF ok that] .
  have w: "achieves e C ms (\<lambda>s. if h_real s fn \<noteq> 0 then trampoline e fn s else Some s) {} {fn}"
    if "fn \<in> set trampolined" for fn
    using when_achieves [OF t [OF that]] .
  have sub: "set blocked_security_hooks \<subseteq> set trampolined" "set descriptor_hooks \<subseteq> set trampolined"
    "set late_security_hooks \<subseteq> set trampolined" by (auto simp: trampolined_def)
  note lists = run_others [OF ok t [OF subsetD [OF sub(1)]]] run_others [OF ok p [OF subsetD [OF sub(1)]]]
    run_others [OF ok w [OF subsetD [OF sub(2)]]] run_others [OF ok w [OF subsetD [OF sub(3)]]]
    run_others [OF ok p [OF subsetD [OF sub(2)]]]
  note b = achieves_bind [OF d]
  have "achieves e C ms (InstallSecurityHooks e h) ({} \<union> ({} \<union> ({} \<union> ({} \<union> ({} \<union> ({} \<union> {}))))))
     (set blocked_security_hooks \<union> (set blocked_security_hooks \<union> ({} \<union> (set descriptor_hooks \<union>
       ({} \<union> (set late_security_hooks \<union> set descriptor_hooks))))))"
    unfolding InstallSecurityHooks_def [abs_def] Let_def
    by (intro b lists run_reals [OF ok])
  then show ?thesis by (rule achieves_mono) (use sub in auto)
qed

lemma Emulate_achieves:
  assumes ok: "loaded_ok e (original_dll e hOriginal) C ms"
  shows "achieves e C ms (EmulateDriverRunning_InstallHooks e hOriginal)
    (emulation_targets e (original_dll e hOriginal)) hooked_names"
proof -
  let ?h = "original_dll e hOriginal"
  have d: "distinct (map fst (named_slots ms))" using ok by (simp add: loaded_ok_def)
  have sub: "set service_hooks \<subseteq> hooked_names" "set registry_hooks \<subseteq> hooked_names"
    "set setup_hooks \<subseteq> hooked_names" "set trampolined \<subseteq> hooked_names"
    "str ''CoCreateInstance'' \<in> hooked_names"
    "set (map str [''CreateProcessW'', ''CreateProcessAsUserW'']) \<subseteq> hooked_names"
    "set (map str [''ExitProcess'', ''TerminateProcess'', ''WaitForSingleObject'']) \<subseteq> hooked_names"
    "set (map str [''GetAdaptersInfo'', ''GetAdaptersAddresses'']) \<subseteq> hooked_names"
    unfolding hooked_names_def set_append by blast+
  have nn: "0 \<notin> set fn" if "fn \<in> set service_hooks \<or> fn \<in> set registry_hooks \<or> fn \<in> set setup_hooks" for fn
    using no_nul [of fn] that by auto
  have service: "achieves e C ms (run_steps (map (patch_exe_and_dll e ?h ADVAPI32) service_hooks))
      (exe_and_dll e ?h \<times> {ADVAPI32} \<times> set service_hooks) (set service_hooks)"
    by (rule run_patches [OF ok]) (rule patch_exe_and_dll_achieves [OF ok nn no_nul_dll(1)], blast)
  have registry: "achieves e C ms (run_steps (map (patch_exe_dll_self e ?h ADVAPI32) registry_hooks))
      (with_self e ?h \<times> {ADVAPI32} \<times> set registry_hooks) (set registry_hooks)"
    by (rule run_patches [OF ok]) (rule patch_exe_dll_self_achieves [OF ok nn no_nul_dll(1)], blast)
  have setupapi: "achieves e C ms (run_steps (map (patch_exe_and_dll e ?h SETUPAPI) setup_hooks))
      (exe_and_dll e ?h \<times> {SETUPAPI} \<times> set setup_hooks) (set setup_hooks)"
    by (rule run_patches [OF ok]) (rule patch_exe_and_dll_achieves [OF ok nn no_nul_dll(3)], blast)
  note com = patch_exe_and_dll_achieves [OF ok no_nul_single(4) no_nul_dll(4)]
  have process: "achieves e C ms (run_steps (map (patch_if_found e ?h (pe_loaded e KERNEL32) KERNEL32) fns)) {} (set fns)"
    if "\<And>fn. fn \<in> set fns \<Longrightarrow> 0 \<notin> set fn" for fns
    by (rule run_others [OF ok]) (rule patch_if_found_achieves [OF ok that no_nul_dll(2)])
  note all = run_reals [OF ok] set_real_achieves [of e C ms _ _ "{}"] service registry setupapi com
    process [OF no_nul_single(2)] process [OF no_nul_single(3)] variant_init_achieves [OF ok, of "{}"]
    iphlpapi_achieves [OF ok] security_achieves [OF ok]
  let ?dll = "exe_and_dll e ?h"
  have "achieves e C ms (EmulateDriverRunning_InstallHooks e hOriginal)
    ({} \<union> ({} \<union> ({} \<union> (?dll \<times> {ADVAPI32} \<times> set service_hooks \<union>
      (with_self e ?h \<times> {ADVAPI32} \<times> set registry_hooks \<union> ({} \<union> (?dll \<times> {SETUPAPI} \<times> set setup_hooks \<union>
      (?dll \<times> {OLE32} \<times> {str ''CoCreateInstance''} \<union> ({} \<union> ({} \<union> ({} \<union> ({} \<union> {}))))))))))))
    ({} \<union> ({} \<union> ({} \<union> (set service_hooks \<union> (set registry_hooks \<union> ({} \<union> (set setup_hooks \<union>
      ({str ''CoCreateInstance''} \<union> (set (map str [''CreateProcessW'', ''CreateProcessAsUserW'']) \<union> ({} \<union>
      (set (map str [''ExitProcess'', ''TerminateProcess'', ''WaitForSingleObject'']) \<union>
      (set (map str [''GetAdaptersInfo'', ''GetAdaptersAddresses'']) \<union> set trampolined))))))))))))"
    unfolding EmulateDriverRunning_InstallHooks_def [abs_def] Let_def real_service_functions_def registry_reals_def
    by (intro achieves_bind [OF d] all)
  then show ?thesis
  proof (rule achieves_mono)
    show "emulation_targets e ?h \<subseteq> {} \<union> ({} \<union> ({} \<union> (?dll \<times> {ADVAPI32} \<times> set service_hooks \<union>
      (with_self e ?h \<times> {ADVAPI32} \<times> set registry_hooks \<union> ({} \<union> (?dll \<times> {SETUPAPI} \<times> set setup_hooks \<union>
      (?dll \<times> {OLE32} \<times> {str ''CoCreateInstance''} \<union> ({} \<union> ({} \<union> ({} \<union> ({} \<union> {})))))))))))"
      unfolding emulation_targets_def by blast
  qed (intro Un_least sub empty_subsetI insert_subsetI)
qed

lemma installation_complete:
  assumes ok: "loaded_ok e (original_dll e hOriginal) C ms" and i: "installing e C ms s"
  shows "\<exists>s1 s2. InstallHooks e s = Some s1 \<and> EmulateDriverRunning_InstallHooks e hOriginal s1 = Some s2 \<and>
    patched e ms ({pe_exe e} \<times> {KERNEL32} \<times> set device_hooks \<union> emulation_targets e (original_dll e hOriginal)) (h_ram s2) \<and>
    (\<forall>(p, x)\<in>set (named_slots ms). x \<notin> By_Name ` hooked_names \<longrightarrow> load32 (h_ram s2) p = load32 (h_ram s) p)"
proof -
  have d: "distinct (map fst (named_slots ms))" using ok by (simp add: loaded_ok_def)
  obtain s1 where s1: "InstallHooks e s = Some s1" "installing e C ms s1"
    "patched e ms ({pe_exe e} \<times> {KERNEL32} \<times> set device_hooks) (h_ram s1)"
    "only_named e ms (set device_hooks) (h_ram s) (h_ram s1)"
    using InstallHooks_achieves [OF ok] i unfolding achieves_def by blast
  obtain s2 where s2: "EmulateDriverRunning_InstallHooks e hOriginal s1 = Some s2"
    "patched e ms (emulation_targets e (original_dll e hOriginal)) (h_ram s2)"
    "only_named e ms hooked_names (h_ram s1) (h_ram s2)"
    using Emulate_achieves [OF ok] s1(2) unfolding achieves_def by blast
  have "patched e ms ({pe_exe e} \<times> {KERNEL32} \<times> set device_hooks \<union> emulation_targets e (original_dll e hOriginal)) (h_ram s2)"
    using patched_keeps [OF d s1(3) s2(3)] s2(2) unfolding patched_def by blast
  moreover have "set device_hooks \<union> hooked_names = hooked_names" by (auto simp: hooked_names_def)
  then have "only_named e ms hooked_names (h_ram s) (h_ram s2)"
    using only_named_trans [OF s1(4) s2(3)] by simp
  then have "\<forall>(p, x)\<in>set (named_slots ms). x \<notin> By_Name ` hooked_names \<longrightarrow> load32 (h_ram s2) p = load32 (h_ram s) p"
    unfolding only_named_def by blast
  ultimately show ?thesis using s1(1) s2(1) by blast
qed


text \<open>The module of the example, alone in its process.\<close>

definition demo_env :: process_env where
  "demo_env = \<lparr>pe_exe = 0x10000, pe_loaded = \<lambda>_. 0, pe_load = \<lambda>_. 0, pe_self = 0, pe_proc = \<lambda>_ _. 0,
     pe_alloc = \<lambda>_. 0, pe_hook = \<lambda>fn. if fn = str ''ReadFile'' then 0x44332211 else 0x99\<rparr>"

definition demo_state :: hstate where
  "demo_state = \<lparr>h_ram = demo_ram, h_real = \<lambda>_. 0, h_allocs = 0\<rparr>"

lemma demo_slots: "named_slots [(0x10000, demo_imports)] = [(0x10210, By_Ordinal), (0x10214, By_Name (str ''ReadFile''))]"
  by (simp add: named_slots_def demo_imports_def)

lemma demo_slot_set: "slot_bytes [(0x10000, demo_imports)] = {0x10210 .. 0x10217}"
proof -
  have "all_slots [(0x10000, demo_imports)] = {0x10210, 0x10214}"
    unfolding all_slots_named demo_slots by simp
  then have "slot_bytes [(0x10000, demo_imports)] = bytes4 0x10210 \<union> bytes4 0x10214"
    by (simp add: slot_bytes_def)
  also have "\<dots> = {0x10210 .. 0x10217}"
  proof -
    have "x \<in> {0x10210, 0x10211, 0x10212, 0x10213, 0x10214, 0x10215, 0x10216, 0x10217}" if "0x10210 \<le> x" "x \<le> 0x10217" for x :: u32
    proof -
      have "unat x \<in> {0x10210, 0x10211, 0x10212, 0x10213, 0x10214, 0x10215, 0x10216, 0x10217}"
        using that by (simp add: word_le_nat_alt) presburger
      then show ?thesis by (simp add: word_unat_eq_iff)
    qed
    then have "{0x10210 .. 0x10217} \<subseteq> bytes4 0x10210 \<union> bytes4 0x10214"
      by (intro subsetI) (simp add: bytes4_def insert_commute)
    moreover have "bytes4 0x10210 \<union> bytes4 0x10214 \<subseteq> {0x10210 .. 0x10217}" by (simp add: bytes4_def)
    ultimately show ?thesis by blast
  qed
  finally show ?thesis .
qed

lemma demo_ok: "modules_ok {} demo_ram [(0x10000, demo_imports)]"
proof -
  have "all_slots [(0x10000, demo_imports)] = {0x10210, 0x10214}"
    unfolding all_slots_named demo_slots by simp
  moreover have "image_at m' 0x10000 demo_imports" if "same_outside {0x10210 .. 0x10217} demo_ram m'" for m'
    using that by (rule demo_image)
  ultimately show ?thesis
    by (simp add: modules_ok_def demo_slot_set slot_mapped_def bytes4_def demo_ram_def code_ram_def le32_def)
qed

lemma demo_loaded: "loaded_ok demo_env (original_dll demo_env 0) {} [(0x10000, demo_imports)]"
  unfolding loaded_ok_def demo_slots by (auto simp: demo_env_def original_dll_def code_starts_def)

lemma demo_installing: "installing demo_env {} [(0x10000, demo_imports)] demo_state"
  unfolding installing_def by (auto simp: demo_ok demo_env_def demo_state_def code_starts_def)

lemma demo_patched:
  assumes "patched demo_env [(0x10000, demo_imports)] ({pe_exe demo_env} \<times> {KERNEL32} \<times> set device_hooks \<union> D) m"
  shows "load32 m 0x10214 = Some 0x44332211"
proof -
  have "(0x10000, KERNEL32, str ''ReadFile'') \<in> {pe_exe demo_env} \<times> {KERNEL32} \<times> set device_hooks"
    by (simp add: demo_env_def device_hooks_def)
  moreover have "find_entry 0x10000 KERNEL32 (str ''ReadFile'') demo_imports = Some 0x10214"
    by (simp add: demo_imports_def KERNEL32_def icmp_eq_def lower_def)
  ultimately have "load32 m 0x10214 = Some (pe_hook demo_env (str ''ReadFile''))"
    using assms unfolding patched_def by fastforce
  then show ?thesis by (simp add: demo_env_def)
qed


end
