(* ===== verification/Tap_Protocol.thy ===== *)
theory Tap_Protocol
  imports Prelude
begin

text \<open>
  The client side of the bridge protocol: src/tap_client.h (command numbers) and
  src/tap_client_udp.c (one temporary UDP socket per datagram).  The sockets API and the
  heap are the environment: each attempt to send one datagram is answered by a
  \<open>udp_answer\<close>, and the record \<open>net\<close> keeps what the calls left behind (the datagrams on
  the wire and the number of sockets still open).
\<close>

section \<open>Command numbers\<close>

definition TAP_CTRL_SET_IPV4 :: u8 where "TAP_CTRL_SET_IPV4 = 0x01"
definition TAP_CTRL_SET_IPV4_GW :: u8 where "TAP_CTRL_SET_IPV4_GW = 0x02"
definition TAP_CTRL_SET_IPV6 :: u8 where "TAP_CTRL_SET_IPV6 = 0x03"
definition TAP_CTRL_SET_MAC :: u8 where "TAP_CTRL_SET_MAC = 0x04"
definition TAP_CTRL_LINK_UP :: u8 where "TAP_CTRL_LINK_UP = 0x10"
definition TAP_CTRL_LINK_DOWN :: u8 where "TAP_CTRL_LINK_DOWN = 0x11"

lemmas tap_ctrl_defs = TAP_CTRL_SET_IPV4_def TAP_CTRL_SET_IPV4_GW_def TAP_CTRL_SET_IPV6_def
  TAP_CTRL_SET_MAC_def TAP_CTRL_LINK_UP_def TAP_CTRL_LINK_DOWN_def

declare tap_ctrl_defs [wire_simps]

section \<open>Sockets and state\<close>

datatype udp_answer = Socket_Fails | Connect_Fails | Send_Fails | Sent

record net =
  wire :: "(bytes \<times> u16 \<times> bytes) list"  \<comment> \<open>destination address string, port, payload\<close>
  open_sockets :: nat

record tap_client =
  g_active :: bool
  g_bridge_ip :: bytes
  g_bridge_port :: u16

definition tap_client_initial :: tap_client where
  "tap_client_initial = \<lparr>g_active = False, g_bridge_ip = [], g_bridge_port = 0\<rparr>"

definition TapClientIsActive :: "tap_client \<Rightarrow> bool" where
  "TapClientIsActive c = g_active c"

text \<open>
  \<open>strncpy(g_bridge_ip, ip, 63)\<close> into the zeroed 64-byte buffer: the string keeps its
  first 63 characters.
\<close>

definition TapClientInit :: "bytes \<Rightarrow> u16 \<Rightarrow> tap_client \<Rightarrow> tap_client \<times> int" where
  "TapClientInit ip port c =
     (c\<lparr>g_bridge_ip := take 63 ip, g_bridge_port := port, g_active := True\<rparr>, 0)"

definition TapClientShutdown :: "tap_client \<Rightarrow> tap_client" where
  "TapClientShutdown c = c\<lparr>g_active := False\<rparr>"

section \<open>Sending one datagram\<close>

definition socket_open :: "net \<Rightarrow> net" where
  "socket_open n = n\<lparr>open_sockets := open_sockets n + 1\<rparr>"

definition closesocket :: "net \<Rightarrow> net" where
  "closesocket n = n\<lparr>open_sockets := open_sockets n - 1\<rparr>"

definition send_one_datagram ::
    "tap_client \<Rightarrow> udp_answer \<Rightarrow> bytes \<Rightarrow> net \<Rightarrow> net \<times> int" where
  "send_one_datagram c a buf n =
     (if a = Socket_Fails then (n, -1)
      else
        let n1 = socket_open n in
        if a = Connect_Fails then (closesocket n1, -1)
        else if a = Send_Fails then (closesocket n1, -1)
        else
          let n2 = n1\<lparr>wire := wire n1 @ [(g_bridge_ip c, g_bridge_port c, buf)]\<rparr>
          in (closesocket n2, 0))"

text \<open>One equation covers all four answers: the socket is closed again on every path.\<close>

lemma send_one_datagram_eq [wire_simps]:
  "send_one_datagram c a buf n =
     (if a = Sent then (n\<lparr>wire := wire n @ [(g_bridge_ip c, g_bridge_port c, buf)]\<rparr>, 0)
      else (n, -1))"
  by (cases a) (simp_all add: send_one_datagram_def socket_open_def closesocket_def Let_def)

section \<open>Ethernet frames\<close>

text \<open>
  \<open>frame\<close> is None for a NULL pointer.  \<open>heap_ok\<close> is the answer of \<open>HeapAlloc\<close>.  The
  outer option is None when the copy would read outside the caller's buffer.
\<close>

definition TapClientSendFrame ::
    "tap_client \<Rightarrow> bool \<Rightarrow> udp_answer \<Rightarrow> bytes option \<Rightarrow> int \<Rightarrow> net \<Rightarrow> (net \<times> int) option" where
  "TapClientSendFrame c heap_ok a frame len n =
     (if \<not> g_active c then Some (n, -1)
      else if len \<le> 0 \<or> len > 2048 then Some (n, -1)
      else case frame of
        None \<Rightarrow> Some (n, -1)
      | Some f \<Rightarrow>
          if \<not> heap_ok then Some (n, -1)
          else do {
            body \<leftarrow> mem_read f 0 (nat len);
            let pkt = 0x00 # body;
            let (n', result) = send_one_datagram c a pkt n;
            Some (n', if result < 0 then -1 else 0)
          })"

section \<open>Control commands\<close>

definition send_control ::
    "tap_client \<Rightarrow> bool \<Rightarrow> udp_answer \<Rightarrow> u8 \<Rightarrow> bytes \<Rightarrow> net \<Rightarrow> net \<times> int" where
  "send_control c heap_ok a cmd dat n =
     (if \<not> heap_ok then (n, -1)
      else send_one_datagram c a (0x01 # cmd # dat) n)"

definition TapClientSetIPv4 ::
    "tap_client \<Rightarrow> bool \<Rightarrow> udp_answer \<Rightarrow> bytes \<Rightarrow> u8 \<Rightarrow> net \<Rightarrow> (net \<times> int) option" where
  "TapClientSetIPv4 c heap_ok a ip pfx n = do {
     b \<leftarrow> mem_read ip 0 4;
     Some (send_control c heap_ok a TAP_CTRL_SET_IPV4 (b @ [pfx]) n) }"

definition TapClientSetIPv4Gateway ::
    "tap_client \<Rightarrow> bool \<Rightarrow> udp_answer \<Rightarrow> bytes \<Rightarrow> net \<Rightarrow> (net \<times> int) option" where
  "TapClientSetIPv4Gateway c heap_ok a ip n = do {
     b \<leftarrow> mem_read ip 0 4;
     Some (send_control c heap_ok a TAP_CTRL_SET_IPV4_GW b n) }"

definition TapClientSetIPv6 ::
    "tap_client \<Rightarrow> bool \<Rightarrow> udp_answer \<Rightarrow> bytes \<Rightarrow> u8 \<Rightarrow> net \<Rightarrow> (net \<times> int) option" where
  "TapClientSetIPv6 c heap_ok a ip pfx n = do {
     b \<leftarrow> mem_read ip 0 16;
     Some (send_control c heap_ok a TAP_CTRL_SET_IPV6 (b @ [pfx]) n) }"

definition TapClientSetMAC ::
    "tap_client \<Rightarrow> bool \<Rightarrow> udp_answer \<Rightarrow> bytes \<Rightarrow> net \<Rightarrow> (net \<times> int) option" where
  "TapClientSetMAC c heap_ok a mac n = do {
     b \<leftarrow> mem_read mac 0 6;
     Some (send_control c heap_ok a TAP_CTRL_SET_MAC b n) }"

definition TapClientSetLinkUp :: "tap_client \<Rightarrow> bool \<Rightarrow> udp_answer \<Rightarrow> net \<Rightarrow> net \<times> int" where
  "TapClientSetLinkUp c heap_ok a n = send_control c heap_ok a TAP_CTRL_LINK_UP [] n"

definition TapClientSetLinkDown :: "tap_client \<Rightarrow> bool \<Rightarrow> udp_answer \<Rightarrow> net \<Rightarrow> net \<times> int" where
  "TapClientSetLinkDown c heap_ok a n = send_control c heap_ok a TAP_CTRL_LINK_DOWN [] n"

section \<open>What the client puts on the wire\<close>

lemma send_control_eq [wire_simps]:
  "send_control c h a cmd dat n =
     (if h \<and> a = Sent
      then (n\<lparr>wire := wire n @ [(g_bridge_ip c, g_bridge_port c, 0x01 # cmd # dat)]\<rparr>, 0)
      else (n, -1))"
  by (simp add: send_control_def send_one_datagram_eq)

text \<open>A frame is put on the wire exactly when the client is active, the pointer is not
  NULL, the length is between 1 and 2048 and heap and sockets cooperate; the datagram is
  then the type byte 0x00 followed by the first len bytes of the frame, the call returns
  0, and in every other case it returns -1 with nothing sent.  No socket stays open.  A
  frame buffer of at least len bytes is never read outside.\<close>

theorem TapClientSendFrame_spec:
  assumes "\<And>f. frame = Some f \<Longrightarrow> len \<le> int (length f)"
  shows "\<exists>n' r. TapClientSendFrame c h a frame len n = Some (n', r) \<and>
    open_sockets n' = open_sockets n \<and>
    (if g_active c \<and> 0 < len \<and> len \<le> 2048 \<and> frame \<noteq> None \<and> h \<and> a = Sent
     then r = 0 \<and> wire n' = wire n @ [(g_bridge_ip c, g_bridge_port c,
            0x00 # take (nat len) (the frame))]
     else r = -1 \<and> wire n' = wire n)"
proof (cases "g_active c \<and> 0 < len \<and> len \<le> 2048 \<and> frame \<noteq> None \<and> h")
  case True
  then obtain f where f: "frame = Some f" by auto
  have "nat len \<le> length f" using assms [OF f] by simp
  then show ?thesis
    using True f by (simp add: TapClientSendFrame_def mem_simps wire_simps)
next
  case False
  then show ?thesis
    by (auto simp: TapClientSendFrame_def split: option.splits)
qed

theorem TapClientSendFrame_spec_witness:
  "\<exists>n' r. TapClientSendFrame \<lparr>g_active = True, g_bridge_ip = [49], g_bridge_port = 12345\<rparr>
      True Sent (Some [1, 2, 3]) 2 \<lparr>wire = [], open_sockets = 0\<rparr> = Some (n', r) \<and>
    r = 0 \<and> wire n' = [([49], 12345, [0, 1, 2])]"
  using TapClientSendFrame_spec [of "Some [1, 2, 3]" 2
      "\<lparr>g_active = True, g_bridge_ip = [49], g_bridge_port = 12345\<rparr>" True Sent
      "\<lparr>wire = [], open_sockets = 0\<rparr>"]
  by (auto simp: numeral_2_eq_2)

end
