(* ===== verification/Linux_Tap.thy ===== *)
theory Linux_Tap
  imports C_Strings Tap_Protocol
begin

text \<open>
  The Linux side of the bridge: src/linux_tap.c.  Kernel calls are the environment: a
  \<open>kernel\<close> record answers each operation and keeps the log of the operations attempted and
  the number of descriptors open.  The bridge itself is the record \<open>bridge\<close> with the
  static variables and the 2048-byte buffer of \<open>main\<close>, which is shared by both directions
  and never cleared.  One iteration of the \<open>poll\<close> loop is \<open>poll_step\<close>; a run of the loop
  over a list of poll results is \<open>bridge_loop\<close>.
\<close>

section \<open>The kernel interface\<close>

datatype kop =
    K_Socket                        \<comment> \<open>socket for an ioctl\<close>
  | K_SIOCSIFADDR bytes bytes       \<comment> \<open>interface name, address in network order\<close>
  | K_SIOCSIFNETMASK bytes bytes    \<comment> \<open>interface name, mask in network order\<close>
  | K_SIOCSIFHWADDR bytes bytes
  | K_SIOCGIFFLAGS bytes
  | K_SIOCSIFFLAGS bytes u16
  | K_System bytes                  \<comment> \<open>a shell command line\<close>
  | K_OpenTun                       \<comment> \<open>open of /dev/net/tun\<close>
  | K_TUNSETIFF bytes u16           \<comment> \<open>device name, flags\<close>
  | K_UdpSocket
  | K_Bind u32 u16                  \<comment> \<open>address and port in host order\<close>

record kernel =
  k_ok :: "kop \<Rightarrow> bool"             \<comment> \<open>does the operation succeed\<close>
  k_flags :: u16                    \<comment> \<open>the interface flags\<close>
  k_log :: "kop list"
  k_fds :: nat

definition k_do :: "kop \<Rightarrow> kernel \<Rightarrow> kernel \<times> bool" where
  "k_do op k = (k\<lparr>k_log := k_log k @ [op]\<rparr>, k_ok k op)"

definition k_close :: "kernel \<Rightarrow> kernel" where
  "k_close k = k\<lparr>k_fds := k_fds k - 1\<rparr>"

definition get_iface_socket :: "kernel \<Rightarrow> kernel \<times> bool" where
  "get_iface_socket k =
     (let (k', ok) = k_do K_Socket k
      in (if ok then k'\<lparr>k_fds := k_fds k' + 1\<rparr> else k', ok))"

lemma k_do_simps [simp]:
  "fst (k_do op k) = k\<lparr>k_log := k_log k @ [op]\<rparr>" "snd (k_do op k) = k_ok k op"
  by (simp_all add: k_do_def)

definition IFF_UP :: u16 where "IFF_UP = 1"

section \<open>Command handlers\<close>

definition be32 :: "u32 \<Rightarrow> bytes" where
  "be32 w = rev (le32 w)"

text \<open>
  \<open>htonl(~((1ULL << (32 - prefix)) - 1))\<close> on a 64-bit one.  The shift count is an int:
  for a prefix above 32 it is negative, which C leaves undefined.
\<close>

definition prefix_mask :: "u8 \<Rightarrow> u32 option" where
  "prefix_mask p =
     (if p = 0 then Some 0
      else if unat p \<le> 32
      then Some (ucast (NOT (push_bit (32 - unat p) (1 :: u64) - 1)))
      else None)"

definition handle_set_ipv4 :: "bytes \<Rightarrow> bytes \<Rightarrow> kernel \<Rightarrow> (kernel \<times> int) option" where
  "handle_set_ipv4 ifn dat k = do {
     addr \<leftarrow> mem_read dat 0 4;
     pb \<leftarrow> mem_read dat 4 1;
     let pfx = pb ! 0;
     let (k1, s) = get_iface_socket k;
     if \<not> s then Some (k1, -1)
     else
       let (k2, ok) = k_do (K_SIOCSIFADDR ifn addr) k1 in
       if \<not> ok then Some (k_close k2, -1)
       else do {
         mask \<leftarrow> prefix_mask pfx;
         let (k3, ok) = k_do (K_SIOCSIFNETMASK ifn (be32 mask)) k2;
         if \<not> ok then Some (k_close k3, -1) else Some (k_close k3, 0)
       } }"

text \<open>\<open>inet_ntoa\<close>: four decimal numbers with dots.\<close>

definition inet_ntoa :: "bytes \<Rightarrow> bytes" where
  "inet_ntoa a = dec (unat (a ! 0)) @ str ''.'' @ dec (unat (a ! 1)) @ str ''.'' @
                 dec (unat (a ! 2)) @ str ''.'' @ dec (unat (a ! 3))"

definition handle_set_ipv4_gw :: "bytes \<Rightarrow> bytes \<Rightarrow> kernel \<Rightarrow> (kernel \<times> int) option" where
  "handle_set_ipv4_gw ifn dat k = do {
     gw \<leftarrow> mem_read dat 0 4;
     let cmd = take 255 (str ''ip route replace default via '' @ inet_ntoa gw @
                 str '' dev '' @ ifn @ str '' 2>/dev/null'');
     let (k1, ok) = k_do (K_System cmd) k;
     Some (k1, 0) }"

text \<open>\<open>ntop6\<close> is \<open>inet_ntop(AF_INET6, ...)\<close>, the library's text form of an address.\<close>

definition handle_set_ipv6 ::
    "(bytes \<Rightarrow> bytes) \<Rightarrow> bytes \<Rightarrow> bytes \<Rightarrow> kernel \<Rightarrow> (kernel \<times> int) option" where
  "handle_set_ipv6 ntop6 ifn dat k = do {
     addr \<leftarrow> mem_read dat 0 16;
     pb \<leftarrow> mem_read dat 16 1;
     let cmd = take 255 (str ''ip -6 addr replace '' @ ntop6 addr @ str ''/'' @
                 dec (unat (pb ! 0)) @ str '' dev '' @ ifn @ str '' 2>/dev/null'');
     let (k1, ok) = k_do (K_System cmd) k;
     Some (k1, 0) }"

definition handle_set_mac :: "bytes \<Rightarrow> bytes \<Rightarrow> kernel \<Rightarrow> (kernel \<times> int) option" where
  "handle_set_mac ifn dat k =
     (let (k1, s) = get_iface_socket k in
      if \<not> s then Some (k1, -1)
      else do {
        mac \<leftarrow> mem_read dat 0 6;
        let (k2, ok) = k_do (K_SIOCSIFHWADDR ifn mac) k1;
        Some (k_close k2, if ok then 0 else -1) })"

definition set_link_flags :: "(u16 \<Rightarrow> u16) \<Rightarrow> bytes \<Rightarrow> kernel \<Rightarrow> kernel \<times> int" where
  "set_link_flags f ifn k =
     (let (k1, s) = get_iface_socket k in
      if \<not> s then (k1, -1)
      else
        let (k2, ok) = k_do (K_SIOCGIFFLAGS ifn) k1 in
        if \<not> ok then (k_close k2, -1)
        else
          let fl = f (k_flags k2);
              (k3, ok) = k_do (K_SIOCSIFFLAGS ifn fl) k2 in
          if \<not> ok then (k_close k3, -1)
          else (k_close (k3\<lparr>k_flags := fl\<rparr>), 0))"

definition handle_link_up :: "bytes \<Rightarrow> kernel \<Rightarrow> kernel \<times> int" where
  "handle_link_up = set_link_flags (\<lambda>fl. fl OR IFF_UP)"

definition handle_link_down :: "bytes \<Rightarrow> kernel \<Rightarrow> kernel \<times> int" where
  "handle_link_down = set_link_flags (\<lambda>fl. fl AND NOT IFF_UP)"

section \<open>The client table\<close>

type_synonym sockaddr = bytes  \<comment> \<open>the 16 bytes of a struct sockaddr_in\<close>

definition MAX_CLIENTS :: nat where "MAX_CLIENTS = 32"

fun find_client :: "sockaddr list \<Rightarrow> sockaddr \<Rightarrow> bool" where
  "find_client [] from_ad = False"
| "find_client (c # cs) from_ad = (if c = from_ad then True else find_client cs from_ad)"

definition update_clients :: "sockaddr list \<Rightarrow> sockaddr \<Rightarrow> sockaddr list" where
  "update_clients cs from_ad =
     (if find_client cs from_ad then cs
      else if length cs < MAX_CLIENTS then cs @ [from_ad]
      else take (MAX_CLIENTS - 1) (drop 1 cs) @ [from_ad])"

section \<open>One iteration of the poll loop\<close>

record bridge =
  ifname :: bytes
  clients :: "sockaddr list"
  buf :: bytes
  kern :: kernel
  out_udp :: "(sockaddr \<times> bytes) list"   \<comment> \<open>datagrams handed to \<open>sendto\<close>\<close>
  out_tap :: "bytes list"                 \<comment> \<open>frames handed to \<open>write\<close>\<close>

datatype loop_status = Continue | Break_Loop

text \<open>
  A \<open>read\<close> that returns 0 is \<open>TR_Data []\<close>.  The flag of an error says that errno is EIO
  or ENETDOWN.
\<close>

datatype tap_read = TR_Data bytes | TR_Error bool
datatype udp_recv = UR_Data sockaddr bytes | UR_Error
datatype tap_write = TW_Written nat | TW_Error bool

datatype poll_event =
    Poll_Error bool                        \<comment> \<open>errno is EINTR\<close>
  | Poll_Ready "tap_read option" "udp_recv option" tap_write

definition handle_control :: "(bytes \<Rightarrow> bytes) \<Rightarrow> nat \<Rightarrow> bridge \<Rightarrow> bridge option" where
  "handle_control ntop6 n b =
     (if n < 2 then Some b
      else do {
        c \<leftarrow> mem_read (buf b) 1 1;
        let cmd = c ! 0;
        let dat = drop 2 (buf b);
        let ifn = ifname b;
        let k = kern b;
        if cmd = TAP_CTRL_SET_IPV4
        then map_option (\<lambda>r. b\<lparr>kern := fst r\<rparr>) (handle_set_ipv4 ifn dat k)
        else if cmd = TAP_CTRL_SET_IPV4_GW
        then map_option (\<lambda>r. b\<lparr>kern := fst r\<rparr>) (handle_set_ipv4_gw ifn dat k)
        else if cmd = TAP_CTRL_SET_IPV6
        then map_option (\<lambda>r. b\<lparr>kern := fst r\<rparr>) (handle_set_ipv6 ntop6 ifn dat k)
        else if cmd = TAP_CTRL_SET_MAC
        then map_option (\<lambda>r. b\<lparr>kern := fst r\<rparr>) (handle_set_mac ifn dat k)
        else if cmd = TAP_CTRL_LINK_UP
        then Some (b\<lparr>kern := fst (handle_link_up ifn k)\<rparr>)
        else if cmd = TAP_CTRL_LINK_DOWN
        then Some (b\<lparr>kern := fst (handle_link_down ifn k)\<rparr>)
        else Some b })"

definition udp_to_tap ::
    "(bytes \<Rightarrow> bytes) \<Rightarrow> udp_recv \<Rightarrow> tap_write \<Rightarrow> bridge \<Rightarrow> (bridge \<times> loop_status) option" where
  "udp_to_tap ntop6 r w b =
     (case r of
        UR_Error \<Rightarrow> Some (b, Continue)
      | UR_Data from_ad dgram \<Rightarrow> do {
          let d = take 2048 dgram;
          let n = length d;
          bf \<leftarrow> mem_write (buf b) 0 d;
          let b1 = b\<lparr>buf := bf, clients := update_clients (clients b) from_ad\<rparr>;
          if n < 1 then Some (b1, Continue)
          else do {
            t \<leftarrow> mem_read bf 0 1;
            if t ! 0 = 0x01 then do {
              b2 \<leftarrow> handle_control ntop6 n b1;
              Some (b2, Continue) }
            else if t ! 0 = 0x00 then do {
              frame \<leftarrow> mem_read bf 1 (n - 1);
              let b2 = b1\<lparr>out_tap := out_tap b1 @ [frame]\<rparr>;
              case w of
                TW_Error transient \<Rightarrow> Some (b2, if transient then Continue else Break_Loop)
              | TW_Written m \<Rightarrow> Some (b2, Continue) }
            else Some (b1, Continue) } })"

definition tap_to_udp :: "tap_read \<Rightarrow> bridge \<Rightarrow> (bridge \<times> loop_status \<times> bool) option" where
  \<comment> \<open>the last component: does the iteration go on to the UDP side\<close>
  "tap_to_udp r b =
     (case r of
        TR_Error transient \<Rightarrow> Some (b, if transient then Continue else Break_Loop, False)
      | TR_Data raw \<Rightarrow>
          let d = take 2047 raw in
          if length d = 0 then Some (b, Break_Loop, False)
          else do {
          b0 \<leftarrow> mem_write (buf b) 1 d;
          b1 \<leftarrow> mem_write b0 0 [0x00];
          pkt \<leftarrow> mem_read b1 0 (length d + 1);
          Some (b\<lparr>buf := b1, out_udp := out_udp b @ map (\<lambda>c. (c, pkt)) (clients b)\<rparr>,
                Continue, True) })"

definition poll_step ::
    "(bytes \<Rightarrow> bytes) \<Rightarrow> poll_event \<Rightarrow> bridge \<Rightarrow> (bridge \<times> loop_status) option" where
  "poll_step ntop6 e b =
     (case e of
        Poll_Error eintr \<Rightarrow> Some (b, if eintr then Continue else Break_Loop)
      | Poll_Ready t u w \<Rightarrow> do {
          (b1, st, go) \<leftarrow> (case t of None \<Rightarrow> Some (b, Continue, True) | Some r \<Rightarrow> tap_to_udp r b);
          if \<not> go then Some (b1, st)
          else case u of None \<Rightarrow> Some (b1, Continue) | Some r \<Rightarrow> udp_to_tap ntop6 r w b1 })"

fun bridge_loop ::
    "(bytes \<Rightarrow> bytes) \<Rightarrow> poll_event list \<Rightarrow> bridge \<Rightarrow> (bridge \<times> loop_status) option" where
  "bridge_loop ntop6 [] b = Some (b, Continue)"
| "bridge_loop ntop6 (e # es) b =
     (case poll_step ntop6 e b of
        None \<Rightarrow> None
      | Some (b1, Break_Loop) \<Rightarrow> Some (b1, Break_Loop)
      | Some (b1, Continue) \<Rightarrow> bridge_loop ntop6 es b1)"

section \<open>Start-up\<close>

text \<open>\<open>IFF_TAP | IFF_NO_PI\<close>; the name is cut to \<open>IFNAMSIZ - 1\<close> characters by \<open>strncpy\<close>.\<close>

definition IFNAMSIZ :: nat where "IFNAMSIZ = 16"

definition tap_alloc :: "bytes \<Rightarrow> kernel \<Rightarrow> kernel \<times> bool" where
  "tap_alloc dev k =
     (let (k1, ok) = k_do K_OpenTun k in
      if \<not> ok then (k1, False)
      else
        let k1 = k1\<lparr>k_fds := k_fds k1 + 1\<rparr>;
            (k2, ok) = k_do (K_TUNSETIFF (take (IFNAMSIZ - 1) dev) 0x1002) k1 in
        if \<not> ok then (k_close k2, False) else (k2, True))"

text \<open>
  \<open>main\<close> up to the loop: the exit status, or the bridge that enters the loop.  \<open>garbage\<close> is
  the content of the uninitialised stack buffer.  \<open>htons(port)\<close> keeps the low 16 bits of
  the int that \<open>atoi\<close> returned.
\<close>

definition main_start ::
    "bytes list \<Rightarrow> bytes \<Rightarrow> kernel \<Rightarrow> (kernel \<times> int) + bridge" where
  "main_start argv garbage k =
     (if length argv < 3 then Inl (k, 1)
      else
        let tap_name = argv ! 1;
            port = atoi (argv ! 2);
            ifn = take (IFNAMSIZ - 1) tap_name;
            (k1, ok) = tap_alloc tap_name k in
        if \<not> ok then Inl (k1, 1)
        else
          let (k2, ok) = k_do K_UdpSocket k1 in
          if \<not> ok then Inl (k2, 1)
          else
            let k2 = k2\<lparr>k_fds := k_fds k2 + 1\<rparr>;
                (k3, ok) = k_do (K_Bind 0x7F000001 (word_of_int port)) k2 in
            if \<not> ok then Inl (k3, 1)
            else Inr \<lparr>ifname = ifn, clients = [], buf = garbage, kern = k3,
                      out_udp = [], out_tap = []\<rparr>)"

text \<open>After the loop both descriptors are closed and the status is 0.\<close>

definition main_run ::
    "(bytes \<Rightarrow> bytes) \<Rightarrow> bytes list \<Rightarrow> bytes \<Rightarrow> poll_event list \<Rightarrow> kernel \<Rightarrow>
     (bridge option \<times> kernel \<times> int option) option" where
  "main_run ntop6 argv garbage es k =
     (case main_start argv garbage k of
        Inl (k', r) \<Rightarrow> Some (None, k', Some r)
      | Inr b \<Rightarrow>
          (case bridge_loop ntop6 es b of
             None \<Rightarrow> None
           | Some (b', Continue) \<Rightarrow> Some (Some b', kern b', None)
           | Some (b', Break_Loop) \<Rightarrow>
               Some (Some b', k_close (k_close (kern b')), Some 0)))"

section \<open>Netmasks\<close>

lemma bit_prefix_mask:
  assumes "prefix_mask p = Some m" "i < 32"
  shows "bit m i \<longleftrightarrow> 32 - unat p \<le> i"
proof (cases "p = 0")
  case True
  then show ?thesis using assms by (simp add: prefix_mask_def)
next
  case False
  then have le: "unat p \<le> 32" and m: "m = ucast (NOT (push_bit (32 - unat p) (1 :: u64) - 1))"
    using assms by (auto simp: prefix_mask_def split: if_splits)
  have "push_bit (32 - unat p) (1 :: u64) - 1 = mask (32 - unat p)"
    by (simp add: mask_eq_exp_minus_1 push_bit_eq_mult)
  then show ?thesis using m assms(2)
    by (auto simp: bit_ucast_iff bit_not_iff bit_mask_iff not_less)
qed

lemma prefix_mask_defined: "(\<exists>m. prefix_mask p = Some m) \<longleftrightarrow> unat p \<le> 32"
  by (auto simp: prefix_mask_def)

section \<open>Handlers: descriptors and effects\<close>

lemma handle_set_ipv4_fds:
  "handle_set_ipv4 ifn dat k = Some (k', r) \<Longrightarrow> k_fds k' = k_fds k"
  by (auto simp: handle_set_ipv4_def get_iface_socket_def k_do_def k_close_def bind_eq_Some
      Let_def split: if_splits)

lemma handle_set_mac_fds:
  "handle_set_mac ifn dat k = Some (k', r) \<Longrightarrow> k_fds k' = k_fds k"
  by (auto simp: handle_set_mac_def get_iface_socket_def k_do_def k_close_def bind_eq_Some
      Let_def split: if_splits)

lemma set_link_flags_fds: "k_fds (fst (set_link_flags f ifn k)) = k_fds k"
  by (simp add: set_link_flags_def get_iface_socket_def k_do_def k_close_def Let_def)

lemma set_link_flags_effect:
  "set_link_flags f ifn k = (k', r) \<Longrightarrow>
   k_flags k' = (if r = 0 then f (k_flags k) else k_flags k) \<and> (r = 0 \<or> r = -1) \<and>
   k_ok k' = k_ok k"
  by (auto simp: set_link_flags_def get_iface_socket_def k_do_def k_close_def Let_def
      split: if_splits)

lemma bit_IFF_UP: "bit IFF_UP i \<longleftrightarrow> i = 0"
  by (simp add: IFF_UP_def bit_1_iff)

section \<open>The client table\<close>

lemma find_client_iff [simp]: "find_client cs a \<longleftrightarrow> a \<in> set cs"
  by (induction cs) auto

definition clients_ok :: "sockaddr list \<Rightarrow> bool" where
  "clients_ok cs \<longleftrightarrow> distinct cs \<and> length cs \<le> MAX_CLIENTS"

lemma update_clients_mem: "a \<in> set (update_clients cs a)"
  by (simp add: update_clients_def)

lemma update_clients_ok [inv_intros]: "clients_ok cs \<Longrightarrow> clients_ok (update_clients cs a)"
  by (cases cs)
    (auto simp: clients_ok_def update_clients_def MAX_CLIENTS_def dest: in_set_takeD)

lemma update_clients_full:
  "clients_ok (c # cs) \<Longrightarrow> length (c # cs) = MAX_CLIENTS \<Longrightarrow> a \<notin> set (c # cs) \<Longrightarrow>
   update_clients (c # cs) a = cs @ [a]"
  by (auto simp: update_clients_def MAX_CLIENTS_def)

lemma foldl_update_clients_retains:
  assumes "distinct (pre @ c # post)" "length (pre @ c # post) \<le> MAX_CLIENTS"
    "set post \<subseteq> S" "c \<notin> S" "finite S" "card S < MAX_CLIENTS" "set as - {c} \<subseteq> S"
  shows "c \<in> set (foldl update_clients (pre @ c # post) as)"
  using assms
proof (induction as arbitrary: pre post)
  case Nil
  then show ?case by simp
next
  case (Cons a as)
  have sub: "set as - {c} \<subseteq> S" and ain: "a = c \<or> a \<in> S" using Cons.prems(7) by auto
  show ?case
  proof (cases "a \<in> set (pre @ c # post)")
    case True
    then have "update_clients (pre @ c # post) a = pre @ c # post"
      by (simp add: update_clients_def)
    then show ?thesis using Cons.IH [OF Cons.prems(1-6) sub] by simp
  next
    case new: False
    then have aS: "a \<in> S" using ain by auto
    have dp: "distinct post" "a \<notin> set post" "set (post @ [a]) \<subseteq> S"
      using Cons.prems(1,3) new aS by auto
    then have lp: "length (post @ [a]) < MAX_CLIENTS"
      using card_mono [OF Cons.prems(5), of "set (post @ [a])"] Cons.prems(6)
        distinct_card [of "post @ [a]"] by simp
    show ?thesis
    proof (cases "length (pre @ c # post) < MAX_CLIENTS")
      case True
      then have u: "update_clients (pre @ c # post) a = pre @ c # (post @ [a])"
        using new by (simp add: update_clients_def)
      have "c \<in> set (foldl update_clients (pre @ c # (post @ [a])) as)"
        by (rule Cons.IH) (use Cons.prems dp new True sub in auto)
      then show ?thesis by (simp add: u)
    next
      case False
      then have len: "length (pre @ c # post) = MAX_CLIENTS" using Cons.prems(2) by simp
      then obtain p pre' where pre: "pre = p # pre'" using lp by (cases pre) auto
      have "clients_ok (p # (pre' @ c # post))"
        using Cons.prems(1,2) pre by (simp add: clients_ok_def)
      then have u: "update_clients (pre @ c # post) a = pre' @ c # (post @ [a])"
        using update_clients_full [of p "pre' @ c # post" a] len new pre by simp
      have "c \<in> set (foldl update_clients (pre' @ c # (post @ [a])) as)"
        by (rule Cons.IH) (use Cons.prems dp new pre sub in auto)
      then show ?thesis by (simp add: u)
    qed
  qed
qed

section \<open>The bridge invariant\<close>

definition bridge_wf :: "bridge \<Rightarrow> bool" where
  "bridge_wf b \<longleftrightarrow> length (buf b) = 2048 \<and> clients_ok (clients b)"

definition same_bridge :: "bridge \<Rightarrow> bridge \<Rightarrow> bool" where
  \<comment> \<open>equal up to the kernel, which keeps the number of its descriptors\<close>
  "same_bridge b b' \<longleftrightarrow>
     ifname b' = ifname b \<and> clients b' = clients b \<and> buf b' = buf b \<and>
     out_udp b' = out_udp b \<and> out_tap b' = out_tap b \<and>
     k_fds (kern b') = k_fds (kern b)"

lemma same_bridge_kern [intro]:
  "k_fds k' = k_fds (kern b) \<Longrightarrow> same_bridge b (b\<lparr>kern := k'\<rparr>)"
  by (simp add: same_bridge_def)

lemma same_bridge_refl [simp]: "same_bridge b b"
  by (simp add: same_bridge_def)

lemma handle_set_ipv4_gw_fds:
  "handle_set_ipv4_gw ifn dat k = Some (k', r) \<Longrightarrow> k_fds k' = k_fds k"
  by (auto simp: handle_set_ipv4_gw_def k_do_def bind_eq_Some)

lemma handle_set_ipv6_fds:
  "handle_set_ipv6 ntop6 ifn dat k = Some (k', r) \<Longrightarrow> k_fds k' = k_fds k"
  by (auto simp: handle_set_ipv6_def k_do_def bind_eq_Some)

lemmas handlers_fds = handle_set_ipv4_fds handle_set_ipv4_gw_fds handle_set_ipv6_fds
  handle_set_mac_fds

lemma handle_control_same:
  assumes "handle_control ntop6 n b = Some b'"
  shows "same_bridge b b'"
  using assms
  by (auto simp: handle_control_def bind_eq_Some Let_def handle_link_up_def handle_link_down_def
      set_link_flags_fds split: if_splits dest: handlers_fds intro!: same_bridge_kern)

lemma udp_to_tap_wf:
  assumes "udp_to_tap ntop6 r w b = Some (b', st)" "bridge_wf b"
  shows "bridge_wf b' \<and> k_fds (kern b') = k_fds (kern b) \<and> ifname b' = ifname b"
proof (cases r)
  case UR_Error
  then show ?thesis using assms by (simp add: udp_to_tap_def)
next
  case (UR_Data a d)
  obtain bf where bf: "mem_write (buf b) 0 (take 2048 d) = Some bf"
    using assms UR_Data by (auto simp: udp_to_tap_def bind_eq_Some Let_def)
  define b1 where "b1 = b\<lparr>buf := bf, clients := update_clients (clients b) a\<rparr>"
  have wf1: "bridge_wf b1"
    using assms(2) mem_write_length [OF bf] update_clients_ok
    by (simp add: bridge_wf_def b1_def)
  have k1: "kern b1 = kern b" "ifname b1 = ifname b" by (simp_all add: b1_def)
  have "(\<exists>fr. b' = b1\<lparr>out_tap := fr\<rparr>) \<or> same_bridge b1 b'"
    using assms(1) UR_Data bf
    by (cases w) (auto simp: udp_to_tap_def bind_eq_Some b1_def [symmetric] Let_def
        split: if_splits dest: handle_control_same)
  then show ?thesis using wf1 k1 by (auto simp: bridge_wf_def same_bridge_def)
qed

lemma tap_to_udp_wf:
  assumes "tap_to_udp r b = Some (b', st, go)" "bridge_wf b"
  shows "bridge_wf b' \<and> kern b' = kern b \<and> ifname b' = ifname b \<and> clients b' = clients b"
  using assms
  by (auto simp: tap_to_udp_def bridge_wf_def bind_eq_Some Let_def
      split: tap_read.splits if_splits dest!: mem_write_length)

lemma poll_step_wf [inv_intros]:
  assumes "poll_step ntop6 e b = Some (b', st)" "bridge_wf b"
  shows "bridge_wf b' \<and> k_fds (kern b') = k_fds (kern b) \<and> ifname b' = ifname b"
proof (cases e)
  case (Poll_Error x)
  then show ?thesis using assms by (simp add: poll_step_def)
next
  case (Poll_Ready t u w)
  then obtain b1 st1 go where t: "(case t of None \<Rightarrow> Some (b, Continue, True)
      | Some r \<Rightarrow> tap_to_udp r b) = Some (b1, st1, go)"
    and rest: "(if \<not> go then Some (b1, st1) else case u of None \<Rightarrow> Some (b1, Continue)
      | Some r \<Rightarrow> udp_to_tap ntop6 r w b1) = Some (b', st)"
    using assms(1) by (auto simp: poll_step_def bind_eq_Some)
  have 1: "bridge_wf b1 \<and> kern b1 = kern b \<and> ifname b1 = ifname b"
    using t assms(2) tap_to_udp_wf by (auto split: option.splits)
  show ?thesis
    using rest 1 udp_to_tap_wf [of ntop6 _ w b1 b' st] by (auto split: if_splits option.splits)
qed

lemma bridge_loop_invariant_aux:
  assumes "bridge_wf b" "bridge_loop ntop6 es b = Some (b', st)"
  shows "bridge_wf b' \<and> k_fds (kern b') = k_fds (kern b) \<and> ifname b' = ifname b"
  using assms
proof (induction es arbitrary: b)
  case Nil
  then show ?case by simp
next
  case (Cons e es)
  then obtain b1 s1 where s: "poll_step ntop6 e b = Some (b1, s1)"
    by (auto split: option.splits)
  note w = poll_step_wf [OF s Cons.prems(1)]
  show ?case
    using Cons.prems(2) s w Cons.IH [of b1] by (cases s1) auto
qed

text \<open>C1. Whatever the events of the loop, the 2048-byte buffer keeps its size, the client
  table stays free of duplicates and within its 32 entries, the interface name is kept, and
  every descriptor a handler opens is closed again.\<close>

theorem bridge_loop_invariant:
  assumes "bridge_wf b" "bridge_loop ntop6 es b = Some (b', st)"
  shows "bridge_wf b' \<and> k_fds (kern b') = k_fds (kern b) \<and> ifname b' = ifname b"
  using assms by (rule bridge_loop_invariant_aux)

text \<open>A closed bridge state for the witnesses.\<close>

definition kernel0 :: kernel where
  "kernel0 = \<lparr>k_ok = (\<lambda>_. True), k_flags = 0, k_log = [], k_fds = 2\<rparr>"

definition bridge0 :: bridge where
  "bridge0 = \<lparr>ifname = str ''tap0'', clients = [], buf = replicate 2048 0, kern = kernel0,
              out_udp = [], out_tap = []\<rparr>"

lemma bridge0_wf: "bridge_wf bridge0"
  by (simp add: bridge_wf_def bridge0_def clients_ok_def)

theorem bridge_loop_invariant_witness:
  "bridge_wf bridge0 \<and>
   (\<exists>b' st. bridge_loop (\<lambda>_. []) [Poll_Ready (Some (TR_Data [1, 2])) None (TW_Written 0)] bridge0
            = Some (b', st) \<and> bridge_wf b' \<and> k_fds (kern b') = 2)"
proof -
  have "\<exists>b' st. bridge_loop (\<lambda>_. []) [Poll_Ready (Some (TR_Data [1, 2])) None (TW_Written 0)]
      bridge0 = Some (b', st)"
    by (simp add: poll_step_def tap_to_udp_def bridge0_def mem_simps)
  then show ?thesis
    using bridge_loop_invariant [OF bridge0_wf, of "\<lambda>_. []"
        "[Poll_Ready (Some (TR_Data [1, 2])) None (TW_Written 0)]"] bridge0_wf
    by (fastforce simp: bridge0_def kernel0_def)
qed

section \<open>Absence of undefined behaviour\<close>

text \<open>
  The only access of the loop that can be undefined is the shift of \<open>handle_set_ipv4\<close>.
  \<open>ipv4_shift_fault\<close> states when a datagram reaches it: the sixth payload byte, taken from
  the buffer as it is after \<open>recvfrom\<close>, exceeds 32.
\<close>

definition ipv4_shift_fault :: "udp_recv \<Rightarrow> bridge \<Rightarrow> bool" where
  "ipv4_shift_fault r b =
     (case r of UR_Error \<Rightarrow> False
      | UR_Data a d \<Rightarrow>
          let bf = take 2048 d @ drop (length (take 2048 d)) (buf b) in
          2 \<le> length d \<and> d ! 0 = 1 \<and> d ! 1 = TAP_CTRL_SET_IPV4 \<and> 32 < unat (bf ! 6) \<and>
          k_ok (kern b) K_Socket \<and>
          k_ok (kern b) (K_SIOCSIFADDR (ifname b) (take 4 (drop 2 bf))))"

lemma handle_set_ipv4_None:
  assumes "5 \<le> length dat"
  shows "handle_set_ipv4 ifn dat k = None \<longleftrightarrow>
    k_ok k K_Socket \<and> k_ok k (K_SIOCSIFADDR ifn (take 4 dat)) \<and> 32 < unat (dat ! 4)"
  using assms
  by (auto simp: handle_set_ipv4_def mem_simps get_iface_socket_def k_do_def Let_def
      take_Suc_conv_app_nth hd_drop_conv_nth bind_eq_None_conv prefix_mask_def nth_append
      split: if_splits)

lemma handle_control_None:
  assumes "length (buf b) = 2048"
  shows "handle_control ntop6 n b = None \<longleftrightarrow>
    2 \<le> n \<and> buf b ! 1 = TAP_CTRL_SET_IPV4 \<and>
    handle_set_ipv4 (ifname b) (drop 2 (buf b)) (kern b) = None"
  using assms
  by (auto simp: handle_control_def mem_simps Let_def wire_simps handle_set_ipv4_gw_def
      handle_set_ipv6_def handle_set_mac_def k_do_def nth_append split: prod.splits)

lemma handle_control_buf:
  "length (buf b) = 2048 \<Longrightarrow> handle_control ntop6 n b = None \<longleftrightarrow>
    2 \<le> n \<and> buf b ! 1 = TAP_CTRL_SET_IPV4 \<and> k_ok (kern b) K_Socket \<and>
    k_ok (kern b) (K_SIOCSIFADDR (ifname b) (take 4 (drop 2 (buf b)))) \<and> 32 < unat (buf b ! 6)"
  by (simp add: handle_control_None handle_set_ipv4_None)

lemma udp_to_tap_None:
  assumes "length (buf b) = 2048"
  shows "udp_to_tap ntop6 r w b = None \<longleftrightarrow> ipv4_shift_fault r b"
proof (cases r)
  case UR_Error
  then show ?thesis by (simp add: udp_to_tap_def ipv4_shift_fault_def)
next
  case (UR_Data a d)
  define bf where "bf = take 2048 d @ drop (length (take 2048 d)) (buf b)"
  have len: "length bf = 2048" using assms by (simp add: bf_def)
  have w0: "mem_write (buf b) 0 (take 2048 d) = Some bf"
    using assms by (simp add: mem_write_def bf_def)
  define b1 where "b1 = b\<lparr>buf := bf, clients := update_clients (clients b) a\<rparr>"
  have b1: "buf b1 = bf" "ifname b1 = ifname b" "kern b1 = kern b" by (simp_all add: b1_def)
  show ?thesis
  proof (cases "d = []")
    case True
    then show ?thesis using w0 UR_Data
      by (simp add: udp_to_tap_def ipv4_shift_fault_def)
  next
    case False
    then have bf0: "bf ! 0 = d ! 0" and bf1: "2 \<le> length d \<Longrightarrow> bf ! 1 = d ! 1"
      by (auto simp: bf_def nth_append)
    have t: "mem_read bf 0 1 = Some (take 1 bf)" "take 1 bf ! 0 = d ! 0"
      using len bf0 by (auto simp: mem_simps)
    have fr: "mem_read bf 1 (min (length d) 2048 - 1) =
        Some (take (min (length d) 2048 - 1) (drop 1 bf))"
      using len by (auto simp: mem_read_def)
    have hc: "handle_control ntop6 (min (length d) 2048) b1 = None \<longleftrightarrow>
        2 \<le> length d \<and> d ! 1 = TAP_CTRL_SET_IPV4 \<and> 32 < unat (bf ! 6) \<and>
        k_ok (kern b) K_Socket \<and>
        k_ok (kern b) (K_SIOCSIFADDR (ifname b) (take 4 (drop 2 bf)))"
      using handle_control_buf [of b1 ntop6 "min (length d) 2048"] b1 len bf1 by auto
    have "udp_to_tap ntop6 r w b = None \<longleftrightarrow>
        d ! 0 = 1 \<and> handle_control ntop6 (min (length d) 2048) b1 = None"
      using False UR_Data w0 t fr
      by (cases w) (auto simp: udp_to_tap_def Let_def b1_def [symmetric] bind_eq_None_conv)
    also have "\<dots> \<longleftrightarrow> ipv4_shift_fault r b"
    proof -
      have "ipv4_shift_fault r b \<longleftrightarrow> 2 \<le> length d \<and> d ! 0 = 1 \<and>
          d ! 1 = TAP_CTRL_SET_IPV4 \<and> 32 < unat (bf ! 6) \<and> k_ok (kern b) K_Socket \<and>
          k_ok (kern b) (K_SIOCSIFADDR (ifname b) (take 4 (drop 2 bf)))"
        by (simp only: ipv4_shift_fault_def UR_Data udp_recv.case Let_def bf_def)
      then show ?thesis using hc by blast
    qed
    finally show ?thesis .
  qed
qed

lemma tap_to_udp_Some:
  assumes "length (buf b) = 2048"
  shows "tap_to_udp r b \<noteq> None"
  using assms
  by (cases r) (auto simp: tap_to_udp_def mem_write_def mem_read_def Let_def)

text \<open>A sufficient condition that does not look at the buffer.\<close>

definition safe_event :: "poll_event \<Rightarrow> bool" where
  "safe_event e =
     (case e of
        Poll_Ready t (Some (UR_Data a d)) w \<Rightarrow>
          take 2 d \<noteq> [0x01, TAP_CTRL_SET_IPV4] \<or> (7 \<le> length d \<and> unat (d ! 6) \<le> 32)
      | _ \<Rightarrow> True)"

lemma safe_event_no_fault:
  assumes "safe_event (Poll_Ready t (Some r) w)"
  shows "\<not> ipv4_shift_fault r b"
proof (cases r)
  case (UR_Data a d)
  show ?thesis
  proof (cases "7 \<le> length d \<and> unat (d ! 6) \<le> 32")
    case True
    then show ?thesis using UR_Data by (simp add: ipv4_shift_fault_def nth_append Let_def)
  next
    case False
    then have "take 2 d \<noteq> [0x01, TAP_CTRL_SET_IPV4]"
      using assms UR_Data by (auto simp: safe_event_def)
    then have "\<not> (2 \<le> length d \<and> d ! 0 = 1 \<and> d ! 1 = TAP_CTRL_SET_IPV4)"
      by (auto simp: numeral_2_eq_2 Suc_le_length_iff)
    then show ?thesis using UR_Data by (auto simp: ipv4_shift_fault_def Let_def)
  qed
qed (simp add: ipv4_shift_fault_def)

lemma poll_step_safe:
  assumes "bridge_wf b" "safe_event e"
  shows "poll_step ntop6 e b \<noteq> None"
proof (cases e)
  case (Poll_Ready t u w)
  have len: "length (buf b) = 2048" using assms(1) by (simp add: bridge_wf_def)
  obtain b1 st go where t: "(case t of None \<Rightarrow> Some (b, Continue, True)
      | Some r \<Rightarrow> tap_to_udp r b) = Some (b1, st, go)" and wf1: "bridge_wf b1"
    using tap_to_udp_Some [OF len] tap_to_udp_wf assms(1)
    by (cases t) (simp, fastforce)
  have len1: "length (buf b1) = 2048" using wf1 by (simp add: bridge_wf_def)
  have "u = Some r \<Longrightarrow> udp_to_tap ntop6 r w b1 \<noteq> None" for r
    using assms(2) Poll_Ready len1 safe_event_no_fault [of t r w b1] by (simp add: udp_to_tap_None)
  then show ?thesis using Poll_Ready t by (auto simp: poll_step_def split: option.splits)
qed (simp add: poll_step_def)

text \<open>The loop runs over any list of events without an access outside its buffer and
  without the undefined shift, provided every SET_IPV4 datagram carries its five payload
  bytes and a prefix of at most 32.\<close>

theorem bridge_loop_safe:
  assumes "bridge_wf b" "list_all safe_event es"
  shows "\<exists>b' st. bridge_loop ntop6 es b = Some (b', st)"
  using assms
proof (induction es arbitrary: b)
  case Nil
  then show ?case by simp
next
  case (Cons e es)
  then obtain b1 s1 where s: "poll_step ntop6 e b = Some (b1, s1)"
    using poll_step_safe [of b e ntop6] by auto
  then show ?case using Cons poll_step_wf [OF s] by (cases s1) auto
qed

theorem bridge_loop_safe_witness:
  "\<exists>b' st. bridge_loop (\<lambda>_. []) [Poll_Ready None (Some (UR_Data [7] [1, 1, 26, 0, 0, 1, 8]))
     (TW_Written 0)] bridge0 = Some (b', st)"
  by (rule bridge_loop_safe [OF bridge0_wf]) (simp add: safe_event_def)

text \<open>C25. One UDP datagram makes the bridge undefined exactly when it is a SET_IPV4 command
  whose prefix byte (or the byte the buffer holds there, when the datagram is shorter) is
  above 32 and the socket and the address ioctl succeed: the length of a control datagram
  and the range of its prefix are never checked.\<close>

theorem poll_step_fault_iff:
  assumes "bridge_wf b"
  shows "poll_step ntop6 (Poll_Ready None (Some r) w) b = None \<longleftrightarrow> ipv4_shift_fault r b"
  using assms by (simp add: poll_step_def bridge_wf_def udp_to_tap_None)

theorem poll_step_fault_iff_witness:
  "poll_step (\<lambda>_. []) (Poll_Ready None (Some (UR_Data [7] [1, 1, 26, 0, 0, 1, 33]))
     (TW_Written 0)) bridge0 = None"
  by (subst poll_step_fault_iff [OF bridge0_wf])
    (simp add: ipv4_shift_fault_def bridge0_def kernel0_def wire_simps)

section \<open>Functional behaviour of the two directions\<close>

text \<open>One iteration with a frame from the TAP device.\<close>

lemma tap_frame_sent:
  assumes "bridge_wf b" "frame \<noteq> []" "length frame \<le> 2047"
  shows "\<exists>b'. poll_step ntop6 (Poll_Ready (Some (TR_Data frame)) None w) b = Some (b', Continue) \<and>
    out_udp b' = out_udp b @ map (\<lambda>c. (c, 0x00 # frame)) (clients b) \<and>
    out_tap b' = out_tap b \<and> clients b' = clients b \<and> kern b' = kern b"
proof -
  have len: "length (buf b) = 2048" using assms(1) by (simp add: bridge_wf_def)
  obtain x bs where buf: "buf b = x # bs" and lb: "length bs = 2047"
    using len by (cases "buf b") auto
  have w1: "mem_write (buf b) 1 frame = Some (x # frame @ drop (length frame) bs)"
    using assms(3) lb by (simp add: buf mem_write_def)
  have r: "mem_read (0 # frame @ drop (length frame) bs) 0 (length frame + 1) =
      Some (0 # frame)"
    by (simp add: mem_read_def)
  have w2: "mem_write (x # frame @ drop (length frame) bs) 0 [0] =
      Some (0 # frame @ drop (length frame) bs)"
    by (simp add: mem_write_def)
  show ?thesis
    using assms w1 w2 r by (simp add: poll_step_def tap_to_udp_def Let_def)
qed

text \<open>TAP to UDP: a frame read from the TAP device goes, as the byte 0x00 followed by the
  frame, once to every known client in table order; nothing else is sent, and the table and
  the kernel do not change.\<close>

theorem tap_frame_broadcast:
  assumes "bridge_wf b" "frame \<noteq> []" "length frame \<le> 2047"
  shows "\<exists>b'. poll_step ntop6 (Poll_Ready (Some (TR_Data frame)) None w) b = Some (b', Continue) \<and>
    out_udp b' = out_udp b @ map (\<lambda>c. (c, 0x00 # frame)) (clients b) \<and>
    out_tap b' = out_tap b \<and> clients b' = clients b \<and> kern b' = kern b"
  by (rule tap_frame_sent [OF assms])


theorem tap_frame_broadcast_witness:
  "\<exists>b'. poll_step (\<lambda>_. []) (Poll_Ready (Some (TR_Data [5, 6])) None (TW_Written 0))
      (bridge0\<lparr>clients := [[1], [2]]\<rparr>) = Some (b', Continue) \<and>
    out_udp b' = [([1], [0, 5, 6]), ([2], [0, 5, 6])]"
proof -
  have "bridge_wf (bridge0\<lparr>clients := [[1], [2]]\<rparr>)"
    by (simp add: bridge_wf_def bridge0_def clients_ok_def MAX_CLIENTS_def)
  from tap_frame_broadcast [OF this, of "[5, 6]" "\<lambda>_. []" "TW_Written 0"] show ?thesis
    by (auto simp: bridge0_def)
qed

text \<open>UDP to TAP: a datagram 0x00 followed by a frame (2048 bytes at most in all) makes
  exactly one write of that frame to the TAP device and registers the sender; nothing is
  sent over UDP and no kernel configuration changes.  A datagram that fills more than the
  buffer is cut: of a 2048-byte frame only the first 2047 bytes are written.\<close>

lemma udp_frame_step:
  assumes "bridge_wf b"
  shows "\<exists>b' st. poll_step ntop6 (Poll_Ready None (Some (UR_Data a (0x00 # frame))) w) b =
      Some (b', st) \<and>
    out_tap b' = out_tap b @ [take 2047 frame] \<and> out_udp b' = out_udp b \<and>
    kern b' = kern b \<and> clients b' = update_clients (clients b) a \<and>
    (st = Break_Loop \<longleftrightarrow> w = TW_Error False)"
proof -
  have len: "length (buf b) = 2048" using assms by (simp add: bridge_wf_def)
  define d where "d = take 2047 frame"
  have ld: "length d \<le> 2047" by (simp add: d_def)
  have td: "take 2048 (0 # frame) = 0 # d" by (simp add: d_def)
  have w1: "mem_write (buf b) 0 (0 # d) = Some (0 # d @ drop (Suc (length d)) (buf b))"
    using ld len by (simp add: mem_write_def)
  have r1: "mem_read (0 # d @ drop (Suc (length d)) (buf b)) 0 1 = Some [0]"
    by (simp add: mem_read_def)
  have r2: "mem_read (0 # d @ drop (Suc (length d)) (buf b)) 1 (length d) = Some d"
    using ld len by (simp add: mem_read_def)
  have step: "udp_to_tap ntop6 (UR_Data a (0 # frame)) w b =
      Some (b\<lparr>buf := 0 # d @ drop (Suc (length d)) (buf b),
              clients := update_clients (clients b) a, out_tap := out_tap b @ [d]\<rparr>,
            if w = TW_Error False then Break_Loop else Continue)"
    unfolding udp_to_tap_def udp_recv.case td Let_def
    using w1 r1 r2 by (cases w) auto
  show ?thesis unfolding poll_step_def by (auto simp: step d_def)
qed

text \<open>The netmask handed to the kernel: it is defined exactly for prefixes up to 32, and
  then its one bits are the prefix most significant bits.\<close>

theorem prefix_mask_spec:
  "(\<exists>m. prefix_mask p = Some m) = (unat p \<le> 32) \<and>
   (prefix_mask p = Some m \<longrightarrow> (\<forall>i<32. bit m i = (32 - unat p \<le> i)))"
  using prefix_mask_defined [of p] by (auto simp: bit_prefix_mask)

theorem prefix_mask_spec_witness:
  "prefix_mask 26 = Some 0xFFFFFFC0 \<and> bit (0xFFFFFFC0 :: u32) 6 \<and> \<not> bit (0xFFFFFFC0 :: u32) 5"
proof -
  have e: "prefix_mask 26 = Some 0xFFFFFFC0" by (simp add: prefix_mask_def)
  then have "bit (0xFFFFFFC0 :: u32) i = (6 \<le> i)" if "i < 32" for i
    using prefix_mask_spec [of 26 "0xFFFFFFC0"] that by simp
  from this [of 6] this [of 5] e show ?thesis by simp
qed

text \<open>Link up and link down change the UP bit of the interface flags and no other bit when
  they return 0, change nothing when they return -1, and close their socket either way.\<close>

theorem link_up_down_effect:
  "(\<exists>k' r. handle_link_up ifn k = (k', r) \<and> (r = 0 \<or> r = -1) \<and> k_fds k' = k_fds k \<and>
      (\<forall>i. bit (k_flags k') i = (if r = 0 \<and> i = 0 then True else bit (k_flags k) i))) \<and>
   (\<exists>k' r. handle_link_down ifn k = (k', r) \<and> (r = 0 \<or> r = -1) \<and> k_fds k' = k_fds k \<and>
      (\<forall>i. bit (k_flags k') i = (if r = 0 \<and> i = 0 then False else bit (k_flags k) i)))"
proof -
  obtain k1 r1 where u: "handle_link_up ifn k = (k1, r1)" by fastforce
  obtain k2 r2 where d: "handle_link_down ifn k = (k2, r2)" by fastforce
  have "k_fds k1 = k_fds k" "k_fds k2 = k_fds k"
    using set_link_flags_fds u d by (metis fst_conv handle_link_up_def handle_link_down_def)+
  moreover have "bit (k_flags k) i \<Longrightarrow> i < 16" for i
    using bit_imp_le_length [of "k_flags k" i] by simp
  ultimately show ?thesis
    using set_link_flags_effect [OF u [unfolded handle_link_up_def]]
      set_link_flags_effect [OF d [unfolded handle_link_down_def]] u d
    by (auto simp: bit_or_iff bit_and_iff bit_not_iff bit_IFF_UP bit_simps)
qed

text \<open>C26. A client that has just been added stays in the table, whatever else arrives, as long
  as fewer than 32 other addresses show up.\<close>

theorem new_client_retained:
  assumes "clients_ok cs" "c \<notin> set cs" "card (set as - {c}) < MAX_CLIENTS"
  shows "c \<in> set (foldl update_clients (update_clients cs c) as)"
proof -
  have ok: "clients_ok (update_clients cs c)" using assms(1) by (rule update_clients_ok)
  obtain pre where u: "update_clients cs c = pre @ [c]"
    using assms(2) that
    by (cases "length cs < MAX_CLIENTS") (simp_all add: update_clients_def)
  show ?thesis unfolding u
    by (rule foldl_update_clients_retains [of pre c "[]" "set as - {c}"])
      (use ok u assms in \<open>auto simp: clients_ok_def\<close>)
qed

theorem new_client_retained_witness:
  "[3] \<in> set (foldl update_clients (update_clients [[1], [2]] [3]) [[4], [3], [5], [4]])"
  by (rule new_client_retained) (simp_all add: clients_ok_def MAX_CLIENTS_def card_insert_if)

text \<open>A control datagram without its payload is obeyed with whatever bytes the buffer
  still holds from the packet before: the two bytes 0x01 0x04 set the hardware address of
  the interface to bytes 2 to 7 of that packet.\<close>

theorem short_control_uses_stale_bytes:
  assumes "bridge_wf b" "k_ok (kern b) K_Socket"
  shows "\<exists>b'. poll_step ntop6 (Poll_Ready None (Some (UR_Data a [0x01, TAP_CTRL_SET_MAC])) w) b =
      Some (b', Continue) \<and>
    k_log (kern b') = k_log (kern b) @
      [K_Socket, K_SIOCSIFHWADDR (ifname b) (take 6 (drop 2 (buf b)))]"
proof -
  have len: "length (buf b) = 2048" using assms(1) by (simp add: bridge_wf_def)
  have w1: "mem_write (buf b) 0 [1, 4] = Some (1 # 4 # drop 2 (buf b))"
    using len by (simp add: mem_write_def numeral_2_eq_2)
  have r: "mem_read (1 # 4 # drop 2 (buf b)) 0 1 = Some [1]"
      "mem_read (1 # 4 # drop 2 (buf b)) 1 1 = Some [4]"
      "mem_read (drop 2 (buf b)) 0 6 = Some (take 6 (drop 2 (buf b)))"
    using len by (simp_all add: mem_read_def)
  show ?thesis
    using w1 r assms(2)
    by (auto simp: poll_step_def udp_to_tap_def handle_control_def wire_simps handle_set_mac_def
        get_iface_socket_def k_do_def k_close_def Let_def)
qed

theorem short_control_uses_stale_bytes_witness:
  "\<exists>b'. poll_step (\<lambda>_. []) (Poll_Ready None (Some (UR_Data [9] [0x01, TAP_CTRL_SET_MAC]))
      (TW_Written 0)) (bridge0\<lparr>buf := replicate 2048 7\<rparr>) = Some (b', Continue) \<and>
    k_log (kern b') = [K_Socket, K_SIOCSIFHWADDR (str ''tap0'') [7, 7, 7, 7, 7, 7]]"
  using short_control_uses_stale_bytes [of "bridge0\<lparr>buf := replicate 2048 7\<rparr>" "\<lambda>_. []" "[9]"
      "TW_Written 0"]
  by (auto simp: bridge0_def kernel0_def bridge_wf_def clients_ok_def numeral_eq_Suc)

text \<open>Start-up and shutdown: a run of the program that reaches the loop and leaves it
  returns 0 with as many descriptors open as before it started.\<close>

theorem main_run_closes:
  assumes "length garbage = 2048"
    "main_run ntop6 argv garbage es k = Some (Some b', k', Some r)"
  shows "r = 0 \<and> k_fds k' = k_fds k \<and> bridge_wf b'"
proof -
  obtain b where start: "main_start argv garbage k = Inr b"
    and loop: "bridge_loop ntop6 es b = Some (b', Break_Loop)"
    and k': "k' = k_close (k_close (kern b'))" and r: "r = 0"
    using assms(2) by (auto simp: main_run_def split: sum.splits option.splits loop_status.splits)
  have "bridge_wf b \<and> k_fds (kern b) = k_fds k + 2"
    using start assms(1)
    by (auto simp: main_start_def tap_alloc_def k_do_def k_close_def Let_def bridge_wf_def
        clients_ok_def split: if_splits)
  then show ?thesis using bridge_loop_invariant_aux [OF _ loop] k' r by (simp add: k_close_def)
qed

theorem main_run_closes_witness:
  "\<exists>b' k'. main_run (\<lambda>_. []) [str ''linux_tap'', str ''tap0'', str ''4242''] (replicate 2048 0)
      [Poll_Error False] kernel0 = Some (Some b', k', Some 0) \<and> k_fds k' = 2"
proof -
  have "\<exists>b' k'. main_run (\<lambda>_. []) [str ''linux_tap'', str ''tap0'', str ''4242''] (replicate 2048 0)
      [Poll_Error False] kernel0 = Some (Some b', k', Some 0)"
    by (simp add: main_run_def main_start_def tap_alloc_def k_do_def kernel0_def poll_step_def
        bridge0_def Let_def)
  then obtain b' k' where r: "main_run (\<lambda>_. []) [str ''linux_tap'', str ''tap0'', str ''4242'']
      (replicate 2048 0) [Poll_Error False] kernel0 = Some (Some b', k', Some 0)" by blast
  have "k_fds k' = k_fds kernel0" using main_run_closes [OF _ r] by simp
  then show ?thesis using r by (auto simp: kernel0_def)
qed

end
