(* ===== verification/Bridge_Link.thy ===== *)
theory Bridge_Link
  imports Linux_Tap
begin

text \<open>
  The control channel between the injected client (src/tap_client_udp.c) and the bridge
  (src/linux_tap.c).  The contract of such a channel is the locale \<open>command_link\<close>: what is sent
  stands on the wire in order, and a delivered command changes the far side by its effect.
  The client's calls and the bridge's poll loop are its instance.
\<close>

section \<open>The contract\<close>

locale command_link =
  fixes send :: "'c \<Rightarrow> 'n \<Rightarrow> 'n option"
    and sent :: "'n \<Rightarrow> 'd list"
    and encode :: "'c \<Rightarrow> 'd"
    and deliver :: "'d \<Rightarrow> 'b \<Rightarrow> 'b option"
    and far_ok :: "'b \<Rightarrow> bool"
    and view :: "'b \<Rightarrow> 'v"
    and effect :: "'c \<Rightarrow> 'v \<Rightarrow> 'v"
    and valid :: "'c \<Rightarrow> bool"
  assumes send_law: "valid c \<Longrightarrow> \<exists>n'. send c n = Some n' \<and> sent n' = sent n @ [encode c]"
    and deliver_law: "valid c \<Longrightarrow> far_ok b \<Longrightarrow>
      \<exists>b'. deliver (encode c) b = Some b' \<and> far_ok b' \<and> view b' = effect c (view b)"
begin

primrec send_all :: "'c list \<Rightarrow> 'n \<Rightarrow> 'n option" where
  "send_all [] n = Some n"
| "send_all (c # cs) n = Option.bind (send c n) (send_all cs)"

primrec deliver_all :: "'d list \<Rightarrow> 'b \<Rightarrow> 'b option" where
  "deliver_all [] b = Some b"
| "deliver_all (d # ds) b = Option.bind (deliver d b) (deliver_all ds)"

lemma send_all_sent:
  "\<forall>c\<in>set cs. valid c \<Longrightarrow> \<exists>n'. send_all cs n = Some n' \<and> sent n' = sent n @ map encode cs"
proof (induction cs arbitrary: n)
  case (Cons c cs)
  obtain n1 where n1: "send c n = Some n1" "sent n1 = sent n @ [encode c]"
    using send_law [of c n] Cons.prems by auto
  then show ?case using Cons.IH [of n1] Cons.prems by auto
qed simp

lemma deliver_all_view:
  "\<forall>c\<in>set cs. valid c \<Longrightarrow> far_ok b \<Longrightarrow>
   \<exists>b'. deliver_all (map encode cs) b = Some b' \<and> far_ok b' \<and> view b' = fold effect cs (view b)"
proof (induction cs arbitrary: b)
  case (Cons c cs)
  obtain b1 where b1: "deliver (encode c) b = Some b1" "far_ok b1" "view b1 = effect c (view b)"
    using deliver_law [of c b] Cons.prems by auto
  then show ?case using Cons.IH [of b1] Cons.prems by auto
qed simp

text \<open>What was sent, delivered in order, has the effects of the commands in order.\<close>

lemma in_order:
  assumes "\<forall>c\<in>set cs. valid c" "far_ok b"
  shows "\<exists>n' b'. send_all cs n = Some n' \<and>
    deliver_all (drop (length (sent n)) (sent n')) b = Some b' \<and> far_ok b' \<and>
    view b' = fold effect cs (view b)"
  using send_all_sent [OF assms(1), of n] deliver_all_view [OF assms] by auto

end

section \<open>The commands of the program\<close>

datatype tap_command =
    Cmd_IPv4 bytes u8          \<comment> \<open>address, prefix length\<close>
  | Cmd_Gateway bytes
  | Cmd_IPv6 bytes u8
  | Cmd_MAC bytes
  | Cmd_Link_Up
  | Cmd_Link_Down

fun command_ok :: "tap_command \<Rightarrow> bool" where
  "command_ok (Cmd_IPv4 ip p) = (length ip = 4 \<and> p \<le> 32)"
| "command_ok (Cmd_Gateway ip) = (length ip = 4)"
| "command_ok (Cmd_IPv6 ip p) = (length ip = 16)"
| "command_ok (Cmd_MAC m) = (length m = 6)"
| "command_ok _ = True"

text \<open>The client function of each command, with cooperating heap and socket.\<close>

fun issue :: "tap_client \<Rightarrow> tap_command \<Rightarrow> net \<Rightarrow> net option" where
  "issue c (Cmd_IPv4 ip p) n = map_option fst (TapClientSetIPv4 c True Sent ip p n)"
| "issue c (Cmd_Gateway ip) n = map_option fst (TapClientSetIPv4Gateway c True Sent ip n)"
| "issue c (Cmd_IPv6 ip p) n = map_option fst (TapClientSetIPv6 c True Sent ip p n)"
| "issue c (Cmd_MAC m) n = map_option fst (TapClientSetMAC c True Sent m n)"
| "issue c Cmd_Link_Up n = Some (fst (TapClientSetLinkUp c True Sent n))"
| "issue c Cmd_Link_Down n = Some (fst (TapClientSetLinkDown c True Sent n))"

fun command_bytes :: "tap_command \<Rightarrow> bytes" where
  "command_bytes (Cmd_IPv4 ip p) = 0x01 # TAP_CTRL_SET_IPV4 # ip @ [p]"
| "command_bytes (Cmd_Gateway ip) = 0x01 # TAP_CTRL_SET_IPV4_GW # ip"
| "command_bytes (Cmd_IPv6 ip p) = 0x01 # TAP_CTRL_SET_IPV6 # ip @ [p]"
| "command_bytes (Cmd_MAC m) = 0x01 # TAP_CTRL_SET_MAC # m"
| "command_bytes Cmd_Link_Up = [0x01, TAP_CTRL_LINK_UP]"
| "command_bytes Cmd_Link_Down = [0x01, TAP_CTRL_LINK_DOWN]"

text \<open>The intended effect on the kernel: the operations it is asked for, and the link flags.\<close>

fun obey :: "(bytes \<Rightarrow> bytes) \<Rightarrow> bytes \<Rightarrow> tap_command \<Rightarrow> kop list \<times> u16 \<Rightarrow> kop list \<times> u16" where
  "obey ntop6 ifn (Cmd_IPv4 ip p) (ops, fl) =
     (ops @ [K_Socket, K_SIOCSIFADDR ifn ip, K_SIOCSIFNETMASK ifn (be32 (the (prefix_mask p)))], fl)"
| "obey ntop6 ifn (Cmd_Gateway ip) (ops, fl) =
     (ops @ [K_System (take 255 (str ''ip route replace default via '' @ inet_ntoa ip @
        str '' dev '' @ ifn @ str '' 2>/dev/null''))], fl)"
| "obey ntop6 ifn (Cmd_IPv6 ip p) (ops, fl) =
     (ops @ [K_System (take 255 (str ''ip -6 addr replace '' @ ntop6 ip @ str ''/'' @
        dec (unat p) @ str '' dev '' @ ifn @ str '' 2>/dev/null''))], fl)"
| "obey ntop6 ifn (Cmd_MAC m) (ops, fl) = (ops @ [K_Socket, K_SIOCSIFHWADDR ifn m], fl)"
| "obey ntop6 ifn Cmd_Link_Up (ops, fl) =
     (ops @ [K_Socket, K_SIOCGIFFLAGS ifn, K_SIOCSIFFLAGS ifn (fl OR IFF_UP)], fl OR IFF_UP)"
| "obey ntop6 ifn Cmd_Link_Down (ops, fl) =
     (ops @ [K_Socket, K_SIOCGIFFLAGS ifn, K_SIOCSIFFLAGS ifn (fl AND NOT IFF_UP)], fl AND NOT IFF_UP)"

definition kernel_view :: "bridge \<Rightarrow> kop list \<times> u16" where
  "kernel_view b = (k_log (kern b), k_flags (kern b))"

definition willing :: "bytes \<Rightarrow> bridge \<Rightarrow> bool" where
  \<comment> \<open>a bridge on interface \<open>ifn\<close> whose kernel grants everything\<close>
  "willing ifn b \<longleftrightarrow> bridge_wf b \<and> ifname b = ifn \<and> k_ok (kern b) = (\<lambda>_. True)"

definition bridge_gets :: "(bytes \<Rightarrow> bytes) \<Rightarrow> sockaddr \<Rightarrow> bytes \<Rightarrow> bridge \<Rightarrow> bridge option" where
  "bridge_gets ntop6 a d b =
     (case poll_step ntop6 (Poll_Ready None (Some (UR_Data a d)) (TW_Written 0)) b of
        Some (b', Continue) \<Rightarrow> Some b' | _ \<Rightarrow> None)"

section \<open>The instance\<close>

lemma issue_wire:
  assumes "command_ok cmd"
  shows "\<exists>n'. issue c cmd n = Some n' \<and>
    wire n' = wire n @ [(g_bridge_ip c, g_bridge_port c, command_bytes cmd)] \<and>
    open_sockets n' = open_sockets n"
  using assms
  by (cases cmd) (auto simp: TapClientSetIPv4_def TapClientSetIPv4Gateway_def TapClientSetIPv6_def
      TapClientSetMAC_def TapClientSetLinkUp_def TapClientSetLinkDown_def wire_simps mem_read_def)

text \<open>A control datagram in the buffer of the bridge.\<close>

lemma control_step:
  assumes "bridge_wf b" "length pl \<le> 2046"
  shows "poll_step ntop6 (Poll_Ready None (Some (UR_Data a (0x01 # cmd # pl))) w) b =
    map_option (\<lambda>b'. (b', Continue))
      (handle_control ntop6 (2 + length pl)
        (b\<lparr>buf := 0x01 # cmd # pl @ drop (2 + length pl) (buf b), clients := update_clients (clients b) a\<rparr>))"
proof -
  have len: "length (buf b) = 2048" using assms(1) by (simp add: bridge_wf_def)
  have w: "mem_write (buf b) 0 (1 # cmd # pl) = Some (1 # cmd # pl @ drop (2 + length pl) (buf b))"
    using len assms(2) by (simp add: mem_write_def)
  have r: "mem_read (1 # cmd # pl @ drop (2 + length pl) (buf b)) 0 1 = Some [1]"
    by (simp add: mem_read_def)
  have t: "take 2048 (1 # cmd # pl) = 1 # cmd # pl" using assms(2) by simp
  show ?thesis
    unfolding poll_step_def udp_to_tap_def poll_event.case option.case udp_recv.case t Let_def
    using w r by (auto simp: map_option_case split: option.split)
qed

lemma command_bytes_shape:
  "\<exists>op pl. command_bytes cmd = 0x01 # op # pl \<and> (command_ok cmd \<longrightarrow> length pl \<le> 17)"
  by (cases cmd) auto

lemma handle_control_obeys:
  assumes "command_ok cmd" "command_bytes cmd = 0x01 # op # pl" "buf b = 0x01 # op # pl @ rest"
    "k_ok (kern b) = (\<lambda>_. True)"
  shows "\<exists>k'. handle_control ntop6 (2 + length pl) b = Some (b\<lparr>kern := k'\<rparr>) \<and>
    (k_log k', k_flags k') = obey ntop6 (ifname b) cmd (k_log (kern b), k_flags (kern b)) \<and>
    k_ok k' = (\<lambda>_. True) \<and> k_fds k' = k_fds (kern b)"
proof -
  have r: "mem_read (buf b) 1 1 = Some [op]" "drop 2 (buf b) = pl @ rest"
    using assms(3) by (simp_all add: mem_read_def)
  have mask: "p \<le> 32 \<Longrightarrow> \<exists>m. prefix_mask p = Some m" for p :: u8
    by (simp add: prefix_mask_defined word_le_nat_alt)
  show ?thesis
    using assms r
    by (cases cmd)
      (auto simp: handle_control_def tap_ctrl_defs mem_read_def handle_set_ipv4_def handle_set_ipv4_gw_def
        handle_set_ipv6_def handle_set_mac_def handle_link_up_def handle_link_down_def set_link_flags_def
        get_iface_socket_def k_do_def k_close_def Let_def dest!: mask)
qed

lemma bridge_gets_command:
  assumes ok: "command_ok cmd" and b: "willing ifn b"
  shows "\<exists>b'. bridge_gets ntop6 a (command_bytes cmd) b = Some b' \<and> willing ifn b' \<and>
    kernel_view b' = obey ntop6 ifn cmd (kernel_view b) \<and>
    k_fds (kern b') = k_fds (kern b) \<and> out_udp b' = out_udp b \<and> out_tap b' = out_tap b \<and>
    clients b' = update_clients (clients b) a"
proof -
  obtain op pl where c: "command_bytes cmd = 0x01 # op # pl" "length pl \<le> 17"
    using command_bytes_shape [of cmd] ok by blast
  have wf: "bridge_wf b" "length (buf b) = 2048" "clients_ok (clients b)"
    using b by (simp_all add: willing_def bridge_wf_def)
  let ?b1 = "b\<lparr>buf := 0x01 # op # pl @ drop (2 + length pl) (buf b), clients := update_clients (clients b) a\<rparr>"
  have f: "k_ok (kern ?b1) = (\<lambda>_. True)" "ifname ?b1 = ifn" using b by (simp_all add: willing_def)
  obtain k' where k: "handle_control ntop6 (2 + length pl) ?b1 = Some (?b1\<lparr>kern := k'\<rparr>)"
    "(k_log k', k_flags k') = obey ntop6 ifn cmd (kernel_view b)"
    "k_ok k' = (\<lambda>_. True)" "k_fds k' = k_fds (kern b)"
    using handle_control_obeys [OF ok c(1), of ?b1 "drop (2 + length pl) (buf b)" ntop6] f
    by (auto simp: kernel_view_def)
  have "willing ifn (?b1\<lparr>kern := k'\<rparr>)"
    using wf c(2) k(3) b update_clients_ok [OF wf(3), of a] by (simp add: willing_def bridge_wf_def)
  moreover have "bridge_gets ntop6 a (command_bytes cmd) b = Some (?b1\<lparr>kern := k'\<rparr>)"
    using control_step [OF wf(1), of pl ntop6 a op "TW_Written 0"] c k(1) by (simp add: bridge_gets_def)
  ultimately show ?thesis using k by (intro exI [of _ "?b1\<lparr>kern := k'\<rparr>"]) (simp add: kernel_view_def)
qed

definition payloads :: "net \<Rightarrow> bytes list" where
  "payloads n = map (snd \<circ> snd) (wire n)"

interpretation control: command_link
  "issue c" payloads command_bytes "bridge_gets ntop6 a" "willing ifn" kernel_view "obey ntop6 ifn"
  command_ok for c ntop6 a ifn
proof
  show "command_ok cmd \<Longrightarrow> \<exists>n'. issue c cmd n = Some n' \<and> payloads n' = payloads n @ [command_bytes cmd]"
    for cmd n using issue_wire [of cmd c n] by (auto simp: payloads_def)
  show "command_ok cmd \<Longrightarrow> willing ifn b \<Longrightarrow> \<exists>b'. bridge_gets ntop6 a (command_bytes cmd) b = Some b' \<and>
      willing ifn b' \<and> kernel_view b' = obey ntop6 ifn cmd (kernel_view b)" for cmd b
    using bridge_gets_command [of cmd ifn b ntop6 a] by blast
qed

section \<open>Sequences of commands\<close>

primrec issue_all :: "tap_client \<Rightarrow> tap_command list \<Rightarrow> net \<Rightarrow> net option" where
  "issue_all c [] n = Some n"
| "issue_all c (cmd # cmds) n = Option.bind (issue c cmd n) (issue_all c cmds)"

definition udp_event :: "sockaddr \<Rightarrow> bytes \<Rightarrow> poll_event" where
  "udp_event a d = Poll_Ready None (Some (UR_Data a d)) (TW_Written 0)"

lemma issue_all_eq: "issue_all c cmds n = control.send_all c cmds n"
  by (induction cmds arbitrary: n) (simp_all cong: bind_option_cong)

lemma bridge_loop_delivers:
  "control.deliver_all ntop6 a ds b = Some b' \<Longrightarrow>
   bridge_loop ntop6 (map (udp_event a) ds) b = Some (b', Continue)"
proof (induction ds arbitrary: b)
  case (Cons d ds)
  obtain b1 where b1: "bridge_gets ntop6 a d b = Some b1" "control.deliver_all ntop6 a ds b1 = Some b'"
    using Cons.prems by (auto simp: bind_eq_Some)
  then have "poll_step ntop6 (udp_event a d) b = Some (b1, Continue)"
    by (simp add: bridge_gets_def udp_event_def split: option.splits prod.splits loop_status.splits)
  then show ?case using Cons.IH [OF b1(2)] by simp
qed simp

text \<open>C9. The control channel is an ordered channel of commands: whatever sequence of settings
  the client functions are called with, the datagrams they send, received by the bridge in
  order, make the kernel carry out exactly the operations of these settings in order, leave the
  link flags as the sequence says, and leak no descriptor.\<close>

theorem commands_reach_kernel:
  assumes "\<forall>cmd\<in>set cmds. command_ok cmd" "bridge_wf b" "k_ok (kern b) = (\<lambda>_. True)"
  shows "\<exists>n' b'. issue_all c cmds n = Some n' \<and>
    bridge_loop ntop6 (map (udp_event a \<circ> snd \<circ> snd) (drop (length (wire n)) (wire n'))) b =
      Some (b', Continue) \<and>
    (k_log (kern b'), k_flags (kern b')) =
      fold (obey ntop6 (ifname b)) cmds (k_log (kern b), k_flags (kern b)) \<and>
    k_fds (kern b') = k_fds (kern b)"
proof -
  have w: "willing (ifname b) b" using assms(2,3) by (simp add: willing_def)
  obtain n' b' where n': "control.send_all c cmds n = Some n'"
    "control.deliver_all ntop6 a (drop (length (payloads n)) (payloads n')) b = Some b'"
    "kernel_view b' = fold (obey ntop6 (ifname b)) cmds (kernel_view b)"
    using control.in_order [OF assms(1) w] by blast
  have ds: "drop (length (payloads n)) (payloads n') = map (snd \<circ> snd) (drop (length (wire n)) (wire n'))"
    by (simp add: payloads_def drop_map)
  have loop: "bridge_loop ntop6 (map (udp_event a \<circ> snd \<circ> snd) (drop (length (wire n)) (wire n'))) b =
      Some (b', Continue)"
    using bridge_loop_delivers [OF n'(2)] unfolding ds by (simp add: comp_assoc)
  have "k_fds (kern b') = k_fds (kern b)" using bridge_loop_invariant_aux [OF assms(2) loop] by blast
  then show ?thesis using n'(1,3) loop by (simp add: issue_all_eq kernel_view_def)
qed

theorem commands_reach_kernel_witness:
  "\<exists>n' b'. issue_all tap_client_initial [Cmd_MAC [2, 0x50, 1, 2, 3, 4], Cmd_Link_Up]
      \<lparr>wire = [], open_sockets = 0\<rparr> = Some n' \<and>
    bridge_loop (\<lambda>_. []) (map (udp_event [9] \<circ> snd \<circ> snd) (wire n')) bridge0 = Some (b', Continue) \<and>
    k_log (kern b') = [K_Socket, K_SIOCSIFHWADDR (str ''tap0'') [2, 0x50, 1, 2, 3, 4],
      K_Socket, K_SIOCGIFFLAGS (str ''tap0''), K_SIOCSIFFLAGS (str ''tap0'') IFF_UP]"
proof -
  have "k_ok (kern bridge0) = (\<lambda>_. True)" by (simp add: bridge0_def kernel0_def)
  from commands_reach_kernel [OF _ bridge0_wf this, of "[Cmd_MAC [2, 0x50, 1, 2, 3, 4], Cmd_Link_Up]"
      tap_client_initial "\<lparr>wire = [], open_sockets = 0\<rparr>" "\<lambda>_. []" "[9]"]
  show ?thesis by (auto simp: bridge0_def kernel0_def)
qed

end
