(* ===== verification/Fake_Identity.thy ===== *)
theory Fake_Identity
  imports C_Strings Tap_Protocol
begin

text \<open>
  The identity of the fake adapter (src/emulate_driver_running.c): its MAC address and
  setting GUID, chosen once by \<open>InitFakeMac\<close> and announced to the bridge.  \<open>rand()\<close> is a
  list of the numbers it returns, \<open>CoCreateGuid\<close> an optional 16-byte GUID (None when it
  fails), and \<open>StringFromGUID2\<close> a function argument.
\<close>

record identity =
  fake_mac :: bytes
  fake_mac_initialized :: bool
  fake_settingID :: wstr
  fake_settingID_initialized :: bool

definition identity_initial :: identity where
  "identity_initial =
     \<lparr>fake_mac = [0x02, 0x00, 0x00, 0x00, 0x00, 0x01], fake_mac_initialized = False,
      fake_settingID = str ''{00000000-0000-0000-0000-000000000000}'',
      fake_settingID_initialized = False\<rparr>"

definition GetFakeMacAddress :: "identity \<Rightarrow> bytes \<times> bool" where
  "GetFakeMacAddress i = (fake_mac i, True)"

text \<open>Version 4 in the top of byte 7 and variant 10 in the top of byte 8.\<close>

definition force_guid_v4 :: "bytes \<Rightarrow> bytes" where
  "force_guid_v4 p = p[7 := (p ! 7 AND 0x0F) OR 0x40, 8 := (p ! 8 AND 0x3F) OR 0x80]"

definition rand_byte :: "nat list \<Rightarrow> nat \<Rightarrow> u8" where
  "rand_byte rs i = of_nat (rs ! i mod 256)"

definition random_mac :: "nat list \<Rightarrow> bytes" where
  "random_mac rs = [0x02, 0x50, rand_byte rs 0, rand_byte rs 1, rand_byte rs 2, rand_byte rs 3]"

definition random_guid :: "bytes option \<Rightarrow> nat list \<Rightarrow> bytes" where
  "random_guid g rs =
     (case g of Some p \<Rightarrow> force_guid_v4 p
      | None \<Rightarrow> force_guid_v4 (map (\<lambda>i. rand_byte rs (4 + i)) [0..<16]))"

definition InitFakeMac ::
    "(bytes \<Rightarrow> wstr) \<Rightarrow> nat list \<Rightarrow> bytes option \<Rightarrow> tap_client \<Rightarrow> bool \<Rightarrow> udp_answer \<Rightarrow>
     identity \<Rightarrow> net \<Rightarrow> (identity \<times> net) option" where
  "InitFakeMac string_from_guid rs g c heap_ok a i n =
     (if fake_mac_initialized i then Some (i, n)
      else
        let m = random_mac rs;
            i' = i\<lparr>fake_mac := m, fake_mac_initialized := True,
                   fake_settingID := string_from_guid (random_guid g rs),
                   fake_settingID_initialized := True\<rparr>
        in do {
          (n', _) \<leftarrow> TapClientSetMAC c heap_ok a m n;
          Some (i', n') })"

section \<open>Properties\<close>

lemma length_random_mac [simp]: "length (random_mac rs) = 6"
  by (simp add: random_mac_def)

lemma InitFakeMac_first:
  "\<not> fake_mac_initialized i \<Longrightarrow> InitFakeMac sg rs g c h a i n =
     Some (i\<lparr>fake_mac := random_mac rs, fake_mac_initialized := True,
             fake_settingID := sg (random_guid g rs), fake_settingID_initialized := True\<rparr>,
           fst (send_control c h a TAP_CTRL_SET_MAC (random_mac rs) n))"
  by (simp add: InitFakeMac_def TapClientSetMAC_def mem_read_def Let_def split: prod.splits)

text \<open>The first initialisation chooses a locally administered unicast MAC address and,
  when heap and socket cooperate, announces exactly this address to the bridge; every later
  initialisation changes nothing and sends nothing.\<close>

theorem InitFakeMac_spec:
  assumes "\<not> fake_mac_initialized i"
  shows "\<exists>i' n'. InitFakeMac sg rs g c h a i n = Some (i', n') \<and>
    length (fake_mac i') = 6 \<and> bit (fake_mac i' ! 0) 1 \<and> \<not> bit (fake_mac i' ! 0) 0 \<and>
    wire n' = wire n @ (if h \<and> a = Sent
       then [(g_bridge_ip c, g_bridge_port c, 0x01 # TAP_CTRL_SET_MAC # fake_mac i')] else []) \<and>
    InitFakeMac sg' rs' g' c' h' a' i' n' = Some (i', n')"
proof -
  have "bit (2 :: u8) 1" "\<not> bit (2 :: u8) 0" by (simp_all add: bit_iff_odd)
  then show ?thesis
    using assms
    by (simp add: InitFakeMac_first send_control_eq random_mac_def)
      (simp add: InitFakeMac_def)
qed

theorem InitFakeMac_spec_witness:
  "\<exists>i' n'. InitFakeMac (\<lambda>_. []) [1, 2, 3, 4] (Some (replicate 16 0)) tap_client_initial True Sent
      identity_initial \<lparr>wire = [], open_sockets = 0\<rparr> = Some (i', n') \<and>
    wire n' = [([], 0, 0x01 # TAP_CTRL_SET_MAC # fake_mac i')]"
  using InitFakeMac_spec [of identity_initial "\<lambda>_. []" "[1, 2, 3, 4]" "Some (replicate 16 0)"
      tap_client_initial True Sent "\<lparr>wire = [], open_sockets = 0\<rparr>" "\<lambda>_. []" "[]" None
      tap_client_initial True Sent]
  by (auto simp: identity_initial_def tap_client_initial_def)

text \<open>The setting GUID always has version 4 and the RFC 4122 variant, whether the GUID
  comes from the system or from \<open>rand\<close>, and all its other bits are those of the source.\<close>

theorem random_guid_version:
  assumes "\<And>p. g = Some p \<Longrightarrow> length p = 16"
  shows "let q = random_guid g rs in length q = 16 \<and>
    drop_bit 4 (q ! 7) = 4 \<and> drop_bit 6 (q ! 8) = 2 \<and>
    (\<forall>p. g = Some p \<longrightarrow> (\<forall>i<16. i \<noteq> 7 \<and> i \<noteq> 8 \<longrightarrow> q ! i = p ! i))"
proof -
  have v: "drop_bit 4 ((x AND 0x0F) OR 0x40) = 4" for x :: u8
  proof (rule bit_word_eqI)
    fix n assume "n < LENGTH(8)"
    then have "n \<in> {0, 1, 2, 3, 4, 5, 6, 7}" by auto
    then show "bit (drop_bit 4 ((x AND 0x0F) OR 0x40)) n \<longleftrightarrow> bit (4 :: u8) n"
      by (auto simp: bit_simps bit_iff_odd [of 15] bit_iff_odd [of 64] bit_iff_odd [of 4])
  qed
  have w: "drop_bit 6 ((x AND 0x3F) OR 0x80) = 2" for x :: u8
  proof (rule bit_word_eqI)
    fix n assume "n < LENGTH(8)"
    then have "n \<in> {0, 1, 2, 3, 4, 5, 6, 7}" by auto
    then show "bit (drop_bit 6 ((x AND 0x3F) OR 0x80)) n \<longleftrightarrow> bit (2 :: u8) n"
      by (auto simp: bit_simps bit_iff_odd [of 63] bit_iff_odd [of 128] bit_iff_odd [of 2])
  qed
  have f: "length p = 16 \<Longrightarrow> length (force_guid_v4 p) = 16 \<and>
      drop_bit 4 (force_guid_v4 p ! 7) = 4 \<and> drop_bit 6 (force_guid_v4 p ! 8) = 2 \<and>
      (\<forall>i<16. i \<noteq> 7 \<and> i \<noteq> 8 \<longrightarrow> force_guid_v4 p ! i = p ! i)" for p
    by (simp add: force_guid_v4_def v w)
  show ?thesis
  proof (cases g)
    case None
    then show ?thesis
      using f [of "map (\<lambda>i. rand_byte rs (4 + i)) [0..<16]"]
      by (simp add: random_guid_def Let_def)
  next
    case (Some q)
    then show ?thesis using assms [OF Some] f [of q]
      by (simp add: random_guid_def Let_def)
  qed
qed

theorem random_guid_version_witness:
  "drop_bit 4 (random_guid (Some (replicate 16 0xFF)) [] ! 7) = 4"
  using random_guid_version [of "Some (replicate 16 0xFF)" "[]"]
  by (simp add: Let_def)

end
