(* ===== verification/Logging.thy ===== *)
theory Logging
  imports C_Strings
begin

text \<open>
  The log of src/log.c: a switch, a file and a console that receive the same text, and hex
  dumps built in a 512-byte buffer.  The formatted message and the time stamp are
  arguments; the two outputs are the bytes written so far, None when the file could not be
  opened or the console could not be created.
\<close>

record logger =
  g_LoggingEnabled :: bool
  g_LogFile :: "bytes option"
  g_Console :: "bytes option"

definition log_write :: "bytes \<Rightarrow> logger \<Rightarrow> logger" where
  "log_write t l = l\<lparr>g_LogFile := map_option (\<lambda>f. f @ t) (g_LogFile l),
                    g_Console := map_option (\<lambda>c. c @ t) (g_Console l)\<rparr>"

text \<open>\<open>sprintf_s(ts, 64, "[%02d:%02d:%02d.%03d] ", ...)\<close> is 15 characters long.\<close>

definition dec_pad :: "nat \<Rightarrow> nat \<Rightarrow> bytes" where
  "dec_pad w n = (let d = dec n in replicate (w - length d) 48 @ d)"

record systime =
  wHour :: nat
  wMinute :: nat
  wSecond :: nat
  wMilliseconds :: nat

definition time_text :: "systime \<Rightarrow> bytes" where
  "time_text st = dec_pad 2 (wHour st) @ str '':'' @ dec_pad 2 (wMinute st) @ str '':'' @
     dec_pad 2 (wSecond st) @ str ''.'' @ dec_pad 3 (wMilliseconds st)"

definition LogTimestamp :: "systime \<Rightarrow> logger \<Rightarrow> logger" where
  "LogTimestamp st l =
     (if \<not> g_LoggingEnabled l then l
      else log_write (str ''['' @ time_text st @ str ''] '') l)"

text \<open>\<open>vsnprintf\<close> into 1024 bytes keeps 1023 characters.\<close>

definition newline :: bytes where "newline = [10]"

definition LogMsg :: "systime \<Rightarrow> bytes \<Rightarrow> logger \<Rightarrow> logger" where
  "LogMsg st msg l =
     (if \<not> g_LoggingEnabled l then l
      else log_write (take 1023 msg @ newline) (LogTimestamp st l))"

definition DisableLog :: "systime \<Rightarrow> logger \<Rightarrow> logger" where
  "DisableLog st l =
     (if g_LoggingEnabled l
      then log_write (newline @ str ''=== Logging DISABLED at '' @ time_text st @ str '' ==='' @ newline)
             (l\<lparr>g_LoggingEnabled := False\<rparr>)
      else l)"

definition EnableLog :: "systime \<Rightarrow> logger \<Rightarrow> logger" where
  "EnableLog st l =
     log_write (newline @ str ''=== Logging ENABLED at '' @ time_text st @ str '' ==='' @ newline)
       (l\<lparr>g_LoggingEnabled := True\<rparr>)"

section \<open>Hex dumps\<close>

definition hex_digit :: "nat \<Rightarrow> u8" where
  "hex_digit n = of_nat (if n < 10 then 48 + n else 55 + n)"

definition hex2 :: "u8 \<Rightarrow> bytes" where
  "hex2 b = [hex_digit (unat b div 16), hex_digit (unat b mod 16), 32]"

text \<open>
  The loop \<open>for (i = 0; i < len && pos < sizeof(hex) - 4; i++)\<close>.  Each \<open>sprintf_s\<close> needs
  four bytes of the buffer (two digits, a blank and the terminator); without them it calls
  the invalid parameter handler, which is None here, as is a read outside the data.
\<close>

fun hex_loop :: "nat \<Rightarrow> nat \<Rightarrow> bytes \<Rightarrow> bytes option" where
  "hex_loop 0 pos dat = Some []"
| "hex_loop (Suc n) pos dat =
     (if pos < 508 then
        (case dat of
           [] \<Rightarrow> None
         | b # bs \<Rightarrow>
             if pos + 4 \<le> 512
             then map_option (\<lambda>t. hex2 b @ t) (hex_loop n (pos + 3) bs)
             else None)
      else Some [])"

text \<open>\<open>dat\<close> is None for a null pointer.\<close>

definition LogHex ::
    "systime \<Rightarrow> bytes option \<Rightarrow> u32 \<Rightarrow> bytes \<Rightarrow> logger \<Rightarrow> logger option" where
  "LogHex st dat len pfx l =
     (if \<not> g_LoggingEnabled l then Some l
      else case dat of
        None \<Rightarrow> Some l
      | Some d \<Rightarrow>
          if len = 0 then Some l
          else do {
            hex \<leftarrow> hex_loop (unat len) 0 d;
            Some (LogMsg st (pfx @ str '' ('' @ dec (unat len) @ str '' bytes): '' @ hex) l) })"

definition LogMsgAndHex ::
    "systime \<Rightarrow> bytes \<Rightarrow> bytes option \<Rightarrow> u32 \<Rightarrow> bytes \<Rightarrow> logger \<Rightarrow> logger option" where
  "LogMsgAndHex st msg dat len pfx l =
     (if \<not> g_LoggingEnabled l then Some l
      else
        let l1 = log_write (take 1023 msg @ newline) (LogTimestamp st l) in
        case dat of
          None \<Rightarrow> Some l1
        | Some d \<Rightarrow>
            if len = 0 then Some l1
            else do {
              hex \<leftarrow> hex_loop (unat len) 0 d;
              Some (log_write (pfx @ str '' ('' @ dec (unat len) @ str '' bytes): '' @ hex @ newline)
                     (LogTimestamp st l1)) })"

section \<open>Bounds of the hex buffer\<close>

definition hex_limit :: nat where "hex_limit = 170"

lemma length_hex2 [simp]: "length (hex2 b) = 3"
  by (simp add: hex2_def)

lemma hex_loop_eq:
  "pos = 3 * i \<Longrightarrow> i \<le> hex_limit \<Longrightarrow>
   hex_loop n pos dat =
     (if min n (hex_limit - i) \<le> length dat
      then Some (concat (map hex2 (take (min n (hex_limit - i)) dat))) else None)"
proof (induction n arbitrary: i pos dat)
  case 0
  then show ?case by simp
next
  case (Suc n)
  show ?case
  proof (cases "i < hex_limit")
    case False
    then have "i = 170" "pos = 510" using Suc.prems by (simp_all add: hex_limit_def)
    then show ?thesis by (simp add: hex_limit_def)
  next
    case True
    then have pos: "pos < 508" "pos + 4 \<le> 512" using Suc.prems(1) by (auto simp: hex_limit_def)
    have ih: "hex_loop n (pos + 3) bs =
        (if min n (hex_limit - Suc i) \<le> length bs
         then Some (concat (map hex2 (take (min n (hex_limit - Suc i)) bs))) else None)" for bs
      by (rule Suc.IH) (use Suc.prems True in simp_all)
    obtain m where m: "hex_limit - i = Suc m" "hex_limit - Suc i = m"
      using True by (cases "hex_limit - i") auto
    show ?thesis using pos m ih by (cases dat) auto
  qed
qed

lemma length_concat_hex2: "length (concat (map hex2 xs)) = 3 * length xs"
  by (induction xs) auto

text \<open>A hex dump never overruns its 512-byte buffer and reads at most the first 170 bytes
  of its data, whatever the length it is given: the text is the digits of those bytes.\<close>

theorem hex_loop_bounds:
  assumes "min n hex_limit \<le> length dat"
  shows "\<exists>t. hex_loop n 0 dat = Some t \<and> t = concat (map hex2 (take (min n hex_limit) dat)) \<and>
    length t + 1 \<le> 512"
proof -
  have "hex_loop n 0 dat = Some (concat (map hex2 (take (min n hex_limit) dat)))"
    using assms by (subst hex_loop_eq [of 0 0]) simp_all
  then show ?thesis using assms by (auto simp: length_concat_hex2 hex_limit_def)
qed

theorem hex_loop_bounds_witness: "hex_loop 2 0 [0xAB, 7] = Some [65, 66, 32, 48, 55, 32]"
proof -
  have "hex_loop 2 0 [0xAB, 7] = Some (concat (map hex2 (take (min 2 hex_limit) [0xAB, 7])))"
    using hex_loop_bounds [of 2 "[0xAB, 7]"] by (simp add: hex_limit_def)
  also have "\<dots> = Some [65, 66, 32, 48, 55, 32]" by code_simp
  finally show ?thesis .
qed

lemma LogHex_disabled: "\<not> g_LoggingEnabled l \<Longrightarrow> LogHex st dat len pfx l = Some l"
  by (simp add: LogHex_def)

lemma LogHex_defined:
  "min (unat len) hex_limit \<le> length d \<Longrightarrow> LogHex st (Some d) len pfx l \<noteq> None"
  using hex_loop_eq [of 0 0 "unat len" d] by (auto simp: LogHex_def)

end
