(* ===== verification/Pending_Queue.thy ===== *)
theory Pending_Queue
  imports Prelude
begin

text \<open>
  The queue of overlapped reads of one device handle (src/inject.c): a singly linked list
  of PENDING_READ cells with a head and a tail pointer, kept in the process heap.  The heap
  is a partial map from addresses to cells and 0 is the null pointer, so that following a
  freed or foreign pointer is the value None.  The locale \<open>fifo_queue\<close> states what the hooks
  rely on; it is interpreted on the pointer code.
\<close>

section \<open>Cells and pointer operations\<close>

type_synonym addr = nat

record pending_read =
  ov :: u32            \<comment> \<open>address of the caller's OVERLAPPED\<close>
  buffer :: u32        \<comment> \<open>address of the caller's buffer\<close>
  buflen :: u32
  sock :: "nat option" \<comment> \<open>None for INVALID_SOCKET\<close>
  next_pr :: addr

type_synonym cells = "addr \<Rightarrow> pending_read option"

record pqueue =
  pending_head :: addr
  pending_tail :: addr

definition pq_empty :: pqueue where
  "pq_empty = \<lparr>pending_head = 0, pending_tail = 0\<rparr>"

text \<open>Append a cell whose next pointer is null.\<close>

definition pq_append :: "addr \<Rightarrow> cells \<Rightarrow> pqueue \<Rightarrow> (cells \<times> pqueue) option" where
  "pq_append req cs q =
     (if pending_tail q \<noteq> 0 then do {
        t \<leftarrow> cs (pending_tail q);
        Some (cs(pending_tail q \<mapsto> t\<lparr>next_pr := req\<rparr>), q\<lparr>pending_tail := req\<rparr>) }
      else Some (cs, q\<lparr>pending_head := req, pending_tail := req\<rparr>))"

text \<open>
  The search loop.  It need not end on a cyclic list, so it is a partial function: None
  when a pointer is dangling or the loop never returns.
\<close>

partial_function (option) pq_find ::
    "cells \<Rightarrow> u32 \<Rightarrow> addr \<Rightarrow> addr \<Rightarrow> (addr \<times> addr) option" where
  "pq_find cs lpov prev req =
     (if req = 0 then Some (prev, 0)
      else do {
        c \<leftarrow> cs req;
        if ov c = lpov then Some (prev, req) else pq_find cs lpov req (next_pr c) })"

text \<open>Unlink the cell \<open>req\<close> whose predecessor is \<open>prev\<close> (0 when it is the head).\<close>

definition pq_unlink :: "addr \<Rightarrow> addr \<Rightarrow> cells \<Rightarrow> pqueue \<Rightarrow> (cells \<times> pqueue) option" where
  "pq_unlink prev req cs q = do {
     r \<leftarrow> cs req;
     (cs1, q1) \<leftarrow> (if prev \<noteq> 0 then do {
                     p \<leftarrow> cs prev;
                     Some (cs(prev \<mapsto> p\<lparr>next_pr := next_pr r\<rparr>), q) }
                   else Some (cs, q\<lparr>pending_head := next_pr r\<rparr>));
     Some (cs1, if req = pending_tail q1 then q1\<lparr>pending_tail := prev\<rparr> else q1) }"

text \<open>The search and the removal, as one step: the address found, or 0.\<close>

definition pq_take :: "u32 \<Rightarrow> cells \<Rightarrow> pqueue \<Rightarrow> (addr \<times> cells \<times> pqueue) option" where
  "pq_take lpov cs q = do {
     (prev, req) \<leftarrow> pq_find cs lpov 0 (pending_head q);
     if req = 0 then Some (0, cs, q)
     else do {
       (cs1, q1) \<leftarrow> pq_unlink prev req cs q;
       Some (req, cs1, q1) } }"

text \<open>Re-insertion: the next pointer is cleared and the cell appended.\<close>

definition pq_requeue :: "addr \<Rightarrow> cells \<Rightarrow> pqueue \<Rightarrow> (cells \<times> pqueue) option" where
  "pq_requeue req cs q = do {
     r \<leftarrow> cs req;
     pq_append req (cs(req \<mapsto> r\<lparr>next_pr := 0\<rparr>)) q }"

section \<open>Well-formed queues\<close>

fun chain :: "cells \<Rightarrow> addr \<Rightarrow> addr list \<Rightarrow> addr \<Rightarrow> bool" where
  \<comment> \<open>from \<open>p\<close> along the cells \<open>as\<close> to the pointer \<open>z\<close>\<close>
  "chain cs p [] z = (p = z)"
| "chain cs p (a # as) z =
     (p = a \<and> a \<noteq> 0 \<and> (case cs a of None \<Rightarrow> False | Some c \<Rightarrow> chain cs (next_pr c) as z))"

definition pq_rep :: "cells \<Rightarrow> pqueue \<Rightarrow> addr list \<Rightarrow> bool" where
  "pq_rep cs q as \<longleftrightarrow> chain cs (pending_head q) as 0 \<and> distinct as \<and>
     pending_tail q = (if as = [] then 0 else last as)"

lemma chain_append:
  "chain cs p (as @ bs) z \<longleftrightarrow> (\<exists>m. chain cs p as m \<and> chain cs m bs z)"
  by (induction as arbitrary: p) (auto split: option.splits)

lemma chain_cells: "chain cs p as z \<Longrightarrow> a \<in> set as \<Longrightarrow> a \<noteq> 0 \<and> cs a \<noteq> None"
  by (induction as arbitrary: p) (auto split: option.splits)

lemma chain_cong:
  "(\<And>a. a \<in> set as \<Longrightarrow> map_option next_pr (cs a) = map_option next_pr (cs' a)) \<Longrightarrow>
   chain cs p as z = chain cs' p as z"
proof (induction as arbitrary: p)
  case (Cons a as)
  have a: "map_option next_pr (cs a) = map_option next_pr (cs' a)" using Cons.prems by simp
  have "chain cs m as z = chain cs' m as z" for m using Cons.prems by (intro Cons.IH) simp
  with a show ?case by (cases "cs a"; cases "cs' a") auto
qed simp

lemma chain_update [simp]:
  "a \<notin> set as \<Longrightarrow> chain (cs(a := x)) p as z = chain cs p as z"
  by (rule chain_cong) auto

lemma chain_last:
  assumes "chain cs p (as @ [a]) 0" "distinct (as @ [a])"
  shows "\<exists>c. cs a = Some c \<and> next_pr c = 0 \<and>
    chain (cs(a \<mapsto> c\<lparr>next_pr := z\<rparr>)) p (as @ [a]) z"
proof -
  obtain m where m: "chain cs p as m" "chain cs m [a] 0"
    using assms(1) chain_append [of cs p as "[a]" 0] by blast
  obtain c where c: "cs a = Some c" "next_pr c = 0" "m = a" "a \<noteq> 0"
    using m(2) by (auto split: option.splits)
  have "chain (cs(a \<mapsto> c\<lparr>next_pr := z\<rparr>)) p as a"
    using m(1) c(3) assms(2) by simp
  then show ?thesis using c chain_append [of "cs(a \<mapsto> c\<lparr>next_pr := z\<rparr>)" p as "[a]" z] by auto
qed

text \<open>What an operation on one queue leaves alone: other cells, and every field but \<open>next\<close>.\<close>

definition same_cells :: "addr set \<Rightarrow> cells \<Rightarrow> cells \<Rightarrow> bool" where
  "same_cells A cs cs' \<longleftrightarrow>
     (\<forall>x. x \<notin> A \<longrightarrow> cs' x = cs x) \<and>
     (\<forall>x. map_option (\<lambda>c. c\<lparr>next_pr := 0\<rparr>) (cs' x) = map_option (\<lambda>c. c\<lparr>next_pr := 0\<rparr>) (cs x))"

lemma same_cells_refl [simp]: "same_cells A cs cs"
  by (simp add: same_cells_def)

lemma same_cells_upd [intro]:
  "cs a = Some c \<Longrightarrow> a \<in> A \<Longrightarrow> same_cells A cs (cs(a \<mapsto> c\<lparr>next_pr := n\<rparr>))"
  by (auto simp: same_cells_def)

lemma same_cells_trans: "same_cells A cs cs' \<Longrightarrow> same_cells A cs' cs'' \<Longrightarrow> same_cells A cs cs''"
  by (simp add: same_cells_def)

lemma same_cells_mono: "same_cells A cs cs' \<Longrightarrow> A \<subseteq> B \<Longrightarrow> same_cells B cs cs'"
  by (auto simp: same_cells_def)

lemma same_cells_None: "same_cells A cs cs' \<Longrightarrow> cs' x = None \<longleftrightarrow> cs x = None"
  unfolding same_cells_def by (metis option.map_disc_iff)

lemma same_cells_ov:
  assumes "same_cells A cs cs'"
  shows "map_option ov (cs' x) = map_option ov (cs x)"
proof -
  have "map_option (ov \<circ> (\<lambda>c. c\<lparr>next_pr := 0\<rparr>)) (cs' x) =
      map_option (ov \<circ> (\<lambda>c. c\<lparr>next_pr := 0\<rparr>)) (cs x)"
    using assms unfolding same_cells_def by (metis option.map_comp)
  then show ?thesis by (simp add: comp_def)
qed

lemma same_cells_chain:
  "same_cells A cs cs' \<Longrightarrow> A \<inter> set as = {} \<Longrightarrow> chain cs' p as z = chain cs p as z"
  by (rule chain_cong) (auto simp: same_cells_def)

lemma same_cells_pq_rep:
  "same_cells A cs cs' \<Longrightarrow> A \<inter> set as = {} \<Longrightarrow> pq_rep cs' q as = pq_rep cs q as"
  by (simp add: pq_rep_def same_cells_chain)

section \<open>The operations on well-formed queues\<close>

lemma pq_append_rep:
  assumes "pq_rep cs q as" "cs a = Some c" "next_pr c = 0" "a \<noteq> 0" "a \<notin> set as"
  shows "\<exists>cs' q'. pq_append a cs q = Some (cs', q') \<and> pq_rep cs' q' (as @ [a]) \<and>
    same_cells (set as) cs cs'"
proof (cases as rule: rev_cases)
  case Nil
  then show ?thesis using assms by (auto simp: pq_rep_def pq_append_def)
next
  case (snoc bs b)
  then have ch: "chain cs (pending_head q) (bs @ [b]) 0" "distinct (bs @ [b])"
    and tl: "pending_tail q = b" using assms(1) by (auto simp: pq_rep_def)
  obtain d where d: "cs b = Some d" "next_pr d = 0"
      "chain (cs(b \<mapsto> d\<lparr>next_pr := a\<rparr>)) (pending_head q) (bs @ [b]) a"
    using chain_last [OF ch] by blast
  have b: "b \<noteq> 0" using chain_cells [OF ch(1)] by auto
  have ab: "a \<noteq> b" using assms(5) snoc by auto
  let ?cs = "cs(b \<mapsto> d\<lparr>next_pr := a\<rparr>)"
  have "chain ?cs (pending_head q) ((bs @ [b]) @ [a]) 0"
    by (rule chain_append [THEN iffD2]) (use d(3) assms(2-4) ab in auto)
  then have "pq_rep ?cs (q\<lparr>pending_tail := a\<rparr>) (as @ [a])"
    using ch(2) assms(5) snoc by (simp add: pq_rep_def)
  moreover have "same_cells (set as) cs ?cs" using d(1) snoc by auto
  ultimately show ?thesis using tl b d(1) by (auto simp: pq_append_def)
qed

lemma pq_requeue_rep:
  assumes "pq_rep cs q as" "cs a \<noteq> None" "a \<noteq> 0" "a \<notin> set as"
  shows "\<exists>cs' q'. pq_requeue a cs q = Some (cs', q') \<and> pq_rep cs' q' (as @ [a]) \<and>
    same_cells (insert a (set as)) cs cs'"
proof -
  obtain c where c: "cs a = Some c" using assms(2) by auto
  let ?cs = "cs(a \<mapsto> c\<lparr>next_pr := 0\<rparr>)"
  have s: "same_cells {a} cs ?cs" using c by auto
  have r: "pq_rep ?cs q as" using same_cells_pq_rep [OF s] assms(1,4) by simp
  obtain cs' q' where 1: "pq_append a ?cs q = Some (cs', q')" "pq_rep cs' q' (as @ [a])"
      "same_cells (set as) ?cs cs'"
    using pq_append_rep [OF r, of a "c\<lparr>next_pr := 0\<rparr>"] assms(3,4) by auto
  have "same_cells (insert a (set as)) cs cs'"
    using same_cells_trans [OF same_cells_mono [OF s] same_cells_mono [OF 1(3)]] by blast
  then show ?thesis using 1 c by (simp add: pq_requeue_def)
qed

lemma pq_append_eq_requeue:
  "cs a = Some c \<Longrightarrow> next_pr c = 0 \<Longrightarrow> pq_append a cs q = pq_requeue a cs q"
proof -
  assume c: "cs a = Some c" "next_pr c = 0"
  then have "cs(a \<mapsto> c\<lparr>next_pr := 0\<rparr>) = cs" by (simp add: fun_upd_idem)
  then show ?thesis using c by (simp add: pq_requeue_def)
qed

text \<open>The search loop ends on a well-formed queue and finds the oldest request with the key.\<close>

lemma pq_find_miss:
  "chain cs p as 0 \<Longrightarrow> (\<forall>a\<in>set as. map_option ov (cs a) \<noteq> Some k) \<Longrightarrow>
   pq_find cs k prev p = Some (if as = [] then prev else last as, 0)"
proof (induction as arbitrary: p prev)
  case Nil
  then show ?case by (simp add: pq_find.simps)
next
  case (Cons a as)
  then show ?case by (subst pq_find.simps) (auto split: option.splits)
qed

lemma pq_find_hit:
  "chain cs p (bs @ a # as) 0 \<Longrightarrow> (\<forall>b\<in>set bs. map_option ov (cs b) \<noteq> Some k) \<Longrightarrow>
   map_option ov (cs a) = Some k \<Longrightarrow>
   pq_find cs k prev p = Some (if bs = [] then prev else last bs, a)"
proof (induction bs arbitrary: p prev)
  case Nil
  then show ?case by (subst pq_find.simps) (auto split: option.splits)
next
  case (Cons b bs)
  then show ?case by (subst pq_find.simps) (auto split: option.splits)
qed

lemma pq_take_miss:
  assumes "pq_rep cs q as" "\<forall>a\<in>set as. map_option ov (cs a) \<noteq> Some k"
  shows "pq_take k cs q = Some (0, cs, q)"
  using assms by (auto simp: pq_take_def pq_rep_def pq_find_miss)

lemma pq_take_hit:
  assumes "pq_rep cs q (bs @ a # as)" "map_option ov (cs a) = Some k"
    "\<forall>b\<in>set bs. map_option ov (cs b) \<noteq> Some k"
  shows "\<exists>cs' q'. pq_take k cs q = Some (a, cs', q') \<and> pq_rep cs' q' (bs @ as) \<and>
    same_cells (set bs) cs cs'"
proof -
  have ch: "chain cs (pending_head q) (bs @ a # as) 0" and dist: "distinct (bs @ a # as)"
    and tl: "pending_tail q = last (bs @ a # as)"
    using assms(1) by (auto simp: pq_rep_def)
  obtain r where r: "cs a = Some r" using assms(2) by auto
  have a0: "a \<noteq> 0" using chain_cells [OF ch] by auto
  have fd: "pq_find cs k 0 (pending_head q) = Some (if bs = [] then 0 else last bs, a)"
    by (rule pq_find_hit [OF ch assms(3,2)])
  have la: "last as \<noteq> a" if "as \<noteq> []" using that dist last_in_set [of as] by auto
  show ?thesis
  proof (cases bs rule: rev_cases)
    case Nil
    then have "chain cs (next_pr r) as 0" using ch r by simp
    then show ?thesis
      using Nil fd r a0 dist tl la
      by (auto simp: pq_take_def pq_unlink_def pq_rep_def)
  next
    case (snoc cs' b)
    obtain m where m: "chain cs (pending_head q) cs' m" "chain cs m (b # a # as) 0"
      using ch snoc chain_append [of cs _ cs' "b # a # as" 0] by auto
    then obtain d where d: "m = b" "b \<noteq> 0" "cs b = Some d" "chain cs (next_pr r) as 0"
      using r by (auto split: option.splits)
    let ?cs = "cs(b \<mapsto> d\<lparr>next_pr := next_pr r\<rparr>)"
    have "chain ?cs (pending_head q) (cs' @ b # as) 0"
      unfolding chain_append using m(1) d dist snoc by auto
    moreover have "same_cells (set bs) cs ?cs" using d snoc by auto
    ultimately show ?thesis
      using snoc fd r a0 dist tl d la
      by (auto simp: pq_take_def pq_unlink_def pq_rep_def)
  qed
qed

section \<open>The interface\<close>

locale fifo_queue =
  fixes rep :: "'s \<Rightarrow> 'a list \<Rightarrow> bool"
    and live :: "'s \<Rightarrow> 'a \<Rightarrow> bool"
    and key :: "'s \<Rightarrow> 'a \<Rightarrow> 'k option"
    and frame :: "'a set \<Rightarrow> 's \<Rightarrow> 's \<Rightarrow> bool"   \<comment> \<open>nothing outside the set has changed\<close>
    and put :: "'a \<Rightarrow> 's \<Rightarrow> 's option"
    and del :: "'k \<Rightarrow> 's \<Rightarrow> ('a option \<times> 's) option"
  assumes rep_distinct: "rep s xs \<Longrightarrow> distinct xs"
    and rep_live: "rep s xs \<Longrightarrow> x \<in> set xs \<Longrightarrow> live s x"
    and frame_trans: "frame A s s' \<Longrightarrow> frame A s' s'' \<Longrightarrow> frame A s s''"
    and frame_mono: "frame A s s' \<Longrightarrow> A \<subseteq> B \<Longrightarrow> frame B s s'"
    and frame_key: "frame A s s' \<Longrightarrow> key s' x = key s x"
    and frame_live: "frame A s s' \<Longrightarrow> live s' x = live s x"
    and put_rep: "rep s xs \<Longrightarrow> live s a \<Longrightarrow> a \<notin> set xs \<Longrightarrow>
      \<exists>s'. put a s = Some s' \<and> rep s' (xs @ [a]) \<and> frame (insert a (set xs)) s s'"
    and del_miss: "rep s xs \<Longrightarrow> \<forall>x\<in>set xs. key s x \<noteq> Some k \<Longrightarrow> del k s = Some (None, s)"
    and del_hit: "rep s (ys @ a # zs) \<Longrightarrow> key s a = Some k \<Longrightarrow>
      \<forall>y\<in>set ys. key s y \<noteq> Some k \<Longrightarrow>
      \<exists>s'. del k s = Some (Some a, s') \<and> rep s' (ys @ zs) \<and> frame (set ys) s s'"
begin

text \<open>Taking a request out and putting it back moves it behind all the others.\<close>

lemma take_put_back:
  assumes "rep s (ys @ a # zs)" "key s a = Some k" "\<forall>y\<in>set ys. key s y \<noteq> Some k"
  shows "\<exists>s1 s2. del k s = Some (Some a, s1) \<and> put a s1 = Some s2 \<and>
    rep s1 (ys @ zs) \<and> rep s2 (ys @ zs @ [a]) \<and> frame (set (ys @ a # zs)) s s2"
proof -
  obtain s1 where 1: "del k s = Some (Some a, s1)" "rep s1 (ys @ zs)" "frame (set ys) s s1"
    using del_hit [OF assms] by blast
  have "live s1 a" using rep_live [OF assms(1), of a] frame_live [OF 1(3)] by simp
  moreover have "a \<notin> set (ys @ zs)" using rep_distinct [OF assms(1)] by auto
  ultimately obtain s2 where 2: "put a s1 = Some s2" "rep s2 ((ys @ zs) @ [a])"
      "frame (insert a (set (ys @ zs))) s1 s2"
    using put_rep [OF 1(2)] by blast
  have "frame (set (ys @ a # zs)) s s2"
    by (rule frame_trans [OF frame_mono [OF 1(3)] frame_mono [OF 2(3)]]) auto
  then show ?thesis using 1 2 by auto
qed

text \<open>A sequence of insertions keeps the order of arrival.\<close>

fun put_all :: "'a list \<Rightarrow> 's \<Rightarrow> 's option" where
  "put_all [] s = Some s"
| "put_all (a # as) s = Option.bind (put a s) (put_all as)"

lemma put_all_rep:
  assumes "rep s xs" "\<forall>a\<in>set as. live s a" "distinct as" "set as \<inter> set xs = {}"
  shows "\<exists>s'. put_all as s = Some s' \<and> rep s' (xs @ as) \<and> (\<forall>x. key s' x = key s x)"
  using assms
proof (induction as arbitrary: s xs)
  case (Cons a as)
  obtain s1 where 1: "put a s = Some s1" "rep s1 (xs @ [a])" "frame (insert a (set xs)) s s1"
    using put_rep [OF Cons.prems(1), of a] Cons.prems by auto
  have "\<exists>s'. put_all as s1 = Some s' \<and> rep s' ((xs @ [a]) @ as) \<and> (\<forall>x. key s' x = key s1 x)"
    by (rule Cons.IH [OF 1(2)]) (use Cons.prems 1 frame_live [OF 1(3)] in auto)
  then show ?case using 1 frame_key [OF 1(3)] by auto
qed simp

text \<open>Requests with one key complete in the order of their arrival.\<close>

lemma oldest_first:
  assumes "rep s []" "\<forall>a\<in>set (a # as). live s a \<and> key s a = Some k" "distinct (a # as)"
  shows "\<exists>s1 s2. put_all (a # as) s = Some s1 \<and> del k s1 = Some (Some a, s2) \<and> rep s2 as"
proof -
  obtain s1 where 1: "put_all (a # as) s = Some s1" "rep s1 (a # as)" "\<forall>x. key s1 x = key s x"
    using put_all_rep [OF assms(1), of "a # as"] assms(2,3) by auto
  show ?thesis using del_hit [of s1 "[]" a as k] 1 assms(2) by auto
qed

end

interpretation pq: fifo_queue
  "\<lambda>(cs, q) as. pq_rep cs q as"
  "\<lambda>(cs, q) a. a \<noteq> 0 \<and> cs a \<noteq> None"
  "\<lambda>(cs, q) a. map_option ov (cs a)"
  "\<lambda>A (cs, q) (cs', q'). same_cells A cs cs'"
  "\<lambda>a (cs, q). pq_requeue a cs q"
  "\<lambda>k (cs, q). map_option (\<lambda>(a, cs, q). (if a = 0 then None else Some a, cs, q)) (pq_take k cs q)"
proof (unfold_locales, goal_cases)
  case (1 s xs)
  then show ?case by (auto simp: pq_rep_def)
next
  case (2 s xs x)
  then show ?case using chain_cells by (fastforce simp: pq_rep_def)
next
  case (3 A s s' s'')
  then show ?case using same_cells_trans by auto
next
  case (4 A s s' B)
  then show ?case using same_cells_mono by auto
next
  case (5 A s s' x)
  then show ?case using same_cells_ov by auto
next
  case (6 A s s' x)
  then show ?case using same_cells_None [of A "fst s" "fst s'" x]
    by (cases s, cases s') (simp del: not_None_eq)
next
  case (7 s xs a)
  then show ?case using pq_requeue_rep [of "fst s" "snd s" xs a] by (cases s) auto
next
  case (8 s xs k)
  then show ?case by (auto simp: pq_take_miss)
next
  case (9 s ys a zs k)
  obtain cs q where s: "s = (cs, q)" by fastforce
  have "a \<noteq> 0" using 9(1) s chain_cells by (fastforce simp: pq_rep_def)
  then show ?case using pq_take_hit [of cs q ys a zs k] 9 s by auto
qed

end
