(* ===== verification/Driver_Hooks.thy ===== *)
theory Driver_Hooks
  imports Logging Pending_Queue Fake_Identity
begin

text \<open>
  The emulated device of src/inject.c: the hooks for CreateFileW, CloseHandle, ReadFile,
  WriteFile, DeviceIoControl and GetOverlappedResult.  A call on a handle that is not fake
  is forwarded to the real function (\<open>Forward\<close>); otherwise the result is the new state and
  what the caller sees.  None is a memory access outside its object.

  The state has the list of handle contexts, the heap cells of the pending reads, the
  caller's memory the hooks touch (OVERLAPPED structures and buffers, by address), the open
  sockets with the datagrams waiting in them, and what has been sent.
\<close>

section \<open>Constants\<close>

definition RADMIN_HEADER_SIZE :: u32 where "RADMIN_HEADER_SIZE = 8"
definition INVALID_HANDLE_VALUE :: u32 where "INVALID_HANDLE_VALUE = 0xFFFFFFFF"
definition STATUS_PENDING :: u32 where "STATUS_PENDING = 0x103"
definition ERROR_OUTOFMEMORY :: u32 where "ERROR_OUTOFMEMORY = 14"
definition ERROR_NOT_READY :: u32 where "ERROR_NOT_READY = 21"
definition ERROR_NOT_SUPPORTED :: u32 where "ERROR_NOT_SUPPORTED = 50"
definition ERROR_INVALID_PARAMETER :: u32 where "ERROR_INVALID_PARAMETER = 87"
definition ERROR_INSUFFICIENT_BUFFER :: u32 where "ERROR_INSUFFICIENT_BUFFER = 122"
definition ERROR_NO_DATA :: u32 where "ERROR_NO_DATA = 232"
definition ERROR_IO_INCOMPLETE :: u32 where "ERROR_IO_INCOMPLETE = 996"
definition ERROR_IO_PENDING :: u32 where "ERROR_IO_PENDING = 997"

section \<open>The 8-byte header\<close>

definition radmin_header_write :: "u32 \<Rightarrow> bytes" where
  "radmin_header_write frame_len = replicate 4 0 @
     [ucast frame_len, ucast (drop_bit 8 frame_len), ucast (drop_bit 16 frame_len),
      ucast (drop_bit 24 frame_len)]"

definition radmin_header_read :: "bytes \<Rightarrow> u32" where
  "radmin_header_read hdr =
     ucast (hdr ! 4) OR push_bit 8 (ucast (hdr ! 5)) OR
     push_bit 16 (ucast (hdr ! 6)) OR push_bit 24 (ucast (hdr ! 7))"

section \<open>State\<close>

record overlapped =
  Internal :: u32
  InternalHigh :: u32
  hEvent :: u32

record handle_context =
  h :: u32
  real_handle :: u32
  mac :: bytes
  mac_set :: bool
  queue :: pqueue
  ready_event :: u32

datatype recv_item = RI_Data bytes | RI_Error

record driver =
  g_HandleList :: "handle_context list"
  g_NextHandleId :: u32
  pr_cells :: cells
  next_cell :: addr
  open_events :: nat
  g_isAnyTAPDriverActive :: bool
  tap_addr :: bytes
  tap_port :: u16
  ident :: identity
  logger :: logger
  ovs :: "u32 \<Rightarrow> overlapped option"
  ubufs :: "u32 \<Rightarrow> bytes option"
  signalled :: "u32 list"
  socks :: "nat \<Rightarrow> recv_item list option"
  next_sock :: nat
  dwire :: "(bytes \<times> u16 \<times> bytes) list"
  last_error :: u32

datatype 'r hook = Forward | Done driver 'r

text \<open>Answers of the environment to one call.\<close>

record dev_env =
  e_heap :: "u32 \<Rightarrow> bool"     \<comment> \<open>does an allocation of this size succeed\<close>
  e_event :: bool             \<comment> \<open>does CreateEvent succeed\<close>
  e_socket :: bool
  e_connect :: bool
  e_send :: bool
  e_time :: systime

definition SetLastError :: "u32 \<Rightarrow> driver \<Rightarrow> driver" where
  "SetLastError e d = d\<lparr>last_error := e\<rparr>"

definition SetEvent :: "u32 \<Rightarrow> driver \<Rightarrow> driver" where
  "SetEvent e d = d\<lparr>signalled := signalled d @ [e]\<rparr>"

text \<open>Dereferencing an OVERLAPPED pointer; 0 is null.\<close>

definition deref_ov :: "driver \<Rightarrow> u32 \<Rightarrow> overlapped option" where
  "deref_ov d p = (if p = 0 then None else ovs d p)"

definition socket_new :: "driver \<Rightarrow> nat \<times> driver" where
  "socket_new d = (next_sock d, d\<lparr>next_sock := next_sock d + 1,
                                  socks := (socks d)(next_sock d \<mapsto> [])\<rparr>)"

definition socket_close :: "nat \<Rightarrow> driver \<Rightarrow> driver" where
  "socket_close s d = d\<lparr>socks := (socks d)(s := None)\<rparr>"

definition socket_send :: "bool \<Rightarrow> bytes \<Rightarrow> driver \<Rightarrow> driver" where
  "socket_send ok pkt d =
     (if ok then d\<lparr>dwire := dwire d @ [(tap_addr d, tap_port d, pkt)]\<rparr> else d)"

section \<open>The handle list\<close>

fun find_ctx :: "handle_context list \<Rightarrow> u32 \<Rightarrow> handle_context option" where
  "find_ctx [] hd' = None"
| "find_ctx (c # cs) hd' = (if h c = hd' then Some c else find_ctx cs hd')"

definition GetHandleContext :: "driver \<Rightarrow> u32 \<Rightarrow> handle_context option" where
  "GetHandleContext d hd' = find_ctx (g_HandleList d) hd'"

text \<open>A write through the pointer \<open>GetHandleContext\<close> returned.\<close>

fun upd_ctx :: "u32 \<Rightarrow> (handle_context \<Rightarrow> handle_context) \<Rightarrow> handle_context list \<Rightarrow>
    handle_context list" where
  "upd_ctx hd' f [] = []"
| "upd_ctx hd' f (c # cs) = (if h c = hd' then f c # cs else c # upd_ctx hd' f cs)"

definition with_ctx :: "u32 \<Rightarrow> (handle_context \<Rightarrow> handle_context) \<Rightarrow> driver \<Rightarrow> driver" where
  "with_ctx hd' f d = d\<lparr>g_HandleList := upd_ctx hd' f (g_HandleList d)\<rparr>"

text \<open>
  \<open>AddFakeHandle\<close>: the event is created and its handle stored before the whole structure
  is cleared by \<open>memset\<close>.
\<close>

definition new_ctx :: "u32 \<Rightarrow> handle_context" where
  "new_ctx hd' = \<lparr>h = hd', real_handle = 0, mac = replicate 6 0, mac_set = False,
                  queue = pq_empty, ready_event = 0\<rparr>"

definition AddFakeHandle :: "dev_env \<Rightarrow> driver \<Rightarrow> driver \<times> u32 option" where
  "AddFakeHandle env d =
     (let hd' = g_NextHandleId d + 1;
          d1 = d\<lparr>g_NextHandleId := hd'\<rparr> in
      if \<not> e_heap env 48 then (d1, None)
      else
        let d2 = (if e_event env then d1\<lparr>open_events := open_events d1 + 1\<rparr> else d1)
        in (d2\<lparr>g_HandleList := new_ctx hd' # g_HandleList d2\<rparr>, Some hd'))"

fun unlink_ctx :: "u32 \<Rightarrow> handle_context list \<Rightarrow> handle_context list \<times> handle_context option" where
  "unlink_ctx hd' [] = ([], None)"
| "unlink_ctx hd' (c # cs) =
     (if h c = hd' then (cs, Some c)
      else let (cs', r) = unlink_ctx hd' cs in (c # cs', r))"

text \<open>
  The second component is the real handle that is closed with the device, if any.  The
  event is closed through the field \<open>ready_event\<close>.
\<close>

definition RemoveFakeHandle :: "u32 \<Rightarrow> driver \<Rightarrow> driver \<times> u32 option" where
  "RemoveFakeHandle hd' d =
     (case unlink_ctx hd' (g_HandleList d) of
        (cs, None) \<Rightarrow> (d, None)
      | (cs, Some c) \<Rightarrow>
          let d1 = d\<lparr>g_HandleList := cs\<rparr>;
              d2 = (if ready_event c \<noteq> 0 then d1\<lparr>open_events := open_events d1 - 1\<rparr> else d1)
          in (d2, if real_handle c \<noteq> 0 \<and> real_handle c \<noteq> INVALID_HANDLE_VALUE
                  then Some (real_handle c) else None))"

section \<open>Configuration and filter\<close>

definition is_mac_match :: "bytes \<Rightarrow> handle_context \<Rightarrow> bool option" where
  "is_mac_match dest_mac c =
     (if \<not> mac_set c then Some False
      else do {
        m \<leftarrow> mem_read dest_mac 0 6;
        Some (if m = mac c then True else bit (m ! 0) 0) })"

definition GetFakeLocalMac :: "handle_context option \<Rightarrow> bytes option" where
  "GetFakeLocalMac ctx =
     (case ctx of Some c \<Rightarrow> if mac_set c then Some (mac c) else None | None \<Rightarrow> None)"

section \<open>The hooks\<close>

definition DEVICE_NAME :: wstr where
  "DEVICE_NAME = [92, 92] @ str ''.'' @ [92] @ str ''RVPNNETMP''"

definition Hook_CreateFileW :: "dev_env \<Rightarrow> wstr option \<Rightarrow> driver \<Rightarrow> u32 hook" where
  "Hook_CreateFileW env lpFileName d =
     (if lpFileName = Some DEVICE_NAME
      then case AddFakeHandle env d of
             (d1, None) \<Rightarrow> Done (SetLastError ERROR_OUTOFMEMORY d1) INVALID_HANDLE_VALUE
           | (d1, Some hd') \<Rightarrow> Done d1 hd'
      else Forward)"

definition Hook_CloseHandle :: "u32 \<Rightarrow> driver \<Rightarrow> bool hook" where
  "Hook_CloseHandle hObject d =
     (case GetHandleContext d hObject of
        None \<Rightarrow> Forward
      | Some c \<Rightarrow> Done (fst (RemoveFakeHandle hObject d)) True)"

text \<open>The result of an I/O call: the BOOL, and the byte count where the caller passed a pointer.\<close>

record io_result =
  ret :: bool
  n_out :: "u32 option"

definition io :: "bool \<Rightarrow> u32 option \<Rightarrow> io_result" where
  "io r n = \<lparr>ret = r, n_out = n\<rparr>"

definition opt_out :: "bool \<Rightarrow> u32 \<Rightarrow> u32 option" where
  "opt_out want n = (if want then Some n else None)"

text \<open>
  The dedicated socket of a read.  On a successful connect the socket becomes
  non-blocking, signals the event of the OVERLAPPED and announces itself to the bridge
  with the two bytes 0x01 0xFF.
\<close>

definition read_socket :: "dev_env \<Rightarrow> u32 \<Rightarrow> driver \<Rightarrow> (driver \<times> nat option) option" where
  "read_socket env lpOverlapped d =
     (if \<not> e_socket env then Some (d, None)
      else
        let (s, d1) = socket_new d in
        if e_connect env then do {
          o1 \<leftarrow> deref_ov d1 lpOverlapped;
          Some (socket_send (e_send env) [0x01, 0xFF] d1, Some s) }
        else Some (socket_close s d1, None))"

definition Hook_ReadFile ::
    "dev_env \<Rightarrow> u32 \<Rightarrow> u32 \<Rightarrow> u32 \<Rightarrow> bool \<Rightarrow> u32 \<Rightarrow> driver \<Rightarrow> io_result hook option" where
  "Hook_ReadFile env hFile lpBuffer n want lpOverlapped d =
     (case GetHandleContext d hFile of
        None \<Rightarrow> Some Forward
      | Some c \<Rightarrow>
          if \<not> g_isAnyTAPDriverActive d
          then Some (Done (SetLastError ERROR_NO_DATA d) (io False (opt_out want 0)))
          else if lpOverlapped = 0
          then Some (Done (SetLastError ERROR_NOT_SUPPORTED d) (io False None))
          else if \<not> e_heap env 20
          then Some (Done (SetLastError ERROR_OUTOFMEMORY d) (io False None))
          else do {
            (d1, s) \<leftarrow> read_socket env lpOverlapped d;
            let req = next_cell d1;
            let cell = \<lparr>ov = lpOverlapped, buffer = lpBuffer, buflen = n, sock = s, next_pr = 0\<rparr>;
            (cs, q) \<leftarrow> pq_append req ((pr_cells d1)(req \<mapsto> cell)) (queue c);
            let d2 = with_ctx hFile (\<lambda>c. c\<lparr>queue := q\<rparr>)
                       (d1\<lparr>pr_cells := cs, next_cell := next_cell d1 + 1\<rparr>);
            o1 \<leftarrow> deref_ov d2 lpOverlapped;
            let d3 = d2\<lparr>ovs := (ovs d2)(lpOverlapped \<mapsto> o1\<lparr>Internal := STATUS_PENDING\<rparr>)\<rparr>;
            Some (Done (SetLastError ERROR_IO_PENDING d3) (io False None)) })"

text \<open>
  The forwarding of one write: the header check \<open>frame_len + 8 <= n\<close> and the allocation of
  \<open>1 + frame_len\<close> bytes are 32-bit sums.
\<close>

definition write_frame :: "dev_env \<Rightarrow> bytes \<Rightarrow> u32 \<Rightarrow> driver \<Rightarrow> driver option" where
  "write_frame env ubuf n d = do {
     hdr \<leftarrow> mem_read ubuf 0 8;
     let frame_len = radmin_header_read hdr;
     if frame_len + RADMIN_HEADER_SIZE \<le> n
     then
       if \<not> e_socket env then Some d
       else
         let (s, d1) = socket_new d in
         if e_connect env
         then if e_heap env (1 + frame_len)
              then do {
                let pkt = replicate (unat (1 + frame_len)) 0;
                p1 \<leftarrow> mem_write pkt 0 [0x00];
                frame \<leftarrow> mem_read ubuf 8 (unat frame_len);
                p2 \<leftarrow> mem_write p1 1 frame;
                Some (socket_close s (socket_send (e_send env) p2 d1)) }
              else Some (socket_close s d1)
         else Some (socket_close s d1)
     else Some d }"

definition complete_ov :: "u32 \<Rightarrow> u32 \<Rightarrow> u32 \<Rightarrow> driver \<Rightarrow> driver option" where
  "complete_ov lpOverlapped status n d = do {
     o1 \<leftarrow> deref_ov d lpOverlapped;
     Some (d\<lparr>ovs := (ovs d)(lpOverlapped \<mapsto> o1\<lparr>Internal := status, InternalHigh := n\<rparr>)\<rparr>) }"

definition event_of :: "driver \<Rightarrow> u32 \<Rightarrow> u32" where
  "event_of d p = (case ovs d p of Some o1 \<Rightarrow> hEvent o1 | None \<Rightarrow> 0)"

text \<open>\<open>ubuf\<close> is the object \<open>lpBuffer\<close> points to, None for a null pointer.\<close>

definition Hook_WriteFile ::
    "dev_env \<Rightarrow> u32 \<Rightarrow> bytes option \<Rightarrow> u32 \<Rightarrow> bool \<Rightarrow> u32 \<Rightarrow> driver \<Rightarrow> io_result hook option" where
  "Hook_WriteFile env hFile ubuf n want lpOverlapped d =
     (case GetHandleContext d hFile of
        None \<Rightarrow> Some Forward
      | Some c \<Rightarrow> do {
          l \<leftarrow> LogHex (e_time env) ubuf (min n 64) (str ''  Data'') (logger d);
          let d0 = d\<lparr>logger := l\<rparr>;
          d1 \<leftarrow> (if g_isAnyTAPDriverActive d0 \<and> RADMIN_HEADER_SIZE \<le> n
                then Option.bind ubuf (\<lambda>b. write_frame env b n d0) else Some d0);
          if lpOverlapped \<noteq> 0
          then do {
            d2 \<leftarrow> complete_ov lpOverlapped 0 n d1;
            Some (Done (SetEvent (event_of d2 lpOverlapped) d2) (io True (opt_out want n))) }
          else Some (Done d1 (io True (opt_out want n))) })"

section \<open>DeviceIoControl\<close>

text \<open>
  The switch over the control code: the new state, the success flag, the number of bytes
  returned and the output buffer.
\<close>

definition ioctl_switch ::
    "dev_env \<Rightarrow> u32 \<Rightarrow> u32 \<Rightarrow> bytes option \<Rightarrow> u32 \<Rightarrow> bytes option \<Rightarrow> u32 \<Rightarrow> driver \<Rightarrow>
     (driver \<times> bool \<times> u32 \<times> bytes option) option" where
  "ioctl_switch env hDevice code inb nIn outb nOut d =
     (let fail = (\<lambda>e. Some (SetLastError e d, False, 0, outb)) in
      if code = 0x22C004 then
        (if nIn \<ge> 8 \<and> nOut \<ge> 12 then
           (case GetFakeMacAddress (ident d) of
              (m, True) \<Rightarrow> do {
                let out = replicate 4 0 @ m @ replicate 2 0;
                ob \<leftarrow> outb;
                ob' \<leftarrow> mem_write ob 0 out;
                l \<leftarrow> LogHex (e_time env) (Some out) 12 (str ''  Output (MAC at offset 4)'') (logger d);
                Some (d\<lparr>logger := l\<rparr>, True, 12, Some ob') }
            | (_, False) \<Rightarrow> fail ERROR_NOT_READY)
         else fail ERROR_INVALID_PARAMETER)
      else if code = 0x228014 then
        (if nIn = 6 then do {
           ib \<leftarrow> inb;
           m \<leftarrow> mem_read ib 0 6;
           l \<leftarrow> LogHex (e_time env) (Some m) 6 (str ''  MAC filter set to'') (logger d);
           Some (with_ctx hDevice (\<lambda>c. c\<lparr>mac := m, mac_set := True\<rparr>) (d\<lparr>logger := l\<rparr>),
                 True, 0, outb) }
         else fail ERROR_INVALID_PARAMETER)
      else if code = 0x22801C then
        (if nIn \<ge> 4 then do {
           ib \<leftarrow> inb;
           _ \<leftarrow> mem_read ib 0 4;
           Some (d, True, 0, outb) }
         else fail ERROR_INVALID_PARAMETER)
      else if code = 0x224018 then
        (if nOut \<ge> 4 then do {
           ob \<leftarrow> outb;
           ob' \<leftarrow> mem_write ob 0 [0, 0, 0, 0];
           Some (d, True, 4, Some ob') }
         else fail ERROR_INSUFFICIENT_BUFFER)
      else if code = 0x224020 then
        (if nOut \<ge> 1 then do {
           ob \<leftarrow> outb;
           ob' \<leftarrow> mem_write ob 0 [0];
           Some (d, True, 1, Some ob') }
         else fail ERROR_INSUFFICIENT_BUFFER)
      else Some (d, True, 0, outb))"

definition Hook_DeviceIoControl ::
    "dev_env \<Rightarrow> u32 \<Rightarrow> u32 \<Rightarrow> bytes option \<Rightarrow> u32 \<Rightarrow> bytes option \<Rightarrow> u32 \<Rightarrow> bool \<Rightarrow> u32 \<Rightarrow> driver \<Rightarrow>
     (io_result \<times> bytes option) hook option" where
  "Hook_DeviceIoControl env hDevice code inb nIn outb nOut want lpOverlapped d =
     (case GetHandleContext d hDevice of
        None \<Rightarrow> Some Forward
      | Some c \<Rightarrow> do {
          l \<leftarrow> (if nIn \<noteq> 0 then LogHex (e_time env) inb nIn (str ''  Input'') (logger d)
               else Some (logger d));
          (d1, ok, bytesRet, outb') \<leftarrow>
             ioctl_switch env hDevice code inb nIn outb nOut (d\<lparr>logger := l\<rparr>);
          d2 \<leftarrow> (if lpOverlapped \<noteq> 0
                then do {
                  d2 \<leftarrow> complete_ov lpOverlapped (if ok then 0 else ERROR_INVALID_PARAMETER)
                          bytesRet d1;
                  Some (if event_of d2 lpOverlapped \<noteq> 0
                        then SetEvent (event_of d2 lpOverlapped) d2 else d2) }
                else Some d1);
          Some (Done d2 (io ok (opt_out want bytesRet), outb')) })"

section \<open>GetOverlappedResult\<close>

text \<open>
  The receive loop on the non-blocking socket: datagrams that do not match the filter are
  dropped; it stops at the first match, at a datagram shorter than 14 bytes or longer than
  the 2048-byte buffer (WSAEMSGSIZE), at an error, and when the socket is empty.
\<close>

fun recv_loop :: "handle_context \<Rightarrow> recv_item list \<Rightarrow> (recv_item list \<times> bytes option) option" where
  "recv_loop c [] = Some ([], None)"
| "recv_loop c (RI_Error # r) = Some (r, None)"
| "recv_loop c (RI_Data frame # r) =
     (if 14 \<le> length frame \<and> length frame \<le> 2048
      then do {
        m \<leftarrow> is_mac_match (drop 1 frame) c;
        if m then Some (r, Some (drop 1 frame)) else recv_loop c r }
      else Some (r, None))"

text \<open>The receive attempt on the socket of one request.\<close>

definition recv_request ::
    "handle_context \<Rightarrow> pending_read \<Rightarrow> driver \<Rightarrow> (driver \<times> bytes option) option" where
  "recv_request c r d =
     (case sock r of
        None \<Rightarrow> Some (d, None)
      | Some s \<Rightarrow>
          (case socks d s of
             None \<Rightarrow> Some (d, None)
           | Some items \<Rightarrow> do {
               (rest, eth) \<leftarrow> recv_loop c items;
               Some (d\<lparr>socks := (socks d)(s \<mapsto> rest)\<rparr>, eth) }))"

text \<open>Not completed: the request goes back to the end of the queue.\<close>

definition give_back :: "u32 \<Rightarrow> addr \<Rightarrow> pqueue \<Rightarrow> driver \<Rightarrow> driver option" where
  "give_back hFile req q d = do {
     (cs, q') \<leftarrow> pq_requeue req (pr_cells d) q;
     Some (SetLastError ERROR_IO_INCOMPLETE
            (with_ctx hFile (\<lambda>c. c\<lparr>queue := q'\<rparr>) (d\<lparr>pr_cells := cs\<rparr>))) }"

text \<open>Completed: header and frame are copied out, the socket closed and the cell freed.\<close>

definition complete_read ::
    "u32 \<Rightarrow> addr \<Rightarrow> pending_read \<Rightarrow> bytes \<Rightarrow> driver \<Rightarrow> (driver \<times> u32) option" where
  "complete_read lpOverlapped req r eth d = do {
     let outbuf = radmin_header_write (of_nat (length eth)) @ eth;
     let copyLen = min (length outbuf) (unat (buflen r));
     ub \<leftarrow> ubufs d (buffer r);
     ub' \<leftarrow> mem_write ub 0 (take copyLen outbuf);
     d1 \<leftarrow> complete_ov lpOverlapped 0 (of_nat copyLen) (d\<lparr>ubufs := (ubufs d)(buffer r \<mapsto> ub')\<rparr>);
     let e = event_of d1 lpOverlapped;
     let d2 = (if e \<noteq> 0 then SetEvent e d1 else d1);
     let d3 = (case sock r of Some s \<Rightarrow> socket_close s d2 | None \<Rightarrow> d2);
     Some (d3\<lparr>pr_cells := (pr_cells d3)(req := None)\<rparr>, of_nat copyLen) }"

definition Hook_GetOverlappedResult ::
    "u32 \<Rightarrow> u32 \<Rightarrow> bool \<Rightarrow> driver \<Rightarrow> io_result hook option" where
  "Hook_GetOverlappedResult hFile lpOverlapped want d =
     (case GetHandleContext d hFile of
        None \<Rightarrow> Some Forward
      | Some c \<Rightarrow> do {
          o1 \<leftarrow> deref_ov d lpOverlapped;
          if Internal o1 \<noteq> STATUS_PENDING
          then Some (Done d (io True (opt_out want (InternalHigh o1))))
          else do {
            (req, cs, q) \<leftarrow> pq_take lpOverlapped (pr_cells d) (queue c);
            if req = 0
            then Some (Done (SetLastError ERROR_INVALID_PARAMETER d) (io False None))
            else do {
              r \<leftarrow> cs req;
              let d1 = with_ctx hFile (\<lambda>c. c\<lparr>queue := q\<rparr>) (d\<lparr>pr_cells := cs\<rparr>);
              (d2, eth) \<leftarrow> recv_request c r d1;
              case eth of
                None \<Rightarrow> do {
                  d3 \<leftarrow> give_back hFile req q d2;
                  Some (Done d3 (io False None)) }
              | Some frame \<Rightarrow> do {
                  (d3, n) \<leftarrow> complete_read lpOverlapped req r frame d2;
                  Some (Done d3 (io True (opt_out want n))) } } } })"

section \<open>Initialisation\<close>

definition driver_initial :: "identity \<Rightarrow> logger \<Rightarrow> driver" where
  "driver_initial i l =
     \<lparr>g_HandleList = [], g_NextHandleId = 0x1000, pr_cells = (\<lambda>_. None), next_cell = 1,
      open_events = 0, g_isAnyTAPDriverActive = False, tap_addr = [], tap_port = 0,
      ident = i, logger = l, ovs = (\<lambda>_. None), ubufs = (\<lambda>_. None), signalled = [],
      socks = (\<lambda>_. None), next_sock = 0, dwire = [], last_error = 0\<rparr>"

end
