(* ===== verification/Driver_Properties.thy ===== *)
theory Driver_Properties
  imports Driver_Hooks
begin

text \<open>
  What the device hooks guarantee: the header round trip, the handle list as a keyed store,
  the invariant of the driver state over every sequence of calls, and the functional
  behaviour of each hook on every branch.
\<close>

section \<open>The header\<close>

lemma length_radmin_header [simp]: "length (radmin_header_write n) = 8"
  by (simp add: radmin_header_write_def)

lemma radmin_header_le32:
  "radmin_header_write n = replicate 4 0 @ le32 n" "radmin_header_read (replicate 4 0 @ b) = of_le32 b"
  by (simp_all add: radmin_header_write_def le32_def radmin_header_read_def of_le32_def nth_append)

text \<open>Header round trip: reading the header written for any 32-bit length gives that
  length back, whatever follows the header, and the header is 8 bytes.\<close>

theorem radmin_header_roundtrip:
  "radmin_header_read (radmin_header_write n @ rest) = n \<and> length (radmin_header_write n) = 8"
  using radmin_header_le32(2) [of "le32 n @ rest"] by (simp add: radmin_header_le32(1))

lemma radmin_header_read_write [simp]: "radmin_header_read (radmin_header_write n @ rest) = n"
  using radmin_header_le32(2) [of "le32 n @ rest"] by (simp add: radmin_header_le32(1))

section \<open>The handle list is a keyed store\<close>

definition handles_distinct :: "handle_context list \<Rightarrow> bool" where
  "handles_distinct cs \<longleftrightarrow> distinct (map h cs)"

lemma find_ctx_None: "find_ctx cs k = None \<longleftrightarrow> k \<notin> h ` set cs"
  by (induction cs) auto

lemma find_ctx_split:
  "find_ctx cs k = Some c \<Longrightarrow>
   \<exists>xs ys. cs = xs @ c # ys \<and> h c = k \<and> k \<notin> h ` set xs"
proof (induction cs)
  case (Cons a cs)
  show ?case
  proof (cases "h a = k")
    case True
    then show ?thesis using Cons.prems by (auto intro: exI [of _ "[]"])
  next
    case False
    then obtain xs ys where "cs = xs @ c # ys" "h c = k" "k \<notin> h ` set xs"
      using Cons by auto
    then show ?thesis using False by (intro exI [of _ "a # xs"] exI [of _ ys]) auto
  qed
qed simp

lemma upd_ctx_split:
  "k \<notin> h ` set xs \<Longrightarrow> h c = k \<Longrightarrow> upd_ctx k f (xs @ c # ys) = xs @ f c # ys"
  by (induction xs) auto

lemma find_ctx_mid:
  "k \<notin> h ` set xs \<Longrightarrow> h c = k \<Longrightarrow> find_ctx (xs @ c # ys) k = Some c"
  by (induction xs) auto

lemma upd_ctx_upd:
  "(\<And>c. h (f c) = h c) \<Longrightarrow> upd_ctx k g (upd_ctx k f cs) = upd_ctx k (\<lambda>c. g (f c)) cs"
  by (induction cs) auto

lemma unlink_ctx_split:
  "k \<notin> h ` set xs \<Longrightarrow> h c = k \<Longrightarrow> unlink_ctx k (xs @ c # ys) = (xs @ ys, Some c)"
  by (induction xs) auto

lemma unlink_ctx_None: "k \<notin> h ` set cs \<Longrightarrow> unlink_ctx k cs = (cs, None)"
  by (induction cs) auto

lemma unlink_ctx_eq:
  "unlink_ctx k cs = (case find_ctx cs k of None \<Rightarrow> (cs, None)
     | Some c \<Rightarrow> (fst (unlink_ctx k cs), Some c))"
  by (induction cs) (auto split: option.splits prod.splits)

lemma find_unlink_ctx:
  "handles_distinct cs \<Longrightarrow>
   handles_distinct (fst (unlink_ctx k cs)) \<and>
   set (fst (unlink_ctx k cs)) \<subseteq> set cs \<and>
   find_ctx (fst (unlink_ctx k cs)) k' = (if k = k' then None else find_ctx cs k')"
proof (induction cs)
  case (Cons c cs)
  have sub: "h ` set (fst (unlink_ctx k cs)) \<subseteq> h ` set cs"
    using Cons by (auto simp: handles_distinct_def)
  then show ?case
    using Cons by (auto simp: handles_distinct_def find_ctx_None split: prod.splits)
qed (simp add: handles_distinct_def)

interpretation handles: keyed_store
  handles_distinct find_ctx
  "\<lambda>k c cs. h c = k \<and> k \<notin> h ` set cs"
  "\<lambda>k c cs. c # cs"
  "\<lambda>k cs. fst (unlink_ctx k cs)"
  "(=)"
  by unfold_locales (use find_unlink_ctx in \<open>auto simp: handles_distinct_def\<close>)

text \<open>Every history of opened and closed fake handles leaves the handle list agreeing with
  the abstract map from handle values to contexts: a context is found exactly when it has
  been added and not removed since, and no value occurs twice.\<close>

theorem handle_list_refines_map:
  assumes "handles.run ops [] = Some cs"
  shows "handles_distinct cs \<and> find_ctx cs = handles.amap ops (\<lambda>_. None)"
proof -
  have "find_ctx [] = (\<lambda>_. None)" by auto
  then show ?thesis
    using handles.run_refines [OF _ assms] by (simp add: handles_distinct_def)
qed

theorem handle_list_refines_map_witness:
  "find_ctx [new_ctx 2] = handles.amap [Add 1 (new_ctx 1), Add 2 (new_ctx 2), Rem 1] (\<lambda>_. None)"
proof -
  have "handles.run [Add 1 (new_ctx 1), Add 2 (new_ctx 2), Rem 1] [] = Some [new_ctx 2]"
    by (simp add: new_ctx_def)
  from handle_list_refines_map [OF this] show ?thesis by simp
qed

section \<open>The invariant\<close>

definition queues_ok :: "cells \<Rightarrow> handle_context list \<Rightarrow> addr list list \<Rightarrow> bool" where
  "queues_ok cs hs qs \<longleftrightarrow> list_all2 (\<lambda>c as. pq_rep cs (queue c) as) hs qs \<and> distinct (concat qs)"

definition ctx_ok :: "u32 \<Rightarrow> handle_context \<Rightarrow> bool" where
  "ctx_ok nid c \<longleftrightarrow> 0x1000 < h c \<and> h c \<le> nid \<and> ready_event c = 0 \<and> real_handle c = 0 \<and>
     length (mac c) = 6"

definition driver_ok :: "driver \<Rightarrow> bool" where
  "driver_ok d \<longleftrightarrow>
     (\<exists>qs. queues_ok (pr_cells d) (g_HandleList d) qs) \<and>
     handles_distinct (g_HandleList d) \<and>
     (\<forall>c\<in>set (g_HandleList d). ctx_ok (g_NextHandleId d) c) \<and>
     0x1000 \<le> g_NextHandleId d \<and>
     (\<forall>a. pr_cells d a \<noteq> None \<longrightarrow> 0 < a \<and> a < next_cell d) \<and> 0 < next_cell d"

lemma pq_rep_empty [simp]: "pq_rep cs pq_empty []"
  by (simp add: pq_rep_def pq_empty_def)

lemma pq_rep_cong:
  "(\<And>a. a \<in> set as \<Longrightarrow> cs' a = cs a) \<Longrightarrow> pq_rep cs' q as = pq_rep cs q as"
  unfolding pq_rep_def by (simp cong: conj_cong add: chain_cong [of as cs' cs])

lemma pq_rep_upd [simp]: "a \<notin> set as \<Longrightarrow> pq_rep (cs(a := x)) q as = pq_rep cs q as"
  by (simp add: pq_rep_def)

lemma chain_unique:
  "chain cs p as 0 \<Longrightarrow> chain cs p bs 0 \<Longrightarrow> as = bs"
proof (induction as arbitrary: p bs)
  case Nil
  then show ?case by (cases bs) auto
next
  case (Cons a as)
  then show ?case by (cases bs) (auto split: option.splits)
qed

lemma pq_rep_unique: "pq_rep cs q as \<Longrightarrow> pq_rep cs q bs \<Longrightarrow> as = bs"
  unfolding pq_rep_def by (metis chain_unique)

lemma queue_member:
  assumes "list_all2 (\<lambda>c as. pq_rep cs (queue c) as) hs qs" "x \<in> set hs" "pq_rep cs (queue x) as"
  shows "as \<in> set qs"
proof -
  obtain i where i: "i < length hs" "hs ! i = x" using assms(2) by (auto simp: in_set_conv_nth)
  have "pq_rep cs (queue (hs ! i)) (qs ! i)" by (rule list_all2_nthD [OF assms(1) i(1)])
  then have "as = qs ! i" using pq_rep_unique [OF assms(3)] i(2) by simp
  then show ?thesis using i(1) list_all2_lengthD [OF assms(1)] by simp
qed

lemma queues_ok_live:
  assumes "queues_ok cs hs qs" "a \<in> set (concat qs)"
  shows "a \<noteq> 0 \<and> cs a \<noteq> None"
proof -
  obtain as where as: "as \<in> set qs" "a \<in> set as" using assms(2) by auto
  obtain i where i: "i < length qs" "as = qs ! i" using as(1) by (auto simp: in_set_conv_nth)
  have "pq_rep cs (queue (hs ! i)) as"
    using assms(1) i by (auto simp: queues_ok_def list_all2_conv_all_nth)
  then show ?thesis using as(2) chain_cells by (fastforce simp: pq_rep_def)
qed

lemma queues_ok_cong:
  assumes "queues_ok cs hs qs" "\<And>a. a \<in> set (concat qs) \<Longrightarrow> cs' a = cs a"
  shows "queues_ok cs' hs qs"
proof -
  have 1: "pq_rep cs' (queue c) as" if "as \<in> set qs" "pq_rep cs (queue c) as" for c as
  proof -
    have "cs' a = cs a" if "a \<in> set as" for a
      using that \<open>as \<in> set qs\<close> assms(2) [of a] by auto
    then show ?thesis using that(2) pq_rep_cong [of as cs' cs] by simp
  qed
  have "list_all2 (\<lambda>c as. pq_rep cs (queue c) as) hs qs"
    using assms(1) by (simp add: queues_ok_def)
  then have "list_all2 (\<lambda>c as. pq_rep cs' (queue c) as) hs qs"
    by (rule list.rel_mono_strong) (use 1 in blast)
  then show ?thesis using assms(1) by (simp add: queues_ok_def)
qed

text \<open>One context replaces its queue; the cells of the other queues are untouched.\<close>

lemma queues_ok_mid:
  "queues_ok cs (xs @ c # ys) qs \<Longrightarrow>
   \<exists>qx as qy. qs = qx @ as # qy \<and> queues_ok cs xs qx \<and> queues_ok cs ys qy \<and>
     pq_rep cs (queue c) as \<and> distinct (concat (qx @ qy)) \<and>
     set as \<inter> set (concat (qx @ qy)) = {}"
  unfolding queues_ok_def list_all2_append1 list_all2_Cons1 by fastforce

lemma queues_ok_join:
  "queues_ok cs xs qx \<Longrightarrow> queues_ok cs ys qy \<Longrightarrow> pq_rep cs (queue c) as \<Longrightarrow>
   distinct (concat (qx @ qy)) \<Longrightarrow> set as \<inter> set (concat (qx @ qy)) = {} \<Longrightarrow>
   queues_ok cs (xs @ c # ys) (qx @ as # qy)"
  unfolding queues_ok_def by (auto simp: list_all2_appendI pq_rep_def)

lemma queues_ok_replace:
  assumes "queues_ok cs xs qx" "queues_ok cs ys qy" "distinct (concat (qx @ qy))"
    "\<And>a. a \<in> set (concat (qx @ qy)) \<Longrightarrow> cs' a = cs a"
    "pq_rep cs' (queue c') as'" "set as' \<inter> set (concat (qx @ qy)) = {}"
  shows "queues_ok cs' (xs @ c' # ys) (qx @ as' # qy)"
proof -
  have "queues_ok cs' xs qx" "queues_ok cs' ys qy"
    using assms(1,2,4) by (auto intro: queues_ok_cong)
  then show ?thesis using assms by (intro queues_ok_join) auto
qed

lemma queues_ok_remove:
  assumes "queues_ok cs (xs @ c # ys) qs"
  shows "\<exists>qs'. queues_ok cs (xs @ ys) qs'"
proof -
  obtain qx as qy where "queues_ok cs xs qx" "queues_ok cs ys qy" "distinct (concat (qx @ qy))"
    using queues_ok_mid [OF assms] by blast
  then have "queues_ok cs (xs @ ys) (qx @ qy)"
    by (simp add: queues_ok_def list_all2_appendI)
  then show ?thesis ..
qed

section \<open>Preservation\<close>

lemma driver_okI:
  assumes "queues_ok (pr_cells d) (g_HandleList d) qs" "handles_distinct (g_HandleList d)"
    "\<And>c. c \<in> set (g_HandleList d) \<Longrightarrow> ctx_ok (g_NextHandleId d) c"
    "0x1000 \<le> g_NextHandleId d"
    "\<And>a. pr_cells d a \<noteq> None \<Longrightarrow> 0 < a \<and> a < next_cell d" "0 < next_cell d"
  shows "driver_ok d"
  using assms unfolding driver_ok_def by blast

lemma driver_ok_cong:
  "g_HandleList d' = g_HandleList d \<Longrightarrow> pr_cells d' = pr_cells d \<Longrightarrow> next_cell d' = next_cell d \<Longrightarrow>
   g_NextHandleId d' = g_NextHandleId d \<Longrightarrow> driver_ok d' = driver_ok d"
  by (simp add: driver_ok_def)

lemma SetLastError_simps [simp]:
  "g_HandleList (SetLastError e d) = g_HandleList d" "pr_cells (SetLastError e d) = pr_cells d"
  "next_cell (SetLastError e d) = next_cell d" "g_NextHandleId (SetLastError e d) = g_NextHandleId d"
  "open_events (SetLastError e d) = open_events d" "dwire (SetLastError e d) = dwire d"
  "ovs (SetLastError e d) = ovs d" "socks (SetLastError e d) = socks d"
  "ubufs (SetLastError e d) = ubufs d" "last_error (SetLastError e d) = e"
  "driver_ok (SetLastError e d) = driver_ok d" "GetHandleContext (SetLastError e d) k = GetHandleContext d k"
  by (simp_all add: SetLastError_def driver_ok_def GetHandleContext_def)

lemma SetEvent_simps [simp]:
  "g_HandleList (SetEvent e d) = g_HandleList d" "pr_cells (SetEvent e d) = pr_cells d"
  "next_cell (SetEvent e d) = next_cell d" "g_NextHandleId (SetEvent e d) = g_NextHandleId d"
  "open_events (SetEvent e d) = open_events d" "dwire (SetEvent e d) = dwire d"
  "ovs (SetEvent e d) = ovs d" "socks (SetEvent e d) = socks d" "ubufs (SetEvent e d) = ubufs d"
  "last_error (SetEvent e d) = last_error d"
  "driver_ok (SetEvent e d) = driver_ok d" "GetHandleContext (SetEvent e d) k = GetHandleContext d k"
  by (simp_all add: SetEvent_def driver_ok_def GetHandleContext_def)

lemma socket_simps [simp]:
  "g_HandleList (socket_close s d) = g_HandleList d" "pr_cells (socket_close s d) = pr_cells d"
  "next_cell (socket_close s d) = next_cell d" "g_NextHandleId (socket_close s d) = g_NextHandleId d"
  "open_events (socket_close s d) = open_events d"
  "dwire (socket_close s d) = dwire d" "ovs (socket_close s d) = ovs d" "ubufs (socket_close s d) = ubufs d"
  "g_HandleList (socket_send ok pkt d) = g_HandleList d" "pr_cells (socket_send ok pkt d) = pr_cells d"
  "next_cell (socket_send ok pkt d) = next_cell d" "g_NextHandleId (socket_send ok pkt d) = g_NextHandleId d"
  "open_events (socket_send ok pkt d) = open_events d" "ovs (socket_send ok pkt d) = ovs d"
  "socks (socket_send ok pkt d) = socks d" "ubufs (socket_send ok pkt d) = ubufs d"
  "driver_ok (socket_close s d) = driver_ok d" "driver_ok (socket_send ok pkt d) = driver_ok d"
  by (simp_all add: socket_close_def socket_send_def driver_ok_def)

lemma driver_ok_upds [simp]:
  "driver_ok (d\<lparr>logger := l\<rparr>) = driver_ok d" "driver_ok (d\<lparr>ovs := f\<rparr>) = driver_ok d"
  "driver_ok (d\<lparr>ubufs := g\<rparr>) = driver_ok d" "driver_ok (d\<lparr>socks := sk\<rparr>) = driver_ok d"
  "driver_ok (d\<lparr>next_sock := n, socks := sk\<rparr>) = driver_ok d"
  "driver_ok (d\<lparr>ovs := f, ubufs := g\<rparr>) = driver_ok d"
  by (simp_all add: driver_ok_def)

lemma complete_ov_simps:
  assumes "complete_ov p st n d = Some d'"
  shows "g_HandleList d' = g_HandleList d" "pr_cells d' = pr_cells d" "next_cell d' = next_cell d"
    "g_NextHandleId d' = g_NextHandleId d" "open_events d' = open_events d" "dwire d' = dwire d"
    "socks d' = socks d" "ubufs d' = ubufs d" "driver_ok d' = driver_ok d"
  using assms by (auto simp: complete_ov_def bind_eq_Some)

lemma handle_no_wrap:
  "unat x + 1 < 2 ^ 32 \<Longrightarrow> (x :: u32) < x + 1"
  by (simp add: word_less_nat_alt unat_word_ariths)

lemma AddFakeHandle_ok [inv_intros]:
  assumes "driver_ok d" "unat (g_NextHandleId d) + 1 < 2 ^ 32"
  shows "driver_ok (fst (AddFakeHandle env d))"
proof -
  let ?n = "g_NextHandleId d + 1"
  have lt: "g_NextHandleId d < ?n" using handle_no_wrap [OF assms(2)] .
  have "0x1000 \<le> g_NextHandleId d" using assms(1) by (simp add: driver_ok_def)
  then have big: "0x1000 < ?n" using lt by (rule order.strict_trans1)
  obtain qs where qs: "queues_ok (pr_cells d) (g_HandleList d) qs"
    using assms(1) by (auto simp: driver_ok_def)
  have old: "\<forall>c\<in>set (g_HandleList d). ctx_ok ?n c \<and> h c \<noteq> ?n"
    using assms(1) lt by (fastforce simp: driver_ok_def ctx_ok_def)
  have "queues_ok (pr_cells d) (new_ctx ?n # g_HandleList d) ([] # qs)"
    using qs by (simp add: queues_ok_def new_ctx_def)
  moreover have "ctx_ok ?n (new_ctx ?n)" using big by (simp add: ctx_ok_def new_ctx_def)
  ultimately show ?thesis
    using assms(1) old big qs lt
    by (auto simp: AddFakeHandle_def Let_def driver_ok_def handles_distinct_def new_ctx_def)
qed

lemma find_ctx_driver_split:
  assumes "GetHandleContext d k = Some c"
  obtains xs ys where "g_HandleList d = xs @ c # ys" "h c = k" "k \<notin> h ` set xs"
  using assms find_ctx_split by (force simp: GetHandleContext_def)

lemma RemoveFakeHandle_ok [inv_intros]:
  assumes "driver_ok d" shows "driver_ok (fst (RemoveFakeHandle k d))"
proof (cases "GetHandleContext d k")
  case None
  then show ?thesis
    using assms by (simp add: RemoveFakeHandle_def GetHandleContext_def find_ctx_None unlink_ctx_None)
next
  case (Some c)
  then obtain xs ys where l: "g_HandleList d = xs @ c # ys" "h c = k" "k \<notin> h ` set xs"
    by (rule find_ctx_driver_split)
  obtain qs where "queues_ok (pr_cells d) (xs @ c # ys) qs"
    using assms l by (auto simp: driver_ok_def)
  then obtain qs' where "queues_ok (pr_cells d) (xs @ ys) qs'" using queues_ok_remove by blast
  moreover have "ready_event c = 0" using assms l by (simp add: driver_ok_def ctx_ok_def)
  then have "fst (RemoveFakeHandle k d) = d\<lparr>g_HandleList := xs @ ys\<rparr>"
    using l unlink_ctx_split [OF l(3,2)] by (simp add: RemoveFakeHandle_def Let_def)
  ultimately show ?thesis
    using assms l by (auto simp: driver_ok_def handles_distinct_def)
qed

text \<open>One context gets a new queue in new cells.\<close>

lemma driver_ok_requeue:
  assumes "driver_ok d" "g_HandleList d = xs @ c # ys" "h c = k" "k \<notin> h ` set xs"
    "queues_ok (pr_cells d) xs qx" "queues_ok (pr_cells d) ys qy" "distinct (concat (qx @ qy))"
    "\<And>a. a \<in> set (concat (qx @ qy)) \<Longrightarrow> cs a = pr_cells d a"
    "pq_rep cs q as" "set as \<inter> set (concat (qx @ qy)) = {}"
    "\<And>a. cs a \<noteq> None \<Longrightarrow> 0 < a \<and> a < n" "next_cell d \<le> n"
  shows "driver_ok (with_ctx k (\<lambda>c. c\<lparr>queue := q\<rparr>) (d\<lparr>pr_cells := cs, next_cell := n\<rparr>))"
proof (rule driver_okI)
  let ?d = "with_ctx k (\<lambda>c. c\<lparr>queue := q\<rparr>) (d\<lparr>pr_cells := cs, next_cell := n\<rparr>)"
  have hl: "g_HandleList ?d = xs @ c\<lparr>queue := q\<rparr> # ys"
    using assms(2-4) by (simp add: with_ctx_def upd_ctx_split)
  have pc: "pr_cells ?d = cs" "next_cell ?d = n" "g_NextHandleId ?d = g_NextHandleId d"
    by (simp_all add: with_ctx_def)
  show "queues_ok (pr_cells ?d) (g_HandleList ?d) (qx @ as # qy)"
    unfolding hl pc using assms(5-10) by (intro queues_ok_replace) auto
  show "handles_distinct (g_HandleList ?d)"
    using assms(1,2) by (simp add: hl driver_ok_def handles_distinct_def)
  show "ctx_ok (g_NextHandleId ?d) x" if "x \<in> set (g_HandleList ?d)" for x
    using that assms(1,2) by (auto simp: hl pc driver_ok_def ctx_ok_def)
  show "0x1000 \<le> g_NextHandleId ?d" using assms(1) by (simp add: pc driver_ok_def)
  show "0 < a \<and> a < next_cell ?d" if "pr_cells ?d a \<noteq> None" for a
    using that assms(11) [of a] by (simp add: pc)
  show "0 < next_cell ?d" using assms(1,12) by (simp add: pc driver_ok_def)
qed

lemma read_socket_simps:
  assumes "read_socket env p d = Some (d1, s)"
  shows "g_HandleList d1 = g_HandleList d" "pr_cells d1 = pr_cells d" "next_cell d1 = next_cell d"
    "g_NextHandleId d1 = g_NextHandleId d" "open_events d1 = open_events d" "ovs d1 = ovs d"
  using assms
  by (auto simp: read_socket_def socket_new_def bind_eq_Some Let_def split: if_splits)

lemma driver_queues:
  assumes "driver_ok d" "g_HandleList d = xs @ c # ys"
  obtains qx as qy where "queues_ok (pr_cells d) xs qx" "queues_ok (pr_cells d) ys qy"
    "pq_rep (pr_cells d) (queue c) as" "distinct (concat (qx @ qy))"
    "set as \<inter> set (concat (qx @ qy)) = {}"
    "\<forall>a\<in>set as \<union> set (concat (qx @ qy)). 0 < a \<and> a < next_cell d"
proof -
  obtain qs where qs: "queues_ok (pr_cells d) (xs @ c # ys) qs"
    using assms by (auto simp: driver_ok_def)
  obtain qx as qy where q: "qs = qx @ as # qy" "queues_ok (pr_cells d) xs qx"
      "queues_ok (pr_cells d) ys qy" "pq_rep (pr_cells d) (queue c) as"
      "distinct (concat (qx @ qy))" "set as \<inter> set (concat (qx @ qy)) = {}"
    using queues_ok_mid [OF qs] by blast
  have "0 < a \<and> a < next_cell d" if "a \<in> set as \<union> set (concat (qx @ qy))" for a
    using queues_ok_live [OF qs, of a] that q(1) assms(1) by (auto simp: driver_ok_def)
  then show thesis using q that by (metis (no_types, lifting))
qed

lemma driver_ctx_queue:
  "driver_ok d \<Longrightarrow> GetHandleContext d k = Some c \<Longrightarrow> \<exists>as. pq_rep (pr_cells d) (queue c) as"
  by (meson driver_queues find_ctx_driver_split)

lemma Hook_ReadFile_ok [inv_intros]:
  assumes "driver_ok d" "Hook_ReadFile env hFile b n want p d = Some (Done d' r)"
  shows "driver_ok d'"
proof (cases "GetHandleContext d hFile")
  case None
  then show ?thesis using assms by (simp add: Hook_ReadFile_def)
next
  case (Some c)
  show ?thesis
  proof (cases "g_isAnyTAPDriverActive d \<and> p \<noteq> 0 \<and> e_heap env 20")
    case False
    then show ?thesis using assms Some by (auto simp: Hook_ReadFile_def split: if_splits)
  next
    case True
    let ?req = "next_cell d"
    obtain d1 s where rs: "read_socket env p d = Some (d1, s)"
      using assms(2) Some True by (auto simp: Hook_ReadFile_def bind_eq_Some)
    note e = read_socket_simps [OF rs]
    let ?cell = "\<lparr>ov = p, buffer = b, buflen = n, sock = s, next_pr = 0\<rparr>"
    let ?cs0 = "(pr_cells d)(?req \<mapsto> ?cell)"
    obtain xs ys where l: "g_HandleList d = xs @ c # ys" "h c = hFile" "hFile \<notin> h ` set xs"
      using Some by (rule find_ctx_driver_split)
    obtain qx as qy where q: "queues_ok (pr_cells d) xs qx" "queues_ok (pr_cells d) ys qy"
      "pq_rep (pr_cells d) (queue c) as" "distinct (concat (qx @ qy))"
      "set as \<inter> set (concat (qx @ qy)) = {}"
      "\<forall>a\<in>set as \<union> set (concat (qx @ qy)). 0 < a \<and> a < next_cell d"
      using assms(1) l(1) by (rule driver_queues)
    have fresh: "?req \<notin> set as" "?req \<notin> set (concat (qx @ qy))"
      using q(6) by (meson UnI1 UnI2 less_irrefl)+
    have pos: "0 < ?req" using assms(1) by (simp add: driver_ok_def)
    have "pq_rep ?cs0 (queue c) as" using fresh(1) q(3) by simp
    then obtain cs q' where a: "pq_append ?req ?cs0 (queue c) = Some (cs, q')"
        "pq_rep cs q' (as @ [?req])" "same_cells (set as) ?cs0 cs"
      using pq_append_rep [of ?cs0 "queue c" as ?req ?cell] fresh pos by auto
    let ?d2 = "with_ctx hFile (\<lambda>c. c\<lparr>queue := q'\<rparr>)
        (d1\<lparr>pr_cells := cs, next_cell := next_cell d1 + 1\<rparr>)"
    have "driver_ok d1" using assms(1) e by (simp add: driver_ok_def)
    moreover have "cs x = pr_cells d x" if "x \<in> set (concat (qx @ qy))" for x
    proof -
      have "x \<notin> set as" "x \<noteq> ?req" using that q(5) fresh by blast+
      then show ?thesis using a(3) by (simp add: same_cells_def)
    qed
    moreover have "0 < x \<and> x < next_cell d + 1" if "cs x \<noteq> None" for x
      using that same_cells_None [OF a(3), of x] assms(1) pos
      by (auto simp: driver_ok_def less_Suc_eq split: if_splits)
    ultimately have "driver_ok ?d2"
      using l q a(2) e fresh
      by (intro driver_ok_requeue [where as = "as @ [?req]" and qx = qx and qy = qy]) auto
    moreover obtain o1 where "d' = SetLastError ERROR_IO_PENDING
        (?d2\<lparr>ovs := (ovs ?d2)(p \<mapsto> o1\<lparr>Internal := STATUS_PENDING\<rparr>)\<rparr>)"
      using assms(2) Some True rs a(1) e
      by (auto simp: Hook_ReadFile_def bind_eq_Some Let_def)
    ultimately show ?thesis by simp
  qed
qed

text \<open>The part of the state the invariant is about.\<close>

definition core :: "driver \<Rightarrow> handle_context list \<times> cells \<times> addr \<times> u32" where
  "core d = (g_HandleList d, pr_cells d, next_cell d, g_NextHandleId d)"

lemma driver_ok_core: "core d' = core d \<Longrightarrow> driver_ok d \<Longrightarrow> driver_ok d'"
  by (simp add: core_def driver_ok_def)

lemma core_simps [simp]:
  "core (SetLastError e d) = core d" "core (SetEvent e d) = core d"
  "core (socket_close s d) = core d" "core (socket_send b pkt d) = core d"
  "core (d\<lparr>logger := l\<rparr>) = core d" "core (d\<lparr>ovs := f\<rparr>) = core d" "core (d\<lparr>socks := sk\<rparr>) = core d"
  "core (d\<lparr>ubufs := g\<rparr>) = core d" "core (snd (socket_new d)) = core d"
  by (simp_all add: core_def socket_new_def)

lemma complete_ov_core: "complete_ov p st n d = Some d' \<Longrightarrow> core d' = core d"
  by (auto simp: complete_ov_def bind_eq_Some)

lemma write_frame_core: "write_frame env b n d = Some d' \<Longrightarrow> core d' = core d"
  by (auto simp: write_frame_def bind_eq_Some Let_def case_prod_beta split: if_splits)

lemma Hook_WriteFile_core:
  assumes "Hook_WriteFile env hFile b n want p d = Some (Done d' r)"
  shows "core d' = core d"
proof -
  obtain l d1 where w: "(if g_isAnyTAPDriverActive (d\<lparr>logger := l\<rparr>) \<and> RADMIN_HEADER_SIZE \<le> n
        then Option.bind b (\<lambda>b. write_frame env b n (d\<lparr>logger := l\<rparr>))
        else Some (d\<lparr>logger := l\<rparr>)) = Some d1"
    and fin: "d' = d1 \<or> (\<exists>d2 e. complete_ov p 0 n d1 = Some d2 \<and> d' = SetEvent e d2)"
    using assms
    by (fastforce simp: Hook_WriteFile_def bind_eq_Some Let_def split: option.splits if_splits)
  have "core d1 = core d"
    using w by (auto simp: bind_eq_Some split: if_splits dest: write_frame_core)
  then show ?thesis using fin complete_ov_core by fastforce
qed

lemma Hook_WriteFile_ok [inv_intros]:
  "driver_ok d \<Longrightarrow> Hook_WriteFile env hFile b n want p d = Some (Done d' r) \<Longrightarrow> driver_ok d'"
  by (rule driver_ok_core [OF Hook_WriteFile_core])

lemma ctx_ok_mac: "ctx_ok t c \<Longrightarrow> length m = 6 \<Longrightarrow> ctx_ok t (c\<lparr>mac := m, mac_set := True\<rparr>)"
  by (simp add: ctx_ok_def)

lemma with_ctx_mac_ok:
  assumes "driver_ok d" "length m = 6"
  shows "driver_ok (with_ctx k (\<lambda>c. c\<lparr>mac := m, mac_set := True\<rparr>) d)"
proof -
  let ?f = "\<lambda>c. c\<lparr>mac := m, mac_set := True\<rparr>"
  have m: "map h (upd_ctx k ?f cs) = map h cs" for cs
    by (induction cs) auto
  have q: "list_all2 (\<lambda>c as. pq_rep f (queue c) as) cs qs \<Longrightarrow>
      list_all2 (\<lambda>c as. pq_rep f (queue c) as) (upd_ctx k ?f cs) qs" for f cs qs
    by (induction cs arbitrary: qs) (auto simp: list_all2_Cons1)
  have c: "\<forall>c\<in>set cs. ctx_ok t c \<Longrightarrow> \<forall>c\<in>set (upd_ctx k ?f cs). ctx_ok t c" for cs t
    by (induction cs) (auto intro: ctx_ok_mac assms(2))
  show ?thesis
    using assms(1) q c unfolding driver_ok_def with_ctx_def handles_distinct_def queues_ok_def
    by (simp add: m) blast
qed

lemma ioctl_switch_ok:
  assumes "driver_ok d" "ioctl_switch env k code ib ni ob no d = Some (d', ok, n, ob')"
  shows "driver_ok d'"
proof (cases "code = 0x228014 \<and> ni = 6")
  case True
  then show ?thesis
    using assms
    by (auto simp: ioctl_switch_def bind_eq_Some intro!: with_ctx_mac_ok dest: mem_read_length)
next
  case False
  then have "core d' = core d"
    using assms(2)
    by (auto simp: ioctl_switch_def GetFakeMacAddress_def bind_eq_Some Let_def split: if_splits)
  then show ?thesis using assms(1) by (rule driver_ok_core)
qed

lemma Hook_DeviceIoControl_ok [inv_intros]:
  assumes "driver_ok d"
    "Hook_DeviceIoControl env k code ib ni ob no want p d = Some (Done d' r)"
  shows "driver_ok d'"
proof -
  obtain c where c: "GetHandleContext d k = Some c"
    using assms(2) by (cases "GetHandleContext d k") (auto simp: Hook_DeviceIoControl_def)
  obtain l d1 ok n ob' where sw: "ioctl_switch env k code ib ni ob no (d\<lparr>logger := l\<rparr>) =
      Some (d1, ok, n, ob')"
    and fin: "(if p \<noteq> 0
        then Option.bind (complete_ov p (if ok then 0 else ERROR_INVALID_PARAMETER) n d1)
          (\<lambda>d2. Some (if event_of d2 p \<noteq> 0 then SetEvent (event_of d2 p) d2 else d2))
        else Some d1) = Some d'"
    using assms(2) c unfolding Hook_DeviceIoControl_def by (clarsimp simp: bind_eq_Some)
  have fin: "core d' = core d1"
    using fin by (auto simp: bind_eq_Some dest: complete_ov_core split: if_splits)
  have "driver_ok d1" using ioctl_switch_ok [OF _ sw] assms(1) by simp
  then show ?thesis using driver_ok_core [OF fin] by simp
qed

lemma pq_take_cases:
  assumes "pq_rep cs q as"
  obtains (miss) "pq_take k cs q = Some (0, cs, q)" "\<forall>a\<in>set as. map_option ov (cs a) \<noteq> Some k"
  | (hit) bs a ds cs' q' r where "as = bs @ a # ds" "a \<noteq> 0" "cs a = Some r" "ov r = k"
      "pq_take k cs q = Some (a, cs', q')" "pq_rep cs' q' (bs @ ds)" "same_cells (set bs) cs cs'"
proof (cases "\<exists>a\<in>set as. map_option ov (cs a) = Some k")
  case False
  then show thesis using pq_take_miss [OF assms] miss by blast
next
  case True
  then obtain bs a ds where s: "as = bs @ a # ds" "map_option ov (cs a) = Some k"
      "\<forall>b\<in>set bs. map_option ov (cs b) \<noteq> Some k"
    using split_list_first_prop [of as "\<lambda>a. map_option ov (cs a) = Some k"] by blast
  obtain cs' q' where t: "pq_take k cs q = Some (a, cs', q')" "pq_rep cs' q' (bs @ ds)"
      "same_cells (set bs) cs cs'"
    using pq_take_hit [of cs q bs a ds k] assms s by blast
  have "a \<noteq> 0" using assms s(1) chain_cells by (fastforce simp: pq_rep_def)
  then show thesis using hit s t by blast
qed

text \<open>
  The queue of one handle goes from \<open>as\<close> to \<open>as'\<close> in new cells that leave the other queues
  alone.
\<close>

lemma driver_ok_swap:
  assumes "driver_ok d" "GetHandleContext d k = Some c" "pq_rep (pr_cells d) (queue c) as"
    "\<And>a. a \<notin> set as \<Longrightarrow> cs a = pr_cells d a"
    "\<And>a. cs a \<noteq> None \<Longrightarrow> pr_cells d a \<noteq> None"
    "pq_rep cs q as'" "set as' \<subseteq> set as"
  shows "driver_ok (with_ctx k (\<lambda>c. c\<lparr>queue := q\<rparr>) (d\<lparr>pr_cells := cs\<rparr>))"
proof -
  obtain xs ys where l: "g_HandleList d = xs @ c # ys" "h c = k" "k \<notin> h ` set xs"
    using assms(2) by (rule find_ctx_driver_split)
  obtain qx bs qy where q: "queues_ok (pr_cells d) xs qx" "queues_ok (pr_cells d) ys qy"
    "pq_rep (pr_cells d) (queue c) bs" "distinct (concat (qx @ qy))"
    "set bs \<inter> set (concat (qx @ qy)) = {}"
    "\<forall>a\<in>set bs \<union> set (concat (qx @ qy)). 0 < a \<and> a < next_cell d"
    using assms(1) l(1) by (rule driver_queues)
  have "bs = as" using pq_rep_unique [OF q(3) assms(3)] .
  then have dis: "set as \<inter> set (concat (qx @ qy)) = {}" using q(5) by simp
  have "driver_ok (with_ctx k (\<lambda>c. c\<lparr>queue := q\<rparr>) (d\<lparr>pr_cells := cs, next_cell := next_cell d\<rparr>))"
  proof (rule driver_ok_requeue [OF assms(1) l q(1,2,4) _ assms(6)])
    show "cs a = pr_cells d a" if "a \<in> set (concat (qx @ qy))" for a
      using that dis by (intro assms(4)) blast
    show "set as' \<inter> set (concat (qx @ qy)) = {}" using dis assms(7) by blast
    show "0 < a \<and> a < next_cell d" if "cs a \<noteq> None" for a
      using assms(5) [OF that] assms(1) by (simp add: driver_ok_def)
  qed simp
  then show ?thesis by (simp add: driver_ok_def with_ctx_def)
qed

lemma with_ctx_queue_twice:
  "upd_ctx k (\<lambda>c. c\<lparr>queue := q'\<rparr>) (upd_ctx k (\<lambda>c. c\<lparr>queue := q\<rparr>) cs) =
   upd_ctx k (\<lambda>c. c\<lparr>queue := q'\<rparr>) cs"
  by (simp add: upd_ctx_upd)

lemma recv_request_core: "recv_request c r d = Some (d', eth) \<Longrightarrow> core d' = core d"
  by (auto simp: recv_request_def bind_eq_Some split: option.splits)

lemma complete_read_core:
  assumes "complete_read p a r eth d = Some (d', n)"
  shows "core d' = (g_HandleList d, (pr_cells d)(a := None), next_cell d, g_NextHandleId d)"
proof -
  obtain ub' m d1 where c: "complete_ov p 0 m (d\<lparr>ubufs := (ubufs d)(buffer r \<mapsto> ub')\<rparr>) = Some d1"
    and d': "d' = (let d3 = (case sock r of Some s \<Rightarrow> socket_close s
          (if event_of d1 p \<noteq> 0 then SetEvent (event_of d1 p) d1 else d1)
        | None \<Rightarrow> (if event_of d1 p \<noteq> 0 then SetEvent (event_of d1 p) d1 else d1))
      in d3\<lparr>pr_cells := (pr_cells d3)(a := None)\<rparr>)"
    using assms by (auto simp: complete_read_def bind_eq_Some Let_def)
  show ?thesis
    using complete_ov_simps [OF c] d' by (auto simp: core_def Let_def split: option.splits)
qed

text \<open>The queue and the cells after the attempt on a request that was found.\<close>

definition queue_swapped :: "u32 \<Rightarrow> driver \<Rightarrow> addr list \<Rightarrow> addr list \<Rightarrow> driver \<Rightarrow> bool" where
  "queue_swapped k d as as' d' \<longleftrightarrow> (\<exists>cs q.
     core d' = core (with_ctx k (\<lambda>c. c\<lparr>queue := q\<rparr>) (d\<lparr>pr_cells := cs\<rparr>)) \<and> pq_rep cs q as' \<and>
     (\<forall>a. a \<notin> set as \<longrightarrow> cs a = pr_cells d a) \<and> (\<forall>a. cs a \<noteq> None \<longrightarrow> pr_cells d a \<noteq> None))"

lemma queue_swapped_ok:
  assumes "queue_swapped k d as as' d'" "driver_ok d" "GetHandleContext d k = Some c"
    "pq_rep (pr_cells d) (queue c) as" "set as' \<subseteq> set as"
  shows "driver_ok d'"
proof -
  obtain cs q where s: "core d' = core (with_ctx k (\<lambda>c. c\<lparr>queue := q\<rparr>) (d\<lparr>pr_cells := cs\<rparr>))"
      "pq_rep cs q as'" "\<forall>a. a \<notin> set as \<longrightarrow> cs a = pr_cells d a"
      "\<forall>a. cs a \<noteq> None \<longrightarrow> pr_cells d a \<noteq> None"
    using assms(1) unfolding queue_swapped_def by blast
  show ?thesis
    by (rule driver_ok_core [OF s(1) driver_ok_swap [OF assms(2-4) _ _ s(2) assms(5)]])
      (use s(3,4) in blast)+
qed

lemma give_back_swapped:
  assumes "give_back k a q d2 = Some d'" "core d2 = core (with_ctx k (\<lambda>c. c\<lparr>queue := q\<rparr>) (d\<lparr>pr_cells := cs\<rparr>))"
    "pq_rep cs q (bs @ ds)" "same_cells (set bs) (pr_cells d) cs" "pr_cells d a \<noteq> None"
    "a \<noteq> 0" "a \<notin> set (bs @ ds)"
  shows "queue_swapped k d (bs @ a # ds) (bs @ ds @ [a]) d'"
proof -
  have d2: "g_HandleList d2 = upd_ctx k (\<lambda>c. c\<lparr>queue := q\<rparr>) (g_HandleList d)"
      "pr_cells d2 = cs" "next_cell d2 = next_cell d" "g_NextHandleId d2 = g_NextHandleId d"
    using assms(2) by (simp_all add: core_def with_ctx_def)
  have "cs a \<noteq> None" using same_cells_None [OF assms(4), of a] assms(5) by blast
  then obtain cs' q' where b: "pq_requeue a cs q = Some (cs', q')" "pq_rep cs' q' ((bs @ ds) @ [a])"
      "same_cells (insert a (set (bs @ ds))) cs cs'"
    using pq_requeue_rep [OF assms(3) _ assms(6,7)] by blast
  have same: "same_cells (set (bs @ a # ds)) (pr_cells d) cs'"
    by (rule same_cells_trans [OF same_cells_mono [OF assms(4)] same_cells_mono [OF b(3)]]) auto
  have "core d' = core (with_ctx k (\<lambda>c. c\<lparr>queue := q'\<rparr>) (d\<lparr>pr_cells := cs'\<rparr>))"
    using assms(1) b(1) d2
    by (auto simp: give_back_def core_def with_ctx_def with_ctx_queue_twice)
  then show ?thesis
    unfolding queue_swapped_def using b(2) same same_cells_None [OF same]
    by (intro exI [of _ cs'] exI [of _ q']) (auto simp: same_cells_def simp del: not_None_eq)
qed

lemma complete_read_swapped:
  assumes "complete_read p a r eth d2 = Some (d', n)"
    "core d2 = core (with_ctx k (\<lambda>c. c\<lparr>queue := q\<rparr>) (d\<lparr>pr_cells := cs\<rparr>))"
    "pq_rep cs q (bs @ ds)" "same_cells (set bs) (pr_cells d) cs" "a \<notin> set (bs @ ds)"
  shows "queue_swapped k d (bs @ a # ds) (bs @ ds) d'"
proof -
  have "core d' = core (with_ctx k (\<lambda>c. c\<lparr>queue := q\<rparr>) (d\<lparr>pr_cells := cs(a := None)\<rparr>))"
    using complete_read_core [OF assms(1)] assms(2) by (simp add: core_def with_ctx_def)
  moreover have "pq_rep (cs(a := None)) q (bs @ ds)" using assms(3,5) by simp
  ultimately show ?thesis
    unfolding queue_swapped_def using assms(4) same_cells_None [OF assms(4)]
    by (intro exI [of _ "cs(a := None)"] exI [of _ q])
      (auto simp: same_cells_def simp del: not_None_eq)
qed

lemma Hook_GetOverlappedResult_unfold:
  assumes "GetHandleContext d k = Some c" "deref_ov d p = Some o1" "Internal o1 = STATUS_PENDING"
    "pq_take p (pr_cells d) (queue c) = Some (a, cs, q)" "a \<noteq> 0" "cs a = Some r"
  shows "Hook_GetOverlappedResult k p want d =
    Option.bind (recv_request c r (with_ctx k (\<lambda>c. c\<lparr>queue := q\<rparr>) (d\<lparr>pr_cells := cs\<rparr>)))
      (\<lambda>(d2, eth). case eth of
         None \<Rightarrow> map_option (\<lambda>d3. Done d3 (io False None)) (give_back k a q d2)
       | Some frame \<Rightarrow> map_option (\<lambda>(d3, n). Done d3 (io True (opt_out want n)))
                        (complete_read p a r frame d2))"
  using assms
  by (auto simp: Hook_GetOverlappedResult_def Let_def map_conv_bind_option case_prod_beta
      intro!: Option.bind_cong split: option.split)

lemma pq_take_hit_cell:
  assumes "pq_rep cs q (bs @ a # ds)" "same_cells (set bs) cs cs'"
  shows "cs' a = cs a" "a \<notin> set (bs @ ds)"
  using assms by (auto simp: pq_rep_def same_cells_def)

lemma Hook_GetOverlappedResult_ok [inv_intros]:
  assumes "driver_ok d" "Hook_GetOverlappedResult k p want d = Some (Done d' r)"
  shows "driver_ok d'"
proof -
  obtain c where c: "GetHandleContext d k = Some c"
    using assms(2) by (cases "GetHandleContext d k") (auto simp: Hook_GetOverlappedResult_def)
  obtain o1 where o1: "deref_ov d p = Some o1"
    using assms(2) c by (auto simp: Hook_GetOverlappedResult_def bind_eq_Some)
  obtain as where as: "pq_rep (pr_cells d) (queue c) as"
    using driver_ctx_queue [OF assms(1) c] by blast
  show ?thesis
  proof (cases "Internal o1 = STATUS_PENDING")
    case True
    show ?thesis
    using as proof (cases rule: pq_take_cases [where k = p])
      case miss
      then show ?thesis using assms c o1 True by (auto simp: Hook_GetOverlappedResult_def)
    next
      case (hit bs a ds cs q rq)
      note cell = pq_take_hit_cell [OF as [unfolded hit(1)] hit(7)]
      obtain d2 eth where
        rr: "recv_request c rq (with_ctx k (\<lambda>c. c\<lparr>queue := q\<rparr>) (d\<lparr>pr_cells := cs\<rparr>)) = Some (d2, eth)"
        and fin: "(case eth of None \<Rightarrow> map_option (\<lambda>d3. Done d3 (io False None)) (give_back k a q d2)
          | Some frame \<Rightarrow> map_option (\<lambda>(d3, n). Done d3 (io True (opt_out want n)))
              (complete_read p a rq frame d2)) = Some (Done d' r)"
        using assms(2) Hook_GetOverlappedResult_unfold [OF c o1 True hit(5,2)] cell hit(3)
        by (clarsimp simp: bind_eq_Some)
      note core2 = recv_request_core [OF rr]
      have "queue_swapped k d as (bs @ ds @ [a]) d' \<or> queue_swapped k d as (bs @ ds) d'"
        using fin give_back_swapped [OF _ core2 hit(6,7) _ hit(2) cell(2)]
          complete_read_swapped [OF _ core2 hit(6,7) cell(2)] hit(1,3)
        by (cases eth) auto
      moreover have "set (bs @ ds @ [a]) \<subseteq> set as" "set (bs @ ds) \<subseteq> set as" using hit(1) by auto
      ultimately show ?thesis using queue_swapped_ok [OF _ assms(1) c as] by blast
    qed
  qed (use assms c o1 in \<open>auto simp: Hook_GetOverlappedResult_def\<close>)
qed

section \<open>Reachable states\<close>

definition after_call :: "driver \<Rightarrow> 'r hook \<Rightarrow> driver" where
  "after_call d r = (case r of Forward \<Rightarrow> d | Done d' _ \<Rightarrow> d')"

text \<open>
  The steps: the hooked calls with any arguments and any answers of the environment, a
  datagram arriving at a socket, and the program writing its own memory.  Opening assumes
  that the 32-bit handle counter does not wrap around.
\<close>

inductive dev_step :: "driver \<Rightarrow> driver \<Rightarrow> bool" where
  st_create: "unat (g_NextHandleId d) + 1 < 2 ^ 32 \<Longrightarrow>
    dev_step d (after_call d (Hook_CreateFileW env nm d))"
| st_close: "dev_step d (after_call d (Hook_CloseHandle k d))"
| st_read: "Hook_ReadFile env k b n want p d = Some r \<Longrightarrow> dev_step d (after_call d r)"
| st_write: "Hook_WriteFile env k ub n want p d = Some r \<Longrightarrow> dev_step d (after_call d r)"
| st_ioctl: "Hook_DeviceIoControl env k code ib ni ob no want p d = Some r' \<Longrightarrow>
    dev_step d (after_call d r')"
| st_get_result: "Hook_GetOverlappedResult k p want d = Some r \<Longrightarrow> dev_step d (after_call d r)"
| st_packet: "socks d s = Some items \<Longrightarrow> dev_step d (d\<lparr>socks := (socks d)(s \<mapsto> items @ [i])\<rparr>)"
| st_memory: "dev_step d (d\<lparr>ovs := f, ubufs := g\<rparr>)"

inductive dev_reach :: "driver \<Rightarrow> bool" where
  init: "dev_reach (driver_initial i l)"
| step: "dev_reach d \<Longrightarrow> dev_step d d' \<Longrightarrow> dev_reach d'"

inductive_cases dev_stepE: "dev_step d d'"

lemma Hook_CreateFileW_ok [inv_intros]:
  assumes "driver_ok d" "unat (g_NextHandleId d) + 1 < 2 ^ 32"
    "Hook_CreateFileW env nm d = Done d' r"
  shows "driver_ok d'"
  using AddFakeHandle_ok [OF assms(1,2), of env] assms(3)
  by (auto simp: Hook_CreateFileW_def split: if_splits prod.splits option.splits)

lemma Hook_CloseHandle_ok [inv_intros]:
  "driver_ok d \<Longrightarrow> Hook_CloseHandle k d = Done d' r \<Longrightarrow> driver_ok d'"
  using RemoveFakeHandle_ok [of d k] by (auto simp: Hook_CloseHandle_def split: option.splits)

lemma driver_initial_ok: "driver_ok (driver_initial i l)"
  by (auto simp: driver_ok_def driver_initial_def queues_ok_def handles_distinct_def
      intro!: exI [of _ "[]"])

lemma dev_step_ok [inv_intros]: "dev_step d d' \<Longrightarrow> driver_ok d \<Longrightarrow> driver_ok d'"
  by (erule dev_stepE)
    (auto simp: after_call_def split: hook.splits intro: inv_intros)

lemma dev_reach_ok: "dev_reach d \<Longrightarrow> driver_ok d"
  by (induction rule: dev_reach.induct) (auto intro: driver_initial_ok dev_step_ok)


definition env_ok :: dev_env where
  "env_ok = \<lparr>e_heap = (\<lambda>_. True), e_event = True, e_socket = True, e_connect = True, e_send = True,
     e_time = \<lparr>wHour = 0, wMinute = 0, wSecond = 0, wMilliseconds = 0\<rparr>\<rparr>"

definition quiet :: logger where
  "quiet = \<lparr>g_LoggingEnabled = False, g_LogFile = None, g_Console = None\<rparr>"

definition opened :: driver where
  "opened = after_call (driver_initial identity_initial quiet)
     (Hook_CreateFileW env_ok (Some DEVICE_NAME) (driver_initial identity_initial quiet))"

lemma opened_eq:
  "opened = (driver_initial identity_initial quiet)\<lparr>g_NextHandleId := 0x1001, open_events := 1,
     g_HandleList := [new_ctx 0x1001]\<rparr>"
  by (simp add: opened_def after_call_def Hook_CreateFileW_def AddFakeHandle_def env_ok_def
      driver_initial_def Let_def)

lemma opened_reach: "dev_reach opened"
proof -
  have "dev_step (driver_initial identity_initial quiet) opened"
    unfolding opened_def by (rule st_create) (simp add: driver_initial_def)
  then show ?thesis by (rule dev_reach.step [OF dev_reach.init])
qed


text \<open>A device that is opened and closed leaks its event: \<open>AddFakeHandle\<close> stores the event
  handle before it clears the structure, so \<open>RemoveFakeHandle\<close> finds no event to close and
  the number of open events only grows.\<close>

theorem ready_event_leaks:
  assumes "e_heap env 48" "e_event env"
  shows "\<exists>d1 k d2. Hook_CreateFileW env (Some DEVICE_NAME) d = Done d1 k \<and>
    Hook_CloseHandle k d1 = Done d2 True \<and> g_HandleList d2 = g_HandleList d \<and>
    open_events d2 = open_events d + 1"
  using assms
  by (auto simp: Hook_CreateFileW_def AddFakeHandle_def Hook_CloseHandle_def GetHandleContext_def
      RemoveFakeHandle_def new_ctx_def Let_def)

theorem ready_event_leaks_witness:
  "\<exists>d1 k d2. Hook_CreateFileW env_ok (Some DEVICE_NAME) (driver_initial identity_initial quiet) =
      Done d1 k \<and> Hook_CloseHandle k d1 = Done d2 True \<and> open_events d2 = 1"
  using ready_event_leaks [of env_ok "driver_initial identity_initial quiet"]
  by (auto simp: env_ok_def driver_initial_def)

section \<open>Writing frames\<close>

lemma write_frame_eq:
  assumes "8 \<le> length b"
  shows "write_frame env b n d =
    (let fl = radmin_header_read (take 8 b) in
     if fl + 8 \<le> n
     then if \<not> e_socket env then Some d
       else if e_connect env \<and> e_heap env (1 + fl)
       then if unat fl < 2 ^ 32 - 1 \<and> 8 + unat fl \<le> length b
         then Some (socket_close (next_sock d) (socket_send (e_send env)
                (0x00 # take (unat fl) (drop 8 b)) (snd (socket_new d))))
         else None
       else Some (socket_close (next_sock d) (snd (socket_new d)))
     else Some d)"
proof -
  define fl where "fl = radmin_header_read (take 8 b)"
  have hdr: "mem_read b 0 8 = Some (take 8 b)" using assms by (simp add: mem_read_def)
  have u: "unat (1 + fl) = (if unat fl < 2 ^ 32 - 1 then unat fl + 1 else 0)"
  proof (cases "unat fl < 2 ^ 32 - 1")
    case False
    then have "unat fl = 4294967295"
      using unsigned_less [of fl, where ?'a = nat] by simp
    then show ?thesis by (simp add: unat_word_ariths)
  qed (simp add: unat_word_ariths)
  have w: "mem_write (replicate (unat (1 + fl)) (0 :: u8)) 0 [0] =
      (if unat fl < 2 ^ 32 - 1 then Some (replicate (unat (1 + fl)) 0) else None)"
    using u by (auto simp: mem_write_def)
  have w2: "unat fl < 2 ^ 32 - 1 \<Longrightarrow> length fr = unat fl \<Longrightarrow>
      mem_write (replicate (unat (1 + fl)) 0) 1 fr = Some (0 # fr)" for fr :: bytes
    using u by (simp add: mem_write_def)
  have "mem_read b 8 (unat fl) = (if 8 + unat fl \<le> length b then Some (take (unat fl) (drop 8 b)) else None)"
    by (simp add: mem_read_def)
  then show ?thesis
    using hdr w w2 assms
    by (simp add: write_frame_def fl_def [symmetric] Let_def RADMIN_HEADER_SIZE_def socket_new_def)
qed

lemma Hook_WriteFile_eq:
  assumes "GetHandleContext d k = Some c" "g_isAnyTAPDriverActive d" "length b = unat n" "8 \<le> n"
    "p \<noteq> 0 \<longrightarrow> ovs d p \<noteq> None"
  shows "\<exists>l. Hook_WriteFile env k (Some b) n want p d =
    (case write_frame env b n (d\<lparr>logger := l\<rparr>) of
       None \<Rightarrow> None
     | Some d1 \<Rightarrow>
         Some (Done (if p = 0 then d1 else SetEvent (hEvent (the (ovs d p)))
                 (d1\<lparr>ovs := (ovs d1)(p \<mapsto> (the (ovs d p))\<lparr>Internal := 0, InternalHigh := n\<rparr>)\<rparr>))
           (io True (opt_out want n))))"
proof -
  have "min (unat (min n 64)) hex_limit \<le> length b"
    using assms(3) by (simp add: min_def word_le_nat_alt)
  then obtain l where l: "LogHex (e_time env) (Some b) (min n 64) (str ''  Data'') (logger d) = Some l"
    using LogHex_defined by blast
  have o: "ovs d1 = ovs d" if "write_frame env b n (d\<lparr>logger := l\<rparr>) = Some d1" for d1
    using that
    by (auto simp: write_frame_def bind_eq_Some Let_def case_prod_beta socket_new_def split: if_splits)
  show ?thesis
    using assms l o
    by (intro exI [of _ l])
      (auto simp: Hook_WriteFile_def RADMIN_HEADER_SIZE_def complete_ov_def deref_ov_def event_of_def
        split: option.split)
qed

text \<open>The datagram of a successful WriteFile.\<close>

lemma Hook_WriteFile_datagram:
  assumes "GetHandleContext d k = Some c" "g_isAnyTAPDriverActive d"
    "b = radmin_header_write (of_nat (length frame)) @ frame @ padding"
    "length b < 2 ^ 32 - 1" "p \<noteq> 0 \<longrightarrow> ovs d p \<noteq> None"
    "e_heap env (1 + of_nat (length frame))" "e_socket env" "e_connect env" "e_send env"
  shows "\<exists>d'. Hook_WriteFile env k (Some b) (of_nat (length b)) want p d =
      Some (Done d' (io True (opt_out want (of_nat (length b))))) \<and>
    dwire d' = dwire d @ [(tap_addr d, tap_port d, 0x00 # frame)] \<and>
    (p \<noteq> 0 \<longrightarrow> (\<exists>o1. ovs d' p = Some o1 \<and> Internal o1 = 0 \<and> InternalHigh o1 = of_nat (length b))) \<and>
    socks d' (next_sock d) = None \<and> (\<forall>s. s \<noteq> next_sock d \<longrightarrow> socks d' s = socks d s)"
proof -
  let ?n = "of_nat (length b) :: u32" and ?fl = "of_nat (length frame) :: u32"
  have un: "unat ?n = length b" using assms(4) by simp
  have uf: "unat ?fl = length frame" using assms(3,4) by simp
  have n8: "8 \<le> ?n" using un assms(3) by (simp add: word_le_nat_alt)
  have hdr: "radmin_header_read (take 8 b) = ?fl"
    using assms(3) radmin_header_read_write [of ?fl "[]"] by simp
  have le: "?fl + 8 \<le> ?n"
    using uf un assms(3,4) by (simp add: word_le_nat_alt unat_word_ariths)
  obtain l where eq: "Hook_WriteFile env k (Some b) ?n want p d =
    (case write_frame env b ?n (d\<lparr>logger := l\<rparr>) of
       None \<Rightarrow> None
     | Some d1 \<Rightarrow>
         Some (Done (if p = 0 then d1 else SetEvent (hEvent (the (ovs d p)))
                 (d1\<lparr>ovs := (ovs d1)(p \<mapsto> (the (ovs d p))\<lparr>Internal := 0, InternalHigh := ?n\<rparr>)\<rparr>))
           (io True (opt_out want ?n))))"
    using Hook_WriteFile_eq [OF assms(1,2) un [symmetric] n8 assms(5)] by blast
  have "write_frame env b ?n (d\<lparr>logger := l\<rparr>) =
      Some (socket_close (next_sock d) (socket_send True (0x00 # frame)
        (snd (socket_new (d\<lparr>logger := l\<rparr>)))))"
    using hdr le uf assms(3,4,6-9) by (simp add: write_frame_eq Let_def)
  then show ?thesis
    unfolding eq by (auto simp: socket_close_def socket_send_def socket_new_def SetEvent_def)
qed

text \<open>C2. Writing a frame to the device: a buffer that holds the 8-byte header for a frame, the
  frame and any padding is accepted with all its bytes acknowledged, the OVERLAPPED
  completes, and when the sockets cooperate exactly one datagram goes to the configured
  bridge: the byte 0x00 followed by the frame, without header and padding.  No socket is
  left open.\<close>

theorem Hook_WriteFile_sends_frame:
  assumes "GetHandleContext d k = Some c" "g_isAnyTAPDriverActive d"
    "b = radmin_header_write (of_nat (length frame)) @ frame @ padding"
    "length b < 2 ^ 32 - 1" "p \<noteq> 0 \<longrightarrow> ovs d p \<noteq> None"
    "e_heap env (1 + of_nat (length frame))" "e_socket env" "e_connect env" "e_send env"
  shows "\<exists>d'. Hook_WriteFile env k (Some b) (of_nat (length b)) want p d =
      Some (Done d' (io True (opt_out want (of_nat (length b))))) \<and>
    dwire d' = dwire d @ [(tap_addr d, tap_port d, 0x00 # frame)] \<and>
    (p \<noteq> 0 \<longrightarrow> (\<exists>o1. ovs d' p = Some o1 \<and> Internal o1 = 0 \<and> InternalHigh o1 = of_nat (length b))) \<and>
    socks d' (next_sock d) = None \<and> (\<forall>s. s \<noteq> next_sock d \<longrightarrow> socks d' s = socks d s)"
  by (rule Hook_WriteFile_datagram [OF assms])


definition online :: driver where
  "online = opened\<lparr>g_isAnyTAPDriverActive := True, tap_addr := str ''127.0.0.1'', tap_port := 4242\<rparr>"

lemma online_ctx: "GetHandleContext online 0x1001 = Some (new_ctx 0x1001)" "g_isAnyTAPDriverActive online"
  by (simp_all add: online_def opened_eq GetHandleContext_def new_ctx_def)

theorem Hook_WriteFile_sends_frame_witness:
  "\<exists>d'. Hook_WriteFile env_ok 0x1001 (Some (radmin_header_write 2 @ [0xAA, 0xBB] @ [0])) 11 True 0 online =
      Some (Done d' (io True (Some 11))) \<and>
    dwire d' = [(str ''127.0.0.1'', 4242, [0, 0xAA, 0xBB])]"
  using Hook_WriteFile_sends_frame [OF online_ctx refl, of "[0xAA, 0xBB]" "[0]" 0 env_ok True]
  by (auto simp: env_ok_def online_def opened_eq driver_initial_def opt_out_def)

text \<open>C40. The length check of WriteFile wraps around: for a buffer of the announced size, the
  call leaves its memory exactly when the header announces a frame of at least 0xFFFFFFF8
  bytes, whose sum with 8 is small again, and socket, connection and allocation succeed.
  In all other cases it is defined and returns TRUE.\<close>

theorem Hook_WriteFile_fault_iff:
  assumes "GetHandleContext d k = Some c" "g_isAnyTAPDriverActive d" "length b = unat n" "8 \<le> n"
    "p \<noteq> 0 \<longrightarrow> ovs d p \<noteq> None"
  shows "Hook_WriteFile env k (Some b) n want p d = None \<longleftrightarrow>
    0xFFFFFFF8 \<le> radmin_header_read (take 8 b) \<and> e_socket env \<and> e_connect env \<and>
    e_heap env (1 + radmin_header_read (take 8 b))"
proof -
  define fl where "fl = radmin_header_read (take 8 b)"
  have b8: "8 \<le> length b" using assms(3,4) by (simp add: word_le_nat_alt)
  have big: "unat fl < 2 ^ 32" "unat n < 2 ^ 32"
    using unsigned_less [of fl, where ?'a = nat] unsigned_less [of n, where ?'a = nat] by simp_all
  have sum: "unat (fl + 8) = (if 0xFFFFFFF8 \<le> fl then unat fl + 8 - 2 ^ 32 else unat fl + 8)"
    using big(1) by (auto simp: unat_word_ariths word_le_nat_alt mod_if)
  have small: "fl + 8 \<le> n" if "0xFFFFFFF8 \<le> fl"
    using that sum big assms(4) by (simp add: word_le_nat_alt)
  have bounds: "fl + 8 \<le> n \<Longrightarrow> (unat fl < 2 ^ 32 - 1 \<and> 8 + unat fl \<le> length b) =
      (\<not> 0xFFFFFFF8 \<le> fl)"
    using sum big assms(3) by (auto simp: word_le_nat_alt split: if_splits)
  obtain l where eq: "Hook_WriteFile env k (Some b) n want p d =
    (case write_frame env b n (d\<lparr>logger := l\<rparr>) of
       None \<Rightarrow> None
     | Some d1 \<Rightarrow>
         Some (Done (if p = 0 then d1 else SetEvent (hEvent (the (ovs d p)))
                 (d1\<lparr>ovs := (ovs d1)(p \<mapsto> (the (ovs d p))\<lparr>Internal := 0, InternalHigh := n\<rparr>)\<rparr>))
           (io True (opt_out want n))))"
    using Hook_WriteFile_eq [OF assms] by blast
  have "Hook_WriteFile env k (Some b) n want p d = None \<longleftrightarrow>
      write_frame env b n (d\<lparr>logger := l\<rparr>) = None"
    unfolding eq by (simp split: option.split)
  also have "\<dots> \<longleftrightarrow> 0xFFFFFFF8 \<le> fl \<and> e_socket env \<and> e_connect env \<and> e_heap env (1 + fl)"
    unfolding write_frame_eq [OF b8] fl_def [symmetric] Let_def
    using small bounds by auto
  finally show ?thesis unfolding fl_def .
qed

theorem Hook_WriteFile_fault_iff_witness:
  "Hook_WriteFile env_ok 0x1001 (Some (radmin_header_write 0xFFFFFFFF)) 8 True 0 online = None"
  using Hook_WriteFile_fault_iff [OF online_ctx, of "radmin_header_write 0xFFFFFFFF" 8 0 env_ok True]
    radmin_header_read_write [of "0xFFFFFFFF" "[]"]
  by (simp add: env_ok_def)

section \<open>Reading frames\<close>

definition frame_matches :: "bytes \<Rightarrow> handle_context \<Rightarrow> bool" where
  "frame_matches eth c \<longleftrightarrow> mac_set c \<and> (take 6 eth = mac c \<or> bit (eth ! 0) 0)"

lemma is_mac_match_eq:
  "6 \<le> length eth \<Longrightarrow> is_mac_match eth c = Some (frame_matches eth c)"
  by (auto simp: is_mac_match_def frame_matches_def mem_read_def)

lemma recv_loop_defined: "recv_loop c items \<noteq> None"
  by (induction c items rule: recv_loop.induct) (auto simp: is_mac_match_eq)

lemma recv_request_defined: "recv_request c r d \<noteq> None"
proof (cases "sock r")
  case (Some s)
  then show ?thesis
    using recv_loop_defined [of c "the (socks d s)"]
    by (cases "socks d s") (auto simp: recv_request_def)
qed (simp add: recv_request_def)

lemma recv_loop_skip:
  "\<forall>f\<in>set bads. 14 \<le> length f \<and> length f \<le> 2048 \<and> \<not> frame_matches (drop 1 f) c \<Longrightarrow>
   recv_loop c (map RI_Data bads @ items) = recv_loop c items"
  by (induction bads) (auto simp: is_mac_match_eq)

lemma recv_loop_hit:
  "14 \<le> length f \<Longrightarrow> length f \<le> 2048 \<Longrightarrow> frame_matches (drop 1 f) c \<Longrightarrow>
   recv_loop c (RI_Data f # items) = Some (items, Some (drop 1 f))"
  by (simp add: is_mac_match_eq)

text \<open>What the loop delivers is always a matching frame of 13 to 2047 bytes.\<close>

lemma recv_loop_result:
  "recv_loop c items = Some (rest, Some eth) \<Longrightarrow>
   frame_matches eth c \<and> 13 \<le> length eth \<and> length eth \<le> 2047"
  by (induction c items arbitrary: rest rule: recv_loop.induct)
    (auto simp: is_mac_match_eq split: if_splits)

definition pending_on :: "driver \<Rightarrow> u32 \<Rightarrow> u32 \<Rightarrow> addr list \<Rightarrow> addr \<Rightarrow> addr list \<Rightarrow> pending_read \<Rightarrow> bool" where
  \<comment> \<open>on handle \<open>k\<close> the oldest request for the OVERLAPPED \<open>p\<close> is \<open>a\<close>, between \<open>bs\<close> and \<open>ds\<close>\<close>
  "pending_on d k p bs a ds r \<longleftrightarrow>
     (\<exists>c. GetHandleContext d k = Some c \<and> pq_rep (pr_cells d) (queue c) (bs @ a # ds)) \<and>
     (\<exists>o1. deref_ov d p = Some o1 \<and> Internal o1 = STATUS_PENDING) \<and>
     pr_cells d a = Some r \<and> ov r = p \<and> (\<forall>b\<in>set bs. map_option ov (pr_cells d b) \<noteq> Some p)"

definition queue_is :: "driver \<Rightarrow> u32 \<Rightarrow> addr list \<Rightarrow> bool" where
  "queue_is d k as \<longleftrightarrow> (\<exists>c. GetHandleContext d k = Some c \<and> pq_rep (pr_cells d) (queue c) as)"

lemma GetHandleContext_with_ctx:
  "GetHandleContext d k = Some c \<Longrightarrow>
   GetHandleContext (with_ctx k (\<lambda>c. c\<lparr>queue := q\<rparr>) d') k = Some (c\<lparr>queue := q\<rparr>)"
  if "g_HandleList d' = g_HandleList d"
proof -
  assume c: "GetHandleContext d k = Some c"
  obtain xs ys where l: "g_HandleList d = xs @ c # ys" "h c = k" "k \<notin> h ` set xs"
    using c by (rule find_ctx_driver_split)
  show ?thesis
    using l that by (simp add: GetHandleContext_def with_ctx_def upd_ctx_split find_ctx_mid)
qed

lemma queue_swapped_queue_is:
  assumes "queue_swapped k d as as' d'" "GetHandleContext d k = Some c"
  shows "queue_is d' k as'"
proof -
  obtain cs q where s: "core d' = core (with_ctx k (\<lambda>c. c\<lparr>queue := q\<rparr>) (d\<lparr>pr_cells := cs\<rparr>))"
      "pq_rep cs q as'"
    using assms(1) unfolding queue_swapped_def by blast
  have "GetHandleContext d' k = GetHandleContext (with_ctx k (\<lambda>c. c\<lparr>queue := q\<rparr>) (d\<lparr>pr_cells := cs\<rparr>)) k"
    using s(1) by (simp add: core_def GetHandleContext_def)
  also have "\<dots> = Some (c\<lparr>queue := q\<rparr>)" by (rule GetHandleContext_with_ctx [OF _ assms(2)]) simp
  finally show ?thesis using s by (auto simp: queue_is_def core_def with_ctx_def)
qed

text \<open>The state in which the receive attempt of a pending request is made.\<close>

lemma pending_on_take:
  assumes "pending_on d k p bs a ds r"
  obtains c o1 cs q r' where "GetHandleContext d k = Some c" "deref_ov d p = Some o1"
    "Internal o1 = STATUS_PENDING" "pq_take p (pr_cells d) (queue c) = Some (a, cs, q)" "a \<noteq> 0"
    "cs a = Some r" "pq_rep cs q (bs @ ds)" "same_cells (set bs) (pr_cells d) cs"
    "a \<notin> set (bs @ ds)"
proof -
  obtain c o1 where c: "GetHandleContext d k = Some c" "pq_rep (pr_cells d) (queue c) (bs @ a # ds)"
      "deref_ov d p = Some o1" "Internal o1 = STATUS_PENDING"
    using assms by (auto simp: pending_on_def)
  obtain cs q where t: "pq_take p (pr_cells d) (queue c) = Some (a, cs, q)" "pq_rep cs q (bs @ ds)"
      "same_cells (set bs) (pr_cells d) cs"
    using pq_take_hit [OF c(2), of p] assms by (auto simp: pending_on_def)
  have "a \<noteq> 0" using c(2) chain_cells by (fastforce simp: pq_rep_def)
  then show thesis
    using that c t pq_take_hit_cell [OF c(2) t(3)] assms by (auto simp: pending_on_def)
qed

lemma complete_read_eq:
  assumes "ubufs d (buffer r) = Some ub" "unat (buflen r) \<le> length ub" "length eth \<le> 2047"
    "deref_ov d p = Some o1" "n = min (8 + length eth) (unat (buflen r))"
  shows "\<exists>d'. complete_read p a r eth d = Some (d', of_nat n) \<and>
    ubufs d' (buffer r) =
      Some (take n (radmin_header_write (of_nat (length eth)) @ eth) @ drop n ub) \<and>
    ovs d' p = Some (o1\<lparr>Internal := 0, InternalHigh := of_nat n\<rparr>) \<and>
    pr_cells d' a = None \<and>
    (\<forall>s. socks d' s = (if sock r = Some s then None else socks d s)) \<and> dwire d' = dwire d"
proof -
  let ?out = "radmin_header_write (of_nat (length eth)) @ eth"
  have n: "min (length ?out) (unat (buflen r)) = n" using assms(5) by simp
  have lt: "length (take n ?out) = n" using assms(5) by simp
  have "n \<le> length ub" using assms(2,5) by simp
  then have w: "mem_write ub 0 (take n ?out) = Some (take n ?out @ drop n ub)"
    unfolding mem_write_def lt by simp
  have o: "p \<noteq> 0" "ovs d p = Some o1" using assms(4) by (auto simp: deref_ov_def split: if_splits)
  show ?thesis
    unfolding complete_read_def Let_def n
    using w assms(1) o
    by (auto simp: complete_ov_def deref_ov_def event_of_def socket_close_def SetEvent_def
        split: option.split)
qed

lemma recv_request_with_ctx:
  assumes "sock r = Some s" "socks d s = Some items" "recv_loop c items = Some (rest, eth)"
  shows "recv_request c r (with_ctx k f (d\<lparr>pr_cells := cs\<rparr>)) =
    Some ((with_ctx k f (d\<lparr>pr_cells := cs\<rparr>))\<lparr>socks := (socks d)(s \<mapsto> rest)\<rparr>, eth)"
  using assms by (simp add: recv_request_def with_ctx_def)

text \<open>A pending read with a matching frame in its socket.\<close>

lemma GetOverlappedResult_completes:
  assumes "pending_on d k p bs a ds r" "GetHandleContext d k = Some c"
    "sock r = Some s" "socks d s = Some (map RI_Data bads @ RI_Data (t # eth) # rest)"
    "\<forall>f\<in>set bads. 14 \<le> length f \<and> length f \<le> 2048 \<and> \<not> frame_matches (drop 1 f) c"
    "13 \<le> length eth" "length eth \<le> 2047" "frame_matches eth c"
    "ubufs d (buffer r) = Some ub" "unat (buflen r) \<le> length ub"
    "n = min (8 + length eth) (unat (buflen r))"
  shows "\<exists>d'. Hook_GetOverlappedResult k p want d =
      Some (Done d' (io True (opt_out want (of_nat n)))) \<and>
    ubufs d' (buffer r) =
      Some (take n (radmin_header_write (of_nat (length eth)) @ eth) @ drop n ub) \<and>
    socks d' s = None \<and> pr_cells d' a = None \<and> queue_is d' k (bs @ ds) \<and>
    (\<exists>o1. ovs d' p = Some o1 \<and> Internal o1 = 0 \<and> InternalHigh o1 = of_nat n)"
proof -
  obtain c' o1 cs q where "GetHandleContext d k = Some c'" and t: "deref_ov d p = Some o1"
    "Internal o1 = STATUS_PENDING" "pq_take p (pr_cells d) (queue c') = Some (a, cs, q)" "a \<noteq> 0"
    "cs a = Some r" "pq_rep cs q (bs @ ds)" "same_cells (set bs) (pr_cells d) cs" "a \<notin> set (bs @ ds)"
    using assms(1) by (rule pending_on_take)
  then have cc: "c' = c" using assms(2) by simp
  let ?d1 = "with_ctx k (\<lambda>c. c\<lparr>queue := q\<rparr>) (d\<lparr>pr_cells := cs\<rparr>)"
  let ?d2 = "?d1\<lparr>socks := (socks d)(s \<mapsto> rest)\<rparr>"
  have "recv_loop c (map RI_Data bads @ RI_Data (t # eth) # rest) = Some (rest, Some eth)"
    using assms(5-8) by (simp add: recv_loop_skip recv_loop_hit del: recv_loop.simps)
  note rr = recv_request_with_ctx [OF assms(3,4) this, of k "\<lambda>c. c\<lparr>queue := q\<rparr>" cs]
  have "ubufs ?d2 (buffer r) = Some ub" "deref_ov ?d2 p = Some o1"
    using assms(9) t(1) by (simp_all add: with_ctx_def deref_ov_def split: if_splits)
  then obtain d' where d': "complete_read p a r eth ?d2 = Some (d', of_nat n)"
    "ubufs d' (buffer r) = Some (take n (radmin_header_write (of_nat (length eth)) @ eth) @ drop n ub)"
    "ovs d' p = Some (o1\<lparr>Internal := 0, InternalHigh := of_nat n\<rparr>)" "pr_cells d' a = None"
    "\<forall>x. socks d' x = (if sock r = Some x then None else socks ?d2 x)"
    using complete_read_eq [of ?d2 r ub eth p o1 n a] assms(7,10,11) by blast
  have "queue_swapped k d (bs @ a # ds) (bs @ ds) d'"
    by (rule complete_read_swapped [OF d'(1) _ t(6,7,8)]) simp
  then have "queue_is d' k (bs @ ds)" using assms(2) by (rule queue_swapped_queue_is)
  moreover have "Hook_GetOverlappedResult k p want d = Some (Done d' (io True (opt_out want (of_nat n))))"
    using Hook_GetOverlappedResult_unfold [OF assms(2) t(1,2) t(3) [unfolded cc] t(4,5)] rr d'(1)
    by simp
  ultimately show ?thesis using d' assms(3) by auto
qed

text \<open>C3. A read completes with the first matching frame: datagrams that do not match the
  filter of the handle are dropped, the caller's buffer receives the 8-byte header with the
  length of the Ethernet frame and then the frame, cut to the buffer length of the read, the
  count reported is the number of bytes copied, the one-shot socket is closed, the request is
  freed, and the other requests of the handle keep their order.\<close>

theorem GetOverlappedResult_delivers:
  assumes "pending_on d k p bs a ds r" "GetHandleContext d k = Some c"
    "sock r = Some s" "socks d s = Some (map RI_Data bads @ RI_Data (t # eth) # rest)"
    "\<forall>f\<in>set bads. 14 \<le> length f \<and> length f \<le> 2048 \<and> \<not> frame_matches (drop 1 f) c"
    "13 \<le> length eth" "length eth \<le> 2047" "frame_matches eth c"
    "ubufs d (buffer r) = Some ub" "unat (buflen r) \<le> length ub"
    "n = min (8 + length eth) (unat (buflen r))"
  shows "\<exists>d'. Hook_GetOverlappedResult k p want d =
      Some (Done d' (io True (opt_out want (of_nat n)))) \<and>
    ubufs d' (buffer r) =
      Some (take n (radmin_header_write (of_nat (length eth)) @ eth) @ drop n ub) \<and>
    socks d' s = None \<and> pr_cells d' a = None \<and> queue_is d' k (bs @ ds) \<and>
    (\<exists>o1. ovs d' p = Some o1 \<and> Internal o1 = 0 \<and> InternalHigh o1 = of_nat n)"
  by (rule GetOverlappedResult_completes [OF assms])


text \<open>A handle with a filter and two pending reads, the first with a filled socket.\<close>

definition bcast_frame :: bytes where
  "bcast_frame = [0xFF, 0xFF, 0xFF, 0xFF, 0xFF, 0xFF, 1, 1, 1, 1, 1, 1, 1, 1]"

definition other_frame :: bytes where
  "other_frame = [0xC0, 0xC0, 0xC0, 0xC0, 0xC0, 0xC0, 0xC0, 0xC0, 0xC0, 0xC0, 0xC0, 0xC0, 0xC0]"

definition reading :: driver where
  "reading = online\<lparr>
     g_HandleList := [(new_ctx 0x1001)\<lparr>mac := [2, 0x50, 1, 2, 3, 4], mac_set := True,
        queue := \<lparr>pending_head = 1, pending_tail = 2\<rparr>\<rparr>],
     pr_cells := [1 \<mapsto> \<lparr>ov = 0x50, buffer = 0x60, buflen = 24, sock = Some 0, next_pr = 2\<rparr>,
                  2 \<mapsto> \<lparr>ov = 0x51, buffer = 0x61, buflen = 24, sock = None, next_pr = 0\<rparr>],
     next_cell := 3,
     ovs := [0x50 \<mapsto> \<lparr>Internal = STATUS_PENDING, InternalHigh = 0, hEvent = 7\<rparr>],
     ubufs := [0x60 \<mapsto> replicate 24 0xEE],
     socks := [0 \<mapsto> [RI_Data (0 # other_frame),
                       RI_Data (0 # bcast_frame)]]\<rparr>"

lemma reading_pending:
  "pending_on reading 0x1001 0x50 [] 1 [2]
     \<lparr>ov = 0x50, buffer = 0x60, buflen = 24, sock = Some 0, next_pr = 2\<rparr>"
  "GetHandleContext reading 0x1001 = Some ((new_ctx 0x1001)\<lparr>mac := [2, 0x50, 1, 2, 3, 4],
     mac_set := True, queue := \<lparr>pending_head = 1, pending_tail = 2\<rparr>\<rparr>)"
  by (simp_all add: pending_on_def reading_def GetHandleContext_def new_ctx_def pq_rep_def deref_ov_def)

theorem GetOverlappedResult_delivers_witness:
  "\<exists>d'. Hook_GetOverlappedResult 0x1001 0x50 True reading = Some (Done d' (io True (Some 22))) \<and>
    ubufs d' 0x60 = Some (radmin_header_write 14 @ bcast_frame @ replicate 2 0xEE)"
proof -
  have m: "frame_matches bcast_frame ((new_ctx 0x1001)\<lparr>mac := [2, 0x50, 1, 2, 3, 4],
      mac_set := True, queue := \<lparr>pending_head = 1, pending_tail = 2\<rparr>\<rparr>)"
    "\<not> frame_matches other_frame ((new_ctx 0x1001)\<lparr>mac := [2, 0x50, 1, 2, 3, 4],
      mac_set := True, queue := \<lparr>pending_head = 1, pending_tail = 2\<rparr>\<rparr>)"
    by (simp_all add: frame_matches_def bcast_frame_def other_frame_def bit_0)
  show ?thesis
    using GetOverlappedResult_delivers [OF reading_pending, of 0 "[0 # other_frame]" 0
        bcast_frame "[]" "replicate 24 0xEE" 22 True] m
    by (auto simp: reading_def opt_out_def bcast_frame_def other_frame_def)
qed

text \<open>C6. A read that finds no matching frame stays pending: the call reports
  ERROR_IO_INCOMPLETE, the datagrams that do not match are consumed, the caller's buffer
  and OVERLAPPED are untouched, and the request moves behind the younger requests of its
  handle.  A handle without a configured address is in this case whatever arrives.\<close>

theorem GetOverlappedResult_incomplete:
  assumes "pending_on d k p bs a ds r" "GetHandleContext d k = Some c"
    "sock r = Some s" "socks d s = Some (map RI_Data bads)"
    "\<forall>f\<in>set bads. 14 \<le> length f \<and> length f \<le> 2048 \<and> \<not> frame_matches (drop 1 f) c"
  shows "\<exists>d'. Hook_GetOverlappedResult k p want d = Some (Done d' (io False None)) \<and>
    last_error d' = ERROR_IO_INCOMPLETE \<and> socks d' s = Some [] \<and> ovs d' = ovs d \<and>
    ubufs d' = ubufs d \<and> queue_is d' k (bs @ ds @ [a])"
proof -
  obtain c' o1 cs q where "GetHandleContext d k = Some c'" and t: "deref_ov d p = Some o1"
    "Internal o1 = STATUS_PENDING" "pq_take p (pr_cells d) (queue c') = Some (a, cs, q)" "a \<noteq> 0"
    "cs a = Some r" "pq_rep cs q (bs @ ds)" "same_cells (set bs) (pr_cells d) cs" "a \<notin> set (bs @ ds)"
    using assms(1) by (rule pending_on_take)
  then have cc: "c' = c" using assms(2) by simp
  let ?d1 = "with_ctx k (\<lambda>c. c\<lparr>queue := q\<rparr>) (d\<lparr>pr_cells := cs\<rparr>)"
  let ?d2 = "?d1\<lparr>socks := (socks d)(s \<mapsto> [])\<rparr>"
  have rep: "pq_rep (pr_cells d) (queue c) (bs @ a # ds)"
    using assms(1,2) by (auto simp: pending_on_def)
  have first: "\<forall>b\<in>set bs. map_option ov (pr_cells d b) \<noteq> Some p" and
      key: "map_option ov (pr_cells d a) = Some p" and live: "pr_cells d a \<noteq> None"
    using assms(1) by (auto simp: pending_on_def)
  obtain cs' q' where put: "pq_requeue a cs q = Some (cs', q')"
    using pq.take_put_back [of "(pr_cells d, queue c)" bs a ds p] rep first key t(3,4) cc by auto
  have "recv_loop c (map RI_Data bads) = Some ([], None)"
    using recv_loop_skip [of bads c "[]"] assms(5) by simp
  note rr = recv_request_with_ctx [OF assms(3,4) this, of k "\<lambda>c. c\<lparr>queue := q\<rparr>" cs]
  let ?d' = "SetLastError ERROR_IO_INCOMPLETE (with_ctx k (\<lambda>c. c\<lparr>queue := q'\<rparr>) (?d2\<lparr>pr_cells := cs'\<rparr>))"
  have gb: "give_back k a q ?d2 = Some ?d'"
    using put by (simp add: give_back_def with_ctx_def)
  have "queue_swapped k d (bs @ a # ds) (bs @ ds @ [a]) ?d'"
    by (rule give_back_swapped [OF gb _ t(6,7) live t(4,8)]) simp
  then have "queue_is ?d' k (bs @ ds @ [a])" using assms(2) by (rule queue_swapped_queue_is)
  moreover have "Hook_GetOverlappedResult k p want d = Some (Done ?d' (io False None))"
    using Hook_GetOverlappedResult_unfold [OF assms(2) t(1,2) t(3) [unfolded cc] t(4,5)] rr gb
    by simp
  ultimately show ?thesis by (auto simp: with_ctx_def)
qed

theorem GetOverlappedResult_incomplete_witness:
  "\<exists>d'. Hook_GetOverlappedResult 0x1001 0x50 True (reading\<lparr>socks := [0 \<mapsto> []]\<rparr>) =
      Some (Done d' (io False None)) \<and> queue_is d' 0x1001 [2, 1]"
proof -
  have "pending_on (reading\<lparr>socks := [0 \<mapsto> []]\<rparr>) 0x1001 0x50 [] 1 [2]
     \<lparr>ov = 0x50, buffer = 0x60, buflen = 24, sock = Some 0, next_pr = 2\<rparr>"
    "GetHandleContext (reading\<lparr>socks := [0 \<mapsto> []]\<rparr>) 0x1001 = Some ((new_ctx 0x1001)
       \<lparr>mac := [2, 0x50, 1, 2, 3, 4], mac_set := True, queue := \<lparr>pending_head = 1, pending_tail = 2\<rparr>\<rparr>)"
    using reading_pending by (simp_all add: pending_on_def GetHandleContext_def deref_ov_def)
  from GetOverlappedResult_incomplete [OF this, of 0 "[]" True] show ?thesis by auto
qed



section \<open>Handles\<close>

text \<open>Closing a device with reads outstanding does not release them: the cells of the
  pending reads stay allocated and their sockets stay open, though nothing refers to them
  any more.\<close>

theorem CloseHandle_leaks_pending:
  assumes "driver_ok d" "GetHandleContext d k = Some c" "queue_is d k as"
  shows "\<exists>d'. Hook_CloseHandle k d = Done d' True \<and> GetHandleContext d' k = None \<and>
    pr_cells d' = pr_cells d \<and> socks d' = socks d \<and>
    (\<forall>a\<in>set as. pr_cells d' a \<noteq> None \<and> (\<forall>k'. \<not> (\<exists>bs. queue_is d' k' bs \<and> a \<in> set bs)))"
proof -
  have rep: "pq_rep (pr_cells d) (queue c) as" using assms(2,3) by (auto simp: queue_is_def)
  obtain xs ys where l: "g_HandleList d = xs @ c # ys" "h c = k" "k \<notin> h ` set xs"
    using assms(2) by (rule find_ctx_driver_split)
  have "ready_event c = 0" "distinct (map h (xs @ c # ys))"
    using assms(1) l by (auto simp: driver_ok_def ctx_ok_def handles_distinct_def)
  then have d': "fst (RemoveFakeHandle k d) = d\<lparr>g_HandleList := xs @ ys\<rparr>"
    and kk: "k \<notin> h ` set (xs @ ys)"
    using l unlink_ctx_split [OF l(3,2)] by (auto simp: RemoveFakeHandle_def Let_def)
  obtain qx bs qy where q: "queues_ok (pr_cells d) xs qx" "queues_ok (pr_cells d) ys qy"
    "pq_rep (pr_cells d) (queue c) bs" "distinct (concat (qx @ qy))"
    "set bs \<inter> set (concat (qx @ qy)) = {}"
    "\<forall>a\<in>set bs \<union> set (concat (qx @ qy)). 0 < a \<and> a < next_cell d"
    using assms(1) l(1) by (rule driver_queues)
  have as: "bs = as" using pq_rep_unique [OF q(3) rep] .
  have other: "set bs' \<subseteq> set (concat (qx @ qy))"
    if "x \<in> set (xs @ ys)" "pq_rep (pr_cells d) (queue x) bs'" for x bs'
  proof -
    have "list_all2 (\<lambda>c as. pq_rep (pr_cells d) (queue c) as) (xs @ ys) (qx @ qy)"
      using q(1,2) by (simp add: queues_ok_def list_all2_appendI)
    then have "bs' \<in> set (qx @ qy)" using that by (rule queue_member)
    then show ?thesis by auto
  qed
  have "a \<notin> set bs'" if a: "a \<in> set as"
    and bs': "queue_is (d\<lparr>g_HandleList := xs @ ys\<rparr>) k' bs'" for a k' bs'
  proof -
    obtain x where "find_ctx (xs @ ys) k' = Some x" "pq_rep (pr_cells d) (queue x) bs'"
      using bs' by (auto simp: queue_is_def GetHandleContext_def)
    moreover from this have "x \<in> set (xs @ ys)" using find_ctx_split by fastforce
    ultimately have "set bs' \<subseteq> set (concat (qx @ qy))" using other by blast
    then show ?thesis using a q(5) as by blast
  qed
  moreover have "\<forall>a\<in>set as. pr_cells d a \<noteq> None"
    using rep chain_cells by (fastforce simp: pq_rep_def)
  moreover have "find_ctx (xs @ ys) k = None" using kk by (subst find_ctx_None)
  ultimately show ?thesis
    using assms(2) d' by (auto simp: Hook_CloseHandle_def GetHandleContext_def)
qed

theorem CloseHandle_leaks_pending_witness:
  "\<exists>d'. Hook_CloseHandle 0x1001 reading = Done d' True \<and> pr_cells d' 1 \<noteq> None \<and>
    socks d' 0 \<noteq> None \<and> (\<forall>k'. \<not> (\<exists>bs. queue_is d' k' bs \<and> 1 \<in> set bs))"
proof -
  have q: "queue_is reading 0x1001 [1, 2]"
    using reading_pending by (auto simp: pending_on_def queue_is_def)
  then have "queues_ok (pr_cells reading) (g_HandleList reading) [[1, 2]]"
    by (auto simp: queue_is_def queues_ok_def reading_def GetHandleContext_def new_ctx_def)
  then have "driver_ok reading"
    by (rule driver_okI)
      (auto simp: reading_def online_def opened_eq handles_distinct_def ctx_ok_def new_ctx_def
        split: if_splits)
  from CloseHandle_leaks_pending [OF this reading_pending(2) q] show ?thesis
    by (auto simp: reading_def)
qed

definition opened4 :: "dev_env \<Rightarrow> driver \<Rightarrow> driver" where
  "opened4 env d = foldl (\<lambda>d e. after_call d (Hook_CreateFileW e (Some DEVICE_NAME) d)) d
     [env, env, env, env]"

text \<open>Fake handle values are small numbers counted from 0x1000, and the hooks look at the
  value only: after four devices have been opened, closing a real kernel handle with the
  value 0x1004 is swallowed as the closing of a fake device and not forwarded.\<close>

theorem fake_handle_shadows_real:
  assumes "e_heap env 48"
  shows "\<exists>d'. Hook_CloseHandle 0x1004 (opened4 env (driver_initial i l)) = Done d' True \<and>
    map h (g_HandleList d') = [0x1003, 0x1002, 0x1001]"
  using assms
  by (cases "e_event env")
    (simp_all add: opened4_def after_call_def Hook_CreateFileW_def AddFakeHandle_def new_ctx_def
      driver_initial_def Hook_CloseHandle_def GetHandleContext_def RemoveFakeHandle_def Let_def)

theorem fake_handle_shadows_real_witness:
  "\<exists>d'. Hook_CloseHandle 0x1004 (opened4 env_ok (driver_initial identity_initial quiet)) = Done d' True"
  using fake_handle_shadows_real [of env_ok identity_initial quiet] by (auto simp: env_ok_def)

section \<open>DeviceIoControl\<close>

definition ioctl_accepts :: "u32 \<Rightarrow> nat \<Rightarrow> nat \<Rightarrow> bool" where
  "ioctl_accepts code nIn nOut =
     (if code = 0x22C004 then 8 \<le> nIn \<and> 12 \<le> nOut
      else if code = 0x228014 then nIn = 6
      else if code = 0x22801C then 4 \<le> nIn
      else if code = 0x224018 then 4 \<le> nOut
      else if code = 0x224020 then 1 \<le> nOut
      else True)"

definition ioctl_reply :: "u32 \<Rightarrow> bytes \<Rightarrow> bytes" where
  "ioctl_reply code m =
     (if code = 0x22C004 then [0, 0, 0, 0] @ m @ [0, 0]
      else if code = 0x224018 then [0, 0, 0, 0]
      else if code = 0x224020 then [0]
      else [])"

lemma mem_write_0:
  "length xs \<le> length buf \<Longrightarrow> mem_write buf 0 xs = Some (xs @ drop (length xs) buf)"
  by (simp add: mem_write_def)

lemma numeral_le_of_nat_u32:
  assumes "n < 2 ^ 32" "m < 2 ^ 32"
  shows "(of_nat m :: u32) \<le> of_nat n \<longleftrightarrow> m \<le> n" "(of_nat n :: u32) = of_nat m \<longleftrightarrow> n = m"
  using assms unat_of_nat_u32 [of n] unat_of_nat_u32 [of m]
  by (simp_all add: word_le_nat_alt word_unat_eq_iff)

lemma ioctl_switch_spec:
  fixes code :: u32
  assumes "length ib < 2 ^ 32" "length ob < 2 ^ 32" "length (fake_mac (ident d)) = 6"
    "GetHandleContext d k = Some c"
  defines "acc \<equiv> ioctl_accepts code (length ib) (length ob)"
    and "rep \<equiv> ioctl_reply code (fake_mac (ident d))"
  shows "\<exists>d'. ioctl_switch env k code (Some ib) (of_nat (length ib)) (Some ob) (of_nat (length ob)) d =
      Some (d', acc, if acc then of_nat (length rep) else 0,
            Some (if acc then rep @ drop (length rep) ob else ob)) \<and>
    ovs d' = ovs d \<and>
    (\<exists>c'. GetHandleContext d' k = Some c' \<and>
      (if acc \<and> code = 0x228014 then mac c' = ib \<and> mac_set c' else c' = c))"
proof -
  note le = numeral_le_of_nat_u32 [OF assms(1)] numeral_le_of_nat_u32 [OF assms(2)]
  have n: "(8 :: u32) = of_nat 8" "(12 :: u32) = of_nat 12" "(6 :: u32) = of_nat 6"
      "(4 :: u32) = of_nat 4" "(1 :: u32) = of_nat 1" by simp_all
  have cmp: "(8 :: u32) \<le> of_nat (length ib) \<longleftrightarrow> 8 \<le> length ib"
      "(12 :: u32) \<le> of_nat (length ob) \<longleftrightarrow> 12 \<le> length ob"
      "(of_nat (length ib) :: u32) = 6 \<longleftrightarrow> length ib = 6"
      "(4 :: u32) \<le> of_nat (length ib) \<longleftrightarrow> 4 \<le> length ib"
      "(4 :: u32) \<le> of_nat (length ob) \<longleftrightarrow> 4 \<le> length ob"
      "(1 :: u32) \<le> of_nat (length ob) \<longleftrightarrow> 1 \<le> length ob"
    using le [of 8] le [of 12] le [of 6] le [of 4] le [of 1] by simp_all
  have log: "\<exists>l. LogHex (e_time env) (Some m) n pf lg = Some l" if "unat n \<le> length m" for m n pf lg
    using LogHex_defined [of n m "e_time env" pf lg] that by auto
  obtain xs ys where l: "g_HandleList d = xs @ c # ys" "h c = k" "k \<notin> h ` set xs"
    using assms(4) by (rule find_ctx_driver_split)
  show ?thesis
  proof (cases "code = 0x228014 \<and> acc")
    case True
    then have len: "length ib = 6" by (simp add: acc_def ioctl_accepts_def)
    obtain lg where "LogHex (e_time env) (Some ib) 6 (str ''  MAC filter set to'') (logger d) = Some lg"
      using log [of 6 ib] len by auto
    then show ?thesis
      using True len l
      by (simp add: ioctl_switch_def mem_read_def rep_def ioctl_reply_def with_ctx_def
          GetHandleContext_def upd_ctx_split find_ctx_mid)
  next
    case no_mac: False
    show ?thesis
    proof (cases "code = 0x22C004 \<and> acc")
      case True
      then have len: "8 \<le> length ib" "12 \<le> length ob" by (simp_all add: acc_def ioctl_accepts_def)
      let ?out = "[0, 0, 0, 0] @ fake_mac (ident d) @ [0, 0]"
      have out: "replicate 4 0 @ fake_mac (ident d) @ replicate 2 0 = ?out"
        by (simp add: numeral_eq_Suc)
      obtain lg where "LogHex (e_time env) (Some ?out) 12
          (str ''  Output (MAC at offset 4)'') (logger d) = Some lg"
        using log [of 12 ?out] assms(3) by auto
      then have 1: "LogHex (e_time env) (Some (replicate 4 0 @ fake_mac (ident d) @ replicate 2 0)) 12
          (str ''  Output (MAC at offset 4)'') (logger d) = Some lg"
        by (simp only: out)
      have 2: "mem_write ob 0 (replicate 4 0 @ fake_mac (ident d) @ replicate 2 0) =
          Some (?out @ drop 12 ob)"
        using mem_write_0 [of ?out ob] len assms(3) by (simp add: out)
      have sw: "ioctl_switch env k 0x22C004 (Some ib) (of_nat (length ib)) (Some ob)
          (of_nat (length ob)) d = Some (d\<lparr>logger := lg\<rparr>, True, 12, Some (?out @ drop 12 ob))"
        unfolding ioctl_switch_def Let_def GetFakeMacAddress_def
        by (subst if_P, rule refl)
          (simp only: len cmp 1 2 simp_thms if_True prod.case Option.bind.simps bool.case)
      have "GetHandleContext (d\<lparr>logger := lg\<rparr>) k = Some c"
        using assms(4) by (simp add: GetHandleContext_def)
      then show ?thesis
        using True sw assms(3) by (simp add: rep_def ioctl_reply_def)
    next
      case False
      then show ?thesis
        using no_mac cmp assms(4)
        by (auto simp: ioctl_switch_def rep_def ioctl_reply_def acc_def ioctl_accepts_def
            mem_read_def mem_write_0)
    qed
  qed
qed



end
