(* ===== verification/Config.thy ===== *)
theory Config
  imports C_Strings
begin

text \<open>
  The configuration file radmin.conf: src/config.c and src/config.h.  A file is the list of
  its characters as \<open>fgets\<close> delivers them (text mode, lines end in a single newline), None
  when it cannot be opened.  \<open>fgets\<close> with a 256-byte buffer hands out at most 255 characters
  at a time, so a long line arrives in several pieces.
\<close>

datatype config_driver_t = DRIVER_NONE | DRIVER_LINUX_TAP | DRIVER_WIREGUARD_SERVER

record app_config_t =
  cfg_driver :: config_driver_t
  cfg_tap_addr :: bytes
  cfg_tap_port :: u16

definition char_eq :: u8 where "char_eq = 61"
definition char_nl :: u8 where "char_nl = 10"
definition char_hash :: u8 where "char_hash = 35"

section \<open>Parsing one line\<close>

text \<open>
  \<open>sscanf(line, "%63[^=]=%255s", key, value)\<close>: the number of fields converted is 2 exactly
  when the result is Some.
\<close>

definition sscanf_key_value :: "bytes \<Rightarrow> (bytes \<times> bytes) option" where
  "sscanf_key_value line =
     (let key = take 63 (takeWhile (\<lambda>c. c \<noteq> char_eq) line);
          rest = drop (length key) line in
      if key = [] then None
      else case rest of
        [] \<Rightarrow> None
      | c # r \<Rightarrow>
          if c \<noteq> char_eq then None
          else
            let val = take 255 (takeWhile (\<lambda>c. \<not> is_space c) (dropWhile is_space r)) in
            if val = [] then None else Some (key, val))"

definition config_parse_line :: "bytes \<Rightarrow> app_config_t \<Rightarrow> app_config_t \<times> int" where
  "config_parse_line line cfg =
     (case sscanf_key_value line of
        None \<Rightarrow> (cfg, -1)
      | Some (key, val) \<Rightarrow>
          if icmp_eq key (str ''driver'') then
            (if icmp_eq val (str ''linux_tap'') then (cfg\<lparr>cfg_driver := DRIVER_LINUX_TAP\<rparr>, 0)
             else if icmp_eq val (str ''wireguard_server'')
             then (cfg\<lparr>cfg_driver := DRIVER_WIREGUARD_SERVER\<rparr>, 0)
             else (cfg, -1))
          else if icmp_eq key (str ''tap_addr'') then (cfg\<lparr>cfg_tap_addr := take 63 val\<rparr>, 0)
          else if icmp_eq key (str ''tap_port'')
          then (cfg\<lparr>cfg_tap_port := word_of_int (atoi val)\<rparr>, 0)
          else (cfg, 0))"

section \<open>The file\<close>

fun fgets :: "nat \<Rightarrow> bytes \<Rightarrow> bytes \<times> bytes" where
  \<comment> \<open>the piece read into a buffer with room for \<open>n\<close> characters, and the rest of the file\<close>
  "fgets 0 f = ([], f)"
| "fgets (Suc n) [] = ([], [])"
| "fgets (Suc n) (c # f) =
     (if c = char_nl then ([c], f) else let (l, r) = fgets n f in (c # l, r))"

lemma fgets_length: "length (snd (fgets n f)) \<le> length f"
  by (induction n f rule: fgets.induct) (auto split: prod.splits)

lemma fgets_shorter: "f \<noteq> [] \<Longrightarrow> length (snd (fgets (Suc n) f)) < length f"
  by (cases f) (auto simp: case_prod_beta less_Suc_eq_le fgets_length)

definition skip_blanks :: "bytes \<Rightarrow> bytes" where
  "skip_blanks = dropWhile (\<lambda>c. c = 32 \<or> c = 9)"

definition config_line :: "bytes \<Rightarrow> app_config_t \<Rightarrow> app_config_t" where
  "config_line piece cfg =
     (let p = skip_blanks (takeWhile (\<lambda>c. c \<noteq> 0) piece) in
      if p = [] \<or> hd p = char_hash \<or> hd p = char_nl then cfg
      else fst (config_parse_line p cfg))"

function config_lines :: "bytes \<Rightarrow> app_config_t \<Rightarrow> app_config_t" where
  "config_lines f cfg =
     (if f = [] then cfg
      else let (piece, rest) = fgets 255 f in config_lines rest (config_line piece cfg))"
  by pat_completeness auto
termination
proof (relation "measure (\<lambda>(f, cfg). length f)")
  fix f :: bytes and cfg :: app_config_t and x piece rest
  assume "f \<noteq> []" "x = fgets 255 f" "(piece, rest) = x"
  then have "rest = snd (fgets (Suc 254) f)" by (simp add: prod_eq_iff)
  then show "((rest, config_line piece cfg), f, cfg) \<in> measure (\<lambda>(f, cfg). length f)"
    using fgets_shorter [OF \<open>f \<noteq> []\<close>, of 254] by simp
qed simp

declare config_lines.simps [simp del]

definition config_defaults :: app_config_t where
  "config_defaults = \<lparr>cfg_driver = DRIVER_LINUX_TAP, cfg_tap_addr = str ''127.0.0.1'',
                      cfg_tap_port = 12345\<rparr>"

definition nl :: bytes where "nl = [10]"

definition config_write_defaults :: bytes where
  "config_write_defaults =
     str ''# Radmin VPN emulation driver config'' @ nl @
     str ''# driver = linux_tap or wireguard_server'' @ nl @
     str ''driver=linux_tap'' @ nl @
     str ''# When driver=linux_tap, these are used:'' @ nl @
     str ''tap_addr=127.0.0.1'' @ nl @
     str ''tap_port=12345'' @ nl"

text \<open>The configuration, the file that is written (if any) and the return value.\<close>

definition config_load :: "bytes option \<Rightarrow> app_config_t \<times> bytes option \<times> int" where
  "config_load f =
     (case f of
        None \<Rightarrow> (config_defaults, Some config_write_defaults, 0)
      | Some t \<Rightarrow> (config_lines t config_defaults, None, 0))"

section \<open>Lines and pieces\<close>

lemma fgets_line:
  "length l < n \<Longrightarrow> char_nl \<notin> set l \<Longrightarrow> fgets n (l @ char_nl # f) = (l @ [char_nl], f)"
proof (induction l arbitrary: n)
  case Nil
  then show ?case by (cases n) auto
next
  case (Cons c l)
  then show ?case by (cases n) (auto split: prod.splits)
qed

lemma config_lines_Nil [simp]: "config_lines [] cfg = cfg"
  by (simp add: config_lines.simps)

lemma config_lines_line:
  "length l < 255 \<Longrightarrow> char_nl \<notin> set l \<Longrightarrow>
   config_lines (l @ char_nl # f) cfg = config_lines f (config_line (l @ [char_nl]) cfg)"
  by (subst config_lines.simps) (simp add: fgets_line)

text \<open>A word of printable characters without blanks, as keys and values are.\<close>

definition word_ok :: "bytes \<Rightarrow> bool" where
  "word_ok w \<longleftrightarrow> w \<noteq> [] \<and> (\<forall>c\<in>set w. \<not> is_space c \<and> c \<noteq> 0 \<and> c \<noteq> char_eq)"

lemma word_ok_chars:
  assumes "word_ok w" "c \<in> set w"
  shows "\<not> is_space c" "c \<noteq> 0" "c \<noteq> char_eq" "c \<noteq> char_nl" "c \<noteq> 32" "c \<noteq> 9"
  using assms by (auto simp: word_ok_def is_space_def char_nl_def)

lemma sscanf_key_value_eq:
  assumes "word_ok k" "length k \<le> 63" "v \<noteq> []" "\<forall>c\<in>set v. \<not> is_space c" "length v \<le> 255"
  shows "sscanf_key_value (k @ char_eq # v @ [char_nl]) = Some (k, v)"
proof -
  have k: "takeWhile (\<lambda>c. c \<noteq> char_eq) (k @ char_eq # v @ [char_nl]) = k"
    using assms(1) by (intro takeWhile_append_stop) (auto simp: word_ok_def)
  have sp: "is_space char_nl" by (simp add: is_space_def char_nl_def)
  have "takeWhile (\<lambda>c. \<not> is_space c) (v @ [char_nl]) = v"
    using assms(4) sp by (intro takeWhile_append_stop) auto
  moreover have "dropWhile is_space (v @ [char_nl]) = v @ [char_nl]"
    using assms(3,4) by (cases v) auto
  ultimately show ?thesis
    using assms k by (simp add: sscanf_key_value_def word_ok_def Let_def)
qed

lemma config_line_eq:
  assumes "word_ok k" "length k \<le> 63" "hd k \<noteq> char_hash" "word_ok v" "length v \<le> 255"
  shows "config_line (k @ char_eq # v @ [char_nl]) cfg =
    fst (config_parse_line (k @ char_eq # v @ [char_nl]) cfg)"
proof -
  have "takeWhile (\<lambda>c. c \<noteq> 0) (k @ char_eq # v @ [char_nl]) = k @ char_eq # v @ [char_nl]"
    using assms(1,4) by (intro takeWhile_all) (auto simp: word_ok_def char_eq_def char_nl_def)
  moreover obtain c k' where "k = c # k'" using assms(1) by (cases k) (auto simp: word_ok_def)
  moreover from this have "c \<noteq> 32" "c \<noteq> 9" "c \<noteq> char_nl" using word_ok_chars [OF assms(1)] by auto
  ultimately show ?thesis using assms(3) by (simp add: config_line_def skip_blanks_def Let_def)
qed

lemma config_lines_entry:
  assumes "word_ok k" "length k \<le> 63" "hd k \<noteq> char_hash" "word_ok v" "length k + length v < 254"
  shows "config_lines (k @ char_eq # v @ char_nl # f) cfg =
    config_lines f (fst (config_parse_line (k @ char_eq # v @ [char_nl]) cfg))"
proof -
  have "char_nl \<notin> set (k @ char_eq # v)"
    using word_ok_chars(4) [OF assms(1)] word_ok_chars(4) [OF assms(4)]
    by (auto simp: char_nl_def char_eq_def)
  then show ?thesis
    using config_lines_line [of "k @ char_eq # v" f cfg] config_line_eq [OF assms(1-4), of cfg] assms(5)
    by simp
qed

section \<open>Loading and storing a configuration\<close>

definition driver_text :: "config_driver_t \<Rightarrow> bytes" where
  "driver_text d = (if d = DRIVER_WIREGUARD_SERVER then str ''wireguard_server'' else str ''linux_tap'')"

definition config_text :: "app_config_t \<Rightarrow> bytes" where
  "config_text cfg =
     str ''driver'' @ char_eq # driver_text (cfg_driver cfg) @ char_nl #
     str ''tap_addr'' @ char_eq # cfg_tap_addr cfg @ char_nl #
     str ''tap_port'' @ char_eq # dec (unat (cfg_tap_port cfg)) @ char_nl # []"

lemma word_ok_dec: "word_ok (dec n)"
  using dec_chars [of _ n] digit_not_space
  by (fastforce simp: word_ok_def dec_def char_eq_def)

lemma length_digits: "n < 10 ^ k \<Longrightarrow> 0 < k \<Longrightarrow> length (digits n) \<le> k"
proof (induction k arbitrary: n)
  case (Suc k)
  show ?case
  proof (cases "n < 10")
    case False
    then have "0 < k" using Suc.prems by (cases k) auto
    moreover have "n div 10 < 10 ^ k" using Suc.prems by (simp add: less_mult_imp_div_less mult.commute)
    ultimately show ?thesis using Suc.IH [of "n div 10"] False by (simp add: digits.simps [of n])
  qed (simp add: digits.simps)
qed simp

lemma key_ok: "word_ok (str ''driver'')" "word_ok (str ''tap_addr'')" "word_ok (str ''tap_port'')"
    "word_ok (driver_text d)"
  by (simp_all add: word_ok_def driver_text_def is_space_def char_eq_def word_le_nat_alt)

lemma key_eq:
  "icmp_eq (str ''driver'' :: bytes) (str ''driver'')" "\<not> icmp_eq (str ''tap_addr'' :: bytes) (str ''driver'')"
  "icmp_eq (str ''tap_addr'' :: bytes) (str ''tap_addr'')" "\<not> icmp_eq (str ''tap_port'' :: bytes) (str ''driver'')"
  "\<not> icmp_eq (str ''tap_port'' :: bytes) (str ''tap_addr'')"
  "\<not> icmp_eq (str ''wireguard_server'' :: bytes) (str ''linux_tap'')"
  by (auto simp: icmp_eq_def lower_def word_le_nat_alt)

text \<open>C39. Round trip: loading a file that was written from a configuration (a driver, an
  address of at most 63 characters without blanks, a port) gives exactly that
  configuration.\<close>

theorem config_roundtrip:
  assumes "word_ok (cfg_tap_addr cfg)" "length (cfg_tap_addr cfg) \<le> 63"
    "cfg_driver cfg \<noteq> DRIVER_NONE"
  shows "config_load (Some (config_text cfg)) = (cfg, None, 0)"
proof -
  let ?p = "dec (unat (cfg_tap_port cfg)) :: bytes"
  have "unat (cfg_tap_port cfg) < 10 ^ 5"
    using unsigned_less [of "cfg_tap_port cfg", where ?'a = nat] by simp
  then have lp: "length ?p \<le> 5" using length_digits [of _ 5] by (simp add: dec_def)
  have s: "sscanf_key_value (k @ char_eq # v @ [char_nl]) = Some (k, v)"
    if "word_ok k" "length k \<le> 63" "word_ok v" "length v \<le> 255" for k v
    using that by (intro sscanf_key_value_eq) (auto simp: word_ok_def)
  have ld: "length (driver_text d) \<le> 16" for d by (simp add: driver_text_def del: str_Cons)
  have s1: "sscanf_key_value (str ''driver'' @ char_eq # driver_text d @ [char_nl]) =
      Some (str ''driver'', driver_text d)" for d
    by (rule s [OF key_ok(1) _ key_ok(4)]) (use ld [of d] in \<open>simp_all del: str_Cons\<close>)
  have s2: "sscanf_key_value (str ''tap_addr'' @ char_eq # cfg_tap_addr cfg @ [char_nl]) =
      Some (str ''tap_addr'', cfg_tap_addr cfg)"
    by (rule s [OF key_ok(2) _ assms(1)]) (use assms(2) in \<open>simp_all del: str_Cons\<close>)
  have s3: "sscanf_key_value (str ''tap_port'' @ char_eq # ?p @ [char_nl]) = Some (str ''tap_port'', ?p)"
    by (rule s [OF key_ok(3) _ word_ok_dec]) (use lp in \<open>simp_all del: str_Cons\<close>)
  have 1: "fst (config_parse_line (str ''driver'' @ char_eq # driver_text (cfg_driver cfg) @ [char_nl]) c) =
      c\<lparr>cfg_driver := cfg_driver cfg\<rparr>" for c
    unfolding config_parse_line_def s1 using assms(3)
    by (cases "cfg_driver cfg") (simp_all add: key_eq driver_text_def del: str_Cons)
  have 2: "fst (config_parse_line (str ''tap_addr'' @ char_eq # cfg_tap_addr cfg @ [char_nl]) c) =
      c\<lparr>cfg_tap_addr := cfg_tap_addr cfg\<rparr>" for c
    using assms(2) by (simp add: config_parse_line_def s2 key_eq del: str_Cons)
  have 3: "fst (config_parse_line (str ''tap_port'' @ char_eq # ?p @ [char_nl]) c) =
      c\<lparr>cfg_tap_port := cfg_tap_port cfg\<rparr>" for c
    by (simp add: config_parse_line_def s3 key_eq del: str_Cons)
  have hd: "hd (str ''driver'') \<noteq> char_hash" "hd (str ''tap_addr'') \<noteq> char_hash"
      "hd (str ''tap_port'') \<noteq> char_hash" by (simp_all add: char_hash_def)
  have e1: "config_lines (str ''driver'' @ char_eq # driver_text (cfg_driver cfg) @ char_nl # f) c =
      config_lines f (c\<lparr>cfg_driver := cfg_driver cfg\<rparr>)" for f c
    using config_lines_entry [OF key_ok(1) _ hd(1) key_ok(4) , of "cfg_driver cfg" f c]
      ld [of "cfg_driver cfg"] by (simp add: 1 del: str_Cons)
  have e2: "config_lines (str ''tap_addr'' @ char_eq # cfg_tap_addr cfg @ char_nl # f) c =
      config_lines f (c\<lparr>cfg_tap_addr := cfg_tap_addr cfg\<rparr>)" for f c
    using config_lines_entry [OF key_ok(2) _ hd(2) assms(1), of f c] assms(2) by (simp add: 2 del: str_Cons)
  have e3: "config_lines (str ''tap_port'' @ char_eq # ?p @ char_nl # f) c =
      config_lines f (c\<lparr>cfg_tap_port := cfg_tap_port cfg\<rparr>)" for f c
    using config_lines_entry [OF key_ok(3) _ hd(3) word_ok_dec, of "unat (cfg_tap_port cfg)" f c] lp
    by (simp add: 3 del: str_Cons)
  show ?thesis
    unfolding config_load_def config_text_def option.case e1 e2 e3 by simp
qed

text \<open>A configuration for the witnesses.\<close>

theorem config_roundtrip_witness:
  "config_load (Some (config_text \<lparr>cfg_driver = DRIVER_WIREGUARD_SERVER,
     cfg_tap_addr = str ''10.0.0.7'', cfg_tap_port = 4242\<rparr>)) =
   (\<lparr>cfg_driver = DRIVER_WIREGUARD_SERVER, cfg_tap_addr = str ''10.0.0.7'', cfg_tap_port = 4242\<rparr>, None, 0)"
  by (rule config_roundtrip) (simp_all add: word_ok_def is_space_def char_eq_def word_le_nat_alt)

text \<open>The defaults: when the file is missing the built-in defaults are used and a file is
  written, and loading that file gives the same defaults.\<close>

theorem config_defaults_roundtrip:
  "config_load None = (config_defaults, Some config_write_defaults, 0) \<and>
   config_load (Some config_write_defaults) = (config_defaults, None, 0)"
proof -
  have "config_lines config_write_defaults config_defaults = config_defaults"
    by code_simp
  then show ?thesis by (simp add: config_load_def)
qed

lemma fgets_full:
  "length l = n \<Longrightarrow> char_nl \<notin> set l \<Longrightarrow> fgets n (l @ f) = (l, f)"
proof (induction l arbitrary: n)
  case Nil
  then show ?case by simp
next
  case (Cons c l)
  then show ?case by (cases n) (auto split: prod.splits)
qed

text \<open>A comment line is only a comment for its first 255 characters: what follows on the
  same line is read as a new line, so the tail of a long comment can set configuration
  values.\<close>

theorem long_comment_tail_is_parsed:
  assumes "length pad = 254" "char_nl \<notin> set pad" "0 \<notin> set pad"
  shows "config_load (Some (char_hash # pad @ rest)) = config_load (Some rest)"
proof -
  let ?l = "char_hash # pad"
  have "fgets 255 (?l @ rest) = (?l, rest)"
    using assms by (intro fgets_full) (auto simp: char_hash_def char_nl_def)
  moreover have "takeWhile (\<lambda>c. c \<noteq> 0) ?l = ?l"
    using assms(3) by (intro takeWhile_all) (auto simp: char_hash_def)
  then have "config_line ?l cfg = cfg" for cfg
    by (simp add: config_line_def skip_blanks_def Let_def char_hash_def)
  ultimately have "config_lines (?l @ rest) config_defaults = config_lines rest config_defaults"
    by (subst config_lines.simps) simp
  then show ?thesis by (simp add: config_load_def)
qed

theorem long_comment_tail_is_parsed_witness:
  "cfg_tap_port (fst (config_load (Some (char_hash # replicate 254 120 @ str ''tap_port=1'')))) = 1"
proof -
  have "config_load (Some (char_hash # replicate 254 120 @ str ''tap_port=1'')) =
      config_load (Some (str ''tap_port=1''))"
    by (rule long_comment_tail_is_parsed) (simp_all add: char_nl_def)
  also have "cfg_tap_port (fst (config_load (Some (str ''tap_port=1'')))) = 1" by code_simp
  finally show ?thesis by simp
qed

end
