(* ===== verification/Registry.thy ===== *)
theory Registry
  imports C_Strings
begin

text \<open>
  The in-memory registry of src/register.c: the tree of keys with their values, the table of
  fake handles and the handle cache.  Keys are cells of a heap (a partial map from
  addresses, 0 is the null pointer), so a handle to a freed key is visible as an address
  without a cell, and following it is None.  The child/sibling list of a key is the list of
  the addresses in link order, the value list of a key the list of its values.  Allocation
  of keys, values and strings is assumed to succeed, as the code does.
\<close>

section \<open>Keys and values\<close>

type_synonym raddr = nat

record regvalue =
  v_name :: wstr
  v_type :: u32
  v_data :: bytes

record regkey =
  k_name :: "wstr option"
  k_parent :: raddr
  k_children :: "raddr list"
  k_values :: "regvalue list"

type_synonym rheap = "raddr \<Rightarrow> regkey option"

record registry =
  rheap :: rheap
  next_key :: raddr
  g_regRoot :: raddr
  g_fakeKeyTable :: "raddr list"      \<comment> \<open>the first \<open>g_fakeKeyCount\<close> entries\<close>
  g_fakeKeyPaths :: "wstr list"
  g_handleCache :: "(wstr \<times> u32) list"
  g_isWow64 :: bool
  reg_file :: "bytes option"          \<comment> \<open>the file register.reg\<close>
  reg_error :: u32                    \<comment> \<open>last error\<close>

definition backslash :: u16 where "backslash = 92"

definition HKEY_CLASSES_ROOT :: u32 where "HKEY_CLASSES_ROOT = 0x80000000"
definition HKEY_CURRENT_USER :: u32 where "HKEY_CURRENT_USER = 0x80000001"
definition HKEY_LOCAL_MACHINE :: u32 where "HKEY_LOCAL_MACHINE = 0x80000002"
definition HKEY_USERS :: u32 where "HKEY_USERS = 0x80000003"
definition FAKE_SERVICE_KEY :: u32 where "FAKE_SERVICE_KEY = 0x10000001"
definition FAKE_HANDLE_BASE :: u32 where "FAKE_HANDLE_BASE = 0x30000000"
definition MAX_CACHED_HANDLES :: nat where "MAX_CACHED_HANDLES = 512"

lemmas hkey_defs = HKEY_CLASSES_ROOT_def HKEY_CURRENT_USER_def HKEY_LOCAL_MACHINE_def
  HKEY_USERS_def FAKE_SERVICE_KEY_def FAKE_HANDLE_BASE_def

section \<open>Redirection for 32-bit processes\<close>

definition SOFTWARE :: wstr where "SOFTWARE = str ''SOFTWARE''"
definition WOW6432Node :: wstr where "WOW6432Node = str ''WOW6432Node''"

text \<open>The copies into 512 and 256 character buffers keep 511 and 255 characters.\<close>

definition RedirectSubKey :: "bool \<Rightarrow> u32 \<Rightarrow> wstr option \<Rightarrow> wstr" where
  "RedirectSubKey wow64 hKey lpSubKey =
     (let sub = (case lpSubKey of None \<Rightarrow> [] | Some s \<Rightarrow> s) in
      if hKey \<noteq> HKEY_LOCAL_MACHINE \<or> \<not> wow64 then sub
      else
        (case wcstok backslash (take 511 sub) of
           None \<Rightarrow> sub
         | Some (first, _) \<Rightarrow>
             if icmp_eq first SOFTWARE then
               (let rem0 = drop (length first) sub;
                    remainder = (if rem0 \<noteq> [] \<and> hd rem0 = backslash then tl rem0 else rem0) in
                (case wcstok backslash (take 255 remainder) of
                   Some (second, _) \<Rightarrow>
                     if icmp_eq second WOW6432Node then sub
                     else SOFTWARE @ backslash # WOW6432Node @
                          (if remainder \<noteq> [] then backslash # remainder else [])
                 | None \<Rightarrow> SOFTWARE @ backslash # WOW6432Node @
                          (if remainder \<noteq> [] then backslash # remainder else [])))
             else sub))"

section \<open>Finding and creating keys\<close>

fun find_child :: "rheap \<Rightarrow> raddr list \<Rightarrow> wstr \<Rightarrow> raddr option option" where
  \<comment> \<open>the outer option is None when a dangling key or a null name is compared\<close>
  "find_child hp [] tok = Some None"
| "find_child hp (c # cs) tok = do {
     k \<leftarrow> hp c;
     nm \<leftarrow> k_name k;
     if icmp_eq nm tok then Some (Some c) else find_child hp cs tok }"

definition CreateKey :: "registry \<Rightarrow> raddr \<Rightarrow> wstr \<Rightarrow> (registry \<times> raddr) option" where
  "CreateKey r parent name =
     (let a = next_key r;
          key = \<lparr>k_name = (if name = [] then None else Some name), k_parent = parent,
                 k_children = [], k_values = []\<rparr>;
          hp = (rheap r)(a \<mapsto> key) in
      if parent = 0 then Some (r\<lparr>rheap := hp, next_key := a + 1\<rparr>, a)
      else do {
        p \<leftarrow> hp parent;
        Some (r\<lparr>rheap := hp(parent \<mapsto> p\<lparr>k_children := a # k_children p\<rparr>), next_key := a + 1\<rparr>, a) })"

fun walk_path :: "registry \<Rightarrow> raddr \<Rightarrow> wstr list \<Rightarrow> bool \<Rightarrow> (registry \<times> raddr) option" where
  "walk_path r cur [] create = Some (r, cur)"
| "walk_path r cur (tok # ts) create = do {
     k \<leftarrow> rheap r cur;
     c \<leftarrow> find_child (rheap r) (k_children k) tok;
     case c of
       Some a \<Rightarrow> walk_path r a ts create
     | None \<Rightarrow>
         if \<not> create then Some (r, 0)
         else do {
           (r', a) \<leftarrow> CreateKey r cur tok;
           walk_path r' a ts create } }"

text \<open>The result address 0 is the null pointer: not found.\<close>

definition NavigatePath ::
    "registry \<Rightarrow> raddr \<Rightarrow> wstr \<Rightarrow> bool \<Rightarrow> (registry \<times> raddr) option" where
  "NavigatePath r base path create =
     (let b = (if base = 0 then g_regRoot r else base) in
      if path = [] then Some (r, b)
      else walk_path r b (tokens backslash (take 511 path)) create)"

definition KeyExists :: "registry \<Rightarrow> raddr \<Rightarrow> wstr \<Rightarrow> bool option" where
  "KeyExists r base path =
     (let b = (if base = 0 then g_regRoot r else base) in
      if path = [] then Some True
      else do {
        (_, a) \<leftarrow> walk_path r b (tokens backslash (take 511 path)) False;
        Some (a \<noteq> 0) })"

definition FindKeyByPath :: "registry \<Rightarrow> raddr \<Rightarrow> wstr \<Rightarrow> raddr option" where
  "FindKeyByPath r root path =
     (if path = [] then Some root
      else map_option snd (walk_path r root (tokens backslash (take 255 path)) False))"

section \<open>Values\<close>

fun find_value :: "regvalue list \<Rightarrow> wstr \<Rightarrow> regvalue option" where
  "find_value [] name = None"
| "find_value (v # vs) name = (if icmp_eq (v_name v) name then Some v else find_value vs name)"

fun update_value :: "regvalue list \<Rightarrow> wstr \<Rightarrow> u32 \<Rightarrow> bytes \<Rightarrow> regvalue list option" where
  \<comment> \<open>None when there is no value of that name\<close>
  "update_value [] name t d = None"
| "update_value (v # vs) name t d =
     (if icmp_eq (v_name v) name then Some (v\<lparr>v_type := t, v_data := d\<rparr> # vs)
      else map_option (\<lambda>vs'. v # vs') (update_value vs name t d))"

definition set_value :: "regvalue list \<Rightarrow> wstr \<Rightarrow> u32 \<Rightarrow> bytes \<Rightarrow> regvalue list" where
  "set_value vs name t d =
     (case update_value vs name t d of
        Some vs' \<Rightarrow> vs'
      | None \<Rightarrow> \<lparr>v_name = name, v_type = t, v_data = d\<rparr> # vs)"

definition SetValue :: "registry \<Rightarrow> raddr \<Rightarrow> wstr \<Rightarrow> u32 \<Rightarrow> bytes \<Rightarrow> u32 \<Rightarrow> registry option" where
  "SetValue r key name type src cb = do {
     k \<leftarrow> rheap r key;
     d \<leftarrow> mem_read src 0 (unat cb);
     Some (r\<lparr>rheap := (rheap r)(key \<mapsto> k\<lparr>k_values := set_value (k_values k) name type d\<rparr>)\<rparr>) }"

text \<open>
  \<open>GetValue\<close>: None is a fault; the inner result is the BOOL, the type when the value exists,
  the size stored through the pointer and the bytes copied to the buffer (None for a null
  buffer or no copy).
\<close>

definition v_size :: "regvalue \<Rightarrow> u32" where
  "v_size v = of_nat (length (v_data v))"

datatype get_result = Not_Found | Got u32 u32 "bytes option" | Too_Small u32 u32

definition GetValue :: "registry \<Rightarrow> raddr \<Rightarrow> wstr \<Rightarrow> bool \<Rightarrow> u32 \<Rightarrow> get_result option" where
  "GetValue r key name has_buf cb = do {
     k \<leftarrow> rheap r key;
     Some (case find_value (k_values k) name of
             None \<Rightarrow> Not_Found
           | Some v \<Rightarrow>
               if has_buf \<and> v_size v \<le> cb then Got (v_type v) (v_size v) (Some (v_data v))
               else if \<not> has_buf then Got (v_type v) (v_size v) None
               else Too_Small (v_type v) (v_size v)) }"

fun remove_value :: "regvalue list \<Rightarrow> wstr \<Rightarrow> regvalue list option" where
  "remove_value [] name = None"
| "remove_value (v # vs) name =
     (if icmp_eq (v_name v) name then Some vs
      else map_option (\<lambda>vs'. v # vs') (remove_value vs name))"

section \<open>Handles\<close>

definition handle_index :: "u32 \<Rightarrow> nat" where
  "handle_index hKey = unat (hKey - FAKE_HANDLE_BASE)"

definition HandleToKey :: "registry \<Rightarrow> u32 \<Rightarrow> raddr" where
  "HandleToKey r hKey =
     (if hKey = FAKE_SERVICE_KEY then 0
      else if handle_index hKey < length (g_fakeKeyTable r)
      then g_fakeKeyTable r ! handle_index hKey else 0)"

definition GetKeyPath :: "registry \<Rightarrow> u32 \<Rightarrow> wstr option" where
  "GetKeyPath r hKey =
     (if hKey = FAKE_SERVICE_KEY then None
      else if handle_index hKey < length (g_fakeKeyPaths r)
      then Some (g_fakeKeyPaths r ! handle_index hKey) else None)"

definition AllocHandle :: "registry \<Rightarrow> raddr \<Rightarrow> wstr \<Rightarrow> registry \<times> u32" where
  "AllocHandle r key fullPath =
     (r\<lparr>g_fakeKeyTable := g_fakeKeyTable r @ [key], g_fakeKeyPaths := g_fakeKeyPaths r @ [fullPath]\<rparr>,
      FAKE_HANDLE_BASE + of_nat (length (g_fakeKeyTable r)))"

fun cache_find :: "(wstr \<times> u32) list \<Rightarrow> wstr \<Rightarrow> u32 option" where
  "cache_find [] path = None"
| "cache_find ((p, hd') # cs) path = (if icmp_eq p path then Some hd' else cache_find cs path)"

definition CacheLookup :: "registry \<Rightarrow> wstr \<Rightarrow> u32 \<Rightarrow> registry \<times> u32" where
  "CacheLookup r fullPath newHandle =
     (case cache_find (g_handleCache r) fullPath of
        Some hd' \<Rightarrow> (r, hd')
      | None \<Rightarrow>
          (if length (g_handleCache r) < MAX_CACHED_HANDLES
           then r\<lparr>g_handleCache := g_handleCache r @ [(fullPath, newHandle)]\<rparr> else r, newHandle))"

definition BuildFullPath :: "registry \<Rightarrow> u32 \<Rightarrow> wstr \<Rightarrow> wstr" where
  "BuildFullPath r hKey sub =
     (if hKey = HKEY_LOCAL_MACHINE \<or> hKey = HKEY_CURRENT_USER \<or> hKey = HKEY_CLASSES_ROOT \<or>
         hKey = HKEY_USERS
      then sub
      else case GetKeyPath r hKey of
        None \<Rightarrow> sub
      | Some base \<Rightarrow> base @ (if sub \<noteq> [] then backslash # sub else []))"

definition ResetHandleTable :: "registry \<Rightarrow> registry" where
  "ResetHandleTable r = r\<lparr>g_fakeKeyTable := [], g_fakeKeyPaths := [], g_handleCache := []\<rparr>"

end
