(* ===== verification/Registry_File.thy ===== *)
theory Registry_File
  imports Registry
begin

text \<open>
  The file register.reg of src/register.c: the recursive writer and reader of the key tree.
  Written data are appended to the file in order, so a writer is the list of bytes it
  appends; a reader takes bytes from the front of the rest of the file.  A read behind the
  end of the file leaves the variable uninitialised in C, and a name without a terminator
  is read past its buffer; both are None.
\<close>

section \<open>Strings in the file\<close>

definition take_bytes :: "nat \<Rightarrow> bytes \<Rightarrow> (bytes \<times> bytes) option" where
  "take_bytes n inp = (if n \<le> length inp then Some (take n inp, drop n inp) else None)"

definition WriteWideString :: "wstr option \<Rightarrow> bytes" where
  "WriteWideString s =
     (case s of
        None \<Rightarrow> le32 1
      | Some s \<Rightarrow>
          (let len = of_nat (length s) + 1 :: u32 in
           le32 len @ take (unat (len * 2)) (wbytes (s @ [0]))))"

definition ReadWideString :: "bytes \<Rightarrow> (wstr option \<times> bytes) option" where
  "ReadWideString inp = do {
     (b, inp) \<leftarrow> take_bytes 4 inp;
     let len = of_le32 b;
     if len = 0 then Some (None, inp)
     else do {
       (d, inp) \<leftarrow> take_bytes (unat (len * 2)) inp;
       let ws = of_wbytes d;
       if 0 \<in> set ws then Some (Some (takeWhile (\<lambda>c. c \<noteq> 0) ws), inp) else None } }"

definition read_dword :: "bytes \<Rightarrow> (u32 \<times> bytes) option" where
  "read_dword inp = do { (b, inp) \<leftarrow> take_bytes 4 inp; Some (of_le32 b, inp) }"

section \<open>Saving\<close>

definition save_value :: "regvalue \<Rightarrow> bytes" where
  "save_value v =
     WriteWideString (Some (v_name v)) @ le32 (v_type v) @ le32 (v_size v) @ v_data v"

definition save_values :: "regvalue list \<Rightarrow> bytes" where
  "save_values vs = le32 (of_nat (length vs)) @ concat (map save_value vs)"

text \<open>
  \<open>save_keys\<close> is the loop of \<open>SaveKeyToFile\<close> over a sibling list; the recursion has no
  bound in the code, so a run that does not return (a cyclic tree) has the value None.
\<close>

partial_function (option) save_keys :: "rheap \<Rightarrow> raddr list \<Rightarrow> bytes option" where
  "save_keys hp ks =
     (case ks of
        [] \<Rightarrow> Some []
      | a # as \<Rightarrow> do {
          k \<leftarrow> hp a;
          subs \<leftarrow> save_keys hp (k_children k);
          rest \<leftarrow> save_keys hp as;
          Some (WriteWideString (Some (case k_name k of None \<Rightarrow> [] | Some s \<Rightarrow> s)) @
                save_values (k_values k) @
                le32 (of_nat (length (k_children k))) @ subs @ rest) })"

definition SaveKeyToFile :: "rheap \<Rightarrow> raddr \<Rightarrow> bytes option" where
  "SaveKeyToFile hp a = save_keys hp [a]"

definition REGFILE_MAGIC :: u32 where "REGFILE_MAGIC = 0x46424752"

text \<open>What the system answers to creating the temporary file and to the rename.\<close>

record save_env =
  tmp_created :: bool
  moved :: bool

definition SaveRegistryToFile :: "save_env \<Rightarrow> registry \<Rightarrow> (registry \<times> bool) option" where
  "SaveRegistryToFile env r =
     (if \<not> tmp_created env then Some (r, False)
      else do {
        b \<leftarrow> SaveKeyToFile (rheap r) (g_regRoot r);
        if moved env then Some (r\<lparr>reg_file := Some (le32 REGFILE_MAGIC @ b)\<rparr>, True)
        else Some (r, False) })"

definition AutoSave :: "save_env \<Rightarrow> registry \<Rightarrow> registry option" where
  "AutoSave env r = map_option fst (SaveRegistryToFile env r)"

section \<open>Loading\<close>

definition load_value :: "registry \<Rightarrow> raddr \<Rightarrow> bytes \<Rightarrow> (registry \<times> bytes) option" where
  "load_value r key inp = do {
     (nm, inp) \<leftarrow> ReadWideString inp;
     (type, inp) \<leftarrow> read_dword inp;
     (cb, inp) \<leftarrow> read_dword inp;
     (d, inp) \<leftarrow> take_bytes (unat cb) inp;
     vname \<leftarrow> nm;    \<comment> \<open>a null name is passed to \<open>_wcsicmp\<close>\<close>
     r \<leftarrow> SetValue r key vname type d cb;
     Some (r, inp) }"

fun load_values :: "nat \<Rightarrow> registry \<Rightarrow> raddr \<Rightarrow> bytes \<Rightarrow> (registry \<times> bytes) option" where
  "load_values 0 r key inp = Some (r, inp)"
| "load_values (Suc n) r key inp = do {
     (r, inp) \<leftarrow> load_value r key inp;
     load_values n r key inp }"

text \<open>\<open>load_keys n\<close> is the loop that calls \<open>LoadKeyFromFile(parent)\<close> \<open>n\<close> times.\<close>

partial_function (option) load_keys ::
    "nat \<Rightarrow> registry \<Rightarrow> raddr \<Rightarrow> bytes \<Rightarrow> (registry \<times> bytes) option" where
  "load_keys n r parent inp =
     (if n = 0 then Some (r, inp)
      else do {
        (nm, inp) \<leftarrow> ReadWideString inp;
        (case nm of
           None \<Rightarrow> load_keys (n - 1) r parent inp
         | Some name \<Rightarrow> do {
             (r, key) \<leftarrow> CreateKey r parent name;
             (valCount, inp) \<leftarrow> read_dword inp;
             (r, inp) \<leftarrow> load_values (unat valCount) r key inp;
             (subCount, inp) \<leftarrow> read_dword inp;
             (r, inp) \<leftarrow> load_keys (unat subCount) r key inp;
             load_keys (n - 1) r parent inp }) })"

definition LoadRegistryFromFile :: "registry \<Rightarrow> (registry \<times> bool) option" where
  "LoadRegistryFromFile r =
     (case reg_file r of
        None \<Rightarrow> Some (r, False)
      | Some inp \<Rightarrow> do {
          (magic, inp) \<leftarrow> read_dword inp;
          if magic \<noteq> REGFILE_MAGIC then Some (r, False)
          else do {
            (rootName, inp) \<leftarrow> ReadWideString inp;
            (case rootName of
               None \<Rightarrow> Some (r, True)
             | Some rn \<Rightarrow>
                 if rn \<noteq> [] then do {
                   (r, firstKey) \<leftarrow> CreateKey r (g_regRoot r) rn;
                   (valCount, inp) \<leftarrow> read_dword inp;
                   (r, inp) \<leftarrow> load_values (unat valCount) r firstKey inp;
                   (subCount, inp) \<leftarrow> read_dword inp;
                   (r, inp) \<leftarrow> load_keys (unat subCount) r firstKey inp;
                   Some (r, True) }
                 else do {
                   (dummy, inp) \<leftarrow> read_dword inp;
                   (subCount, inp) \<leftarrow> read_dword inp;
                   (r, inp) \<leftarrow> load_keys (unat subCount) r (g_regRoot r) inp;
                   Some (r, True) }) } })"

section \<open>Start-up\<close>

text \<open>
  The part of \<open>Register_InstallHooks\<close> before its dump of the tree (\<open>Tree_Dump\<close>): an empty root, the
  file, an empty handle table.  The addresses of the real functions are looked up one by one; the
  hooks below take as an argument whether theirs was found.
\<close>

definition Register_InstallHooks :: "bool \<Rightarrow> bytes option \<Rightarrow> registry option" where
  "Register_InstallHooks wow64 file = do {
     let r0 = \<lparr>rheap = (\<lambda>_. None), next_key = 1, g_regRoot = 0, g_fakeKeyTable = [],
               g_fakeKeyPaths = [], g_handleCache = [], g_isWow64 = wow64, reg_file = file,
               reg_error = 0\<rparr>;
     (r1, root) \<leftarrow> CreateKey r0 0 [];
     (r2, _) \<leftarrow> LoadRegistryFromFile (r1\<lparr>g_regRoot := root\<rparr>);
     Some (ResetHandleTable r2) }"

end
