(* ===== verification/Registry_Hooks.thy ===== *)
theory Registry_Hooks
  imports Registry_File
begin

text \<open>
  The replacements of the advapi32 registry functions in src/register.c.  A hook returns the
  new registry and either \<open>Forwarded\<close>, when it leaves the call to the real function, or
  \<open>Ret code out\<close>; \<open>real\<close> says whether the address of the real function was found.  Pointer
  arguments that may be null are options; a buffer is the list of the units the caller owns
  from the pointer on, so an access behind it is None.  The dumps of values that the hooks
  write to the log read memory too, and these reads are part of the model.
\<close>

datatype 'o reg_ret = Forwarded | Ret u32 'o

type_synonym 'o hook_result = "(registry \<times> 'o reg_ret) option"

definition ERROR_SUCCESS :: u32 where "ERROR_SUCCESS = 0"
definition ERROR_FILE_NOT_FOUND :: u32 where "ERROR_FILE_NOT_FOUND = 2"
definition ERROR_INVALID_HANDLE :: u32 where "ERROR_INVALID_HANDLE = 6"
definition ERROR_INVALID_PARAMETER :: u32 where "ERROR_INVALID_PARAMETER = 87"
definition ERROR_MORE_DATA :: u32 where "ERROR_MORE_DATA = 234"
definition ERROR_NO_MORE_ITEMS :: u32 where "ERROR_NO_MORE_ITEMS = 259"

lemmas reg_codes = ERROR_SUCCESS_def ERROR_FILE_NOT_FOUND_def ERROR_INVALID_HANDLE_def
  ERROR_INVALID_PARAMETER_def ERROR_MORE_DATA_def ERROR_NO_MORE_ITEMS_def

definition REG_SZ :: u32 where "REG_SZ = 1"
definition REG_EXPAND_SZ :: u32 where "REG_EXPAND_SZ = 2"
definition REG_BINARY :: u32 where "REG_BINARY = 3"
definition REG_DWORD :: u32 where "REG_DWORD = 4"
definition REG_MULTI_SZ :: u32 where "REG_MULTI_SZ = 7"
definition REG_QWORD :: u32 where "REG_QWORD = 11"

lemmas reg_types = REG_SZ_def REG_EXPAND_SZ_def REG_BINARY_def REG_DWORD_def REG_MULTI_SZ_def
  REG_QWORD_def

text \<open>\<open>SetLastError(c); return c;\<close>\<close>

definition fail :: "registry \<Rightarrow> u32 \<Rightarrow> 'o \<Rightarrow> 'o hook_result" where
  "fail r c out = Some (r\<lparr>reg_error := c\<rparr>, Ret c out)"

definition not_ours :: "bool \<Rightarrow> registry \<Rightarrow> 'o \<Rightarrow> 'o hook_result" where
  "not_ours real r out = (if real then Some (r, Forwarded) else fail r ERROR_INVALID_HANDLE out)"

definition wstr_of :: "wstr option \<Rightarrow> wstr" where
  "wstr_of s = (case s of None \<Rightarrow> [] | Some s \<Rightarrow> s)"

section \<open>Opening and creating keys\<close>

definition RVPNNETMP :: wstr where "RVPNNETMP = str ''RVPNNETMP''"

definition is_fake_service :: "wstr option \<Rightarrow> bool" where
  "is_fake_service sub = (case sub of None \<Rightarrow> False | Some s \<Rightarrow> contains s RVPNNETMP)"

definition is_root_key :: "u32 \<Rightarrow> bool" where
  "is_root_key hKey \<longleftrightarrow>
     hKey = HKEY_LOCAL_MACHINE \<or> hKey = HKEY_CURRENT_USER \<or> hKey = HKEY_CLASSES_ROOT"

text \<open>The common tail: build the path, allocate a handle, prefer a cached one.\<close>

definition give_handle :: "registry \<Rightarrow> u32 \<Rightarrow> wstr \<Rightarrow> raddr \<Rightarrow> registry \<times> u32" where
  "give_handle r hKey redirected key =
     (let fullPath = BuildFullPath r hKey redirected;
          (r, newHandle) = AllocHandle r key fullPath in
      CacheLookup r fullPath newHandle)"

definition REG_CREATED_NEW_KEY :: u32 where "REG_CREATED_NEW_KEY = 1"
definition REG_OPENED_EXISTING_KEY :: u32 where "REG_OPENED_EXISTING_KEY = 2"

text \<open>Output: the handle and the disposition.\<close>

definition Hook_RegCreateKeyExW ::
    "save_env \<Rightarrow> registry \<Rightarrow> u32 \<Rightarrow> wstr option \<Rightarrow> (u32 \<times> u32) option hook_result" where
  "Hook_RegCreateKeyExW env r hKey lpSubKey =
     (let redirected = RedirectSubKey (g_isWow64 r) hKey lpSubKey;
          base = (if is_root_key hKey then g_regRoot r else HandleToKey r hKey) in
      if \<not> is_root_key hKey \<and> base = 0 then fail r ERROR_INVALID_HANDLE None
      else do {
        existed \<leftarrow> KeyExists r base redirected;
        (r, key) \<leftarrow> NavigatePath r base redirected True;
        if key = 0 then fail r ERROR_INVALID_PARAMETER None
        else do {
          let disp = (if existed then REG_OPENED_EXISTING_KEY else REG_CREATED_NEW_KEY);
          let (r, h) = give_handle r hKey redirected key;
          r \<leftarrow> AutoSave env r;
          Some (r, Ret ERROR_SUCCESS (Some (h, disp))) } })"

definition Hook_RegOpenKeyExW ::
    "registry \<Rightarrow> u32 \<Rightarrow> wstr option \<Rightarrow> u32 option hook_result" where
  "Hook_RegOpenKeyExW r hKey lpSubKey =
     (if is_fake_service lpSubKey then Some (r, Ret ERROR_SUCCESS (Some FAKE_SERVICE_KEY))
      else
        (let redirected = RedirectSubKey (g_isWow64 r) hKey lpSubKey;
             base = (if is_root_key hKey then g_regRoot r else HandleToKey r hKey) in
         if \<not> is_root_key hKey \<and> base = 0 then fail r ERROR_INVALID_HANDLE None
         else do {
           (r, key) \<leftarrow> NavigatePath r base redirected False;
           if key = 0 then fail r ERROR_FILE_NOT_FOUND None
           else (let (r, h) = give_handle r hKey redirected key in
                 Some (r, Ret ERROR_SUCCESS (Some h))) }))"

text \<open>\<open>RegOpenKeyW\<close> and \<open>RegCreateKeyW\<close> also accept \<open>HKEY_USERS\<close> and forward unknown handles.\<close>

definition Hook_RegOpenKeyW ::
    "bool \<Rightarrow> registry \<Rightarrow> u32 \<Rightarrow> wstr option \<Rightarrow> u32 option hook_result" where
  "Hook_RegOpenKeyW real r hKey lpSubKey =
     (if is_fake_service lpSubKey then Some (r, Ret ERROR_SUCCESS (Some FAKE_SERVICE_KEY))
      else
        (let redirected = RedirectSubKey (g_isWow64 r) hKey lpSubKey;
             predefined = is_root_key hKey \<or> hKey = HKEY_USERS;
             base = (if predefined then g_regRoot r else HandleToKey r hKey) in
         if \<not> predefined \<and> base = 0 then not_ours real r None
         else do {
           (r, key) \<leftarrow> NavigatePath r base redirected False;
           if key = 0 then fail r ERROR_FILE_NOT_FOUND None
           else (let (r, h) = give_handle r hKey redirected key in
                 Some (r, Ret ERROR_SUCCESS (Some h))) }))"

definition Hook_RegCreateKeyW ::
    "save_env \<Rightarrow> bool \<Rightarrow> registry \<Rightarrow> u32 \<Rightarrow> wstr option \<Rightarrow> u32 option hook_result" where
  "Hook_RegCreateKeyW env real r hKey lpSubKey =
     (let redirected = RedirectSubKey (g_isWow64 r) hKey lpSubKey;
          predefined = is_root_key hKey \<or> hKey = HKEY_USERS;
          base = (if predefined then g_regRoot r else HandleToKey r hKey) in
      if \<not> predefined \<and> base = 0 then not_ours real r None
      else do {
        (r, key) \<leftarrow> NavigatePath r base redirected True;
        if key = 0 then fail r ERROR_INVALID_PARAMETER None
        else do {
          let (r, h) = give_handle r hKey redirected key;
          r \<leftarrow> AutoSave env r;
          Some (r, Ret ERROR_SUCCESS (Some h)) } })"

definition Hook_RegCloseKey :: "bool \<Rightarrow> registry \<Rightarrow> u32 \<Rightarrow> unit hook_result" where
  "Hook_RegCloseKey real r hKey =
     (if hKey = FAKE_SERVICE_KEY then Some (r, Ret ERROR_SUCCESS ())
      else if HandleToKey r hKey \<noteq> 0 then Some (r, Ret ERROR_SUCCESS ())
      else if real then Some (r, Forwarded) else Some (r, Ret ERROR_SUCCESS ()))"

section \<open>Values\<close>

text \<open>What the log of a value reads: \<open>%ls\<close> reads to the terminator, a DWORD four bytes.\<close>

definition read_wcs :: "bytes \<Rightarrow> unit option" where
  "read_wcs p = (if 0 \<in> set (of_wbytes p) then Some () else None)"

function read_multi :: "wstr \<Rightarrow> unit option" where
  "read_multi [] = None"
| "read_multi (c # p) =
     (if c = 0 then Some ()
      else if 0 \<in> set p then read_multi (drop 1 (dropWhile (\<lambda>d. d \<noteq> 0) p))
      else None)"
  by pat_completeness auto
termination
  by (relation "measure length") (auto simp: le_imp_less_Suc length_dropWhile_le less_Suc_eq_le
      intro: le_trans [OF diff_le_self length_dropWhile_le])

definition log_set_value :: "u32 \<Rightarrow> bytes option \<Rightarrow> u32 \<Rightarrow> unit option" where
  "log_set_value type lpData cb =
     (case lpData of
        None \<Rightarrow> Some ()
      | Some p \<Rightarrow>
          if cb = 0 then Some ()
          else if type = REG_SZ \<or> type = REG_EXPAND_SZ then read_wcs p
          else if type = REG_DWORD then
            (if 4 \<le> cb then map_option (\<lambda>_. ()) (mem_read p 0 4) else Some ())
          else if type = REG_QWORD then
            (if 8 \<le> cb then map_option (\<lambda>_. ()) (mem_read p 0 8) else Some ())
          else if type = REG_MULTI_SZ then read_multi (of_wbytes p)
          else if type = REG_BINARY then map_option (\<lambda>_. ()) (mem_read p 0 (unat cb))
          else map_option (\<lambda>_. ()) (mem_read p 0 (unat (min cb 64))))"

definition Hook_RegSetValueExW ::
    "save_env \<Rightarrow> registry \<Rightarrow> u32 \<Rightarrow> wstr option \<Rightarrow> u32 \<Rightarrow> bytes option \<Rightarrow> u32 \<Rightarrow> unit hook_result" where
  "Hook_RegSetValueExW env r hKey lpValueName dwType lpData cbData =
     (if hKey = FAKE_SERVICE_KEY then Some (r, Ret ERROR_SUCCESS ())
      else
        (let key = HandleToKey r hKey in
         if key = 0 then fail r ERROR_INVALID_HANDLE ()
         else do {
           _ \<leftarrow> log_set_value dwType lpData cbData;
           r \<leftarrow> SetValue r key (wstr_of lpValueName) dwType
                   (case lpData of None \<Rightarrow> [] | Some p \<Rightarrow> p) cbData;
           r \<leftarrow> AutoSave env r;
           Some (r, Ret ERROR_SUCCESS ()) }))"

text \<open>What a query stores: \<open>*lpType\<close> (when \<open>lpType\<close> is not null), the buffer, \<open>*lpcbData\<close>.\<close>

record query_out =
  q_type :: "u32 option"
  q_data :: "bytes option"
  q_cb :: "u32 option"

definition no_out :: "bytes option \<Rightarrow> u32 option \<Rightarrow> query_out" where
  "no_out lpData lpcbData = \<lparr>q_type = None, q_data = lpData, q_cb = lpcbData\<rparr>"

definition store_cb :: "u32 option \<Rightarrow> u32 \<Rightarrow> u32 option option" where
  \<comment> \<open>\<open>*lpcbData = n\<close>\<close>
  "store_cb lpcbData n = (case lpcbData of None \<Rightarrow> None | Some _ \<Rightarrow> Some (Some n))"

definition answer :: "registry \<Rightarrow> u32 \<Rightarrow> bool \<Rightarrow> u32 \<Rightarrow> bytes option \<Rightarrow> u32 option \<Rightarrow>
    query_out hook_result" where
  "answer r code has_type type buf cb =
     Some (r, Ret code \<lparr>q_type = (if has_type then Some type else None), q_data = buf, q_cb = cb\<rparr>)"

definition fake_value :: "registry \<Rightarrow> u32 \<Rightarrow> bytes \<Rightarrow> bool \<Rightarrow> bytes option \<Rightarrow> u32 option \<Rightarrow>
    query_out hook_result" where
  "fake_value r type d has_type lpData lpcbData =
     (let bufSize = (case lpcbData of None \<Rightarrow> 0 | Some n \<Rightarrow> n);
          needed = of_nat (length d) in
      case lpData of
        Some b \<Rightarrow>
          if needed \<le> bufSize then do {
            b' \<leftarrow> mem_write b 0 d;
            cb \<leftarrow> store_cb lpcbData needed;
            answer r ERROR_SUCCESS has_type type (Some b') cb }
          else do {
            cb \<leftarrow> store_cb lpcbData needed;
            answer r ERROR_MORE_DATA has_type type lpData cb }
      | None \<Rightarrow> do {
          cb \<leftarrow> store_cb lpcbData needed;
          answer r ERROR_MORE_DATA has_type type lpData cb })"

definition fake_image_path :: bytes where
  "fake_image_path = wbytes (backslash # str ''SystemRoot'' @ backslash # str ''System32'' @ backslash #
       str ''drivers'' @ backslash # str ''rvpnnetmp.sys'' @ [0])"

definition log_query :: "u32 \<Rightarrow> bytes option \<Rightarrow> u32 \<Rightarrow> unit option" where
  "log_query type lpData sz =
     (case lpData of
        None \<Rightarrow> Some ()
      | Some p \<Rightarrow>
          if sz = 0 then Some ()
          else if type = REG_SZ \<or> type = REG_EXPAND_SZ then read_wcs p
          else if type = REG_DWORD then map_option (\<lambda>_. ()) (mem_read p 0 4)
          else if type = REG_MULTI_SZ then read_multi (of_wbytes p)
          else if type = REG_BINARY then map_option (\<lambda>_. ()) (mem_read p 0 (unat sz))
          else Some ())"

text \<open>The branch for a key of the emulated registry.\<close>

definition query_key :: "registry \<Rightarrow> raddr \<Rightarrow> wstr \<Rightarrow> bool \<Rightarrow> bytes option \<Rightarrow> u32 option \<Rightarrow>
    query_out hook_result" where
  "query_key r key name has_type lpData lpcbData =
     (let bufSize = (case lpcbData of None \<Rightarrow> 0 | Some n \<Rightarrow> n) in do {
        g \<leftarrow> GetValue r key name False 0;
        (case g of
           Got type sz _ \<Rightarrow>
             (case lpData of
                Some b \<Rightarrow>
                  if bufSize < sz then do {
                    cb \<leftarrow> store_cb lpcbData sz;
                    answer r ERROR_MORE_DATA has_type type lpData cb }
                  else do {
                    g2 \<leftarrow> GetValue r key name True sz;
                    b' \<leftarrow> (case g2 of Got _ _ (Some d) \<Rightarrow> mem_write b 0 d | _ \<Rightarrow> Some b);
                    cb \<leftarrow> store_cb lpcbData sz;
                    _ \<leftarrow> log_query type (Some b') sz;
                    answer r ERROR_SUCCESS has_type type (Some b') cb }
              | None \<Rightarrow> do {
                  cb \<leftarrow> store_cb lpcbData sz;
                  answer r ERROR_SUCCESS has_type type None cb })
         | _ \<Rightarrow> fail r ERROR_FILE_NOT_FOUND (no_out lpData lpcbData)) })"

text \<open>A handle without a key is resolved again through its path; the key is created.\<close>

definition resolve_key :: "registry \<Rightarrow> u32 \<Rightarrow> (registry \<times> raddr) option" where
  "resolve_key r hKey =
     (let key = HandleToKey r hKey in
      if key \<noteq> 0 then Some (r, key)
      else (case GetKeyPath r hKey of
              None \<Rightarrow> Some (r, 0)
            | Some path \<Rightarrow> do {
                (r, key) \<leftarrow> NavigatePath r (g_regRoot r) path True;
                Some (if key \<noteq> 0 \<and> handle_index hKey < length (g_fakeKeyTable r)
                      then r\<lparr>g_fakeKeyTable := (g_fakeKeyTable r)[handle_index hKey := key]\<rparr>
                      else r, key) }))"

definition Hook_RegQueryValueExW ::
    "registry \<Rightarrow> u32 \<Rightarrow> wstr option \<Rightarrow> bool \<Rightarrow> bytes option \<Rightarrow> u32 option \<Rightarrow> query_out hook_result" where
  "Hook_RegQueryValueExW r hKey lpValueName has_type lpData lpcbData = do {
     (r, key) \<leftarrow> resolve_key r hKey;
     if key = 0 then fail r ERROR_INVALID_HANDLE (no_out lpData lpcbData)
     else if hKey = FAKE_SERVICE_KEY then
       (if lpValueName = Some (str ''ImagePath'')
        then fake_value r REG_EXPAND_SZ fake_image_path has_type lpData lpcbData
        else if lpValueName = Some (str ''Start'')
        then fake_value r REG_DWORD (le32 1) has_type lpData lpcbData
        else do {
          cb \<leftarrow> store_cb lpcbData 0;
          Some (r, Ret ERROR_SUCCESS ((no_out lpData lpcbData)\<lparr>q_cb := cb\<rparr>)) })
     else query_key r key (wstr_of lpValueName) has_type lpData lpcbData }"

definition Hook_RegDeleteValueW ::
    "save_env \<Rightarrow> bool \<Rightarrow> registry \<Rightarrow> u32 \<Rightarrow> wstr option \<Rightarrow> unit hook_result" where
  "Hook_RegDeleteValueW env real r hKey lpValueName =
     (if hKey = FAKE_SERVICE_KEY then Some (r, Ret ERROR_SUCCESS ())
      else
        (let key = HandleToKey r hKey in
         if key = 0 then not_ours real r ()
         else do {
           k \<leftarrow> rheap r key;
           (case remove_value (k_values k) (wstr_of lpValueName) of
              None \<Rightarrow> fail r ERROR_FILE_NOT_FOUND ()
            | Some vs \<Rightarrow> do {
                r \<leftarrow> AutoSave env (r\<lparr>rheap := (rheap r)(key \<mapsto> k\<lparr>k_values := vs\<rparr>)\<rparr>);
                Some (r, Ret ERROR_SUCCESS ()) }) }))"

section \<open>Deleting keys\<close>

text \<open>The child is unlinked and its cell freed; its own children stay allocated.\<close>

definition Hook_RegDeleteKeyW ::
    "save_env \<Rightarrow> bool \<Rightarrow> registry \<Rightarrow> u32 \<Rightarrow> wstr \<Rightarrow> unit hook_result" where
  "Hook_RegDeleteKeyW env real r hKey lpSubKey =
     (if hKey = FAKE_SERVICE_KEY then Some (r, Ret ERROR_SUCCESS ())
      else
        (let base = HandleToKey r hKey in
         if base = 0 then not_ours real r ()
         else do {
           k \<leftarrow> rheap r base;
           c \<leftarrow> find_child (rheap r) (k_children k) lpSubKey;
           (case c of
              None \<Rightarrow> fail r ERROR_FILE_NOT_FOUND ()
            | Some child \<Rightarrow> do {
                let hp = (rheap r)(base \<mapsto> k\<lparr>k_children := remove1 child (k_children k)\<rparr>);
                r \<leftarrow> AutoSave env (r\<lparr>rheap := hp(child := None)\<rparr>);
                Some (r, Ret ERROR_SUCCESS ()) }) }))"

definition Hook_RegDeleteKeyExW ::
    "save_env \<Rightarrow> bool \<Rightarrow> registry \<Rightarrow> u32 \<Rightarrow> wstr \<Rightarrow> unit hook_result" where
  "Hook_RegDeleteKeyExW env real r hKey lpSubKey = Hook_RegDeleteKeyW env real r hKey lpSubKey"

definition Hook_RegDeleteTreeW ::
    "save_env \<Rightarrow> bool \<Rightarrow> registry \<Rightarrow> u32 \<Rightarrow> wstr \<Rightarrow> unit hook_result" where
  "Hook_RegDeleteTreeW env real r hKey lpSubKey = Hook_RegDeleteKeyW env real r hKey lpSubKey"

definition Hook_RegCopyTreeW ::
    "registry \<Rightarrow> u32 \<Rightarrow> wstr option \<Rightarrow> u32 \<Rightarrow> unit hook_result" where
  "Hook_RegCopyTreeW r src lpSubKey dest = Some (r, Ret ERROR_SUCCESS ())"

definition Hook_RegSetKeySecurity :: "registry \<Rightarrow> u32 \<Rightarrow> u32 \<Rightarrow> unit hook_result" where
  "Hook_RegSetKeySecurity r hKey si = Some (r, Ret ERROR_SUCCESS ())"

definition Hook_RegNotifyChangeKeyValue :: "bool \<Rightarrow> registry \<Rightarrow> u32 \<Rightarrow> unit hook_result" where
  "Hook_RegNotifyChangeKeyValue real r hKey =
     (if hKey = FAKE_SERVICE_KEY \<or> HandleToKey r hKey \<noteq> 0 then Some (r, Ret ERROR_SUCCESS ())
      else not_ours real r ())"

section \<open>Enumeration\<close>

definition nth_opt :: "'a list \<Rightarrow> nat \<Rightarrow> 'a option" where
  "nth_opt xs i = (if i < length xs then Some (xs ! i) else None)"

definition lstrcpyn :: "wstr \<Rightarrow> wstr \<Rightarrow> u32 \<Rightarrow> wstr option" where
  "lstrcpyn buf src n =
     (if n = 0 then Some buf else mem_write buf 0 (take (unat n - 1) src @ [0]))"

text \<open>Output of \<open>RegEnumKeyExW\<close>: the name buffer and \<open>*lpcchName\<close>.\<close>

definition Hook_RegEnumKeyExW ::
    "bool \<Rightarrow> registry \<Rightarrow> u32 \<Rightarrow> u32 \<Rightarrow> wstr \<Rightarrow> u32 \<Rightarrow> (wstr \<times> u32) hook_result" where
  "Hook_RegEnumKeyExW real r hKey dwIndex lpName cchName =
     (if hKey = FAKE_SERVICE_KEY then fail r ERROR_NO_MORE_ITEMS (lpName, cchName)
      else
        (let key = HandleToKey r hKey in
         if key = 0 then not_ours real r (lpName, cchName)
         else do {
           k \<leftarrow> rheap r key;
           (case nth_opt (k_children k) (unat dwIndex) of
              None \<Rightarrow> fail r ERROR_NO_MORE_ITEMS (lpName, cchName)
            | Some c \<Rightarrow> do {
                ck \<leftarrow> rheap r c;
                (case k_name ck of
                   Some nm \<Rightarrow>
                     (let len = of_nat (length nm) in
                      if cchName \<le> len then Some (r, Ret ERROR_MORE_DATA (lpName, len + 1))
                      else do {
                        b \<leftarrow> lstrcpyn lpName nm cchName;
                        Some (r, Ret ERROR_SUCCESS (b, len)) })
                 | None \<Rightarrow> do {
                     b \<leftarrow> mem_write lpName 0 [0];
                     Some (r, Ret ERROR_SUCCESS (b, 0)) }) }) }))"

definition Hook_RegEnumKeyW ::
    "bool \<Rightarrow> registry \<Rightarrow> u32 \<Rightarrow> u32 \<Rightarrow> wstr \<Rightarrow> u32 \<Rightarrow> wstr hook_result" where
  "Hook_RegEnumKeyW real r hKey dwIndex lpName cchName =
     (if hKey = FAKE_SERVICE_KEY then fail r ERROR_NO_MORE_ITEMS lpName
      else
        (let key = HandleToKey r hKey in
         if key = 0 then not_ours real r lpName
         else do {
           k \<leftarrow> rheap r key;
           (case nth_opt (k_children k) (unat dwIndex) of
              None \<Rightarrow> fail r ERROR_NO_MORE_ITEMS lpName
            | Some c \<Rightarrow> do {
                ck \<leftarrow> rheap r c;
                b \<leftarrow> (case k_name ck of
                        Some nm \<Rightarrow> lstrcpyn lpName nm cchName
                      | None \<Rightarrow> mem_write lpName 0 [0]);
                Some (r, Ret ERROR_SUCCESS b) }) }))"

record enum_value_out =
  ev_name :: "wstr option"       \<comment> \<open>the buffer \<open>lpValueName\<close>\<close>
  ev_cch :: "u32 option"         \<comment> \<open>\<open>*lpcchValueName\<close>\<close>
  ev_type :: "u32 option"        \<comment> \<open>\<open>*lpType\<close>, None when not stored\<close>
  ev_data :: "bytes option"
  ev_cb :: "u32 option"

text \<open>The part behind the name: type, data and size.\<close>

definition enum_value_data :: "registry \<Rightarrow> regvalue \<Rightarrow> bool \<Rightarrow> enum_value_out \<Rightarrow>
    enum_value_out hook_result" where
  "enum_value_data r v has_type out =
     (let out = out\<lparr>ev_type := (if has_type then Some (v_type v) else None)\<rparr> in
      case (ev_data out, ev_cb out) of
        (Some d, Some cb) \<Rightarrow>
          if cb < v_size v then Some (r, Ret ERROR_MORE_DATA (out\<lparr>ev_cb := Some (v_size v)\<rparr>))
          else do {
            d' \<leftarrow> mem_write d 0 (v_data v);
            Some (r, Ret ERROR_SUCCESS (out\<lparr>ev_data := Some d', ev_cb := Some (v_size v)\<rparr>)) }
      | (None, Some cb) \<Rightarrow> Some (r, Ret ERROR_SUCCESS (out\<lparr>ev_cb := Some (v_size v)\<rparr>))
      | (_, None) \<Rightarrow> Some (r, Ret ERROR_SUCCESS out))"

definition Hook_RegEnumValueW ::
    "bool \<Rightarrow> registry \<Rightarrow> u32 \<Rightarrow> u32 \<Rightarrow> wstr option \<Rightarrow> u32 option \<Rightarrow> bool \<Rightarrow> bytes option \<Rightarrow>
     u32 option \<Rightarrow> enum_value_out hook_result" where
  "Hook_RegEnumValueW real r hKey dwIndex lpName lpcch has_type lpData lpcbData =
     (let out = \<lparr>ev_name = lpName, ev_cch = lpcch, ev_type = None, ev_data = lpData,
                 ev_cb = lpcbData\<rparr> in
      if hKey = FAKE_SERVICE_KEY then fail r ERROR_NO_MORE_ITEMS out
      else
        (let key = HandleToKey r hKey in
         if key = 0 then not_ours real r out
         else do {
           k \<leftarrow> rheap r key;
           (case nth_opt (k_values k) (unat dwIndex) of
              None \<Rightarrow> fail r ERROR_NO_MORE_ITEMS out
            | Some v \<Rightarrow>
                (case lpcch of
                   None \<Rightarrow> enum_value_data r v has_type out
                 | Some cch \<Rightarrow>
                     (let nameLen = of_nat (length (v_name v)) in
                      if cch \<le> nameLen
                      then Some (r, Ret ERROR_MORE_DATA (out\<lparr>ev_cch := Some (nameLen + 1)\<rparr>))
                      else do {
                        nm \<leftarrow> (case lpName of
                                 None \<Rightarrow> Some None
                               | Some b \<Rightarrow> map_option Some (lstrcpyn b (v_name v) cch));
                        enum_value_data r v has_type
                          (out\<lparr>ev_name := nm, ev_cch := Some nameLen\<rparr>) }))) }))"

fun child_name_lens :: "rheap \<Rightarrow> raddr list \<Rightarrow> u32 list option" where
  "child_name_lens hp [] = Some []"
| "child_name_lens hp (c # cs) = do {
     k \<leftarrow> hp c;
     ls \<leftarrow> child_name_lens hp cs;
     Some ((case k_name k of None \<Rightarrow> 0 | Some s \<Rightarrow> of_nat (length s)) # ls) }"

definition max_of :: "u32 list \<Rightarrow> u32" where
  "max_of ls = fold (\<lambda>l m. if m < l then l else m) ls 0"

record key_info =
  cSubKeys :: u32
  cbMaxSubKeyLen :: u32
  cValues :: u32
  cbMaxValueNameLen :: u32
  cbMaxValueLen :: u32

text \<open>
  All output pointers are taken to be given; for the fake service key only the two counts
  are stored, the other fields stay as they were.  \<open>lpClass\<close> is None for a null pointer:
  the terminator is stored through it when \<open>lpcchClass\<close> is given.
\<close>

definition Hook_RegQueryInfoKeyW ::
    "bool \<Rightarrow> registry \<Rightarrow> u32 \<Rightarrow> wstr option \<Rightarrow> bool \<Rightarrow> key_info \<Rightarrow>
     (key_info \<times> wstr option) hook_result" where
  "Hook_RegQueryInfoKeyW real r hKey lpClass has_cch info = do {
     let put_class = (if has_cch
                      then Option.bind lpClass (\<lambda>b. map_option Some (mem_write b 0 [0]))
                      else Some lpClass);
     if hKey = FAKE_SERVICE_KEY then do {
       cl \<leftarrow> put_class;
       Some (r, Ret ERROR_SUCCESS (info\<lparr>cSubKeys := 0, cValues := 0\<rparr>, cl)) }
     else do {
       let key = HandleToKey r hKey;
       if key = 0 then not_ours real r (info, lpClass)
       else do {
         k \<leftarrow> rheap r key;
         ls \<leftarrow> child_name_lens (rheap r) (k_children k);
         cl \<leftarrow> put_class;
         Some (r, Ret ERROR_SUCCESS
           (\<lparr>cSubKeys = of_nat (length ls), cbMaxSubKeyLen = max_of ls + 1,
             cValues = of_nat (length (k_values k)),
             cbMaxValueNameLen = max_of (map (\<lambda>v. of_nat (length (v_name v))) (k_values k)) + 1,
             cbMaxValueLen = max_of (map v_size (k_values k))\<rparr>, cl)) } } }"

section \<open>RegGetValueW\<close>

definition RRF_RT_REG_SZ :: u32 where "RRF_RT_REG_SZ = 2"
definition RRF_NOEXPAND :: u32 where "RRF_NOEXPAND = 0x10000000"

definition finish_get :: "u32 \<Rightarrow> query_out hook_result \<Rightarrow> query_out hook_result" where
  "finish_get dwFlags res = do {
     (r, ret) \<leftarrow> res;
     (case ret of
        Forwarded \<Rightarrow> Some (r, Forwarded)
      | Ret code out \<Rightarrow>
          if code = ERROR_SUCCESS \<and> q_type out = Some REG_EXPAND_SZ \<and>
             dwFlags AND RRF_NOEXPAND = 0 \<and> dwFlags AND RRF_RT_REG_SZ \<noteq> 0
          then Some (r, Ret code (out\<lparr>q_type := Some REG_SZ\<rparr>))
          else Some (r, Ret code out)) }"

definition Hook_RegGetValueW ::
    "registry \<Rightarrow> u32 \<Rightarrow> wstr option \<Rightarrow> wstr option \<Rightarrow> u32 \<Rightarrow> bool \<Rightarrow> bytes option \<Rightarrow> u32 option \<Rightarrow>
     query_out hook_result" where
  "Hook_RegGetValueW r hKey lpSubKey lpValue dwFlags has_type pvData pcbData =
     (if wstr_of lpSubKey = [] then
        finish_get dwFlags (Hook_RegQueryValueExW r hKey lpValue has_type pvData pcbData)
      else do {
        (r, ret) \<leftarrow> Hook_RegOpenKeyExW r hKey lpSubKey;
        (case ret of
           Ret code out \<Rightarrow>
             (case out of
                Some hTarget \<Rightarrow>
                  finish_get dwFlags (Hook_RegQueryValueExW r hTarget lpValue has_type pvData pcbData)
              | None \<Rightarrow> Some (r, Ret code (no_out pvData pcbData)))
         | Forwarded \<Rightarrow> Some (r, Forwarded)) })"

end
