(* ===== verification/Registry_Dump.thy ===== *)
theory Registry_Dump
  imports Registry_Hooks
begin

text \<open>
  The dump of src/reg_read.c: every value and every subkey of a registry key goes to the log.
  The advapi32 functions it calls are a record of parameters; the output is the list of log
  lines, with a line for every key opened and closed.  The loops run until the enumeration
  answers ERROR_NO_MORE_ITEMS; a dump that does not return, or that reads behind a buffer, is
  None.  The buffers are on the stack, so their first contents are a parameter.
\<close>

definition MAX_KEY_NAME :: nat where "MAX_KEY_NAME = 256"
definition MAX_VALUE_NAME :: nat where "MAX_VALUE_NAME = 16384"
definition MAX_VALUE_DATA :: nat where "MAX_VALUE_DATA = 65536"
definition DUMP_ACCESS_DENIED :: u32 where "DUMP_ACCESS_DENIED = 5"

text \<open>What an enumeration answers: a status, or a value with the bytes put into the buffer.\<close>

datatype value_answer = No_Value u32 | A_Value wstr u32 bytes

record dump_env =
  open_key :: "u32 \<Rightarrow> wstr option \<Rightarrow> bool \<Rightarrow> u32 + u32"   \<comment> \<open>with KEY_WOW64_32KEY or not\<close>
  enum_value :: "u32 \<Rightarrow> u32 \<Rightarrow> value_answer"
  enum_key :: "u32 \<Rightarrow> u32 \<Rightarrow> u32 + wstr"
  stack_of :: "u32 \<Rightarrow> bytes"

datatype dump_line =
    Value_Error u32 u32
  | Value_Sz wstr wstr
  | Value_Dword wstr u32
  | Value_Short wstr u32
  | Value_Multi wstr "wstr list"
  | Value_Binary wstr bytes
  | Value_Other wstr u32 u32
  | Cannot_Open nat wstr u32
  | Folder nat wstr
  | Key_Error u32 u32
  | Opened u32
  | Closed u32

section \<open>One value\<close>

text \<open>The wide string at the start of a buffer, and the strings of a list up to the empty one.\<close>

definition wcs_at :: "wstr \<Rightarrow> wstr option" where
  "wcs_at b = (if 0 \<in> set b then Some (takeWhile (\<lambda>c. c \<noteq> 0) b) else None)"

function wcs_list :: "wstr \<Rightarrow> wstr list option" where
  "wcs_list b = (case wcs_at b of
     None \<Rightarrow> None
   | Some s \<Rightarrow> if s = [] then Some [] else map_option ((#) s) (wcs_list (drop (Suc (length s)) b)))"
  by pat_completeness auto
termination
  by (relation "measure length") (auto simp: wcs_at_def split: if_splits dest: length_pos_if_in_set)

declare wcs_list.simps [simp del]

definition value_line :: "wstr \<Rightarrow> u32 \<Rightarrow> nat \<Rightarrow> bytes \<Rightarrow> dump_line option" where
  "value_line valueName type dataSize data =
     (if type = REG_SZ \<or> type = REG_EXPAND_SZ then map_option (Value_Sz valueName) (wcs_at (of_wbytes data))
      else if type = REG_DWORD then
        (if dataSize \<ge> 4 then Some (Value_Dword valueName (of_le32 data))
         else Some (Value_Short valueName (of_nat dataSize)))
      else if type = REG_MULTI_SZ then map_option (Value_Multi valueName) (wcs_list (of_wbytes data))
      else if type = REG_BINARY then map_option (Value_Binary valueName) (mem_read data 0 dataSize)
      else Some (Value_Other valueName type (of_nat dataSize)))"

section \<open>The loops\<close>

partial_function (option) values_loop :: "dump_env \<Rightarrow> u32 \<Rightarrow> bytes \<Rightarrow> u32 \<Rightarrow> dump_line list option" where
  "values_loop e hKey data index =
     (case enum_value e hKey index of
        No_Value result \<Rightarrow>
          if result = ERROR_NO_MORE_ITEMS then Some []
          else do { ls \<leftarrow> values_loop e hKey data (index + 1); Some (Value_Error index result # ls) }
      | A_Value valueName type d \<Rightarrow> do {
          data \<leftarrow> mem_write data 0 d;
          l \<leftarrow> value_line valueName type (length d) data;
          ls \<leftarrow> values_loop e hKey data (index + 1);
          Some (l # ls) })"

definition LogRegistryValues :: "dump_env \<Rightarrow> u32 \<Rightarrow> dump_line list option" where
  "LogRegistryValues e hKey = values_loop e hKey (stack_of e hKey) 0"

text \<open>A folder, and the loop over its subkeys, call each other.\<close>

datatype dump_task = Task_Folder u32 "wstr option" nat | Task_Subkeys u32 "wstr option" nat u32

definition path_text :: "wstr option \<Rightarrow> wstr" where
  "path_text p = (case p of None \<Rightarrow> [] | Some s \<Rightarrow> s)"

definition full_sub_path :: "wstr option \<Rightarrow> wstr \<Rightarrow> wstr" where
  "full_sub_path subPath subKeyName = take 511 (path_text subPath @ 92 # subKeyName)"

definition open_folder :: "dump_env \<Rightarrow> u32 \<Rightarrow> wstr option \<Rightarrow> u32 + u32" where
  "open_folder e hRoot subPath =
     (case open_key e hRoot subPath True of
        Inl result \<Rightarrow> if result = DUMP_ACCESS_DENIED then open_key e hRoot subPath False else Inl result
      | Inr hKey \<Rightarrow> Inr hKey)"

partial_function (option) run_dump :: "dump_env \<Rightarrow> dump_task \<Rightarrow> dump_line list option" where
  "run_dump e t =
     (case t of
        Task_Folder hRoot subPath depth \<Rightarrow>
          (case open_folder e hRoot subPath of
             Inl result \<Rightarrow> Some [Cannot_Open depth (path_text subPath) result]
           | Inr hKey \<Rightarrow> do {
               vs \<leftarrow> LogRegistryValues e hKey;
               ks \<leftarrow> run_dump e (Task_Subkeys hKey subPath depth 0);
               Some (Opened hKey # Folder depth (path_text subPath) # vs @ ks @ [Closed hKey]) })
      | Task_Subkeys hKey subPath depth index \<Rightarrow>
          (case enum_key e hKey index of
             Inl result \<Rightarrow>
               if result = ERROR_NO_MORE_ITEMS then Some []
               else do { ls \<leftarrow> run_dump e (Task_Subkeys hKey subPath depth (index + 1)); Some (Key_Error index result # ls) }
           | Inr subKeyName \<Rightarrow> do {
               l \<leftarrow> run_dump e (Task_Folder hKey (Some (full_sub_path subPath subKeyName)) (Suc depth));
               ls \<leftarrow> run_dump e (Task_Subkeys hKey subPath depth (index + 1));
               Some (l @ ls) }))"

definition LogRegistryFolder :: "dump_env \<Rightarrow> u32 \<Rightarrow> wstr option \<Rightarrow> nat \<Rightarrow> dump_line list option" where
  "LogRegistryFolder e hRoot subPath depth = run_dump e (Task_Folder hRoot subPath depth)"

section \<open>When the dump of the values ends\<close>

text \<open>A value fits when its data fit and its text, for the types that are text, is terminated.\<close>

definition value_fits :: "value_answer \<Rightarrow> bool" where
  "value_fits a = (case a of
     No_Value _ \<Rightarrow> True
   | A_Value nm ty d \<Rightarrow> length d \<le> MAX_VALUE_DATA \<and>
       (\<forall>rest. value_line nm ty (length d) (d @ rest) \<noteq> None))"

lemma values_loop_stops:
  "values_loop e hk data i = Some ls \<Longrightarrow> \<exists>j. enum_value e hk j = No_Value ERROR_NO_MORE_ITEMS"
  by (rule values_loop.raw_induct [where P = "\<lambda>e hk data i ls. \<exists>j. enum_value e hk j = No_Value ERROR_NO_MORE_ITEMS"])
    (auto split: value_answer.split_asm if_split_asm simp: bind_eq_Some)

lemma values_loop_ends:
  assumes "enum_value e hk j = No_Value ERROR_NO_MORE_ITEMS" "\<And>i. value_fits (enum_value e hk i)"
    "length data = MAX_VALUE_DATA"
  shows "values_loop e hk data i \<noteq> None"
  using assms(3)
proof (induction "unat (j - i)" arbitrary: i data)
  case 0
  then have "i = j" by (simp add: unat_eq_0)
  then show ?case using assms(1) by (subst values_loop.simps) simp
next
  case (Suc n)
  have "j - i \<noteq> 0" using Suc(2) by auto
  then have "n = unat (j - (i + 1))"
    using Suc(2) by (metis add_diff_cancel_left' diff_diff_eq plus_1_eq_Suc unat_minus_one)
  then have ih: "length data = MAX_VALUE_DATA \<Longrightarrow> values_loop e hk data (i + 1) \<noteq> None" for data
    using Suc(1) by blast
  show ?case
  proof (cases "enum_value e hk i")
    case (No_Value r)
    then show ?thesis using ih [OF Suc(3)] by (subst values_loop.simps) auto
  next
    case (A_Value nm ty d)
    have f: "length d \<le> MAX_VALUE_DATA" "value_line nm ty (length d) (d @ drop (length d) data) \<noteq> None"
      using assms(2) [of i] A_Value by (simp_all add: value_fits_def)
    then have w: "mem_write data 0 d = Some (d @ drop (length d) data)" "length (d @ drop (length d) data) = MAX_VALUE_DATA"
      using Suc(3) by (simp_all add: mem_write_def)
    show ?thesis using A_Value f(2) w(1) ih [OF w(2)] by (subst values_loop.simps) auto
  qed
qed

text \<open>The dump of the values of a key returns exactly when some index is answered with
  ERROR_NO_MORE_ITEMS: every other failure, such as a closed handle, only moves the index on, so
  a failure that stays makes the loop run for ever.\<close>

theorem LogRegistryValues_ends_iff:
  assumes "\<And>i. value_fits (enum_value e hk i)" "length (stack_of e hk) = MAX_VALUE_DATA"
  shows "LogRegistryValues e hk \<noteq> None \<longleftrightarrow> (\<exists>j. enum_value e hk j = No_Value ERROR_NO_MORE_ITEMS)"
  using values_loop_stops values_loop_ends assms unfolding LogRegistryValues_def by blast

definition listed :: "(wstr \<times> u32 \<times> bytes) list \<Rightarrow> u32 \<Rightarrow> value_answer" where
  "listed vs i = (if unat i < length vs then (case vs ! unat i of (nm, ty, d) \<Rightarrow> A_Value nm ty d)
     else No_Value ERROR_NO_MORE_ITEMS)"

definition key_names :: "wstr list \<Rightarrow> u32 \<Rightarrow> u32 + wstr" where
  "key_names ks i = (if unat i < length ks then Inr (ks ! unat i) else Inl ERROR_NO_MORE_ITEMS)"

definition dump_env0 :: "(u32 \<Rightarrow> value_answer) \<Rightarrow> dump_env" where
  "dump_env0 f = \<lparr>open_key = \<lambda>_ _ _. Inl ERROR_FILE_NOT_FOUND, enum_value = \<lambda>_. f, enum_key = \<lambda>_. key_names [],
     stack_of = \<lambda>_. replicate MAX_VALUE_DATA 0\<rparr>"

theorem LogRegistryValues_ends_iff_witness:
  "LogRegistryValues (dump_env0 (listed [(str ''a'', 4, [1, 0, 0, 0]), (str ''b'', 3, [7])])) 5 \<noteq> None \<and>
   LogRegistryValues (dump_env0 (\<lambda>_. No_Value ERROR_INVALID_HANDLE)) 5 = None"
proof
  have "value_fits (listed [(str ''a'', 4, [1, 0, 0, 0]), (str ''b'', 3, [7])] i)" for i
    by (cases "unat i"; cases "unat i - 1")
      (auto simp: listed_def value_fits_def value_line_def MAX_VALUE_DATA_def mem_read_def REG_SZ_def
        REG_EXPAND_SZ_def REG_DWORD_def REG_MULTI_SZ_def REG_BINARY_def)
  moreover have "listed [(str ''a'', 4, [1, 0, 0, 0]), (str ''b'', 3, [7])] 2 = No_Value ERROR_NO_MORE_ITEMS"
    by (simp add: listed_def)
  ultimately show "LogRegistryValues (dump_env0 (listed [(str ''a'', 4, [1, 0, 0, 0]), (str ''b'', 3, [7])])) 5 \<noteq> None"
    using LogRegistryValues_ends_iff [of "dump_env0 (listed [(str ''a'', 4, [1, 0, 0, 0]), (str ''b'', 3, [7])])" 5]
    by (force simp: dump_env0_def)
  show "LogRegistryValues (dump_env0 (\<lambda>_. No_Value ERROR_INVALID_HANDLE)) 5 = None"
    using LogRegistryValues_ends_iff [of "dump_env0 (\<lambda>_. No_Value ERROR_INVALID_HANDLE)" 5]
    by (simp add: dump_env0_def value_fits_def ERROR_INVALID_HANDLE_def ERROR_NO_MORE_ITEMS_def)
qed

section \<open>Keys are closed, subkeys are missed\<close>

text \<open>The keys open after a dump, closed in the reverse order of their opening.\<close>

fun still_open :: "u32 list \<Rightarrow> dump_line list \<Rightarrow> u32 list option" where
  "still_open st [] = Some st"
| "still_open st (Opened k # ls) = still_open (k # st) ls"
| "still_open st (Closed k # ls) = (case st of [] \<Rightarrow> None | x # xs \<Rightarrow> if x = k then still_open xs ls else None)"
| "still_open st (_ # ls) = still_open st ls"

lemma still_open_append:
  "still_open st (xs @ ys) = Option.bind (still_open st xs) (\<lambda>st. still_open st ys)"
  by (induction st xs rule: still_open.induct) (auto split: list.split)

lemma value_line_open: "value_line nm ty n d = Some l \<Longrightarrow> still_open st (l # ls) = still_open st ls"
  by (auto simp: value_line_def split: if_splits)

lemma values_loop_open: "values_loop e hk data i = Some ls \<Longrightarrow> still_open st ls = Some st"
  by (rule values_loop.raw_induct [where P = "\<lambda>e hk data i ls. still_open st ls = Some st"])
    (auto split: value_answer.split_asm if_split_asm simp: bind_eq_Some value_line_open)

lemma LogRegistryValues_open: "LogRegistryValues e hk = Some ls \<Longrightarrow> \<forall>st. still_open st ls = Some st"
  unfolding LogRegistryValues_def by (blast intro: values_loop_open)

lemma run_dump_open: "run_dump e t = Some ls \<Longrightarrow> \<forall>st. still_open st ls = Some st"
  by (rule run_dump.raw_induct [where P = "\<lambda>e t ls. \<forall>st. still_open st ls = Some st"])
    (auto split: dump_task.split_asm sum.split_asm if_split_asm simp: bind_eq_Some still_open_append
      dest!: LogRegistryValues_open)

text \<open>Every dump that returns has closed each key it opened, innermost first.\<close>

theorem dump_closes_keys: "LogRegistryFolder e hRoot p depth = Some ls \<Longrightarrow> still_open [] ls = Some []"
  unfolding LogRegistryFolder_def by (blast dest: run_dump_open)

lemma subkeys_unopened:
  assumes "\<And>i. enum_key e hk i = key_names ks i" "length ks < 2 ^ 32"
    "\<forall>k\<in>set ks. open_folder e hk (Some (full_sub_path p k)) = Inl st" "i \<le> length ks"
  shows "run_dump e (Task_Subkeys hk p depth (of_nat i)) =
    Some (map (\<lambda>k. Cannot_Open (Suc depth) (full_sub_path p k) st) (drop i ks))"
  using assms(4)
proof (induction "length ks - i" arbitrary: i)
  case 0
  then have "\<not> unat (of_nat i :: u32) < length ks" using assms(2) by (simp add: unat_of_nat_u32)
  then show ?case using 0 by (subst run_dump.simps) (simp add: assms(1) key_names_def)
next
  case (Suc n)
  then have i: "i < length ks" "unat (of_nat i :: u32) = i" using assms(2) by (simp_all add: unat_of_nat_u32)
  have "run_dump e (Task_Folder hk (Some (full_sub_path p (ks ! i))) (Suc depth)) =
      Some [Cannot_Open (Suc depth) (full_sub_path p (ks ! i)) st]"
    using assms(3) i(1) by (subst run_dump.simps) (simp add: path_text_def)
  moreover have "run_dump e (Task_Subkeys hk p depth (of_nat (Suc i))) =
      Some (map (\<lambda>k. Cannot_Open (Suc depth) (full_sub_path p k) st) (drop (Suc i) ks))"
    using Suc(1) [of "Suc i"] Suc(2,3) i by simp
  ultimately show ?case
    using i by (subst run_dump.simps) (simp add: assms(1) key_names_def add.commute Cons_nth_drop_Suc [symmetric])
qed

text \<open>The dump of a folder asks the open key for the whole path of a subkey again; where the
  key has no such subkey below itself, the dump reports each subkey as unopenable and never
  shows what is in it.\<close>

theorem dump_misses_subkeys:
  assumes "open_folder e hRoot (Some p) = Inr hk" "LogRegistryValues e hk = Some vs"
    and "\<And>i. enum_key e hk i = key_names ks i" "length ks < 2 ^ 32"
    and "\<forall>k\<in>set ks. open_folder e hk (Some (take 511 (p @ 92 # k))) = Inl st"
  shows "LogRegistryFolder e hRoot (Some p) depth =
    Some (Opened hk # Folder depth p # vs @
          map (\<lambda>k. Cannot_Open (Suc depth) (take 511 (p @ 92 # k)) st) ks @ [Closed hk])"
  unfolding LogRegistryFolder_def
  using subkeys_unopened [of e hk ks "Some p" st 0 depth] assms
  by (subst run_dump.simps) (simp add: path_text_def full_sub_path_def)

theorem dump_misses_subkeys_witness:
  "LogRegistryFolder ((dump_env0 (listed []))\<lparr>open_key := \<lambda>k p w. if k = 1 \<and> p = Some [65] then Inr 7 else Inl 2,
     enum_key := \<lambda>k. key_names [[66]]\<rparr>) 1 (Some [65]) 0 =
   Some [Opened 7, Folder 0 [65], Cannot_Open 1 [65, 92, 66] 2, Closed 7]"
proof -
  let ?e = "(dump_env0 (listed []))\<lparr>open_key := \<lambda>k p w. if k = 1 \<and> p = Some [65] then Inr 7 else Inl 2,
     enum_key := \<lambda>k. key_names [[66]]\<rparr>"
  have "LogRegistryValues ?e 7 = Some []"
    unfolding LogRegistryValues_def by (subst values_loop.simps) (simp add: dump_env0_def listed_def)
  moreover have "open_folder ?e 1 (Some [65]) = Inr 7" "open_folder ?e 7 (Some [65, 92, 66]) = Inl 2"
    by (simp_all add: open_folder_def DUMP_ACCESS_DENIED_def)
  ultimately show ?thesis
    using dump_misses_subkeys [of ?e 1 "[65]" 7 "[]" "[[66]]" 2 0] by simp
qed

section \<open>The dump over the emulated registry\<close>

text \<open>The library's own imports are patched too, so the enumeration reaches the hook of
  src/register.c.\<close>

definition hooked_value :: "registry \<Rightarrow> u32 \<Rightarrow> u32 \<Rightarrow> value_answer" where
  "hooked_value r hKey i =
     (case Hook_RegEnumValueW False r hKey i (Some (replicate MAX_VALUE_NAME 0)) (Some (of_nat MAX_VALUE_NAME))
             True (Some (replicate MAX_VALUE_DATA 0)) (Some (of_nat MAX_VALUE_DATA)) of
        Some (_, Ret st out) \<Rightarrow>
          (if st = ERROR_SUCCESS then
             A_Value (takeWhile (\<lambda>c. c \<noteq> 0) (the (ev_name out))) (the (ev_type out))
               (take (unat (the (ev_cb out))) (the (ev_data out)))
           else No_Value st)
      | _ \<Rightarrow> No_Value ERROR_INVALID_HANDLE)"

text \<open>A value as it is stored, or the error for one that is too long for the buffers.\<close>

definition stored_value :: "regvalue \<Rightarrow> value_answer" where
  "stored_value v =
     (if MAX_VALUE_NAME \<le> length (v_name v) \<or> MAX_VALUE_DATA < length (v_data v) then No_Value ERROR_MORE_DATA
      else A_Value (v_name v) (v_type v) (v_data v))"

lemma hooked_value_eq:
  assumes "HandleToKey r hk \<noteq> 0" "hk \<noteq> FAKE_SERVICE_KEY" "rheap r (HandleToKey r hk) = Some k"
    "\<forall>v\<in>set (k_values k). 0 \<notin> set (v_name v) \<and> length (v_name v) < 2 ^ 32 \<and> length (v_data v) < 2 ^ 32"
  shows "hooked_value r hk i =
    (if unat i < length (k_values k) then stored_value (k_values k ! unat i) else No_Value ERROR_NO_MORE_ITEMS)"
proof (cases "unat i < length (k_values k)")
  case False
  then show ?thesis
    using assms(1-3) by (simp add: hooked_value_def Hook_RegEnumValueW_def Let_def nth_opt_def fail_def reg_codes)
next
  case True
  define v where "v = k_values k ! unat i"
  have v: "0 \<notin> set (v_name v)" "length (v_name v) < 2 ^ 32" "length (v_data v) < 2 ^ 32"
    using assms(4) True by (simp_all add: v_def)
  have n: "of_nat MAX_VALUE_NAME \<le> (of_nat (length (v_name v)) :: u32) \<longleftrightarrow> MAX_VALUE_NAME \<le> length (v_name v)"
    "of_nat MAX_VALUE_DATA < (v_size v) \<longleftrightarrow> MAX_VALUE_DATA < length (v_data v)"
    using v(2,3) by (simp_all add: word_le_nat_alt word_less_nat_alt unat_of_nat_u32 MAX_VALUE_NAME_def
        MAX_VALUE_DATA_def v_size_def)
  have t: "takeWhile (\<lambda>c. c \<noteq> 0) (v_name v @ 0 # rest) = v_name v" for rest
    using v(1) by (intro takeWhile_append_stop) auto
  have at: "nth_opt (k_values k) (unat i) = Some v" using True by (simp add: nth_opt_def v_def)
  have c: "lstrcpyn (replicate MAX_VALUE_NAME 0) (v_name v) (of_nat MAX_VALUE_NAME) =
      Some (v_name v @ 0 # replicate (MAX_VALUE_NAME - Suc (length (v_name v))) 0)"
    if "length (v_name v) < MAX_VALUE_NAME"
    using that by (simp add: lstrcpyn_def mem_write_def MAX_VALUE_NAME_def)
  have w: "mem_write (replicate MAX_VALUE_DATA 0) 0 (v_data v) =
      Some (v_data v @ replicate (MAX_VALUE_DATA - length (v_data v)) 0)"
    if "length (v_data v) \<le> MAX_VALUE_DATA"
    using that by (simp add: mem_write_def)
  have u: "unat (v_size v) = length (v_data v)" using v(3) by (simp add: v_size_def unat_of_nat_u32)
  note defs = hooked_value_def Hook_RegEnumValueW_def Let_def enum_value_data_def stored_value_def
  show ?thesis
  proof (cases "MAX_VALUE_NAME \<le> length (v_name v)")
    case True
    then show ?thesis using assms(1-3) at n(1) \<open>unat i < length (k_values k)\<close>
      by (simp add: defs v_def [symmetric] ERROR_MORE_DATA_def ERROR_SUCCESS_def)
  next
    case short: False
    then show ?thesis using assms(1-3) at n c w u t \<open>unat i < length (k_values k)\<close>
      by (cases "MAX_VALUE_DATA < length (v_data v)")
        (simp_all add: defs v_def [symmetric] ERROR_MORE_DATA_def ERROR_SUCCESS_def not_le not_less)
  qed
qed

definition hooked_env :: "registry \<Rightarrow> dump_env" where
  "hooked_env r = (dump_env0 (\<lambda>_. No_Value 0))\<lparr>enum_value := hooked_value r\<rparr>"


definition dumped_registry :: registry where
  "dumped_registry = \<lparr>rheap = [1 \<mapsto> \<lparr>k_name = None, k_parent = 0, k_children = [],
       k_values = [\<lparr>v_name = str ''a'', v_type = REG_DWORD, v_data = [1, 0, 0, 0]\<rparr>]\<rparr>],
     next_key = 2, g_regRoot = 1, g_fakeKeyTable = [1], g_fakeKeyPaths = [[]], g_handleCache = [],
     g_isWow64 = False, reg_file = None, reg_error = 0\<rparr>"


end
