(* ===== verification/Registry_Tree.thy ===== *)
theory Registry_Tree
  imports Registry_Hooks
begin

text \<open>
  The abstract registry: a forest of keys.  \<open>forest_at\<close> says that a list of sibling keys is
  laid out in the heap; \<open>enc_forest\<close> is the file format as a function of the forest; the
  writer of src/register.c produces it, and the reader rebuilds the forest with the order of
  siblings and values reversed, because both are inserted at the front.
\<close>

section \<open>The list of values is a map from case-folded names\<close>

definition names_distinct :: "regvalue list \<Rightarrow> bool" where
  "names_distinct vs \<longleftrightarrow> distinct (map (\<lambda>v. map lower (v_name v)) vs)"

definition look_value :: "regvalue list \<Rightarrow> wstr \<Rightarrow> (u32 \<times> bytes) option" where
  "look_value vs n = map_option (\<lambda>v. (v_type v, v_data v)) (find_value vs n)"

definition put_value :: "wstr \<Rightarrow> u32 \<times> bytes \<Rightarrow> regvalue list \<Rightarrow> regvalue list" where
  "put_value n td vs = set_value vs n (fst td) (snd td)"

definition drop_value :: "wstr \<Rightarrow> regvalue list \<Rightarrow> regvalue list" where
  "drop_value n vs = (case remove_value vs n of None \<Rightarrow> vs | Some vs' \<Rightarrow> vs')"

lemma find_value_None: "find_value vs n = None \<longleftrightarrow> map lower n \<notin> (\<lambda>v. map lower (v_name v)) ` set vs"
  by (induction vs) (auto simp: icmp_eq_def)

lemma find_value_cong: "icmp_eq n n' \<Longrightarrow> find_value vs n = find_value vs n'"
  by (induction vs) (auto simp: icmp_eq_def)

lemma update_value_None: "update_value vs n t d = None \<longleftrightarrow> find_value vs n = None"
  by (induction vs) auto

lemma remove_value_None: "remove_value vs n = None \<longleftrightarrow> find_value vs n = None"
  by (induction vs) auto

lemma update_value_names:
  "update_value vs n t d = Some vs' \<Longrightarrow> map v_name vs' = map v_name vs"
  by (induction vs arbitrary: vs') (auto split: if_splits)

lemma names_distinct_alt:
  "names_distinct vs \<longleftrightarrow> distinct (map (map lower) (map v_name vs))"
  by (simp add: names_distinct_def comp_def)

lemma names_distinct_simps [simp]:
  "names_distinct []"
  "names_distinct (v # vs) \<longleftrightarrow> find_value vs (v_name v) = None \<and> names_distinct vs"
  by (auto simp: names_distinct_def find_value_None)

lemma update_value_look:
  assumes "update_value vs n t d = Some vs'"
  shows "look_value vs' m = (if icmp_eq n m then Some (t, d) else look_value vs m)"
  using assms
proof (induction vs arbitrary: vs')
  case (Cons v vs)
  show ?case
  proof (cases "icmp_eq (v_name v) n")
    case True
    then have "icmp_eq (v_name v) m \<longleftrightarrow> icmp_eq n m" by (rule icmp_eq_cong)
    then show ?thesis using Cons.prems True by (auto simp: look_value_def)
  next
    case False
    then obtain us where us: "update_value vs n t d = Some us" "vs' = v # us"
      using Cons.prems by auto
    have "icmp_eq (v_name v) m \<Longrightarrow> \<not> icmp_eq n m"
      using False by (metis icmp_eq_sym icmp_eq_trans)
    then show ?thesis using Cons.IH [OF us(1)] us(2) by (auto simp: look_value_def)
  qed
qed simp

lemma look_set_value:
  "look_value (set_value vs n t d) m = (if icmp_eq n m then Some (t, d) else look_value vs m)"
proof (cases "update_value vs n t d")
  case None
  then show ?thesis by (auto simp: set_value_def look_value_def)
next
  case (Some us)
  then show ?thesis by (simp add: set_value_def update_value_look)
qed

lemma names_distinct_set_value:
  assumes "names_distinct vs"
  shows "names_distinct (set_value vs n t d)"
proof (cases "update_value vs n t d")
  case None
  then have "find_value vs n = None" by (simp add: update_value_None)
  then show ?thesis using assms None by (simp add: set_value_def)
next
  case (Some us)
  then show ?thesis using assms by (simp add: set_value_def names_distinct_alt update_value_names)
qed

lemma remove_value_look:
  assumes "remove_value vs n = Some vs'" "names_distinct vs"
  shows "look_value vs' m = (if icmp_eq n m then None else look_value vs m)"
  using assms
proof (induction vs arbitrary: vs')
  case (Cons v vs)
  show ?case
  proof (cases "icmp_eq (v_name v) n")
    case True
    then have same: "icmp_eq (v_name v) m \<longleftrightarrow> icmp_eq n m" by (rule icmp_eq_cong)
    have "icmp_eq n m \<Longrightarrow> find_value vs m = None"
      using Cons.prems(2) True by (metis find_value_cong icmp_eq_trans names_distinct_simps(2))
    then show ?thesis using Cons.prems True same by (auto simp: look_value_def)
  next
    case False
    then obtain us where us: "remove_value vs n = Some us" "vs' = v # us"
      using Cons.prems by auto
    have "icmp_eq (v_name v) m \<Longrightarrow> \<not> icmp_eq n m"
      using False by (metis icmp_eq_sym icmp_eq_trans)
    then show ?thesis using Cons.IH [OF us(1)] Cons.prems us(2) by (auto simp: look_value_def)
  qed
qed simp

lemma remove_value_sub:
  "remove_value vs n = Some vs' \<Longrightarrow> \<exists>xs v ys. vs = xs @ v # ys \<and> vs' = xs @ ys"
proof (induction vs arbitrary: vs')
  case (Cons v vs)
  show ?case
  proof (cases "icmp_eq (v_name v) n")
    case True
    then show ?thesis using Cons.prems by (intro exI [of _ "[]"]) auto
  next
    case False
    then obtain us where us: "remove_value vs n = Some us" "vs' = v # us" using Cons.prems by auto
    then obtain xs w ys where "vs = xs @ w # ys" "us = xs @ ys" using Cons.IH by blast
    then show ?thesis using us(2) by (metis append_Cons)
  qed
qed simp

lemma names_distinct_remove:
  "remove_value vs n = Some vs' \<Longrightarrow> names_distinct vs \<Longrightarrow> names_distinct vs'"
  using remove_value_sub [of vs n vs'] by (auto simp: names_distinct_def)

interpretation value_store: keyed_store names_distinct look_value "\<lambda>_ _ _. True" put_value drop_value
  icmp_eq
proof unfold_locales
  fix k k' k'' :: wstr and s and v :: "u32 \<times> bytes"
  show "icmp_eq k k" by simp
  show "icmp_eq k k' \<Longrightarrow> icmp_eq k' k" using icmp_eq_sym by blast
  show "icmp_eq k k' \<Longrightarrow> icmp_eq k' k'' \<Longrightarrow> icmp_eq k k''" by (rule icmp_eq_trans)
  show "names_distinct s \<Longrightarrow> True \<Longrightarrow> names_distinct (put_value k v s)"
    by (simp add: put_value_def names_distinct_set_value)
  show "names_distinct s \<Longrightarrow> True \<Longrightarrow>
      look_value (put_value k v s) k' = (if icmp_eq k k' then Some v else look_value s k')"
    by (simp add: put_value_def look_set_value)
  show "names_distinct s \<Longrightarrow> names_distinct (drop_value k s)"
    by (auto simp: drop_value_def names_distinct_remove split: option.split)
  assume "names_distinct s"
  then show "look_value (drop_value k s) k' = (if icmp_eq k k' then None else look_value s k')"
  proof (cases "remove_value s k")
    case None
    then have "find_value s k = None" by (simp add: remove_value_None)
    then show ?thesis using None find_value_cong [of k k' s]
      by (auto simp: drop_value_def look_value_def)
  next
    case (Some us)
    then show ?thesis using \<open>names_distinct s\<close> by (simp add: drop_value_def remove_value_look)
  qed
qed

section \<open>Forests\<close>

datatype 'a rtree =
  RT (rt_addr: 'a) (rt_name: "wstr option") (rt_values: "regvalue list") (rt_subs: "'a rtree list")

fun forest_at :: "rheap \<Rightarrow> raddr rtree list \<Rightarrow> bool" where
  "forest_at hp [] = True"
| "forest_at hp (RT a nm vs ts # us) =
     ((\<exists>k. hp a = Some k \<and> k_name k = nm \<and> k_values k = vs \<and> k_children k = map rt_addr ts) \<and>
      forest_at hp ts \<and> forest_at hp us)"

fun forest_addrs :: "'a rtree list \<Rightarrow> 'a set" where
  "forest_addrs [] = {}"
| "forest_addrs (RT a nm vs ts # us) = insert a (forest_addrs ts \<union> forest_addrs us)"

fun enc_forest :: "'a rtree list \<Rightarrow> bytes" where
  "enc_forest [] = []"
| "enc_forest (RT a nm vs ts # us) =
     WriteWideString (Some (case nm of None \<Rightarrow> [] | Some s \<Rightarrow> s)) @ save_values vs @
     le32 (of_nat (length ts)) @ enc_forest ts @ enc_forest us"

text \<open>What the reader makes of it: the order of siblings and values is reversed.\<close>

fun mirror :: "'a rtree list \<Rightarrow> 'a rtree list" where
  "mirror [] = []"
| "mirror (RT a nm vs ts # us) = mirror us @ [RT a nm (rev vs) (mirror ts)]"

definition forget :: "'a rtree list \<Rightarrow> unit rtree list" where
  "forget ts = map (map_rtree (\<lambda>_. ())) ts"

lemma forget_simps [simp]:
  "forget [] = []"
  "forget (RT a nm vs ts # us) = RT () nm vs (forget ts) # forget us"
  "forget (ts @ us) = forget ts @ forget us"
  by (simp_all add: forget_def)

lemma length_mirror [simp]: "length (mirror ts) = length ts"
  by (induction ts rule: mirror.induct) auto

lemma forest_at_append [simp]: "forest_at hp (ts @ us) \<longleftrightarrow> forest_at hp ts \<and> forest_at hp us"
  by (induction hp ts rule: forest_at.induct) auto

lemma forest_addrs_append [simp]: "forest_addrs (ts @ us) = forest_addrs ts \<union> forest_addrs us"
  by (induction ts rule: forest_addrs.induct) auto

lemma forest_at_frame:
  "forest_at hp ts \<Longrightarrow> (\<forall>a\<in>forest_addrs ts. hp' a = hp a) \<Longrightarrow> forest_at hp' ts"
  by (induction hp ts rule: forest_at.induct) auto

lemma save_keys_forest:
  "forest_at hp ts \<Longrightarrow> save_keys hp (map rt_addr ts) = Some (enc_forest ts)"
proof (induction hp ts rule: forest_at.induct)
  case (1 hp)
  show ?case by (simp add: save_keys.simps)
next
  case (2 hp a nm vs ts us)
  then show ?case by (auto simp: save_keys.simps [of hp "a # _"])
qed

section \<open>Reading back\<close>

definition text_ok :: "wstr \<Rightarrow> bool" where
  "text_ok s \<longleftrightarrow> 0 \<notin> set s \<and> length s + 1 < 2 ^ 31"

definition value_ok :: "regvalue \<Rightarrow> bool" where
  "value_ok v \<longleftrightarrow> text_ok (v_name v) \<and> length (v_data v) < 2 ^ 32"

fun forest_ok :: "'a rtree list \<Rightarrow> bool" where
  "forest_ok [] = True"
| "forest_ok (RT a nm vs ts # us) =
     ((case nm of None \<Rightarrow> False | Some s \<Rightarrow> s \<noteq> [] \<and> text_ok s) \<and>
      list_all value_ok vs \<and> names_distinct vs \<and> length vs < 2 ^ 32 \<and> length ts < 2 ^ 32 \<and>
      forest_ok ts \<and> forest_ok us)"

lemma take_bytes_append [simp]: "n = length a \<Longrightarrow> take_bytes n (a @ b) = Some (a, b)"
  by (simp add: take_bytes_def)

lemma len_times_2:
  assumes "length s + 1 < 2 ^ 31"
  shows "unat (of_nat (length s) * 2 + 2 :: u32) = 2 * length s + 2"
proof -
  have "(of_nat (length s) * 2 + 2 :: u32) = of_nat (2 * length s + 2)" by simp
  moreover have "2 * length s + 2 < 2 ^ 32" using assms by simp
  ultimately show ?thesis by (simp only: unat_of_nat_u32)
qed

lemma len_plus_1_nonzero:
  assumes "length s + 1 < 2 ^ 31"
  shows "(of_nat (length s) + 1 :: u32) \<noteq> 0"
proof -
  have "unat (of_nat (length s + 1) :: u32) = length s + 1"
    using assms by (intro unat_of_nat_u32) simp
  then have "of_nat (length s + 1) \<noteq> (0 :: u32)" by (metis add_is_0 unat_0 zero_neq_one)
  then show ?thesis by (simp add: add.commute)
qed

lemma ReadWideString_Write [simp]:
  assumes "text_ok s"
  shows "ReadWideString (WriteWideString (Some s) @ rest) = Some (Some s, rest)"
proof -
  have "length s + 1 < 2 ^ 31" "0 \<notin> set s" using assms by (auto simp: text_ok_def)
  note l = len_times_2 [OF this(1)] len_plus_1_nonzero [OF this(1)] and z = this(2)
  have "takeWhile (\<lambda>c. c \<noteq> 0) (s @ [0]) = s" using z by (intro takeWhile_append_stop) auto
  then show ?thesis
    by (simp add: ReadWideString_def WriteWideString_def Let_def l)
qed

lemma read_dword_le32 [simp]: "read_dword (le32 w @ rest) = Some (w, rest)"
  by (simp add: read_dword_def)

lemma load_value_save:
  assumes v: "value_ok v" and k: "rheap r key = Some k" and new: "find_value (k_values k) (v_name v) = None"
  shows "load_value r key (save_value v @ rest) =
    Some (r\<lparr>rheap := (rheap r)(key \<mapsto> k\<lparr>k_values := v # k_values k\<rparr>)\<rparr>, rest)"
proof -
  have "length (v_data v) < 2 ^ 32" "text_ok (v_name v)" using v by (auto simp: value_ok_def)
  then have "unat (v_size v) = length (v_data v)" by (simp add: v_size_def)
  moreover have "update_value (k_values k) (v_name v) (v_type v) (v_data v) = None"
    using new by (simp add: update_value_None)
  then have "set_value (k_values k) (v_name v) (v_type v) (v_data v) = v # k_values k"
    by (cases v) (simp add: set_value_def)
  ultimately show ?thesis
    using \<open>text_ok (v_name v)\<close> k
    by (simp add: load_value_def save_value_def SetValue_def)
qed

lemma load_values_save:
  assumes "list_all value_ok vs" "rheap r key = Some k" "names_distinct (rev vs @ k_values k)"
  shows "load_values (length vs) r key (concat (map save_value vs) @ rest) =
    Some (r\<lparr>rheap := (rheap r)(key \<mapsto> k\<lparr>k_values := rev vs @ k_values k\<rparr>)\<rparr>, rest)"
  using assms
proof (induction vs arbitrary: r k)
  case Nil
  then have "(rheap r)(key \<mapsto> k) = rheap r" by (intro ext) simp
  then show ?case by simp
next
  case (Cons v vs)
  have new: "find_value (k_values k) (v_name v) = None"
    using Cons.prems(3) by (auto simp: names_distinct_def find_value_None)
  have v: "value_ok v" using Cons.prems(1) by simp
  note one = load_value_save [OF v Cons.prems(2) new, of "concat (map save_value vs) @ rest"]
  let ?k = "k\<lparr>k_values := v # k_values k\<rparr>"
  let ?r = "r\<lparr>rheap := (rheap r)(key \<mapsto> ?k)\<rparr>"
  have "load_values (length vs) ?r key (concat (map save_value vs) @ rest) =
    Some (?r\<lparr>rheap := (rheap ?r)(key \<mapsto> ?k\<lparr>k_values := rev vs @ k_values ?k\<rparr>)\<rparr>, rest)"
    using Cons.prems by (intro Cons.IH) auto
  then show ?case using one by (simp add: fun_upd_def cong: if_cong)
qed

lemma CreateKey_child:
  assumes "rheap r p = Some k" "p \<noteq> 0" "next_key r \<noteq> p" "name \<noteq> []"
  shows "CreateKey r p name =
    Some (r\<lparr>rheap := (rheap r)(next_key r \<mapsto> \<lparr>k_name = Some name, k_parent = p, k_children = [],
                                          k_values = []\<rparr>,
                              p \<mapsto> k\<lparr>k_children := next_key r # k_children k\<rparr>),
            next_key := next_key r + 1\<rparr>, next_key r)"
  using assms by (simp add: CreateKey_def Let_def)

text \<open>What a loader leaves alone.\<close>

definition same_rest :: "registry \<Rightarrow> registry \<Rightarrow> bool" where
  "same_rest r r' \<longleftrightarrow>
     g_regRoot r' = g_regRoot r \<and> g_fakeKeyTable r' = g_fakeKeyTable r \<and>
     g_fakeKeyPaths r' = g_fakeKeyPaths r \<and> g_handleCache r' = g_handleCache r \<and>
     g_isWow64 r' = g_isWow64 r \<and> reg_file r' = reg_file r \<and> reg_error r' = reg_error r"

definition heap_bounded :: "registry \<Rightarrow> bool" where
  "heap_bounded r \<longleftrightarrow> 0 < next_key r \<and> (\<forall>a\<in>dom (rheap r). 0 < a \<and> a < next_key r)"

lemma heap_boundedD: "heap_bounded r \<Longrightarrow> rheap r a = Some k \<Longrightarrow> 0 < a \<and> a < next_key r"
  by (auto simp: heap_bounded_def)

definition loaded :: "registry \<Rightarrow> raddr \<Rightarrow> regkey \<Rightarrow> 'a rtree list \<Rightarrow> registry \<Rightarrow> raddr rtree list \<Rightarrow> bool" where
  "loaded r p k ts r' us \<longleftrightarrow>
     forest_at (rheap r') us \<and> forget us = mirror (forget ts) \<and>
     rheap r' p = Some (k\<lparr>k_children := map rt_addr us @ k_children k\<rparr>) \<and>
     (\<forall>a. a < next_key r \<and> a \<noteq> p \<longrightarrow> rheap r' a = rheap r a) \<and>
     next_key r \<le> next_key r' \<and> heap_bounded r' \<and>
     (\<forall>a\<in>forest_addrs us. next_key r \<le> a \<and> a < next_key r') \<and> same_rest r r'"


lemma same_rest_trans: "same_rest r r' \<Longrightarrow> same_rest r' r'' \<Longrightarrow> same_rest r r''"
  by (simp add: same_rest_def)

lemma load_keys_save:
  assumes "forest_ok ts" "heap_bounded r" "rheap r p = Some k"
  shows "\<exists>r' us. load_keys (length ts) r p (enc_forest ts @ rest) = Some (r', rest) \<and>
    loaded r p k ts r' us"
  using assms
proof (induction ts arbitrary: r p k rest rule: enc_forest.induct)
  case (1 r p k rest)
  have "loaded r p k [] r []" using "1.prems" by (auto simp: loaded_def same_rest_def)
  then show ?case by (intro exI [of _ r] exI [of _ "[]"]) (simp add: load_keys.simps)
next
  case (2 a nm vs ts us r p k rest)
  obtain s where nm: "nm = Some s" "s \<noteq> []" "text_ok s"
    using "2.prems"(1) by (auto split: option.splits)
  have ok: "list_all value_ok vs" "names_distinct vs" "length vs < 2 ^ 32" "length ts < 2 ^ 32"
    "forest_ok ts" "forest_ok us" using "2.prems"(1) by auto
  let ?a = "next_key r"
  have p: "0 < p" "p < ?a" using heap_boundedD [OF "2.prems"(2,3)] by auto
  let ?k0 = "\<lparr>k_name = Some s, k_parent = p, k_children = [], k_values = []\<rparr>"
  let ?kp = "k\<lparr>k_children := ?a # k_children k\<rparr>"
  let ?r1 = "r\<lparr>rheap := (rheap r)(?a \<mapsto> ?k0, p \<mapsto> ?kp), next_key := ?a + 1\<rparr>"
  have create: "CreateKey r p s = Some (?r1, ?a)"
    using CreateKey_child [OF "2.prems"(3) _ _ nm(2)] p by simp
  let ?ka = "?k0\<lparr>k_values := rev vs\<rparr>"
  let ?r2 = "?r1\<lparr>rheap := (rheap ?r1)(?a \<mapsto> ?ka)\<rparr>"
  have vals: "load_values (length vs) ?r1 ?a (concat (map save_value vs) @ in') = Some (?r2, in')" for in'
  proof -
    have "rheap ?r1 ?a = Some ?k0" using p by simp
    moreover have "names_distinct (rev vs @ k_values ?k0)"
      using ok(2) by (simp add: names_distinct_def rev_map [symmetric])
    ultimately show ?thesis using load_values_save [OF ok(1), of ?r1 ?a ?k0 in'] by simp
  qed
  have b2: "heap_bounded ?r2"
    using "2.prems"(2) p by (fastforce simp: heap_bounded_def less_Suc_eq split: if_splits)
  have a2: "rheap ?r2 ?a = Some ?ka" by simp
  obtain r3 us1 where l3: "load_keys (length ts) ?r2 ?a (enc_forest ts @ enc_forest us @ rest)
        = Some (r3, enc_forest us @ rest)" and o3: "loaded ?r2 ?a ?ka ts r3 us1"
    using "2.IH"(1) [OF ok(5) b2 a2] by blast
  have p3: "rheap r3 p = Some ?kp" and b3: "heap_bounded r3" and a3: "?a < next_key r3"
    using o3 p by (auto simp: loaded_def)
  obtain r4 us2 where l4: "load_keys (length us) r3 p (enc_forest us @ rest) = Some (r4, rest)"
    and o4: "loaded r3 p ?kp us r4 us2"
    using "2.IH"(2) [OF ok(6) b3 p3] by blast
  let ?us = "us2 @ [RT ?a nm (rev vs) us1]"
  have "load_keys (length (RT a nm vs ts # us)) r p (enc_forest (RT a nm vs ts # us) @ rest)
      = Some (r4, rest)"
    using nm create vals l3 l4 ok(3,4)
    by (subst load_keys.simps) (simp add: save_values_def)
  moreover have "loaded r p k (RT a nm vs ts # us) r4 ?us"
  proof -
    have f1: "forest_at (rheap r4) us1"
    proof (rule forest_at_frame)
      show "forest_at (rheap r3) us1" using o3 by (simp add: loaded_def)
      show "\<forall>b\<in>forest_addrs us1. rheap r4 b = rheap r3 b"
        using o3 o4 p by (fastforce simp: loaded_def)
    qed
    have a4: "rheap r4 ?a = Some (?ka\<lparr>k_children := map rt_addr us1\<rparr>)"
      using o3 o4 p a3 by (simp add: loaded_def)
    have "same_rest r r4"
      using o3 o4 by (simp add: loaded_def same_rest_def)
    moreover have "rheap r4 b = rheap r b" if "b < ?a" "b \<noteq> p" for b
      using o3 o4 that p a3 by (simp add: loaded_def)
    moreover have "\<forall>b\<in>forest_addrs ?us. ?a \<le> b \<and> b < next_key r4"
      using o3 o4 a3 by (fastforce simp: loaded_def)
    moreover have "rheap r4 p = Some (k\<lparr>k_children := map rt_addr ?us @ k_children k\<rparr>)"
      using o4 by (simp add: loaded_def)
    moreover have "forget ?us = mirror (forget (RT a nm vs ts # us))"
      using o3 o4 by (simp add: loaded_def)
    moreover have "?a \<le> next_key r4" "heap_bounded r4" "forest_at (rheap r4) us2"
      using o4 a3 by (simp_all add: loaded_def)
    ultimately show ?thesis using f1 a4 nm by (simp add: loaded_def)
  qed
  ultimately show ?case by blast
qed

end
