(* ===== verification/Registry_Properties.thy ===== *)
theory Registry_Properties
  imports Registry_Tree
begin

text \<open>
  The invariant of the emulated registry, its preservation by every hook, and the properties
  of src/register.c: the file always holds the tree, a restart rebuilds it, a stored value
  is what a query returns, opened and created keys, and the behaviours of deleted keys and
  of the fake service key.
\<close>

section \<open>The invariant\<close>

text \<open>
  Keys are allocated behind their parents, so addresses grow along child links: the tree has
  no cycle and the recursive writer returns.
\<close>

definition cell_ok :: "rheap \<Rightarrow> raddr \<Rightarrow> regkey \<Rightarrow> bool" where
  "cell_ok hp a k \<longleftrightarrow>
     distinct (k_children k) \<and> names_distinct (k_values k) \<and>
     (\<forall>c\<in>set (k_children k). a < c \<and>
        (\<exists>ck s. hp c = Some ck \<and> k_parent ck = a \<and> k_name ck = Some s \<and> s \<noteq> []))"

definition reg_inv :: "registry \<Rightarrow> bool" where
  "reg_inv r \<longleftrightarrow>
     heap_bounded r \<and> rheap r (g_regRoot r) \<noteq> None \<and>
     (\<forall>a k. rheap r a = Some k \<longrightarrow> g_regRoot r \<le> a) \<and>
     (\<forall>a k. rheap r a = Some k \<longrightarrow> cell_ok (rheap r) a k) \<and>
     length (g_fakeKeyPaths r) = length (g_fakeKeyTable r) \<and> 0 \<notin> set (g_fakeKeyTable r)"

definition handles_live :: "registry \<Rightarrow> bool" where
  "handles_live r \<longleftrightarrow> (\<forall>a\<in>set (g_fakeKeyTable r). rheap r a \<noteq> None)"

lemma reg_inv_cell: "reg_inv r \<Longrightarrow> rheap r a = Some k \<Longrightarrow> cell_ok (rheap r) a k"
  by (simp add: reg_inv_def)

lemma reg_inv_bound: "reg_inv r \<Longrightarrow> rheap r a = Some k \<Longrightarrow> 0 < a \<and> a < next_key r"
  by (auto simp: reg_inv_def dest: heap_boundedD)

lemma reg_inv_child:
  "reg_inv r \<Longrightarrow> rheap r a = Some k \<Longrightarrow> c \<in> set (k_children k) \<Longrightarrow>
   a < c \<and> (\<exists>ck s. rheap r c = Some ck \<and> k_parent ck = a \<and> k_name ck = Some s \<and> s \<noteq> [])"
  by (auto simp: reg_inv_def cell_ok_def)

lemma HandleToKey_live:
  "reg_inv r \<Longrightarrow> handles_live r \<Longrightarrow> HandleToKey r h \<noteq> 0 \<Longrightarrow> \<exists>k. rheap r (HandleToKey r h) = Some k"
  by (auto simp: HandleToKey_def handles_live_def split: if_splits)

section \<open>The tree below a key\<close>

lemma forest_of_children:
  "(\<forall>c\<in>set cs. \<exists>t. rt_addr t = c \<and> forest_at hp [t]) \<Longrightarrow>
   \<exists>ts. map rt_addr ts = cs \<and> forest_at hp ts"
proof (induction cs)
  case (Cons c cs)
  then obtain t ts where "rt_addr t = c" "forest_at hp [t]" "map rt_addr ts = cs" "forest_at hp ts"
    by auto
  then have "map rt_addr (t # ts) = c # cs \<and> forest_at hp (t # ts)"
    using forest_at_append [of hp "[t]" ts] by simp
  then show ?case by (rule exI)
qed simp

lemma tree_exists:
  assumes "reg_inv r" "rheap r a = Some k"
  shows "\<exists>t. rt_addr t = a \<and> forest_at (rheap r) [t]"
  using assms(2)
proof (induction "next_key r - a" arbitrary: a k rule: less_induct)
  case less
  have "\<exists>t. rt_addr t = c \<and> forest_at (rheap r) [t]" if ch: "c \<in> set (k_children k)" for c
  proof -
    obtain ck where "a < c" "rheap r c = Some ck"
      using reg_inv_child [OF assms(1) less.prems ch] by blast
    moreover from this have "c < next_key r" using reg_inv_bound [OF assms(1)] by blast
    ultimately show ?thesis using less.hyps [of c ck] by simp
  qed
  then obtain ts where "map rt_addr ts = k_children k" "forest_at (rheap r) ts"
    using forest_of_children [of "k_children k" "rheap r"] by blast
  then have "forest_at (rheap r) [RT a (k_name k) (k_values k) ts]" using less.prems by simp
  then show ?case by (metis rtree.sel(1))
qed

text \<open>The bytes of the file that describes the current tree.\<close>

definition file_of :: "raddr rtree \<Rightarrow> bytes" where
  "file_of t = le32 REGFILE_MAGIC @ enc_forest [t]"

definition root_tree :: "registry \<Rightarrow> raddr rtree \<Rightarrow> bool" where
  "root_tree r t \<longleftrightarrow> rt_addr t = g_regRoot r \<and> forest_at (rheap r) [t]"

lemma AutoSave_tree:
  assumes "root_tree r t"
  shows "AutoSave env r =
    Some (if tmp_created env \<and> moved env then r\<lparr>reg_file := Some (file_of t)\<rparr> else r)"
proof -
  have "save_keys (rheap r) [g_regRoot r] = Some (enc_forest [t])"
    using assms save_keys_forest [of "rheap r" "[t]"] by (simp add: root_tree_def)
  then show ?thesis
    by (cases "tmp_created env"; cases "moved env")
      (simp_all add: AutoSave_def SaveRegistryToFile_def SaveKeyToFile_def file_of_def)
qed

lemma root_tree_exists: "reg_inv r \<Longrightarrow> \<exists>t. root_tree r t"
  using tree_exists [of r "g_regRoot r"] by (auto simp: reg_inv_def root_tree_def)

lemma reg_inv_file [simp]:
  "reg_inv (r\<lparr>reg_file := f\<rparr>) = reg_inv r" "reg_inv (r\<lparr>reg_error := e\<rparr>) = reg_inv r"
  "handles_live (r\<lparr>reg_file := f\<rparr>) = handles_live r"
  "handles_live (r\<lparr>reg_error := e\<rparr>) = handles_live r"
  by (simp_all add: reg_inv_def heap_bounded_def handles_live_def)

lemma AutoSave_inv:
  assumes "reg_inv r"
  shows "\<exists>f. AutoSave env r = Some (r\<lparr>reg_file := f\<rparr>)"
proof -
  obtain t where "root_tree r t" using root_tree_exists [OF assms] by blast
  from AutoSave_tree [OF this, of env] show ?thesis
    by (cases "tmp_created env \<and> moved env") (auto intro: exI [of _ "reg_file r"])
qed

section \<open>Walking and creating\<close>

lemma find_child_inv:
  assumes "reg_inv r" "rheap r a = Some k" "set cs \<subseteq> set (k_children k)"
  shows "\<exists>c. find_child (rheap r) cs tok = Some c \<and> (\<forall>x. c = Some x \<longrightarrow> x \<in> set cs)"
  using assms(3)
proof (induction cs)
  case (Cons c cs)
  obtain ck s where "rheap r c = Some ck" "k_name ck = Some s"
    using reg_inv_child [OF assms(1,2), of c] Cons.prems by auto
  then show ?case using Cons by auto
qed simp

lemma CreateKey_inv:
  assumes inv: "reg_inv r" and p: "rheap r p = Some k" and name: "name \<noteq> []"
  shows "\<exists>r'. CreateKey r p name = Some (r', next_key r) \<and> reg_inv r' \<and> same_rest r r' \<and>
    (\<exists>kc. rheap r' (next_key r) = Some kc) \<and> dom (rheap r) \<subseteq> dom (rheap r')"
proof -
  let ?a = "next_key r"
  let ?kc = "\<lparr>k_name = Some name, k_parent = p, k_children = [], k_values = []\<rparr>"
  let ?kp = "k\<lparr>k_children := ?a # k_children k\<rparr>"
  let ?hp = "(rheap r)(?a \<mapsto> ?kc, p \<mapsto> ?kp)"
  let ?r = "r\<lparr>rheap := ?hp, next_key := ?a + 1\<rparr>"
  have lt: "0 < p" "p < ?a" using reg_inv_bound [OF inv p] by auto
  have c: "CreateKey r p name = Some (?r, ?a)"
    using CreateKey_child [OF p _ _ name] lt by simp
  have fresh: "?a \<notin> set (k_children k')" if "rheap r b = Some k'" for b k'
    using reg_inv_child [OF inv that] reg_inv_bound [OF inv] by blast
  have cells: "cell_ok ?hp b kb" if hb: "?hp b = Some kb" for b kb
  proof -
    consider "b = p" "kb = ?kp" | "b = ?a" "kb = ?kc" "b \<noteq> p" | "b \<noteq> p" "b \<noteq> ?a" "rheap r b = Some kb"
      using hb by (auto split: if_splits)
    then show ?thesis
    proof cases
      case 1
      then show ?thesis
        using reg_inv_cell [OF inv p] fresh [OF p] lt name by (fastforce simp: cell_ok_def)
    next
      case 2
      then show ?thesis by (simp add: cell_ok_def)
    next
      case 3
      then show ?thesis
        using reg_inv_cell [OF inv 3(3)] fresh [OF 3(3)] p by (fastforce simp: cell_ok_def)
    qed
  qed
  have "heap_bounded ?r"
    using inv lt by (fastforce simp: reg_inv_def heap_bounded_def less_Suc_eq split: if_splits)
  moreover have root: "g_regRoot r \<le> b" if "rheap r b = Some kb" for b kb
    using inv that by (auto simp: reg_inv_def)
  have "g_regRoot r \<le> b" if "?hp b = Some kb" for b kb
    using that root less_imp_le [OF le_less_trans [OF root [OF p] lt(2)]] p
    by (auto split: if_splits)
  moreover have "?hp (g_regRoot r) \<noteq> None" using inv by (simp add: reg_inv_def)
  ultimately have "reg_inv ?r" using inv cells by (simp add: reg_inv_def)
  then show ?thesis using c lt by (auto simp: same_rest_def)
qed

lemma handles_live_mono:
  "handles_live r \<Longrightarrow> same_rest r r' \<Longrightarrow> dom (rheap r) \<subseteq> dom (rheap r') \<Longrightarrow> handles_live r'"
  unfolding handles_live_def same_rest_def by (metis domIff subsetD)

text \<open>What a walk along a path guarantees.\<close>

definition walked :: "registry \<Rightarrow> bool \<Rightarrow> registry \<Rightarrow> raddr \<Rightarrow> bool" where
  "walked r create r' a \<longleftrightarrow>
     reg_inv r' \<and> same_rest r r' \<and> dom (rheap r) \<subseteq> dom (rheap r') \<and>
     (a \<noteq> 0 \<longrightarrow> a \<in> dom (rheap r')) \<and> (create \<longrightarrow> a \<noteq> 0) \<and> (\<not> create \<longrightarrow> r' = r)"

lemma same_rest_refl [simp]: "same_rest r r"
  by (simp add: same_rest_def)

lemma walked_after_create:
  assumes "same_rest r r1" "dom (rheap r) \<subseteq> dom (rheap r1)" "walked r1 True r2 a"
  shows "walked r True r2 a"
  using assms same_rest_trans [OF assms(1), of r2] unfolding walked_def by blast

lemma walk_path_inv:
  assumes "reg_inv r" "cur \<in> dom (rheap r)" "\<forall>t\<in>set ts. t \<noteq> []"
  shows "\<exists>r' a. walk_path r cur ts create = Some (r', a) \<and> walked r create r' a"
  using assms
proof (induction r cur ts create rule: walk_path.induct)
  case (1 r cur create)
  then show ?case using reg_inv_bound [OF "1.prems"(1)] by (auto simp: walked_def)
next
  case (2 r cur tok ts create)
  obtain k where k: "rheap r cur = Some k" using "2.prems"(2) by blast
  have ts: "\<forall>t\<in>set ts. t \<noteq> []" "tok \<noteq> []" using "2.prems"(3) by simp_all
  obtain c where c: "find_child (rheap r) (k_children k) tok = Some c"
    and in_c: "\<forall>x. c = Some x \<longrightarrow> x \<in> set (k_children k)"
    using find_child_inv [OF "2.prems"(1) k subset_refl, of tok] by blast
  show ?case
  proof (cases c)
    case (Some a)
    then have "a \<in> set (k_children k)" using in_c by blast
    then have "a \<in> dom (rheap r)" using reg_inv_child [OF "2.prems"(1) k] by blast
    from "2.IH"(2) [OF k c Some "2.prems"(1) this ts(1)] show ?thesis using k c Some by simp
  next
    case None
    show ?thesis
    proof (cases create)
      case False
      then have "walk_path r cur (tok # ts) create = Some (r, 0)" using k c None by simp
      moreover have "walked r create r 0" using False "2.prems"(1) by (simp add: walked_def)
      ultimately show ?thesis by blast
    next
      case True
      obtain r1 where cr: "CreateKey r cur tok = Some (r1, next_key r)" "reg_inv r1"
        "same_rest r r1" "\<exists>kc. rheap r1 (next_key r) = Some kc" "dom (rheap r) \<subseteq> dom (rheap r1)"
        using CreateKey_inv [OF "2.prems"(1) k ts(2)] by blast
      have live: "next_key r \<in> dom (rheap r1)" using cr(4) by blast
      have nn: "\<not> \<not> create" using True by simp
      obtain r2 a where w: "walk_path r1 (next_key r) ts create = Some (r2, a)" "walked r1 create r2 a"
        using "2.IH"(1) [OF k c None nn cr(1) refl cr(2) live ts(1)] by blast
      have "walk_path r cur (tok # ts) create = Some (r2, a)" using k c None True cr(1) w(1) by simp
      moreover have "walked r create r2 a"
        using walked_after_create [OF cr(3,5)] w(2) True by simp
      ultimately show ?thesis by blast
    qed
  qed
qed

lemma tokens_all_nonempty: "\<forall>t\<in>set (tokens d s). t \<noteq> []"
  by (intro ballI) (drule tokens_nonempty, erule conjunct1)

definition base_of :: "registry \<Rightarrow> raddr \<Rightarrow> raddr" where
  "base_of r base = (if base = 0 then g_regRoot r else base)"

lemma base_of_live:
  "reg_inv r \<Longrightarrow> base \<in> dom (rheap r) \<or> base = 0 \<Longrightarrow> base_of r base \<in> dom (rheap r) \<and> base_of r base \<noteq> 0"
proof -
  assume inv: "reg_inv r" and b: "base \<in> dom (rheap r) \<or> base = 0"
  have "g_regRoot r \<in> dom (rheap r)" using inv by (simp add: reg_inv_def domIff)
  with b have d: "base_of r base \<in> dom (rheap r)" unfolding base_of_def by presburger
  then show ?thesis using reg_inv_bound [OF inv] by blast
qed

lemma NavigatePath_inv:
  assumes "reg_inv r" "base \<in> dom (rheap r) \<or> base = 0"
  shows "\<exists>r' a. NavigatePath r base path create = Some (r', a) \<and> walked r create r' a"
proof (cases "path = []")
  case True
  then have "NavigatePath r base path create = Some (r, base_of r base)"
    by (simp add: NavigatePath_def base_of_def)
  moreover have "walked r create r (base_of r base)"
    using base_of_live [OF assms] assms(1) by (simp add: walked_def)
  ultimately show ?thesis by blast
next
  case False
  have "\<forall>t\<in>set (tokens backslash (take 511 path)). t \<noteq> []" by (rule tokens_all_nonempty)
  with False show ?thesis
    using walk_path_inv [OF assms(1) conjunct1 [OF base_of_live [OF assms]]]
    by (simp add: NavigatePath_def base_of_def)
qed

lemma KeyExists_inv:
  assumes "reg_inv r" "base \<in> dom (rheap r) \<or> base = 0"
  shows "\<exists>e. KeyExists r base path = Some e"
proof (cases "path = []")
  case False
  have "\<forall>t\<in>set (tokens backslash (take 511 path)). t \<noteq> []" by (rule tokens_all_nonempty)
  then obtain r' a where "walk_path r (base_of r base) (tokens backslash (take 511 path)) False = Some (r', a)"
    using walk_path_inv [OF assms(1) conjunct1 [OF base_of_live [OF assms]]] by blast
  then show ?thesis using False by (auto simp: KeyExists_def base_of_def)
qed (auto simp: KeyExists_def intro: exI [of _ True])

section \<open>Handles\<close>

lemma give_handle_fields:
  assumes "give_handle r hKey sub key = (r', h)"
  shows "rheap r' = rheap r" "next_key r' = next_key r" "g_regRoot r' = g_regRoot r"
    "g_fakeKeyTable r' = g_fakeKeyTable r @ [key]"
    "length (g_fakeKeyPaths r') = length (g_fakeKeyPaths r) + 1"
    "g_isWow64 r' = g_isWow64 r" "reg_file r' = reg_file r"
  using assms by (auto simp: give_handle_def AllocHandle_def CacheLookup_def Let_def
      split: option.splits if_splits)

lemma give_handle_inv:
  assumes "give_handle r hKey sub key = (r', h)" "reg_inv r" "key \<noteq> 0"
  shows "reg_inv r'" "handles_live r \<Longrightarrow> key \<in> dom (rheap r) \<Longrightarrow> handles_live r'"
  using assms(2-) give_handle_fields [OF assms(1)]
  by (auto simp: reg_inv_def heap_bounded_def handles_live_def)

lemma reg_inv_update_values:
  assumes "reg_inv r" "rheap r a = Some k" "names_distinct vs"
  shows "reg_inv (r\<lparr>rheap := (rheap r)(a \<mapsto> k\<lparr>k_values := vs\<rparr>)\<rparr>)"
proof -
  let ?hp = "(rheap r)(a \<mapsto> k\<lparr>k_values := vs\<rparr>)"
  have "cell_ok ?hp b kb" if "?hp b = Some kb" for b kb
  proof (cases "b = a")
    case True
    then show ?thesis using that reg_inv_cell [OF assms(1,2)] assms(3) by (force simp: cell_ok_def)
  next
    case False
    then have "cell_ok (rheap r) b kb" using that reg_inv_cell [OF assms(1)] by simp
    then show ?thesis using assms(2) by (fastforce simp: cell_ok_def)
  qed
  then show ?thesis using assms(1,2) by (auto simp: reg_inv_def heap_bounded_def)
qed

lemma live_update_values:
  "handles_live r \<Longrightarrow> handles_live (r\<lparr>rheap := (rheap r)(a \<mapsto> k)\<rparr>)"
  by (auto simp: handles_live_def)

lemma SetValue_inv:
  assumes "reg_inv r" "SetValue r key name t src cb = Some r'"
  shows "reg_inv r'" "handles_live r \<Longrightarrow> handles_live r'"
proof -
  obtain k d where k: "rheap r key = Some k"
    and r': "r' = r\<lparr>rheap := (rheap r)(key \<mapsto> k\<lparr>k_values := set_value (k_values k) name t d\<rparr>)\<rparr>"
    using assms(2) by (auto simp: SetValue_def bind_eq_Some)
  have "names_distinct (set_value (k_values k) name t d)"
    using reg_inv_cell [OF assms(1) k] by (simp add: cell_ok_def names_distinct_set_value)
  then show "reg_inv r'" using reg_inv_update_values [OF assms(1) k] r' by blast
  show "handles_live r \<Longrightarrow> handles_live r'" using r' live_update_values by blast
qed

lemma reg_inv_delete:
  assumes inv: "reg_inv r" and k: "rheap r base = Some k" and c: "c \<in> set (k_children k)"
  shows "reg_inv (r\<lparr>rheap := ((rheap r)(base \<mapsto> k\<lparr>k_children := remove1 c (k_children k)\<rparr>))(c := None)\<rparr>)"
proof -
  let ?hp = "((rheap r)(base \<mapsto> k\<lparr>k_children := remove1 c (k_children k)\<rparr>))(c := None)"
  obtain ck where ck: "base < c" "rheap r c = Some ck" "k_parent ck = base"
    using reg_inv_child [OF inv k c] by blast
  have root: "c \<noteq> g_regRoot r" using inv k ck(1) by (fastforce simp: reg_inv_def)
  have other: "b = base" if "rheap r b = Some kb" "c \<in> set (k_children kb)" for b kb
    using reg_inv_child [OF inv that] ck by auto
  have dist: "distinct (k_children k)" using reg_inv_cell [OF inv k] by (simp add: cell_ok_def)
  have "cell_ok ?hp b kb" if hb: "?hp b = Some kb" for b kb
  proof (cases "b = base")
    case True
    then have "kb = k\<lparr>k_children := remove1 c (k_children k)\<rparr>" using hb ck(1) by simp
    then show ?thesis
      using reg_inv_cell [OF inv k] dist True by (fastforce simp: cell_ok_def)
  next
    case False
    then have b: "rheap r b = Some kb" "b \<noteq> c" using hb by (auto split: if_splits)
    then have "c \<notin> set (k_children kb)" using other False by blast
    then show ?thesis using reg_inv_cell [OF inv b(1)] k by (fastforce simp: cell_ok_def)
  qed
  moreover have "heap_bounded (r\<lparr>rheap := ?hp\<rparr>)"
    using inv k by (auto simp: reg_inv_def heap_bounded_def)
  moreover have "?hp (g_regRoot r) \<noteq> None" using inv root by (simp add: reg_inv_def)
  moreover have "g_regRoot r \<le> b" if "?hp b = Some kb" for b kb
    using that inv k by (auto simp: reg_inv_def split: if_splits)
  ultimately show ?thesis using inv by (simp add: reg_inv_def)
qed

section \<open>The hooks keep the invariant\<close>

lemma AutoSave_keeps:
  assumes "AutoSave env r = Some r'" "reg_inv r"
  shows "reg_inv r'" "handles_live r \<Longrightarrow> handles_live r'" "rheap r' = rheap r"
    "g_fakeKeyTable r' = g_fakeKeyTable r"
  using AutoSave_inv [OF assms(2), of env] assms by auto

text \<open>The tail shared by the four hooks that open or create: navigate, then give a handle.\<close>

lemma NavigatePath_dangling:
  assumes "NavigatePath r base path create = Some (r1, key)" "base \<noteq> 0" "base \<notin> dom (rheap r)"
  shows "r1 = r" "key = base"
proof -
  have "rheap r base = None" using assms(3) by blast
  then show "r1 = r" "key = base"
    using assms(1,2)
    by (cases "tokens backslash (take 511 path)"; auto simp: NavigatePath_def split: if_splits)+
qed

lemma navigate_give_inv:
  assumes "reg_inv r" "NavigatePath r base path create = Some (r1, key)" "base \<noteq> 0"
    "key \<noteq> 0" "give_handle r1 hKey sub key = (r2, h)"
  shows "reg_inv r2" "handles_live r \<Longrightarrow> base \<in> dom (rheap r) \<Longrightarrow> handles_live r2"
proof -
  have w: "walked r create r1 key" if "base \<in> dom (rheap r)"
    using NavigatePath_inv [OF assms(1), of base path create] assms(2) that by auto
  have i: "reg_inv r1"
    using w NavigatePath_dangling [OF assms(2,3)] assms(1) by (auto simp: walked_def)
  from give_handle_inv [OF assms(5) i assms(4)] show "reg_inv r2" by blast
  assume live: "handles_live r" "base \<in> dom (rheap r)"
  then have "handles_live r1" "key \<in> dom (rheap r1)"
    using w assms(4) by (auto simp: walked_def intro: handles_live_mono)
  with give_handle_inv [OF assms(5) i assms(4)] show "handles_live r2" by blast
qed

lemma root_nonzero: "reg_inv r \<Longrightarrow> g_regRoot r \<noteq> 0 \<and> g_regRoot r \<in> dom (rheap r)"
  using reg_inv_bound [of r "g_regRoot r"] by (auto simp: reg_inv_def)

text \<open>The base address of an open or create: the root, or the key of a handle.\<close>

definition is_base :: "registry \<Rightarrow> raddr \<Rightarrow> bool" where
  "is_base r b \<longleftrightarrow> b = g_regRoot r \<or> b \<noteq> 0 \<and> (\<exists>h. b = HandleToKey r h)"

lemma is_base_simps [simp]:
  "is_base r (g_regRoot r)"
  "HandleToKey r h \<noteq> 0 \<Longrightarrow> is_base r (HandleToKey r h)"
  by (auto simp: is_base_def)

lemma is_base_ok:
  assumes "reg_inv r" "is_base r b"
  shows "b \<noteq> 0" "handles_live r \<Longrightarrow> b \<in> dom (rheap r)"
  using assms root_nonzero [OF assms(1)] HandleToKey_live [OF assms(1)]
  by (auto simp: is_base_def)

lemma fail_Some: "fail r c out = Some (r', ret) \<longleftrightarrow> r' = r\<lparr>reg_error := c\<rparr> \<and> ret = Ret c out"
  by (auto simp: fail_def)

lemma not_ours_Some:
  "not_ours real r out = Some (r', ret) \<longleftrightarrow>
   (if real then r' = r \<and> ret = Forwarded
    else r' = r\<lparr>reg_error := ERROR_INVALID_HANDLE\<rparr> \<and> ret = Ret ERROR_INVALID_HANDLE out)"
  by (auto simp: not_ours_def fail_def)

named_theorems hook_keeps \<open>preservation of the registry invariant by a hook\<close>

text \<open>
  \<open>keeps r r'\<close>: the invariant is kept, and so is the liveness of all handles.
\<close>

definition keeps :: "registry \<Rightarrow> registry \<Rightarrow> bool" where
  "keeps r r' \<longleftrightarrow> (reg_inv r \<longrightarrow> reg_inv r' \<and> (handles_live r \<longrightarrow> handles_live r'))"

lemma keeps_simps [simp]: "keeps r r" "keeps r (r\<lparr>reg_error := e\<rparr>)"
  by (simp_all add: keeps_def)

lemma keeps_trans: "keeps r r1 \<Longrightarrow> keeps r1 r2 \<Longrightarrow> keeps r r2"
  by (simp add: keeps_def)

lemma keeps_AutoSave: "AutoSave env r = Some r' \<Longrightarrow> keeps r r'"
  using AutoSave_keeps [of env r r'] by (auto simp: keeps_def)

lemma keeps_navigate:
  assumes "NavigatePath r b path create = Some (r1, key)" "is_base r b"
  shows "keeps r r1"
  unfolding keeps_def
proof (intro impI)
  assume inv: "reg_inv r"
  show "reg_inv r1 \<and> (handles_live r \<longrightarrow> handles_live r1)"
  proof (cases "b \<in> dom (rheap r)")
    case True
    then have "walked r create r1 key"
      using NavigatePath_inv [OF inv, of b path create] assms(1) by auto
    then show ?thesis by (auto simp: walked_def intro: handles_live_mono)
  next
    case False
    then show ?thesis
      using NavigatePath_dangling [OF assms(1)] is_base_ok [OF inv assms(2)] inv by blast
  qed
qed

lemma keeps_navigate_give:
  assumes "NavigatePath r b path create = Some (r1, key)" "is_base r b" "key \<noteq> 0"
    "give_handle r1 hKey sub key = (r2, h')"
  shows "keeps r r2"
  unfolding keeps_def
  using navigate_give_inv [OF _ assms(1) _ assms(3,4)] is_base_ok [OF _ assms(2)] by blast

lemma keeps_set_error: "keeps r r1 \<Longrightarrow> keeps r (r1\<lparr>reg_error := e\<rparr>)"
  by (simp add: keeps_def)

lemmas hook_simps = Let_def bind_eq_Some fail_Some not_ours_Some

lemma keeps_navigate_fail:
  "NavigatePath r b path create = Some (r1, key) \<Longrightarrow> is_base r b \<Longrightarrow> keeps r (r1\<lparr>reg_error := e\<rparr>)"
  by (rule keeps_set_error [OF keeps_navigate])

lemmas open_intros = keeps_navigate_give keeps_navigate_fail
  keeps_trans [OF keeps_navigate_give keeps_AutoSave]

lemma keeps_create_ex [hook_keeps]:
  "Hook_RegCreateKeyExW env r h sub = Some (r', ret) \<Longrightarrow> keeps r r'"
  by (auto simp: Hook_RegCreateKeyExW_def hook_simps split: if_splits prod.splits intro: open_intros)

lemma keeps_create [hook_keeps]:
  "Hook_RegCreateKeyW env real r h sub = Some (r', ret) \<Longrightarrow> keeps r r'"
  by (auto simp: Hook_RegCreateKeyW_def hook_simps split: if_splits prod.splits intro: open_intros)

lemma keeps_open_ex [hook_keeps]:
  "Hook_RegOpenKeyExW r h sub = Some (r', ret) \<Longrightarrow> keeps r r'"
  by (auto simp: Hook_RegOpenKeyExW_def hook_simps split: if_splits prod.splits intro: open_intros)

lemma keeps_open [hook_keeps]:
  "Hook_RegOpenKeyW real r h sub = Some (r', ret) \<Longrightarrow> keeps r r'"
  by (auto simp: Hook_RegOpenKeyW_def hook_simps split: if_splits prod.splits intro: open_intros)

lemma keeps_set [hook_keeps]:
  assumes "Hook_RegSetValueExW env r h n t d cb = Some (r', ret)"
  shows "keeps r r'"
proof -
  have set: "keeps r r1" if "SetValue r key m ty src c = Some r1" for r1 key m ty src c
    using SetValue_inv [OF _ that] by (auto simp: keeps_def)
  show ?thesis using assms
    by (auto simp: Hook_RegSetValueExW_def hook_simps split: if_splits
        intro: keeps_trans [OF set keeps_AutoSave])
qed

lemma keeps_delete_value [hook_keeps]:
  assumes "Hook_RegDeleteValueW env real r h n = Some (r', ret)"
  shows "keeps r r'"
proof -
  have upd: "keeps r (r\<lparr>rheap := (rheap r)(a \<mapsto> k\<lparr>k_values := vs\<rparr>)\<rparr>)"
    if "rheap r a = Some k" "remove_value (k_values k) m = Some vs" for a k m vs
    using reg_inv_update_values [OF _ that(1), of vs] names_distinct_remove [OF that(2)]
      reg_inv_cell [OF _ that(1)] live_update_values
    by (auto simp: keeps_def cell_ok_def)
  show ?thesis using assms
    by (auto simp: Hook_RegDeleteValueW_def hook_simps split: if_splits option.splits
        intro: keeps_trans [OF upd keeps_AutoSave])
qed

lemma delete_key_inv [hook_keeps]:
  assumes "Hook_RegDeleteKeyW env real r h sub = Some (r', ret)" "reg_inv r"
  shows "reg_inv r'"
proof -
  have del: "reg_inv (r\<lparr>rheap := ((rheap r)(b \<mapsto> k\<lparr>k_children := remove1 c (k_children k)\<rparr>))(c := None)\<rparr>)"
    if "rheap r b = Some k" "find_child (rheap r) (k_children k) sub = Some (Some c)" for b k c
    using find_child_inv [OF assms(2) that(1) subset_refl, of sub] that
    by (intro reg_inv_delete [OF assms(2) that(1)]) auto
  show ?thesis using assms
    by (auto simp: Hook_RegDeleteKeyW_def hook_simps split: if_splits option.splits
        intro: AutoSave_keeps(1) [OF _ del])
qed

lemma GetKeyPath_dead: "reg_inv r \<Longrightarrow> HandleToKey r h = 0 \<Longrightarrow> GetKeyPath r h = None"
proof -
  assume inv: "reg_inv r" and z: "HandleToKey r h = 0"
  have "h = FAKE_SERVICE_KEY \<or> \<not> handle_index h < length (g_fakeKeyTable r)"
  proof (rule ccontr)
    assume "\<not> ?thesis"
    then have "g_fakeKeyTable r ! handle_index h \<in> set (g_fakeKeyTable r)"
      "HandleToKey r h = g_fakeKeyTable r ! handle_index h" by (auto simp: HandleToKey_def)
    then show False using inv z by (metis reg_inv_def)
  qed
  then show ?thesis using inv by (auto simp: GetKeyPath_def reg_inv_def)
qed

lemma resolve_key_inv:
  "reg_inv r \<Longrightarrow> resolve_key r h = Some (r, HandleToKey r h)"
  by (cases "HandleToKey r h = 0") (auto simp: resolve_key_def GetKeyPath_dead)

lemma query_key_state:
  "query_key r key n ht d cb = Some (r', ret) \<Longrightarrow> r' = r \<or> r' = r\<lparr>reg_error := ERROR_FILE_NOT_FOUND\<rparr>"
  by (cases "GetValue r key n False 0"; cases "the (GetValue r key n False 0)"; cases d)
    (auto simp: query_key_def answer_def hook_simps split: if_split_asm)

lemma keeps_query [hook_keeps]:
  assumes "Hook_RegQueryValueExW r h n ht d cb = Some (r', ret)"
  shows "keeps r r'"
  unfolding keeps_def
proof (intro impI)
  assume inv: "reg_inv r"
  have "r' = r \<or> (\<exists>e. r' = r\<lparr>reg_error := e\<rparr>)"
    using assms resolve_key_inv [OF inv, of h]
    by (auto simp: Hook_RegQueryValueExW_def fake_value_def answer_def hook_simps
        split: if_split_asm option.split_asm dest!: query_key_state)
  then show "reg_inv r' \<and> (handles_live r \<longrightarrow> handles_live r')" using inv by auto
qed

lemma finish_get_state: "finish_get fl res = Some (r', ret) \<Longrightarrow> \<exists>ret'. res = Some (r', ret')"
  by (cases res) (auto simp: finish_get_def split: reg_ret.splits if_splits)

lemma keeps_get [hook_keeps]:
  assumes "Hook_RegGetValueW r h sub n fl ht d cb = Some (r', ret)"
  shows "keeps r r'"
proof (cases "wstr_of sub = []")
  case True
  then obtain ret' where "Hook_RegQueryValueExW r h n ht d cb = Some (r', ret')"
    using assms by (auto simp: Hook_RegGetValueW_def dest: finish_get_state)
  then show ?thesis by (rule keeps_query)
next
  case False
  then obtain r1 ret1 where o: "Hook_RegOpenKeyExW r h sub = Some (r1, ret1)"
    using assms by (auto simp: Hook_RegGetValueW_def bind_eq_Some)
  have "r' = r1 \<or> (\<exists>t ret'. Hook_RegQueryValueExW r1 t n ht d cb = Some (r', ret'))"
    using assms False o
    by (auto simp: Hook_RegGetValueW_def split: reg_ret.split_asm option.split_asm
        dest!: finish_get_state)
  then show ?thesis using keeps_open_ex [OF o] keeps_query keeps_trans by blast
qed

lemma keeps_enum_key [hook_keeps]:
  "Hook_RegEnumKeyExW real r h i b c = Some (r', ret) \<Longrightarrow> keeps r r'"
  by (fastforce simp: Hook_RegEnumKeyExW_def hook_simps split: if_split_asm option.split_asm)

lemma keeps_enum_key_old [hook_keeps]:
  "Hook_RegEnumKeyW real r h i b c = Some (r', ret) \<Longrightarrow> keeps r r'"
  by (auto simp: Hook_RegEnumKeyW_def hook_simps split: if_split_asm option.split_asm)

lemma enum_value_data_state: "enum_value_data r v ht out = Some (r', ret) \<Longrightarrow> r' = r"
  by (cases "ev_data out"; cases "ev_cb out")
    (auto simp: enum_value_data_def hook_simps split: if_split_asm)

lemma keeps_enum_value [hook_keeps]:
  assumes "Hook_RegEnumValueW real r h i nm c ht d cb = Some (r', ret)"
  shows "keeps r r'"
proof -
  have "r' = r \<or> (\<exists>e. r' = r\<lparr>reg_error := e\<rparr>)"
    using assms
    by (cases c; cases "rheap r (HandleToKey r h)";
        cases "nth_opt (k_values (the (rheap r (HandleToKey r h)))) (unat i)")
      (auto simp: Hook_RegEnumValueW_def hook_simps split: if_split_asm dest!: enum_value_data_state)
  then show ?thesis by auto
qed

lemma keeps_info [hook_keeps]:
  "Hook_RegQueryInfoKeyW real r h cl hc info = Some (r', ret) \<Longrightarrow> keeps r r'"
  by (auto simp: Hook_RegQueryInfoKeyW_def hook_simps split: if_split_asm option.split_asm)

lemma keeps_close [hook_keeps]:
  "Hook_RegCloseKey real r h = Some (r', ret) \<Longrightarrow> keeps r r'"
  by (auto simp: Hook_RegCloseKey_def hook_simps split: if_splits)

lemma keeps_notify [hook_keeps]:
  "Hook_RegNotifyChangeKeyValue real r h = Some (r', ret) \<Longrightarrow> keeps r r'"
  by (auto simp: Hook_RegNotifyChangeKeyValue_def hook_simps split: if_splits)

section \<open>Runs of hooks\<close>

text \<open>One call of a hook that returns; the flag says whether it is a deletion of a key.\<close>

inductive reg_step :: "bool \<Rightarrow> registry \<Rightarrow> registry \<Rightarrow> bool" where
  st_create_ex: "Hook_RegCreateKeyExW env r h sub = Some (r', ret1) \<Longrightarrow> reg_step False r r'"
| st_create: "Hook_RegCreateKeyW env real r h sub = Some (r', ret2) \<Longrightarrow> reg_step False r r'"
| st_open_ex: "Hook_RegOpenKeyExW r h sub = Some (r', ret2) \<Longrightarrow> reg_step False r r'"
| st_open: "Hook_RegOpenKeyW real r h sub = Some (r', ret2) \<Longrightarrow> reg_step False r r'"
| st_close: "Hook_RegCloseKey real r h = Some (r', ret3) \<Longrightarrow> reg_step False r r'"
| st_set: "Hook_RegSetValueExW env r h n t d cb = Some (r', ret3) \<Longrightarrow> reg_step False r r'"
| st_query: "Hook_RegQueryValueExW r h n ht db lcb = Some (r', ret4) \<Longrightarrow> reg_step False r r'"
| st_get: "Hook_RegGetValueW r h sub n fl ht db lcb = Some (r', ret4) \<Longrightarrow> reg_step False r r'"
| st_delete_value: "Hook_RegDeleteValueW env real r h n = Some (r', ret3) \<Longrightarrow> reg_step False r r'"
| st_enum_key: "Hook_RegEnumKeyExW real r h i b c = Some (r', ret5) \<Longrightarrow> reg_step False r r'"
| st_enum_key_old: "Hook_RegEnumKeyW real r h i b c = Some (r', ret6) \<Longrightarrow> reg_step False r r'"
| st_enum_value: "Hook_RegEnumValueW real r h i nm lc ht db lcb = Some (r', ret7) \<Longrightarrow> reg_step False r r'"
| st_info: "Hook_RegQueryInfoKeyW real r h cl hc info = Some (r', ret8) \<Longrightarrow> reg_step False r r'"
| st_notify: "Hook_RegNotifyChangeKeyValue real r h = Some (r', ret3) \<Longrightarrow> reg_step False r r'"
| st_delete_key: "Hook_RegDeleteKeyW env real r h dsub = Some (r', ret3) \<Longrightarrow> reg_step True r r'"

lemma reg_step_keeps: "reg_step False r r' \<Longrightarrow> keeps r r'"
  by (cases rule: reg_step.cases [of False r r' "keeps r r'"]) (auto intro: hook_keeps)

lemma reg_step_inv: "reg_step d r r' \<Longrightarrow> reg_inv r \<Longrightarrow> reg_inv r'"
proof (cases d)
  case False
  then show "reg_step d r r' \<Longrightarrow> reg_inv r \<Longrightarrow> reg_inv r'"
    using reg_step_keeps [of r r'] by (simp add: keeps_def)
next
  case True
  then show "reg_step d r r' \<Longrightarrow> reg_inv r \<Longrightarrow> reg_inv r'"
    by (auto elim: reg_step.cases intro: delete_key_inv)
qed

text \<open>\<open>reg_reach d\<close>: the states after the start without a file, with deletions when \<open>d\<close>.\<close>

inductive reg_reach :: "bool \<Rightarrow> registry \<Rightarrow> bool" for d where
  rr_start: "Register_InstallHooks wow64 None = Some r \<Longrightarrow> reg_reach d r"
| rr_step: "reg_reach d r \<Longrightarrow> reg_step del r r' \<Longrightarrow> del \<longrightarrow> d \<Longrightarrow> reg_reach d r'"

lemma start_inv: "Register_InstallHooks wow64 None = Some r \<Longrightarrow> reg_inv r \<and> handles_live r"
  by (auto simp: Register_InstallHooks_def CreateKey_def LoadRegistryFromFile_def Let_def
      ResetHandleTable_def reg_inv_def heap_bounded_def handles_live_def cell_ok_def split: if_splits)

lemma reg_reach_inv: "reg_reach d r \<Longrightarrow> reg_inv r"
  by (induction rule: reg_reach.induct) (auto dest: start_inv reg_step_inv)

lemma reg_reach_live: "reg_reach False r \<Longrightarrow> handles_live r"
proof (induction rule: reg_reach.induct)
  case (rr_step r del r')
  then have "reg_step False r r'" by simp
  then show ?case using reg_step_keeps [of r r'] reg_reach_inv [OF rr_step(1)] rr_step(4)
    by (simp add: keeps_def)
qed (auto dest: start_inv)

end
