(* ===== verification/Tree_Dump.thy ===== *)
theory Tree_Dump
  imports Registry_Dump Registry_Properties
begin

text \<open>
  The dump of the tree that ends \<open>Register_InstallHooks\<close> of src/register.c: \<open>DumpRegistryTree\<close>,
  \<open>DumpRealRegistryTree\<close> and the recursion \<open>DumpRealKey\<close>.  The imports of the library are patched
  before, so the advapi32 functions it calls are the hooks, and the state of the registry goes
  through them.  The buffers are on the stack of each call and keep what the enumeration does not
  overwrite.  None is a dump that reads behind a buffer, ends the process or does not return.
\<close>

section \<open>Lines\<close>

datatype tree_line =
    T_Start | T_End | T_Empty
  | T_Root_Failed wstr u32
  | T_Key bytes wstr
  | T_Sz bytes wstr wstr
  | T_Dword bytes wstr u32
  | T_Bad_Dword bytes wstr u32
  | T_Qword bytes wstr u64
  | T_Bad_Qword bytes wstr u32
  | T_Multi bytes wstr "wstr list"
  | T_Binary bytes wstr u32 bytes
  | T_Other bytes wstr u32 u32
  | T_Cannot_Open bytes wstr u32

text \<open>The buffers a call of \<open>DumpRealKey\<close> has on its stack, with their first contents a parameter;
  \<open>ds_strict\<close> says that the handler of wcscat_s for a full buffer ends the process, otherwise the
  buffer becomes the empty string.\<close>

record dump_bufs =
  valName :: wstr
  valType :: u32
  valData :: bytes

record dump_sys =
  ds_real :: bool
  ds_strict :: bool
  ds_stack :: "u32 \<Rightarrow> dump_bufs"
  ds_subName :: "u32 \<Rightarrow> wstr"

definition VAL_NAME :: nat where "VAL_NAME = 256"
definition VAL_DATA :: nat where "VAL_DATA = 4096"
definition INDENT_SIZE :: nat where "INDENT_SIZE = 128"

definition sys_ok :: "dump_sys \<Rightarrow> bool" where
  "sys_ok e \<longleftrightarrow> (\<forall>h. length (valName (ds_stack e h)) = VAL_NAME \<and> length (valData (ds_stack e h)) = VAL_DATA \<and>
     length (ds_subName e h) = VAL_NAME)"

text \<open>The indentation is a wide string that the log prints with the conversion for bytes.\<close>

fun wide_indent :: "bool \<Rightarrow> nat \<Rightarrow> wstr option" where
  "wide_indent strict 0 = Some []"
| "wide_indent strict (Suc i) = do {
     s \<leftarrow> wide_indent strict i;
     if length s + 2 < INDENT_SIZE then Some (s @ str ''  '') else if strict then None else Some [] }"

definition indent_text :: "bool \<Rightarrow> nat \<Rightarrow> bytes option" where
  "indent_text strict depth =
     map_option (\<lambda>s. takeWhile (\<lambda>c. c \<noteq> 0) (wbytes (s @ [0]))) (wide_indent strict depth)"

text \<open>The line of one value; \<open>n\<close> is \<open>valDataLen\<close>.\<close>

definition value_entry :: "bytes \<Rightarrow> wstr \<Rightarrow> u32 \<Rightarrow> nat \<Rightarrow> bytes \<Rightarrow> tree_line option" where
  "value_entry ind vn type n data =
     (if type = REG_SZ \<or> type = REG_EXPAND_SZ then
        (if n \<ge> 2 then map_option (T_Sz ind vn) (wcs_at (of_wbytes data)) else Some (T_Sz ind vn []))
      else if type = REG_DWORD then
        Some (if n \<ge> 4 then T_Dword ind vn (of_le32 data) else T_Bad_Dword ind vn (of_nat n))
      else if type = REG_QWORD then
        Some (if n \<ge> 8 then T_Qword ind vn (ucast (of_le32 data) OR push_bit 32 (ucast (of_le32 (drop 4 data))))
              else T_Bad_Qword ind vn (of_nat n))
      else if type = REG_MULTI_SZ then map_option (T_Multi ind vn) (wcs_list (of_wbytes data))
      else if type = REG_BINARY then map_option (T_Binary ind vn (of_nat n)) (mem_read data 0 (min n 32))
      else Some (T_Other ind vn type (of_nat n)))"

definition default_name :: wstr where "default_name = str ''(default)''"

section \<open>The recursion\<close>

partial_function (option) values_dump ::
    "bool \<Rightarrow> bytes \<Rightarrow> u32 \<Rightarrow> registry \<Rightarrow> dump_bufs \<Rightarrow> u32 \<Rightarrow> (registry \<times> tree_line list) option" where
  "values_dump real ind hKey r b valIndex = do {
     (r, ret) \<leftarrow> Hook_RegEnumValueW real r hKey valIndex (Some (valName b)) (Some (of_nat VAL_NAME)) True
                   (Some (valData b)) (Some (of_nat VAL_DATA));
     (case ret of
        Forwarded \<Rightarrow> values_dump real ind hKey r b (valIndex + 1)
      | Ret lr out \<Rightarrow>
          if lr = ERROR_NO_MORE_ITEMS then Some (r, [])
          else if lr \<noteq> ERROR_SUCCESS \<and> lr \<noteq> ERROR_MORE_DATA then values_dump real ind hKey r b (valIndex + 1)
          else do {
            nameBuf \<leftarrow> ev_name out;
            nameLen \<leftarrow> ev_cch out;
            data \<leftarrow> ev_data out;
            dataLen \<leftarrow> ev_cb out;
            let type = (case ev_type out of None \<Rightarrow> valType b | Some t \<Rightarrow> t);
            vn \<leftarrow> (if nameLen > 0 then wcs_at nameBuf else Some default_name);
            l \<leftarrow> value_entry ind vn type (unat dataLen) data;
            (r, ls) \<leftarrow> values_dump real ind hKey r \<lparr>valName = nameBuf, valType = type, valData = data\<rparr> (valIndex + 1);
            Some (r, l # ls) }) }"

text \<open>\<open>Dump_Key\<close> is a call of \<open>DumpRealKey\<close>, \<open>Dump_Subs\<close> its loop over the subkeys from an index on.  A
  forwarded enumeration asks the real function for a handle it does not know.\<close>

datatype tree_task = Dump_Key u32 wstr nat | Dump_Subs u32 bytes nat u32

partial_function (option) tree_dump ::
    "dump_sys \<Rightarrow> registry \<Rightarrow> tree_task \<Rightarrow> (registry \<times> tree_line list) option" where
  "tree_dump e r t =
     (case t of
        Dump_Key hKey keyName depth \<Rightarrow> do {
          ind \<leftarrow> indent_text (ds_strict e) depth;
          (r, vs) \<leftarrow> values_dump (ds_real e) ind hKey r (ds_stack e hKey) 0;
          (r, ss) \<leftarrow> tree_dump e r (Dump_Subs hKey ind depth 0);
          Some (r, T_Key ind keyName # vs @ ss) }
      | Dump_Subs hKey ind depth subIdx \<Rightarrow> do {
          (r, ret) \<leftarrow> Hook_RegEnumKeyExW (ds_real e) r hKey subIdx (ds_subName e hKey) (of_nat VAL_NAME);
          (case ret of
             Forwarded \<Rightarrow> tree_dump e r (Dump_Subs hKey ind depth (subIdx + 1))
           | Ret lr out \<Rightarrow>
               if lr = ERROR_NO_MORE_ITEMS then Some (r, [])
               else if lr \<noteq> ERROR_SUCCESS then tree_dump e r (Dump_Subs hKey ind depth (subIdx + 1))
               else do {
                 subName \<leftarrow> wcs_at (fst out);
                 (r, ret) \<leftarrow> Hook_RegOpenKeyExW r hKey (Some subName);
                 (r, ls) \<leftarrow> (case ret of
                    Ret lr (Some hSubKey) \<Rightarrow> do {
                      (r, ls) \<leftarrow> tree_dump e r (Dump_Key hSubKey subName (Suc depth));
                      (r, _) \<leftarrow> Hook_RegCloseKey (ds_real e) r hSubKey;
                      Some (r, ls) }
                  | Ret lr None \<Rightarrow> Some (r, [T_Cannot_Open ind subName lr])
                  | Forwarded \<Rightarrow> Some (r, [T_Cannot_Open ind subName ERROR_INVALID_HANDLE]));
                 (r, ls') \<leftarrow> tree_dump e r (Dump_Subs hKey ind depth (subIdx + 1));
                 Some (r, ls @ ls') }) })"

definition DumpRealRegistryTree ::
    "dump_sys \<Rightarrow> registry \<Rightarrow> u32 \<Rightarrow> wstr \<Rightarrow> (registry \<times> tree_line list) option" where
  "DumpRealRegistryTree e r hRoot lpSubKey = do {
     (r, ret) \<leftarrow> Hook_RegOpenKeyExW r hRoot (Some lpSubKey);
     (case ret of
        Ret lr (Some hKey) \<Rightarrow> do {
          (r, ls) \<leftarrow> tree_dump e r (Dump_Key hKey lpSubKey 0);
          (r, _) \<leftarrow> Hook_RegCloseKey (ds_real e) r hKey;
          Some (r, ls) }
      | Ret lr None \<Rightarrow> Some (r, [T_Root_Failed lpSubKey lr])
      | Forwarded \<Rightarrow> Some (r, [T_Root_Failed lpSubKey ERROR_INVALID_HANDLE])) }"

definition famatech :: wstr where "famatech = str ''SOFTWARE'' @ backslash # str ''Famatech''"

definition DumpRegistryTree :: "dump_sys \<Rightarrow> registry \<Rightarrow> (registry \<times> tree_line list) option" where
  "DumpRegistryTree e r = do {
     (r, ls) \<leftarrow> (if g_regRoot r \<noteq> 0 then DumpRealRegistryTree e r HKEY_LOCAL_MACHINE famatech
                else Some (r, [T_Empty]));
     Some (r, T_Start # ls @ [T_End]) }"

text \<open>The whole of \<open>Register_InstallHooks\<close>.\<close>

definition Register_InstallHooks_logged ::
    "dump_sys \<Rightarrow> bool \<Rightarrow> bytes option \<Rightarrow> (registry \<times> tree_line list) option" where
  "Register_InstallHooks_logged e wow64 file = do {
     r \<leftarrow> Register_InstallHooks wow64 file;
     DumpRegistryTree e r }"

section \<open>One key\<close>

text \<open>The line of a value as it is stored: without the contents of the stack, so it is None for a value
  that does not fit and for a text without its end.\<close>

definition shown_value :: "bytes \<Rightarrow> regvalue \<Rightarrow> tree_line option" where
  "shown_value ind v =
     (if length (v_name v) < VAL_NAME \<and> length (v_data v) \<le> VAL_DATA then
        value_entry ind (if v_name v = [] then default_name else v_name v) (v_type v) (length (v_data v)) (v_data v)
      else None)"

lemma of_wbytes_prefix: "\<exists>X. of_wbytes (d @ rest) = of_wbytes d @ X"
  by (induction d rule: of_wbytes.induct) auto

lemma wcs_at_prefix: "wcs_at b = Some s \<Longrightarrow> wcs_at (b @ X) = Some s"
  by (auto simp: wcs_at_def split: if_splits)

lemma takeWhile_shorter: "0 \<in> set b \<Longrightarrow> length (takeWhile (\<lambda>c. c \<noteq> 0) b) < length (b :: wstr)"
  by (induction b) auto

lemma wcs_list_prefix: "wcs_list b = Some l \<Longrightarrow> wcs_list (b @ X) = Some l"
proof (induction b arbitrary: l rule: wcs_list.induct)
  case (1 b)
  obtain s where s: "wcs_at b = Some s" using "1.prems" by (auto simp: wcs_list.simps [of b] split: option.splits)
  note sX = wcs_at_prefix [OF s, of X]
  show ?case
  proof (cases "s = []")
    case True
    then show ?thesis using "1.prems" s sX by (simp add: wcs_list.simps [of b] wcs_list.simps [of "b @ X"])
  next
    case False
    then obtain l' where l': "wcs_list (drop (Suc (length s)) b) = Some l'" "l = s # l'"
      using "1.prems" s by (auto simp: wcs_list.simps [of b])
    have "0 \<in> set b" "s = takeWhile (\<lambda>c. c \<noteq> 0) b" using s by (auto simp: wcs_at_def split: if_splits)
    then have "length s < length b" by (simp add: takeWhile_shorter)
    then have "drop (Suc (length s)) (b @ X) = drop (Suc (length s)) b @ X" by simp
    then show ?thesis using "1.IH" [OF s False l'(1)] False sX l'(2) by (simp add: wcs_list.simps [of "b @ X"])
  qed
qed

lemma of_le32_prefix:
  assumes "4 \<le> length d"
  shows "of_le32 (d @ rest) = of_le32 d"
proof -
  have "(d @ rest) ! i = d ! i" if "i < 4" for i using that assms by (simp add: nth_append)
  then show ?thesis unfolding of_le32_def by simp
qed

lemma value_entry_prefix:
  assumes "value_entry ind vn ty (length d) d = Some l"
  shows "value_entry ind vn ty (length d) (d @ rest) = Some l"
proof -
  obtain X where X: "of_wbytes (d @ rest) = of_wbytes d @ X" using of_wbytes_prefix by blast
  have t: "wcs_at (of_wbytes d) \<noteq> None \<Longrightarrow> wcs_at (of_wbytes (d @ rest)) = wcs_at (of_wbytes d)"
    "wcs_list (of_wbytes d) \<noteq> None \<Longrightarrow> wcs_list (of_wbytes (d @ rest)) = wcs_list (of_wbytes d)"
    unfolding X using wcs_at_prefix wcs_list_prefix by force+
  have q: "4 \<le> length d \<Longrightarrow> of_le32 (d @ rest) = of_le32 d"
    "8 \<le> length d \<Longrightarrow> of_le32 (drop 4 (d @ rest)) = of_le32 (drop 4 d)"
    using of_le32_prefix [of d rest] of_le32_prefix [of "drop 4 d" rest] by simp_all
  have m: "mem_read (d @ rest) 0 (min (length d) 32) = mem_read d 0 (min (length d) 32)"
    by (simp add: mem_read_def)
  consider "ty = REG_SZ \<or> ty = REG_EXPAND_SZ" | "\<not> (ty = REG_SZ \<or> ty = REG_EXPAND_SZ)" "ty = REG_MULTI_SZ"
    | "\<not> (ty = REG_SZ \<or> ty = REG_EXPAND_SZ)" "ty \<noteq> REG_MULTI_SZ" by blast
  then show ?thesis
  proof cases
    case 1
    then have "length d \<ge> 2 \<Longrightarrow> wcs_at (of_wbytes d) \<noteq> None" using assms by (auto simp: value_entry_def)
    then show ?thesis using assms 1 t(1) unfolding value_entry_def by (simp split del: if_split cong: if_cong)
  next
    case 2
    then have "wcs_list (of_wbytes d) \<noteq> None"
      using assms unfolding value_entry_def by (auto simp: reg_types)
    then show ?thesis using assms t(2) unfolding value_entry_def 2(2) by (simp only:)  (simp add: reg_types)
  next
    case 3
    then show ?thesis using assms q m unfolding value_entry_def by (simp only: simp_thms if_False cong: if_cong)
  qed
qed

lemma lstrcpyn_whole:
  assumes "0 \<notin> set s" "length s < n" "n < 2 ^ 32" "length b = n"
  shows "\<exists>b'. lstrcpyn b s (of_nat n) = Some b' \<and> wcs_at b' = Some s \<and> length b' = n"
proof -
  have n: "(of_nat n :: u32) \<noteq> 0" "unat (of_nat n :: u32) = n"
    using assms(2,3) by (simp_all add: unat_of_nat_u32) (metis assms(3) not_less_zero unat_0 unat_of_nat_u32)
  have "lstrcpyn b s (of_nat n) = Some (s @ 0 # drop (Suc (length s)) b)"
    using assms n by (simp add: lstrcpyn_def mem_write_def)
  moreover have "takeWhile (\<lambda>c. c \<noteq> 0) (s @ 0 # drop (Suc (length s)) b) = s"
    using assms(1) by (intro takeWhile_append_stop) auto
  ultimately show ?thesis using assms(2,4) by (simp add: wcs_at_def)
qed

definition bufs_ok :: "dump_bufs \<Rightarrow> bool" where
  "bufs_ok b \<longleftrightarrow> length (valName b) = VAL_NAME \<and> length (valData b) = VAL_DATA"

text \<open>The enumeration of a value that fits the buffers of the caller, of n characters and m bytes.\<close>

lemma enum_value_fits:
  assumes h: "HandleToKey r h \<noteq> 0" "h \<noteq> FAKE_SERVICE_KEY" "rheap r (HandleToKey r h) = Some k"
    and i: "unat i < length (k_values k)" "v = k_values k ! unat i"
    and v: "value_ok v" "length (v_name v) < n" "length (v_data v) \<le> m"
    and b: "length nameBuf = n" "length dataBuf = m" "n < 2 ^ 32" "m < 2 ^ 32"
  shows "\<exists>nb. Hook_RegEnumValueW real r h i (Some nameBuf) (Some (of_nat n)) True (Some dataBuf) (Some (of_nat m)) =
    Some (r, Ret ERROR_SUCCESS \<lparr>ev_name = Some nb, ev_cch = Some (of_nat (length (v_name v))),
      ev_type = Some (v_type v), ev_data = Some (v_data v @ drop (length (v_data v)) dataBuf),
      ev_cb = Some (v_size v)\<rparr>) \<and> wcs_at nb = Some (v_name v) \<and> length nb = n"
proof -
  have "0 \<notin> set (v_name v)" using v(1) by (simp add: value_ok_def text_ok_def)
  from lstrcpyn_whole [OF this v(2) b(3,1)] obtain nb where
    nb: "lstrcpyn nameBuf (v_name v) (of_nat n) = Some nb" "wcs_at nb = Some (v_name v)" "length nb = n"
    by blast
  have l: "length (v_name v) < 2 ^ 32" "length (v_data v) < 2 ^ 32" using v(2,3) b(3,4) by simp_all
  have n: "\<not> of_nat n \<le> (of_nat (length (v_name v)) :: u32)" "\<not> of_nat m < v_size v"
    using v(2,3) b(3,4) l by (simp_all add: word_le_nat_alt word_less_nat_alt unat_of_nat_u32 v_size_def)
  have at: "nth_opt (k_values k) (unat i) = Some v" using i by (simp add: nth_opt_def)
  have w: "mem_write dataBuf 0 (v_data v) = Some (v_data v @ drop (length (v_data v)) dataBuf)"
    using v(3) b by (simp add: mem_write_def)
  show ?thesis
    using h at n nb w by (simp add: Hook_RegEnumValueW_def Let_def enum_value_data_def)
qed

lemma codes_differ [simp]: "ERROR_SUCCESS \<noteq> ERROR_NO_MORE_ITEMS" "ERROR_MORE_DATA \<noteq> ERROR_NO_MORE_ITEMS"
  "ERROR_MORE_DATA \<noteq> ERROR_SUCCESS"
  by (simp_all add: reg_codes)

lemma values_dump_shown:
  assumes h: "HandleToKey r h \<noteq> 0" "h \<noteq> FAKE_SERVICE_KEY" "rheap r (HandleToKey r h) = Some k"
    and vs: "list_all value_ok (k_values k)" "length (k_values k) < 2 ^ 32"
    and b: "bufs_ok b" and i: "i \<le> length (k_values k)"
    and ls: "those (map (shown_value ind) (drop i (k_values k))) = Some ls"
  shows "values_dump real ind h r b (of_nat i) = Some (r\<lparr>reg_error := ERROR_NO_MORE_ITEMS\<rparr>, ls)"
  using b i ls
proof (induction "length (k_values k) - i" arbitrary: i b ls)
  case 0
  then have "nth_opt (k_values k) (unat (of_nat i :: u32)) = None" "ls = []"
    using vs(2) by (simp_all add: nth_opt_def unat_of_nat_u32)
  then show ?case using h
    by (subst values_dump.simps) (simp add: Hook_RegEnumValueW_def Let_def fail_def)
next
  case (Suc n)
  then have i: "i < length (k_values k)" "unat (of_nat i :: u32) = i" using vs(2) by (simp_all add: unat_of_nat_u32)
  define v where "v = k_values k ! i"
  have d: "drop i (k_values k) = v # drop (Suc i) (k_values k)"
    using i(1) by (simp add: v_def Cons_nth_drop_Suc)
  obtain l ls' where l: "shown_value ind v = Some l" "those (map (shown_value ind) (drop (Suc i) (k_values k))) = Some ls'"
    "ls = l # ls'"
    using Suc.prems(3) unfolding d by (auto split: option.splits)
  have v: "value_ok v" "length (v_name v) < VAL_NAME" "length (v_data v) \<le> VAL_DATA"
    "value_entry ind (if v_name v = [] then default_name else v_name v) (v_type v) (length (v_data v)) (v_data v) = Some l"
    using l(1) vs(1) i(1) by (auto simp: shown_value_def v_def list_all_length split: if_splits)
  have vi: "unat (of_nat i :: u32) < length (k_values k)" "v = k_values k ! unat (of_nat i :: u32)"
    using i by (simp_all add: v_def)
  obtain nb where e: "Hook_RegEnumValueW real r h (of_nat i) (Some (valName b)) (Some (of_nat VAL_NAME)) True
      (Some (valData b)) (Some (of_nat VAL_DATA)) =
    Some (r, Ret ERROR_SUCCESS \<lparr>ev_name = Some nb, ev_cch = Some (of_nat (length (v_name v))),
      ev_type = Some (v_type v), ev_data = Some (v_data v @ drop (length (v_data v)) (valData b)),
      ev_cb = Some (v_size v)\<rparr>)" "wcs_at nb = Some (v_name v)" "length nb = VAL_NAME"
    using enum_value_fits [OF h vi v(1-3), of "valName b" "valData b" real] Suc.prems(1)
    by (auto simp: bufs_ok_def VAL_NAME_def VAL_DATA_def)
  let ?b = "\<lparr>valName = nb, valType = v_type v, valData = v_data v @ drop (length (v_data v)) (valData b)\<rparr>"
  have b': "bufs_ok ?b" using e(3) v(3) Suc.prems(1) by (simp add: bufs_ok_def)
  have "values_dump real ind h r ?b (of_nat (Suc i)) = Some (r\<lparr>reg_error := ERROR_NO_MORE_ITEMS\<rparr>, ls')"
    using Suc.hyps(1) [of "Suc i", OF _ b' _ l(2)] Suc.hyps(2) i(1) by simp
  moreover have "(0 < (of_nat (length (v_name v)) :: u32)) = (v_name v \<noteq> [])"
    using v(2) by (simp add: word_less_nat_alt unat_of_nat_u32 VAL_NAME_def)
  moreover have "unat (v_size v) = length (v_data v)"
    using v(3) by (simp add: v_size_def unat_of_nat_u32 VAL_DATA_def)
  ultimately show ?case
    using e(1,2) value_entry_prefix [OF v(4), of "drop (length (v_data v)) (valData b)"] l(3)
    by (subst values_dump.simps) (simp add: Let_def add.commute, auto split: if_splits)
qed

end
