(* ===== verification/Tree_Dump_Properties.thy ===== *)
theory Tree_Dump_Properties
  imports Tree_Dump
begin

text \<open>
  The dump of \<open>Tree_Dump\<close> over the emulated registry shows the tree: its lines are those of a
  traversal of the abstract tree of \<open>Registry_Tree\<close>, it opens each key once, and it leaves the keys
  as they are.
\<close>

section \<open>Paths and handles\<close>

definition sub_path :: "wstr \<Rightarrow> wstr \<Rightarrow> wstr" where "sub_path P s = P @ backslash # s"

text \<open>\<open>q\<close> is the path \<open>P\<close> or one below it, for any case of the letters.\<close>

definition under :: "wstr \<Rightarrow> wstr \<Rightarrow> bool" where
  "under q P \<longleftrightarrow> (\<exists>rest. map lower q = map lower P @ rest \<and> (rest = [] \<or> hd rest = backslash))"

lemma lower_backslash [simp]: "lower backslash = backslash" "lower c = backslash \<longleftrightarrow> c = backslash"
  by (auto simp: lower_def backslash_def split: if_splits)

lemma under_refl: "icmp_eq q P \<Longrightarrow> under q P"
  by (simp add: under_def icmp_eq_def)

lemma under_sub: "under q (sub_path P s) \<Longrightarrow> under q P"
  by (auto simp: under_def sub_path_def)

lemma under_length: "under q P \<Longrightarrow> length P \<le> length q"
  unfolding under_def by (metis le_add1 length_append length_map)

lemma under_siblings:
  assumes "under q (sub_path P s)" "under q (sub_path P t)" "backslash \<notin> set s" "backslash \<notin> set t"
  shows "map lower s = map lower t"
proof -
  have tk: "takeWhile (\<lambda>c. c \<noteq> backslash) (map lower u @ rest) = map lower u"
    if "backslash \<notin> set u" "rest = [] \<or> hd rest = backslash" for u :: wstr and rest
  proof (cases rest)
    case Nil
    then show ?thesis using that(1) by (auto simp: takeWhile_eq_all_conv)
  next
    case (Cons c cs)
    then show ?thesis using that takeWhile_append_stop [of "map lower u" "\<lambda>c. c \<noteq> backslash" backslash cs]
      by force
  qed
  obtain r1 where r1: "map lower q = map lower P @ backslash # map lower s @ r1" "r1 = [] \<or> hd r1 = backslash"
    using assms(1) by (auto simp: under_def sub_path_def)
  obtain r2 where r2: "map lower q = map lower P @ backslash # map lower t @ r2" "r2 = [] \<or> hd r2 = backslash"
    using assms(2) by (auto simp: under_def sub_path_def)
  have "map lower s @ r1 = map lower t @ r2" using r1(1) r2(1) by simp
  then show ?thesis using tk [OF assms(3) r1(2)] tk [OF assms(4) r2(2)] by metis
qed

text \<open>The tables: as long as another, and every cached path is in the table.\<close>

definition tables_ok :: "registry \<Rightarrow> bool" where
  "tables_ok r \<longleftrightarrow> length (g_fakeKeyPaths r) = length (g_fakeKeyTable r) \<and>
     fst ` set (g_handleCache r) \<subseteq> set (g_fakeKeyPaths r)"

text \<open>So many handles fit between the base and the handles of the predefined keys.\<close>

definition HANDLE_ROOM :: nat where "HANDLE_ROOM = 0x50000000"

definition at_handle :: "registry \<Rightarrow> u32 \<Rightarrow> raddr \<Rightarrow> wstr \<Rightarrow> bool" where
  "at_handle r h a P \<longleftrightarrow> HandleToKey r h = a \<and> GetKeyPath r h = Some P \<and> \<not> is_root_key h \<and> h \<noteq> HKEY_USERS \<and>
     h \<noteq> FAKE_SERVICE_KEY"

lemma new_handle:
  assumes "n < HANDLE_ROOM"
  shows "handle_index (FAKE_HANDLE_BASE + of_nat n) = n" "\<not> is_root_key (FAKE_HANDLE_BASE + of_nat n)"
    "FAKE_HANDLE_BASE + of_nat n \<noteq> HKEY_USERS" "FAKE_HANDLE_BASE + of_nat n \<noteq> FAKE_SERVICE_KEY"
proof -
  have n: "unat (of_nat n :: u32) = n" using assms by (simp add: unat_of_nat_u32 HANDLE_ROOM_def)
  then show "handle_index (FAKE_HANDLE_BASE + of_nat n) = n" by (simp add: handle_index_def)
  have "FAKE_HANDLE_BASE + of_nat n \<noteq> x" if "HANDLE_ROOM \<le> unat (x - FAKE_HANDLE_BASE)" for x :: u32
  proof
    assume "FAKE_HANDLE_BASE + of_nat n = x"
    then have "x - FAKE_HANDLE_BASE = of_nat n" by (simp add: algebra_simps)
    then show False using that n assms by simp
  qed
  then show "\<not> is_root_key (FAKE_HANDLE_BASE + of_nat n)" "FAKE_HANDLE_BASE + of_nat n \<noteq> HKEY_USERS"
    "FAKE_HANDLE_BASE + of_nat n \<noteq> FAKE_SERVICE_KEY"
    by (simp_all add: is_root_key_def hkey_defs HANDLE_ROOM_def)
qed

text \<open>The entries of the cache that a table of paths justifies.\<close>

definition indexed :: "wstr list \<Rightarrow> (wstr \<times> u32) set" where
  "indexed ps = {(ps ! j, FAKE_HANDLE_BASE + of_nat j) |j. j < length ps}"

lemma indexed_append: "indexed ps \<subseteq> indexed (ps @ qs)"
proof
  fix x assume "x \<in> indexed ps"
  then obtain j where "j < length ps" "x = (ps ! j, FAKE_HANDLE_BASE + of_nat j)" by (auto simp: indexed_def)
  then have "j < length (ps @ qs)" "x = ((ps @ qs) ! j, FAKE_HANDLE_BASE + of_nat j)" by (simp_all add: nth_append)
  then show "x \<in> indexed (ps @ qs)" unfolding indexed_def by blast
qed

text \<open>What a dump does to the registry: it opens keys.\<close>

definition opened :: "registry \<Rightarrow> raddr list \<Rightarrow> wstr list \<Rightarrow> registry \<Rightarrow> bool" where
  "opened r as ps r' \<longleftrightarrow> rheap r' = rheap r \<and> next_key r' = next_key r \<and> g_regRoot r' = g_regRoot r \<and>
     g_isWow64 r' = g_isWow64 r \<and> reg_file r' = reg_file r \<and> g_fakeKeyTable r' = g_fakeKeyTable r @ as \<and>
     g_fakeKeyPaths r' = g_fakeKeyPaths r @ ps \<and>
     fst ` set (g_handleCache r') \<subseteq> fst ` set (g_handleCache r) \<union> set ps \<and>
     set (g_handleCache r') \<subseteq> set (g_handleCache r) \<union> indexed (g_fakeKeyPaths r')"

lemma openedD:
  assumes "opened r as ps r'"
  shows "rheap r' = rheap r" "g_fakeKeyTable r' = g_fakeKeyTable r @ as" "g_fakeKeyPaths r' = g_fakeKeyPaths r @ ps"
    "fst ` set (g_handleCache r') \<subseteq> fst ` set (g_handleCache r) \<union> set ps"
    "set (g_handleCache r') \<subseteq> set (g_handleCache r) \<union> indexed (g_fakeKeyPaths r')"
  using assms unfolding opened_def by (iprover+)

lemma opened_trans:
  assumes "opened r as ps r'" "opened r' as' ps' r''"
  shows "opened r (as @ as') (ps @ ps') r''"
proof -
  note o = openedD [OF assms(1)] and o' = openedD [OF assms(2)]
  have "indexed (g_fakeKeyPaths r') \<subseteq> indexed (g_fakeKeyPaths r'')" unfolding o'(3) by (rule indexed_append)
  with o(5) o'(5) have "set (g_handleCache r'') \<subseteq> set (g_handleCache r) \<union> indexed (g_fakeKeyPaths r'')" by blast
  moreover have "fst ` set (g_handleCache r'') \<subseteq> fst ` set (g_handleCache r) \<union> set (ps @ ps')"
    using o(4) o'(4) unfolding set_append by blast
  moreover have "rheap r'' = rheap r" "g_fakeKeyTable r'' = g_fakeKeyTable r @ as @ as'"
    "g_fakeKeyPaths r'' = g_fakeKeyPaths r @ ps @ ps'" using o(1-3) o'(1-3) by simp_all
  moreover have "next_key r'' = next_key r" "g_regRoot r'' = g_regRoot r" "g_isWow64 r'' = g_isWow64 r" "reg_file r'' = reg_file r"
    using assms unfolding opened_def by simp_all
  ultimately show ?thesis unfolding opened_def by (intro conjI) assumption+
qed

lemma opened_error [simp]: "opened r [] [] (r\<lparr>reg_error := e\<rparr>)" "opened r [] [] r"
  by (simp_all add: opened_def)

lemma opened_tables: "opened r as ps r' \<Longrightarrow> length as = length ps \<Longrightarrow> tables_ok r \<Longrightarrow> tables_ok r'"
  unfolding opened_def tables_ok_def by (elim conjE) (intro conjI; simp?; blast)

lemma opened_handle:
  assumes "opened r as ps r'" "length as = length ps" "tables_ok r" "at_handle r h a P"
  shows "at_handle r' h a P"
proof -
  have i: "handle_index h < length (g_fakeKeyPaths r)"
    using assms(4) by (auto simp: at_handle_def GetKeyPath_def split: if_splits)
  then have j: "handle_index h < length (g_fakeKeyTable r)" using assms(3) by (simp add: tables_ok_def)
  show ?thesis using assms(1,4) i j
    by (auto simp: at_handle_def opened_def HandleToKey_def GetKeyPath_def nth_append)
qed

lemma handle_error [simp]: "at_handle (r\<lparr>reg_error := e\<rparr>) h a P = at_handle r h a P"
  by (simp add: at_handle_def HandleToKey_def GetKeyPath_def)

lemma cache_miss: "(\<forall>q\<in>fst ` set c. \<not> icmp_eq q p) \<Longrightarrow> cache_find c p = None"
  by (induction c p rule: cache_find.induct) auto

lemma give_handle_fresh:
  assumes t: "tables_ok r" "length (g_fakeKeyTable r) < HANDLE_ROOM" and a: "a \<noteq> 0"
    and p: "p = BuildFullPath r h s" "\<forall>q\<in>set (g_fakeKeyPaths r). \<not> icmp_eq q p"
  shows "\<exists>r'. give_handle r h s a = (r', FAKE_HANDLE_BASE + of_nat (length (g_fakeKeyTable r))) \<and>
    opened r [a] [p] r' \<and> at_handle r' (FAKE_HANDLE_BASE + of_nat (length (g_fakeKeyTable r))) a p"
proof -
  let ?n = "length (g_fakeKeyTable r)" and ?h = "FAKE_HANDLE_BASE + of_nat (length (g_fakeKeyTable r))"
  have m: "cache_find (g_handleCache r) p = None"
    using t(1) p(2) by (intro cache_miss) (auto simp: tables_ok_def)
  let ?c = "if length (g_handleCache r) < MAX_CACHED_HANDLES then g_handleCache r @ [(p, ?h)] else g_handleCache r"
  let ?r = "r\<lparr>g_fakeKeyTable := g_fakeKeyTable r @ [a], g_fakeKeyPaths := g_fakeKeyPaths r @ [p], g_handleCache := ?c\<rparr>"
  have g: "give_handle r h s a = (?r, ?h)"
    using m by (simp add: give_handle_def Let_def AllocHandle_def CacheLookup_def p(1) [symmetric])
  have l: "length (g_fakeKeyPaths r) = ?n" using t(1) by (simp add: tables_ok_def)
  have "at_handle ?r ?h a p"
    using new_handle [OF t(2)] l by (simp add: at_handle_def HandleToKey_def GetKeyPath_def nth_append)
  moreover have "(p, ?h) \<in> indexed (g_fakeKeyPaths r @ [p])"
    unfolding indexed_def using l by (auto simp: nth_append intro!: exI [of _ ?n])
  then have "opened r [a] [p] ?r" by (auto simp: opened_def)
  ultimately show ?thesis using g by blast
qed

lemma open_child:
  assumes h: "at_handle r h a P" "a \<noteq> 0" "rheap r a = Some k" "find_child (rheap r) (k_children k) s = Some (Some c)" "c \<noteq> 0"
    and s: "s \<noteq> []" "backslash \<notin> set s" "length s < VAL_NAME" "\<not> contains s RVPNNETMP"
    and t: "tables_ok r" "length (g_fakeKeyTable r) < HANDLE_ROOM"
    and p: "\<forall>q\<in>set (g_fakeKeyPaths r). \<not> under q (sub_path P s)"
  shows "\<exists>r' h'. Hook_RegOpenKeyExW r h (Some s) = Some (r', Ret ERROR_SUCCESS (Some h')) \<and>
    opened r [c] [sub_path P s] r' \<and> at_handle r' h' c (sub_path P s)"
proof -
  have tk: "tokens backslash (take 511 s) = [s]"
    using s(1,2,3) wcstok_append(2) [of s backslash]
    by (simp add: tokens.simps [of backslash s] VAL_NAME_def)
  have nav: "NavigatePath r a s False = Some (r, c)"
    using h(2,3,4) s(1) tk by (simp add: NavigatePath_def Let_def)
  have "h \<noteq> HKEY_LOCAL_MACHINE" using h(1) by (auto simp: at_handle_def is_root_key_def)
  then have red: "RedirectSubKey (g_isWow64 r) h (Some s) = s" by (simp add: RedirectSubKey_def)
  have full: "sub_path P s = BuildFullPath r h s"
    using h(1) s(1) by (auto simp: BuildFullPath_def sub_path_def at_handle_def is_root_key_def)
  have "\<forall>q\<in>set (g_fakeKeyPaths r). \<not> icmp_eq q (sub_path P s)" using p under_refl by blast
  from give_handle_fresh [OF t h(5) full this] obtain r' h' where
    "give_handle r h s c = (r', h')" "opened r [c] [sub_path P s] r'" "at_handle r' h' c (sub_path P s)" by blast
  moreover have "HandleToKey r h = a" "\<not> is_root_key h" using h(1) by (simp_all add: at_handle_def)
  ultimately show ?thesis
    using h(2) s(4) red nav h(5) by (simp add: Hook_RegOpenKeyExW_def is_fake_service_def Let_def)
qed

section \<open>The whole tree\<close>

text \<open>A subkey is not shown when its name is too long for the buffer, and shown as empty when its name
  contains the name of the driver's service.\<close>

definition too_long :: "wstr \<Rightarrow> bool" where "too_long s \<longleftrightarrow> VAL_NAME \<le> length s"
definition hidden :: "wstr \<Rightarrow> bool" where "hidden s \<longleftrightarrow> too_long s \<or> contains s RVPNNETMP"

text \<open>The reference: the lines of a forest in preorder, and the keys that are opened, with their paths.\<close>

fun tree_lines :: "bool \<Rightarrow> nat \<Rightarrow> 'a rtree list \<Rightarrow> tree_line list option" where
  "tree_lines strict depth [] = Some []"
| "tree_lines strict depth (RT a nm vs ts # us) = do {
     l \<leftarrow> (if too_long (wstr_of nm) then Some []
          else do {
            ind \<leftarrow> indent_text strict depth;
            if hidden (wstr_of nm) then Some [T_Key ind (wstr_of nm)]
            else do {
              vl \<leftarrow> those (map (shown_value ind) vs);
              sl \<leftarrow> tree_lines strict (Suc depth) ts;
              Some (T_Key ind (wstr_of nm) # vl @ sl) } });
     ul \<leftarrow> tree_lines strict depth us;
     Some (l @ ul) }"

fun shown_addrs :: "'a rtree list \<Rightarrow> 'a list" where
  "shown_addrs [] = []"
| "shown_addrs (RT a nm vs ts # us) = (if hidden (wstr_of nm) then [] else a # shown_addrs ts) @ shown_addrs us"

fun shown_paths :: "wstr \<Rightarrow> 'a rtree list \<Rightarrow> wstr list" where
  "shown_paths P [] = []"
| "shown_paths P (RT a nm vs ts # us) =
     (if hidden (wstr_of nm) then [] else sub_path P (wstr_of nm) # shown_paths (sub_path P (wstr_of nm)) ts) @
     shown_paths P us"

text \<open>Names without separators, and different among siblings.\<close>

fun plain_names :: "'a rtree list \<Rightarrow> bool" where
  "plain_names [] = True"
| "plain_names (RT a nm vs ts # us) =
     (backslash \<notin> set (wstr_of nm) \<and> (\<forall>u\<in>set us. \<not> icmp_eq (wstr_of nm) (wstr_of (rt_name u))) \<and>
      plain_names ts \<and> plain_names us)"

lemma length_shown: "length (shown_paths P ts) = length (shown_addrs ts)"
  by (induction P ts rule: shown_paths.induct) auto

lemma shown_paths_under: "q \<in> set (shown_paths P ts) \<Longrightarrow> \<exists>u\<in>set ts. under q (sub_path P (wstr_of (rt_name u)))"
proof (induction P ts rule: shown_paths.induct)
  case (2 P a nm vs ts us)
  then consider "q = sub_path P (wstr_of nm)" | "q \<in> set (shown_paths (sub_path P (wstr_of nm)) ts)"
      "\<not> hidden (wstr_of nm)" | "q \<in> set (shown_paths P us)"
    by (auto split: if_splits)
  then show ?case
  proof cases
    case 1
    then show ?thesis using under_refl [of q] by simp
  next
    case 2
    then have "\<exists>u\<in>set ts. under q (sub_path (sub_path P (wstr_of nm)) (wstr_of (rt_name u)))" using "2.IH"(1) by blast
    then have "under q (sub_path P (wstr_of nm))" using under_sub by blast
    then show ?thesis by simp
  next
    case 3
    then show ?thesis using "2.IH"(2) by auto
  qed
qed simp

lemma forest_cell:
  "forest_at hp ts \<Longrightarrow> forest_ok ts \<Longrightarrow> u \<in> set ts \<Longrightarrow>
   \<exists>k. hp (rt_addr u) = Some k \<and> k_name k = Some (wstr_of (rt_name u)) \<and> wstr_of (rt_name u) \<noteq> [] \<and>
     text_ok (wstr_of (rt_name u))"
proof (induction hp ts rule: forest_at.induct)
  case (2 hp a nm vs ts us)
  then show ?case by (cases nm) (auto simp: wstr_of_def)
qed simp

lemma forest_at_mem: "forest_at hp ts \<Longrightarrow> u \<in> set ts \<Longrightarrow> forest_at hp [u]"
  by (induction hp ts rule: forest_at.induct) auto

lemma find_child_plain:
  "forest_at hp ts \<Longrightarrow> forest_ok ts \<Longrightarrow> plain_names ts \<Longrightarrow> u \<in> set ts \<Longrightarrow>
   find_child hp (map rt_addr ts) (wstr_of (rt_name u)) = Some (Some (rt_addr u))"
proof (induction hp ts rule: forest_at.induct)
  case (2 hp a nm vs ts us)
  obtain k where k: "hp a = Some k" "k_name k = Some (wstr_of nm)"
    using forest_cell [of hp "RT a nm vs ts # us" "RT a nm vs ts"] "2.prems" by auto
  show ?case
  proof (cases "u = RT a nm vs ts")
    case True
    then show ?thesis using k by simp
  next
    case False
    then have u: "u \<in> set us" using "2.prems"(4) by simp
    then have "\<not> icmp_eq (wstr_of nm) (wstr_of (rt_name u))" using "2.prems"(3) by simp
    moreover have "find_child hp (map rt_addr us) (wstr_of (rt_name u)) = Some (Some (rt_addr u))"
      using "2.IH"(2) "2.prems" u by simp
    ultimately show ?thesis using k by simp
  qed
qed simp

lemma enum_key_end:
  assumes "at_handle r h a P" "a \<noteq> 0" "rheap r a = Some k" "length (k_children k) \<le> i" "i < 2 ^ 32"
  shows "Hook_RegEnumKeyExW real r h (of_nat i) b n = Some (r\<lparr>reg_error := ERROR_NO_MORE_ITEMS\<rparr>, Ret ERROR_NO_MORE_ITEMS (b, n))"
  using assms by (simp add: Hook_RegEnumKeyExW_def at_handle_def Let_def nth_opt_def unat_of_nat_u32 fail_def)

lemma enum_key_at:
  assumes h: "at_handle r h a P" "a \<noteq> 0" "rheap r a = Some k" "drop i (k_children k) = c # cs" "length (k_children k) < 2 ^ 32"
    and c: "rheap r c = Some ck" "k_name ck = Some s" "text_ok s" and b: "length b = VAL_NAME"
  shows "if too_long s then \<exists>out. Hook_RegEnumKeyExW real r h (of_nat i) b (of_nat VAL_NAME) = Some (r, Ret ERROR_MORE_DATA out)
    else \<exists>b' n. Hook_RegEnumKeyExW real r h (of_nat i) b (of_nat VAL_NAME) = Some (r, Ret ERROR_SUCCESS (b', n)) \<and>
      wcs_at b' = Some s"
proof -
  have i: "i < length (k_children k)" "k_children k ! i = c"
    using h(4) by (metis drop_eq_Nil linorder_not_le list.distinct(1), metis hd_drop_conv_nth drop_eq_Nil linorder_not_le list.distinct(1) list.sel(1))
  then have at: "nth_opt (k_children k) (unat (of_nat i :: u32)) = Some c"
    using h(5) by (simp add: nth_opt_def unat_of_nat_u32)
  have l: "unat (of_nat (length s) :: u32) = length s" using c(3) by (simp add: text_ok_def unat_of_nat_u32)
  have n: "of_nat VAL_NAME \<le> (of_nat (length s) :: u32) \<longleftrightarrow> too_long s"
    using l by (simp add: word_le_nat_alt unat_of_nat_u32 VAL_NAME_def too_long_def)
  show ?thesis
  proof (cases "too_long s")
    case True
    then show ?thesis using h(1-3) at c(1,2) n by (simp add: Hook_RegEnumKeyExW_def at_handle_def Let_def)
  next
    case False
    then obtain b' where "lstrcpyn b s (of_nat VAL_NAME) = Some b'" "wcs_at b' = Some s"
      using lstrcpyn_whole [OF _ _ _ b, of s] c(3) by (auto simp: text_ok_def too_long_def VAL_NAME_def)
    then show ?thesis using False h(1-3) at c(1,2) n by (simp add: Hook_RegEnumKeyExW_def at_handle_def Let_def)
  qed
qed

lemma key_dump:
  assumes h: "at_handle r h a P" "a \<noteq> 0" "rheap r a = Some k" and e: "sys_ok e"
    and v: "list_all value_ok (k_values k)" "length (k_values k) < 2 ^ 32"
    and i: "indent_text (ds_strict e) depth = Some ind" "those (map (shown_value ind) (k_values k)) = Some vl"
    and s: "tree_dump e (r\<lparr>reg_error := ERROR_NO_MORE_ITEMS\<rparr>) (Dump_Subs h ind depth 0) = Some (r', sl)"
  shows "tree_dump e r (Dump_Key h nm depth) = Some (r', T_Key ind nm # vl @ sl)"
proof -
  have "values_dump (ds_real e) ind h r (ds_stack e h) (of_nat 0) = Some (r\<lparr>reg_error := ERROR_NO_MORE_ITEMS\<rparr>, vl)"
    using h e v i(2) by (intro values_dump_shown) (auto simp: at_handle_def sys_ok_def bufs_ok_def)
  then show ?thesis using i(1) s by (subst tree_dump.simps) simp
qed

text \<open>The key of the fake service has neither values nor subkeys.\<close>

lemma service_dump:
  assumes "indent_text (ds_strict e) depth = Some ind"
  shows "tree_dump e r (Dump_Key FAKE_SERVICE_KEY nm depth) = Some (r\<lparr>reg_error := ERROR_NO_MORE_ITEMS\<rparr>, [T_Key ind nm])"
proof -
  have "values_dump real ind FAKE_SERVICE_KEY r b 0 = Some (r\<lparr>reg_error := ERROR_NO_MORE_ITEMS\<rparr>, [])" for real b
    by (subst values_dump.simps) (simp add: Hook_RegEnumValueW_def fail_def Let_def)
  moreover have "tree_dump e (r\<lparr>reg_error := ERROR_NO_MORE_ITEMS\<rparr>) (Dump_Subs FAKE_SERVICE_KEY ind depth 0) =
      Some (r\<lparr>reg_error := ERROR_NO_MORE_ITEMS\<rparr>, [])"
    by (subst tree_dump.simps) (simp add: Hook_RegEnumKeyExW_def fail_def)
  ultimately show ?thesis using assms by (subst tree_dump.simps) simp
qed

lemma subs_skip:
  "Hook_RegEnumKeyExW (ds_real e) r h i (ds_subName e h) (of_nat VAL_NAME) = Some (r, Ret ERROR_MORE_DATA out) \<Longrightarrow>
   tree_dump e r (Dump_Subs h ind d i) = tree_dump e r (Dump_Subs h ind d (i + 1))"
  by (subst tree_dump.simps) simp

lemma subs_open:
  assumes "Hook_RegEnumKeyExW (ds_real e) r h i (ds_subName e h) (of_nat VAL_NAME) = Some (r, Ret ERROR_SUCCESS (b, n))"
    "wcs_at b = Some s" "Hook_RegOpenKeyExW r h (Some s) = Some (r1, Ret ERROR_SUCCESS (Some h1))"
    "tree_dump e r1 (Dump_Key h1 s (Suc d)) = Some (r2, l)" "Hook_RegCloseKey (ds_real e) r2 h1 = Some (r2, ret)"
    "tree_dump e r2 (Dump_Subs h ind d (i + 1)) = Some (r3, ls)"
  shows "tree_dump e r (Dump_Subs h ind d i) = Some (r3, l @ ls)"
  using assms by (subst tree_dump.simps) simp

lemma bind_append:
  "do { l \<leftarrow> x; u \<leftarrow> y; Some (l @ u) } = Some ls \<Longrightarrow> \<exists>l u. y = Some u \<and> ls = l @ u \<and> x = Some l"
  by (auto simp: bind_eq_Some)

lemma tree_lines_Cons:
  assumes "tree_lines strict depth (RT a nm vs ts # us) = Some ls"
  shows "\<exists>l ul. tree_lines strict depth us = Some ul \<and> ls = l @ ul \<and>
    (if too_long (wstr_of nm) then Some [] else do {
       ind \<leftarrow> indent_text strict depth;
       if hidden (wstr_of nm) then Some [T_Key ind (wstr_of nm)]
       else do {
         vl \<leftarrow> those (map (shown_value ind) vs);
         sl \<leftarrow> tree_lines strict (Suc depth) ts;
         Some (T_Key ind (wstr_of nm) # vl @ sl) } }) = Some l"
  by (rule bind_append [OF assms [unfolded tree_lines.simps]])

text \<open>The state before the loop over the remaining subkeys \<open>us\<close> of a key.\<close>

definition ready :: "registry \<Rightarrow> u32 \<Rightarrow> raddr \<Rightarrow> wstr \<Rightarrow> regkey \<Rightarrow> nat \<Rightarrow> raddr rtree list \<Rightarrow> bool" where
  "ready r h a P k i us \<longleftrightarrow>
     forest_at (rheap r) us \<and> forest_ok us \<and> plain_names us \<and> rheap r 0 = None \<and>
     at_handle r h a P \<and> rheap r a = Some k \<and> drop i (k_children k) = map rt_addr us \<and>
     length (k_children k) < 2 ^ 32 \<and> i \<le> length (k_children k) \<and>
     (\<forall>u\<in>set us. find_child (rheap r) (k_children k) (wstr_of (rt_name u)) = Some (Some (rt_addr u))) \<and>
     tables_ok r \<and> length (g_fakeKeyTable r) + length (shown_addrs us) \<le> HANDLE_ROOM \<and>
     (\<forall>u\<in>set us. \<forall>q\<in>set (g_fakeKeyPaths r). \<not> under q (sub_path P (wstr_of (rt_name u))))"

lemma not_null: "hp (0 :: nat) = None \<Longrightarrow> hp a = Some k \<Longrightarrow> a \<noteq> 0"
  by (metis option.distinct(1))

lemma readyD:
  assumes "ready r h a P k i us"
  shows "forest_at (rheap r) us" "forest_ok us" "plain_names us" "rheap r 0 = None" "at_handle r h a P"
    "rheap r a = Some k" "drop i (k_children k) = map rt_addr us" "length (k_children k) < 2 ^ 32"
    "\<forall>u\<in>set us. find_child (rheap r) (k_children k) (wstr_of (rt_name u)) = Some (Some (rt_addr u))"
    "tables_ok r" "length (g_fakeKeyTable r) + length (shown_addrs us) \<le> HANDLE_ROOM"
    "\<forall>u\<in>set us. \<forall>q\<in>set (g_fakeKeyPaths r). \<not> under q (sub_path P (wstr_of (rt_name u)))" "a \<noteq> 0"
  using assms not_null [of "rheap r" a k] unfolding ready_def by auto

lemma ready_head:
  assumes "ready r h a P k i (RT c nm vs ts # us)"
  shows "\<exists>ck. rheap r c = Some ck \<and> k_name ck = Some (wstr_of nm) \<and> k_values ck = vs \<and>
    k_children ck = map rt_addr ts \<and> wstr_of nm \<noteq> [] \<and> text_ok (wstr_of nm) \<and> c \<noteq> 0 \<and>
    list_all value_ok vs \<and> length vs < 2 ^ 32"
  using readyD(1,2) [OF assms] readyD(4) [OF assms] not_null [of "rheap r" c]
  by (cases nm) (auto simp: wstr_of_def)

lemma plain_backslash: "plain_names us \<Longrightarrow> u \<in> set us \<Longrightarrow> backslash \<notin> set (wstr_of (rt_name u))"
  by (induction us rule: plain_names.induct) auto

text \<open>After one subkey, whose keys were opened.\<close>

lemma ready_next:
  assumes r: "ready r h a P k i (RT c nm vs ts # us)" and o: "opened r as ps r2" "length as = length ps"
    and n: "length as + length (shown_addrs us) \<le> length (shown_addrs (RT c nm vs ts # us))"
    and ps: "\<forall>q\<in>set ps. under q (sub_path P (wstr_of nm))"
  shows "ready r2 h a P k (Suc i) us"
proof -
  have hp: "rheap r2 = rheap r" "g_fakeKeyTable r2 = g_fakeKeyTable r @ as" "g_fakeKeyPaths r2 = g_fakeKeyPaths r @ ps"
    using o(1) by (simp_all add: opened_def)
  have dr: "drop i (k_children k) = c # map rt_addr us" using readyD(7) [OF r] by simp
  have i: "i < length (k_children k)" using dr by (metis drop_eq_Nil linorder_not_le list.distinct(1))
  have dr': "drop (Suc i) (k_children k) = map rt_addr us" using dr by (metis drop_Suc list.sel(3) tl_drop)
  have names: "plain_names us" "backslash \<notin> set (wstr_of nm)" "\<forall>u\<in>set us. \<not> icmp_eq (wstr_of nm) (wstr_of (rt_name u))"
    using readyD(3) [OF r] by simp_all
  have "\<not> under q (sub_path P (wstr_of (rt_name u)))" if u: "u \<in> set us" "q \<in> set (g_fakeKeyPaths r2)" for u q
  proof
    assume un: "under q (sub_path P (wstr_of (rt_name u)))"
    then have "q \<notin> set (g_fakeKeyPaths r)" using readyD(12) [OF r] u(1) by auto
    then have "under q (sub_path P (wstr_of nm))" using u(2) hp(3) ps by auto
    then have "icmp_eq (wstr_of nm) (wstr_of (rt_name u))"
      using under_siblings [OF _ un names(2) plain_backslash [OF names(1) u(1)]] by (simp add: icmp_eq_def)
    then show False using names(3) u(1) by blast
  qed
  then show ?thesis
    using readyD(1,2,4,6,8,9,11) [OF r] names(1) hp dr' i n opened_tables [OF o readyD(10) [OF r]]
      opened_handle [OF o readyD(10,5) [OF r]] by (auto simp: ready_def)
qed

text \<open>Inside a subkey that was just opened.\<close>

lemma ready_child:
  assumes r: "ready r h a P k i (RT c nm vs ts # us)" and s: "\<not> hidden (wstr_of nm)"
    and o: "opened r [c] [sub_path P (wstr_of nm)] r1" "at_handle r1 h1 c (sub_path P (wstr_of nm))"
    and ck: "rheap r c = Some ck" "k_children ck = map rt_addr ts"
  shows "ready (r1\<lparr>reg_error := e\<rparr>) h1 c (sub_path P (wstr_of nm)) ck 0 ts"
proof -
  let ?p = "sub_path P (wstr_of nm)"
  have hp: "rheap r1 = rheap r" "g_fakeKeyTable r1 = g_fakeKeyTable r @ [c]" "g_fakeKeyPaths r1 = g_fakeKeyPaths r @ [?p]"
    using o(1) by (simp_all add: opened_def)
  have parts: "forest_at (rheap r) ts" "forest_ok ts" "plain_names ts" "length ts < 2 ^ 32"
    using readyD(1,2,3) [OF r] by (auto split: option.splits)
  have t1: "tables_ok (r1\<lparr>reg_error := e\<rparr>)"
    using opened_tables [OF o(1) _ readyD(10) [OF r]] by (simp add: tables_ok_def)
  have "\<not> under q (sub_path ?p t)" if q: "q \<in> set (g_fakeKeyPaths r1)" for q t
  proof
    assume u: "under q (sub_path ?p t)"
    have "q \<noteq> ?p" using under_length [OF u] by (auto simp: sub_path_def)
    then have "q \<in> set (g_fakeKeyPaths r)" using q hp(3) by simp
    then show False using under_sub [OF u] readyD(12) [OF r] by auto
  qed
  then show ?thesis
    using parts readyD(4,11) [OF r] hp ck o(2) t1 s find_child_plain [OF parts(1-3)]
    by (auto simp: ready_def)
qed

lemma ready_open:
  assumes r: "ready r h a P k i (RT c nm vs ts # us)" and s: "\<not> hidden (wstr_of nm)"
  shows "\<exists>r1 h1. Hook_RegOpenKeyExW r h (Some (wstr_of nm)) = Some (r1, Ret ERROR_SUCCESS (Some h1)) \<and>
    opened r [c] [sub_path P (wstr_of nm)] r1 \<and> at_handle r1 h1 c (sub_path P (wstr_of nm))"
  using readyD(3,9,11,12) [OF r] s ready_head [OF r]
  by (intro open_child [OF readyD(5,13,6) [OF r] _ _ _ _ _ _ readyD(10) [OF r]]) (auto simp: hidden_def too_long_def)

text \<open>The enumeration at the first remaining subkey.\<close>

lemma ready_enum:
  assumes r: "ready r h a P k i (RT c nm vs ts # us)" and e: "sys_ok e"
  shows "if too_long (wstr_of nm)
    then \<exists>out. Hook_RegEnumKeyExW (ds_real e) r h (of_nat i) (ds_subName e h) (of_nat VAL_NAME) = Some (r, Ret ERROR_MORE_DATA out)
    else \<exists>b n. Hook_RegEnumKeyExW (ds_real e) r h (of_nat i) (ds_subName e h) (of_nat VAL_NAME) =
      Some (r, Ret ERROR_SUCCESS (b, n)) \<and> wcs_at b = Some (wstr_of nm)"
proof -
  obtain ck where ck: "rheap r c = Some ck" "k_name ck = Some (wstr_of nm)" "text_ok (wstr_of nm)"
    using ready_head [OF r] by blast
  have d: "drop i (k_children k) = c # map rt_addr us" using readyD(7) [OF r] by simp
  have b: "length (ds_subName e h) = VAL_NAME" using e by (simp add: sys_ok_def)
  show ?thesis by (rule enum_key_at [OF readyD(5,13,6) [OF r] d readyD(8) [OF r] ck b])
qed

lemma subs_dump:
  assumes e: "sys_ok e"
  shows "ready r h a P k i us \<Longrightarrow> tree_lines (ds_strict e) (Suc d) us = Some ls \<Longrightarrow>
    \<exists>r'. tree_dump e r (Dump_Subs h ind d (of_nat i)) = Some (r', ls) \<and>
      opened r (shown_addrs us) (shown_paths P us) r'"
proof (induction us arbitrary: r d ls h a P k i ind rule: forest_addrs.induct)
  case 1
  have "length (k_children k) \<le> i" "i < 2 ^ 32"
    using "1.prems"(1) by (simp_all add: ready_def)
  from enum_key_end [OF readyD(5,13,6) [OF "1.prems"(1)] this] show ?case
    using "1.prems"(2) by (subst tree_dump.simps) simp
next
  case (2 c nm vs ts us)
  note r = "2.prems"(1)
  let ?s = "wstr_of nm"
  obtain l ul where ul: "tree_lines (ds_strict e) (Suc d) us = Some ul" "ls = l @ ul" and
    l: "(if too_long ?s then Some [] else do {
            ind \<leftarrow> indent_text (ds_strict e) (Suc d);
            if hidden ?s then Some [T_Key ind ?s]
            else do {
              vl \<leftarrow> those (map (shown_value ind) vs);
              sl \<leftarrow> tree_lines (ds_strict e) (Suc (Suc d)) ts;
              Some (T_Key ind ?s # vl @ sl) } }) = Some l"
    using tree_lines_Cons [OF "2.prems"(2)] by blast
  note en = ready_enum [OF r e]
  have one: "of_nat i + 1 = (of_nat (Suc i) :: u32)" by simp
  have rest: "\<exists>r'. tree_dump e r2 (Dump_Subs h ind d (of_nat i + 1)) = Some (r', ul) \<and>
      opened r (as @ shown_addrs us) (ps @ shown_paths P us) r'"
    if "opened r as ps r2" "length as = length ps" "length as + length (shown_addrs us) \<le> length (shown_addrs (RT c nm vs ts # us))"
      "\<forall>q\<in>set ps. under q (sub_path P ?s)" for as ps r2
    unfolding one using "2.IH"(2) [OF ready_next [OF r that] ul(1)] opened_trans [OF that(1)] by blast
  consider "too_long ?s" | "\<not> too_long ?s" "contains ?s RVPNNETMP" | "\<not> hidden ?s" by (auto simp: hidden_def)
  then show ?case
  proof cases
    case 1
    then have hid: "hidden ?s" by (simp add: hidden_def)
    then show ?thesis
      using 1 en rest [OF opened_error(2)] ul(2) l by (auto simp: subs_skip)
  next
    case 2
    then have hid: "hidden ?s" by (simp add: hidden_def)
    obtain b n where en2: "Hook_RegEnumKeyExW (ds_real e) r h (of_nat i) (ds_subName e h) (of_nat VAL_NAME) =
        Some (r, Ret ERROR_SUCCESS (b, n))" "wcs_at b = Some ?s" using en 2(1) by auto
    obtain ind' where ind': "indent_text (ds_strict e) (Suc d) = Some ind'" "l = [T_Key ind' ?s]"
      using l 2(1) hid by (auto simp: bind_eq_Some)
    have op: "Hook_RegOpenKeyExW r h (Some ?s) = Some (r, Ret ERROR_SUCCESS (Some FAKE_SERVICE_KEY))"
      using 2(2) by (simp add: Hook_RegOpenKeyExW_def is_fake_service_def)
    let ?r = "r\<lparr>reg_error := ERROR_NO_MORE_ITEMS\<rparr>"
    have cl: "Hook_RegCloseKey (ds_real e) ?r FAKE_SERVICE_KEY = Some (?r, Ret ERROR_SUCCESS ())"
      by (simp add: Hook_RegCloseKey_def)
    obtain r' where r': "tree_dump e ?r (Dump_Subs h ind d (of_nat i + 1)) = Some (r', ul)"
      "opened r (shown_addrs us) (shown_paths P us) r'"
      using rest [OF opened_error(1)] by auto
    show ?thesis
      using subs_open [OF en2 op service_dump [OF ind'(1)] cl r'(1)] r'(2) hid ul(2) ind'(2)
      by (intro exI [of _ r']) simp
  next
    case 3
    then obtain b n where en3: "Hook_RegEnumKeyExW (ds_real e) r h (of_nat i) (ds_subName e h) (of_nat VAL_NAME) =
        Some (r, Ret ERROR_SUCCESS (b, n))" "wcs_at b = Some ?s" using en by (auto simp: hidden_def)
    obtain ck where ck: "rheap r c = Some ck" "k_values ck = vs" "k_children ck = map rt_addr ts" "c \<noteq> 0"
      "list_all value_ok vs" "length vs < 2 ^ 32" using ready_head [OF r] by blast
    obtain ind' vl sl where ind': "indent_text (ds_strict e) (Suc d) = Some ind'"
      "those (map (shown_value ind') vs) = Some vl" "tree_lines (ds_strict e) (Suc (Suc d)) ts = Some sl"
      "l = T_Key ind' ?s # vl @ sl"
      using l 3 by (auto simp: bind_eq_Some hidden_def)
    obtain r1 h1 where o1: "Hook_RegOpenKeyExW r h (Some ?s) = Some (r1, Ret ERROR_SUCCESS (Some h1))"
      "opened r [c] [sub_path P ?s] r1" "at_handle r1 h1 c (sub_path P ?s)" using ready_open [OF r 3] by blast
    obtain r2 where r2: "tree_dump e (r1\<lparr>reg_error := ERROR_NO_MORE_ITEMS\<rparr>) (Dump_Subs h1 ind' (Suc d) 0) = Some (r2, sl)"
      "opened (r1\<lparr>reg_error := ERROR_NO_MORE_ITEMS\<rparr>) (shown_addrs ts) (shown_paths (sub_path P ?s) ts) r2"
      using "2.IH"(1) [OF ready_child [OF r 3 o1(2,3) ck(1,3)] ind'(3), where ind = ind'] by auto
    have ck1: "rheap r1 c = Some ck" using o1(2) ck(1) by (simp add: opened_def)
    have kd: "tree_dump e r1 (Dump_Key h1 ?s (Suc d)) = Some (r2, l)"
      using key_dump [OF o1(3) ck(4) ck1 e _ _ ind'(1) _ r2(1)] ck(2,5,6) ind'(2,4) by simp
    have o12: "opened r1 (shown_addrs ts) (shown_paths (sub_path P ?s) ts) r2"
      using opened_trans [OF opened_error(1) r2(2)] by simp
    have o2: "opened r (c # shown_addrs ts) (sub_path P ?s # shown_paths (sub_path P ?s) ts) r2"
      using opened_trans [OF o1(2) o12] by simp
    have "tables_ok r1" using opened_tables [OF o1(2) _ readyD(10) [OF r]] by simp
    then have "HandleToKey r2 h1 \<noteq> 0" "h1 \<noteq> FAKE_SERVICE_KEY"
      using opened_handle [OF o12 _ _ o1(3)] ck(4) by (simp_all add: at_handle_def length_shown)
    then have cl: "Hook_RegCloseKey (ds_real e) r2 h1 = Some (r2, Ret ERROR_SUCCESS ())"
      by (simp add: Hook_RegCloseKey_def)
    have "\<forall>q\<in>set (sub_path P ?s # shown_paths (sub_path P ?s) ts). under q (sub_path P ?s)"
      using shown_paths_under [of _ "sub_path P ?s" ts] under_sub under_refl [OF icmp_eq_refl] by auto
    then obtain r3 where r3: "tree_dump e r2 (Dump_Subs h ind d (of_nat i + 1)) = Some (r3, ul)"
      "opened r (shown_addrs (RT c nm vs ts # us)) (shown_paths P (RT c nm vs ts # us)) r3"
      using rest [OF o2] 3 by (auto simp: length_shown)
    then show ?thesis using subs_open [OF en3 o1(1) kd cl r3(1)] ul(2) by auto
  qed
qed

end
