(* ===== verification/Registry_Claims.thy ===== *)
theory Registry_Claims
  imports Registry_Properties
begin

text \<open>
  The properties of src/register.c: the reachable registries, the file, restart, stored
  values, deleted keys, the fake service key and the redirection of 32-bit processes.
\<close>

section \<open>Concrete states for the witnesses\<close>

definition env_ok :: save_env where "env_ok = \<lparr>tmp_created = True, moved = True\<rparr>"

text \<open>The registry right after start-up without a file: one empty root at address 1.\<close>

definition reg0 :: registry where
  "reg0 = \<lparr>rheap = [1 \<mapsto> \<lparr>k_name = None, k_parent = 0, k_children = [], k_values = []\<rparr>],
     next_key = 2, g_regRoot = 1, g_fakeKeyTable = [], g_fakeKeyPaths = [], g_handleCache = [],
     g_isWow64 = False, reg_file = None, reg_error = 0\<rparr>"

lemma start_reg0: "Register_InstallHooks False None = Some reg0"
  by (simp add: Register_InstallHooks_def CreateKey_def LoadRegistryFromFile_def
      ResetHandleTable_def reg0_def Let_def)

lemma reach_reg0: "reg_reach d reg0"
  by (rule rr_start [OF start_reg0])

text \<open>A registry with the key A (address 2, handle 0x30000000) below the root.\<close>

definition reg_A :: registry where
  "reg_A = reg0\<lparr>
     rheap := [2 \<mapsto> \<lparr>k_name = Some [65], k_parent = 1, k_children = [], k_values = []\<rparr>,
               1 \<mapsto> \<lparr>k_name = None, k_parent = 0, k_children = [2], k_values = []\<rparr>],
     next_key := 3, g_fakeKeyTable := [2], g_fakeKeyPaths := [[65]],
     g_handleCache := [([65], 0x30000000)]\<rparr>"

lemma tokens_A: "tokens backslash [65] = [[65]]"
  by (rule tokens_single) (simp_all add: backslash_def)

lemma create_A:
  "Hook_RegCreateKeyExW \<lparr>tmp_created = False, moved = False\<rparr> reg0 HKEY_LOCAL_MACHINE (Some [65]) =
    Some (reg_A, Ret ERROR_SUCCESS (Some (0x30000000, REG_CREATED_NEW_KEY)))"
  by (simp add: Hook_RegCreateKeyExW_def is_root_key_def RedirectSubKey_def reg0_def reg_A_def
      NavigatePath_def KeyExists_def tokens_A CreateKey_def give_handle_def BuildFullPath_def
      AllocHandle_def CacheLookup_def MAX_CACHED_HANDLES_def FAKE_HANDLE_BASE_def AutoSave_def
      SaveRegistryToFile_def Let_def)

lemma reach_reg_A: "reg_reach d reg_A"
  by (rule rr_step [OF reach_reg0 st_create_ex [OF create_A]]) simp

section \<open>Reachable registries\<close>

text \<open>C27. After any sequence of calls the keys form a tree below the root, so the recursive
  writer returns, no stored handle is null, and as long as no key is deleted every handle in
  the table refers to an allocated key.\<close>

theorem registry_reachable:
  assumes "reg_reach d r"
  shows "reg_inv r \<and> (\<exists>t. root_tree r t) \<and> (\<not> d \<longrightarrow> handles_live r) \<and> AutoSave env r \<noteq> None"
proof -
  have inv: "reg_inv r" using assms by (rule reg_reach_inv)
  have "\<not> d \<longrightarrow> handles_live r"
  proof
    assume "\<not> d"
    then have "reg_reach False r" using assms by simp
    then show "handles_live r" by (rule reg_reach_live)
  qed
  then show ?thesis using inv root_tree_exists [OF inv] AutoSave_inv [OF inv, of env] by auto
qed

lemma registry_reachable_witness: "reg_inv reg_A \<and> handles_live reg_A"
  using registry_reachable [OF reach_reg_A [of False]] by blast

section \<open>The file\<close>

text \<open>A call that changes the registry and reports success.\<close>

inductive reg_modifies :: "save_env \<Rightarrow> registry \<Rightarrow> registry \<Rightarrow> bool" for env r r' where
  "Hook_RegCreateKeyExW env r h sub = Some (r', Ret ERROR_SUCCESS (Some out)) \<Longrightarrow> reg_modifies env r r'"
| "Hook_RegCreateKeyW env real r h sub = Some (r', Ret ERROR_SUCCESS (Some out2)) \<Longrightarrow>
   reg_modifies env r r'"
| "h \<noteq> FAKE_SERVICE_KEY \<Longrightarrow> Hook_RegSetValueExW env r h n t d cb = Some (r', Ret ERROR_SUCCESS ()) \<Longrightarrow>
   reg_modifies env r r'"
| "h \<noteq> FAKE_SERVICE_KEY \<Longrightarrow> Hook_RegDeleteValueW env real r h n = Some (r', Ret ERROR_SUCCESS ()) \<Longrightarrow>
   reg_modifies env r r'"
| "h \<noteq> FAKE_SERVICE_KEY \<Longrightarrow> Hook_RegDeleteKeyW env real r h dsub = Some (r', Ret ERROR_SUCCESS ()) \<Longrightarrow>
   reg_modifies env r r'"

lemma modifies_saves:
  assumes "reg_modifies env r r'"
  shows "\<exists>r1. AutoSave env r1 = Some r'"
  using assms
proof cases
  case 1
  then show ?thesis
    by (auto simp: Hook_RegCreateKeyExW_def hook_simps split: if_split_asm prod.split_asm)
next
  case 2
  then show ?thesis
    by (auto simp: Hook_RegCreateKeyW_def hook_simps reg_codes split: if_split_asm prod.split_asm)
next
  case 3
  then show ?thesis
    by (auto simp: Hook_RegSetValueExW_def hook_simps reg_codes split: if_split_asm)
next
  case 4
  then show ?thesis
    by (auto simp: Hook_RegDeleteValueW_def hook_simps reg_codes split: if_split_asm option.split_asm)
next
  case 5
  then show ?thesis
    by (auto simp: Hook_RegDeleteKeyW_def hook_simps reg_codes split: if_split_asm option.split_asm)
qed

lemma modifies_inv: "reg_modifies env r r' \<Longrightarrow> reg_inv r \<Longrightarrow> reg_inv r'"
  by (erule reg_modifies.cases)
    (auto intro: delete_key_inv dest!: hook_keeps(1,2,5,6) simp: keeps_def)


lemma create_B:
  "Hook_RegCreateKeyW env_ok True reg0 HKEY_USERS None =
    Some (reg0\<lparr>g_fakeKeyTable := [1], g_fakeKeyPaths := [[]], g_handleCache := [([], 0x30000000)],
          reg_file := Some (file_of (RT 1 None [] []))\<rparr>, Ret ERROR_SUCCESS (Some 0x30000000))"
proof -
  let ?r = "reg0\<lparr>g_fakeKeyTable := [1], g_fakeKeyPaths := [[]], g_handleCache := [([], 0x30000000)]\<rparr>"
  have "root_tree ?r (RT 1 None [] [])" by (simp add: root_tree_def reg0_def)
  from AutoSave_tree [OF this, of env_ok] show ?thesis
    by (simp add: Hook_RegCreateKeyW_def is_root_key_def RedirectSubKey_def NavigatePath_def
        give_handle_def BuildFullPath_def AllocHandle_def CacheLookup_def MAX_CACHED_HANDLES_def
        FAKE_HANDLE_BASE_def env_ok_def hkey_defs reg0_def Let_def)
qed


lemma text_ok_Nil [simp]: "text_ok []"
  by (simp add: text_ok_def)

text \<open>The start after a save: the tree is rebuilt, and the tables are empty.\<close>

lemma restart_rebuilds:
  assumes t: "root_tree r (RT (g_regRoot r) None [] ts)" and ok: "forest_ok ts" "length ts < 2 ^ 32"
    and saved: "tmp_created env" "moved env"
  shows "\<exists>r1 r2 us. AutoSave env r = Some r1 \<and> Register_InstallHooks wow64 (reg_file r1) = Some r2 \<and>
    root_tree r2 (RT (g_regRoot r2) None [] us) \<and> forget us = mirror (forget ts) \<and>
    g_regRoot r2 \<noteq> 0 \<and> rheap r2 0 = None \<and> g_isWow64 r2 = wow64 \<and>
    g_fakeKeyTable r2 = [] \<and> g_fakeKeyPaths r2 = [] \<and> g_handleCache r2 = []"
proof -
  let ?f = "file_of (RT (g_regRoot r) None [] ts)"
  have s: "AutoSave env r = Some (r\<lparr>reg_file := Some ?f\<rparr>)" using AutoSave_tree [OF t] saved by simp
  let ?k = "\<lparr>k_name = None, k_parent = 0, k_children = [], k_values = []\<rparr>"
  let ?r0 = "\<lparr>rheap = [1 \<mapsto> ?k], next_key = Suc (Suc 0), g_regRoot = 1, g_fakeKeyTable = [],
               g_fakeKeyPaths = [], g_handleCache = [], g_isWow64 = wow64, reg_file = Some ?f,
               reg_error = 0\<rparr>"
  have "heap_bounded ?r0" by (simp add: heap_bounded_def)
  then obtain r2 us where l: "load_keys (length ts) ?r0 1 (enc_forest ts @ []) = Some (r2, [])"
    and o: "loaded ?r0 1 ?k ts r2 us"
    using load_keys_save [OF ok(1), of ?r0 1 ?k "[]"] by auto
  have "Register_InstallHooks wow64 (Some ?f) = Some (ResetHandleTable r2)"
    using l ok(2) ReadWideString_Write [OF text_ok_Nil]
    by (simp add: Register_InstallHooks_def CreateKey_def LoadRegistryFromFile_def file_of_def
        save_values_def Let_def)
  moreover have "root_tree (ResetHandleTable r2) (RT (g_regRoot r2) None [] us)"
    "g_regRoot (ResetHandleTable r2) = g_regRoot r2" "forget us = mirror (forget ts)" "g_regRoot r2 \<noteq> 0"
    "g_isWow64 r2 = wow64"
    using o by (simp_all add: loaded_def same_rest_def root_tree_def ResetHandleTable_def)
  moreover have "rheap r2 0 = None"
    using o by (cases "rheap r2 0") (auto simp: loaded_def dest: heap_boundedD)
  ultimately show ?thesis using s by (auto simp: ResetHandleTable_def)
qed

text \<open>C29. A registry saved to register.reg is rebuilt by the next start: the same keys with the
  same values, the order of siblings and of values reversed.  The root must have no values,
  names must have no NUL and lengths must fit the 32-bit fields.\<close>

theorem registry_survives_restart:
  assumes t: "root_tree r (RT (g_regRoot r) None [] ts)" and ok: "forest_ok ts" "length ts < 2 ^ 32"
    and saved: "tmp_created env" "moved env"
  shows "\<exists>r1 r2 us. AutoSave env r = Some r1 \<and> Register_InstallHooks wow64 (reg_file r1) = Some r2 \<and>
    root_tree r2 (RT (g_regRoot r2) None [] us) \<and> forget us = mirror (forget ts)"
  using restart_rebuilds [OF assms, of wow64] by blast

lemma registry_survives_restart_witness:
  "\<exists>r1 r2 us. AutoSave env_ok reg_A = Some r1 \<and> Register_InstallHooks False (reg_file r1) = Some r2 \<and>
    root_tree r2 (RT (g_regRoot r2) None [] us) \<and> forget us = [RT () (Some [65]) [] []]"
proof -
  have t: "root_tree reg_A (RT (g_regRoot reg_A) None [] [RT 2 (Some [65]) [] []])"
    by (simp add: root_tree_def reg_A_def reg0_def)
  have ok: "forest_ok [RT (2::nat) (Some [65]) [] []]" by (simp add: text_ok_def)
  from registry_survives_restart [OF t ok, of env_ok False] show ?thesis by (simp add: env_ok_def)
qed

lemma mirror_append: "mirror (ts @ us) = mirror us @ mirror ts"
  by (induction ts rule: mirror.induct) auto

text \<open>Two restarts give the original order back.\<close>

lemma mirror_mirror [simp]: "mirror (mirror ts) = ts"
  by (induction ts rule: mirror.induct) (auto simp: mirror_append)

section \<open>Stored values\<close>

lemma GetValue_Some:
  assumes "rheap r key = Some k" "look_value (k_values k) n = Some (t, d)"
  shows "GetValue r key n False c = Some (Got t (of_nat (length d)) None)"
    "of_nat (length d) \<le> c \<Longrightarrow> GetValue r key n True c = Some (Got t (of_nat (length d)) (Some d))"
  using assms by (auto simp: GetValue_def look_value_def v_size_def)

lemma take_drop_write: "length d \<le> length b \<Longrightarrow> mem_write b 0 d = Some (d @ drop (length d) b)"
  by (simp add: mem_write_def)

text \<open>C30. A value set through a handle is what a query through the same handle returns, under
  any spelling of its name in upper and lower case, with its type and its size, when the
  buffer is large enough; the bytes of the buffer behind the value are unchanged.  The
  hypotheses on the log say that its dump of the value stays inside the caller's buffer.\<close>

theorem set_then_query:
  assumes inv: "reg_inv r" and h: "h \<noteq> FAKE_SERVICE_KEY" "HandleToKey r h \<noteq> 0"
    and live: "rheap r (HandleToKey r h) = Some k"
    and src: "unat cb \<le> length p" "log_set_value t (Some p) cb = Some ()"
    and same: "icmp_eq (wstr_of n) (wstr_of m)"
    and buf: "unat cb \<le> length b" "cb \<le> lim"
    and log: "log_query t (Some (take (unat cb) p @ drop (unat cb) b)) cb = Some ()"
  shows "\<exists>r'. Hook_RegSetValueExW env r h n t (Some p) cb = Some (r', Ret ERROR_SUCCESS ()) \<and>
    Hook_RegQueryValueExW r' h m True (Some b) (Some lim) =
      Some (r', Ret ERROR_SUCCESS \<lparr>q_type = Some t,
        q_data = Some (take (unat cb) p @ drop (unat cb) b), q_cb = Some cb\<rparr>)"
proof -
  let ?d = "take (unat cb) p"
  let ?k = "k\<lparr>k_values := set_value (k_values k) (wstr_of n) t ?d\<rparr>"
  let ?r1 = "r\<lparr>rheap := (rheap r)(HandleToKey r h \<mapsto> ?k)\<rparr>"
  have set: "SetValue r (HandleToKey r h) (wstr_of n) t p cb = Some ?r1"
    using live src(1) by (simp add: SetValue_def mem_simps)
  then have inv1: "reg_inv ?r1" using SetValue_inv [OF inv] by blast
  then obtain f where f: "AutoSave env ?r1 = Some (?r1\<lparr>reg_file := f\<rparr>)"
    using AutoSave_inv by blast
  let ?r2 = "?r1\<lparr>reg_file := f\<rparr>"
  have s: "Hook_RegSetValueExW env r h n t (Some p) cb = Some (?r2, Ret ERROR_SUCCESS ())"
    using h src(2) set f by (simp add: Hook_RegSetValueExW_def)
  have len: "length ?d = unat cb" "of_nat (length ?d) = cb" using src(1) by simp_all
  have hk: "HandleToKey ?r2 h = HandleToKey r h" by (simp add: HandleToKey_def)
  have cell: "rheap ?r2 (HandleToKey r h) = Some ?k" by simp
  have look: "look_value (k_values ?k) (wstr_of m) = Some (t, ?d)"
    using same by (simp add: look_set_value)
  have res: "resolve_key ?r2 h = Some (?r2, HandleToKey r h)"
    using resolve_key_inv [of ?r2 h] inv1 hk by simp
  have w: "mem_write b 0 ?d = Some (?d @ drop (unat cb) b)"
    using take_drop_write [of ?d b] buf(1) len(1) by simp
  have nl: "\<not> lim < cb" using buf(2) by (simp add: not_less)
  note g = GetValue_Some [OF cell look, unfolded len(2)]
  have "query_key ?r2 (HandleToKey r h) (wstr_of m) True (Some b) (Some lim) =
      Some (?r2, Ret ERROR_SUCCESS \<lparr>q_type = Some t, q_data = Some (?d @ drop (unat cb) b),
        q_cb = Some cb\<rparr>)"
    using g w log nl by (simp add: query_key_def store_cb_def answer_def Let_def)
  then have "Hook_RegQueryValueExW ?r2 h m True (Some b) (Some lim) =
      Some (?r2, Ret ERROR_SUCCESS \<lparr>q_type = Some t, q_data = Some (?d @ drop (unat cb) b),
        q_cb = Some cb\<rparr>)"
    using res h by (simp add: Hook_RegQueryValueExW_def)
  with s show ?thesis by blast
qed

lemma HandleToKey_A: "HandleToKey reg_A 0x30000000 = 2" "rheap reg_A 2 =
    Some \<lparr>k_name = Some [65], k_parent = 1, k_children = [], k_values = []\<rparr>"
  by (simp_all add: HandleToKey_def handle_index_def hkey_defs reg_A_def)

lemma set_then_query_witness:
  "\<exists>r'. Hook_RegSetValueExW env_ok reg_A 0x30000000 (Some [86]) REG_DWORD (Some [1,2,3,4]) 4
        = Some (r', Ret ERROR_SUCCESS ()) \<and>
    Hook_RegQueryValueExW r' 0x30000000 (Some [118]) True (Some [0,0,0,0,9]) (Some 5) =
      Some (r', Ret ERROR_SUCCESS \<lparr>q_type = Some REG_DWORD, q_data = Some [1,2,3,4,9],
        q_cb = Some 4\<rparr>)"
proof -
  have "icmp_eq (wstr_of (Some [86])) (wstr_of (Some [118]))"
    by (simp add: icmp_eq_def lower_def wstr_of_def)
  then show ?thesis
    using set_then_query [OF reg_reach_inv [OF reach_reg_A], where h = "0x30000000" and cb = 4 and
        p = "[1,2,3,4]" and b = "[0,0,0,0,9]" and n = "Some [86]" and m = "Some [118]" and
        t = REG_DWORD and lim = 5 and env = env_ok] HandleToKey_A
    by (simp add: hkey_defs reg_types log_set_value_def log_query_def mem_simps)
qed

text \<open>C31. The value list of a key is a map from case-folded names: any sequence of stores and
  removals of the list functions has the effect of the same sequence on the map.\<close>

theorem values_refine_map:
  assumes "names_distinct vs" "value_store.run ops vs = Some vs'"
  shows "names_distinct vs' \<and> look_value vs' = value_store.amap ops (look_value vs)"
  using value_store.run_refines [OF assms] .

lemma values_refine_map_witness:
  "look_value (set_value [] [65] 1 [7]) = value_store.amap [Add [65] (1, [7])] (\<lambda>_. None)"
proof -
  have "look_value [] = (\<lambda>_. None)" by (simp add: look_value_def fun_eq_iff)
  then show ?thesis
    using values_refine_map [of "[]" "[Add [65] (1, [7])]" "set_value [] [65] 1 [7]"]
    by (simp add: put_value_def)
qed

section \<open>Deleted keys and the fake service key\<close>

text \<open>C32. Deleting a key frees it but keeps the handles to it: a later query, store, removal or
  enumeration through such a handle follows a freed pointer.\<close>

theorem deleted_key_dangles:
  assumes inv: "reg_inv r" and h: "h \<noteq> FAKE_SERVICE_KEY" "HandleToKey r h \<noteq> 0"
    and del: "Hook_RegDeleteKeyW env real r h sub = Some (r', Ret ERROR_SUCCESS ())"
    and child: "rheap r (HandleToKey r h) = Some k"
      "find_child (rheap r) (k_children k) sub = Some (Some (HandleToKey r hc))"
    and hc: "hc \<noteq> FAKE_SERVICE_KEY" "HandleToKey r hc \<noteq> 0"
  shows "HandleToKey r' hc = HandleToKey r hc \<and> rheap r' (HandleToKey r' hc) = None \<and>
    Hook_RegQueryValueExW r' hc n ht d cb = None \<and>
    Hook_RegSetValueExW env r' hc n t d c = None \<and>
    Hook_RegDeleteValueW env real r' hc n = None \<and>
    Hook_RegEnumKeyExW real r' hc i nm cch = None"
proof -
  let ?c = "HandleToKey r hc"
  let ?r1 = "r\<lparr>rheap := ((rheap r)(HandleToKey r h \<mapsto> k\<lparr>k_children := remove1 ?c (k_children k)\<rparr>))(?c := None)\<rparr>"
  have "AutoSave env ?r1 = Some r'"
    using del h child by (auto simp: Hook_RegDeleteKeyW_def bind_eq_Some)
  then have same: "rheap r' = rheap ?r1" "g_fakeKeyTable r' = g_fakeKeyTable r"
    by (auto simp: AutoSave_def SaveRegistryToFile_def bind_eq_Some split: if_split_asm)
  have hk: "HandleToKey r' hc = ?c" using same(2) by (simp add: HandleToKey_def)
  have free: "rheap r' ?c = None" using same(1) by simp
  have res: "resolve_key r' hc = Some (r', ?c)" using hk hc by (simp add: resolve_key_def)
  have "Hook_RegQueryValueExW r' hc n ht d cb = None"
    using res hc free by (simp add: Hook_RegQueryValueExW_def query_key_def GetValue_def Let_def)
  moreover have "Hook_RegSetValueExW env r' hc n t d c = None"
    using hk hc free by (simp add: Hook_RegSetValueExW_def SetValue_def Let_def bind_eq_None_conv)
  moreover have "Hook_RegDeleteValueW env real r' hc n = None"
    using hk hc free by (simp add: Hook_RegDeleteValueW_def Let_def)
  moreover have "Hook_RegEnumKeyExW real r' hc i nm cch = None"
    using hk hc free by (simp add: Hook_RegEnumKeyExW_def Let_def)
  ultimately show ?thesis using hk free by simp
qed

text \<open>A second handle to the root, to delete A through.\<close>

definition reg_A2 :: registry where
  "reg_A2 = reg_A\<lparr>g_fakeKeyTable := [2, 1], g_fakeKeyPaths := [[65], []],
     g_handleCache := [([65], 0x30000000), ([], 0x30000001)]\<rparr>"

lemma open_root_A:
  "Hook_RegOpenKeyExW reg_A HKEY_LOCAL_MACHINE None = Some (reg_A2, Ret ERROR_SUCCESS (Some 0x30000001))"
  by (simp add: Hook_RegOpenKeyExW_def is_fake_service_def is_root_key_def RedirectSubKey_def
      NavigatePath_def give_handle_def BuildFullPath_def AllocHandle_def CacheLookup_def
      MAX_CACHED_HANDLES_def FAKE_HANDLE_BASE_def reg_A2_def reg_A_def reg0_def Let_def)

lemma deleted_key_dangles_witness:
  "\<exists>r'. Hook_RegDeleteKeyW \<lparr>tmp_created = False, moved = False\<rparr> True reg_A2 0x30000001 [97]
      = Some (r', Ret ERROR_SUCCESS ()) \<and>
    Hook_RegQueryValueExW r' 0x30000000 (Some [86]) True None (Some 0) = None"
proof -
  have inv: "reg_inv reg_A2"
    using reg_reach_inv [OF reach_reg_A [of False]] keeps_open_ex [OF open_root_A] by (simp add: keeps_def)
  have hk: "HandleToKey reg_A2 0x30000001 = 1" "HandleToKey reg_A2 0x30000000 = 2"
    by (simp_all add: HandleToKey_def handle_index_def hkey_defs reg_A2_def)
  have f: "find_child (rheap reg_A2) [2] [97] = Some (Some 2)"
    by (simp add: reg_A2_def reg_A_def reg0_def icmp_eq_def lower_def)
  have root: "rheap reg_A2 1 = Some \<lparr>k_name = None, k_parent = 0, k_children = [2], k_values = []\<rparr>"
    by (simp add: reg_A2_def reg_A_def)
  obtain r' where r': "Hook_RegDeleteKeyW \<lparr>tmp_created = False, moved = False\<rparr> True reg_A2 0x30000001 [97]
      = Some (r', Ret ERROR_SUCCESS ())"
    using hk f root
    by (simp add: Hook_RegDeleteKeyW_def FAKE_SERVICE_KEY_def AutoSave_def SaveRegistryToFile_def)
  have "Hook_RegQueryValueExW r' 0x30000000 (Some [86]) True None (Some 0) = None"
    using deleted_key_dangles [OF inv, where h = "0x30000001" and hc = "0x30000000" and sub = "[97]"]
      r' hk root f by (simp add: FAKE_SERVICE_KEY_def)
  with r' show ?thesis by blast
qed

text \<open>Any path that contains RVPNNETMP opens the fake service key, but every query through it
  fails with the invalid-handle error: the code that would answer ImagePath and Start is
  never reached, because the handle has no key.\<close>

theorem fake_service_query_fails:
  assumes "contains s RVPNNETMP"
  shows "Hook_RegOpenKeyExW r h (Some s) = Some (r, Ret ERROR_SUCCESS (Some FAKE_SERVICE_KEY)) \<and>
    Hook_RegQueryValueExW r FAKE_SERVICE_KEY n ht d cb =
      Some (r\<lparr>reg_error := ERROR_INVALID_HANDLE\<rparr>, Ret ERROR_INVALID_HANDLE (no_out d cb)) \<and>
    Hook_RegGetValueW r h (Some s) n fl ht d cb =
      Some (r\<lparr>reg_error := ERROR_INVALID_HANDLE\<rparr>, Ret ERROR_INVALID_HANDLE (no_out d cb))"
proof -
  have "s \<noteq> []"
    using assms by (auto simp: contains_iff RVPNNETMP_def)
  then show ?thesis
    using assms
    by (simp add: Hook_RegOpenKeyExW_def is_fake_service_def Hook_RegQueryValueExW_def fail_def
        resolve_key_def HandleToKey_def GetKeyPath_def Hook_RegGetValueW_def wstr_of_def
        finish_get_def no_out_def reg_codes)
qed

lemma fake_service_query_fails_witness:
  "Hook_RegOpenKeyExW reg_A HKEY_LOCAL_MACHINE (Some (str ''S_RVPNNETMP'')) =
    Some (reg_A, Ret ERROR_SUCCESS (Some FAKE_SERVICE_KEY))"
proof -
  have "contains (str ''S_RVPNNETMP'') RVPNNETMP" by code_simp
  from fake_service_query_fails [OF this] show ?thesis by blast
qed

section \<open>Redirection of 32-bit processes\<close>

definition wow_prefix :: wstr where "wow_prefix = SOFTWARE @ backslash # WOW6432Node"

lemma first_token: "t \<noteq> [] \<Longrightarrow> backslash \<notin> set t \<Longrightarrow> length t < n \<Longrightarrow>
    wcstok backslash (take n (t @ backslash # s)) = Some (t, take (n - length t - 1) s)"
proof -
  assume t: "t \<noteq> []" "backslash \<notin> set t" and n: "length t < n"
  obtain j where j: "n - length t = Suc j" using n by (cases "n - length t") auto
  then have "take n (t @ backslash # s) = t @ backslash # take j s" using n by simp
  moreover have "j = n - length t - 1" using j by simp
  ultimately show ?thesis using wcstok_append(1) [OF t] by simp
qed

lemma whole_token: "t \<noteq> [] \<Longrightarrow> backslash \<notin> set t \<Longrightarrow> length t \<le> n \<Longrightarrow>
    wcstok backslash (take n t) = Some (t, [])"
  using wcstok_append(2) [of t backslash] by simp

lemma names_ok: "SOFTWARE \<noteq> []" "backslash \<notin> set SOFTWARE" "length SOFTWARE = 8"
  "WOW6432Node \<noteq> []" "backslash \<notin> set WOW6432Node" "length WOW6432Node = 11"
  by (simp_all add: SOFTWARE_def WOW6432Node_def backslash_def)

text \<open>Paths that start with SOFTWARE and WOW6432Node are left alone.\<close>

lemma redirect_done:
  "RedirectSubKey True HKEY_LOCAL_MACHINE (Some (wow_prefix @ (if rest = [] then [] else backslash # rest)))
    = wow_prefix @ (if rest = [] then [] else backslash # rest)"
proof -
  let ?tail = "WOW6432Node @ (if rest = [] then [] else backslash # rest)"
  have 1: "wcstok backslash (take 511 (SOFTWARE @ backslash # ?tail)) = Some (SOFTWARE, take 502 ?tail)"
    using first_token [of SOFTWARE 511 ?tail] names_ok by simp
  have 2: "\<exists>u. wcstok backslash (take 255 ?tail) = Some (WOW6432Node, u)"
    using first_token [of WOW6432Node 255 rest] whole_token [of WOW6432Node 255] names_ok
    by (cases "rest = []") auto
  have "drop 8 (SOFTWARE @ backslash # ?tail) = backslash # ?tail" using names_ok(3) by simp
  then show ?thesis using 1 2 names_ok(3)
    by (auto simp: RedirectSubKey_def Let_def wow_prefix_def)
qed

text \<open>Redirection is idempotent: a path it produced is not redirected again.\<close>

theorem RedirectSubKey_idempotent:
  "RedirectSubKey w h (Some (RedirectSubKey w h sub)) = RedirectSubKey w h sub"
proof -
  let ?s = "case sub of None \<Rightarrow> [] | Some s \<Rightarrow> s"
  have same: "RedirectSubKey w h (Some ?s) = RedirectSubKey w h sub"
    by (simp add: RedirectSubKey_def)
  have "RedirectSubKey w h sub = ?s \<or>
    w \<and> h = HKEY_LOCAL_MACHINE \<and>
    (\<exists>rest. RedirectSubKey w h sub = wow_prefix @ (if rest = [] then [] else backslash # rest))"
  proof (cases "w \<and> h = HKEY_LOCAL_MACHINE")
    case False
    then show ?thesis by (auto simp: RedirectSubKey_def Let_def)
  next
    case True
    let ?r = "\<lambda>first. let rem0 = drop (length first) ?s in
      if rem0 \<noteq> [] \<and> hd rem0 = backslash then tl rem0 else rem0"
    show ?thesis
    proof (cases "wcstok backslash (take 511 ?s)")
      case None
      then show ?thesis by (simp add: RedirectSubKey_def Let_def)
    next
      case (Some p)
      obtain first u where p: "p = (first, u)" by (cases p)
      have "RedirectSubKey w h sub = ?s \<or> RedirectSubKey w h sub =
          wow_prefix @ (if ?r first = [] then [] else backslash # ?r first)"
        using True Some p
        by (cases "wcstok backslash (take 255 (?r first))")
          (auto simp: RedirectSubKey_def Let_def wow_prefix_def)
      then show ?thesis using True by blast
    qed
  qed
  then show ?thesis
  proof (elim disjE conjE exE)
    fix rest
    assume "w" "h = HKEY_LOCAL_MACHINE"
      and r: "RedirectSubKey w h sub = wow_prefix @ (if rest = [] then [] else backslash # rest)"
    then show ?thesis using redirect_done [of rest] unfolding r by simp
  qed (simp only: same)
qed

text \<open>The redirection of a path with a leading backslash is wrong: the length of the first
  component is taken from the front of the path, so the backslash shifts the rest by one and
  the last letter of SOFTWARE becomes a component of the redirected path.\<close>

theorem redirect_leading_backslash:
  "RedirectSubKey True HKEY_LOCAL_MACHINE (Some (backslash # SOFTWARE @ backslash # rest)) =
   wow_prefix @ backslash # of_char (CHR ''E'') # backslash # rest"
proof -
  let ?s = "backslash # SOFTWARE @ backslash # rest"
  have skip: "wcstok backslash (backslash # x) = wcstok backslash x" for x :: wstr
    by (simp add: wcstok_def)
  have 1: "wcstok backslash (take 511 ?s) = Some (SOFTWARE, take 501 rest)"
    using first_token [of SOFTWARE 510 rest] names_ok skip by (simp add: numeral_eq_Suc)
  have 2: "drop 8 ?s = of_char (CHR ''E'') # backslash # rest"
    by (simp add: SOFTWARE_def)
  have e: "wcstok backslash (take 255 (of_char (CHR ''E'') # backslash # rest))
      = Some ([of_char (CHR ''E'')], take 253 rest)"
    using first_token [of "[of_char (CHR ''E'')]" 255 rest] by (simp add: backslash_def)
  have ne: "\<not> icmp_eq [of_char (CHR ''E'')] WOW6432Node"
    using icmp_eq_length [of "[of_char (CHR ''E'')]" WOW6432Node] names_ok(6) by auto
  have hd: "of_char (CHR ''E'') \<noteq> backslash" by (simp add: backslash_def)
  show ?thesis using 1 2 e ne hd names_ok(3)
    by (simp add: RedirectSubKey_def wow_prefix_def Let_def)
qed

end
