(* ===== verification/Restart_Dump.thy ===== *)
theory Restart_Dump
  imports Tree_Dump_Properties Registry_Claims
begin

text \<open>
  What the log shows after a restart: the registry file, the loader of \<open>Registry_File\<close>, the walk
  to the key of the program and the dump of \<open>Tree_Dump\<close>, composed.  Also the limits of the dump:
  the depth at which the indentation is full.
\<close>

section \<open>The indentation\<close>

lemma indent_shallow:
  "depth < 64 \<Longrightarrow> wide_indent strict depth = Some (replicate (2 * depth) 32)"
proof (induction depth)
  case (Suc d)
  then have "wide_indent strict d = Some (replicate (2 * d) 32)" by simp
  moreover have "replicate (2 * d) (32 :: u16) @ [32, 32] = replicate (2 * Suc d) 32"
    by (simp add: replicate_app_Cons_same)
  ultimately show ?case using Suc.prems by (simp add: INDENT_SIZE_def str_def)
qed simp

text \<open>The log prints one space for every depth, because the second byte of the wide string is zero.\<close>

lemma indent_is_one_space:
  assumes "depth < 64"
  shows "indent_text strict depth = Some (if depth = 0 then [] else [32])"
  using assms indent_shallow [OF assms, of strict] by (cases depth) (simp_all add: indent_text_def)

lemma indent_full: "wide_indent True 64 = None" "wide_indent False 64 = Some []"
  using indent_shallow [of 63] by (simp_all add: eval_nat_numeral INDENT_SIZE_def)

lemma indent_overflow: "64 \<le> depth \<Longrightarrow> wide_indent True depth = None"
proof (induction depth)
  case (Suc d)
  then show ?case using indent_full(1) by (cases "d = 63") auto
qed simp

text \<open>With the handler of the run-time library, a key at depth 64 ends the process.\<close>

lemma deep_key_aborts: "ds_strict e \<Longrightarrow> 64 \<le> depth \<Longrightarrow> tree_dump e r (Dump_Key h nm depth) = None"
  by (subst tree_dump.simps) (simp add: indent_text_def indent_overflow)

section \<open>Paths in a forest\<close>

fun forest_find :: "'a rtree list \<Rightarrow> wstr list \<Rightarrow> 'a rtree option" where
  "forest_find ts [] = None"
| "forest_find ts (tok # toks) =
     (case List.find (\<lambda>t. icmp_eq (wstr_of (rt_name t)) tok) ts of
        None \<Rightarrow> None
      | Some t \<Rightarrow> if toks = [] then Some t else forest_find (rt_subs t) toks)"

lemma find_child_forest:
  "forest_at hp ts \<Longrightarrow> forest_ok ts \<Longrightarrow> find_child hp (map rt_addr ts) tok =
     Some (map_option rt_addr (List.find (\<lambda>t. icmp_eq (wstr_of (rt_name t)) tok) ts))"
proof (induction hp ts rule: forest_at.induct)
  case (2 hp a nm vs ts us)
  obtain k where "hp a = Some k" "k_name k = Some (wstr_of nm)"
    using forest_cell [of hp "RT a nm vs ts # us" "RT a nm vs ts"] "2.prems" by auto
  then show ?case using 2 by (auto split: option.splits)
qed simp

lemma forest_mem:
  "forest_at hp ts \<Longrightarrow> t \<in> set ts \<Longrightarrow> forest_at hp [t]"
  "forest_ok ts \<Longrightarrow> t \<in> set ts \<Longrightarrow> forest_ok [t]"
  "plain_names ts \<Longrightarrow> t \<in> set ts \<Longrightarrow> plain_names [t]"
    apply (induction hp ts rule: forest_at.induct; auto)
   apply (induction ts rule: forest_ok.induct; auto)
  apply (induction ts rule: plain_names.induct; auto)
  done

lemma walk_forest:
  assumes "forest_at (rheap r) ts" "forest_ok ts" "rheap r cur = Some k" "k_children k = map rt_addr ts" "toks \<noteq> []"
  shows "walk_path r cur toks False = Some (r, case forest_find ts toks of None \<Rightarrow> 0 | Some t \<Rightarrow> rt_addr t)"
  using assms
proof (induction toks arbitrary: ts cur k)
  case (Cons tok toks)
  note fc = find_child_forest [OF Cons.prems(1,2), of tok]
  show ?case
  proof (cases "List.find (\<lambda>t. icmp_eq (wstr_of (rt_name t)) tok) ts")
    case None
    then show ?thesis using Cons.prems(3,4) fc by simp
  next
    case (Some t)
    then have t: "t \<in> set ts" by (auto simp: find_Some_iff)
    obtain a nm vs us where tt: "t = RT a nm vs us" by (cases t)
    have f: "forest_at (rheap r) [t]" "forest_ok [t]" using forest_mem(1,2) t Cons.prems(1,2) by blast+
    then obtain kt where "rheap r a = Some kt" "k_children kt = map rt_addr us" "forest_at (rheap r) us" "forest_ok us"
      unfolding tt by auto
    then have "toks \<noteq> [] \<Longrightarrow> walk_path r a toks False =
        Some (r, case forest_find us toks of None \<Rightarrow> 0 | Some t \<Rightarrow> rt_addr t)"
      using Cons.IH by blast
    then show ?thesis using Cons.prems(3,4) fc Some tt by (cases "toks = []") auto
  qed
qed simp

lemma forest_find_parts:
  "forest_find ts toks = Some t \<Longrightarrow> forest_at hp ts \<Longrightarrow> forest_ok ts \<Longrightarrow> plain_names ts \<Longrightarrow>
   forest_at hp [t] \<and> forest_ok [t] \<and> plain_names [t]"
proof (induction ts toks rule: forest_find.induct)
  case (2 ts tok toks)
  obtain u where u: "List.find (\<lambda>t. icmp_eq (wstr_of (rt_name t)) tok) ts = Some u"
    using "2.prems"(1) by (auto split: option.splits)
  then have m: "u \<in> set ts" by (auto simp: find_Some_iff)
  have f: "forest_at hp [u]" "forest_ok [u]" "plain_names [u]"
    using forest_mem m "2.prems"(2-4) by blast+
  show ?case
  proof (cases "toks = []")
    case True
    then show ?thesis using "2.prems"(1) u f by simp
  next
    case False
    then show ?thesis using "2.IH" [OF u False] "2.prems"(1) u f by (cases u) auto
  qed
qed simp

section \<open>The dump of the program's key\<close>

definition program_path :: "bool \<Rightarrow> wstr" where
  "program_path wow64 = RedirectSubKey wow64 HKEY_LOCAL_MACHINE (Some famatech)"

definition program_tokens :: "bool \<Rightarrow> wstr list" where
  "program_tokens wow64 = tokens backslash (take 511 (program_path wow64))"

lemma no_service [simp]: "\<not> is_fake_service (Some famatech)"
  by (simp add: is_fake_service_def contains_def famatech_def RVPNNETMP_def SOFTWARE_def backslash_def str_def)

lemmas tokens_first = tokens_append tokens_single

definition Famatech :: wstr where "Famatech = str ''Famatech''"

lemma famatech_parts:
  "famatech = SOFTWARE @ backslash # Famatech" "Famatech \<noteq> []" "backslash \<notin> set Famatech" "length Famatech = 8"
  "\<not> icmp_eq Famatech WOW6432Node"
  by (simp_all add: famatech_def SOFTWARE_def Famatech_def backslash_def WOW6432Node_def str_def icmp_eq_def lower_def)

lemma program_path_eq:
  "program_path wow64 = (if wow64 then SOFTWARE @ backslash # WOW6432Node @ backslash # Famatech
     else SOFTWARE @ backslash # Famatech)"
proof -
  have "wcstok backslash (take 511 famatech) = Some (SOFTWARE, take 502 Famatech)"
    unfolding famatech_parts(1) using first_token [of SOFTWARE 511 Famatech] names_ok by simp
  moreover have "wcstok backslash (take 255 Famatech) = Some (Famatech, [])"
    using whole_token [of Famatech 255] famatech_parts by simp
  moreover have "drop (length SOFTWARE) famatech = backslash # Famatech" by (simp add: famatech_parts(1))
  ultimately show ?thesis
    by (simp add: program_path_def RedirectSubKey_def Let_def famatech_parts)
qed

lemma program_tokens_eq:
  "program_tokens wow64 = (if wow64 then [SOFTWARE, WOW6432Node, Famatech] else [SOFTWARE, Famatech])"
  using names_ok famatech_parts(2-)
  by (simp add: program_tokens_def program_path_eq tokens_first)

text \<open>The key of the program, dumped from a registry whose handle tables are empty.\<close>

lemma DumpRegistryTree_tree:
  assumes r: "g_regRoot r \<noteq> 0" "rheap r 0 = None" "root_tree r (RT (g_regRoot r) None [] ts)"
    "g_fakeKeyTable r = []" "g_fakeKeyPaths r = []" "g_handleCache r = []"
    and ts: "forest_ok ts" "plain_names ts" "forest_find ts (program_tokens (g_isWow64 r)) = Some (RT a nm vs us)"
    and e: "sys_ok e" and room: "length (shown_addrs us) < HANDLE_ROOM"
    and fits: "those (map (shown_value []) vs) = Some vl" "tree_lines (ds_strict e) 1 us = Some sl"
  shows "\<exists>r'. DumpRegistryTree e r = Some (r', T_Start # T_Key [] famatech # vl @ sl @ [T_End]) \<and>
    opened r (a # shown_addrs us) (program_path (g_isWow64 r) # shown_paths (program_path (g_isWow64 r)) us) r'"
proof -
  let ?P = "program_path (g_isWow64 r)"
  obtain rk where rk: "rheap r (g_regRoot r) = Some rk" "k_children rk = map rt_addr ts" "forest_at (rheap r) ts"
    using r(3) by (auto simp: root_tree_def)
  have tk: "program_tokens (g_isWow64 r) \<noteq> []" by (simp add: program_tokens_eq)
  have part: "forest_at (rheap r) [RT a nm vs us]" "forest_ok [RT a nm vs us]" "plain_names [RT a nm vs us]"
    using forest_find_parts [OF ts(3) rk(3) ts(1,2)] by blast+
  then obtain k where k: "rheap r a = Some k" "k_values k = vs" "k_children k = map rt_addr us" "forest_at (rheap r) us"
    by auto
  have a0: "a \<noteq> 0" using r(2) k(1) not_null [of "rheap r" a] by blast
  have "?P \<noteq> []" by (simp add: program_path_eq names_ok)
  then have nav: "NavigatePath r (g_regRoot r) ?P False = Some (r, a)"
    using walk_forest [OF rk(3) ts(1) rk(1,2) tk] ts(3) by (simp add: NavigatePath_def program_tokens_def Let_def)
  have full: "?P = BuildFullPath r HKEY_LOCAL_MACHINE ?P" by (simp add: BuildFullPath_def)
  have t: "tables_ok r" "length (g_fakeKeyTable r) < HANDLE_ROOM" using r(4-6) by (simp_all add: tables_ok_def HANDLE_ROOM_def)
  have none: "\<forall>q\<in>set (g_fakeKeyPaths r). \<not> icmp_eq q ?P" using r(5) by simp
  obtain r1 h where g: "give_handle r HKEY_LOCAL_MACHINE ?P a = (r1, h)" "opened r [a] [?P] r1" "at_handle r1 h a ?P"
    using give_handle_fresh [OF t a0 full none] by blast
  have op: "Hook_RegOpenKeyExW r HKEY_LOCAL_MACHINE (Some famatech) = Some (r1, Ret ERROR_SUCCESS (Some h))"
    using nav g(1) a0 by (simp add: Hook_RegOpenKeyExW_def Let_def is_root_key_def program_path_def)
  let ?r = "r1\<lparr>reg_error := ERROR_NO_MORE_ITEMS\<rparr>"
  have hp: "rheap r1 = rheap r" "g_fakeKeyTable r1 = [a]" "g_fakeKeyPaths r1 = [?P]"
    using g(2) r(4,5) by (simp_all add: opened_def)
  have ok: "forest_ok us" "plain_names us" "length us < 2 ^ 32" "list_all value_ok vs" "length vs < 2 ^ 32"
    using part(2,3) by auto
  have t1: "tables_ok r1" using opened_tables [OF g(2) _ t(1)] by simp
  have "\<not> under ?P (sub_path ?P s)" for s using under_length [of ?P "sub_path ?P s"] by (auto simp: sub_path_def)
  then have "ready ?r h a ?P k 0 us"
    using k ok hp r(2) g(3) t1 room find_child_plain [OF k(4) ok(1,2)]
    by (auto simp: ready_def tables_ok_def)
  from subs_dump [OF e this, of 0 sl "[]"] fits(2) obtain r2 where
    r2: "tree_dump e ?r (Dump_Subs h [] 0 0) = Some (r2, sl)" "opened ?r (shown_addrs us) (shown_paths ?P us) r2" by auto
  have ind: "indent_text (ds_strict e) 0 = Some []" by (simp add: indent_text_def)
  have k1: "rheap r1 a = Some k" using k(1) hp(1) by simp
  have kd: "tree_dump e r1 (Dump_Key h famatech 0) = Some (r2, T_Key [] famatech # vl @ sl)"
    using key_dump [OF g(3) a0 k1 e _ _ ind _ r2(1)] k(2) ok(4,5) fits(1) by simp
  have o: "opened r ([a] @ shown_addrs us) ([?P] @ shown_paths ?P us) r2"
    using opened_trans [OF g(2)] opened_trans [OF opened_error(1) r2(2)] by simp
  have o12: "opened r1 (shown_addrs us) (shown_paths ?P us) r2"
    using opened_trans [OF opened_error(1) r2(2)] by simp
  have "HandleToKey r2 h \<noteq> 0" "h \<noteq> FAKE_SERVICE_KEY"
    using opened_handle [OF o12 _ t1 g(3)] a0 by (simp_all add: at_handle_def length_shown)
  then have "Hook_RegCloseKey (ds_real e) r2 h = Some (r2, Ret ERROR_SUCCESS ())" by (simp add: Hook_RegCloseKey_def)
  then show ?thesis
    using op kd o r(1) by (simp add: DumpRegistryTree_def DumpRealRegistryTree_def)
qed

text \<open>Without the key the dump says so.\<close>

lemma DumpRegistryTree_missing:
  assumes r: "g_regRoot r \<noteq> 0" "root_tree r (RT (g_regRoot r) None [] ts)"
    and ts: "forest_ok ts" "forest_find ts (program_tokens (g_isWow64 r)) = None"
  shows "DumpRegistryTree e r = Some (r\<lparr>reg_error := ERROR_FILE_NOT_FOUND\<rparr>,
    [T_Start, T_Root_Failed famatech ERROR_FILE_NOT_FOUND, T_End])"
proof -
  obtain rk where rk: "rheap r (g_regRoot r) = Some rk" "k_children rk = map rt_addr ts" "forest_at (rheap r) ts"
    using r(2) by (auto simp: root_tree_def)
  have tk: "program_tokens (g_isWow64 r) \<noteq> []" by (simp add: program_tokens_eq)
  have "program_path (g_isWow64 r) \<noteq> []" by (simp add: program_path_eq names_ok)
  then have "NavigatePath r (g_regRoot r) (program_path (g_isWow64 r)) False = Some (r, 0)"
    using walk_forest [OF rk(3) ts(1) rk(1,2) tk] ts(2) by (simp add: NavigatePath_def program_tokens_def Let_def)
  then show ?thesis
    using r(1) by (simp add: DumpRegistryTree_def DumpRealRegistryTree_def Hook_RegOpenKeyExW_def Let_def is_root_key_def
        program_path_def fail_def)
qed

text \<open>The first start has no file and no key.\<close>

lemma first_start:
  "\<exists>r. Register_InstallHooks_logged e wow64 None =
     Some (r, [T_Start, T_Root_Failed famatech ERROR_FILE_NOT_FOUND, T_End]) \<and> reg_inv r \<and> handles_live r"
proof -
  obtain r where r: "Register_InstallHooks wow64 None = Some r" "g_regRoot r \<noteq> 0" "root_tree r (RT (g_regRoot r) None [] [])"
    by (auto simp: Register_InstallHooks_def CreateKey_def LoadRegistryFromFile_def Let_def ResetHandleTable_def root_tree_def)
  have "forest_find ([] :: raddr rtree list) (program_tokens (g_isWow64 r)) = None" by (simp add: program_tokens_eq)
  from DumpRegistryTree_missing [OF r(2,3) _ this, of e] start_inv [OF r(1)] r(1) show ?thesis
    by (auto simp: Register_InstallHooks_logged_def)
qed

section \<open>After a restart\<close>

text \<open>Addresses play no part in the reference, and reversed siblings keep their conditions.\<close>

lemma forget_facts:
  "tree_lines strict d (forget ts) = tree_lines strict d ts"
  "length (shown_addrs (forget ts)) = length (shown_addrs ts)"
  "forest_ok (forget ts) = forest_ok ts"
    apply (induction ts arbitrary: d rule: forest_addrs.induct; simp only: forget_simps tree_lines.simps)
   apply (induction ts rule: forest_addrs.induct; simp)
  apply (induction ts rule: forest_addrs.induct; simp add: forget_def)
  done

lemma rt_name_map [simp]: "rt_name (map_rtree f t) = rt_name t" "rt_subs (map_rtree (\<lambda>_. ()) t) = forget (rt_subs t)"
  by (cases t; simp add: forget_def)+

lemma plain_forget: "plain_names (forget ts) = plain_names ts"
  by (induction ts rule: forest_addrs.induct) (auto simp: forget_def)

lemma find_forget: "List.find P (forget ts) = map_option (map_rtree (\<lambda>_. ())) (List.find (\<lambda>t. P (map_rtree (\<lambda>_. ()) t)) ts)"
  by (induction ts) (auto simp: forget_def)

lemma forest_find_forget:
  "forest_find (forget ts) toks = map_option (map_rtree (\<lambda>_. ())) (forest_find ts toks)"
  by (induction ts toks rule: forest_find.induct) (auto simp: find_forget split: option.splits)

lemma mirror_forget: "mirror (forget ts) = forget (mirror ts)"
  by (induction ts rule: forest_addrs.induct) auto

lemma names_distinct_rev [simp]: "names_distinct (rev vs) = names_distinct vs"
  by (simp add: names_distinct_def rev_map [symmetric])

lemma forest_ok_append [simp]: "forest_ok (ts @ us) \<longleftrightarrow> forest_ok ts \<and> forest_ok us"
  by (induction ts rule: forest_addrs.induct) auto

lemma forest_ok_mirror: "forest_ok (mirror ts) = forest_ok ts"
  by (induction ts rule: forest_addrs.induct) (auto simp: list_all_rev)

lemma plain_append: "plain_names (ts @ us) \<longleftrightarrow> plain_names ts \<and> plain_names us \<and>
    (\<forall>t\<in>set ts. \<forall>u\<in>set us. \<not> icmp_eq (wstr_of (rt_name t)) (wstr_of (rt_name u)))"
  by (induction ts rule: forest_addrs.induct) auto

lemma mirror_names: "rt_name ` set (mirror ts) = rt_name ` set ts"
  by (induction ts rule: forest_addrs.induct) auto

lemma plain_mirror: "plain_names ts \<Longrightarrow> plain_names (mirror ts)"
proof (induction ts rule: forest_addrs.induct)
  case (2 a nm vs ts us)
  have "\<not> icmp_eq (wstr_of (rt_name t)) (wstr_of nm)" if "t \<in> set (mirror us)" for t
  proof -
    have "rt_name t \<in> rt_name ` set us" using that mirror_names [of us] by blast
    then show ?thesis using "2.prems" icmp_eq_sym by fastforce
  qed
  then show ?case using 2 by (simp add: plain_append)
qed simp

lemma restart_dump:
  assumes t: "root_tree r (RT (g_regRoot r) None [] ts)" and ok: "forest_ok ts" "length ts < 2 ^ 32" "plain_names ts"
    and saved: "tmp_created env" "moved env" and e: "sys_ok e"
    and key: "forest_find (mirror ts) (program_tokens wow64) = Some (RT a nm vs us)"
    and room: "length (shown_addrs us) < HANDLE_ROOM"
    and fits: "those (map (shown_value []) vs) = Some vl" "tree_lines (ds_strict e) 1 us = Some sl"
  shows "\<exists>r1 r2 r3 ts2 a2 us2. AutoSave env r = Some r1 \<and> Register_InstallHooks wow64 (reg_file r1) = Some r2 \<and>
    DumpRegistryTree e r2 = Some (r3, T_Start # T_Key [] famatech # vl @ sl @ [T_End]) \<and>
    root_tree r2 (RT (g_regRoot r2) None [] ts2) \<and> forget ts2 = mirror (forget ts) \<and> forest_ok ts2 \<and> plain_names ts2 \<and>
    g_regRoot r2 \<noteq> 0 \<and> rheap r2 0 = None \<and> g_fakeKeyTable r2 = [] \<and> g_fakeKeyPaths r2 = [] \<and> g_handleCache r2 = [] \<and>
    forest_find ts2 (program_tokens wow64) = Some (RT a2 nm vs us2) \<and> length (shown_addrs us2) = length (shown_addrs us) \<and>
    opened r2 (a2 # shown_addrs us2) (program_path wow64 # shown_paths (program_path wow64) us2) r3"
proof -
  obtain r1 r2 ts2 where r: "AutoSave env r = Some r1" "Register_InstallHooks wow64 (reg_file r1) = Some r2"
    "root_tree r2 (RT (g_regRoot r2) None [] ts2)" "forget ts2 = mirror (forget ts)"
    "g_regRoot r2 \<noteq> 0" "rheap r2 0 = None" "g_isWow64 r2 = wow64"
    "g_fakeKeyTable r2 = []" "g_fakeKeyPaths r2 = []" "g_handleCache r2 = []"
    using restart_rebuilds [OF t ok(1,2) saved, of wow64] by blast
  have same: "forget ts2 = forget (mirror ts)" using r(4) by (simp add: mirror_forget)
  have "map_option (map_rtree (\<lambda>_. ())) (forest_find ts2 (program_tokens wow64)) =
      Some (map_rtree (\<lambda>_. ()) (RT a nm vs us))"
    unfolding forest_find_forget [symmetric] same using key by (simp only: forest_find_forget option.map)
  then obtain t2 where t2: "forest_find ts2 (program_tokens wow64) = Some t2"
    "map_rtree (\<lambda>_. ()) t2 = map_rtree (\<lambda>_. ()) (RT a nm vs us)" by blast
  then obtain a2 us2 where k: "forest_find ts2 (program_tokens wow64) = Some (RT a2 nm vs us2)" "forget us2 = forget us"
    by (cases t2) (auto simp: forget_def)
  have f: "forest_ok ts2" "plain_names ts2"
    using same forget_facts(3) [where ts = ts2] forget_facts(3) [where ts = "mirror ts"] plain_forget [of ts2] plain_forget [of "mirror ts"]
      ok(1,3) forest_ok_mirror plain_mirror by metis+
  have l: "tree_lines (ds_strict e) 1 us2 = Some sl" "length (shown_addrs us2) = length (shown_addrs us)"
    using k(2) forget_facts(1,2) [where ts = us2] forget_facts(1,2) [where ts = us] fits(2) by metis+
  from DumpRegistryTree_tree [OF r(5,6,3,8-10) f _ e _ fits(1) l(1), of a2] k(1) l(2) room r(7)
  obtain r3 where "DumpRegistryTree e r2 = Some (r3, T_Start # T_Key [] famatech # vl @ sl @ [T_End])"
    "opened r2 (a2 # shown_addrs us2) (program_path wow64 # shown_paths (program_path wow64) us2) r3" by auto
  then show ?thesis using r f k(1) l(2) by blast
qed


definition some_sys :: dump_sys where
  "some_sys = \<lparr>ds_real = True, ds_strict = True,
     ds_stack = \<lambda>_. \<lparr>valName = replicate VAL_NAME 65, valType = 1, valData = replicate VAL_DATA 255\<rparr>,
     ds_subName = \<lambda>_. replicate VAL_NAME 66\<rparr>"

definition some_registry :: registry where
  "some_registry = \<lparr>rheap = [1 \<mapsto> \<lparr>k_name = None, k_parent = 0, k_children = [2], k_values = []\<rparr>,
       2 \<mapsto> \<lparr>k_name = Some SOFTWARE, k_parent = 1, k_children = [3], k_values = []\<rparr>,
       3 \<mapsto> \<lparr>k_name = Some Famatech, k_parent = 2, k_children = [5, 4],
              k_values = [\<lparr>v_name = str ''Port'', v_type = REG_DWORD, v_data = [1, 2, 0, 0]\<rparr>]\<rparr>,
       4 \<mapsto> \<lparr>k_name = Some (str ''A''), k_parent = 3, k_children = [],
              k_values = [\<lparr>v_name = [], v_type = REG_SZ, v_data = [72, 0, 0, 0]\<rparr>]\<rparr>,
       5 \<mapsto> \<lparr>k_name = Some RVPNNETMP, k_parent = 3, k_children = [],
              k_values = [\<lparr>v_name = str ''Start'', v_type = REG_DWORD, v_data = [1, 0, 0, 0]\<rparr>]\<rparr>],
     next_key = 6, g_regRoot = 1, g_fakeKeyTable = [], g_fakeKeyPaths = [], g_handleCache = [],
     g_isWow64 = False, reg_file = None, reg_error = 0\<rparr>"


end
