(* ===== verification/Folder_Dump.thy ===== *)
theory Folder_Dump
  imports Restart_Dump
begin

text \<open>
  The two dumps that end \<open>run_injection\<close> of src/inject.c: \<open>LogRegistryFolder\<close> of src/reg_read.c through
  the hooks, with the state of the emulated registry.  The handle of the key may come from the
  cache, so the cached handles and their paths must agree with the tree (\<open>coherent\<close>).
\<close>

section \<open>The functions\<close>

record folder_sys =
  fd_real :: bool
  fd_name :: wstr
  fd_data :: "u32 \<Rightarrow> bytes"
  fd_sub :: "u32 \<Rightarrow> wstr"

definition folder_sys_ok :: "folder_sys \<Rightarrow> bool" where
  "folder_sys_ok e \<longleftrightarrow> length (fd_name e) = MAX_VALUE_NAME \<and>
     (\<forall>h. length (fd_data e h) = MAX_VALUE_DATA \<and> length (fd_sub e h) = MAX_KEY_NAME)"

text \<open>\<open>LogRegistryValues\<close>; the buffers keep what a call does not write.\<close>

partial_function (option) folder_values ::
    "bool \<Rightarrow> u32 \<Rightarrow> registry \<Rightarrow> wstr \<Rightarrow> bytes \<Rightarrow> u32 \<Rightarrow> (registry \<times> dump_line list) option" where
  "folder_values real hKey r nameBuf data index = do {
     (r, ret) \<leftarrow> Hook_RegEnumValueW real r hKey index (Some nameBuf) (Some (of_nat MAX_VALUE_NAME)) True
                   (Some data) (Some (of_nat MAX_VALUE_DATA));
     (case ret of
        Forwarded \<Rightarrow> do {
          (r, ls) \<leftarrow> folder_values real hKey r nameBuf data (index + 1);
          Some (r, Value_Error index ERROR_INVALID_HANDLE # ls) }
      | Ret result out \<Rightarrow>
          if result = ERROR_NO_MORE_ITEMS then Some (r, [])
          else do {
            nameBuf \<leftarrow> ev_name out;
            data \<leftarrow> ev_data out;
            l \<leftarrow> (if result \<noteq> ERROR_SUCCESS then Some (Value_Error index result)
                 else do {
                   n \<leftarrow> ev_cb out;
                   type \<leftarrow> ev_type out;
                   valueName \<leftarrow> wcs_at nameBuf;
                   value_line valueName type (unat n) data });
            (r, ls) \<leftarrow> folder_values real hKey r nameBuf data (index + 1);
            Some (r, l # ls) }) }"

definition hooked_open :: "registry \<Rightarrow> u32 \<Rightarrow> wstr option \<Rightarrow> (registry \<times> (u32 + u32)) option" where
  "hooked_open r hRoot subPath = do {
     (r, ret) \<leftarrow> Hook_RegOpenKeyExW r hRoot subPath;
     Some (r, case ret of Ret result (Some h) \<Rightarrow> Inr h | Ret result None \<Rightarrow> Inl result
              | Forwarded \<Rightarrow> Inl ERROR_INVALID_HANDLE) }"

definition hooked_folder :: "registry \<Rightarrow> u32 \<Rightarrow> wstr option \<Rightarrow> (registry \<times> (u32 + u32)) option" where
  "hooked_folder r hRoot subPath = do {
     (r, res) \<leftarrow> hooked_open r hRoot subPath;
     if res = Inl DUMP_ACCESS_DENIED then hooked_open r hRoot subPath else Some (r, res) }"

partial_function (option) folder_dump ::
    "folder_sys \<Rightarrow> registry \<Rightarrow> dump_task \<Rightarrow> (registry \<times> dump_line list) option" where
  "folder_dump e r t =
     (case t of
        Task_Folder hRoot subPath depth \<Rightarrow> do {
          (r, res) \<leftarrow> hooked_folder r hRoot subPath;
          (case res of
             Inl result \<Rightarrow> Some (r, [Cannot_Open depth (path_text subPath) result])
           | Inr hKey \<Rightarrow> do {
               (r, vs) \<leftarrow> folder_values (fd_real e) hKey r (fd_name e) (fd_data e hKey) 0;
               (r, ks) \<leftarrow> folder_dump e r (Task_Subkeys hKey subPath depth 0);
               (r, _) \<leftarrow> Hook_RegCloseKey (fd_real e) r hKey;
               Some (r, Opened hKey # Folder depth (path_text subPath) # vs @ ks @ [Closed hKey]) }) }
      | Task_Subkeys hKey subPath depth index \<Rightarrow> do {
          (r, ret) \<leftarrow> Hook_RegEnumKeyExW (fd_real e) r hKey index (fd_sub e hKey) (of_nat MAX_KEY_NAME);
          (case ret of
             Forwarded \<Rightarrow> do {
               (r, ls) \<leftarrow> folder_dump e r (Task_Subkeys hKey subPath depth (index + 1));
               Some (r, Key_Error index ERROR_INVALID_HANDLE # ls) }
           | Ret result out \<Rightarrow>
               if result = ERROR_NO_MORE_ITEMS then Some (r, [])
               else if result \<noteq> ERROR_SUCCESS then do {
                 (r, ls) \<leftarrow> folder_dump e r (Task_Subkeys hKey subPath depth (index + 1));
                 Some (r, Key_Error index result # ls) }
               else do {
                 subKeyName \<leftarrow> wcs_at (fst out);
                 (r, l) \<leftarrow> folder_dump e r (Task_Folder hKey (Some (full_sub_path subPath subKeyName)) (Suc depth));
                 (r, ls) \<leftarrow> folder_dump e r (Task_Subkeys hKey subPath depth (index + 1));
                 Some (r, l @ ls) }) })"

definition radmin_key :: "wstr \<Rightarrow> wstr" where
  "radmin_key name = str ''SOFTWARE'' @ backslash # str ''WOW6432Node'' @ backslash # str ''Famatech'' @
     backslash # str ''RadminVPN'' @ backslash # str ''1.0'' @ backslash # name"

definition final_dumps :: "folder_sys \<Rightarrow> registry \<Rightarrow> (registry \<times> dump_line list) option" where
  "final_dumps e r = do {
     (r, ls) \<leftarrow> folder_dump e r (Task_Folder HKEY_LOCAL_MACHINE (Some (radmin_key (str ''Registration''))) 0);
     (r, ls') \<leftarrow> folder_dump e r (Task_Folder HKEY_LOCAL_MACHINE (Some (radmin_key (str ''Proxy''))) 0);
     Some (r, ls @ ls') }"

section \<open>Values\<close>

text \<open>The line of a value as it is stored.\<close>

definition folder_value :: "u32 \<Rightarrow> regvalue \<Rightarrow> dump_line option" where
  "folder_value i v =
     (if MAX_VALUE_NAME \<le> length (v_name v) \<or> MAX_VALUE_DATA < length (v_data v) then Some (Value_Error i ERROR_MORE_DATA)
      else value_line (v_name v) (v_type v) (length (v_data v)) (v_data v))"

fun folder_value_lines :: "nat \<Rightarrow> regvalue list \<Rightarrow> dump_line list option" where
  "folder_value_lines i [] = Some []"
| "folder_value_lines i (v # vs) = do {
     l \<leftarrow> folder_value (of_nat i) v;
     ls \<leftarrow> folder_value_lines (Suc i) vs;
     Some (l # ls) }"

lemma value_line_prefix:
  assumes "value_line nm ty (length d) d = Some l"
  shows "value_line nm ty (length d) (d @ rest) = Some l"
proof -
  obtain X where X: "of_wbytes (d @ rest) = of_wbytes d @ X" using of_wbytes_prefix by blast
  have t: "wcs_at (of_wbytes d) \<noteq> None \<Longrightarrow> wcs_at (of_wbytes (d @ rest)) = wcs_at (of_wbytes d)"
    "wcs_list (of_wbytes d) \<noteq> None \<Longrightarrow> wcs_list (of_wbytes (d @ rest)) = wcs_list (of_wbytes d)"
    unfolding X using wcs_at_prefix wcs_list_prefix by force+
  have q: "4 \<le> length d \<Longrightarrow> of_le32 (d @ rest) = of_le32 d" by (rule of_le32_prefix)
  have m: "mem_read (d @ rest) 0 (length d) = mem_read d 0 (length d)" by (simp add: mem_read_def)
  consider "ty = REG_SZ \<or> ty = REG_EXPAND_SZ" | "\<not> (ty = REG_SZ \<or> ty = REG_EXPAND_SZ)" "ty = REG_MULTI_SZ"
    | "\<not> (ty = REG_SZ \<or> ty = REG_EXPAND_SZ)" "ty \<noteq> REG_MULTI_SZ" by blast
  then show ?thesis
  proof cases
    case 1
    then have "wcs_at (of_wbytes d) \<noteq> None" using assms by (auto simp: value_line_def)
    then show ?thesis using assms 1 t(1) unfolding value_line_def by simp
  next
    case 2
    then have "wcs_list (of_wbytes d) \<noteq> None" using assms unfolding value_line_def by (auto simp: reg_types)
    then show ?thesis using assms t(2) unfolding value_line_def 2(2) by (simp only:) (simp add: reg_types)
  next
    case 3
    then show ?thesis using assms q m unfolding value_line_def by (simp only: simp_thms if_False cong: if_cong)
  qed
qed

text \<open>A value that does not fit: the name, when it fits, is in the buffer, the data are not.\<close>

lemma enum_value_long:
  assumes h: "HandleToKey r h \<noteq> 0" "h \<noteq> FAKE_SERVICE_KEY" "rheap r (HandleToKey r h) = Some k"
    and i: "unat i < length (k_values k)" "v = k_values k ! unat i"
    and v: "value_ok v" "n \<le> length (v_name v) \<or> m < length (v_data v)"
    and b: "length nameBuf = n" "length dataBuf = m" "n < 2 ^ 32" "m < 2 ^ 32"
  shows "\<exists>out nb. Hook_RegEnumValueW real r h i (Some nameBuf) (Some (of_nat n)) True (Some dataBuf) (Some (of_nat m)) =
    Some (r, Ret ERROR_MORE_DATA out) \<and> ev_name out = Some nb \<and> length nb = n \<and> ev_data out = Some dataBuf"
proof -
  have l: "0 \<notin> set (v_name v)" "length (v_name v) < 2 ^ 32" "length (v_data v) < 2 ^ 32"
    using v(1) by (simp_all add: value_ok_def text_ok_def)
  have n: "of_nat n \<le> (of_nat (length (v_name v)) :: u32) \<longleftrightarrow> n \<le> length (v_name v)"
    "of_nat m < v_size v \<longleftrightarrow> m < length (v_data v)"
    using b(3,4) l by (simp_all add: word_le_nat_alt word_less_nat_alt unat_of_nat_u32 v_size_def)
  have at: "nth_opt (k_values k) (unat i) = Some v" using i by (simp add: nth_opt_def)
  show ?thesis
  proof (cases "n \<le> length (v_name v)")
    case True
    then show ?thesis using h at n b by (simp add: Hook_RegEnumValueW_def Let_def)
  next
    case False
    then obtain nb where "lstrcpyn nameBuf (v_name v) (of_nat n) = Some nb" "length nb = n"
      using lstrcpyn_whole [OF l(1) _ b(3,1)] by auto
    then show ?thesis using False h at n v(2) by (simp add: Hook_RegEnumValueW_def Let_def enum_value_data_def)
  qed
qed

lemma folder_values_shown:
  assumes h: "HandleToKey r h \<noteq> 0" "h \<noteq> FAKE_SERVICE_KEY" "rheap r (HandleToKey r h) = Some k"
    and vs: "list_all value_ok (k_values k)" "length (k_values k) < 2 ^ 32"
    and b: "length nameBuf = MAX_VALUE_NAME" "length data = MAX_VALUE_DATA" and i: "i \<le> length (k_values k)"
    and ls: "folder_value_lines i (drop i (k_values k)) = Some ls"
  shows "folder_values real h r nameBuf data (of_nat i) = Some (r\<lparr>reg_error := ERROR_NO_MORE_ITEMS\<rparr>, ls)"
  using b i ls
proof (induction "length (k_values k) - i" arbitrary: i nameBuf data ls)
  case 0
  then have "nth_opt (k_values k) (unat (of_nat i :: u32)) = None" "ls = []"
    using vs(2) by (simp_all add: nth_opt_def unat_of_nat_u32)
  then show ?case using h
    by (subst folder_values.simps) (simp add: Hook_RegEnumValueW_def Let_def fail_def)
next
  case (Suc n)
  then have i: "i < length (k_values k)" "unat (of_nat i :: u32) = i" using vs(2) by (simp_all add: unat_of_nat_u32)
  define v where "v = k_values k ! i"
  have d: "drop i (k_values k) = v # drop (Suc i) (k_values k)"
    using i(1) by (simp add: v_def Cons_nth_drop_Suc)
  obtain l ls' where l: "folder_value (of_nat i) v = Some l" "folder_value_lines (Suc i) (drop (Suc i) (k_values k)) = Some ls'"
    "ls = l # ls'"
    using Suc.prems(4) unfolding d by (auto simp: bind_eq_Some)
  have v: "value_ok v" using vs(1) i(1) by (simp add: v_def list_all_length)
  have vi: "unat (of_nat i :: u32) < length (k_values k)" "v = k_values k ! unat (of_nat i :: u32)"
    using i by (simp_all add: v_def)
  have big: "MAX_VALUE_NAME < 2 ^ 32" "MAX_VALUE_DATA < 2 ^ 32" by (simp_all add: MAX_VALUE_NAME_def MAX_VALUE_DATA_def)
  have ih: "folder_values real h r nb db (of_nat i + 1) = Some (r\<lparr>reg_error := ERROR_NO_MORE_ITEMS\<rparr>, ls')"
    if "length nb = MAX_VALUE_NAME" "length db = MAX_VALUE_DATA" for nb db
    using Suc.hyps(1) [of "Suc i", OF _ that _ l(2)] Suc.hyps(2) i(1) by (simp add: add.commute)
  show ?case
  proof (cases "MAX_VALUE_NAME \<le> length (v_name v) \<or> MAX_VALUE_DATA < length (v_data v)")
    case True
    then obtain out nb where e: "Hook_RegEnumValueW real r h (of_nat i) (Some nameBuf) (Some (of_nat MAX_VALUE_NAME)) True
        (Some data) (Some (of_nat MAX_VALUE_DATA)) = Some (r, Ret ERROR_MORE_DATA out)" "ev_name out = Some nb"
      "length nb = MAX_VALUE_NAME" "ev_data out = Some data"
      using enum_value_long [OF h vi v _ Suc.prems(1,2) big] by blast
    then show ?thesis using ih [OF e(3) Suc.prems(2)] l(1,3) True
      by (subst folder_values.simps) (simp add: folder_value_def)
  next
    case False
    then have f: "length (v_name v) < MAX_VALUE_NAME" "length (v_data v) \<le> MAX_VALUE_DATA" by simp_all
    let ?d = "v_data v @ drop (length (v_data v)) data"
    obtain nb where e: "Hook_RegEnumValueW real r h (of_nat i) (Some nameBuf) (Some (of_nat MAX_VALUE_NAME)) True
        (Some data) (Some (of_nat MAX_VALUE_DATA)) =
      Some (r, Ret ERROR_SUCCESS \<lparr>ev_name = Some nb, ev_cch = Some (of_nat (length (v_name v))),
        ev_type = Some (v_type v), ev_data = Some ?d, ev_cb = Some (v_size v)\<rparr>)"
      "wcs_at nb = Some (v_name v)" "length nb = MAX_VALUE_NAME"
      using enum_value_fits [OF h vi v f Suc.prems(1,2) big] by blast
    have dl: "length ?d = MAX_VALUE_DATA" using f(2) Suc.prems(2) by simp
    have "value_line (v_name v) (v_type v) (length (v_data v)) ?d = Some l"
      using l(1) False by (intro value_line_prefix) (simp add: folder_value_def)
    moreover have "unat (v_size v) = length (v_data v)"
      using f(2) by (simp add: v_size_def unat_of_nat_u32 MAX_VALUE_DATA_def)
    ultimately show ?thesis using e(1,2) ih [OF e(3) dl] l(3)
      by (subst folder_values.simps) simp
  qed
qed

section \<open>Coherent handles\<close>

text \<open>Every handle stands for the key its path leads to, and the cache holds handles of the table.\<close>

definition resolves :: "registry \<Rightarrow> wstr \<Rightarrow> raddr \<Rightarrow> bool" where
  "resolves r p a \<longleftrightarrow> a \<noteq> 0 \<and> walk_path r (g_regRoot r) (tokens backslash p) False = Some (r, a)"

definition coherent :: "registry \<Rightarrow> bool" where
  "coherent r \<longleftrightarrow> list_all2 (resolves r) (g_fakeKeyPaths r) (g_fakeKeyTable r) \<and>
     set (g_handleCache r) \<subseteq> indexed (g_fakeKeyPaths r)"

lemma walk_path_cong:
  "rheap r' = rheap r \<Longrightarrow> walk_path r cur ts False = Some (r, a) \<Longrightarrow> walk_path r' cur ts False = Some (r', a)"
  by (induction ts arbitrary: cur) (auto simp: bind_eq_Some split: option.splits)

lemma resolves_cong: "rheap r' = rheap r \<Longrightarrow> g_regRoot r' = g_regRoot r \<Longrightarrow> resolves r p a \<Longrightarrow> resolves r' p a"
  using walk_path_cong [of r' r "g_regRoot r" "tokens backslash p" a] by (simp add: resolves_def)

lemma walk_path_append:
  "walk_path r cur ts False = Some (r, a) \<Longrightarrow> a \<noteq> 0 \<Longrightarrow>
   walk_path r cur (ts @ us) False = walk_path r a us False"
  by (induction ts arbitrary: cur) (auto simp: bind_eq_Some split: option.splits)

lemma wcstok_delim: "wcstok d (d # s) = wcstok d s"
  by (simp add: wcstok_def)

lemma tokens_delim: "tokens d (d # s) = tokens d s"
  by (simp add: tokens.simps [of d "d # s"] tokens.simps [of d s] wcstok_delim)

lemma token_induct:
  assumes "P []" "\<And>s. P s \<Longrightarrow> P (d # s)" "\<And>t. t \<noteq> [] \<Longrightarrow> d \<notin> set t \<Longrightarrow> P t"
    "\<And>t r. t \<noteq> [] \<Longrightarrow> d \<notin> set t \<Longrightarrow> P r \<Longrightarrow> P (t @ d # r)"
  shows "P x"
proof (induction "length x" arbitrary: x rule: less_induct)
  case less
  show ?case
  proof (cases x)
    case Nil
    then show ?thesis using assms(1) by simp
  next
    case (Cons c x')
    show ?thesis
    proof (cases "c = d")
      case True
      then show ?thesis using less [of x'] Cons assms(2) by simp
    next
      case False
      define t where "t = takeWhile (\<lambda>b. b \<noteq> d) x"
      have t: "t \<noteq> []" "d \<notin> set t" using False Cons by (auto simp: t_def dest: set_takeWhileD)
      show ?thesis
      proof (cases "dropWhile (\<lambda>b. b \<noteq> d) x")
        case Nil
        then have "x = t" by (metis append_Nil2 t_def takeWhile_dropWhile_id)
        then show ?thesis using t assms(3) by simp
      next
        case (Cons e r)
        then have "e = d" by (simp add: dropWhile_eq_Cons_conv)
        then have x: "x = t @ d # r" using Cons by (metis t_def takeWhile_dropWhile_id)
        then show ?thesis using less [of r] t assms(4) by simp
      qed
    qed
  qed
qed

lemma tokens_split: "tokens d (x @ d # y) = tokens d x @ tokens d y"
  by (induction x rule: token_induct [where d = d]) (simp_all add: tokens_delim tokens_first)

lemma tokens_sub: "s \<noteq> [] \<Longrightarrow> backslash \<notin> set s \<Longrightarrow> tokens backslash (sub_path P s) = tokens backslash P @ [s]"
  by (simp add: sub_path_def tokens_split tokens_first)

lemma tokens_map:
  assumes "\<And>c. f c = d \<longleftrightarrow> c = d"
  shows "tokens d (map f s) = map (map f) (tokens d s)"
proof -
  have d: "f d = d" "\<And>t. d \<notin> set t \<Longrightarrow> d \<notin> set (map f t)" using assms by (auto, metis)
  then show ?thesis
    by (induction s rule: token_induct [where d = d]) (simp_all add: tokens_delim tokens_first del: set_map)
qed

text \<open>Paths that differ only in the case of letters lead to the same key.\<close>

lemma find_child_icmp: "icmp_eq s t \<Longrightarrow> find_child hp cs s = find_child hp cs t"
  by (induction cs) (simp_all add: icmp_eq_def cong: if_cong)

lemma walk_path_icmp:
  "map (map lower) ts = map (map lower) us \<Longrightarrow> walk_path r cur ts False = walk_path r cur us False"
proof (induction ts arbitrary: us cur)
  case (Cons t ts)
  then obtain u us' where u: "us = u # us'" "map lower t = map lower u" "map (map lower) ts = map (map lower) us'"
    by (cases us) auto
  have "find_child hp cs t = find_child hp cs u" for hp cs
    by (rule find_child_icmp) (simp add: icmp_eq_def u(2))
  then show ?case using Cons.IH [OF u(3)] u(1) by simp
qed simp

lemma resolves_icmp: "icmp_eq p q \<Longrightarrow> resolves r p a \<Longrightarrow> resolves r q a"
proof -
  assume i: "icmp_eq p q" and r: "resolves r p a"
  have "tokens backslash (map lower x) = map (map lower) (tokens backslash x)" for x :: wstr
    by (rule tokens_map) simp
  then have "map (map lower) (tokens backslash p) = map (map lower) (tokens backslash q)"
    using i by (metis icmp_eq_def)
  then show ?thesis using r walk_path_icmp [of "tokens backslash p" "tokens backslash q" r "g_regRoot r"]
    by (simp add: resolves_def)
qed

lemma resolves_unique: "resolves r p a \<Longrightarrow> resolves r p b \<Longrightarrow> a = b"
  by (simp add: resolves_def)

lemma resolves_child:
  assumes "resolves r P a" "rheap r a = Some k" "find_child (rheap r) (k_children k) s = Some (Some c)" "c \<noteq> 0"
    "s \<noteq> []" "backslash \<notin> set s"
  shows "resolves r (sub_path P s) c"
  using assms by (simp add: resolves_def tokens_sub walk_path_append)

lemma shown_resolves:
  "forest_at (rheap r) ts \<Longrightarrow> forest_ok ts \<Longrightarrow> plain_names ts \<Longrightarrow> rheap r 0 = None \<Longrightarrow> resolves r P a \<Longrightarrow>
   rheap r a = Some k \<Longrightarrow>
   \<forall>u\<in>set ts. find_child (rheap r) (k_children k) (wstr_of (rt_name u)) = Some (Some (rt_addr u)) \<Longrightarrow>
   list_all2 (resolves r) (shown_paths P ts) (shown_addrs ts)"
proof (induction ts arbitrary: P a k rule: forest_addrs.induct)
  case (2 c nm vs ts us)
  obtain ck where ck: "rheap r c = Some ck" "k_children ck = map rt_addr ts" "wstr_of nm \<noteq> []"
    using forest_cell [OF "2.prems"(1,2), of "RT c nm vs ts"] "2.prems"(1) by auto
  have c0: "c \<noteq> 0" using not_null [of "rheap r" c ck] "2.prems"(4) ck(1) by blast
  have s: "resolves r (sub_path P (wstr_of nm)) c"
    using resolves_child [OF "2.prems"(5,6) _ c0 ck(3)] "2.prems"(3,7) by simp
  have f: "forest_at (rheap r) ts" "forest_ok ts" "plain_names ts" using "2.prems"(1-3) by auto
  have "list_all2 (resolves r) (shown_paths (sub_path P (wstr_of nm)) ts) (shown_addrs ts)"
    using "2.IH"(1) [OF f "2.prems"(4) s ck(1)] find_child_plain [OF f] ck(2) by simp
  moreover have "list_all2 (resolves r) (shown_paths P us) (shown_addrs us)"
    using "2.IH"(2) [OF _ _ _ "2.prems"(4,5,6)] "2.prems"(1-3,7) by auto
  ultimately show ?case using s by (auto intro: list_all2_appendI)
qed simp

lemma opened_coherent:
  assumes "opened r as ps r'" "coherent r" "list_all2 (resolves r) ps as"
  shows "coherent r'"
proof -
  note o = openedD [OF assms(1)]
  have g: "g_regRoot r' = g_regRoot r" using assms(1) by (simp add: opened_def)
  have "list_all2 (resolves r) (g_fakeKeyPaths r') (g_fakeKeyTable r')"
    using assms(2,3) o(2,3) by (simp add: coherent_def list_all2_appendI)
  then have "list_all2 (resolves r') (g_fakeKeyPaths r') (g_fakeKeyTable r')"
    by (rule list_all2_mono) (rule resolves_cong [OF o(1) g])
  moreover have "indexed (g_fakeKeyPaths r) \<subseteq> indexed (g_fakeKeyPaths r')" unfolding o(3) by (rule indexed_append)
  ultimately show ?thesis using assms(2) o(5) unfolding coherent_def by blast
qed

definition same_tree :: "registry \<Rightarrow> registry \<Rightarrow> bool" where
  "same_tree r r' \<longleftrightarrow> rheap r' = rheap r \<and> g_regRoot r' = g_regRoot r \<and> g_isWow64 r' = g_isWow64 r \<and>
     reg_file r' = reg_file r \<and> next_key r' = next_key r"

lemma same_tree_refl [simp]: "same_tree r r" "same_tree r (r\<lparr>reg_error := e\<rparr>)"
  by (simp_all add: same_tree_def)

lemma same_tree_trans: "same_tree r r' \<Longrightarrow> same_tree r' r'' \<Longrightarrow> same_tree r r''"
  by (simp add: same_tree_def)

lemma coherent_error [simp]: "coherent (r\<lparr>reg_error := e\<rparr>) = coherent r"
proof -
  have "resolves (r\<lparr>reg_error := e\<rparr>) p a = resolves r p a" for p a
    using resolves_cong [of "r\<lparr>reg_error := e\<rparr>" r p a] resolves_cong [of r "r\<lparr>reg_error := e\<rparr>" p a] by auto
  then have "resolves (r\<lparr>reg_error := e\<rparr>) = resolves r" by (intro ext)
  then show ?thesis by (simp add: coherent_def)
qed

lemma cache_hit: "cache_find c p = Some h \<Longrightarrow> \<exists>q. (q, h) \<in> set c \<and> icmp_eq q p"
  by (induction c p rule: cache_find.induct) (auto split: if_splits)

text \<open>A key that is opened again by its path: the handle, new or from the cache, stands for that key.\<close>

lemma give_coherent:
  assumes c: "coherent r" and n: "length (g_fakeKeyTable r) < HANDLE_ROOM" and p: "resolves r p a"
  shows "\<exists>r' h P. give_handle r HKEY_LOCAL_MACHINE p a = (r', h) \<and> at_handle r' h a P \<and> coherent r' \<and>
    same_tree r r' \<and> g_fakeKeyTable r' = g_fakeKeyTable r @ [a]"
proof -
  let ?n = "length (g_fakeKeyTable r)"
  let ?h = "FAKE_HANDLE_BASE + of_nat ?n :: u32"
  have l: "length (g_fakeKeyPaths r) = ?n" using c unfolding coherent_def by (auto dest: list_all2_lengthD)
  let ?r1 = "r\<lparr>g_fakeKeyTable := g_fakeKeyTable r @ [a], g_fakeKeyPaths := g_fakeKeyPaths r @ [p]\<rparr>"
  have all: "list_all2 (resolves r) (g_fakeKeyPaths r @ [p]) (g_fakeKeyTable r @ [a])"
    using c p by (simp add: coherent_def list_all2_appendI)
  have at: "at_handle r' (FAKE_HANDLE_BASE + of_nat j) b q"
    if "g_fakeKeyTable r' = g_fakeKeyTable r @ [a]" "g_fakeKeyPaths r' = g_fakeKeyPaths r @ [p]" "j \<le> ?n"
      "(g_fakeKeyTable r @ [a]) ! j = b" "(g_fakeKeyPaths r @ [p]) ! j = q" for r' j b q
  proof -
    have "j < HANDLE_ROOM" using that(3) n by simp
    from new_handle [OF this] show ?thesis
      using that l by (simp add: at_handle_def HandleToKey_def GetKeyPath_def less_Suc_eq_le)
  qed
  have mono: "set (g_handleCache r) \<subseteq> indexed (g_fakeKeyPaths r @ [p])"
    using c indexed_append unfolding coherent_def by blast
  have coh: "coherent r'" if "same_tree r r'" "g_fakeKeyTable r' = g_fakeKeyTable r @ [a]"
    "g_fakeKeyPaths r' = g_fakeKeyPaths r @ [p]" "set (g_handleCache r') \<subseteq> indexed (g_fakeKeyPaths r @ [p])" for r'
  proof -
    have "rheap r' = rheap r" "g_regRoot r' = g_regRoot r" using that(1) by (simp_all add: same_tree_def)
    then have "list_all2 (resolves r') (g_fakeKeyPaths r @ [p]) (g_fakeKeyTable r @ [a])"
      by (intro list_all2_mono [OF all]) (rule resolves_cong)
    then show ?thesis using that(2-4) unfolding coherent_def by (simp only:)
  qed
  show ?thesis
  proof (cases "cache_find (g_handleCache r) p")
    case None
    let ?c = "if length (g_handleCache r) < MAX_CACHED_HANDLES then g_handleCache r @ [(p, ?h)] else g_handleCache r"
    let ?r2 = "?r1\<lparr>g_handleCache := ?c\<rparr>"
    have g: "give_handle r HKEY_LOCAL_MACHINE p a = (?r2, ?h)"
      using None by (simp add: give_handle_def BuildFullPath_def Let_def AllocHandle_def CacheLookup_def)
    have "(p, ?h) \<in> indexed (g_fakeKeyPaths r @ [p])"
      unfolding indexed_def using l by (auto simp: nth_append intro!: exI [of _ ?n])
    then have "set ?c \<subseteq> indexed (g_fakeKeyPaths r @ [p])" using mono by auto
    then have "coherent ?r2" by (intro coh) (simp_all add: same_tree_def)
    moreover have "at_handle ?r2 ?h a p" by (rule at) (simp_all add: nth_append l)
    ultimately show ?thesis using g by (intro exI [of _ ?r2] exI [of _ ?h] exI [of _ p]) (simp add: same_tree_def)
  next
    case (Some hd')
    then obtain q where q: "(q, hd') \<in> set (g_handleCache r)" "icmp_eq q p" using cache_hit by blast
    then have "(q, hd') \<in> indexed (g_fakeKeyPaths r)" using c unfolding coherent_def by blast
    then obtain j where j: "j < ?n" "q = g_fakeKeyPaths r ! j" "hd' = FAKE_HANDLE_BASE + of_nat j"
      using l by (auto simp: indexed_def)
    have "resolves r q (g_fakeKeyTable r ! j)"
      using c j(1,2) l by (auto simp: coherent_def dest: list_all2_nthD)
    then have a: "g_fakeKeyTable r ! j = a" using resolves_icmp [OF q(2)] resolves_unique [OF p] by blast
    have g: "give_handle r HKEY_LOCAL_MACHINE p a = (?r1, hd')"
      using Some by (simp add: give_handle_def BuildFullPath_def Let_def AllocHandle_def CacheLookup_def)
    have "at_handle ?r1 hd' a q" unfolding j(3)
      by (rule at) (use j a l in \<open>simp_all add: nth_append\<close>)
    moreover have "coherent ?r1" by (rule coh) (use mono in \<open>simp_all add: same_tree_def\<close>)
    ultimately show ?thesis using g by (intro exI [of _ ?r1] exI [of _ hd'] exI [of _ q]) (simp add: same_tree_def)
  qed
qed

section \<open>The lines of a folder\<close>

fun folder_sub_lines :: "wstr \<Rightarrow> nat \<Rightarrow> nat \<Rightarrow> 'a rtree list \<Rightarrow> dump_line list" where
  "folder_sub_lines p depth i [] = []"
| "folder_sub_lines p depth i (u # us) =
     (let s = wstr_of (rt_name u); q = full_sub_path (Some p) s in
      if too_long s then [Key_Error (of_nat i) ERROR_MORE_DATA]
      else if contains q RVPNNETMP then [Opened FAKE_SERVICE_KEY, Folder (Suc depth) q, Closed FAKE_SERVICE_KEY]
      else [Cannot_Open (Suc depth) q ERROR_FILE_NOT_FOUND]) @
     folder_sub_lines p depth (Suc i) us"

lemma service_folder:
  "folder_dump e (r\<lparr>reg_error := x\<rparr>) (Task_Subkeys FAKE_SERVICE_KEY p depth 0) = Some (r\<lparr>reg_error := ERROR_NO_MORE_ITEMS\<rparr>, [])"
  "folder_values real FAKE_SERVICE_KEY r nb d 0 = Some (r\<lparr>reg_error := ERROR_NO_MORE_ITEMS\<rparr>, [])"
   apply (subst folder_dump.simps; simp add: Hook_RegEnumKeyExW_def fail_def)
  apply (subst folder_values.simps; simp add: Hook_RegEnumValueW_def fail_def Let_def)
  done

text \<open>A subkey is asked for by the whole path again, whose first name is SOFTWARE.\<close>

lemma sub_folder:
  assumes h: "at_handle r h a P" "a \<noteq> 0" "rheap r a = Some k" "find_child (rheap r) (k_children k) SOFTWARE = Some None"
    and p: "p = SOFTWARE @ backslash # rest"
  shows "\<exists>x. folder_dump e r (Task_Folder h (Some (full_sub_path (Some p) s)) d) =
    Some (r\<lparr>reg_error := x\<rparr>,
      if contains (full_sub_path (Some p) s) RVPNNETMP
      then [Opened FAKE_SERVICE_KEY, Folder d (full_sub_path (Some p) s), Closed FAKE_SERVICE_KEY]
      else [Cannot_Open d (full_sub_path (Some p) s) ERROR_FILE_NOT_FOUND])"
proof -
  let ?q = "full_sub_path (Some p) s"
  show ?thesis
  proof (cases "contains ?q RVPNNETMP")
    case True
    then have "hooked_folder r h (Some ?q) = Some (r, Inr FAKE_SERVICE_KEY)"
      by (simp add: hooked_folder_def hooked_open_def Hook_RegOpenKeyExW_def is_fake_service_def)
    then show ?thesis using True service_folder
      by (subst folder_dump.simps) (auto simp: Hook_RegCloseKey_def path_text_def)
  next
    case False
    have "h \<noteq> HKEY_LOCAL_MACHINE" using h(1) by (auto simp: at_handle_def is_root_key_def)
    then have red: "RedirectSubKey (g_isWow64 r) h (Some ?q) = ?q" by (simp add: RedirectSubKey_def)
    have q: "?q = SOFTWARE @ backslash # take 502 (rest @ backslash # s)"
      by (simp add: full_sub_path_def p path_text_def names_ok backslash_def)
    have "take 511 ?q = ?q" by (simp only: full_sub_path_def take_take min.idem)
    then have "tokens backslash (take 511 ?q) = SOFTWARE # tokens backslash (take 502 (rest @ backslash # s))"
      unfolding q using tokens_first(1) [OF names_ok(1,2)] by (simp only:)
    then have "NavigatePath r a ?q False = Some (r, 0)"
      using h(2-4) q by (simp add: NavigatePath_def Let_def)
    then have "hooked_open r h (Some ?q) = Some (r\<lparr>reg_error := ERROR_FILE_NOT_FOUND\<rparr>, Inl ERROR_FILE_NOT_FOUND)"
      using False h(1,2) red
      by (simp add: hooked_open_def Hook_RegOpenKeyExW_def is_fake_service_def Let_def at_handle_def fail_def)
    then have "hooked_folder r h (Some ?q) = Some (r\<lparr>reg_error := ERROR_FILE_NOT_FOUND\<rparr>, Inl ERROR_FILE_NOT_FOUND)"
      by (simp add: hooked_folder_def DUMP_ACCESS_DENIED_def ERROR_FILE_NOT_FOUND_def)
    then show ?thesis using False by (subst folder_dump.simps) (auto simp: path_text_def)
  qed
qed

text \<open>The state before the loop over the remaining subkeys of a folder.\<close>

definition folder_ready :: "registry \<Rightarrow> u32 \<Rightarrow> raddr \<Rightarrow> wstr \<Rightarrow> regkey \<Rightarrow> nat \<Rightarrow> raddr rtree list \<Rightarrow> bool" where
  "folder_ready r h a P k i us \<longleftrightarrow> at_handle r h a P \<and> a \<noteq> 0 \<and> rheap r a = Some k \<and>
     find_child (rheap r) (k_children k) SOFTWARE = Some None \<and>
     forest_at (rheap r) us \<and> forest_ok us \<and> drop i (k_children k) = map rt_addr us \<and>
     length (k_children k) < 2 ^ 32 \<and> i \<le> length (k_children k)"

lemma folder_ready_error [simp]: "folder_ready (r\<lparr>reg_error := x\<rparr>) h a P k i us = folder_ready r h a P k i us"
  by (simp add: folder_ready_def at_handle_def HandleToKey_def GetKeyPath_def)

lemma folder_ready_next: "folder_ready r h a P k i (u # us) \<Longrightarrow> folder_ready r h a P k (Suc i) us"
proof -
  assume r: "folder_ready r h a P k i (u # us)"
  then have d: "drop i (k_children k) = rt_addr u # map rt_addr us" by (simp add: folder_ready_def)
  then have "i < length (k_children k)" "drop (Suc i) (k_children k) = map rt_addr us"
    by (metis drop_eq_Nil linorder_not_le list.distinct(1), metis drop_Suc list.sel(3) tl_drop)
  then show ?thesis using r by (cases u) (auto simp: folder_ready_def)
qed

lemma folder_subs:
  assumes e: "folder_sys_ok e" and p: "p = SOFTWARE @ backslash # rest"
  shows "folder_ready r h a P k i us \<Longrightarrow>
    \<exists>x. folder_dump e r (Task_Subkeys h (Some p) d (of_nat i)) = Some (r\<lparr>reg_error := x\<rparr>, folder_sub_lines p d i us)"
proof (induction us arbitrary: r i)
  case Nil
  then have h: "at_handle r h a P" "a \<noteq> 0" "rheap r a = Some k" "length (k_children k) \<le> i" "i < 2 ^ 32"
    by (auto simp: folder_ready_def)
  show ?case using enum_key_end [OF h] by (subst folder_dump.simps) auto
next
  case (Cons u us)
  note r = Cons.prems
  have h: "at_handle r h a P" "a \<noteq> 0" "rheap r a = Some k" "find_child (rheap r) (k_children k) SOFTWARE = Some None"
    "drop i (k_children k) = rt_addr u # map rt_addr us" "length (k_children k) < 2 ^ 32"
    using r by (simp_all add: folder_ready_def)
  let ?s = "wstr_of (rt_name u)"
  obtain ck where c: "rheap r (rt_addr u) = Some ck" "k_name ck = Some ?s" "text_ok ?s"
    using forest_cell [of "rheap r" "u # us" u] r unfolding folder_ready_def by (meson list.set_intros(1))
  have b: "length (fd_sub e h) = VAL_NAME" "of_nat MAX_KEY_NAME = (of_nat VAL_NAME :: u32)"
    using e by (simp_all add: folder_sys_ok_def MAX_KEY_NAME_def VAL_NAME_def)
  have one: "of_nat i + 1 = (of_nat (Suc i) :: u32)" by simp
  note en = enum_key_at [OF h(1-3,5,6) c b(1), of "fd_real e"]
  show ?case
  proof (cases "too_long ?s")
    case True
    obtain x where "folder_dump e r (Task_Subkeys h (Some p) d (of_nat i + 1)) =
        Some (r\<lparr>reg_error := x\<rparr>, folder_sub_lines p d (Suc i) us)"
      unfolding one using Cons.IH [OF folder_ready_next [OF r]] by blast
    moreover obtain out where "Hook_RegEnumKeyExW (fd_real e) r h (of_nat i) (fd_sub e h) (of_nat VAL_NAME) =
        Some (r, Ret ERROR_MORE_DATA out)" using True en by auto
    ultimately show ?thesis using True
      by (subst folder_dump.simps) (simp add: b(2) Let_def, blast)
  next
    case False
    then obtain buf n where e1: "Hook_RegEnumKeyExW (fd_real e) r h (of_nat i) (fd_sub e h) (of_nat VAL_NAME) =
        Some (r, Ret ERROR_SUCCESS (buf, n))" "wcs_at buf = Some ?s" using en by auto
    obtain x where sub: "folder_dump e r (Task_Folder h (Some (full_sub_path (Some p) ?s)) (Suc d)) =
      Some (r\<lparr>reg_error := x\<rparr>,
        if contains (full_sub_path (Some p) ?s) RVPNNETMP
        then [Opened FAKE_SERVICE_KEY, Folder (Suc d) (full_sub_path (Some p) ?s), Closed FAKE_SERVICE_KEY]
        else [Cannot_Open (Suc d) (full_sub_path (Some p) ?s) ERROR_FILE_NOT_FOUND])"
      using sub_folder [OF h(1-4) p] by blast
    have "folder_ready (r\<lparr>reg_error := x\<rparr>) h a P k (Suc i) us" using folder_ready_next [OF r] by simp
    from Cons.IH [OF this] obtain y where "folder_dump e (r\<lparr>reg_error := x\<rparr>) (Task_Subkeys h (Some p) d (of_nat i + 1)) =
        Some (r\<lparr>reg_error := y\<rparr>, folder_sub_lines p d (Suc i) us)" unfolding one by auto
    then show ?thesis using False e1 sub by (subst folder_dump.simps) (simp add: b(2) Let_def, blast)
  qed
qed

section \<open>The two keys\<close>

definition RadminVPN :: wstr where "RadminVPN = str ''RadminVPN''"
definition Version1 :: wstr where "Version1 = str ''1.0''"

definition radmin_tokens :: "wstr \<Rightarrow> wstr list" where
  "radmin_tokens name = [SOFTWARE, WOW6432Node, Famatech, RadminVPN, Version1, name]"

definition key_name :: "wstr \<Rightarrow> bool" where
  "key_name name \<longleftrightarrow> name \<noteq> [] \<and> backslash \<notin> set name \<and> length name < 256 \<and> \<not> contains (radmin_key name) RVPNNETMP"

definition radmin_rest :: "wstr \<Rightarrow> wstr" where
  "radmin_rest name = Famatech @ backslash # RadminVPN @ backslash # Version1 @ backslash # name"

lemma radmin_key_eq: "radmin_key name = SOFTWARE @ backslash # WOW6432Node @ backslash # radmin_rest name"
  by (simp add: radmin_key_def radmin_rest_def SOFTWARE_def WOW6432Node_def Famatech_def RadminVPN_def Version1_def)

lemma radmin_parts: "RadminVPN \<noteq> []" "backslash \<notin> set RadminVPN" "Version1 \<noteq> []" "backslash \<notin> set Version1"
  by (simp_all add: RadminVPN_def Version1_def str_def backslash_def)

lemma radmin_length: "length (radmin_key name) = 44 + length name"
  by (simp add: radmin_key_def str_def)

lemma radmin_tokens:
  assumes "key_name name"
  shows "tokens backslash (take 511 (radmin_key name)) = radmin_tokens name" "radmin_key name \<noteq> []"
    "RedirectSubKey wow64 HKEY_LOCAL_MACHINE (Some (radmin_key name)) = radmin_key name"
    "tokens backslash (radmin_key name) = radmin_tokens name"
proof -
  have "length (radmin_key name) \<le> 511" using assms by (simp add: key_name_def radmin_length)
  moreover show t: "tokens backslash (radmin_key name) = radmin_tokens name"
    using assms by (simp add: key_name_def radmin_key_eq radmin_rest_def radmin_tokens_def tokens_first names_ok
        famatech_parts radmin_parts)
  ultimately show "tokens backslash (take 511 (radmin_key name)) = radmin_tokens name" by simp
  show "radmin_key name \<noteq> []" by (simp add: radmin_key_eq)
  show "RedirectSubKey wow64 HKEY_LOCAL_MACHINE (Some (radmin_key name)) = radmin_key name"
    using redirect_done [of "radmin_rest name"]
    by (cases wow64) (simp_all add: radmin_key_eq wow_prefix_def radmin_rest_def RedirectSubKey_def [of False])
qed

text \<open>What the dump of one key prints; the number of the handle depends on the cache.\<close>

fun folder_lines :: "u32 \<Rightarrow> wstr \<Rightarrow> 'a rtree option \<Rightarrow> dump_line list option" where
  "folder_lines h p None = Some [Cannot_Open 0 p ERROR_FILE_NOT_FOUND]"
| "folder_lines h p (Some (RT a nm vs us)) = do {
     vl \<leftarrow> folder_value_lines 0 vs;
     Some (Opened h # Folder 0 p # vl @ folder_sub_lines p 0 0 us @ [Closed h]) }"

definition sound_tree :: "registry \<Rightarrow> raddr rtree list \<Rightarrow> bool" where
  "sound_tree r ts \<longleftrightarrow> root_tree r (RT (g_regRoot r) None [] ts) \<and> forest_ok ts \<and> plain_names ts \<and>
     rheap r 0 = None \<and> g_regRoot r \<noteq> 0 \<and> coherent r"

lemma sound_same: "sound_tree r ts \<Longrightarrow> same_tree r r' \<Longrightarrow> coherent r' \<Longrightarrow> sound_tree r' ts"
  by (simp add: sound_tree_def same_tree_def root_tree_def)

text \<open>No key below the dumped one is called SOFTWARE, so the repeated path is not found.\<close>

definition no_software :: "'a rtree option \<Rightarrow> bool" where
  "no_software t \<longleftrightarrow> (case t of None \<Rightarrow> True
     | Some u \<Rightarrow> \<forall>v\<in>set (rt_subs u). \<not> icmp_eq (wstr_of (rt_name v)) SOFTWARE)"

lemma folder_missing:
  assumes r: "sound_tree r ts" and n: "key_name name" "forest_find ts (radmin_tokens name) = None"
  shows "folder_dump e r (Task_Folder HKEY_LOCAL_MACHINE (Some (radmin_key name)) 0) =
    Some (r\<lparr>reg_error := ERROR_FILE_NOT_FOUND\<rparr>, [Cannot_Open 0 (radmin_key name) ERROR_FILE_NOT_FOUND])"
proof -
  obtain rk where rk: "rheap r (g_regRoot r) = Some rk" "k_children rk = map rt_addr ts" "forest_at (rheap r) ts"
    "forest_ok ts" "g_regRoot r \<noteq> 0" using r by (auto simp: sound_tree_def root_tree_def)
  have tk: "radmin_tokens name \<noteq> []" by (simp add: radmin_tokens_def)
  have nav: "NavigatePath r (g_regRoot r) (radmin_key name) False = Some (r, 0)"
    using walk_forest [OF rk(3,4,1,2) tk] n(2) radmin_tokens [OF n(1)] by (simp add: NavigatePath_def Let_def)
  have "\<not> is_fake_service (Some (radmin_key name))" using n(1) by (simp add: is_fake_service_def key_name_def)
  then have "hooked_open r HKEY_LOCAL_MACHINE (Some (radmin_key name)) =
      Some (r\<lparr>reg_error := ERROR_FILE_NOT_FOUND\<rparr>, Inl ERROR_FILE_NOT_FOUND)"
    using nav by (simp add: hooked_open_def Hook_RegOpenKeyExW_def Let_def is_root_key_def radmin_tokens(3) [OF n(1)] fail_def)
  then show ?thesis
    by (subst folder_dump.simps) (simp add: hooked_folder_def path_text_def DUMP_ACCESS_DENIED_def ERROR_FILE_NOT_FOUND_def)
qed

lemma folder_found:
  assumes r: "sound_tree r ts" "length (g_fakeKeyTable r) < HANDLE_ROOM" and e: "folder_sys_ok e"
    and n: "key_name name" "forest_find ts (radmin_tokens name) = Some (RT a nm vs us)"
      "no_software (Some (RT a nm vs us))"
    and vl: "folder_value_lines 0 vs = Some vl"
  shows "\<exists>r' h. folder_dump e r (Task_Folder HKEY_LOCAL_MACHINE (Some (radmin_key name)) 0) =
      Some (r', Opened h # Folder 0 (radmin_key name) # vl @ folder_sub_lines (radmin_key name) 0 0 us @ [Closed h]) \<and>
    coherent r' \<and> same_tree r r' \<and> g_fakeKeyTable r' = g_fakeKeyTable r @ [a]"
proof -
  let ?p = "radmin_key name"
  obtain rk where rk: "rheap r (g_regRoot r) = Some rk" "k_children rk = map rt_addr ts" "forest_at (rheap r) ts"
    "forest_ok ts" "plain_names ts" "g_regRoot r \<noteq> 0" "rheap r 0 = None" "coherent r"
    using r by (auto simp: sound_tree_def root_tree_def)
  have part: "forest_at (rheap r) [RT a nm vs us]" "forest_ok [RT a nm vs us]"
    using forest_find_parts [OF n(2) rk(3-5)] by blast+
  then obtain k where k: "rheap r a = Some k" "k_values k = vs" "k_children k = map rt_addr us" "forest_at (rheap r) us"
    "forest_ok us" "list_all value_ok vs" "length vs < 2 ^ 32" "length us < 2 ^ 32" by auto
  have a0: "a \<noteq> 0" using rk(7) k(1) not_null [of "rheap r" a] by blast
  have tk: "radmin_tokens name \<noteq> []" by (simp add: radmin_tokens_def)
  note walk = walk_forest [OF rk(3,4,1,2) tk]
  have nav: "NavigatePath r (g_regRoot r) ?p False = Some (r, a)"
    using walk n(2) radmin_tokens [OF n(1)] rk(6) by (simp add: NavigatePath_def Let_def)
  have res: "resolves r ?p a" using walk n(2) radmin_tokens(4) [OF n(1)] a0 by (simp add: resolves_def)
  obtain r1 h P where g: "give_handle r HKEY_LOCAL_MACHINE ?p a = (r1, h)" "at_handle r1 h a P" "coherent r1"
    "same_tree r r1" "g_fakeKeyTable r1 = g_fakeKeyTable r @ [a]"
    using give_coherent [OF rk(8) r(2) res] by blast
  have "\<not> is_fake_service (Some ?p)" using n(1) by (simp add: is_fake_service_def key_name_def)
  then have "hooked_folder r HKEY_LOCAL_MACHINE (Some ?p) = Some (r1, Inr h)"
    using nav g(1) a0
    by (simp add: hooked_folder_def hooked_open_def Hook_RegOpenKeyExW_def Let_def is_root_key_def radmin_tokens(3) [OF n(1)])
  moreover have hp: "rheap r1 = rheap r" using g(4) by (simp add: same_tree_def)
  have at: "HandleToKey r1 h \<noteq> 0" "h \<noteq> FAKE_SERVICE_KEY" "rheap r1 (HandleToKey r1 h) = Some k"
    using g(2) a0 k(1) hp by (simp_all add: at_handle_def)
  let ?r = "r1\<lparr>reg_error := ERROR_NO_MORE_ITEMS\<rparr>"
  have "folder_values (fd_real e) h r1 (fd_name e) (fd_data e h) 0 = Some (?r, vl)"
    using folder_values_shown [OF at _ _ _ _ _ , of "fd_name e" "fd_data e h" 0 vl "fd_real e"] e vl k(2,6,7)
    by (simp add: folder_sys_ok_def)
  moreover have "find_child (rheap r) (k_children k) SOFTWARE = Some None"
    using find_child_forest [OF k(4,5), of SOFTWARE] n(3) k(3)
    by (auto simp: no_software_def find_None_iff [THEN iffD2])
  then have "folder_ready ?r h a P k 0 us" using g(2) a0 k hp by (simp add: folder_ready_def)
  from folder_subs [OF e radmin_key_eq this, of name 0] obtain x where
    "folder_dump e ?r (Task_Subkeys h (Some ?p) 0 0) = Some (r1\<lparr>reg_error := x\<rparr>, folder_sub_lines ?p 0 0 us)" by auto
  moreover have "Hook_RegCloseKey (fd_real e) (r1\<lparr>reg_error := x\<rparr>) h = Some (r1\<lparr>reg_error := x\<rparr>, Ret ERROR_SUCCESS ())"
    using at(1,2) by (auto simp: Hook_RegCloseKey_def HandleToKey_def split: if_splits)
  ultimately have "folder_dump e r (Task_Folder HKEY_LOCAL_MACHINE (Some ?p) 0) =
      Some (r1\<lparr>reg_error := x\<rparr>, Opened h # Folder 0 ?p # vl @ folder_sub_lines ?p 0 0 us @ [Closed h])"
    by (subst folder_dump.simps) (simp add: path_text_def)
  then show ?thesis using g(3,4,5) by (auto simp: same_tree_def)
qed

text \<open>Either way.\<close>

lemma folder_shown:
  assumes r: "sound_tree r ts" "length (g_fakeKeyTable r) < HANDLE_ROOM" and e: "folder_sys_ok e"
    and n: "key_name name" "no_software (forest_find ts (radmin_tokens name))"
    and ls: "\<And>h. folder_lines h (radmin_key name) (forest_find ts (radmin_tokens name)) \<noteq> None"
  shows "\<exists>r' h ls. folder_dump e r (Task_Folder HKEY_LOCAL_MACHINE (Some (radmin_key name)) 0) = Some (r', ls) \<and>
    folder_lines h (radmin_key name) (forest_find ts (radmin_tokens name)) = Some ls \<and>
    sound_tree r' ts \<and> same_tree r r' \<and> length (g_fakeKeyTable r') \<le> Suc (length (g_fakeKeyTable r))"
proof (cases "forest_find ts (radmin_tokens name)")
  case None
  have "sound_tree (r\<lparr>reg_error := ERROR_FILE_NOT_FOUND\<rparr>) ts"
    by (rule sound_same [OF r(1)]) (use r(1) in \<open>simp_all add: sound_tree_def\<close>)
  then show ?thesis using folder_missing [OF r(1) n(1) None] None by simp
next
  case (Some t)
  obtain a nm vs us where t: "t = RT a nm vs us" by (cases t)
  obtain vl where vl: "folder_value_lines 0 vs = Some vl" using ls Some t by (auto simp: bind_eq_Some)
  have f: "forest_find ts (radmin_tokens name) = Some (RT a nm vs us)" using Some t by simp
  obtain r' h where d: "folder_dump e r (Task_Folder HKEY_LOCAL_MACHINE (Some (radmin_key name)) 0) =
      Some (r', Opened h # Folder 0 (radmin_key name) # vl @ folder_sub_lines (radmin_key name) 0 0 us @ [Closed h])"
    "coherent r'" "same_tree r r'" "g_fakeKeyTable r' = g_fakeKeyTable r @ [a]"
    using folder_found [OF r e n(1) f _ vl] n(2) f by auto
  then show ?thesis using f vl sound_same [OF r(1) d(3,2)] by (intro exI [of _ r'] exI [of _ h]) simp
qed

lemma the_keys: "key_name (str ''Registration'')" "key_name (str ''Proxy'')"
  by (simp_all add: key_name_def radmin_key_def str_def backslash_def contains_def RVPNNETMP_def)

lemma final_dumps_shown:
  assumes r: "sound_tree r ts" "Suc (length (g_fakeKeyTable r)) < HANDLE_ROOM" and e: "folder_sys_ok e"
    and k: "\<And>name h. name \<in> {str ''Registration'', str ''Proxy''} \<Longrightarrow>
      no_software (forest_find ts (radmin_tokens name)) \<and>
      folder_lines h (radmin_key name) (forest_find ts (radmin_tokens name)) \<noteq> None"
  shows "\<exists>r' h1 h2 ls1 ls2. final_dumps e r = Some (r', ls1 @ ls2) \<and>
    folder_lines h1 (radmin_key (str ''Registration'')) (forest_find ts (radmin_tokens (str ''Registration''))) = Some ls1 \<and>
    folder_lines h2 (radmin_key (str ''Proxy'')) (forest_find ts (radmin_tokens (str ''Proxy''))) = Some ls2 \<and>
    sound_tree r' ts \<and> same_tree r r'"
proof -
  have "length (g_fakeKeyTable r) < HANDLE_ROOM" using r(2) by simp
  from folder_shown [OF r(1) this e the_keys(1)] k obtain r1 h1 ls1 where
    d1: "folder_dump e r (Task_Folder HKEY_LOCAL_MACHINE (Some (radmin_key (str ''Registration''))) 0) = Some (r1, ls1)"
    "folder_lines h1 (radmin_key (str ''Registration'')) (forest_find ts (radmin_tokens (str ''Registration''))) = Some ls1"
    "sound_tree r1 ts" "same_tree r r1" "length (g_fakeKeyTable r1) \<le> Suc (length (g_fakeKeyTable r))" by blast
  have "length (g_fakeKeyTable r1) < HANDLE_ROOM" using r(2) d1(5) by simp
  from folder_shown [OF d1(3) this e the_keys(2)] k obtain r2 h2 ls2 where
    d2: "folder_dump e r1 (Task_Folder HKEY_LOCAL_MACHINE (Some (radmin_key (str ''Proxy''))) 0) = Some (r2, ls2)"
    "folder_lines h2 (radmin_key (str ''Proxy'')) (forest_find ts (radmin_tokens (str ''Proxy''))) = Some ls2"
    "sound_tree r2 ts" "same_tree r1 r2" by blast
  show ?thesis using d1 d2 same_tree_trans [OF d1(4) d2(4)]
    by (intro exI [of _ r2] exI [of _ h1] exI [of _ h2] exI [of _ ls1] exI [of _ ls2]) (simp add: final_dumps_def)
qed

section \<open>Behind the start\<close>

text \<open>The dump of the tree leaves handles that agree with it.\<close>

lemma program_tokens_all: "tokens backslash (program_path wow64) = program_tokens wow64"
  using program_tokens_eq [of wow64] names_ok famatech_parts(2-)
  by (simp add: program_path_eq tokens_first)

lemma start_sound:
  assumes r: "root_tree r (RT (g_regRoot r) None [] ts)" "forest_ok ts" "plain_names ts" "g_regRoot r \<noteq> 0" "rheap r 0 = None"
    "g_fakeKeyTable r = []" "g_fakeKeyPaths r = []" "g_handleCache r = []"
    and k: "forest_find ts (program_tokens wow64) = Some (RT a nm vs us)"
    and o: "opened r (a # shown_addrs us) (program_path wow64 # shown_paths (program_path wow64) us) r'"
  shows "sound_tree r' ts"
proof -
  let ?P = "program_path wow64"
  obtain rk where rk: "rheap r (g_regRoot r) = Some rk" "k_children rk = map rt_addr ts" "forest_at (rheap r) ts"
    using r(1) by (auto simp: root_tree_def)
  have part: "forest_at (rheap r) [RT a nm vs us]" "forest_ok [RT a nm vs us]" "plain_names [RT a nm vs us]"
    using forest_find_parts [OF k rk(3) r(2,3)] by blast+
  then obtain ck where ck: "rheap r a = Some ck" "k_children ck = map rt_addr us" "forest_at (rheap r) us"
    "forest_ok us" "plain_names us" by auto
  have a0: "a \<noteq> 0" using r(5) ck(1) not_null [of "rheap r" a] by blast
  have tk: "program_tokens wow64 \<noteq> []" by (simp add: program_tokens_eq)
  have res: "resolves r ?P a"
    using walk_forest [OF rk(3) r(2) rk(1,2) tk] k a0 by (simp add: resolves_def program_tokens_all)
  have "coherent r" using r(6-8) by (simp add: coherent_def)
  moreover have "list_all2 (resolves r) (?P # shown_paths ?P us) (a # shown_addrs us)"
    using res shown_resolves [OF ck(3-5) r(5) res ck(1)] find_child_plain [OF ck(3-5)] ck(2) by simp
  ultimately have "coherent r'" by (rule opened_coherent [OF o])
  moreover have "rheap r' = rheap r" "g_regRoot r' = g_regRoot r" using o by (simp_all add: opened_def)
  ultimately show ?thesis using r by (simp add: sound_tree_def root_tree_def)
qed

lemma folder_sub_forget: "folder_sub_lines p d i (forget us) = folder_sub_lines p d i us"
  by (induction us arbitrary: i) (simp_all add: forget_def)

lemma folder_forget:
  "folder_lines h p (map_option (map_rtree (\<lambda>_. ())) t) = folder_lines h p t"
  "no_software (map_option (map_rtree (\<lambda>_. ())) t) = no_software t"
   apply (cases t; simp; rename_tac u; case_tac u; simp only: folder_lines.simps rtree.map forget_def [symmetric] folder_sub_forget)
  apply (cases t; simp add: no_software_def forget_def)
  done

text \<open>After a restart the two dumps return too, and show the saved keys.\<close>

lemma restart_folders:
  assumes t: "root_tree r (RT (g_regRoot r) None [] ts)" and ok: "forest_ok ts" "length ts < 2 ^ 32" "plain_names ts"
    and saved: "tmp_created env" "moved env" and e: "sys_ok e" "folder_sys_ok fe"
    and key: "forest_find (mirror ts) (program_tokens wow64) = Some (RT a nm vs us)"
    and room: "Suc (Suc (length (shown_addrs us))) < HANDLE_ROOM"
    and fits: "those (map (shown_value []) vs) = Some vl" "tree_lines (ds_strict e) 1 us = Some sl"
    and k: "\<And>name h. name \<in> {str ''Registration'', str ''Proxy''} \<Longrightarrow>
      no_software (forest_find (mirror ts) (radmin_tokens name)) \<and>
      folder_lines h (radmin_key name) (forest_find (mirror ts) (radmin_tokens name)) \<noteq> None"
  shows "\<exists>r1 r2 r3 tl h1 h2 ls1 ls2. AutoSave env r = Some r1 \<and>
    Register_InstallHooks_logged e wow64 (reg_file r1) = Some (r2, tl) \<and> final_dumps fe r2 = Some (r3, ls1 @ ls2) \<and>
    folder_lines h1 (radmin_key (str ''Registration''))
      (forest_find (mirror ts) (radmin_tokens (str ''Registration''))) = Some ls1 \<and>
    folder_lines h2 (radmin_key (str ''Proxy'')) (forest_find (mirror ts) (radmin_tokens (str ''Proxy''))) = Some ls2 \<and>
    same_tree r2 r3"
proof -
  have "length (shown_addrs us) < HANDLE_ROOM" using room by simp
  from restart_dump [OF t ok saved e(1) key this fits] obtain r1 r2 r3 ts2 a2 us2 where
    d: "AutoSave env r = Some r1" "Register_InstallHooks wow64 (reg_file r1) = Some r2"
    "DumpRegistryTree e r2 = Some (r3, T_Start # T_Key [] famatech # vl @ sl @ [T_End])"
    "root_tree r2 (RT (g_regRoot r2) None [] ts2)" "forget ts2 = mirror (forget ts)" "forest_ok ts2" "plain_names ts2"
    "g_regRoot r2 \<noteq> 0" "rheap r2 0 = None" "g_fakeKeyTable r2 = []" "g_fakeKeyPaths r2 = []" "g_handleCache r2 = []"
    "forest_find ts2 (program_tokens wow64) = Some (RT a2 nm vs us2)" "length (shown_addrs us2) = length (shown_addrs us)"
    "opened r2 (a2 # shown_addrs us2) (program_path wow64 # shown_paths (program_path wow64) us2) r3" by blast
  have s: "sound_tree r3 ts2" by (rule start_sound [OF d(4,6-13,15)])
  have n: "Suc (length (g_fakeKeyTable r3)) < HANDLE_ROOM" using d(10,14,15) room by (simp add: opened_def)
  have same: "map_option (map_rtree (\<lambda>_. ())) (forest_find ts2 tk) =
      map_option (map_rtree (\<lambda>_. ())) (forest_find (mirror ts) tk)" for tk
    using forest_find_forget [of ts2 tk] forest_find_forget [of "mirror ts" tk] d(5) by (simp add: mirror_forget)
  have f: "folder_lines h p (forest_find ts2 tk) = folder_lines h p (forest_find (mirror ts) tk)"
    "no_software (forest_find ts2 tk) = no_software (forest_find (mirror ts) tk)" for h p tk
    using same [of tk] folder_forget by metis+
  have k2: "no_software (forest_find ts2 (radmin_tokens name)) \<and>
      folder_lines h (radmin_key name) (forest_find ts2 (radmin_tokens name)) \<noteq> None"
    if "name \<in> {str ''Registration'', str ''Proxy''}" for name h using k [OF that] f by simp
  obtain r4 h1 h2 ls1 ls2 where "final_dumps fe r3 = Some (r4, ls1 @ ls2)"
    "folder_lines h1 (radmin_key (str ''Registration'')) (forest_find ts2 (radmin_tokens (str ''Registration''))) = Some ls1"
    "folder_lines h2 (radmin_key (str ''Proxy'')) (forest_find ts2 (radmin_tokens (str ''Proxy''))) = Some ls2"
    "sound_tree r4 ts2" "same_tree r3 r4"
    using final_dumps_shown [OF s n e(2) k2] by blast
  moreover have "Register_InstallHooks_logged e wow64 (reg_file r1) =
      Some (r3, T_Start # T_Key [] famatech # vl @ sl @ [T_End])"
    using d(2,3) by (simp add: Register_InstallHooks_logged_def)
  ultimately show ?thesis using d(1) f(1) by metis
qed

text \<open>At the first start neither key exists.\<close>

lemma first_folders:
  "\<exists>r ls r'. Register_InstallHooks_logged e wow64 None = Some (r, ls) \<and> final_dumps fe r =
    Some (r', map (\<lambda>name. Cannot_Open 0 (radmin_key name) ERROR_FILE_NOT_FOUND) [str ''Registration'', str ''Proxy'']) \<and>
    reg_inv r \<and> handles_live r"
proof -
  obtain r where r: "Register_InstallHooks wow64 None = Some r" "g_regRoot r \<noteq> 0" "rheap r 0 = None"
    "root_tree r (RT (g_regRoot r) None [] [])" "g_fakeKeyTable r = []" "g_fakeKeyPaths r = []" "g_handleCache r = []"
    by (auto simp: Register_InstallHooks_def CreateKey_def LoadRegistryFromFile_def Let_def ResetHandleTable_def root_tree_def)
  have "forest_find ([] :: raddr rtree list) (program_tokens (g_isWow64 r)) = None" by (simp add: program_tokens_eq)
  from DumpRegistryTree_missing [OF r(2,4) _ this, of e]
  have d: "DumpRegistryTree e r = Some (r\<lparr>reg_error := ERROR_FILE_NOT_FOUND\<rparr>,
      [T_Start, T_Root_Failed famatech ERROR_FILE_NOT_FOUND, T_End])" by simp
  have s: "sound_tree (r\<lparr>reg_error := x\<rparr>) []" for x
    using r by (simp add: sound_tree_def root_tree_def coherent_def)
  have m: "folder_dump fe (r\<lparr>reg_error := x\<rparr>) (Task_Folder HKEY_LOCAL_MACHINE (Some (radmin_key name)) 0) =
      Some (r\<lparr>reg_error := ERROR_FILE_NOT_FOUND\<rparr>, [Cannot_Open 0 (radmin_key name) ERROR_FILE_NOT_FOUND])"
    if "key_name name" for name x
    using folder_missing [OF s that, where e = fe] by (simp add: radmin_tokens_def)
  obtain r0 ls where "Register_InstallHooks_logged e wow64 None = Some (r0, ls)" "reg_inv r0" "handles_live r0"
    using first_start by blast
  moreover have "Register_InstallHooks_logged e wow64 None = Some (r\<lparr>reg_error := ERROR_FILE_NOT_FOUND\<rparr>,
      [T_Start, T_Root_Failed famatech ERROR_FILE_NOT_FOUND, T_End])"
    using r(1) d by (simp add: Register_InstallHooks_logged_def)
  ultimately show ?thesis using m [OF the_keys(1)] m [OF the_keys(2)] by (auto simp: final_dumps_def)
qed

end
