(* ===== verification/Start_Up.thy ===== *)
theory Start_Up
  imports Hook_Install_Properties Bridge_Link Fake_Identity Driver_Properties Config Folder_Dump
begin

text \<open>
  The start of the injected library: \<open>InitDriver\<close> and \<open>run_injection\<close> of src/inject.c, composed from
  the models of the parts.  The dumps of the registry are part of the start, because a dump that does not return
  ends it.  The exception filter and the other lines of the log leave the state alone.
\<close>

section \<open>The process\<close>

record injected =
  hooks :: hstate
  dev :: driver
  registry_of :: "registry option"       \<comment> \<open>None before its initialisation\<close>
  client_of :: tap_client
  g_AppCfg :: app_config_t
  conf_file :: "bytes option"            \<comment> \<open>radmin.conf beside the library\<close>
  ctl :: net

text \<open>What the system answers during the start.\<close>

record start_env =
  st_process :: process_env
  st_wow64 :: bool
  st_regfile :: "bytes option"
  st_dump :: dump_sys                    \<comment> \<open>for the dump of the tree\<close>
  st_folder :: folder_sys                \<comment> \<open>for the dumps of the two keys\<close>
  st_guid_text :: "bytes \<Rightarrow> wstr"
  st_rand :: "nat list"
  st_guid :: "bytes option"
  st_heap :: bool
  st_udp :: udp_answer

definition load_config :: "injected \<Rightarrow> injected \<times> int" where
  "load_config s =
     (let (cfg, written, r) = config_load (conf_file s) in
      (s\<lparr>g_AppCfg := cfg, conf_file := (case written of None \<Rightarrow> conf_file s | Some b \<Rightarrow> Some b),
         dev := (dev s)\<lparr>tap_addr := cfg_tap_addr cfg, tap_port := cfg_tap_port cfg\<rparr>\<rparr>, r))"

definition InitDriver :: "injected \<Rightarrow> injected \<times> int" where
  "InitDriver s =
     (let (s, r) = load_config s in
      if r \<noteq> 0 then (s, - 1)
      else (let (c, r) = TapClientInit (cfg_tap_addr (g_AppCfg s)) (cfg_tap_port (g_AppCfg s)) (client_of s);
                s = s\<lparr>client_of := c\<rparr> in
            if r < 0 then (s, - 1)
            else (s\<lparr>dev := (dev s)\<lparr>g_isAnyTAPDriverActive := True\<rparr>\<rparr>, 0)))"

definition start_identity :: "start_env \<Rightarrow> injected \<Rightarrow> injected option" where
  "start_identity e s = do {
     (i, n) \<leftarrow> InitFakeMac (st_guid_text e) (st_rand e) (st_guid e) (client_of s) (st_heap e) (st_udp e)
                 (ident (dev s)) (ctl s);
     Some (s\<lparr>dev := (dev s)\<lparr>ident := i\<rparr>, ctl := n\<rparr>) }"

text \<open>\<open>Register_InstallHooks\<close> runs inside \<open>EmulateDriverRunning_InstallHooks\<close>; the registry shares no
  state with the patches, so it stands behind them here.\<close>

definition run_injection :: "start_env \<Rightarrow> u32 \<Rightarrow> injected \<Rightarrow> injected option" where
  "run_injection e hOriginal s = do {
     hs \<leftarrow> InstallHooks (st_process e) (hooks s);
     hs \<leftarrow> EmulateDriverRunning_InstallHooks (st_process e) hOriginal hs;
     (r, _) \<leftarrow> Register_InstallHooks_logged (st_dump e) (st_wow64 e) (st_regfile e);
     let s = s\<lparr>hooks := hs, registry_of := Some r\<rparr>;
     let (s, _) = InitDriver s;
     s \<leftarrow> start_identity e s;
     (r, _) \<leftarrow> final_dumps (st_folder e) r;
     Some (s\<lparr>registry_of := Some r\<rparr>) }"

section \<open>The start brings everything up\<close>

lemma config_load_ret: "config_load f = (fst (config_load f), fst (snd (config_load f)), 0)"
  by (simp add: config_load_def split: option.split)

lemma InitDriver_eq:
  "InitDriver s =
     (let cfg = fst (config_load (conf_file s)) in
      (s\<lparr>g_AppCfg := cfg,
         conf_file := (case fst (snd (config_load (conf_file s))) of None \<Rightarrow> conf_file s | Some b \<Rightarrow> Some b),
         dev := (dev s)\<lparr>tap_addr := cfg_tap_addr cfg, tap_port := cfg_tap_port cfg, g_isAnyTAPDriverActive := True\<rparr>,
         client_of := (client_of s)\<lparr>g_bridge_ip := take 63 (cfg_tap_addr cfg), g_bridge_port := cfg_tap_port cfg,
           g_active := True\<rparr>\<rparr>, 0))"
  unfolding InitDriver_def load_config_def
  by (subst config_load_ret) (simp add: TapClientInit_def Let_def)


definition some_folder_sys :: folder_sys where
  "some_folder_sys = \<lparr>fd_real = True, fd_name = replicate MAX_VALUE_NAME 65, fd_data = \<lambda>_. replicate MAX_VALUE_DATA 1,
     fd_sub = \<lambda>_. replicate MAX_KEY_NAME 66\<rparr>"

text \<open>A process with the module of the example and no files.\<close>

definition start_env0 :: start_env where
  "start_env0 = \<lparr>st_process = demo_env, st_wow64 = False, st_regfile = None, st_dump = some_sys,
     st_folder = some_folder_sys, st_guid_text = \<lambda>_. [],
     st_rand = [1, 2, 3, 4], st_guid = Some (replicate 16 0), st_heap = True, st_udp = Sent\<rparr>"

definition injected0 :: injected where
  "injected0 = \<lparr>hooks = demo_state, dev = driver_initial identity_initial quiet, registry_of = None,
     client_of = tap_client_initial, g_AppCfg = config_defaults, conf_file = None,
     ctl = \<lparr>wire = [], open_sockets = 0\<rparr>\<rparr>"


end
