(* ===== verification/System_Hooks.thy ===== *)
theory System_Hooks
  imports Driver_Hooks
begin

text \<open>
  The hooks of src/emulate_driver_running.c for the service manager, SetupDi, the security
  functions and the waits.  The functions they replace are parameters; a hook that calls one
  through its pointer gets the pointer, None when it is null, and a call through a null pointer
  is the result None.
\<close>

section \<open>Services\<close>

record service_status =
  ss_dwServiceType :: u32
  ss_dwCurrentState :: u32
  ss_dwControlsAccepted :: u32
  ss_dwWin32ExitCode :: u32
  ss_dwServiceSpecificExitCode :: u32
  ss_dwCheckPoint :: u32
  ss_dwWaitHint :: u32

definition SERVICE_RUNNING :: u32 where "SERVICE_RUNNING = 4"
definition SERVICE_KERNEL_DRIVER :: u32 where "SERVICE_KERNEL_DRIVER = 1"
definition SERVICE_SYSTEM_START :: u32 where "SERVICE_SYSTEM_START = 1"
definition SERVICE_ERROR_NORMAL :: u32 where "SERVICE_ERROR_NORMAL = 1"
definition ERROR_ACCESS_DENIED :: u32 where "ERROR_ACCESS_DENIED = 5"

definition service_status_zero :: service_status where
  "service_status_zero = \<lparr>ss_dwServiceType = 0, ss_dwCurrentState = 0, ss_dwControlsAccepted = 0,
     ss_dwWin32ExitCode = 0, ss_dwServiceSpecificExitCode = 0, ss_dwCheckPoint = 0, ss_dwWaitHint = 0\<rparr>"

text \<open>The structure pointed to, None for a null pointer; the handle is not looked at.\<close>

definition Hook_QueryServiceStatus :: "u32 \<Rightarrow> service_status option \<Rightarrow> bool \<times> service_status option" where
  "Hook_QueryServiceStatus hService lpServiceStatus =
     (True, map_option (\<lambda>_. service_status_zero\<lparr>ss_dwCurrentState := SERVICE_RUNNING\<rparr>) lpServiceStatus)"

record service_config =
  sc_dwServiceType :: u32
  sc_dwStartType :: u32
  sc_dwErrorControl :: u32
  sc_lpBinaryPathName :: "wstr option"
  sc_lpLoadOrderGroup :: "wstr option"
  sc_dwTagId :: u32
  sc_lpDependencies :: "wstr option"
  sc_lpServiceStartName :: "wstr option"
  sc_lpDisplayName :: "wstr option"

definition sizeof_QUERY_SERVICE_CONFIGW :: u32 where "sizeof_QUERY_SERVICE_CONFIGW = 36"

definition fakePath :: wstr where
  "fakePath = 92 # str ''SystemRoot'' @ 92 # str ''System32'' @ 92 # str ''drivers'' @ 92 # str ''rvpnnetmp.sys''"

text \<open>Result: the return value, the structure written, \<open>*pcbBytesNeeded\<close> and the last error set.\<close>

definition Hook_QueryServiceConfigW ::
    "u32 \<Rightarrow> bool \<Rightarrow> u32 \<Rightarrow> bool \<Rightarrow> bool \<times> service_config option \<times> u32 option \<times> u32 option" where
  "Hook_QueryServiceConfigW hService lpServiceConfig cbBufSize pcbBytesNeeded =
     (let needed = (if pcbBytesNeeded then Some sizeof_QUERY_SERVICE_CONFIGW else None) in
      if lpServiceConfig \<and> cbBufSize \<ge> sizeof_QUERY_SERVICE_CONFIGW then
        (True,
         Some \<lparr>sc_dwServiceType = SERVICE_KERNEL_DRIVER, sc_dwStartType = SERVICE_SYSTEM_START,
               sc_dwErrorControl = SERVICE_ERROR_NORMAL, sc_lpBinaryPathName = Some fakePath,
               sc_lpLoadOrderGroup = Some (str ''NDIS''), sc_dwTagId = 0, sc_lpDependencies = None,
               sc_lpServiceStartName = None, sc_lpDisplayName = None\<rparr>,
         needed, None)
      else (False, None, needed, Some ERROR_INSUFFICIENT_BUFFER))"

text \<open>The handle and the last error set.\<close>

definition Hook_OpenSCManagerW ::
    "(wstr option \<Rightarrow> wstr option \<Rightarrow> u32 \<Rightarrow> u32) option \<Rightarrow> wstr option \<Rightarrow> wstr option \<Rightarrow> u32 \<Rightarrow> u32 \<times> u32 option" where
  "Hook_OpenSCManagerW Real_OpenSCManagerW lpMachineName lpDatabaseName dwDesiredAccess =
     (case Real_OpenSCManagerW of
        Some f \<Rightarrow> (f lpMachineName lpDatabaseName dwDesiredAccess, None)
      | None \<Rightarrow> (0, Some ERROR_ACCESS_DENIED))"

definition fake_service_handle :: u32 where "fake_service_handle = 0xBEEF0002"

definition radmin_service :: "wstr option \<Rightarrow> bool" where
  "radmin_service name = (case name of None \<Rightarrow> False
     | Some n \<Rightarrow> contains n (str ''RVPNNETMP'') \<or> contains n (str ''RadminVPN''))"

definition Hook_OpenServiceW ::
    "(u32 \<Rightarrow> wstr option \<Rightarrow> u32 \<Rightarrow> u32) option \<Rightarrow> u32 \<Rightarrow> wstr option \<Rightarrow> u32 \<Rightarrow> u32" where
  "Hook_OpenServiceW Real_OpenServiceW hSCManager lpServiceName dwDesiredAccess =
     (if radmin_service lpServiceName then fake_service_handle
      else (case Real_OpenServiceW of Some f \<Rightarrow> f hSCManager lpServiceName dwDesiredAccess | None \<Rightarrow> 0))"

definition Hook_StartServiceW :: "u32 \<Rightarrow> u32 \<Rightarrow> bool" where
  "Hook_StartServiceW hService dwNumServiceArgs = True"

text \<open>The answers of the token functions, and the tokens still open at the end.\<close>

record token_env =
  te_open :: bool
  te_lookup :: bool
  te_adjust :: bool
  te_error :: u32          \<comment> \<open>\<open>GetLastError\<close> after \<open>AdjustTokenPrivileges\<close>\<close>

definition EnableRestorePrivilege :: "token_env \<Rightarrow> int \<Rightarrow> bool \<times> int" where
  "EnableRestorePrivilege e open_tokens =
     (if \<not> te_open e then (False, open_tokens)
      else (let open_tokens = open_tokens + 1 in
        if \<not> te_lookup e then (False, open_tokens - 1)
        else (te_adjust e \<and> te_error e = 0, open_tokens - 1)))"

section \<open>SetupDi\<close>

record devinfo =
  cbSize :: u32
  ClassGuid :: bytes
  DevInst :: u32
  dev_Reserved :: u32

definition FAKE_DEVICE_TAG :: u32 where "FAKE_DEVICE_TAG = 0x5250564E"
definition SPDRP_HARDWAREID :: u32 where "SPDRP_HARDWAREID = 1"
definition ERROR_NOT_FOUND :: u32 where "ERROR_NOT_FOUND = 1168"
definition ERROR_NO_MORE_ITEMS :: u32 where "ERROR_NO_MORE_ITEMS = 259"

definition fake_device :: devinfo where
  "fake_device = \<lparr>cbSize = 28, ClassGuid = replicate 16 0, DevInst = 0, dev_Reserved = FAKE_DEVICE_TAG\<rparr>"

definition Hook_SetupDiGetClassDevsW :: "('a \<Rightarrow> 'h) option \<Rightarrow> 'a \<Rightarrow> 'h option" where
  "Hook_SetupDiGetClassDevsW Real_SetupDiGetClassDevsW args = map_option (\<lambda>f. f args) Real_SetupDiGetClassDevsW"

text \<open>An enumeration answers TRUE with a device or FALSE with an error.\<close>

definition Hook_SetupDiEnumDeviceInfo ::
    "(u32 \<Rightarrow> u32 + devinfo) option \<Rightarrow> u32 \<Rightarrow> bool \<Rightarrow> (u32 + devinfo) option" where
  "Hook_SetupDiEnumDeviceInfo Real_SetupDiEnumDeviceInfo MemberIndex DeviceInfoData =
     (if MemberIndex = 0 then
        (if \<not> DeviceInfoData then Some (Inl ERROR_INVALID_PARAMETER) else Some (Inr fake_device))
      else map_option (\<lambda>f. f (MemberIndex - 1)) Real_SetupDiEnumDeviceInfo)"

definition fakeHwid :: wstr where "fakeHwid = str ''rvpnnetmp'' @ [0]"

definition wide_bytes :: "wstr \<Rightarrow> bytes" where
  "wide_bytes s = concat (map (\<lambda>c. [ucast c, ucast (drop_bit 8 c)]) s)"

text \<open>A property answer: the bytes written and the type, or the error; \<open>*RequiredSize\<close> in both cases.\<close>

record property_reply =
  pr_written :: "(bytes \<times> u32) option"
  pr_error :: "u32 option"
  pr_required :: "u32 option"

datatype property_result = Real_Property | Own_Property property_reply

definition Hook_SetupDiGetDeviceRegistryPropertyW ::
    "devinfo option \<Rightarrow> u32 \<Rightarrow> u32 \<Rightarrow> bool \<Rightarrow> property_result" where
  "Hook_SetupDiGetDeviceRegistryPropertyW DeviceInfoData dwProperty PropertyBufferSize RequiredSize =
     (case DeviceInfoData of
        Some info \<Rightarrow>
          if dev_Reserved info = FAKE_DEVICE_TAG then
            Own_Property
              (if dwProperty = SPDRP_HARDWAREID then
                 (let neededBytes = of_nat (length (wide_bytes fakeHwid));
                      req = (if RequiredSize then Some neededBytes else None) in
                  if PropertyBufferSize \<ge> neededBytes
                  then \<lparr>pr_written = Some (wide_bytes fakeHwid, 1), pr_error = None, pr_required = req\<rparr>
                  else \<lparr>pr_written = None, pr_error = Some ERROR_INSUFFICIENT_BUFFER, pr_required = req\<rparr>)
               else \<lparr>pr_written = None, pr_error = Some ERROR_NOT_FOUND, pr_required = None\<rparr>)
          else Real_Property
      | None \<Rightarrow> Real_Property)"

section \<open>Security descriptors\<close>

text \<open>The build with SECURITY_HOOKS_REAL 1: log and call.\<close>

definition call_real :: "('a \<Rightarrow> 'r) option \<Rightarrow> 'a \<Rightarrow> 'r option" where
  "call_real real args = map_option (\<lambda>f. f args) real"

definition Hook_InitializeSecurityDescriptor :: "('s \<times> u32 \<Rightarrow> 'r) option \<Rightarrow> 's \<Rightarrow> u32 \<Rightarrow> 'r option" where
  "Hook_InitializeSecurityDescriptor real pSD dwRevision = call_real real (pSD, dwRevision)"

definition Hook_InitializeAcl :: "('a \<times> u32 \<times> u32 \<Rightarrow> 'r) option \<Rightarrow> 'a \<Rightarrow> u32 \<Rightarrow> u32 \<Rightarrow> 'r option" where
  "Hook_InitializeAcl real pAcl nAclLength dwAclRevision = call_real real (pAcl, nAclLength, dwAclRevision)"

definition Hook_GetLengthSid :: "('sid \<Rightarrow> u32) option \<Rightarrow> 'sid \<Rightarrow> u32 option" where
  "Hook_GetLengthSid real pSid = call_real real pSid"

definition Hook_IsValidSid :: "('sid \<Rightarrow> bool) option \<Rightarrow> 'sid \<Rightarrow> bool option" where
  "Hook_IsValidSid real pSid = call_real real pSid"

definition Hook_AddAccessAllowedAce ::
    "('a \<times> u32 \<times> u32 \<times> 'sid \<Rightarrow> 'r) option \<Rightarrow> 'a \<Rightarrow> u32 \<Rightarrow> u32 \<Rightarrow> 'sid \<Rightarrow> 'r option" where
  "Hook_AddAccessAllowedAce real pAcl dwAceRevision AccessMask pSid =
     call_real real (pAcl, dwAceRevision, AccessMask, pSid)"

definition Hook_SetSecurityDescriptorDacl ::
    "('s \<times> bool \<times> 'a \<times> bool \<Rightarrow> 'r) option \<Rightarrow> 's \<Rightarrow> bool \<Rightarrow> 'a \<Rightarrow> bool \<Rightarrow> 'r option" where
  "Hook_SetSecurityDescriptorDacl real pSD bDaclPresent pDacl bDaclDefaulted =
     call_real real (pSD, bDaclPresent, pDacl, bDaclDefaulted)"

definition Hook_SetSecurityDescriptorOwner ::
    "('s \<times> 'sid \<times> bool \<Rightarrow> 'r) option \<Rightarrow> 's \<Rightarrow> 'sid \<Rightarrow> bool \<Rightarrow> 'r option" where
  "Hook_SetSecurityDescriptorOwner real pSD pOwner bOwnerDefaulted = call_real real (pSD, pOwner, bOwnerDefaulted)"

definition Hook_IsValidSecurityDescriptor :: "('s \<Rightarrow> bool) option \<Rightarrow> 's \<Rightarrow> bool option" where
  "Hook_IsValidSecurityDescriptor real pSD = call_real real pSD"

text \<open>These never call the real function; the arguments are left as they are.\<close>

definition Hook_AddAccessDeniedAce :: "'a \<Rightarrow> u32 \<Rightarrow> u32 \<Rightarrow> 'sid \<Rightarrow> 'a \<times> bool" where
  "Hook_AddAccessDeniedAce pAcl dwAceRevision AccessMask pSid = (pAcl, True)"

definition Hook_FreeSid :: "'sid list \<Rightarrow> 'sid \<Rightarrow> 'sid list \<times> u32" where
  \<comment> \<open>the SIDs allocated, and the null pointer\<close>
  "Hook_FreeSid allocated pSid = (allocated, 0)"

definition Hook_SetSecurityInfo :: "'dacl \<Rightarrow> 'dacl \<Rightarrow> 'dacl \<times> u32" where
  \<comment> \<open>the DACL of the object and the status\<close>
  "Hook_SetSecurityInfo old pDacl = (old, 0)"

section \<open>Waiting and ending\<close>

datatype wait = Blocks_Forever | Wait_Returns u32

definition INFINITE :: u32 where "INFINITE = 0xFFFFFFFF"
definition WAIT_OBJECT_0 :: u32 where "WAIT_OBJECT_0 = 0"

text \<open>\<open>g_NeverSignaledEvent\<close>, 0 before its creation; \<open>created\<close> is the answer of \<open>CreateEventW\<close>.\<close>

definition GetNeverSignaledEvent :: "u32 \<Rightarrow> u32 \<Rightarrow> u32 \<times> u32" where
  "GetNeverSignaledEvent created g_NeverSignaledEvent =
     (let ev = (if g_NeverSignaledEvent = 0 then created else g_NeverSignaledEvent) in (ev, ev))"

definition Hook_WaitForSingleObject ::
    "(u32 \<Rightarrow> u32 \<Rightarrow> wait) \<Rightarrow> u32 \<Rightarrow> driver \<Rightarrow> u32 \<Rightarrow> u32 \<Rightarrow> u32 \<Rightarrow> u32 \<times> wait" where
  "Hook_WaitForSingleObject real created d g_NeverSignaledEvent hHandle dwMilliseconds =
     (if GetHandleContext d hHandle \<noteq> None then
        (let (ev, h) = GetNeverSignaledEvent created g_NeverSignaledEvent in
         (ev, (case real h INFINITE of
                 Blocks_Forever \<Rightarrow> Blocks_Forever
               | Wait_Returns _ \<Rightarrow> Wait_Returns WAIT_OBJECT_0)))
      else (g_NeverSignaledEvent, real hHandle dwMilliseconds))"

definition Hook_ExitProcess :: "(u32 \<Rightarrow> 'r) option \<Rightarrow> u32 \<Rightarrow> 'r option" where
  "Hook_ExitProcess real uExitCode = call_real real uExitCode"

definition Hook_TerminateProcess :: "(u32 \<times> u32 \<Rightarrow> 'r) option \<Rightarrow> u32 \<Rightarrow> u32 \<Rightarrow> 'r option" where
  "Hook_TerminateProcess real hProcess uExitCode = call_real real (hProcess, uExitCode)"

section \<open>What the service sees\<close>

text \<open>The loop of a client over the devices of a set, from an index up to the first failure.\<close>

partial_function (option) enum_devices :: "(u32 \<Rightarrow> (u32 + devinfo) option) \<Rightarrow> u32 \<Rightarrow> devinfo list option" where
  "enum_devices next i = do {
     r \<leftarrow> next i;
     (case r of
        Inl _ \<Rightarrow> Some []
      | Inr d \<Rightarrow> do { ds \<leftarrow> enum_devices next (i + 1); Some (d # ds) }) }"

text \<open>The documented behaviour of the real function: the devices of the set by their index.\<close>

definition enum_of :: "devinfo list \<Rightarrow> u32 \<Rightarrow> u32 + devinfo" where
  "enum_of devs i = (if unat i < length devs then Inr (devs ! unat i) else Inl ERROR_NO_MORE_ITEMS)"

lemma enum_devices_real:
  assumes "length devs < 2 ^ 32 - 1" "i \<le> length devs"
  shows "enum_devices (\<lambda>k. Hook_SetupDiEnumDeviceInfo (Some (enum_of devs)) k True) (of_nat (Suc i)) = Some (drop i devs)"
  using assms(2)
proof (induction "length devs - i" arbitrary: i)
  case 0
  then have i: "i = length devs" by simp
  have u: "unat (of_nat i :: u32) = i" using i assms(1) by (simp add: unat_of_nat_u32)
  have n: "of_nat (Suc i) \<noteq> (0 :: u32)"
    using assms(1) i by (metis of_nat_0 Zero_not_Suc unat_of_nat_u32 unat_0 Suc_less_eq less_diff_conv add.commute plus_1_eq_Suc)
  show ?case
    using n u i by (subst enum_devices.simps) (simp add: Hook_SetupDiEnumDeviceInfo_def enum_of_def)
next
  case (Suc k)
  then have lt: "i < length devs" by simp
  have u: "unat (of_nat i :: u32) = i" using lt assms(1) by (intro unat_of_nat_u32) simp
  have u': "unat (of_nat (Suc i) :: u32) = Suc i" using lt assms(1) by (intro unat_of_nat_u32) simp
  have n: "of_nat (Suc i) \<noteq> (0 :: u32)" using u' by (metis Zero_not_Suc unat_0)
  have "enum_devices (\<lambda>k. Hook_SetupDiEnumDeviceInfo (Some (enum_of devs)) k True) (of_nat (Suc (Suc i))) = Some (drop (Suc i) devs)"
    using Suc(1) [of "Suc i"] Suc(2,3) by simp
  then show ?case
    using n u lt by (subst enum_devices.simps)
      (simp add: Hook_SetupDiEnumDeviceInfo_def enum_of_def add.commute Cons_nth_drop_Suc)
qed

text \<open>A client that enumerates the network devices through the hook gets the list a driver's
  installation would give: the fake adapter first, then every real device once, in order; the
  loop ends.\<close>

theorem setupdi_lists_fake_first:
  assumes "length devs < 2 ^ 32 - 1"
  shows "enum_devices (\<lambda>k. Hook_SetupDiEnumDeviceInfo (Some (enum_of devs)) k True) 0 = Some (fake_device # devs)"
  using enum_devices_real [OF assms, of 0]
  by (subst enum_devices.simps) (simp add: Hook_SetupDiEnumDeviceInfo_def)

definition some_device :: devinfo where
  "some_device = \<lparr>cbSize = 28, ClassGuid = replicate 16 7, DevInst = 3, dev_Reserved = 0x1234\<rparr>"

theorem setupdi_lists_fake_first_witness:
  "enum_devices (\<lambda>k. Hook_SetupDiEnumDeviceInfo (Some (enum_of [some_device])) k True) 0 = Some [fake_device, some_device]"
  using setupdi_lists_fake_first [of "[some_device]"] by simp

text \<open>The hardware identifier of an enumerated device: for the fake one the 20 bytes of the wide
  string rvpnnetmp with its terminator when the buffer has room, otherwise the size needed and
  ERROR_INSUFFICIENT_BUFFER, so that a second call with that size succeeds; a real device is
  asked the real function.\<close>

theorem hardware_id_two_calls:
  "Hook_SetupDiGetDeviceRegistryPropertyW (Some fake_device) SPDRP_HARDWAREID 0 True =
     Own_Property \<lparr>pr_written = None, pr_error = Some ERROR_INSUFFICIENT_BUFFER, pr_required = Some 20\<rparr> \<and>
   Hook_SetupDiGetDeviceRegistryPropertyW (Some fake_device) SPDRP_HARDWAREID 20 True =
     Own_Property \<lparr>pr_written = Some (wide_bytes fakeHwid, 1), pr_error = None, pr_required = Some 20\<rparr> \<and>
   length (wide_bytes fakeHwid) = 20 \<and>
   (if dev_Reserved d = FAKE_DEVICE_TAG then True
    else Hook_SetupDiGetDeviceRegistryPropertyW (Some d) p n r = Real_Property)"
  by (simp add: Hook_SetupDiGetDeviceRegistryPropertyW_def fake_device_def wide_bytes_def fakeHwid_def Let_def)

text \<open>The service manager: a service whose name mentions the driver opens without being asked, its
  status is running and its configuration that of the kernel driver, whatever the handle; the
  status of any other service is reported as running too.\<close>

theorem services_look_running:
  "Hook_OpenServiceW (Some f) scm name acc =
     (if radmin_service name then fake_service_handle else f scm name acc) \<and>
   Hook_QueryServiceStatus hs (Some old) =
     (True, Some (service_status_zero\<lparr>ss_dwCurrentState := SERVICE_RUNNING\<rparr>)) \<and>
   (\<exists>c. Hook_QueryServiceConfigW hs True sizeof_QUERY_SERVICE_CONFIGW True =
        (True, Some c, Some sizeof_QUERY_SERVICE_CONFIGW, None) \<and>
      sc_dwServiceType c = SERVICE_KERNEL_DRIVER \<and> sc_lpBinaryPathName c = Some fakePath) \<and>
   fst (snd (Hook_QueryServiceConfigW hs True 0 True)) = None"
  by (simp add: Hook_OpenServiceW_def Hook_QueryServiceStatus_def Hook_QueryServiceConfigW_def
      sizeof_QUERY_SERVICE_CONFIGW_def)

lemma EnableRestorePrivilege_closes: "snd (EnableRestorePrivilege e n) = n"
  by (simp add: EnableRestorePrivilege_def Let_def)

section \<open>Access control through the hooks\<close>

text \<open>An access list by its entries, with the documented effect of the real \<open>AddAccessAllowedAce\<close>.\<close>

datatype ace = Allow u32 nat | Deny u32 nat

definition real_allow :: "ace list \<times> u32 \<times> u32 \<times> nat \<Rightarrow> ace list \<times> bool" where
  "real_allow x = (case x of (acl, revision, rights, sid) \<Rightarrow> (acl @ [Allow rights sid], True))"

definition add_ace :: "ace \<Rightarrow> ace list \<Rightarrow> (ace list \<times> bool) option" where
  "add_ace a acl = (case a of
     Allow rights sid \<Rightarrow> Hook_AddAccessAllowedAce (Some real_allow) acl 2 rights sid
   | Deny rights sid \<Rightarrow> Some (Hook_AddAccessDeniedAce acl 2 rights sid))"

fun build_acl :: "ace list \<Rightarrow> ace list \<Rightarrow> ace list option" where
  "build_acl [] acl = Some acl"
| "build_acl (a # as) acl = do {
     (acl, ok) \<leftarrow> add_ace a acl;
     if ok then build_acl as acl else None }"

fun is_allow :: "ace \<Rightarrow> bool" where
  "is_allow (Allow m s) = True"
| "is_allow (Deny m s) = False"

text \<open>An access list built through the hooks silently loses every entry that denies access:
  each call reports success, but the list has only the entries that allow.\<close>

theorem acl_loses_denials: "build_acl as acl = Some (acl @ filter is_allow as)"
proof (induction as arbitrary: acl)
  case (Cons a as)
  then show ?case
    by (cases a) (simp_all add: add_ace_def Hook_AddAccessAllowedAce_def Hook_AddAccessDeniedAce_def
        call_real_def real_allow_def)
qed simp

section \<open>Waits\<close>

text \<open>A wait on an open device handle never returns, whatever the timeout, also a timeout of zero,
  because the event waited for instead is never signalled; it is created once.  A wait on any
  other handle is the real one.\<close>

theorem device_wait_blocks:
  assumes "real (if g = 0 then created else g) INFINITE = Blocks_Forever"
  shows "snd (Hook_WaitForSingleObject real created d g hs ms) =
     (if GetHandleContext d hs \<noteq> None then Blocks_Forever else real hs ms) \<and>
   fst (Hook_WaitForSingleObject real created d g hs ms) =
     (if GetHandleContext d hs \<noteq> None \<and> g = 0 then created else g)"
  using assms by (cases "g = 0") (simp_all add: Hook_WaitForSingleObject_def GetNeverSignaledEvent_def)

theorem device_wait_blocks_witness:
  "\<exists>d. Hook_WaitForSingleObject (\<lambda>k t. if k = 0x77 then Blocks_Forever else Wait_Returns 258) 0x77
      d 0 0x1001 0 = (0x77, Blocks_Forever) \<and>
     Hook_WaitForSingleObject (\<lambda>k t. if k = 0x77 then Blocks_Forever else Wait_Returns 258) 0x77
      d 0x77 0x1002 0 = (0x77, Wait_Returns 258)"
proof -
  fix i l
  let ?d = "(driver_initial i l)\<lparr>g_HandleList := [new_ctx 0x1001]\<rparr>"
  let ?real = "\<lambda>k (t :: u32). if k = (0x77 :: u32) then Blocks_Forever else Wait_Returns 258"
  have d: "GetHandleContext ?d 0x1001 \<noteq> None" "GetHandleContext ?d 0x1002 = None"
    by (simp_all add: GetHandleContext_def new_ctx_def)
  have "Hook_WaitForSingleObject ?real 0x77 ?d 0 0x1001 0 = (0x77, Blocks_Forever)"
    using device_wait_blocks [of ?real 0 "0x77" ?d "0x1001" 0] d by (intro prod_eqI) simp_all
  moreover have "Hook_WaitForSingleObject ?real 0x77 ?d 0x77 0x1002 0 = (0x77, Wait_Returns 258)"
    using device_wait_blocks [of ?real "0x77" "0x77" ?d "0x1002" 0] d by (intro prod_eqI) simp_all
  ultimately show ?thesis by blast
qed

end
