(* ===== verification/Netsh.thy ===== *)
theory Netsh
  imports C_Strings Tap_Protocol
begin

text \<open>
  The interception of netsh in src/emulate_driver_running.c: the service configures its
  adapter by starting netsh; the hook of CreateProcessW parses the command line, keeps the
  settings in the globals that describe the fake adapter, and forwards them to the bridge.
  Strings are wide; the conversion to the ANSI code page and \<open>inet_pton\<close> belong to Windows and
  are the fields of \<open>winsys\<close>.
\<close>

section \<open>State\<close>

datatype netcon_status = NCS_DISCONNECTED | NCS_CONNECTED

record NetshConfig =
  interfaceName :: wstr
  newName :: wstr
  address :: wstr
  mask :: wstr
  gateway :: wstr
  nexthop :: wstr
  route_prefix :: wstr
  metric :: int
  gwmetric :: int
  hasAddress :: bool
  hasMask :: bool
  hasGateway :: bool
  hasNexthop :: bool
  hasMetric :: bool
  hasPrefix :: bool
  enableAdapter :: bool
  disableAdapter :: bool
  enableIPv4 :: bool
  hasNewName :: bool

definition config_zero :: NetshConfig where
  "config_zero = \<lparr>interfaceName = str ''Radmin VPN'', newName = [], address = [], mask = [],
     gateway = [], nexthop = [], route_prefix = [], metric = 0, gwmetric = 0,
     hasAddress = False, hasMask = False, hasGateway = False, hasNexthop = False,
     hasMetric = False, hasPrefix = False, enableAdapter = False, disableAdapter = False,
     enableIPv4 = False, hasNewName = False\<rparr>"

record fake_adapter =
  fake_FriendlyName :: wstr
  g_FakeConnectionStatus :: netcon_status
  fake_ipAddress :: wstr
  g_fakeIPv6Address :: wstr
  g_hasIPv6Address :: bool
  fake_ipSubnet :: wstr
  fake_gateway :: wstr
  g_LastNetshConfig :: NetshConfig

definition adapter_initial :: fake_adapter where
  "adapter_initial =
     \<lparr>fake_FriendlyName = str ''Radmin VPN Adapter'', g_FakeConnectionStatus = NCS_DISCONNECTED,
      fake_ipAddress = str ''26.0.0.2'', g_fakeIPv6Address = str ''fdfd::0000:0002'',
      g_hasIPv6Address = False, fake_ipSubnet = str ''255.0.0.0'', fake_gateway = str ''26.0.0.1'',
      g_LastNetshConfig = config_zero\<rparr>"

record winsys =
  to_ansi :: "wstr \<Rightarrow> bytes"                \<comment> \<open>\<open>WideCharToMultiByte(CP_ACP)\<close>\<close>
  pton4 :: "bytes \<Rightarrow> bytes option"         \<comment> \<open>\<open>inet_pton(AF_INET)\<close>, None unless it returns 1\<close>
  pton6 :: "bytes \<Rightarrow> bytes option"

section \<open>Netmasks\<close>

text \<open>\<open>%u\<close> of \<open>swscanf_s\<close>: white space, an optional sign, digits; the value is kept modulo
  \<open>2^32\<close>.\<close>

fun skip_digits :: "'w::len word list \<Rightarrow> 'w word list" where
  "skip_digits [] = []"
| "skip_digits (c # s) = (if is_digit c then skip_digits s else c # s)"

definition scan_u :: "wstr \<Rightarrow> (u32 \<times> wstr) option" where
  "scan_u s =
     (let s = dropWhile is_space s;
          neg = (s \<noteq> [] \<and> s ! 0 = 45);
          s = (if s \<noteq> [] \<and> (s ! 0 = 45 \<or> s ! 0 = 43) then tl s else s) in
      if s = [] \<or> \<not> is_digit (s ! 0) then None
      else (let v = of_int (digits_value 0 s) in
            Some (if neg then - v else v, skip_digits s)))"

definition scan_dot :: "wstr \<Rightarrow> wstr option" where
  "scan_dot s = (case s of [] \<Rightarrow> None | c # r \<Rightarrow> if c = 46 then Some r else None)"

definition scan_octets :: "wstr \<Rightarrow> (u32 \<times> u32 \<times> u32 \<times> u32) option" where
  "scan_octets s = do {
     (a, s) \<leftarrow> scan_u s; s \<leftarrow> scan_dot s;
     (b, s) \<leftarrow> scan_u s; s \<leftarrow> scan_dot s;
     (c, s) \<leftarrow> scan_u s; s \<leftarrow> scan_dot s;
     (d, s) \<leftarrow> scan_u s;
     Some (a, b, c, d) }"

function mask_loop :: "u32 \<Rightarrow> nat \<Rightarrow> nat" where
  "mask_loop m p = (if p < 32 \<and> bit m (31 - p) then mask_loop m (p + 1) else p)"
  by pat_completeness auto
termination
  by (relation "measure (\<lambda>(m, p). 32 - p)") auto

declare mask_loop.simps [simp del]

definition MaskToPrefix :: "wstr \<Rightarrow> int" where
  "MaskToPrefix maskStr =
     (case scan_octets maskStr of
        None \<Rightarrow> -1
      | Some (a, b, c, d) \<Rightarrow>
          int (mask_loop (push_bit 24 a OR push_bit 16 b OR push_bit 8 c OR d) 0))"

definition ParseIPv6Prefix :: "winsys \<Rightarrow> wstr \<Rightarrow> (bytes \<times> u8) option" where
  "ParseIPv6Prefix w addrStr =
     (let (buf, prefix) =
        (case strchr addrStr 47 of
           Some sl \<Rightarrow> (takeWhile (\<lambda>c. c \<noteq> 47) addrStr, of_int (atoi (drop 1 sl)))
         | None \<Rightarrow> (addrStr, 64)) in
      map_option (\<lambda>ip. (ip, prefix)) (pton6 w (to_ansi w buf)))"

section \<open>Command line arguments\<close>

text \<open>The characters up to a blank, a quote or the end, at most \<open>lim\<close> of them.\<close>

definition arg_value :: "nat \<Rightarrow> wstr \<Rightarrow> wstr" where
  "arg_value lim s =
     (let s = (if s \<noteq> [] \<and> s ! 0 = 34 then tl s else s) in
      take lim (takeWhile (\<lambda>c. c \<noteq> 32 \<and> c \<noteq> 34) s))"

definition get_arg :: "wstr \<Rightarrow> wstr \<Rightarrow> nat \<Rightarrow> wstr option" where
  "get_arg cmd key lim = map_option (\<lambda>p. arg_value lim (drop (length key) p)) (strstr cmd key)"

definition get_number :: "wstr \<Rightarrow> wstr \<Rightarrow> int option" where
  "get_number cmd key = map_option (\<lambda>p. atoi (drop (length key) p)) (strstr cmd key)"

definition new_name :: "wstr \<Rightarrow> wstr option" where
  "new_name cmd =
     map_option (\<lambda>p. take 255 (takeWhile (\<lambda>c. c \<noteq> 34) (drop 9 p))) (strstr cmd (str ''newname='' @ [34]))"

definition the_str :: "wstr option \<Rightarrow> wstr" where
  "the_str s = (case s of None \<Rightarrow> [] | Some s \<Rightarrow> s)"

definition parse_address :: "wstr \<Rightarrow> wstr option" where
  "parse_address cmd =
     (case get_arg cmd (str ''addr='') 63 of
        Some a \<Rightarrow> Some a
      | None \<Rightarrow> get_arg cmd (str ''address='') 63)"

text \<open>The parsing half of \<open>ParseNetshCommand\<close>: the local \<open>config\<close>.\<close>

definition parse_config :: "wstr \<Rightarrow> NetshConfig" where
  "parse_config cmd =
     (let set_if = contains cmd (str ''interface set interface'');
          en = contains cmd (str ''ENABLE'');
          dis = contains cmd (str ''DISABLE'') in
      \<lparr>interfaceName = (case get_arg cmd (str ''interface='') 255 of
                         None \<Rightarrow> str ''Radmin VPN'' | Some i \<Rightarrow> i),
       newName = the_str (new_name cmd),
       address = the_str (parse_address cmd),
       mask = the_str (get_arg cmd (str ''mask='') 63),
       gateway = the_str (get_arg cmd (str ''gateway='') 63),
       nexthop = the_str (get_arg cmd (str ''nexthop='') 63),
       route_prefix = the_str (get_arg cmd (str ''prefix='') 63),
       metric = (case get_number cmd (str ''metric='') of None \<Rightarrow> 0 | Some n \<Rightarrow> n),
       gwmetric = (case get_number cmd (str ''gwmetric='') of None \<Rightarrow> 0 | Some n \<Rightarrow> n),
       hasAddress = parse_address cmd \<noteq> None,
       hasMask = get_arg cmd (str ''mask='') 63 \<noteq> None,
       hasGateway = get_arg cmd (str ''gateway='') 63 \<noteq> None,
       hasNexthop = get_arg cmd (str ''nexthop='') 63 \<noteq> None,
       hasMetric = get_number cmd (str ''metric='') \<noteq> None,
       hasPrefix = get_arg cmd (str ''prefix='') 63 \<noteq> None,
       enableAdapter = (set_if \<and> en \<and> \<not> dis),
       disableAdapter = (set_if \<and> dis),
       enableIPv4 = (contains cmd (str ''interface ipv4 set interface'') \<and> en \<and> \<not> dis),
       hasNewName = new_name cmd \<noteq> None\<rparr>)"

section \<open>Applying the settings\<close>

definition has_colon :: "wstr \<Rightarrow> bool" where
  "has_colon s \<longleftrightarrow> strchr s 58 \<noteq> None"

definition apply_globals :: "wstr \<Rightarrow> NetshConfig \<Rightarrow> fake_adapter \<Rightarrow> fake_adapter" where
  "apply_globals cmd config a =
     (let a = (if hasAddress config then
                 (if contains cmd (str ''ipv6'') \<or> has_colon (address config)
                  then a\<lparr>g_fakeIPv6Address := address config, g_hasIPv6Address := True\<rparr>
                  else a\<lparr>fake_ipAddress := address config\<rparr>)
               else a);
          a = (if enableAdapter config then a\<lparr>g_FakeConnectionStatus := NCS_CONNECTED\<rparr> else a);
          a = (if disableAdapter config then a\<lparr>g_FakeConnectionStatus := NCS_DISCONNECTED\<rparr> else a);
          a = (if enableIPv4 config then a\<lparr>g_FakeConnectionStatus := NCS_CONNECTED\<rparr> else a);
          a = (if hasNewName config then a\<lparr>fake_FriendlyName := take 127 (newName config)\<rparr> else a);
          a = (if hasMask config then a\<lparr>fake_ipSubnet := mask config\<rparr> else a);
          a = (if hasGateway config then a\<lparr>fake_gateway := gateway config\<rparr> else a) in
      a)"

text \<open>The address part of the forwarding; \<open>ans k\<close> answers the k-th datagram.\<close>

definition send_address ::
    "winsys \<Rightarrow> tap_client \<Rightarrow> bool \<Rightarrow> (nat \<Rightarrow> udp_answer) \<Rightarrow> NetshConfig \<Rightarrow> net \<Rightarrow> net option" where
  "send_address w c heap_ok ans config n =
     (if \<not> hasAddress config then Some n
      else if \<not> has_colon (address config) then
        (if \<not> hasMask config then Some n
         else (case pton4 w (to_ansi w (address config)) of
                 None \<Rightarrow> Some n
               | Some ip \<Rightarrow>
                   (let prefix = MaskToPrefix (mask config) in
                    if 0 \<le> prefix \<and> prefix \<le> 32
                    then map_option fst (TapClientSetIPv4 c heap_ok (ans 0) ip (of_int prefix) n)
                    else Some n)))
      else (case ParseIPv6Prefix w (address config) of
              None \<Rightarrow> Some n
            | Some (ip6, prefix) \<Rightarrow> do {
                (n, _) \<leftarrow> TapClientSetIPv6 c heap_ok (ans 0) ip6 prefix n;
                Some (fst (TapClientSetLinkUp c heap_ok (ans 1) n)) }))"

definition send_link ::
    "tap_client \<Rightarrow> bool \<Rightarrow> (nat \<Rightarrow> udp_answer) \<Rightarrow> NetshConfig \<Rightarrow> net \<Rightarrow> net" where
  "send_link c heap_ok ans config n =
     (let n = (if enableAdapter config then fst (TapClientSetLinkUp c heap_ok (ans 2) n) else n) in
      if disableAdapter config then fst (TapClientSetLinkDown c heap_ok (ans 3) n) else n)"

definition ParseNetshCommand ::
    "winsys \<Rightarrow> tap_client \<Rightarrow> bool \<Rightarrow> (nat \<Rightarrow> udp_answer) \<Rightarrow> wstr \<Rightarrow> fake_adapter \<Rightarrow> net \<Rightarrow>
     (fake_adapter \<times> net) option" where
  "ParseNetshCommand w c heap_ok ans cmd a n =
     (let config = parse_config cmd;
          a = apply_globals cmd config a in do {
        n \<leftarrow> send_address w c heap_ok ans config n;
        let n = send_link c heap_ok ans config n;
        Some (a\<lparr>g_LastNetshConfig := config\<rparr>, n) })"

section \<open>The process hooks\<close>

text \<open>What is passed to the real function: application, command line, flags.\<close>

type_synonym proc_call = "wstr option \<times> wstr option \<times> u32"

definition CREATE_NO_WINDOW :: u32 where "CREATE_NO_WINDOW = 0x08000000"

definition radmin_names :: "wstr \<Rightarrow> bool" where
  "radmin_names cmd \<longleftrightarrow>
     contains cmd (str ''Radmin VPN'') \<or> contains cmd (str ''RadminVPN'') \<or>
     contains cmd (str ''Famatech Radmin'')"

definition Hook_CreateProcessW ::
    "winsys \<Rightarrow> tap_client \<Rightarrow> bool \<Rightarrow> (nat \<Rightarrow> udp_answer) \<Rightarrow> bool \<Rightarrow> wstr option \<Rightarrow> wstr option \<Rightarrow> u32 \<Rightarrow>
     fake_adapter \<Rightarrow> net \<Rightarrow> (fake_adapter \<times> net \<times> proc_call) option" where
  "Hook_CreateProcessW w c heap_ok ans dup_ok lpApp lpCmd flags a n =
     (case (case lpCmd of None \<Rightarrow> lpApp | Some _ \<Rightarrow> lpCmd) of
        None \<Rightarrow> Some (a, n, (lpApp, lpCmd, flags))
      | Some cmd \<Rightarrow>
          if contains cmd (str ''netsh'') \<and> radmin_names cmd then do {
            (a, n) \<leftarrow> ParseNetshCommand w c heap_ok ans cmd a n;
            Some (a, n,
              (if dup_ok
               then (None, Some (str ''cmd.exe /c '' @ [34] @ str ''exit 0'' @ [34]),
                     flags OR CREATE_NO_WINDOW)
               else (Some (str ''cmd.exe''), Some (str ''/c exit 0''), flags OR CREATE_NO_WINDOW))) }
          else Some (a, n, (lpApp, lpCmd, flags)))"

text \<open>The other entry point swallows the command without parsing it; None when the copy of the
  replacement cannot be allocated and the call fails.\<close>

definition Hook_CreateProcessAsUserW ::
    "bool \<Rightarrow> wstr option \<Rightarrow> wstr option \<Rightarrow> u32 \<Rightarrow> proc_call option" where
  "Hook_CreateProcessAsUserW dup_ok lpApp lpCmd flags =
     (case (case lpCmd of None \<Rightarrow> lpApp | Some _ \<Rightarrow> lpCmd) of
        None \<Rightarrow> Some (lpApp, lpCmd, flags)
      | Some cmd \<Rightarrow>
          if contains cmd (str ''netsh'') \<and>
             (contains cmd (str ''Famatech Radmin VPN Ethernet Adapter'') \<or>
              contains cmd (str ''RadminVPN''))
          then (if dup_ok then Some (None, Some (str ''cmd.exe /c exit 0''), flags OR CREATE_NO_WINDOW)
                else None)
          else Some (lpApp, lpCmd, flags))"

end
