(* ===== verification/Adapter_Report.thy ===== *)
theory Adapter_Report
  imports Netsh Fake_Identity
begin

text \<open>
  The answers of the IP helper hooks in src/emulate_driver_running.c (the build with
  \<open>BLOCK_REAL\<close> 1): \<open>Hook_GetAdaptersInfo\<close> fills fixed structures, \<open>Hook_GetAdaptersAddresses\<close>
  lays out variable parts behind the \<open>IP_ADAPTER_ADDRESSES\<close> structure by offsets.  The sizes
  of the Windows structures are the parameter \<open>abi\<close>; the area behind the first structure is
  a byte buffer, so that overlapping and overflowing parts are visible.
\<close>

section \<open>Narrow copies of the settings\<close>

text \<open>
  \<open>WideCharToMultiByte(..., buf, n, ...)\<close>: when the text and its terminator do not fit, the
  call fails, and the caller, which does not look at the result, goes on with a buffer that
  has no terminator; that is None.
\<close>

definition to_ansi_buf :: "winsys \<Rightarrow> nat \<Rightarrow> wstr \<Rightarrow> bytes option" where
  "to_ansi_buf w n s = (if length (to_ansi w s) < n then Some (to_ansi w s) else None)"

definition fake_description :: wstr where
  "fake_description = str ''Famatech Radmin VPN Ethernet Adapter''"

definition ERROR_BUFFER_OVERFLOW :: u32 where "ERROR_BUFFER_OVERFLOW = 111"
definition ERROR_NO_DATA :: u32 where "ERROR_NO_DATA = 232"

record abi =
  sz_info :: nat       \<comment> \<open>\<open>sizeof(IP_ADAPTER_INFO)\<close>\<close>
  sz_addrs :: nat      \<comment> \<open>\<open>sizeof(IP_ADAPTER_ADDRESSES)\<close>\<close>
  sz_uni :: nat        \<comment> \<open>\<open>sizeof(IP_ADAPTER_UNICAST_ADDRESS)\<close>\<close>
  sz_gw :: nat         \<comment> \<open>\<open>sizeof(IP_ADAPTER_GATEWAY_ADDRESS)\<close>\<close>
  sz_in :: nat         \<comment> \<open>\<open>sizeof(SOCKADDR_IN)\<close>\<close>
  sz_in6 :: nat        \<comment> \<open>\<open>sizeof(SOCKADDR_IN6)\<close>\<close>

section \<open>GetAdaptersInfo\<close>

record adapter_info =
  ai_name :: bytes
  ai_description :: bytes
  ai_mac :: bytes
  ai_ip :: bytes
  ai_mask :: bytes
  ai_gateway :: bytes

datatype info_result = Info_Overflow nat | Info_Ok adapter_info

text \<open>
  \<open>buf\<close> is the number of bytes at \<open>pAdapterInfo\<close> (None for null), \<open>out_len\<close> the value of
  \<open>*pOutBufLen\<close>; the copies into the structure keep 255 and 127 characters.
\<close>

definition Hook_GetAdaptersInfo ::
    "abi \<Rightarrow> winsys \<Rightarrow> (bytes \<Rightarrow> wstr) \<Rightarrow> nat list \<Rightarrow> bytes option \<Rightarrow> tap_client \<Rightarrow> bool \<Rightarrow> udp_answer \<Rightarrow>
     identity \<Rightarrow> fake_adapter \<Rightarrow> net \<Rightarrow> nat option \<Rightarrow> u32 \<Rightarrow> (identity \<times> net \<times> info_result) option" where
  "Hook_GetAdaptersInfo s w sg rs g c heap_ok ans i a n buf out_len = do {
     (i, n) \<leftarrow> InitFakeMac sg rs g c heap_ok ans i n;
     let needed = sz_info s + 256;
     (case buf of
        None \<Rightarrow> Some (i, n, Info_Overflow needed)
      | Some b \<Rightarrow>
          if unat out_len < needed then Some (i, n, Info_Overflow needed)
          else if b < needed then None
          else do {
            nm \<leftarrow> to_ansi_buf w 64 (fake_settingID i);
            ds \<leftarrow> to_ansi_buf w 256 fake_description;
            ip \<leftarrow> to_ansi_buf w 16 (fake_ipAddress a);
            m \<leftarrow> to_ansi_buf w 16 (fake_ipSubnet a);
            gw \<leftarrow> to_ansi_buf w 16 (fake_gateway a);
            Some (i, n, Info_Ok \<lparr>ai_name = take 255 nm, ai_description = take 127 ds,
              ai_mac = fake_mac i, ai_ip = ip, ai_mask = m, ai_gateway = gw\<rparr>) }) }"

section \<open>GetAdaptersAddresses\<close>

definition AF_UNSPEC :: u32 where "AF_UNSPEC = 0"
definition AF_INET :: u32 where "AF_INET = 2"
definition AF_INET6 :: u32 where "AF_INET6 = 23"

lemmas af_defs = AF_UNSPEC_def AF_INET_def AF_INET6_def

text \<open>Offsets of the variable parts, counted from the end of the first structure.\<close>

definition ext_size :: nat where "ext_size = 256"
definition name_off :: nat where "name_off = 0"
definition friendly_off :: nat where "friendly_off = 64"
definition desc_off :: nat where "desc_off = 192"

definition ipv4_size :: "abi \<Rightarrow> u32 \<Rightarrow> nat" where
  "ipv4_size s family =
     (if family = AF_INET \<or> family = AF_UNSPEC then sz_uni s + sz_in s + 16 else 0)"

definition ipv6_size :: "abi \<Rightarrow> fake_adapter \<Rightarrow> u32 \<Rightarrow> nat" where
  "ipv6_size s a family =
     (if g_hasIPv6Address a \<and> (family = AF_INET6 \<or> family = AF_UNSPEC)
      then sz_uni s + sz_in6 s + 16 else 0)"

definition total_size :: "abi \<Rightarrow> fake_adapter \<Rightarrow> u32 \<Rightarrow> nat" where
  "total_size s a family = sz_addrs s + ext_size + ipv4_size s family + ipv6_size s a family"

text \<open>\<open>inet_addr\<close> gives the address in network byte order, read as a little-endian number.\<close>

fun prefix_bits :: "u32 \<Rightarrow> nat \<Rightarrow> nat" where
  \<comment> \<open>the loop from bit 31 downwards; the second argument counts the bits left\<close>
  "prefix_bits m 0 = 0"
| "prefix_bits m (Suc b) = (if bit m b then Suc (prefix_bits m b) else 0)"

text \<open>A structure at an offset: its first field is its length, the rest is described by its
  bytes \<open>body\<close>; the socket address stands behind it.\<close>

definition put_struct :: "bytes \<Rightarrow> nat \<Rightarrow> nat \<Rightarrow> bytes \<Rightarrow> bytes \<Rightarrow> bytes option" where
  "put_struct mem off len body sockaddr = do {
     mem \<leftarrow> mem_write mem off (le32 (of_nat len) @ body);
     mem_write mem (off + len) sockaddr }"

text \<open>The parts of the answer; positions are offsets into \<open>aa_ext\<close>, the bytes behind the
  first structure.\<close>

record adapter_addrs =
  aa_ext :: bytes
  aa_mac :: bytes
  aa_uni4 :: "(nat \<times> u32 \<times> nat) option"    \<comment> \<open>offset, address, on-link prefix length\<close>
  aa_uni6 :: "(nat \<times> bytes) option"
  aa_first_unicast :: "nat option"
  aa_gateway :: "(nat \<times> u32) option"

datatype addrs_result = Addrs_NoData | Addrs_Overflow nat | Addrs_Ok adapter_addrs

text \<open>\<open>strncpy(name, ansiGuid, 256)\<close> pads with zeros to 256 characters.\<close>

definition strncpy_pad :: "nat \<Rightarrow> bytes \<Rightarrow> bytes" where
  "strncpy_pad n s = take n s @ replicate (n - length s) 0"

definition put_strings ::
    "winsys \<Rightarrow> identity \<Rightarrow> fake_adapter \<Rightarrow> bytes \<Rightarrow> bytes option" where
  "put_strings w i a mem = do {
     nm \<leftarrow> to_ansi_buf w 64 (fake_settingID i);
     mem \<leftarrow> mem_write mem name_off (strncpy_pad 256 nm);
     mem \<leftarrow> mem_write mem friendly_off (wbytes (fake_FriendlyName a @ [0]));
     mem_write mem desc_off (wbytes (fake_description @ [0])) }"

text \<open>The unicast structure of the IPv4 address, with its on-link prefix.\<close>

definition has_v4 :: "u32 \<Rightarrow> bool" where
  "has_v4 family \<longleftrightarrow> family = AF_INET \<or> family = AF_UNSPEC"

definition has_v6 :: "fake_adapter \<Rightarrow> u32 \<Rightarrow> bool" where
  "has_v6 a family \<longleftrightarrow> g_hasIPv6Address a \<and> (family = AF_INET6 \<or> family = AF_UNSPEC)"

definition put_ipv4 ::
    "abi \<Rightarrow> winsys \<Rightarrow> (bytes \<Rightarrow> u32) \<Rightarrow> (nat \<Rightarrow> bytes) \<Rightarrow> fake_adapter \<Rightarrow> u32 \<Rightarrow> bytes \<Rightarrow>
     (bytes \<times> (nat \<times> u32 \<times> nat) option) option" where
  "put_ipv4 s w ia body a family mem =
     (if has_v4 family then do {
        ip \<leftarrow> to_ansi_buf w 16 (fake_ipAddress a);
        m \<leftarrow> to_ansi_buf w 16 (fake_ipSubnet a);
        mem \<leftarrow> put_struct mem ext_size (sz_uni s) (body (sz_uni s)) (le32 0x0002 @ le32 (ia ip));
        Some (mem, Some (ext_size, ia ip, prefix_bits (ia m) 32)) }
      else Some (mem, None))"

definition put_ipv6 ::
    "abi \<Rightarrow> winsys \<Rightarrow> (nat \<Rightarrow> bytes) \<Rightarrow> fake_adapter \<Rightarrow> u32 \<Rightarrow> bytes \<Rightarrow>
     (bytes \<times> (nat \<times> bytes) option) option" where
  "put_ipv6 s w body a family mem =
     (if has_v6 a family then do {
        ip6 \<leftarrow> to_ansi_buf w 46 (g_fakeIPv6Address a);
        let addr = (case pton6 w ip6 of None \<Rightarrow> replicate 16 0 | Some b \<Rightarrow> b);
        let off = ext_size + ipv4_size s family;
        mem \<leftarrow> put_struct mem off (sz_uni s) (body (sz_uni s)) (le32 23 @ le32 0 @ addr);
        Some (mem, Some (off, addr)) }
      else Some (mem, None))"

definition put_gateway ::
    "abi \<Rightarrow> winsys \<Rightarrow> (bytes \<Rightarrow> u32) \<Rightarrow> (nat \<Rightarrow> bytes) \<Rightarrow> fake_adapter \<Rightarrow> u32 \<Rightarrow> bytes \<Rightarrow>
     (bytes \<times> (nat \<times> u32) option) option" where
  "put_gateway s w ia body a family mem =
     (if has_v4 family then do {
        gw \<leftarrow> to_ansi_buf w 16 (fake_gateway a);
        let off = ext_size + ipv4_size s family + ipv6_size s a family;
        mem \<leftarrow> put_struct mem off (sz_gw s) (body (sz_gw s)) (le32 0x0002 @ le32 (ia gw));
        Some (mem, Some (off, ia gw)) }
      else Some (mem, None))"

definition Hook_GetAdaptersAddresses ::
    "abi \<Rightarrow> winsys \<Rightarrow> (bytes \<Rightarrow> u32) \<Rightarrow> (nat \<Rightarrow> bytes) \<Rightarrow> (bytes \<Rightarrow> wstr) \<Rightarrow> nat list \<Rightarrow> bytes option \<Rightarrow>
     tap_client \<Rightarrow> bool \<Rightarrow> udp_answer \<Rightarrow> identity \<Rightarrow> fake_adapter \<Rightarrow> net \<Rightarrow> u32 \<Rightarrow> bytes option \<Rightarrow> u32 \<Rightarrow>
     (identity \<times> net \<times> addrs_result) option" where
  \<comment> \<open>\<open>ia\<close> is \<open>inet_addr\<close>; \<open>body n\<close> are the bytes of a structure of \<open>n\<close> bytes behind its length
      field; the buffer is given by its bytes behind the first structure\<close>
  "Hook_GetAdaptersAddresses s w ia body sg rs g c heap_ok ans i a n family ext out_len = do {
     (i, n) \<leftarrow> InitFakeMac sg rs g c heap_ok ans i n;
     if family \<noteq> AF_INET \<and> family \<noteq> AF_INET6 \<and> family \<noteq> AF_UNSPEC then Some (i, n, Addrs_NoData)
     else do {
       let total = total_size s a family;
       (case ext of
          None \<Rightarrow> Some (i, n, Addrs_Overflow total)
        | Some mem \<Rightarrow>
            if unat out_len < total then Some (i, n, Addrs_Overflow total)
            else do {
              mem \<leftarrow> mem_write mem 0 (replicate (total - sz_addrs s) 0);
              mem \<leftarrow> put_strings w i a mem;
              (mem, uni4) \<leftarrow> put_ipv4 s w ia body a family mem;
              (mem, uni6) \<leftarrow> put_ipv6 s w body a family mem;
              (mem, gate) \<leftarrow> put_gateway s w ia body a family mem;
              Some (i, n, Addrs_Ok \<lparr>aa_ext = mem, aa_mac = fake_mac i, aa_uni4 = uni4,
                aa_uni6 = uni6,
                aa_first_unicast = (case uni4 of Some (off, _) \<Rightarrow> Some off
                                    | None \<Rightarrow> map_option fst uni6),
                aa_gateway = gate\<rparr>) }) } }"

end
