(* ===== verification/Netsh_Properties.thy ===== *)
theory Netsh_Properties
  imports Netsh Linux_Tap
begin

text \<open>
  The netsh interception: reading dotted masks, finding arguments in a command line, which
  processes are replaced, and what reaches the bridge.
\<close>

section \<open>Masks\<close>

text \<open>The dotted form of a 32-bit number, the way masks are written on a command line.\<close>

definition dotted :: "u32 \<Rightarrow> wstr" where
  "dotted m = join_path 46 (map (\<lambda>b. dec (unat b)) (be32 m))"

lemma digit_wide:
  assumes "is_digit (c :: u16)"
  shows "\<not> is_space c" "c \<noteq> 45" "c \<noteq> 43" "c \<noteq> 46"
  using assms by (auto simp: is_digit_def is_space_def word_le_nat_alt)

lemma skip_digits_append: "\<forall>c\<in>set s. is_digit c \<Longrightarrow> skip_digits (s @ t) = skip_digits t"
  by (induction s) auto

lemma scan_u_dec:
  assumes "t = [] \<or> \<not> is_digit (hd t)"
  shows "scan_u (dec n @ t) = Some (of_nat n, t)"
proof -
  obtain c r where d: "(dec n :: wstr) = c # r" by (cases "dec n :: wstr") (auto simp: dec_def)
  have all: "\<forall>c\<in>set (dec n :: wstr). is_digit c" using dec_all_digits [where 'w = 16] by simp
  then have c: "is_digit c" using d by simp
  have v: "digits_value 0 (dec n @ t) = int n"
    using assms digits_value_append [OF all, of 0 t] digits_value_dec [where 'w = 16, of n]
    by (cases t) auto
  have s: "skip_digits (dec n @ t) = t"
    using assms skip_digits_append [OF all, of t] by (cases t) auto
  show ?thesis using c digit_wide [OF c] v s unfolding d by (simp add: scan_u_def Let_def)
qed

lemma scan_octets_dotted:
  "scan_octets (dec a @ 46 # dec b @ 46 # dec c @ 46 # dec d) =
     Some (of_nat a, of_nat b, of_nat c, of_nat d)"
proof -
  have dot: "46 # s = [] \<or> \<not> is_digit (hd (46 # s :: wstr))" for s by (simp add: is_digit_def)
  have "scan_u (dec d) = Some (of_nat d, [])" using scan_u_dec [of "[]" d] by simp
  then show ?thesis by (simp add: scan_octets_def scan_u_dec [OF dot] scan_dot_def)
qed

lemma octets_of_word:
  "push_bit 24 (ucast (ucast (drop_bit 24 m) :: u8)) OR push_bit 16 (ucast (ucast (drop_bit 16 m) :: u8)) OR
   push_bit 8 (ucast (ucast (drop_bit 8 m) :: u8)) OR ucast (ucast m :: u8) = (m :: u32)"
  using of_le32_le32_exact [of m] by (simp add: of_le32_def le32_def ac_simps)

lemma MaskToPrefix_dotted: "MaskToPrefix (dotted m) = int (mask_loop m 0)"
  by (simp add: MaskToPrefix_def dotted_def be32_def le32_def scan_octets_dotted octets_of_word
      of_nat_unat)

text \<open>The loop counts the leading one bits.\<close>

lemma mask_loop_leading:
  assumes "\<forall>i<32. bit m i \<longleftrightarrow> 32 - p \<le> i" "q \<le> p" "p \<le> 32"
  shows "mask_loop m q = p"
  using assms
proof (induction "p - q" arbitrary: q)
  case 0
  then show ?case by (cases "p = 32") (auto simp: mask_loop.simps [of m])
next
  case (Suc d)
  then have "q < p" "bit m (31 - q)" by auto
  then show ?case using Suc by (subst mask_loop.simps) simp
qed

text \<open>C23. The two mask conversions of the program are inverse to each other: the mask the bridge
  computes from a prefix length, written as four dotted numbers, is read back by the injected
  side as the same prefix length.\<close>

theorem mask_prefix_roundtrip:
  assumes "prefix_mask p = Some m"
  shows "MaskToPrefix (dotted m) = int (unat p)"
proof -
  have "unat p \<le> 32" using prefix_mask_defined assms by blast
  moreover have "\<forall>i<32. bit m i \<longleftrightarrow> 32 - unat p \<le> i" using bit_prefix_mask [OF assms] by blast
  ultimately have "mask_loop m 0 = unat p" using mask_loop_leading [of m "unat p" 0] by blast
  then show ?thesis unfolding MaskToPrefix_dotted by (rule arg_cong)
qed

theorem mask_prefix_roundtrip_witness:
  "prefix_mask 9 = Some 0xFF800000 \<and> MaskToPrefix (dotted 0xFF800000) = 9"
proof -
  have "prefix_mask 9 = Some 0xFF800000" by (simp add: prefix_mask_def)
  then show ?thesis using mask_prefix_roundtrip [of 9 "0xFF800000"] by simp
qed

lemma mask_loop_bounds: "q \<le> 32 \<Longrightarrow> mask_loop m q \<le> 32"
  by (induction m q rule: mask_loop.induct) (subst mask_loop.simps, auto)

lemma MaskToPrefix_bounds: "- 1 \<le> MaskToPrefix s \<and> MaskToPrefix s \<le> 32"
  using mask_loop_bounds [of 0] by (auto simp: MaskToPrefix_def split: option.split)


section \<open>Arguments of a command line\<close>

lemma arg_value_exact:
  assumes "32 \<notin> set v" "34 \<notin> set v" "length v \<le> lim" "t = [] \<or> hd t = 32 \<or> hd t = 34" "v \<noteq> []"
  shows "arg_value lim (v @ t) = v" "arg_value lim (34 # v @ t) = v"
proof -
  have tw: "takeWhile (\<lambda>c. c \<noteq> 32 \<and> c \<noteq> 34) (v @ t) = v"
    using assms(1,2,4) by (cases t) (auto simp: takeWhile_append intro: takeWhile_eq_all_conv [THEN iffD2])
  have "(v @ t) ! 0 \<noteq> 34" using assms(2,5) by (cases v) auto
  then show "arg_value lim (v @ t) = v" using tw assms(3) by (simp add: arg_value_def)
  show "arg_value lim (34 # v @ t) = v" using tw assms(3) by (simp add: arg_value_def)
qed

text \<open>An argument \<open>key=value\<close>, found at its first occurrence, ends at a blank, a quote or the
  end of the line.\<close>

definition argument :: "wstr \<Rightarrow> wstr \<Rightarrow> wstr \<Rightarrow> bool" where
  "argument cmd key v \<longleftrightarrow> v \<noteq> [] \<and> 32 \<notin> set v \<and> 34 \<notin> set v \<and>
     (\<exists>t. strstr cmd key = Some (key @ v @ t) \<and> (t = [] \<or> hd t = 32 \<or> hd t = 34))"

lemma get_arg_argument: "argument cmd key v \<Longrightarrow> length v \<le> lim \<Longrightarrow> get_arg cmd key lim = Some v"
  using arg_value_exact(1) [of v lim] unfolding argument_def get_arg_def by fastforce

lemma digits_length: "n < 1000 \<Longrightarrow> length (digits n) \<le> 3"
  by (simp add: digits.simps [of n] digits.simps [of "n div 10"] digits.simps [of "n div 10 div 10"])

lemma length_dec_octet: "length (dec (unat (b :: u8)) :: wstr) \<le> 3"
proof -
  have "unat b < 1000" using unsigned_less [of b, where ?'a = nat] by simp
  from digits_length [OF this] show ?thesis by (simp add: dec_def)
qed

lemma dotted_text: "length (dotted m) \<le> 63" "\<forall>c\<in>set (dotted m). is_digit c \<or> c = 46" "dotted m \<noteq> []"
proof -
  have d: "\<And>n c. c \<in> set (dec n :: wstr) \<Longrightarrow> is_digit c" by (rule dec_all_digits) simp_all
  show "\<forall>c\<in>set (dotted m). is_digit c \<or> c = 46" using d by (auto simp: dotted_def be32_def le32_def)
  show "length (dotted m) \<le> 63"
    using length_dec_octet [of "ucast (drop_bit 24 m)"] length_dec_octet [of "ucast (drop_bit 16 m)"]
      length_dec_octet [of "ucast (drop_bit 8 m)"] length_dec_octet [of "ucast m"]
    by (simp add: dotted_def be32_def le32_def)
  show "dotted m \<noteq> []" by (simp add: dotted_def be32_def le32_def)
qed

section \<open>The replaced processes\<close>

text \<open>\<open>inet_pton\<close> gives 4 and 16 bytes.\<close>

definition winsys_ok :: "winsys \<Rightarrow> bool" where
  "winsys_ok w \<longleftrightarrow> (\<forall>s ip. pton4 w s = Some ip \<longrightarrow> length ip = 4) \<and>
     (\<forall>s ip. pton6 w s = Some ip \<longrightarrow> length ip = 16)"

lemma send_address_total:
  assumes "winsys_ok w"
  shows "\<exists>n'. send_address w c h ans cfg n = Some n' \<and> open_sockets n' = open_sockets n \<and>
    (\<exists>ds. wire n' = wire n @ ds)"
proof -
  have p4: "\<And>s ip. pton4 w s = Some ip \<Longrightarrow> mem_read ip 0 4 = Some ip"
    and p6: "\<And>s ip. pton6 w s = Some ip \<Longrightarrow> mem_read ip 0 16 = Some ip"
    using assms by (auto simp: winsys_ok_def mem_read_def)
  show ?thesis
    by (auto simp: send_address_def TapClientSetIPv4_def TapClientSetIPv6_def TapClientSetLinkUp_def
        ParseIPv6Prefix_def p4 wire_simps Let_def dest!: p6 split: option.splits prod.splits)
qed

lemma send_link_wire:
  "open_sockets (send_link c h ans cfg n) = open_sockets n \<and>
   (\<exists>ds. wire (send_link c h ans cfg n) = wire n @ ds)"
  by (simp add: send_link_def TapClientSetLinkUp_def TapClientSetLinkDown_def wire_simps Let_def)

lemma ParseNetshCommand_total:
  assumes "winsys_ok w"
  shows "\<exists>a' n'. ParseNetshCommand w c h ans cmd a n = Some (a', n') \<and>
    open_sockets n' = open_sockets n \<and> (\<exists>ds. wire n' = wire n @ ds)"
proof -
  obtain n1 ds1 where n1: "send_address w c h ans (parse_config cmd) n = Some n1"
    "open_sockets n1 = open_sockets n" "wire n1 = wire n @ ds1"
    using send_address_total [OF assms] by blast
  obtain ds2 where "wire (send_link c h ans (parse_config cmd) n1) = wire n1 @ ds2"
    "open_sockets (send_link c h ans (parse_config cmd) n1) = open_sockets n1"
    using send_link_wire by blast
  then show ?thesis using n1 by (simp add: ParseNetshCommand_def Let_def)
qed

definition command_text :: "wstr option \<Rightarrow> wstr option \<Rightarrow> wstr option" where
  "command_text lpApp lpCmd = (case lpCmd of None \<Rightarrow> lpApp | Some _ \<Rightarrow> lpCmd)"

definition netsh_for_radmin :: "wstr option \<Rightarrow> bool" where
  "netsh_for_radmin t \<longleftrightarrow> (\<exists>cmd. t = Some cmd \<and> contains cmd (str ''netsh'') \<and> radmin_names cmd)"

text \<open>Process creation is transparent except for the adapter's netsh: the hook always
  returns; a command that is not netsh with one of the Radmin names goes to the real function
  unchanged and without any effect; netsh for the adapter is never started, the process that
  is started instead is a hidden cmd.exe that exits with 0, and no socket stays open.\<close>

theorem CreateProcess_transparent:
  assumes "winsys_ok w"
  shows "\<exists>a' n' app' cmd' flags'. Hook_CreateProcessW w c h ans dup_ok lpApp lpCmd flags a n =
      Some (a', n', (app', cmd', flags')) \<and> open_sockets n' = open_sockets n \<and>
    (if netsh_for_radmin (command_text lpApp lpCmd)
     then flags' = flags OR CREATE_NO_WINDOW \<and>
       (\<exists>x. cmd' = Some x \<and> \<not> contains x (str ''netsh'') \<and> contains x (str ''exit 0'')) \<and>
       app' \<in> {None, Some (str ''cmd.exe'')}
     else a' = a \<and> n' = n \<and> app' = lpApp \<and> cmd' = lpCmd \<and> flags' = flags)"
proof (cases "netsh_for_radmin (command_text lpApp lpCmd)")
  case False
  then show ?thesis
    by (auto simp: Hook_CreateProcessW_def netsh_for_radmin_def command_text_def split: option.split)
next
  case True
  then obtain cmd where cmd: "command_text lpApp lpCmd = Some cmd" "contains cmd (str ''netsh'')"
    "radmin_names cmd" by (auto simp: netsh_for_radmin_def)
  obtain a' n' where p: "ParseNetshCommand w c h ans cmd a n = Some (a', n')"
    "open_sockets n' = open_sockets n" using ParseNetshCommand_total [OF assms] by blast
  have x: "\<not> contains (str ''cmd.exe /c '' @ [34] @ str ''exit 0'' @ [34] :: wstr) (str ''netsh'')"
    "contains (str ''cmd.exe /c '' @ [34] @ str ''exit 0'' @ [34] :: wstr) (str ''exit 0'')"
    "\<not> contains (str ''/c exit 0'' :: wstr) (str ''netsh'')"
    "contains (str ''/c exit 0'' :: wstr) (str ''exit 0'')"
    by (simp_all add: contains_def)
  show ?thesis
    using True cmd p x by (cases dup_ok) (simp_all add: Hook_CreateProcessW_def command_text_def)
qed

definition winsys0 :: winsys where
  "winsys0 = \<lparr>to_ansi = (\<lambda>s. map ucast s),
     pton4 = (\<lambda>s. if s = str ''26.1.2.3'' then Some [26, 1, 2, 3] else None), pton6 = (\<lambda>_. None)\<rparr>"

lemma winsys0_ok: "winsys_ok winsys0"
  by (simp add: winsys_ok_def winsys0_def)

theorem CreateProcess_transparent_witness:
  "\<exists>a' n' app' cmd' flags'. Hook_CreateProcessW winsys0 tap_client_initial True (\<lambda>_. Sent) True None
      (Some (str ''netsh interface set interface name=RadminVPN'')) 0 adapter_initial
      \<lparr>wire = [], open_sockets = 0\<rparr> = Some (a', n', (app', cmd', flags')) \<and>
    flags' = CREATE_NO_WINDOW \<and> open_sockets n' = 0"
proof -
  have "netsh_for_radmin (command_text None (Some (str ''netsh interface set interface name=RadminVPN'')))"
    by (simp add: netsh_for_radmin_def command_text_def contains_def radmin_names_def)
  then show ?thesis
    using CreateProcess_transparent [OF winsys0_ok, of tap_client_initial True "\<lambda>_. Sent" True None
        "Some (str ''netsh interface set interface name=RadminVPN'')" 0 adapter_initial
        "\<lparr>wire = [], open_sockets = 0\<rparr>"] by auto
qed

section \<open>From a command line to the wire\<close>

lemma has_colon_iff: "has_colon s \<longleftrightarrow> 58 \<in> set s"
proof -
  have "strchr s 58 \<noteq> None \<longleftrightarrow> 58 \<in> set s" by (induction s) auto
  then show ?thesis by (simp add: has_colon_def)
qed

lemma dotted_argument: "strstr cmd key = Some (key @ dotted m @ t) \<Longrightarrow> t = [] \<or> hd t = 32 \<or> hd t = 34 \<Longrightarrow>
    argument cmd key (dotted m)"
  using dotted_text(2,3) [of m] by (auto simp: argument_def is_digit_def)

lemma parse_config_fields:
  "hasAddress (parse_config cmd) = (parse_address cmd \<noteq> None)"
  "address (parse_config cmd) = the_str (parse_address cmd)"
  "hasMask (parse_config cmd) = (get_arg cmd (str ''mask='') 63 \<noteq> None)"
  "mask (parse_config cmd) = the_str (get_arg cmd (str ''mask='') 63)"
  "hasMetric (parse_config cmd) = (get_number cmd (str ''metric='') \<noteq> None)"
  "interfaceName (parse_config cmd) =
     (case get_arg cmd (str ''interface='') 255 of None \<Rightarrow> str ''Radmin VPN'' | Some i \<Rightarrow> i)"
  by (simp_all add: parse_config_def Let_def del: str_Cons)

text \<open>The address command of the service: address and mask arguments give one datagram with the
  four bytes and the prefix length, and both texts become the reported settings.\<close>

lemma ParseNetshCommand_ipv4:
  assumes w: "winsys_ok w" and ad: "argument cmd (str ''addr='') A" "length A \<le> 63" "58 \<notin> set A"
    and m: "argument cmd (str ''mask='') (dotted m)" "prefix_mask p = Some m"
    and ip: "pton4 w (to_ansi w A) = Some ip" and v6: "\<not> contains cmd (str ''ipv6'')"
    and sent: "ans 0 = Sent"
  shows "\<exists>a' n' ds. ParseNetshCommand w c True ans cmd a n = Some (a', n') \<and>
    wire n' = wire n @ (g_bridge_ip c, g_bridge_port c, 0x01 # TAP_CTRL_SET_IPV4 # ip @ [p]) # ds \<and>
    fake_ipAddress a' = A \<and> fake_ipSubnet a' = dotted m"
proof -
  let ?c = "parse_config cmd"
  have pa: "parse_address cmd = Some A" using get_arg_argument [OF ad(1,2)] by (simp add: parse_address_def)
  have pm: "get_arg cmd (str ''mask='') 63 = Some (dotted m)"
    using get_arg_argument [OF m(1)] dotted_text(1) by blast
  have f: "hasAddress ?c" "address ?c = A" "hasMask ?c" "mask ?c = dotted m"
    by (simp_all add: parse_config_fields pa pm the_str_def del: str_Cons)
  have colon: "\<not> has_colon A" using ad(3) by (simp add: has_colon_iff)
  have le: "unat p \<le> 32" using prefix_mask_defined m(2) by blast
  have "mask_loop m 0 = unat p"
    using mask_loop_leading [of m "unat p" 0] bit_prefix_mask [OF m(2)] le by blast
  then have pr: "MaskToPrefix (dotted m) = int (unat p)" unfolding MaskToPrefix_dotted by (rule arg_cong)
  have le32: "uint p \<le> 32" unfolding uint_nat using le by linarith
  have rd: "mem_read ip 0 4 = Some ip" using w ip by (auto simp: winsys_ok_def mem_read_def)
  let ?n1 = "n\<lparr>wire := wire n @ [(g_bridge_ip c, g_bridge_port c, 0x01 # TAP_CTRL_SET_IPV4 # ip @ [p])]\<rparr>"
  have "send_address w c True ans ?c n = Some ?n1"
    using f colon ip le32 rd sent pr
    by (simp add: send_address_def TapClientSetIPv4_def wire_simps Let_def of_nat_unat)
  moreover obtain ds where "wire (send_link c True ans ?c ?n1) = wire ?n1 @ ds"
    using send_link_wire [of c True ans ?c ?n1] by blast
  ultimately show ?thesis
    using f colon v6 by (simp add: ParseNetshCommand_def apply_globals_def Let_def)
qed

text \<open>Two arguments are misread: a line with gwmetric= is also taken to set the metric,
  because the search for metric= finds the tail of that word; and a quoted interface name is cut
  at its first blank.\<close>

theorem netsh_misreads_arguments:
  "contains cmd (str ''gwmetric='') \<Longrightarrow> hasMetric (parse_config cmd) \<and>
     (v \<noteq> [] \<and> 32 \<notin> set v \<and> 34 \<notin> set v \<and> length v \<le> 255 \<and>
      strstr cmd (str ''interface='') = Some (str ''interface='' @ 34 # v @ 32 # rest) \<longrightarrow>
      interfaceName (parse_config cmd) = v)"
proof
  assume "contains cmd (str ''gwmetric='')"
  then obtain pre post where "cmd = pre @ str ''gwmetric='' @ post" unfolding contains_iff by blast
  then have "cmd = (pre @ str ''gw'') @ str ''metric='' @ post" by simp
  then have "contains cmd (str ''metric='')" unfolding contains_iff by blast
  then show "hasMetric (parse_config cmd)"
    by (auto simp: parse_config_fields get_number_def contains_def simp del: str_Cons)
  show "v \<noteq> [] \<and> 32 \<notin> set v \<and> 34 \<notin> set v \<and> length v \<le> 255 \<and>
      strstr cmd (str ''interface='') = Some (str ''interface='' @ 34 # v @ 32 # rest) \<longrightarrow>
      interfaceName (parse_config cmd) = v"
    using arg_value_exact(2) [of v 255 "32 # rest"]
    by (auto simp: parse_config_fields get_arg_def simp del: str_Cons)
qed

theorem netsh_misreads_arguments_witness:
  "hasMetric (parse_config (str ''add gwmetric=3 interface='' @ 34 # str ''Radmin'' @ 32 # str ''VPN'' @ [34])) \<and>
   interfaceName (parse_config (str ''add gwmetric=3 interface='' @ 34 # str ''Radmin'' @ 32 # str ''VPN'' @ [34])) =
     str ''Radmin''"
proof -
  let ?cmd = "str ''add gwmetric=3 interface='' @ 34 # str ''Radmin'' @ 32 # str ''VPN'' @ [34] :: wstr"
  have c: "contains ?cmd (str ''gwmetric='')" by (simp add: contains_def)
  have i: "strstr ?cmd (str ''interface='') =
      Some (str ''interface='' @ 34 # str ''Radmin'' @ 32 # str ''VPN'' @ [34])" by simp
  have v: "str ''Radmin'' \<noteq> ([] :: wstr)" "32 \<notin> set (str ''Radmin'' :: wstr)" "34 \<notin> set (str ''Radmin'' :: wstr)"
    "length (str ''Radmin'' :: wstr) \<le> 255" by simp_all
  show ?thesis
    using netsh_misreads_arguments [OF c, of "str ''Radmin''" "str ''VPN'' @ [34]"] i v by blast
qed

end
