(* ===== verification/Adapter_Properties.thy ===== *)
theory Adapter_Properties
  imports Adapter_Report Netsh_Properties
begin

text \<open>
  The report of the fake adapter through GetAdaptersAddresses: the size protocol, and what a
  caller finds in a buffer that is large enough.
\<close>

section \<open>Writes into the buffer\<close>

lemma mem_write_take:
  assumes "mem_write m off xs = Some m'" "k \<le> off"
  shows "take k m' = take k m"
  using assms by (auto simp: mem_write_def min_def split: if_splits)

lemma mem_write_area:
  assumes "mem_write m off xs = Some m'"
  shows "take (length xs) (drop off m') = xs"
  using mem_read_write [OF assms] by (simp add: mem_read_eq_Some)

lemma mem_write_ok: "off + length xs \<le> length m \<Longrightarrow> \<exists>m'. mem_write m off xs = Some m' \<and> length m' = length m"
  by (simp add: mem_write_def)

lemma take_eq_le: "take n xs = take n ys \<Longrightarrow> k \<le> n \<Longrightarrow> take k xs = take k ys"
  by (drule arg_cong [where f = "take k"]) (simp add: min_def split: if_splits)

lemma put_struct_length:
  "put_struct m off n b sa = Some m' \<Longrightarrow> length m' = length m"
  by (auto simp: put_struct_def bind_eq_Some dest!: mem_write_length)

lemma put_strings_length: "put_strings w i a m = Some m' \<Longrightarrow> length m' = length m"
  by (auto simp: put_strings_def bind_eq_Some dest!: mem_write_length)

lemma put_ipv4_length: "put_ipv4 s w ia body a family m = Some (m', u) \<Longrightarrow> length m' = length m"
  by (auto simp: put_ipv4_def bind_eq_Some dest!: put_struct_length split: if_splits)

lemma put_ipv6_length: "put_ipv6 s w body a family m = Some (m', u) \<Longrightarrow> length m' = length m"
  by (auto simp: put_ipv6_def bind_eq_Some Let_def dest!: put_struct_length split: if_splits)

lemma put_struct_ok:
  assumes "length b = n - 4" "4 \<le> n" "off + n + length sa \<le> length m"
  shows "\<exists>m'. put_struct m off n b sa = Some m' \<and> length m' = length m \<and>
    take off m' = take off m \<and> take 4 (drop off m') = le32 (of_nat n)"
proof -
  obtain m1 where m1: "mem_write m off (le32 (of_nat n) @ b) = Some m1" "length m1 = length m"
    using mem_write_ok [of off "le32 (of_nat n) @ b" m] assms by auto
  obtain m2 where m2: "mem_write m1 (off + n) sa = Some m2" "length m2 = length m1"
    using mem_write_ok [of "off + n" sa m1] m1 assms by auto
  have "take 4 (drop off m2) = take 4 (take n (drop off m2))" using assms(2) by (simp add: min_def)
  also have "take n (drop off m2) = take n (drop off m1)"
    using mem_write_take [OF m2(1) order_refl] by (simp add: take_drop add.commute)
  also have "\<dots> = le32 (of_nat n) @ b" using mem_write_area [OF m1(1)] assms(1,2) by simp
  finally have "take 4 (drop off m2) = le32 (of_nat n)" by simp
  moreover have "take off m2 = take off m"
    using mem_write_take [OF m2(1), of off] mem_write_take [OF m1(1), of off] by simp
  ultimately show ?thesis using m1 m2 by (simp add: put_struct_def)
qed

section \<open>The prefix length\<close>

lemma prefix_bits_leading:
  assumes "c \<le> b" "\<forall>i. b - c \<le> i \<and> i < b \<longrightarrow> bit m i" "c < b \<longrightarrow> \<not> bit m (b - c - 1)"
  shows "prefix_bits m b = c"
  using assms
proof (induction b arbitrary: c)
  case (Suc b)
  show ?case
  proof (cases c)
    case 0
    then show ?thesis using Suc.prems by simp
  next
    case (Suc d)
    then have "bit m b" using Suc.prems by simp
    moreover have "prefix_bits m b = d" by (rule Suc.IH) (use Suc Suc.prems in auto)
    ultimately show ?thesis using Suc by simp
  qed
qed simp

lemma bit_swapped:
  "24 \<le> i \<Longrightarrow> i < 32 \<Longrightarrow> bit (of_le32 (be32 m)) i \<longleftrightarrow> bit m (i - 24)"
  by (auto simp: of_le32_def be32_def le32_def bit_or_iff bit_push_bit_iff bit_ucast_iff bit_drop_bit_eq)

lemma swapped_ones: "of_le32 (be32 (- 1)) = - 1"
  by (rule bit_word_eqI) (auto simp: of_le32_def be32_def le32_def bit_simps)

text \<open>The mask is in network byte order when the loop looks at its top bit.\<close>

lemma prefix_bits_swapped:
  assumes "prefix_mask p = Some m"
  shows "prefix_bits (of_le32 (be32 m)) 32 = (if p = 32 then 32 else unat p - 24)"
proof -
  have le: "unat p \<le> 32" using prefix_mask_defined assms by blast
  have bits: "i < 32 \<Longrightarrow> bit m i \<longleftrightarrow> 32 - unat p \<le> i" for i by (rule bit_prefix_mask [OF assms])
  show ?thesis
  proof (cases "p = 32")
    case True
    then have "unat p = 32" by simp
    then have "m = - 1" by (intro bit_word_eqI) (simp add: bits)
    then have "of_le32 (be32 m) = - 1" by (simp only: swapped_ones)
    then have "prefix_bits (of_le32 (be32 m)) 32 = 32"
      by (intro prefix_bits_leading) auto
    then show ?thesis using True by simp
  next
    case False
    then have "unat p \<noteq> 32" by (simp add: word_unat_eq_iff)
    then have lt: "unat p < 32" using le by simp
    have "prefix_bits (of_le32 (be32 m)) 32 = unat p - 24"
    proof (rule prefix_bits_leading)
      show "\<forall>i. 32 - (unat p - 24) \<le> i \<and> i < 32 \<longrightarrow> bit (of_le32 (be32 m)) i"
        using lt bits by (auto simp: bit_swapped)
      show "unat p - 24 < 32 \<longrightarrow> \<not> bit (of_le32 (be32 m)) (32 - (unat p - 24) - 1)"
        using lt bits [of "7 - (unat p - 24)"] bit_swapped [of "31 - (unat p - 24)" m] by auto
    qed (use lt in simp)
    then show ?thesis using False by simp
  qed
qed


section \<open>The two calls\<close>

lemma InitFakeMac_again: "fake_mac_initialized i \<Longrightarrow> InitFakeMac sg rs g c h ans i n = Some (i, n)"
  by (simp add: InitFakeMac_def)

text \<open>C21. The size that GetAdaptersAddresses reports is too small for IPv4: a caller that asks for
  the size and calls again with a buffer of exactly that size has its buffer overrun, because the
  gateway structure is placed behind the parts that were counted.\<close>

theorem reported_size_too_small:
  assumes i: "fake_mac_initialized i" and fam: "family = AF_INET \<or> family = AF_UNSPEC"
    and mem: "length mem = total_size s a family - sz_addrs s" "total_size s a family \<le> unat out_len"
  shows "Hook_GetAdaptersAddresses s w ia body sg rs g c h ans i a n family None l0 =
      Some (i, n, Addrs_Overflow (total_size s a family)) \<and>
    Hook_GetAdaptersAddresses s w ia body sg rs g c h ans i a n family (Some mem) out_len = None"
proof
  have f: "\<not> (family \<noteq> AF_INET \<and> family \<noteq> AF_INET6 \<and> family \<noteq> AF_UNSPEC)" using fam by auto
  note init = InitFakeMac_again [OF i]
  show "Hook_GetAdaptersAddresses s w ia body sg rs g c h ans i a n family None l0 =
      Some (i, n, Addrs_Overflow (total_size s a family))"
    using f by (auto simp: Hook_GetAdaptersAddresses_def init Let_def)
  have v4: "has_v4 family" using fam by (simp add: has_v4_def)
  have gate: "put_gateway s w ia body a fam m = None" if l: "length m = length mem" "fam = family" for m fam
  proof -
    have "ext_size + ipv4_size s family + ipv6_size s a family = length m"
      using mem(1) l(1) by (simp add: total_size_def)
    then show ?thesis using v4 l(2) by (simp add: put_gateway_def put_struct_def mem_write_def Let_def)
  qed
  show "Hook_GetAdaptersAddresses s w ia body sg rs g c h ans i a n family (Some mem) out_len = None"
    using f mem(2)
    by (auto simp: Hook_GetAdaptersAddresses_def init Let_def not_less gate
        dest!: put_strings_length mem_write_length put_ipv4_length put_ipv6_length
        split: Option.bind_split)
qed

definition abi64 :: abi where
  "abi64 = \<lparr>sz_info = 704, sz_addrs = 448, sz_uni = 64, sz_gw = 32, sz_in = 16, sz_in6 = 28\<rparr>"

definition chosen_identity :: identity where
  "chosen_identity = identity_initial\<lparr>fake_mac_initialized := True\<rparr>"

theorem reported_size_too_small_witness:
  "Hook_GetAdaptersAddresses abi64 winsys0 (\<lambda>_. 0) (\<lambda>n. replicate (n - 4) 0) (\<lambda>_. []) [] None
      tap_client_initial True Sent chosen_identity adapter_initial \<lparr>wire = [], open_sockets = 0\<rparr>
      AF_INET (Some (replicate 352 0)) 800 = None"
proof -
  have "total_size abi64 adapter_initial AF_INET = 800"
    by (simp add: total_size_def ext_size_def ipv4_size_def ipv6_size_def abi64_def adapter_initial_def)
  then show ?thesis
    using reported_size_too_small [of chosen_identity AF_INET "replicate 352 0" abi64 adapter_initial 800
        winsys0 "\<lambda>_. 0" "\<lambda>n. replicate (n - 4) 0" "\<lambda>_. []" "[]" None tap_client_initial True Sent
        "\<lparr>wire = [], open_sockets = 0\<rparr>" 0]
    by (simp add: chosen_identity_def abi64_def)
qed

section \<open>A buffer with room\<close>

text \<open>What the layout of the parts relies on: every text fits its narrow buffer, and the sizes
  leave room for a length field and the bytes of the structures.\<close>

definition settings_fit :: "winsys \<Rightarrow> identity \<Rightarrow> fake_adapter \<Rightarrow> bool" where
  "settings_fit w i a \<longleftrightarrow> length (to_ansi w (fake_settingID i)) < 64 \<and>
     length (to_ansi w (fake_ipAddress a)) < 16 \<and> length (to_ansi w (fake_ipSubnet a)) < 16 \<and>
     length (to_ansi w (fake_gateway a)) < 16 \<and> length (to_ansi w (g_fakeIPv6Address a)) < 46 \<and>
     length (fake_FriendlyName a) < 64"

definition layout_ok :: "abi \<Rightarrow> (nat \<Rightarrow> bytes) \<Rightarrow> bool" where
  "layout_ok s body \<longleftrightarrow> (\<forall>n. length (body n) = n - 4) \<and> 16 \<le> sz_uni s \<and> 4 \<le> sz_gw s \<and>
     8 \<le> sz_in s \<and> 28 \<le> sz_in6 s"

lemma put_strings_ok:
  assumes f: "settings_fit w i a" and l: "266 \<le> length m"
  shows "\<exists>m'. put_strings w i a m = Some m' \<and> length m' = length m \<and>
    take 64 m' = strncpy_pad 64 (to_ansi w (fake_settingID i)) \<and>
    take (2 * length (fake_FriendlyName a) + 2) (drop friendly_off m') = wbytes (fake_FriendlyName a @ [0]) \<and>
    take 74 (drop desc_off m') = wbytes (fake_description @ [0])"
proof -
  let ?nm = "to_ansi w (fake_settingID i)"
  have nm: "length ?nm < 64" "length (fake_FriendlyName a) < 64" using f by (simp_all add: settings_fit_def)
  have ds: "length (wbytes (fake_description @ [0])) = 74" by (simp add: fake_description_def)
  have pad: "length (strncpy_pad 256 ?nm) = 256" "take 64 (strncpy_pad 256 ?nm) = strncpy_pad 64 ?nm"
    using nm(1) by (simp_all add: strncpy_pad_def min_def)
  obtain m1 where m1: "mem_write m 0 (strncpy_pad 256 ?nm) = Some m1" "length m1 = length m"
    using mem_write_ok [of 0 "strncpy_pad 256 ?nm" m] pad(1) l by auto
  obtain m2 where m2: "mem_write m1 64 (wbytes (fake_FriendlyName a @ [0])) = Some m2"
    "length m2 = length m1"
    using mem_write_ok [of 64 "wbytes (fake_FriendlyName a @ [0])" m1] m1(2) nm(2) l
    by auto
  obtain m3 where m3: "mem_write m2 192 (wbytes (fake_description @ [0])) = Some m3" "length m3 = length m2"
    using mem_write_ok [of 192 "wbytes (fake_description @ [0])" m2] m1(2) m2(2) ds l by auto
  have "take 64 m3 = take 64 m1"
    using mem_write_take [OF m3(1), of 64] mem_write_take [OF m2(1), of 64] by simp
  also have "\<dots> = take 64 (take 256 m1)" by (simp add: min_def)
  also have "take 256 m1 = strncpy_pad 256 ?nm" using mem_write_area [OF m1(1)] pad(1) by simp
  finally have "take 64 m3 = strncpy_pad 64 ?nm" using pad(2) by simp
  moreover have "take (2 * length (fake_FriendlyName a) + 2) (drop 64 m3) = wbytes (fake_FriendlyName a @ [0])"
  proof -
    let ?k = "2 * length (fake_FriendlyName a) + 2"
    have k: "64 + ?k \<le> 192" using nm(2) by simp
    have "take ?k (drop 64 m3) = drop 64 (take (64 + ?k) m3)" by (simp add: drop_take)
    also have "\<dots> = take ?k (drop 64 m2)" using mem_write_take [OF m3(1) k] by (simp add: drop_take)
    also have "\<dots> = wbytes (fake_FriendlyName a @ [0])" using mem_write_area [OF m2(1)] by simp
    finally show ?thesis .
  qed
  moreover have "take 74 (drop 192 m3) = wbytes (fake_description @ [0])"
    using mem_write_area [OF m3(1)] ds by simp
  ultimately show ?thesis using m1 m2 m3 nm(1)
    by (simp add: put_strings_def to_ansi_buf_def name_off_def friendly_off_def desc_off_def)
qed

lemma put_ipv4_ok:
  assumes f: "settings_fit w i a" and lay: "layout_ok s body" and v4: "has_v4 family"
    and l: "ext_size + ipv4_size s family \<le> length m"
  shows "\<exists>m'. put_ipv4 s w ia body a family m =
      Some (m', Some (ext_size, ia (to_ansi w (fake_ipAddress a)), prefix_bits (ia (to_ansi w (fake_ipSubnet a))) 32)) \<and>
    length m' = length m \<and> take ext_size m' = take ext_size m \<and>
    take 4 (drop ext_size m') = le32 (of_nat (sz_uni s))"
proof -
  have "ipv4_size s family = sz_uni s + sz_in s + 16" using v4 by (simp add: ipv4_size_def has_v4_def)
  then obtain m' where m': "put_struct m ext_size (sz_uni s) (body (sz_uni s))
      (le32 0x0002 @ le32 (ia (to_ansi w (fake_ipAddress a)))) = Some m'" "length m' = length m"
    "take ext_size m' = take ext_size m" "take 4 (drop ext_size m') = le32 (of_nat (sz_uni s))"
    using put_struct_ok [of "body (sz_uni s)" "sz_uni s" ext_size
        "le32 0x0002 @ le32 (ia (to_ansi w (fake_ipAddress a)))" m] l lay
    by (auto simp: layout_ok_def)
  then show ?thesis using f v4 by (simp add: put_ipv4_def to_ansi_buf_def settings_fit_def)
qed

text \<open>The IPv6 address of the report; zero when the text is no address.\<close>

definition reported_ipv6 :: "winsys \<Rightarrow> fake_adapter \<Rightarrow> u32 \<Rightarrow> bytes option" where
  "reported_ipv6 w a family =
     (if has_v6 a family
      then Some (case pton6 w (to_ansi w (g_fakeIPv6Address a)) of None \<Rightarrow> replicate 16 0 | Some b \<Rightarrow> b)
      else None)"

lemma put_ipv6_ok:
  assumes f: "settings_fit w i a" and w: "winsys_ok w" and lay: "layout_ok s body"
    and l: "ext_size + ipv4_size s family + ipv6_size s a family \<le> length m"
  shows "\<exists>m' u. put_ipv6 s w body a family m = Some (m', u) \<and> map_option snd u = reported_ipv6 w a family \<and>
    length m' = length m \<and> take (ext_size + ipv4_size s family) m' = take (ext_size + ipv4_size s family) m"
proof (cases "has_v6 a family")
  case True
  let ?ip = "to_ansi w (g_fakeIPv6Address a)"
  let ?addr = "case pton6 w ?ip of None \<Rightarrow> replicate 16 0 | Some b \<Rightarrow> b"
  let ?off = "ext_size + ipv4_size s family"
  have "length ?addr = 16" using w by (auto simp: winsys_ok_def split: option.split)
  moreover have "ipv6_size s a family = sz_uni s + sz_in6 s + 16"
    using True by (simp add: ipv6_size_def has_v6_def)
  ultimately obtain m' where "put_struct m ?off (sz_uni s) (body (sz_uni s))
      (le32 23 @ le32 0 @ ?addr) = Some m'" "length m' = length m" "take ?off m' = take ?off m"
    using put_struct_ok [of "body (sz_uni s)" "sz_uni s" ?off "le32 23 @ le32 0 @ ?addr" m] l lay
    by (auto simp: layout_ok_def)
  then show ?thesis using f True
    by (simp add: put_ipv6_def to_ansi_buf_def settings_fit_def Let_def reported_ipv6_def)
qed (simp add: put_ipv6_def reported_ipv6_def)

lemma put_gateway_ok:
  assumes f: "settings_fit w i a" and lay: "layout_ok s body" and v4: "has_v4 family"
    and l: "ext_size + ipv4_size s family + ipv6_size s a family + sz_gw s + 8 \<le> length m"
  shows "\<exists>m'. put_gateway s w ia body a family m =
      Some (m', Some (ext_size + ipv4_size s family + ipv6_size s a family, ia (to_ansi w (fake_gateway a)))) \<and>
    take (ext_size + ipv4_size s family) m' = take (ext_size + ipv4_size s family) m"
proof -
  let ?off = "ext_size + ipv4_size s family + ipv6_size s a family"
  obtain m' where m': "put_struct m ?off (sz_gw s) (body (sz_gw s))
      (le32 0x0002 @ le32 (ia (to_ansi w (fake_gateway a)))) = Some m'" "take ?off m' = take ?off m"
    using put_struct_ok [of "body (sz_gw s)" "sz_gw s" ?off
        "le32 0x0002 @ le32 (ia (to_ansi w (fake_gateway a)))" m] l lay
    by (auto simp: layout_ok_def)
  moreover have "take (ext_size + ipv4_size s family) m' = take (ext_size + ipv4_size s family) m"
    by (rule take_eq_le [OF m'(2)]) simp
  ultimately show ?thesis using f v4
    by (simp add: put_gateway_def to_ansi_buf_def settings_fit_def Let_def)
qed

text \<open>The answer to a caller with enough room, field by field.\<close>

lemma adapter_answer:
  assumes i: "fake_mac_initialized i" and fam: "family = AF_INET \<or> family = AF_UNSPEC"
    and w: "winsys_ok w" and fit: "settings_fit w i a" and lay: "layout_ok s body"
    and mem: "total_size s a family + sz_gw s + 8 \<le> sz_addrs s + length mem"
      "total_size s a family \<le> unat out_len"
    and ia: "prefix_mask p = Some m" "ia (to_ansi w (fake_ipSubnet a)) = of_le32 (be32 m)"
  shows "\<exists>aa. Hook_GetAdaptersAddresses s w ia body sg rs g c h ans i a n family (Some mem) out_len =
      Some (i, n, Addrs_Ok aa) \<and>
    aa_mac aa = fake_mac i \<and>
    take 64 (aa_ext aa) = strncpy_pad 64 (to_ansi w (fake_settingID i)) \<and>
    take (2 * length (fake_FriendlyName a) + 2) (drop friendly_off (aa_ext aa)) = wbytes (fake_FriendlyName a @ [0]) \<and>
    map_option snd (aa_uni6 aa) = reported_ipv6 w a family \<and>
    aa_first_unicast aa = Some ext_size \<and>
    aa_uni4 aa = Some (ext_size, ia (to_ansi w (fake_ipAddress a)), if p = 32 then 32 else unat p - 24) \<and>
    map_option snd (aa_gateway aa) = Some (ia (to_ansi w (fake_gateway a))) \<and>
    take 68 (drop desc_off (aa_ext aa)) = wbytes (take 32 fake_description) @ le32 (of_nat (sz_uni s))"
proof -
  have v4: "has_v4 family" using fam by (simp add: has_v4_def)
  have sz: "ipv4_size s family = sz_uni s + sz_in s + 16" using v4 by (simp add: ipv4_size_def has_v4_def)
  have sz4: "4 \<le> ipv4_size s family" "10 \<le> ipv4_size s family" using sz by simp_all
  let ?e4 = "ext_size + ipv4_size s family"
  have room: "?e4 + ipv6_size s a family + sz_gw s + 8 \<le> length mem" using mem(1) by (simp add: total_size_def)
  have z: "total_size s a family - sz_addrs s \<le> length mem" using mem(1) by simp
  obtain m0 where m0: "mem_write mem 0 (replicate (total_size s a family - sz_addrs s) 0) = Some m0"
    "length m0 = length mem"
    using mem_write_ok [of 0 "replicate (total_size s a family - sz_addrs s) 0" mem] z by auto
  obtain m1 where m1: "put_strings w i a m0 = Some m1" "length m1 = length m0"
    "take 64 m1 = strncpy_pad 64 (to_ansi w (fake_settingID i))"
    "take (2 * length (fake_FriendlyName a) + 2) (drop friendly_off m1) = wbytes (fake_FriendlyName a @ [0])"
    "take 74 (drop desc_off m1) = wbytes (fake_description @ [0])"
    using put_strings_ok [OF fit, of m0] room sz4 m0(2) by (auto simp: ext_size_def)
  obtain m2 where m2: "put_ipv4 s w ia body a family m1 =
      Some (m2, Some (ext_size, ia (to_ansi w (fake_ipAddress a)), prefix_bits (ia (to_ansi w (fake_ipSubnet a))) 32))"
    "length m2 = length m1" "take ext_size m2 = take ext_size m1"
    "take 4 (drop ext_size m2) = le32 (of_nat (sz_uni s))"
    using put_ipv4_ok [OF fit lay v4, of m1 ia] room m0(2) m1(2) by auto
  obtain m3 u where m3: "put_ipv6 s w body a family m2 = Some (m3, u)" "length m3 = length m2"
    "take ?e4 m3 = take ?e4 m2" "map_option snd u = reported_ipv6 w a family"
    using put_ipv6_ok [OF fit w lay, of family m2] room m0(2) m1(2) m2(2) by auto
  obtain m4 where m4: "put_gateway s w ia body a family m3 =
      Some (m4, Some (?e4 + ipv6_size s a family, ia (to_ansi w (fake_gateway a))))"
    "take ?e4 m4 = take ?e4 m3"
    using put_gateway_ok [OF fit lay v4, of m3 ia] room m0(2) m1(2) m2(2) m3(2) by auto
  have same: "take k m4 = take k m2" if "k \<le> ?e4" for k
    by (rule take_eq_le [OF trans [OF m4(2) m3(3)] that])
  have low: "take 256 m4 = take 256 m1" using same [of 256] m2(3) by (simp add: ext_size_def)
  have name: "take 64 m4 = strncpy_pad 64 (to_ansi w (fake_settingID i))"
    using take_eq_le [OF low, of 64] m1(3) by simp
  have fr: "take (2 * length (fake_FriendlyName a) + 2) (drop 64 m4) = wbytes (fake_FriendlyName a @ [0])"
  proof -
    let ?k = "2 * length (fake_FriendlyName a) + 2"
    have "64 + ?k \<le> 256" using fit by (simp add: settings_fit_def)
    from take_eq_le [OF low this] have "drop 64 (take (64 + ?k) m4) = drop 64 (take (64 + ?k) m1)" by simp
    then show ?thesis using m1(4) by (simp add: drop_take friendly_off_def)
  qed
  have d1: "take 64 (drop 192 m4) = wbytes (take 32 fake_description)"
  proof -
    have "take 64 (drop 192 m4) = drop 192 (take 256 m4)" by (simp add: drop_take)
    also have "\<dots> = take 64 (take 74 (drop 192 m1))" using low by (simp add: drop_take)
    also have "\<dots> = wbytes (take 32 fake_description)"
      using m1(5) by (simp add: desc_off_def fake_description_def)
    finally show ?thesis .
  qed
  have d2: "take 4 (drop 256 m4) = le32 (of_nat (sz_uni s))"
  proof -
    have "take 4 (drop 256 m4) = drop 256 (take 260 m4)" by (simp add: drop_take)
    also have "\<dots> = take 4 (drop 256 m2)" using same [of 260] sz4 by (simp add: ext_size_def drop_take)
    finally show ?thesis using m2(4) by (simp add: ext_size_def)
  qed
  have "take 68 (drop 192 m4) = take 64 (drop 192 m4) @ take 4 (drop 64 (drop 192 m4))"
    using take_add [of 64 4 "drop 192 m4"] by simp
  then have desc: "take 68 (drop 192 m4) = wbytes (take 32 fake_description) @ le32 (of_nat (sz_uni s))"
    using d1 d2 by simp
  show ?thesis
    using fam m0(1) m1(1) m2(1) m3(1) m4(1) mem(2) name desc fr m3(4)
    by (auto simp: Hook_GetAdaptersAddresses_def InitFakeMac_again [OF i] Let_def desc_off_def friendly_off_def
        ia prefix_bits_swapped [OF ia(1)] af_defs)
qed

text \<open>C20. With room for the gateway, GetAdaptersAddresses reports the adapter: its MAC address,
  its name, its IPv4 address and gateway.  Two fields are not what they should be: the last
  five characters of the description are overwritten by the unicast structure behind it, and the
  on-link prefix length is counted from the wrong end of the mask, so that a /p network is
  reported as /(p - 24), and only /32 is right.\<close>

theorem adapter_addresses_report:
  assumes i: "fake_mac_initialized i" and fam: "family = AF_INET \<or> family = AF_UNSPEC"
    and w: "winsys_ok w" and fit: "settings_fit w i a" and lay: "layout_ok s body"
    and mem: "total_size s a family + sz_gw s + 8 \<le> sz_addrs s + length mem"
      "total_size s a family \<le> unat out_len"
    and ia: "prefix_mask p = Some m" "ia (to_ansi w (fake_ipSubnet a)) = of_le32 (be32 m)"
  shows "\<exists>aa. Hook_GetAdaptersAddresses s w ia body sg rs g c h ans i a n family (Some mem) out_len =
      Some (i, n, Addrs_Ok aa) \<and>
    aa_mac aa = fake_mac i \<and>
    take 64 (aa_ext aa) = strncpy_pad 64 (to_ansi w (fake_settingID i)) \<and>
    aa_first_unicast aa = Some ext_size \<and>
    aa_uni4 aa = Some (ext_size, ia (to_ansi w (fake_ipAddress a)), if p = 32 then 32 else unat p - 24) \<and>
    map_option snd (aa_gateway aa) = Some (ia (to_ansi w (fake_gateway a))) \<and>
    take 68 (drop desc_off (aa_ext aa)) = wbytes (take 32 fake_description) @ le32 (of_nat (sz_uni s))"
  using adapter_answer [of i family w a s body mem out_len p m ia sg rs g c h ans n, OF assms] by blast

definition inet_addr0 :: "bytes \<Rightarrow> u32" where
  "inet_addr0 s = (if s = str ''255.0.0.0'' then 0x000000FF else 0)"

theorem adapter_addresses_report_witness:
  "\<exists>aa. Hook_GetAdaptersAddresses abi64 winsys0 inet_addr0 (\<lambda>n. replicate (n - 4) 0) (\<lambda>_. []) [] None
      tap_client_initial True Sent chosen_identity adapter_initial \<lparr>wire = [], open_sockets = 0\<rparr>
      AF_UNSPEC (Some (replicate 400 0)) 800 =
      Some (chosen_identity, \<lparr>wire = [], open_sockets = 0\<rparr>, Addrs_Ok aa) \<and>
    aa_mac aa = fake_mac chosen_identity \<and> aa_uni4 aa = Some (256, 0, 0)"
proof -
  have size: "total_size abi64 adapter_initial AF_UNSPEC = 800"
    by (simp add: total_size_def ext_size_def ipv4_size_def ipv6_size_def abi64_def adapter_initial_def)
  have fit: "settings_fit winsys0 chosen_identity adapter_initial"
    by (simp add: settings_fit_def winsys0_def chosen_identity_def identity_initial_def adapter_initial_def)
  have lay: "layout_ok abi64 (\<lambda>n. replicate (n - 4) 0)" by (simp add: layout_ok_def abi64_def)
  have m: "prefix_mask 8 = Some 0xFF000000" by (simp add: prefix_mask_def)
  have ia: "inet_addr0 (to_ansi winsys0 (fake_ipSubnet adapter_initial)) = of_le32 (be32 0xFF000000)"
    "inet_addr0 (to_ansi winsys0 (fake_ipAddress adapter_initial)) = 0"
    by (simp_all add: inet_addr0_def winsys0_def adapter_initial_def of_le32_def be32_def le32_def)
  have room: "total_size abi64 adapter_initial AF_UNSPEC + sz_gw abi64 + 8 \<le>
      sz_addrs abi64 + length (replicate 400 (0 :: u8))"
    "total_size abi64 adapter_initial AF_UNSPEC \<le> unat (800 :: u32)"
    unfolding size by (simp_all add: abi64_def)
  have "fake_mac_initialized chosen_identity" by (simp add: chosen_identity_def)
  moreover have "AF_UNSPEC = AF_INET \<or> AF_UNSPEC = AF_UNSPEC" by simp
  ultimately show ?thesis
    using adapter_addresses_report [of chosen_identity AF_UNSPEC winsys0 adapter_initial abi64
        "\<lambda>n. replicate (n - 4) 0" "replicate 400 0" 800 8 "0xFF000000" inet_addr0 "\<lambda>_. []" "[]" None
        tap_client_initial True Sent "\<lparr>wire = [], open_sockets = 0\<rparr>", OF _ _ winsys0_ok fit lay room m ia(1)]
    unfolding ia(2) by (auto simp: ext_size_def)
qed

end
