(* ===== verification/Com_Objects.thy ===== *)
theory Com_Objects
  imports Prelude
begin

text \<open>
  The fake COM objects of src/emulate_driver_running.c.  An object is a cell with its class,
  the pointers and flags of its C structure and its reference count; freed cells stay in the
  list as None, so a call through a pointer to a freed object is None.  A call through a
  vtable dispatches on the class of the object.  \<open>heap_ok\<close> is the answer of \<open>HeapAlloc\<close>.
\<close>

section \<open>Objects\<close>

type_synonym oaddr = nat

datatype com_class =
    FakeNetConnection
  | VarEnumIDispatch oaddr
  | FakeVarEnumerator oaddr bool            \<comment> \<open>\<open>fakeConnection\<close>, \<open>alreadyReturned\<close>\<close>
  | FakeConnectionCollection oaddr
  | FakeNetSharingManager oaddr
  | FakeNetSharingConfiguration
  | FakeWbemLocator
  | FakeWbemServices
  | FakeWbemClassObject
  | FakeNetAdapterObject "16 word list"
  | FakeEnumWbemClassObject oaddr bool
  | FakeNetworkListManager
  | FakeEnumNetworkConnections oaddr bool
  | FakeNetworkConnection
  | FakeNetwork
  | RealObject                              \<comment> \<open>an object of Windows the program holds\<close>

type_synonym com_cell = "com_class \<times> int"

record com =
  cells :: "com_cell option list"
  g_FakeRadminConnection :: "oaddr option"

definition com_initial :: com where
  "com_initial = \<lparr>cells = [], g_FakeRadminConnection = None\<rparr>"

definition com_get :: "com \<Rightarrow> oaddr \<Rightarrow> com_cell option" where
  "com_get s a = (if a < length (cells s) then cells s ! a else None)"

definition com_put :: "com \<Rightarrow> oaddr \<Rightarrow> com_cell option \<Rightarrow> com" where
  "com_put s a c = s\<lparr>cells := (cells s)[a := c]\<rparr>"

definition com_alloc :: "com \<Rightarrow> com_class \<Rightarrow> com \<times> oaddr" where
  \<comment> \<open>a new object with reference count 1\<close>
  "com_alloc s k = (s\<lparr>cells := cells s @ [Some (k, 1)]\<rparr>, length (cells s))"

datatype iid =
    IID_IUnknown | IID_IDispatch | IID_IEnumVARIANT | IID_IEnumNetSharingEveryConnection
  | IID_INetSharingManager | IID_INetSharingConfiguration
  | IID_INetSharingEveryConnectionCollection | IID_INetConnection | IID_IWbemLocator
  | IID_IWbemServices | IID_IWbemClassObject | IID_IEnumWbemClassObject
  | IID_INetworkListManager | IID_IEnumNetworkConnections | IID_INetworkConnection
  | IID_INetwork | IID_other nat

datatype hresult = S_OK | S_FALSE | E_INVALIDARG | E_NOTIMPL | E_NOINTERFACE | E_OUTOFMEMORY | E_POINTER

section \<open>AddRef and Release\<close>

text \<open>\<open>InterlockedIncrement(&refCount)\<close>, the same in every class.\<close>

definition com_AddRef :: "com \<Rightarrow> oaddr \<Rightarrow> (com \<times> int) option" where
  "com_AddRef s a = do {
     (k, n) \<leftarrow> com_get s a;
     Some (com_put s a (Some (k, n + 1)), n + 1) }"

text \<open>The counted \<open>Release\<close>: at zero the pointers held are released, then the cell is freed.\<close>

type_synonym release_fun = "com \<Rightarrow> oaddr \<Rightarrow> (com \<times> int) option"

fun release_all :: "release_fun \<Rightarrow> com \<Rightarrow> oaddr list \<Rightarrow> com option" where
  "release_all rel s [] = Some s"
| "release_all rel s (p # ps) = do { (s, _) \<leftarrow> rel s p; release_all rel s ps }"

definition counted_Release :: "release_fun \<Rightarrow> com \<Rightarrow> oaddr \<Rightarrow> oaddr list \<Rightarrow> (com \<times> int) option" where
  "counted_Release rel s a ps = do {
     (k, n) \<leftarrow> com_get s a;
     let s = com_put s a (Some (k, n - 1));
     if n - 1 = 0 then do {
       s \<leftarrow> release_all rel s ps;
       Some (com_put s a None, 0) }
     else Some (s, n - 1) }"

text \<open>The other kind never goes below one and never frees.\<close>

definition Safe_Release :: "com \<Rightarrow> oaddr \<Rightarrow> (com \<times> int) option" where
  "Safe_Release s a = do {
     (k, n) \<leftarrow> com_get s a;
     if n > 1 then Some (com_put s a (Some (k, n - 1)), n - 1) else Some (s, n) }"

definition VarEnumIDispatch_Release :: "release_fun \<Rightarrow> com \<Rightarrow> oaddr \<Rightarrow> oaddr \<Rightarrow> (com \<times> int) option" where
  "VarEnumIDispatch_Release rel s a connection = counted_Release rel s a [connection]"

definition VarEnum_Release :: "release_fun \<Rightarrow> com \<Rightarrow> oaddr \<Rightarrow> oaddr \<Rightarrow> (com \<times> int) option" where
  "VarEnum_Release rel s a fakeConnection = counted_Release rel s a [fakeConnection]"

definition Coll_Release :: "release_fun \<Rightarrow> com \<Rightarrow> oaddr \<Rightarrow> oaddr \<Rightarrow> (com \<times> int) option" where
  "Coll_Release rel s a fakeConnection = counted_Release rel s a [fakeConnection]"

definition SM_Release :: "release_fun \<Rightarrow> com \<Rightarrow> oaddr \<Rightarrow> oaddr \<Rightarrow> (com \<times> int) option" where
  "SM_Release rel s a realManager = counted_Release rel s a [realManager]"

definition Cfg_Release :: "release_fun \<Rightarrow> com \<Rightarrow> oaddr \<Rightarrow> (com \<times> int) option" where
  "Cfg_Release rel s a = counted_Release rel s a []"

definition FakeConn_Release :: "release_fun \<Rightarrow> com \<Rightarrow> oaddr \<Rightarrow> (com \<times> int) option" where
  "FakeConn_Release rel s a = counted_Release rel s a []"

definition FakeSvcs_Release :: "release_fun \<Rightarrow> com \<Rightarrow> oaddr \<Rightarrow> (com \<times> int) option" where
  "FakeSvcs_Release rel s a = counted_Release rel s a []"

definition FakeEnumWbem_Release :: "release_fun \<Rightarrow> com \<Rightarrow> oaddr \<Rightarrow> oaddr \<Rightarrow> (com \<times> int) option" where
  "FakeEnumWbem_Release rel s a fakeObject = counted_Release rel s a [fakeObject]"

definition FENC_Release :: "release_fun \<Rightarrow> com \<Rightarrow> oaddr \<Rightarrow> oaddr \<Rightarrow> (com \<times> int) option" where
  "FENC_Release rel s a fakeConnection = counted_Release rel s a [fakeConnection]"

definition FNC_Release :: "release_fun \<Rightarrow> com \<Rightarrow> oaddr \<Rightarrow> (com \<times> int) option" where
  "FNC_Release rel s a = counted_Release rel s a []"

definition FN_Release :: "release_fun \<Rightarrow> com \<Rightarrow> oaddr \<Rightarrow> (com \<times> int) option" where
  "FN_Release rel s a = counted_Release rel s a []"

definition FakeWbemClass_Release :: "com \<Rightarrow> oaddr \<Rightarrow> (com \<times> int) option" where
  "FakeWbemClass_Release s a = Safe_Release s a"

definition NLM_Release :: "com \<Rightarrow> oaddr \<Rightarrow> (com \<times> int) option" where
  "NLM_Release s a = Safe_Release s a"

text \<open>
  The vtable call \<open>p->lpVtbl->Release(p)\<close>.  Objects that hold pointers hold objects that
  hold none, so two levels are enough (\<open>com_Release\<close>).  The vtable of the adapter object is
  a copy of the dummy vtable, whose \<open>Release\<close> is the immortal one.
\<close>

fun vtable_Release :: "nat \<Rightarrow> com \<Rightarrow> oaddr \<Rightarrow> (com \<times> int) option" where
  "vtable_Release 0 s a = None"
| "vtable_Release (Suc d) s a =
     (case com_get s a of
        None \<Rightarrow> None
      | Some (k, _) \<Rightarrow>
          (case k of
             FakeNetConnection \<Rightarrow> FakeConn_Release (vtable_Release d) s a
           | VarEnumIDispatch c \<Rightarrow> VarEnumIDispatch_Release (vtable_Release d) s a c
           | FakeVarEnumerator c _ \<Rightarrow> VarEnum_Release (vtable_Release d) s a c
           | FakeConnectionCollection c \<Rightarrow> Coll_Release (vtable_Release d) s a c
           | FakeNetSharingManager r \<Rightarrow> SM_Release (vtable_Release d) s a r
           | FakeNetSharingConfiguration \<Rightarrow> Cfg_Release (vtable_Release d) s a
           | FakeWbemLocator \<Rightarrow> Safe_Release s a
           | FakeWbemServices \<Rightarrow> FakeSvcs_Release (vtable_Release d) s a
           | FakeWbemClassObject \<Rightarrow> FakeWbemClass_Release s a
           | FakeNetAdapterObject _ \<Rightarrow> Safe_Release s a
           | FakeEnumWbemClassObject c _ \<Rightarrow> FakeEnumWbem_Release (vtable_Release d) s a c
           | FakeNetworkListManager \<Rightarrow> NLM_Release s a
           | FakeEnumNetworkConnections c _ \<Rightarrow> FENC_Release (vtable_Release d) s a c
           | FakeNetworkConnection \<Rightarrow> FNC_Release (vtable_Release d) s a
           | FakeNetwork \<Rightarrow> FN_Release (vtable_Release d) s a
           | RealObject \<Rightarrow> counted_Release (vtable_Release d) s a []))"

definition com_Release :: "com \<Rightarrow> oaddr \<Rightarrow> (com \<times> int) option" where
  "com_Release s a = vtable_Release 2 s a"

section \<open>QueryInterface\<close>

text \<open>Output: the HRESULT and \<open>*ppvObj\<close> (None is the null pointer).\<close>

type_synonym 'o com_result = "(com \<times> hresult \<times> 'o) option"

definition qi_self :: "iid list \<Rightarrow> com \<Rightarrow> oaddr \<Rightarrow> iid \<Rightarrow> oaddr option com_result" where
  "qi_self iids s a riid =
     (if riid \<in> set iids then do { (s, _) \<leftarrow> com_AddRef s a; Some (s, S_OK, Some a) }
      else Some (s, E_NOINTERFACE, None))"

definition VarEnumIDispatch_QueryInterface :: "com \<Rightarrow> oaddr \<Rightarrow> iid \<Rightarrow> oaddr option com_result" where
  "VarEnumIDispatch_QueryInterface = qi_self [IID_IUnknown, IID_IDispatch]"

definition VarEnum_QueryInterface :: "com \<Rightarrow> oaddr \<Rightarrow> iid \<Rightarrow> oaddr option com_result" where
  "VarEnum_QueryInterface =
     qi_self [IID_IUnknown, IID_IEnumVARIANT, IID_IEnumNetSharingEveryConnection]"

definition Coll_QueryInterface :: "com \<Rightarrow> oaddr \<Rightarrow> iid \<Rightarrow> oaddr option com_result" where
  "Coll_QueryInterface =
     qi_self [IID_IUnknown, IID_INetSharingEveryConnectionCollection, IID_IDispatch]"

definition Cfg_QueryInterface :: "com \<Rightarrow> oaddr \<Rightarrow> iid \<Rightarrow> oaddr option com_result" where
  "Cfg_QueryInterface = qi_self [IID_IUnknown, IID_INetSharingConfiguration, IID_IDispatch]"

definition Dummy_Base_QueryInterface :: "com \<Rightarrow> oaddr \<Rightarrow> iid \<Rightarrow> oaddr option com_result" where
  "Dummy_Base_QueryInterface = qi_self [IID_IUnknown]"

definition FakeWbemLocator_QueryInterface :: "com \<Rightarrow> oaddr \<Rightarrow> iid \<Rightarrow> oaddr option com_result" where
  "FakeWbemLocator_QueryInterface = qi_self [IID_IUnknown, IID_IWbemLocator]"

definition FakeWbemClass_QueryInterface :: "com \<Rightarrow> oaddr \<Rightarrow> iid \<Rightarrow> oaddr option com_result" where
  "FakeWbemClass_QueryInterface = qi_self [IID_IUnknown, IID_IWbemClassObject]"

definition FakeSvcs_QueryInterface :: "com \<Rightarrow> oaddr \<Rightarrow> iid \<Rightarrow> oaddr option com_result" where
  "FakeSvcs_QueryInterface = qi_self [IID_IUnknown, IID_IWbemServices]"

definition FakeEnumWbem_QueryInterface :: "com \<Rightarrow> oaddr \<Rightarrow> iid \<Rightarrow> oaddr option com_result" where
  "FakeEnumWbem_QueryInterface =
     qi_self [IID_IEnumVARIANT, IID_IUnknown, IID_IEnumWbemClassObject]"

definition FakeConn_QueryInterface :: "com \<Rightarrow> oaddr \<Rightarrow> iid \<Rightarrow> oaddr option com_result" where
  "FakeConn_QueryInterface = qi_self [IID_IUnknown, IID_INetConnection]"

definition NLM_QueryInterface :: "com \<Rightarrow> oaddr \<Rightarrow> iid \<Rightarrow> oaddr option com_result" where
  "NLM_QueryInterface = qi_self [IID_IUnknown, IID_IDispatch, IID_INetworkListManager]"

definition FENC_QueryInterface :: "com \<Rightarrow> oaddr \<Rightarrow> iid \<Rightarrow> oaddr option com_result" where
  "FENC_QueryInterface = qi_self [IID_IUnknown, IID_IEnumNetworkConnections]"

definition FNC_QueryInterface :: "com \<Rightarrow> oaddr \<Rightarrow> iid \<Rightarrow> oaddr option com_result" where
  "FNC_QueryInterface = qi_self [IID_IUnknown, IID_IDispatch, IID_INetworkConnection]"

definition FN_QueryInterface :: "com \<Rightarrow> oaddr \<Rightarrow> iid \<Rightarrow> oaddr option com_result" where
  "FN_QueryInterface = qi_self [IID_IUnknown, IID_IDispatch, IID_INetwork]"

text \<open>The proxy answers three interfaces itself and asks the object of Windows for the others:
  \<open>real_has\<close> says which of them that object supports.\<close>

definition SM_QueryInterface ::
    "(iid \<Rightarrow> bool) \<Rightarrow> com \<Rightarrow> oaddr \<Rightarrow> oaddr \<Rightarrow> iid \<Rightarrow> oaddr option com_result" where
  "SM_QueryInterface real_has s a realManager riid =
     (if riid \<in> {IID_IUnknown, IID_INetSharingManager, IID_IDispatch}
      then do { (s, _) \<leftarrow> com_AddRef s a; Some (s, S_OK, Some a) }
      else if real_has riid
      then do { (s, _) \<leftarrow> com_AddRef s realManager; Some (s, S_OK, Some realManager) }
      else Some (s, E_NOINTERFACE, None))"

definition vtable_QueryInterface ::
    "(iid \<Rightarrow> bool) \<Rightarrow> com \<Rightarrow> oaddr \<Rightarrow> iid \<Rightarrow> oaddr option com_result" where
  "vtable_QueryInterface real_has s a riid =
     (case com_get s a of
        None \<Rightarrow> None
      | Some (k, _) \<Rightarrow>
          (case k of
             FakeNetConnection \<Rightarrow> FakeConn_QueryInterface s a riid
           | VarEnumIDispatch _ \<Rightarrow> VarEnumIDispatch_QueryInterface s a riid
           | FakeVarEnumerator _ _ \<Rightarrow> VarEnum_QueryInterface s a riid
           | FakeConnectionCollection _ \<Rightarrow> Coll_QueryInterface s a riid
           | FakeNetSharingManager r \<Rightarrow> SM_QueryInterface real_has s a r riid
           | FakeNetSharingConfiguration \<Rightarrow> Cfg_QueryInterface s a riid
           | FakeWbemLocator \<Rightarrow> FakeWbemLocator_QueryInterface s a riid
           | FakeWbemServices \<Rightarrow> FakeSvcs_QueryInterface s a riid
           | FakeWbemClassObject \<Rightarrow> FakeWbemClass_QueryInterface s a riid
           | FakeNetAdapterObject _ \<Rightarrow> Dummy_Base_QueryInterface s a riid
           | FakeEnumWbemClassObject _ _ \<Rightarrow> FakeEnumWbem_QueryInterface s a riid
           | FakeNetworkListManager \<Rightarrow> NLM_QueryInterface s a riid
           | FakeEnumNetworkConnections _ _ \<Rightarrow> FENC_QueryInterface s a riid
           | FakeNetworkConnection \<Rightarrow> FNC_QueryInterface s a riid
           | FakeNetwork \<Rightarrow> FN_QueryInterface s a riid
           | RealObject \<Rightarrow> (if real_has riid
               then do { (s, _) \<leftarrow> com_AddRef s a; Some (s, S_OK, Some a) }
               else Some (s, E_NOINTERFACE, None))))"

section \<open>Factories\<close>

text \<open>None as address: \<open>HeapAlloc\<close> failed and the function returns a null pointer.\<close>

type_synonym factory = "(com \<times> oaddr option) option"

definition create_leaf :: "bool \<Rightarrow> com \<Rightarrow> com_class \<Rightarrow> com \<times> oaddr option" where
  "create_leaf heap_ok s k =
     (if \<not> heap_ok then (s, None) else (let (s, a) = com_alloc s k in (s, Some a)))"

text \<open>Allocate, store the pointer, \<open>AddRef\<close> the object pointed to.\<close>

definition create_holder :: "bool \<Rightarrow> com \<Rightarrow> com_class \<Rightarrow> oaddr \<Rightarrow> factory" where
  "create_holder heap_ok s k p =
     (if \<not> heap_ok then Some (s, None)
      else (let (s, a) = com_alloc s k in do {
              (s, _) \<leftarrow> com_AddRef s p;
              Some (s, Some a) }))"

definition CreateFakeNetConnection :: "bool \<Rightarrow> com \<Rightarrow> com \<times> oaddr option" where
  "CreateFakeNetConnection heap_ok s = create_leaf heap_ok s FakeNetConnection"

definition CreateFakeNetSharingConfiguration :: "bool \<Rightarrow> com \<Rightarrow> com \<times> oaddr option" where
  "CreateFakeNetSharingConfiguration heap_ok s = create_leaf heap_ok s FakeNetSharingConfiguration"

definition CreateFakeWbemClassObject :: "bool \<Rightarrow> com \<Rightarrow> com \<times> oaddr option" where
  "CreateFakeWbemClassObject heap_ok s = create_leaf heap_ok s FakeWbemClassObject"

definition CreateFakeNetwork :: "bool \<Rightarrow> com \<Rightarrow> com \<times> oaddr option" where
  "CreateFakeNetwork heap_ok s = create_leaf heap_ok s FakeNetwork"

definition CreateFakeNetworkConnection :: "bool \<Rightarrow> com \<Rightarrow> com \<times> oaddr option" where
  "CreateFakeNetworkConnection heap_ok s = create_leaf heap_ok s FakeNetworkConnection"

definition CreateFakeNetworkListManager :: "bool \<Rightarrow> com \<Rightarrow> com \<times> oaddr option" where
  "CreateFakeNetworkListManager heap_ok s = create_leaf heap_ok s FakeNetworkListManager"

definition CreateVarEnumIDispatch :: "bool \<Rightarrow> com \<Rightarrow> oaddr \<Rightarrow> factory" where
  "CreateVarEnumIDispatch heap_ok s conn = create_holder heap_ok s (VarEnumIDispatch conn) conn"

definition CreateVarEnumerator :: "bool \<Rightarrow> com \<Rightarrow> oaddr \<Rightarrow> factory" where
  "CreateVarEnumerator heap_ok s adapter =
     create_holder heap_ok s (FakeVarEnumerator adapter False) adapter"

definition CreateConnectionCollection :: "bool \<Rightarrow> com \<Rightarrow> oaddr \<Rightarrow> factory" where
  "CreateConnectionCollection heap_ok s adapter =
     create_holder heap_ok s (FakeConnectionCollection adapter) adapter"

definition CreateFakeNetSharingManager :: "bool \<Rightarrow> com \<Rightarrow> oaddr \<Rightarrow> factory" where
  "CreateFakeNetSharingManager heap_ok s realManager =
     create_holder heap_ok s (FakeNetSharingManager realManager) realManager"

definition CreateFakeEnumWbemClassObject :: "bool \<Rightarrow> com \<Rightarrow> oaddr \<Rightarrow> factory" where
  "CreateFakeEnumWbemClassObject heap_ok s fakeObject =
     create_holder heap_ok s (FakeEnumWbemClassObject fakeObject False) fakeObject"

text \<open>Here the enumerator takes over the reference of the connection it created.\<close>

definition CreateFakeEnumNetworkConnections :: "bool \<Rightarrow> bool \<Rightarrow> com \<Rightarrow> factory" where
  "CreateFakeEnumNetworkConnections heap_ok1 heap_ok2 s =
     (case CreateFakeNetworkConnection heap_ok1 s of
        (s, None) \<Rightarrow> Some (s, None)
      | (s, Some conn) \<Rightarrow>
          if \<not> heap_ok2 then do { (s, _) \<leftarrow> com_Release s conn; Some (s, None) }
          else (let (s, a) = com_alloc s (FakeEnumNetworkConnections conn False) in
                Some (s, Some a)))"

definition GetOrCreateFakeRadminConnection :: "bool \<Rightarrow> com \<Rightarrow> com \<times> oaddr option" where
  "GetOrCreateFakeRadminConnection heap_ok s =
     (case g_FakeRadminConnection s of
        Some c \<Rightarrow> (s, Some c)
      | None \<Rightarrow> (let (s, c) = CreateFakeNetConnection heap_ok s in
                 (s\<lparr>g_FakeRadminConnection := c\<rparr>, c)))"

section \<open>Enumerators and collections\<close>

text \<open>One object, then nothing: the output is the object fetched (None: none fetched).\<close>

definition fetch_once ::
    "com \<Rightarrow> oaddr \<Rightarrow> com_class \<Rightarrow> oaddr \<Rightarrow> bool \<Rightarrow> nat \<Rightarrow> oaddr option com_result" where
  "fetch_once s a k' p returned celt =
     (if \<not> returned \<and> celt \<ge> 1 then do {
        (s, _) \<leftarrow> com_AddRef s p;
        (_, n) \<leftarrow> com_get s a;
        Some (com_put s a (Some (k', n)), S_OK, Some p) }
      else Some (s, S_FALSE, None))"

definition VarEnum_Next :: "com \<Rightarrow> oaddr \<Rightarrow> nat \<Rightarrow> oaddr option com_result" where
  "VarEnum_Next s a celt =
     (case com_get s a of
        Some (FakeVarEnumerator c r, _) \<Rightarrow> fetch_once s a (FakeVarEnumerator c True) c r celt
      | _ \<Rightarrow> None)"

definition VarEnum_Reset :: "com \<Rightarrow> oaddr \<Rightarrow> unit com_result" where
  "VarEnum_Reset s a =
     (case com_get s a of
        Some (FakeVarEnumerator c r, n) \<Rightarrow>
          Some (com_put s a (Some (FakeVarEnumerator c False, n)), S_OK, ())
      | _ \<Rightarrow> None)"

definition FakeEnumWbem_Next :: "com \<Rightarrow> oaddr \<Rightarrow> nat \<Rightarrow> oaddr option com_result" where
  "FakeEnumWbem_Next s a celt =
     (case com_get s a of
        Some (FakeEnumWbemClassObject c r, _) \<Rightarrow>
          fetch_once s a (FakeEnumWbemClassObject c True) c r celt
      | _ \<Rightarrow> None)"

definition FakeEnumWbem_Reset :: "com \<Rightarrow> oaddr \<Rightarrow> unit com_result" where
  "FakeEnumWbem_Reset s a =
     (case com_get s a of
        Some (FakeEnumWbemClassObject c r, n) \<Rightarrow>
          Some (com_put s a (Some (FakeEnumWbemClassObject c False, n)), S_OK, ())
      | _ \<Rightarrow> None)"

definition FENC_Next :: "com \<Rightarrow> oaddr \<Rightarrow> nat \<Rightarrow> oaddr option com_result" where
  "FENC_Next s a celt =
     (case com_get s a of
        Some (FakeEnumNetworkConnections c r, _) \<Rightarrow>
          fetch_once s a (FakeEnumNetworkConnections c True) c r celt
      | _ \<Rightarrow> None)"

definition FENC_Reset :: "com \<Rightarrow> oaddr \<Rightarrow> unit com_result" where
  "FENC_Reset s a =
     (case com_get s a of
        Some (FakeEnumNetworkConnections c r, n) \<Rightarrow>
          Some (com_put s a (Some (FakeEnumNetworkConnections c False, n)), S_OK, ())
      | _ \<Rightarrow> None)"

text \<open>\<open>Invoke\<close> with DISPID_VALUE hands out the connection in the variant.\<close>

definition invoke_value :: "com \<Rightarrow> oaddr \<Rightarrow> int \<Rightarrow> bool \<Rightarrow> oaddr option com_result" where
  "invoke_value s p dispId has_result =
     (if dispId = 0 \<and> has_result then do { (s, _) \<leftarrow> com_AddRef s p; Some (s, S_OK, Some p) }
      else Some (s, E_NOTIMPL, None))"

definition VarEnumIDispatch_Invoke :: "com \<Rightarrow> oaddr \<Rightarrow> int \<Rightarrow> bool \<Rightarrow> oaddr option com_result" where
  "VarEnumIDispatch_Invoke s a dispId has_result =
     (case com_get s a of
        Some (VarEnumIDispatch c, _) \<Rightarrow> invoke_value s c dispId has_result
      | _ \<Rightarrow> None)"

definition Coll_Invoke :: "com \<Rightarrow> oaddr \<Rightarrow> int \<Rightarrow> bool \<Rightarrow> oaddr option com_result" where
  "Coll_Invoke s a dispId has_result =
     (case com_get s a of
        Some (FakeConnectionCollection c, _) \<Rightarrow> invoke_value s c dispId has_result
      | _ \<Rightarrow> None)"

definition made :: "com \<times> oaddr option \<Rightarrow> com \<times> hresult \<times> oaddr option" where
  "made r = (fst r, (if snd r = None then E_OUTOFMEMORY else S_OK), snd r)"

definition Coll_get__NewEnum :: "bool \<Rightarrow> com \<Rightarrow> oaddr \<Rightarrow> oaddr option com_result" where
  "Coll_get__NewEnum heap_ok s a =
     (case com_get s a of
        Some (FakeConnectionCollection c, _) \<Rightarrow> map_option made (CreateVarEnumerator heap_ok s c)
      | _ \<Rightarrow> None)"

text \<open>\<open>adapter->lpVtbl->AddRef\<close> through a null pointer when the connection could not be
  created and the collection could.\<close>

definition SM_get_EnumEveryConnection :: "bool \<Rightarrow> bool \<Rightarrow> com \<Rightarrow> oaddr option com_result" where
  "SM_get_EnumEveryConnection heap_ok1 heap_ok2 s =
     (case GetOrCreateFakeRadminConnection heap_ok1 s of
        (s, Some c) \<Rightarrow> map_option made (CreateConnectionCollection heap_ok2 s c)
      | (s, None) \<Rightarrow> if heap_ok2 then None else Some (s, E_OUTOFMEMORY, None))"

definition SM_get_INetSharingConfigurationForINetConnection ::
    "bool \<Rightarrow> com \<Rightarrow> oaddr option com_result" where
  "SM_get_INetSharingConfigurationForINetConnection heap_ok s =
     (let (s, c) = CreateFakeNetSharingConfiguration heap_ok s in Some (s, S_OK, c))"

definition NLM_GetNetworkConnections :: "bool \<Rightarrow> bool \<Rightarrow> com \<Rightarrow> oaddr option com_result" where
  "NLM_GetNetworkConnections heap_ok1 heap_ok2 s =
     map_option made (CreateFakeEnumNetworkConnections heap_ok1 heap_ok2 s)"

definition FNC_GetNetwork :: "bool \<Rightarrow> bool \<Rightarrow> com \<Rightarrow> oaddr option com_result" where
  "FNC_GetNetwork heap_ok has_out s =
     (if has_out then Some (made (CreateFakeNetwork heap_ok s)) else Some (s, E_POINTER, None))"

section \<open>CoCreateInstance\<close>

datatype clsid = CLSID_WbemLocator | CLSID_CNetCfg | CLSID_NetSharingManager
  | CLSID_NetworkListManager | CLSID_other nat

text \<open>
  The real function is answered by \<open>real\<close>: None when it fails, otherwise the class
  \<open>RealObject\<close> it made is allocated here.  The patch of the locator's vtable and the dummy
  vtable make the fake locator a \<open>FakeWbemLocator\<close>.
\<close>

definition Hook_CoCreateInstance ::
    "bool \<Rightarrow> bool \<Rightarrow> clsid \<Rightarrow> iid \<Rightarrow> com \<Rightarrow> oaddr option com_result" where
  "Hook_CoCreateInstance heap_ok real_ok rclsid riid s =
     (if rclsid = CLSID_WbemLocator then
        (case create_leaf heap_ok s FakeWbemLocator of
           (s, None) \<Rightarrow> Some (s, E_OUTOFMEMORY, None)
         | (s, Some a) \<Rightarrow> Some (s, S_OK, Some a))
      else
        (case create_leaf real_ok s RealObject of
           (s, None) \<Rightarrow> Some (s, E_NOINTERFACE, None)
         | (s, Some r) \<Rightarrow>
             if rclsid = CLSID_NetSharingManager then do {
               (s, m) \<leftarrow> CreateFakeNetSharingManager heap_ok s r;
               Some (s, S_OK, m) }
             else if rclsid = CLSID_NetworkListManager \<and> riid = IID_INetworkListManager then
               Some (made (CreateFakeNetworkListManager heap_ok s))
             else Some (s, S_OK, Some r)))"

definition Hook_IWbemLocator_ConnectServer :: "bool \<Rightarrow> com \<Rightarrow> oaddr option com_result" where
  "Hook_IWbemLocator_ConnectServer heap_ok s = Some (made (create_leaf heap_ok s FakeWbemServices))"

end
