(* ===== verification/Com_Properties.thy ===== *)
theory Com_Properties
  imports Com_Objects
begin

text \<open>
  Reference counting of the fake COM objects.  A client owns references: \<open>own a\<close> of them to
  the object at \<open>a\<close>.  The invariant relates the count of an object to the references owned by
  the client and held by other objects; it shows that a client that follows the COM rules
  never reaches a freed object, and which objects are never freed.
\<close>

section \<open>The invariant\<close>

fun holds :: "com_class \<Rightarrow> oaddr list" where
  "holds (VarEnumIDispatch c) = [c]"
| "holds (FakeVarEnumerator c r) = [c]"
| "holds (FakeConnectionCollection c) = [c]"
| "holds (FakeNetSharingManager c) = [c]"
| "holds (FakeEnumWbemClassObject c r) = [c]"
| "holds (FakeEnumNetworkConnections c r) = [c]"
| "holds _ = []"

fun exact :: "com_class \<Rightarrow> bool" where
  \<comment> \<open>objects whose count is exactly the number of references\<close>
  "exact FakeWbemLocator = False"
| "exact FakeWbemClassObject = False"
| "exact (FakeNetAdapterObject g) = False"
| "exact FakeNetworkListManager = False"
| "exact RealObject = False"
| "exact _ = True"

definition cell_holds :: "oaddr \<Rightarrow> com_cell option \<Rightarrow> nat" where
  "cell_holds x c = (case c of None \<Rightarrow> 0 | Some (k, _) \<Rightarrow> count_list (holds k) x)"

definition internal :: "com \<Rightarrow> oaddr \<Rightarrow> nat" where
  "internal s x = sum_list (map (cell_holds x) (cells s)) +
     (if g_FakeRadminConnection s = Some x then 1 else 0)"

definition com_inv :: "com \<Rightarrow> (oaddr \<Rightarrow> nat) \<Rightarrow> bool" where
  "com_inv s own \<longleftrightarrow>
     (\<forall>a k n. com_get s a = Some (k, n) \<longrightarrow>
        1 \<le> n \<and> int (own a + internal s a) \<le> n \<and> (exact k \<longrightarrow> n = int (own a + internal s a)) \<and>
        (\<forall>p\<in>set (holds k). \<exists>k' n'. com_get s p = Some (k', n') \<and> holds k' = [])) \<and>
     (\<forall>a. com_get s a = None \<longrightarrow> own a = 0 \<and> internal s a = 0)"

lemma com_inv_live: "com_inv s own \<Longrightarrow> 0 < own a + internal s a \<Longrightarrow> \<exists>k n. com_get s a = Some (k, n)"
  unfolding com_inv_def by (cases "com_get s a") auto

lemma com_invD:
  assumes "com_inv s own" "com_get s a = Some (k, n)"
  shows "1 \<le> n" "int (own a + internal s a) \<le> n" "exact k \<Longrightarrow> n = int (own a + internal s a)"
    "p \<in> set (holds k) \<Longrightarrow> \<exists>k' n'. com_get s p = Some (k', n') \<and> holds k' = []"
  using assms unfolding com_inv_def by blast+

section \<open>Effects of the primitive changes\<close>

lemma com_get_bound: "com_get s a = Some c \<Longrightarrow> a < length (cells s) \<and> cells s ! a = Some c"
  by (auto simp: com_get_def split: if_splits)

lemma com_get_put:
  "a < length (cells s) \<Longrightarrow> com_get (com_put s a c) b = (if b = a then c else com_get s b)"
  by (auto simp: com_get_def com_put_def)

lemma com_put_fields [simp]:
  "length (cells (com_put s a c)) = length (cells s)"
  "g_FakeRadminConnection (com_put s a c) = g_FakeRadminConnection s"
  by (simp_all add: com_put_def)

lemma com_put_put [simp]: "com_put (com_put s a c) a d = com_put s a d"
  by (simp add: com_put_def)

lemma sum_list_update_cell:
  fixes f :: "'c \<Rightarrow> nat"
  assumes "i < length xs"
  shows "sum_list (map f (xs[i := c])) + f (xs ! i) = sum_list (map f xs) + f c"
  using assms
proof (induction xs arbitrary: i)
  case (Cons x xs)
  then show ?case by (cases i) auto
qed simp

lemma internal_put:
  assumes "com_get s a = Some old"
  shows "internal (com_put s a c) x + cell_holds x (Some old) = internal s x + cell_holds x c"
  using com_get_bound [OF assms] sum_list_update_cell [of a "cells s" "cell_holds x" c]
  by (simp add: internal_def com_put_def)

lemma internal_put_same:
  assumes "com_get s a = Some (k, n)" "holds k' = holds k"
  shows "internal (com_put s a (Some (k', m))) x = internal s x"
  using internal_put [OF assms(1), of "Some (k', m)" x] assms(2) by (simp add: cell_holds_def)

lemma internal_free:
  assumes "com_get s a = Some (k, n)"
  shows "internal (com_put s a None) x + count_list (holds k) x = internal s x"
  using internal_put [OF assms, of None x] by (simp add: cell_holds_def)

lemma internal_alloc:
  "internal (fst (com_alloc s k)) x = internal s x + count_list (holds k) x"
  by (simp add: internal_def com_alloc_def cell_holds_def)

lemma com_get_alloc:
  "com_get (fst (com_alloc s k)) b = (if b = length (cells s) then Some (k, 1) else com_get s b)"
  by (auto simp: com_get_def com_alloc_def nth_append)

lemma com_get_new: "com_get s (length (cells s)) = None"
  by (simp add: com_get_def)

text \<open>A change of the count of one object, with its class or another that holds the same.\<close>

lemma com_inv_put:
  assumes inv: "com_inv s own" and a: "com_get s a = Some (k, n)"
    and k': "holds k' = holds k" "exact k' = exact k"
    and n': "1 \<le> n'" "n' - n = int (own' a) - int (own a)"
    and own: "\<And>b. b \<noteq> a \<Longrightarrow> own' b = own b"
  shows "com_inv (com_put s a (Some (k', n'))) own'"
proof -
  let ?s = "com_put s a (Some (k', n'))"
  have get: "com_get ?s b = (if b = a then Some (k', n') else com_get s b)" for b
    using com_get_bound [OF a] by (simp add: com_get_put)
  have int: "internal ?s x = internal s x" for x by (rule internal_put_same [OF a k'(1)])
  show ?thesis
    unfolding com_inv_def
  proof (intro conjI allI impI)
    fix b kb m
    assume g: "com_get ?s b = Some (kb, m)"
    have held: "\<exists>k' n'. com_get ?s p = Some (k', n') \<and> holds k' = []"
      if "com_get s p = Some (kp, np)" "holds kp = []" for p kp np
      using that a k' get by (cases "p = a") auto
    have "1 \<le> m \<and> int (own' b + internal ?s b) \<le> m \<and> (exact kb \<longrightarrow> m = int (own' b + internal ?s b)) \<and>
      (\<forall>p\<in>set (holds kb). \<exists>k' n'. com_get s p = Some (k', n') \<and> holds k' = [])"
    proof (cases "b = a")
      case True
      then have "kb = k'" "m = n'" using g get by auto
      moreover have "exact kb \<Longrightarrow> exact k" using \<open>kb = k'\<close> k'(2) by simp
      ultimately show ?thesis
        using com_invD(2,3,4) [OF inv a] n' k'(1) True by (auto simp: int)
    next
      case False
      then show ?thesis using com_invD [OF inv, of b kb m] g get own [OF False] by (auto simp: int)
    qed
    then show "1 \<le> m" "int (own' b + internal ?s b) \<le> m"
      "exact kb \<Longrightarrow> m = int (own' b + internal ?s b)"
      "\<forall>p\<in>set (holds kb). \<exists>k' n'. com_get ?s p = Some (k', n') \<and> holds k' = []"
      using held by blast+
  next
    fix b
    assume g: "com_get ?s b = None"
    then have "b \<noteq> a" "com_get s b = None" using get by (auto split: if_splits)
    then show "own' b = 0" "internal ?s b = 0" using inv own by (auto simp: com_inv_def int)
  qed
qed

text \<open>\<open>AddRef\<close> on a live object gives the client one more reference.\<close>

lemma AddRef_inv:
  assumes "com_inv s own" "0 < own a + internal s a"
  shows "\<exists>s' r. com_AddRef s a = Some (s', r) \<and> com_inv s' (own(a := own a + 1)) \<and>
    (\<forall>b. b \<noteq> a \<longrightarrow> com_get s' b = com_get s b) \<and> (\<forall>x. internal s' x = internal s x)"
proof -
  obtain k n where a: "com_get s a = Some (k, n)" using com_inv_live [OF assms] by blast
  have "1 \<le> n + 1" using com_invD(1) [OF assms(1) a] by simp
  then have "com_inv (com_put s a (Some (k, n + 1))) (own(a := own a + 1))"
    using com_inv_put [OF assms(1) a refl refl, of "n + 1" "own(a := own a + 1)"] by simp
  then show ?thesis
    using a com_get_bound [OF a] internal_put_same [OF a refl]
    by (simp add: com_AddRef_def com_get_put)
qed

lemma alloc_leaf_inv:
  assumes inv: "com_inv s own" and k: "holds k = []"
  shows "com_inv (fst (com_alloc s k)) (own(length (cells s) := 1))"
proof -
  let ?s = "fst (com_alloc s k)" let ?a = "length (cells s)"
  have new: "own ?a = 0" "internal s ?a = 0"
    using inv com_get_new [of s] by (auto simp: com_inv_def)
  have int: "internal ?s x = internal s x" for x using internal_alloc [of s k x] k by simp
  show ?thesis
    unfolding com_inv_def
  proof (intro conjI allI impI)
    fix b kb m
    assume g: "com_get ?s b = Some (kb, m)"
    have held: "\<exists>k' n'. com_get ?s p = Some (k', n') \<and> holds k' = []"
      if "com_get s p = Some (kp, np)" "holds kp = []" for p kp np
      using that k by (simp add: com_get_alloc)
    have "1 \<le> m \<and> int ((own(?a := 1)) b + internal ?s b) \<le> m \<and>
      (exact kb \<longrightarrow> m = int ((own(?a := 1)) b + internal ?s b)) \<and>
      (\<forall>p\<in>set (holds kb). \<exists>k' n'. com_get s p = Some (k', n') \<and> holds k' = [])"
    proof (cases "b = ?a")
      case True
      then show ?thesis using g new k by (auto simp: com_get_alloc internal_alloc)
    next
      case False
      then show ?thesis using com_invD [OF inv, of b kb m] g by (auto simp: com_get_alloc int)
    qed
    then show "1 \<le> m" "int ((own(?a := 1)) b + internal ?s b) \<le> m"
      "exact kb \<Longrightarrow> m = int ((own(?a := 1)) b + internal ?s b)"
      "\<forall>p\<in>set (holds kb). \<exists>k' n'. com_get ?s p = Some (k', n') \<and> holds k' = []"
      using held by blast+
  next
    fix b
    assume "com_get ?s b = None"
    then have "b \<noteq> ?a" "com_get s b = None" by (auto simp: com_get_alloc split: if_splits)
    then show "(own(?a := 1)) b = 0" "internal ?s b = 0" using inv by (auto simp: com_inv_def int)
  qed
qed

text \<open>A new holder takes over one reference to \<open>p\<close> that the client owned.\<close>

lemma alloc_holder_inv:
  assumes inv: "com_inv s own" and k: "holds k = [p]" "exact k" and p: "1 \<le> own p"
    and leaf: "com_get s p = Some (kp, np)" "holds kp = []"
  shows "com_inv (fst (com_alloc s k)) (own(p := own p - 1, length (cells s) := 1))"
proof -
  let ?s = "fst (com_alloc s k)" let ?a = "length (cells s)"
  let ?own = "own(p := own p - 1, ?a := 1)"
  have new: "own ?a = 0" "internal s ?a = 0"
    using inv com_get_new [of s] by (auto simp: com_inv_def)
  have pa: "p \<noteq> ?a" using leaf(1) com_get_new [of s] by auto
  have int: "internal ?s x = internal s x + (if x = p then 1 else 0)" for x
    using internal_alloc [of s k x] k by simp
  have sum: "?own b + internal ?s b = own b + internal s b" if "b \<noteq> ?a" for b
    using that p by (simp add: int)
  have sum_a: "?own ?a + internal ?s ?a = 1" using new pa by (simp add: int)
  show ?thesis
    unfolding com_inv_def
  proof (intro conjI allI impI)
    fix b kb m
    assume g: "com_get ?s b = Some (kb, m)"
    have held: "\<exists>k' n'. com_get ?s q = Some (k', n') \<and> holds k' = []"
      if "com_get s q = Some (kq, nq)" "holds kq = []" for q kq nq
      using that com_get_new [of s] by (cases "q = ?a") (auto simp: com_get_alloc)
    have "1 \<le> m \<and> int (?own b + internal ?s b) \<le> m \<and> (exact kb \<longrightarrow> m = int (?own b + internal ?s b)) \<and>
      (\<forall>q\<in>set (holds kb). \<exists>k' n'. com_get s q = Some (k', n') \<and> holds k' = [])"
    proof (cases "b = ?a")
      case True
      then show ?thesis using g sum_a k leaf by (simp add: com_get_alloc)
    next
      case False
      then show ?thesis using com_invD [OF inv, of b kb m] g sum [OF False] by (simp add: com_get_alloc)
    qed
    then show "1 \<le> m" "int (?own b + internal ?s b) \<le> m"
      "exact kb \<Longrightarrow> m = int (?own b + internal ?s b)"
      "\<forall>q\<in>set (holds kb). \<exists>k' n'. com_get ?s q = Some (k', n') \<and> holds k' = []"
      using held by blast+
  next
    fix b
    assume "com_get ?s b = None"
    then have b: "b \<noteq> ?a" "com_get s b = None" by (auto simp: com_get_alloc split: if_splits)
    then have "own b + internal s b = 0" using inv by (simp add: com_inv_def)
    then show "?own b = 0" "internal ?s b = 0" using sum [OF b(1)] by simp_all
  qed
qed

text \<open>Freeing an object on which nobody has a reference; what it held becomes the client's.\<close>

lemma free_inv:
  assumes inv: "com_inv s own" and a: "com_get s a = Some (k, n)"
    and own: "own a = 1" "internal s a = 0"
  shows "com_inv (com_put s a None) (\<lambda>x. if x = a then 0 else own x + count_list (holds k) x)"
proof -
  let ?s = "com_put s a None"
  let ?own = "\<lambda>x. if x = a then 0 else own x + count_list (holds k) x"
  have get: "com_get ?s b = (if b = a then None else com_get s b)" for b
    using com_get_bound [OF a] by (simp add: com_get_put)
  have int: "internal ?s x + count_list (holds k) x = internal s x" for x
    by (rule internal_free [OF a])
  have sum: "?own b + internal ?s b = own b + internal s b" if "b \<noteq> a" for b
    using int [of b] that by simp
  have no: "a \<notin> set (holds kb)" if b: "com_get s b = Some (kb, m)" for b kb m
  proof
    assume h: "a \<in> set (holds kb)"
    have "internal (com_put s b None) a + count_list (holds kb) a = internal s a"
      by (rule internal_free [OF b])
    then show False using own(2) h by (simp add: count_list_0_iff)
  qed
  show ?thesis
    unfolding com_inv_def
  proof (intro conjI allI impI)
    fix b kb m
    assume g: "com_get ?s b = Some (kb, m)"
    then have b: "b \<noteq> a" "com_get s b = Some (kb, m)" using get by (auto split: if_splits)
    show "1 \<le> m" "int (?own b + internal ?s b) \<le> m" "exact kb \<Longrightarrow> m = int (?own b + internal ?s b)"
      using com_invD(1,2,3) [OF inv b(2)] sum [OF b(1)] by simp_all
    show "\<forall>p\<in>set (holds kb). \<exists>k' n'. com_get ?s p = Some (k', n') \<and> holds k' = []"
    proof
      fix p assume p: "p \<in> set (holds kb)"
      then have "p \<noteq> a" using no [OF b(2)] by blast
      then show "\<exists>k' n'. com_get ?s p = Some (k', n') \<and> holds k' = []"
        using com_invD(4) [OF inv b(2) p] get by simp
    qed
  next
    fix b
    assume "com_get ?s b = None"
    then have b: "b = a \<or> com_get s b = None" using get by (auto split: if_splits)
    show "?own b = 0"
      using b inv int [of b] by (auto simp: com_inv_def)
    show "internal ?s b = 0"
      using b inv int [of b] own(2) by (auto simp: com_inv_def)
  qed
qed

section \<open>Release\<close>

fun immortal :: "com_class \<Rightarrow> bool" where
  "immortal FakeWbemLocator = True"
| "immortal FakeWbemClassObject = True"
| "immortal (FakeNetAdapterObject g) = True"
| "immortal FakeNetworkListManager = True"
| "immortal _ = False"

definition leaf_after :: "com_class \<Rightarrow> int \<Rightarrow> com_cell option \<times> int" where
  "leaf_after k n =
     (if immortal k then (if n > 1 then (Some (k, n - 1), n - 1) else (Some (k, n), n))
      else if n - 1 = 0 then (None, 0) else (Some (k, n - 1), n - 1))"

lemma com_put_same: "com_get s a = Some c \<Longrightarrow> com_put s a (Some c) = s"
  using com_get_bound [of s a c] list_update_id [of "cells s" a] by (cases s) (simp add: com_put_def)

lemmas release_defs = VarEnumIDispatch_Release_def VarEnum_Release_def Coll_Release_def SM_Release_def
  Cfg_Release_def FakeConn_Release_def FakeSvcs_Release_def FakeEnumWbem_Release_def
  FENC_Release_def FNC_Release_def FN_Release_def FakeWbemClass_Release_def NLM_Release_def

lemma Release_leaf:
  assumes "com_get s a = Some (k, n)" "holds k = []"
  shows "vtable_Release (Suc d) s a = Some (com_put s a (fst (leaf_after k n)), snd (leaf_after k n))"
proof -
  note same = com_put_same [OF assms(1)]
  show ?thesis
    using assms same
    by (cases k) (simp_all add: release_defs counted_Release_def Safe_Release_def leaf_after_def Let_def)
qed

lemma Release_holder:
  assumes "com_get s a = Some (k, n)" "holds k = [p]"
  shows "vtable_Release (Suc d) s a = counted_Release (vtable_Release d) s a [p]"
  using assms by (cases k) (simp_all add: release_defs)

lemma leaf_exact: "holds k = [] \<Longrightarrow> \<not> immortal k \<Longrightarrow> exact k \<or> k = RealObject"
  by (cases k) auto

lemma holder_exact: "holds k = [p] \<Longrightarrow> exact k"
  by (cases k) auto

lemma Release_leaf_inv:
  assumes inv: "com_inv s own" and a: "com_get s a = Some (k, n)" "holds k = []"
    and own: "0 < own a"
  shows "com_inv (com_put s a (fst (leaf_after k n))) (own(a := own a - 1))"
proof -
  have n: "1 \<le> n" "int (own a + internal s a) \<le> n" using com_invD(1,2) [OF inv a(1)] by auto
  have dec: "com_inv (com_put s a (Some (k, n - 1))) (own(a := own a - 1))" if "1 \<le> n - 1"
    using com_inv_put [OF inv a(1) refl refl that, of "own(a := own a - 1)"] own by simp
  show ?thesis
  proof (cases "immortal k")
    case True
    show ?thesis
    proof (cases "n > 1")
      case True
      then show ?thesis using dec \<open>immortal k\<close> by (simp add: leaf_after_def)
    next
      case False
      have ne: "\<not> exact k" using \<open>immortal k\<close> by (cases k) auto
      have "int (own a - 1 + internal s a) \<le> n" using n own by simp
      then have "com_inv s (own(a := own a - 1))"
        using inv a(1) ne unfolding com_inv_def by auto
      then show ?thesis using False \<open>immortal k\<close> com_put_same [OF a(1)] by (simp add: leaf_after_def)
    qed
  next
    case False
    show ?thesis
    proof (cases "n - 1 = 0")
      case True
      then have one: "own a = 1" "internal s a = 0" using n own by auto
      have e: "(\<lambda>x. if x = a then 0 else own x + count_list (holds k) x) = own(a := own a - 1)"
        using a(2) one by (auto simp: fun_eq_iff)
      from free_inv [OF inv a(1) one, unfolded e]
      show ?thesis using True False by (simp add: leaf_after_def)
    next
      case f: False
      then have "1 \<le> n - 1" using n by simp
      from dec [OF this] show ?thesis using f False by (simp add: leaf_after_def)
    qed
  qed
qed

text \<open>Releasing an owned reference returns and gives the reference up.\<close>

lemma com_put_commute: "a \<noteq> b \<Longrightarrow> com_put (com_put s a x) b y = com_put (com_put s b y) a x"
  by (simp add: com_put_def list_update_swap)

lemma Release_inv:
  assumes inv: "com_inv s own" and own: "0 < own a"
  shows "\<exists>s' r. com_Release s a = Some (s', r) \<and> com_inv s' (own(a := own a - 1))"
proof -
  obtain k n where a: "com_get s a = Some (k, n)" using com_inv_live [OF inv, of a] own by auto
  consider "holds k = []" | p where "holds k = [p]" by (cases k) auto
  then show ?thesis
  proof cases
    case 1
    then show ?thesis
      using Release_leaf [OF a 1, of 1] Release_leaf_inv [OF inv a 1 own]
      by (simp add: com_Release_def numeral_2_eq_2)
  next
    case (2 p)
    note n = com_invD(1) [OF inv a] com_invD(3) [OF inv a holder_exact [OF 2]]
    have rel: "com_Release s a = counted_Release (vtable_Release 1) s a [p]"
      using Release_holder [OF a 2, of 1] by (simp add: com_Release_def numeral_2_eq_2)
    show ?thesis
    proof (cases "n - 1 = 0")
      case False
      then have "com_Release s a = Some (com_put s a (Some (k, n - 1)), n - 1)"
        using rel a by (simp add: counted_Release_def Let_def)
      moreover have "com_inv (com_put s a (Some (k, n - 1))) (own(a := own a - 1))"
        using com_inv_put [OF inv a refl refl, of "n - 1" "own(a := own a - 1)"] own False n(1) by simp
      ultimately show ?thesis by blast
    next
      case True
      then have one: "own a = 1" "internal s a = 0" using n own by auto
      obtain kp np where p: "com_get s p = Some (kp, np)" "holds kp = []"
        using com_invD(4) [OF inv a, of p] 2 by auto
      have pa: "p \<noteq> a" using p a 2 by auto
      let ?s1 = "com_put s a (Some (k, n - 1))" and ?s2 = "com_put s a None"
      let ?own2 = "\<lambda>x. if x = a then 0 else own x + count_list (holds k) x"
      have inv2: "com_inv ?s2 ?own2" by (rule free_inv [OF inv a one])
      have al: "a < length (cells s)" using com_get_bound [OF a] by simp
      have g1: "com_get ?s1 p = Some (kp, np)" and g2: "com_get ?s2 p = Some (kp, np)"
        using p pa al by (simp_all add: com_get_put)
      let ?c = "fst (leaf_after kp np)"
      have "vtable_Release 1 ?s1 p = Some (com_put ?s1 p ?c, snd (leaf_after kp np))"
        using Release_leaf [OF g1 p(2), of 0] by simp
      then have "com_Release s a = Some (com_put (com_put ?s1 p ?c) a None, 0)"
        using rel a True by (simp add: counted_Release_def Let_def)
      moreover have "com_put (com_put ?s1 p ?c) a None = com_put ?s2 p ?c"
        using pa by (simp add: com_put_commute [of p a])
      moreover have "com_inv (com_put ?s2 p ?c) (?own2(p := ?own2 p - 1))"
        using Release_leaf_inv [OF inv2 g2 p(2)] pa 2 by simp
      moreover have "?own2(p := ?own2 p - 1) = own(a := own a - 1)"
        using pa 2 one by (auto simp: fun_eq_iff)
      ultimately show ?thesis by auto
    qed
  qed
qed

section \<open>Calls of a client\<close>

lemma QueryInterface_shape:
  assumes "com_get s a = Some (k, n)"
  shows "(\<exists>iids. vtable_QueryInterface rh s a riid = qi_self iids s a riid) \<or>
    (\<exists>r. k = FakeNetSharingManager r \<and> vtable_QueryInterface rh s a riid = SM_QueryInterface rh s a r riid) \<or>
    (k = RealObject \<and> vtable_QueryInterface rh s a riid =
      (if rh riid then do { (s, _) \<leftarrow> com_AddRef s a; Some (s, S_OK, Some a) }
       else Some (s, E_NOINTERFACE, None)))"
proof (cases "\<exists>r. k = FakeNetSharingManager r \<or> k = RealObject")
  case True
  then show ?thesis using assms by (auto simp: vtable_QueryInterface_def)
next
  case False
  then have "\<exists>iids. vtable_QueryInterface rh s a riid = qi_self iids s a riid"
    using assms
    unfolding vtable_QueryInterface_def VarEnumIDispatch_QueryInterface_def VarEnum_QueryInterface_def
      Coll_QueryInterface_def Cfg_QueryInterface_def Dummy_Base_QueryInterface_def
      FakeWbemLocator_QueryInterface_def FakeWbemClass_QueryInterface_def FakeSvcs_QueryInterface_def
      FakeEnumWbem_QueryInterface_def FakeConn_QueryInterface_def NLM_QueryInterface_def
      FENC_QueryInterface_def FNC_QueryInterface_def FN_QueryInterface_def
    by (cases k) auto
  then show ?thesis by blast
qed

definition gain :: "(oaddr \<Rightarrow> nat) \<Rightarrow> oaddr option \<Rightarrow> oaddr \<Rightarrow> nat" where
  "gain own out = (case out of None \<Rightarrow> own | Some p \<Rightarrow> own(p := own p + 1))"

lemma gain_simps [simp]: "gain own None = own" "gain own (Some p) = own(p := own p + 1)"
  by (simp_all add: gain_def)

text \<open>A call is good: it returns, and the client owns one more reference to what it got.\<close>

definition good_call :: "(oaddr \<Rightarrow> nat) \<Rightarrow> oaddr option com_result \<Rightarrow> bool" where
  "good_call own res \<longleftrightarrow> (\<exists>s' h out. res = Some (s', h, out) \<and> com_inv s' (gain own out))"

lemma addref_good:
  assumes "com_inv s own" "0 < own a + internal s a"
  shows "good_call own (do { (s, _) \<leftarrow> com_AddRef s a; Some (s, h, Some a) })"
  using AddRef_inv [OF assms] by (auto simp: good_call_def)

lemma none_good: "com_inv s own \<Longrightarrow> good_call own (Some (s, h, None))"
  by (simp add: good_call_def)

lemma holds_internal:
  assumes "com_get s a = Some (k, n)" "p \<in> set (holds k)"
  shows "0 < internal s p"
proof -
  have "count_list (holds k) p \<noteq> 0" using assms(2) by (simp add: count_list_0_iff)
  then show ?thesis using internal_free [OF assms(1), of p] by simp
qed

lemma QueryInterface_good:
  assumes inv: "com_inv s own" and own: "0 < own a"
  shows "good_call own (vtable_QueryInterface rh s a riid)"
proof -
  obtain k n where a: "com_get s a = Some (k, n)" using com_inv_live [OF inv, of a] own by auto
  have self: "good_call own (do { (s, _) \<leftarrow> com_AddRef s a; Some (s, S_OK, Some a) })"
    using addref_good [OF inv, of a] own by simp
  from QueryInterface_shape [OF a, of rh riid] show ?thesis
  proof (elim disjE exE conjE)
    fix iids assume "vtable_QueryInterface rh s a riid = qi_self iids s a riid"
    then show ?thesis using self none_good [OF inv] by (simp add: qi_self_def)
  next
    fix r assume k: "k = FakeNetSharingManager r"
      and q: "vtable_QueryInterface rh s a riid = SM_QueryInterface rh s a r riid"
    have "0 < internal s r" using holds_internal [OF a] k by simp
    then have "good_call own (do { (s, _) \<leftarrow> com_AddRef s r; Some (s, S_OK, Some r) })"
      using addref_good [OF inv, of r] by simp
    then show ?thesis using q self none_good [OF inv] by (simp add: SM_QueryInterface_def)
  next
    assume "vtable_QueryInterface rh s a riid =
      (if rh riid then do { (s, _) \<leftarrow> com_AddRef s a; Some (s, S_OK, Some a) }
       else Some (s, E_NOINTERFACE, None))"
    then show ?thesis using self none_good [OF inv] by simp
  qed
qed

lemma create_leaf_good:
  assumes "com_inv s own" "holds k = []"
  shows "good_call own (Some (made (create_leaf h s k)))"
proof (cases h)
  case True
  have "own (length (cells s)) = 0" using assms(1) com_get_new [of s] by (auto simp: com_inv_def)
  then show ?thesis
    using True alloc_leaf_inv [OF assms]
    by (simp add: create_leaf_def made_def good_call_def com_alloc_def)
qed (use none_good [OF assms(1)] in \<open>simp add: create_leaf_def made_def\<close>)

lemma com_get_alloc_put:
  "p < length (cells s) \<Longrightarrow>
   com_put (fst (com_alloc s k)) p c = fst (com_alloc (com_put s p c) k)"
  by (simp add: com_put_def com_alloc_def list_update_append)

lemma create_holder_good:
  assumes inv: "com_inv s own" and k: "holds k = [p]"
    and p: "0 < own p + internal s p" and leaf: "\<exists>kp np. com_get s p = Some (kp, np) \<and> holds kp = []"
  shows "\<exists>s' out. create_holder h s k p = Some (s', out) \<and> com_inv s' (gain own out)"
proof (cases h)
  case False
  then show ?thesis using inv by (simp add: create_holder_def)
next
  case True
  obtain kp np where l: "com_get s p = Some (kp, np)" "holds kp = []" using leaf by blast
  let ?s1 = "com_put s p (Some (kp, np + 1))"
  let ?a = "length (cells s)"
  have bound: "p < ?a" using com_get_bound [OF l(1)] by simp
  have ar: "com_AddRef s p = Some (?s1, np + 1)" using l by (simp add: com_AddRef_def)
  have i1: "com_inv ?s1 (own(p := own p + 1))" using AddRef_inv [OF inv p] ar by auto
  have l1: "com_get ?s1 p = Some (kp, np + 1)" using bound by (simp add: com_get_put)
  have new: "own ?a = 0" using inv com_get_new [of s] by (auto simp: com_inv_def)
  have i2: "com_inv (fst (com_alloc ?s1 k)) (own(?a := 1))"
    using alloc_holder_inv [OF i1 k holder_exact [OF k] _ l1 l(2)] by simp
  have "create_holder h s k p = Some (fst (com_alloc ?s1 k), Some ?a)"
    using True l bound
    by (simp add: create_holder_def com_AddRef_def com_alloc_def com_get_def com_put_def nth_append
        list_update_append Let_def)
  then show ?thesis using i2 new by simp
qed

lemma fetch_once_good:
  assumes inv: "com_inv s own" and a: "com_get s a = Some (k, n)" "holds k = [p]"
    and k': "holds k' = [p]" "exact k' = exact k"
  shows "good_call own (fetch_once s a k' p returned celt)"
proof (cases "\<not> returned \<and> celt \<ge> 1")
  case False
  then have "fetch_once s a k' p returned celt = Some (s, S_FALSE, None)"
    by (simp only: fetch_once_def if_False)
  then show ?thesis using none_good [OF inv] by simp
next
  case True
  have "0 < internal s p" using holds_internal [OF a(1)] a(2) by simp
  then obtain s1 r where ar: "com_AddRef s p = Some (s1, r)" "com_inv s1 (own(p := own p + 1))"
      "\<forall>b. b \<noteq> p \<longrightarrow> com_get s1 b = com_get s b"
    using AddRef_inv [OF inv, of p] by auto
  obtain kp np where p: "com_get s p = Some (kp, np)" "holds kp = []"
    using com_invD(4) [OF inv a(1), of p] a(2) by auto
  have "p \<noteq> a" using p a by auto
  then have g: "com_get s1 a = Some (k, n)" using ar(3) a(1) by simp
  have "com_inv (com_put s1 a (Some (k', n))) (own(p := own p + 1))"
    using com_inv_put [OF ar(2) g, of k' n "own(p := own p + 1)"] k' a(2) com_invD(1) [OF inv a(1)]
    by simp
  then show ?thesis
    using True ar(1) g by (simp add: fetch_once_def good_call_def)
qed

lemma reset_inv:
  assumes "com_inv s own" "com_get s a = Some (k, n)" "holds k' = holds k" "exact k' = exact k"
  shows "com_inv (com_put s a (Some (k', n))) own"
  using com_inv_put [OF assms(1,2,3,4), of n own] com_invD(1) [OF assms(1,2)] by simp

lemma held_good:
  assumes "com_inv s own" "com_get s a = Some (k, n)" "holds k = [p]"
  shows "good_call own (invoke_value s p d hr)"
    "good_call own (map_option made (CreateVarEnumerator h s p))"
proof -
  have i: "0 < own p + internal s p" using holds_internal [OF assms(2), of p] assms(3) by simp
  show "good_call own (invoke_value s p d hr)"
    using addref_good [OF assms(1) i] none_good [OF assms(1)] by (simp add: invoke_value_def)
  have "\<exists>kp np. com_get s p = Some (kp, np) \<and> holds kp = []"
    using com_invD(4) [OF assms(1,2), of p] assms(3) by simp
  then show "good_call own (map_option made (CreateVarEnumerator h s p))"
    using create_holder_good [OF assms(1) _ i, of "FakeVarEnumerator p False" h]
    by (auto simp: CreateVarEnumerator_def good_call_def made_def)
qed

lemma set_global_inv:
  assumes inv: "com_inv s own" and g: "g_FakeRadminConnection s = None" and c: "0 < own c"
  shows "com_inv (s\<lparr>g_FakeRadminConnection := Some c\<rparr>) (own(c := own c - 1))"
proof -
  let ?s = "s\<lparr>g_FakeRadminConnection := Some c\<rparr>"
  have get: "com_get ?s b = com_get s b" for b by (simp add: com_get_def)
  have int: "internal ?s b = internal s b + (if b = c then 1 else 0)" for b
    using g by (simp add: internal_def)
  have sum: "(own(c := own c - 1)) b + internal ?s b = own b + internal s b" for b
    using c by (simp add: int)
  show ?thesis
    unfolding com_inv_def get sum
  proof (intro conjI allI impI)
    fix b assume "com_get s b = None"
    then have "own b + internal s b = 0" using inv by (simp add: com_inv_def)
    then have "(own(c := own c - 1)) b + internal ?s b = 0" using sum [of b] by simp
    then show "(own(c := own c - 1)) b = 0" "internal ?s b = 0" by simp_all
  qed (use com_invD [OF inv] in blast)+
qed

lemma GetOrCreate_inv:
  assumes inv: "com_inv s own"
    and conn: "\<And>c. g_FakeRadminConnection s = Some c \<Longrightarrow> \<exists>n. com_get s c = Some (FakeNetConnection, n)"
  shows "\<exists>s1 out. GetOrCreateFakeRadminConnection h s = (s1, out) \<and> com_inv s1 own \<and>
    (out = None \<longleftrightarrow> g_FakeRadminConnection s = None \<and> \<not> h) \<and>
    (\<forall>c. out = Some c \<longrightarrow> g_FakeRadminConnection s1 = Some c \<and>
       (\<exists>n. com_get s1 c = Some (FakeNetConnection, n)))"
proof (cases "g_FakeRadminConnection s")
  case (Some c)
  then show ?thesis using inv conn by (simp add: GetOrCreateFakeRadminConnection_def)
next
  case None
  show ?thesis
  proof (cases h)
    case False
    have e: "s\<lparr>g_FakeRadminConnection := None\<rparr> = s" using None by (cases s) simp
    have "GetOrCreateFakeRadminConnection h s = (s, None)"
      using False None e
      by (simp only: GetOrCreateFakeRadminConnection_def CreateFakeNetConnection_def create_leaf_def
          option.case not_False_eq_True if_True Let_def prod.case)
    then show ?thesis using inv False None by simp
  next
    case True
    let ?a = "length (cells s)" let ?s = "fst (com_alloc s FakeNetConnection)"
    have i: "com_inv ?s (own(?a := 1))" using alloc_leaf_inv [OF inv] by simp
    have g: "g_FakeRadminConnection ?s = None" using None by (simp add: com_alloc_def)
    have new: "own ?a = 0" using inv com_get_new [of s] by (auto simp: com_inv_def)
    have "(own(?a := 1))(?a := (own(?a := 1)) ?a - 1) = own" using new by auto
    then have i2: "com_inv (?s\<lparr>g_FakeRadminConnection := Some ?a\<rparr>) own"
      using set_global_inv [OF i g, of ?a] by simp
    have "com_get (?s\<lparr>g_FakeRadminConnection := Some ?a\<rparr>) ?a = Some (FakeNetConnection, 1)"
      by (simp add: com_get_def com_alloc_def nth_append)
    then show ?thesis using i2 True None
      by (simp add: GetOrCreateFakeRadminConnection_def CreateFakeNetConnection_def create_leaf_def
          com_alloc_def)
  qed
qed

lemma EnumEvery_good:
  assumes inv: "com_inv s own"
    and conn: "\<And>c. g_FakeRadminConnection s = Some c \<Longrightarrow> \<exists>n. com_get s c = Some (FakeNetConnection, n)"
    and ok: "g_FakeRadminConnection s = None \<Longrightarrow> h2 \<Longrightarrow> h1"
  shows "good_call own (SM_get_EnumEveryConnection h1 h2 s)"
proof -
  obtain s1 out where g: "GetOrCreateFakeRadminConnection h1 s = (s1, out)" "com_inv s1 own"
    "out = None \<longleftrightarrow> g_FakeRadminConnection s = None \<and> \<not> h1"
    "\<forall>c. out = Some c \<longrightarrow> g_FakeRadminConnection s1 = Some c \<and>
       (\<exists>n. com_get s1 c = Some (FakeNetConnection, n))"
    using GetOrCreate_inv [OF inv conn, of h1] by blast
  show ?thesis
  proof (cases out)
    case None
    then have "\<not> h2" using g(3) ok by blast
    then show ?thesis using g(1,2) None by (simp add: SM_get_EnumEveryConnection_def good_call_def)
  next
    case (Some c)
    obtain n where c: "g_FakeRadminConnection s1 = Some c" "com_get s1 c = Some (FakeNetConnection, n)"
      using g(4) Some by blast
    have i: "0 < own c + internal s1 c" using c(1) by (simp add: internal_def)
    have "\<exists>kp np. com_get s1 c = Some (kp, np) \<and> holds kp = []" using c(2) by auto
    from create_holder_good [OF g(2) _ i this, of "FakeConnectionCollection c" h2]
    show ?thesis using g(1) Some
      by (auto simp: SM_get_EnumEveryConnection_def CreateConnectionCollection_def good_call_def made_def)
  qed
qed

end
