(* ===== verification/Wmi.thy ===== *)
theory Wmi
  imports Com_Properties Adapter_Report
begin

text \<open>
  The fake WMI provider of src/emulate_driver_running.c: the queries of the fake services
  object, which hand out enumerators over one object, and the properties of the two kinds
  of objects.  The objects live in the heap of \<open>Com_Objects\<close>; what they report comes from the
  identity and the settings of the fake adapter.  None is a call through a null pointer or
  an access outside a buffer.
\<close>

section \<open>Properties of the configuration object\<close>

datatype variant =
    VT_EMPTY
  | VT_NULL
  | VT_BSTR wstr
  | VT_BOOL bool
  | VT_I4 int
  | VT_ARRAY_BSTR "wstr list"

text \<open>The answers of the environment: the random numbers, GUID, client and socket that
  \<open>InitFakeMac\<close> uses, whether \<open>SafeArrayCreateVector\<close> returns an array, and the real registry,
  which opens a path and reads a value with its type.\<close>

record wmi_env =
  we_string_from_guid :: "bytes \<Rightarrow> wstr"
  we_rand :: "nat list"
  we_guid :: "bytes option"
  we_client :: tap_client
  we_heap_ok :: bool
  we_udp :: udp_answer
  we_array_ok :: bool
  we_reg_open :: "wstr \<Rightarrow> nat option"
  we_reg_query :: "nat \<Rightarrow> wstr \<Rightarrow> (u32 \<times> wstr) option"

definition init_mac :: "wmi_env \<Rightarrow> identity \<Rightarrow> net \<Rightarrow> (identity \<times> net) option" where
  "init_mac e i n = InitFakeMac (we_string_from_guid e) (we_rand e) (we_guid e) (we_client e)
     (we_heap_ok e) (we_udp e) i n"

definition firewall_path :: "bool \<Rightarrow> wstr" where
  "firewall_path wow =
     str ''SOFTWARE'' @ (if wow then 92 # str ''WOW6432Node'' else []) @
     92 # str ''Famatech'' @ 92 # str ''RadminVPN'' @ 92 # str ''1.0'' @ 92 # str ''Firewall''"

text \<open>The text written to the output buffer (also when the type is wrong) and the answer.\<close>

definition GetRadminAdapterIdFromRegistry :: "wmi_env \<Rightarrow> wstr option \<times> bool" where
  "GetRadminAdapterIdFromRegistry e =
     (case (case we_reg_open e (firewall_path True) of
              Some h \<Rightarrow> Some h | None \<Rightarrow> we_reg_open e (firewall_path False)) of
        None \<Rightarrow> (None, False)
      | Some h \<Rightarrow>
          (case we_reg_query e h (str ''AdapterId'') of
             None \<Rightarrow> (None, False)
           | Some (ty, guid) \<Rightarrow> (Some guid, ty = 1)))"

definition init_setting_id :: "wmi_env \<Rightarrow> identity \<Rightarrow> identity" where
  "init_setting_id e i =
     (if fake_settingID_initialized i then i
      else (let i = i\<lparr>fake_settingID_initialized := True\<rparr> in
            case GetRadminAdapterIdFromRegistry e of
              (Some guid, _) \<Rightarrow> i\<lparr>fake_settingID := guid\<rparr>
            | (None, _) \<Rightarrow> i))"

definition hex_pair :: "u8 \<Rightarrow> wstr" where
  "hex_pair b = map (\<lambda>n. of_nat (if n < 10 then 48 + n else 55 + n)) [unat b div 16, unat b mod 16]"

text \<open>\<open>%02X:%02X:%02X:%02X:%02X:%02X\<close>\<close>

fun mac_text :: "bytes \<Rightarrow> wstr" where
  "mac_text [] = []"
| "mac_text [b] = hex_pair b"
| "mac_text (b # bs) = hex_pair b @ 58 # mac_text bs"

definition fake_serviceName :: wstr where "fake_serviceName = str ''RvNetMP60''"
definition fake_dns :: wstr where "fake_dns = str ''8.8.8.8''"

definition one_string :: "wmi_env \<Rightarrow> wstr \<Rightarrow> variant" where
  "one_string e s = (if we_array_ok e then VT_ARRAY_BSTR [s] else VT_EMPTY)"

definition FakeWbemClass_Get ::
    "wmi_env \<Rightarrow> fake_adapter \<Rightarrow> wstr option \<Rightarrow> bool \<Rightarrow> identity \<Rightarrow> net \<Rightarrow>
     (identity \<times> net \<times> hresult \<times> variant option) option" where
  "FakeWbemClass_Get e a wszName has_val i n =
     (case wszName of
        None \<Rightarrow> Some (i, n, E_INVALIDARG, None)
      | Some name \<Rightarrow>
          if \<not> has_val then Some (i, n, E_INVALIDARG, None)
          else if name = str ''ServiceName'' then Some (i, n, S_OK, Some (VT_BSTR fake_serviceName))
          else if name = str ''Description'' then Some (i, n, S_OK, Some (VT_BSTR fake_description))
          else if name = str ''SettingID'' then
            (let i = init_setting_id e i in Some (i, n, S_OK, Some (VT_BSTR (fake_settingID i))))
          else if name = str ''DHCPEnabled'' then Some (i, n, S_OK, Some (VT_BOOL False))
          else if name = str ''IPAddress'' then Some (i, n, S_OK, Some (one_string e (fake_ipAddress a)))
          else if name = str ''IPSubnet'' then Some (i, n, S_OK, Some (one_string e (fake_ipSubnet a)))
          else if name = str ''DefaultIPGateway'' then
            Some (i, n, S_OK, Some (one_string e (fake_gateway a)))
          else if name = str ''DNSServerSearchOrder'' then Some (i, n, S_OK, Some (one_string e fake_dns))
          else if name = str ''MACAddress'' then do {
            (i, n) \<leftarrow> init_mac e i n;
            Some (i, n, S_OK, Some (VT_BSTR (mac_text (fake_mac i)))) }
          else Some (i, n, S_OK, Some VT_NULL))"

definition FakeWbemClass_GetNames :: "wmi_env \<Rightarrow> hresult \<times> wstr list" where
  "FakeWbemClass_GetNames e =
     (if \<not> we_array_ok e then (E_OUTOFMEMORY, [])
      else (S_OK, [str ''ServiceName'', str ''Description'', str ''SettingID'', str ''DHCPEnabled'',
        str ''IPAddress'', str ''IPSubnet'', str ''DefaultIPGateway'', str ''DNSServerSearchOrder'',
        str ''MACAddress'']))"

section \<open>Properties of the adapter object\<close>

definition CreateFakeNetAdapterObject :: "bool \<Rightarrow> com \<Rightarrow> wstr option \<Rightarrow> com \<times> oaddr option" where
  "CreateFakeNetAdapterObject heap_ok s guid =
     create_leaf heap_ok s (FakeNetAdapterObject
       (case guid of None \<Rightarrow> str ''{00000000-0000-0000-0000-000000000000}'' | Some g \<Rightarrow> g))"

definition object_path :: "wstr \<Rightarrow> wstr" where
  "object_path guid = [92, 92] @ str ''localhost'' @ 92 # str ''ROOT'' @ 92 #
     str ''CIMV2:Win32_NetworkAdapter.DeviceID='' @ 34 # guid @ [34]"

text \<open>\<open>_snwprintf(path, 255, ...)\<close> leaves a text of 255 characters or more unterminated.\<close>

definition FakeNetAdapter_Get ::
    "wmi_env \<Rightarrow> fake_adapter \<Rightarrow> wstr \<Rightarrow> wstr \<Rightarrow> identity \<Rightarrow> net \<Rightarrow>
     (identity \<times> net \<times> hresult \<times> variant) option" where
  "FakeNetAdapter_Get e a guid name i n =
     (if name = str ''GUID'' then Some (i, n, S_OK, VT_BSTR guid)
      else if name = str ''ServiceName'' then Some (i, n, S_OK, VT_BSTR fake_serviceName)
      else if name = str ''MACAddress'' then do {
        (i, n) \<leftarrow> init_mac e i n;
        Some (i, n, S_OK, VT_BSTR (mac_text (fake_mac i))) }
      else if name = str ''Index'' then Some (i, n, S_OK, VT_I4 1)
      else if name = str ''Name'' then Some (i, n, S_OK, VT_BSTR (fake_FriendlyName a))
      else if name = str ''PNPDeviceID'' then
        Some (i, n, S_OK, VT_BSTR (str ''ROOT'' @ 92 # str ''NET'' @ 92 # str ''0000''))
      else if name = str ''SettingID'' then Some (i, n, S_OK, VT_BSTR (fake_settingID i))
      else if name = str ''DeviceID'' then Some (i, n, S_OK, VT_BSTR guid)
      else if name = str ''__PATH'' then
        (if length (object_path guid) < 255 then Some (i, n, S_OK, VT_BSTR (object_path guid)) else None)
      else if name = str ''NetEnabled'' then Some (i, n, S_OK, VT_BOOL True)
      else if name = str ''NetConnectionStatus'' then Some (i, n, S_OK, VT_I4 2)
      else if name = str ''ConfigManagerErrorCode'' then Some (i, n, S_OK, VT_I4 0)
      else if name = str ''Status'' then Some (i, n, S_OK, VT_BSTR (str ''OK''))
      else if name = str ''Availability'' then Some (i, n, S_OK, VT_I4 3)
      else if name = str ''NetConnectionID'' then Some (i, n, S_OK, VT_BSTR (fake_FriendlyName a))
      else Some (i, n, S_OK, VT_NULL))"

section \<open>Queries\<close>

text \<open>The text between a marker and the next closing character.\<close>

definition between :: "wstr \<Rightarrow> u16 \<Rightarrow> wstr \<Rightarrow> wstr option" where
  "between prefix close_char s = do {
     start \<leftarrow> strstr s prefix;
     let start = drop (length prefix) start;
     rest \<leftarrow> strchr start close_char;
     Some (take (length start - length rest) start) }"

definition ExtractDeviceIDFromPath :: "wstr \<Rightarrow> wstr option" where
  "ExtractDeviceIDFromPath path = between (str ''DeviceID='' @ [34]) 34 path"

definition ExtractGuidFromQuery :: "wstr option \<Rightarrow> wstr option" where
  "ExtractGuidFromQuery strQuery =
     (case strQuery of None \<Rightarrow> None | Some q \<Rightarrow> between (str ''GUID='' @ [39]) 39 q)"

text \<open>An object, an enumerator over it, and the release of the creator's reference.\<close>

definition wmi_enum :: "bool \<Rightarrow> com \<times> oaddr option \<Rightarrow> oaddr option com_result" where
  "wmi_enum heap_ok r =
     (case r of
        (s, None) \<Rightarrow> Some (s, E_OUTOFMEMORY, None)
      | (s, Some fakeObj) \<Rightarrow> do {
          (s, ppEnum) \<leftarrow> CreateFakeEnumWbemClassObject heap_ok s fakeObj;
          (s, _) \<leftarrow> com_Release s fakeObj;
          Some (made (s, ppEnum)) })"

definition FakeSvcs_CreateInstanceEnum ::
    "bool \<Rightarrow> bool \<Rightarrow> com \<Rightarrow> wstr option \<Rightarrow> oaddr option com_result" where
  "FakeSvcs_CreateInstanceEnum h1 h2 s strFilter =
     (case strFilter of
        None \<Rightarrow> Some (s, S_FALSE, None)
      | Some f \<Rightarrow>
          if icmp_eq f (str ''Win32_NetworkAdapterConfiguration'')
          then wmi_enum h2 (CreateFakeWbemClassObject h1 s)
          else Some (s, S_FALSE, None))"

text \<open>The 64-character buffer of the normalised GUID: \<open>swprintf\<close> cuts, \<open>wcscpy\<close> does not.\<close>

definition query_guid :: "wstr \<Rightarrow> wstr option" where
  "query_guid guid =
     (if guid = [] \<or> guid ! 0 \<noteq> 123 then Some (take 63 (123 # guid @ [125]))
      else if length guid < 64 then Some guid
      else None)"

text \<open>The second test of the source for the same text is never reached.\<close>

definition FakeSvcs_ExecQuery ::
    "bool \<Rightarrow> bool \<Rightarrow> identity \<Rightarrow> com \<Rightarrow> wstr option \<Rightarrow> oaddr option com_result" where
  "FakeSvcs_ExecQuery h1 h2 i s strQuery =
     (case strQuery of
        None \<Rightarrow> Some (s, S_FALSE, None)
      | Some q \<Rightarrow>
          if contains q (str ''Win32_NetworkAdapter'') then
            (case ExtractGuidFromQuery (Some q) of
               None \<Rightarrow> wmi_enum h2 (CreateFakeNetAdapterObject h1 s (Some (fake_settingID i)))
             | Some guid \<Rightarrow> do {
                 queryGuid \<leftarrow> query_guid guid;
                 if \<not> icmp_eq queryGuid (fake_settingID i) then Some (s, S_FALSE, None)
                 else wmi_enum h2 (CreateFakeNetAdapterObject h1 s (Some (fake_settingID i))) })
          else Some (s, S_FALSE, None))"

text \<open>With a fake locator nobody stores a real \<open>GetObject\<close>, so the fallback calls a null
  pointer; \<open>real\<close> is the stored function, if any.\<close>

definition Hook_IWbemServices_GetObject ::
    "(com \<Rightarrow> wstr \<Rightarrow> oaddr option com_result) option \<Rightarrow> bool \<Rightarrow> com \<Rightarrow> wstr \<Rightarrow> oaddr option com_result" where
  "Hook_IWbemServices_GetObject real heap_ok s path =
     (if contains path (str ''Win32_NetworkAdapterConfiguration'') then
        (let (s, ob) = CreateFakeWbemClassObject heap_ok s in Some (s, S_OK, ob))
      else if contains path (str ''Win32_NetworkAdapter'') then
        Some (made (CreateFakeNetAdapterObject heap_ok s (ExtractDeviceIDFromPath path)))
      else (case real of None \<Rightarrow> None | Some f \<Rightarrow> f s path))"

definition FakeSvcs_ExecMethod :: "wstr \<Rightarrow> wstr option \<Rightarrow> fake_adapter \<Rightarrow> fake_adapter \<times> hresult" where
  "FakeSvcs_ExecMethod path method a =
     (if contains path (str ''Win32_NetworkAdapter'') then
        (case method of
           None \<Rightarrow> (a, S_OK)
         | Some m \<Rightarrow>
             if icmp_eq m (str ''Enable'') \<or> icmp_eq m (str ''EnableDevice'')
             then (a\<lparr>g_FakeConnectionStatus := NCS_CONNECTED\<rparr>, S_OK)
             else if icmp_eq m (str ''Disable'') \<or> icmp_eq m (str ''DisableDevice'')
             then (a\<lparr>g_FakeConnectionStatus := NCS_DISCONNECTED\<rparr>, S_OK)
             else (a, S_OK))
      else (a, S_OK))"

end
