(* ===== verification/Com_Claims.thy ===== *)
theory Com_Claims
  imports Wmi
begin

text \<open>
  A client of the fake COM objects, call by call.  \<open>com_call\<close> is what a call does,
  \<open>com_allowed\<close> what the COM rules ask of the client (it calls through a reference it owns, a
  method of the object's interface), \<open>com_reach\<close> the states a client that obeys them can reach,
  with the references it owns.
\<close>

section \<open>Calls\<close>

datatype client_call =
    Call_AddRef oaddr
  | Call_Release oaddr
  | Call_QueryInterface oaddr iid
  | Call_VarEnum_Next oaddr nat
  | Call_VarEnum_Reset oaddr
  | Call_Wbem_Next oaddr nat
  | Call_Wbem_Reset oaddr
  | Call_FENC_Next oaddr nat
  | Call_FENC_Reset oaddr
  | Call_Dispatch_Invoke oaddr int bool
  | Call_Coll_Invoke oaddr int bool
  | Call_NewEnum oaddr bool
  | Call_EnumEvery oaddr bool bool
  | Call_SharingConfiguration oaddr bool
  | Call_Connections oaddr bool bool
  | Call_GetNetwork oaddr bool bool
  | Call_ConnectServer oaddr bool
  | Call_InstanceEnum oaddr bool bool "wstr option"
  | Call_ExecQuery oaddr bool bool identity "wstr option"
  | Call_GetObject oaddr bool wstr
  | Call_CoCreateInstance bool bool clsid iid

text \<open>The object a call goes through, and the classes that have the method.\<close>

fun call_target :: "client_call \<Rightarrow> oaddr option" where
  "call_target (Call_AddRef a) = Some a"
| "call_target (Call_Release a) = Some a"
| "call_target (Call_QueryInterface a _) = Some a"
| "call_target (Call_VarEnum_Next a _) = Some a"
| "call_target (Call_VarEnum_Reset a) = Some a"
| "call_target (Call_Wbem_Next a _) = Some a"
| "call_target (Call_Wbem_Reset a) = Some a"
| "call_target (Call_FENC_Next a _) = Some a"
| "call_target (Call_FENC_Reset a) = Some a"
| "call_target (Call_Dispatch_Invoke a _ _) = Some a"
| "call_target (Call_Coll_Invoke a _ _) = Some a"
| "call_target (Call_NewEnum a _) = Some a"
| "call_target (Call_EnumEvery a _ _) = Some a"
| "call_target (Call_SharingConfiguration a _) = Some a"
| "call_target (Call_Connections a _ _) = Some a"
| "call_target (Call_GetNetwork a _ _) = Some a"
| "call_target (Call_ConnectServer a _) = Some a"
| "call_target (Call_InstanceEnum a _ _ _) = Some a"
| "call_target (Call_ExecQuery a _ _ _ _) = Some a"
| "call_target (Call_GetObject a _ _) = Some a"
| "call_target (Call_CoCreateInstance _ _ _ _) = None"

fun has_method :: "client_call \<Rightarrow> com_class \<Rightarrow> bool" where
  "has_method (Call_VarEnum_Next _ _) k = (case k of FakeVarEnumerator _ _ \<Rightarrow> True | _ \<Rightarrow> False)"
| "has_method (Call_VarEnum_Reset _) k = (case k of FakeVarEnumerator _ _ \<Rightarrow> True | _ \<Rightarrow> False)"
| "has_method (Call_Wbem_Next _ _) k = (case k of FakeEnumWbemClassObject _ _ \<Rightarrow> True | _ \<Rightarrow> False)"
| "has_method (Call_Wbem_Reset _) k = (case k of FakeEnumWbemClassObject _ _ \<Rightarrow> True | _ \<Rightarrow> False)"
| "has_method (Call_FENC_Next _ _) k = (case k of FakeEnumNetworkConnections _ _ \<Rightarrow> True | _ \<Rightarrow> False)"
| "has_method (Call_FENC_Reset _) k = (case k of FakeEnumNetworkConnections _ _ \<Rightarrow> True | _ \<Rightarrow> False)"
| "has_method (Call_Dispatch_Invoke _ _ _) k = (case k of VarEnumIDispatch _ \<Rightarrow> True | _ \<Rightarrow> False)"
| "has_method (Call_Coll_Invoke _ _ _) k = (case k of FakeConnectionCollection _ \<Rightarrow> True | _ \<Rightarrow> False)"
| "has_method (Call_NewEnum _ _) k = (case k of FakeConnectionCollection _ \<Rightarrow> True | _ \<Rightarrow> False)"
| "has_method (Call_EnumEvery _ _ _) k = (case k of FakeNetSharingManager _ \<Rightarrow> True | _ \<Rightarrow> False)"
| "has_method (Call_SharingConfiguration _ _) k =
     (case k of FakeNetSharingManager _ \<Rightarrow> True | _ \<Rightarrow> False)"
| "has_method (Call_Connections _ _ _) k = (k = FakeNetworkListManager)"
| "has_method (Call_GetNetwork _ _ _) k = (k = FakeNetworkConnection)"
| "has_method (Call_ConnectServer _ _) k = (k = FakeWbemLocator)"
| "has_method (Call_InstanceEnum _ _ _ _) k = (k = FakeWbemServices)"
| "has_method (Call_ExecQuery _ _ _ _ _) k = (k = FakeWbemServices)"
| "has_method (Call_GetObject _ _ _) k = (k = FakeWbemServices)"
| "has_method _ k = True"

text \<open>Three calls of the code are undefined for reasons other than references: the query with
  a GUID of 64 characters or more, \<open>GetObject\<close> on a foreign path, and \<open>get_EnumEveryConnection\<close>
  when the heap refuses the connection and then grants the collection.\<close>

fun call_defined :: "com \<Rightarrow> client_call \<Rightarrow> bool" where
  "call_defined s (Call_EnumEvery _ h1 h2) = (g_FakeRadminConnection s = None \<longrightarrow> h2 \<longrightarrow> h1)"
| "call_defined s (Call_ExecQuery _ _ _ _ q) =
     (case ExtractGuidFromQuery q of None \<Rightarrow> True | Some g \<Rightarrow> query_guid g \<noteq> None)"
| "call_defined s (Call_GetObject _ _ path) = contains path (str ''Win32_NetworkAdapter'')"
| "call_defined s _ = True"

definition com_allowed :: "com \<Rightarrow> (oaddr \<Rightarrow> nat) \<Rightarrow> client_call \<Rightarrow> bool" where
  "com_allowed s own c \<longleftrightarrow> call_defined s c \<and>
     (case call_target c of
        None \<Rightarrow> True
      | Some a \<Rightarrow> 0 < own a \<and>
          (case com_get s a of None \<Rightarrow> True | Some (k, _) \<Rightarrow> has_method c k))"

text \<open>The effect: the new state and the object handed out.\<close>

definition drop_out :: "(com \<times> 'x) option \<Rightarrow> (com \<times> oaddr option) option" where
  "drop_out = map_option (\<lambda>(s, _). (s, None))"

definition the_out :: "oaddr option com_result \<Rightarrow> (com \<times> oaddr option) option" where
  "the_out = map_option (\<lambda>(s, _, p). (s, p))"

fun com_call :: "(iid \<Rightarrow> bool) \<Rightarrow> com \<Rightarrow> client_call \<Rightarrow> (com \<times> oaddr option) option" where
  "com_call rh s (Call_AddRef a) = map_option (\<lambda>(s, _). (s, Some a)) (com_AddRef s a)"
| "com_call rh s (Call_Release a) = drop_out (com_Release s a)"
| "com_call rh s (Call_QueryInterface a riid) = the_out (vtable_QueryInterface rh s a riid)"
| "com_call rh s (Call_VarEnum_Next a celt) = the_out (VarEnum_Next s a celt)"
| "com_call rh s (Call_VarEnum_Reset a) = drop_out (VarEnum_Reset s a)"
| "com_call rh s (Call_Wbem_Next a celt) = the_out (FakeEnumWbem_Next s a celt)"
| "com_call rh s (Call_Wbem_Reset a) = drop_out (FakeEnumWbem_Reset s a)"
| "com_call rh s (Call_FENC_Next a celt) = the_out (FENC_Next s a celt)"
| "com_call rh s (Call_FENC_Reset a) = drop_out (FENC_Reset s a)"
| "com_call rh s (Call_Dispatch_Invoke a d r) = the_out (VarEnumIDispatch_Invoke s a d r)"
| "com_call rh s (Call_Coll_Invoke a d r) = the_out (Coll_Invoke s a d r)"
| "com_call rh s (Call_NewEnum a h) = the_out (Coll_get__NewEnum h s a)"
| "com_call rh s (Call_EnumEvery a h1 h2) = the_out (SM_get_EnumEveryConnection h1 h2 s)"
| "com_call rh s (Call_SharingConfiguration a h) =
     the_out (SM_get_INetSharingConfigurationForINetConnection h s)"
| "com_call rh s (Call_Connections a h1 h2) = the_out (NLM_GetNetworkConnections h1 h2 s)"
| "com_call rh s (Call_GetNetwork a h r) = the_out (FNC_GetNetwork h r s)"
| "com_call rh s (Call_ConnectServer a h) = the_out (Hook_IWbemLocator_ConnectServer h s)"
| "com_call rh s (Call_InstanceEnum a h1 h2 f) = the_out (FakeSvcs_CreateInstanceEnum h1 h2 s f)"
| "com_call rh s (Call_ExecQuery a h1 h2 i q) = the_out (FakeSvcs_ExecQuery h1 h2 i s q)"
| "com_call rh s (Call_GetObject a h path) = the_out (Hook_IWbemServices_GetObject None h s path)"
| "com_call rh s (Call_CoCreateInstance h r cl riid) = the_out (Hook_CoCreateInstance h r cl riid s)"

fun own_after :: "(oaddr \<Rightarrow> nat) \<Rightarrow> client_call \<Rightarrow> oaddr option \<Rightarrow> oaddr \<Rightarrow> nat" where
  "own_after own (Call_Release a) out = own(a := own a - 1)"
| "own_after own _ out = gain own out"

inductive com_reach :: "(iid \<Rightarrow> bool) \<Rightarrow> com \<Rightarrow> (oaddr \<Rightarrow> nat) \<Rightarrow> bool" for rh where
  start: "com_reach rh com_initial (\<lambda>_. 0)"
| call: "\<lbrakk>com_reach rh s own; com_allowed s own c; com_call rh s c = Some (s', out)\<rbrakk> \<Longrightarrow>
    com_reach rh s' (own_after own c out)"


section \<open>Cells keep their class\<close>

fun flag_free :: "com_class \<Rightarrow> com_class" where
  "flag_free (FakeVarEnumerator c r) = FakeVarEnumerator c False"
| "flag_free (FakeEnumWbemClassObject c r) = FakeEnumWbemClassObject c False"
| "flag_free (FakeEnumNetworkConnections c r) = FakeEnumNetworkConnections c False"
| "flag_free k = k"

definition cell_step :: "com_cell option \<Rightarrow> com_cell option \<Rightarrow> bool" where
  "cell_step c c' \<longleftrightarrow>
     (case (c, c') of
        (None, None) \<Rightarrow> True
      | (None, Some _) \<Rightarrow> False
      | (Some (k, _), None) \<Rightarrow> \<not> immortal k
      | (Some (k, _), Some (k', _)) \<Rightarrow> flag_free k' = flag_free k)"

definition evolves :: "com \<Rightarrow> com \<Rightarrow> bool" where
  "evolves s s' \<longleftrightarrow> g_FakeRadminConnection s' = g_FakeRadminConnection s \<and>
     length (cells s) \<le> length (cells s') \<and>
     (\<forall>a<length (cells s). cell_step (cells s ! a) (cells s' ! a))"

lemma immortal_flag_free: "flag_free k' = flag_free k \<Longrightarrow> immortal k' = immortal k"
  by (cases k; cases k') auto

lemma connection_flag_free: "flag_free k = FakeNetConnection \<longleftrightarrow> k = FakeNetConnection"
  by (cases k) auto

lemma cell_step_refl [simp]: "cell_step c c"
  by (auto simp: cell_step_def split: option.splits)

lemma cell_step_trans: "cell_step a b \<Longrightarrow> cell_step b c \<Longrightarrow> cell_step a c"
proof (cases a; cases b; cases c)
  fix x y z assume e: "a = Some x" "b = Some y" "c = Some z" "cell_step a b" "cell_step b c"
  then show ?thesis by (cases x; cases y; cases z) (simp add: cell_step_def)
next
  fix x y assume e: "a = Some x" "b = Some y" "c = None" "cell_step a b" "cell_step b c"
  then show ?thesis
    using immortal_flag_free [of "fst y" "fst x"] by (cases x; cases y) (simp add: cell_step_def)
qed (simp_all add: cell_step_def split: prod.splits)

lemma evolves_at: "evolves s s' \<Longrightarrow> a < length (cells s) \<Longrightarrow> cell_step (cells s ! a) (cells s' ! a)"
  by (simp add: evolves_def)

lemma evolves_refl [simp]: "evolves s s"
  by (simp add: evolves_def)

lemma evolves_trans:
  assumes "evolves s s1" "evolves s1 s2"
  shows "evolves s s2"
proof -
  have "cell_step (cells s ! a) (cells s2 ! a)" if "a < length (cells s)" for a
    using assms that cell_step_trans [of "cells s ! a" "cells s1 ! a"] by (simp add: evolves_def)
  then show ?thesis using assms by (simp add: evolves_def)
qed

lemma evolvesD:
  assumes "evolves s s'" "com_get s a = Some (k, n)" "com_get s' a = Some (k', n')"
  shows "flag_free k' = flag_free k"
proof -
  have "cell_step (cells s ! a) (cells s' ! a)"
    using evolves_at [OF assms(1)] com_get_bound [OF assms(2)] by blast
  then show ?thesis
    using com_get_bound [OF assms(2)] com_get_bound [OF assms(3)] by (simp add: cell_step_def)
qed

lemma evolves_immortal:
  assumes "evolves s s'" "com_get s a = Some (k, n)" "immortal k"
  shows "\<exists>k' n'. com_get s' a = Some (k', n') \<and> flag_free k' = flag_free k"
proof -
  have b: "a < length (cells s)" "cells s ! a = Some (k, n)" using com_get_bound [OF assms(2)] by auto
  have "a < length (cells s')" using assms(1) b by (simp add: evolves_def)
  moreover have "cell_step (cells s ! a) (cells s' ! a)" using evolves_at [OF assms(1) b(1)] .
  ultimately show ?thesis using b assms(3) by (auto simp: cell_step_def com_get_def split: option.splits)
qed

lemma evolves_put:
  assumes "a < length (cells s)" "cell_step (cells s ! a) c"
  shows "evolves s (com_put s a c)"
  using assms by (simp add: evolves_def com_put_def nth_list_update)

lemma evolves_put_some:
  assumes "com_get s a = Some (k, n)" "flag_free k' = flag_free k"
  shows "evolves s (com_put s a (Some (k', m)))"
  by (rule evolves_put) (use com_get_bound [OF assms(1)] assms(2) in \<open>auto simp: cell_step_def\<close>)

lemma evolves_alloc [simp]: "evolves s (fst (com_alloc s k))"
  by (simp add: evolves_def com_alloc_def nth_append)

lemma evolves_AddRef: "com_AddRef s a = Some (s', r) \<Longrightarrow> evolves s s'"
  by (cases "com_get s a") (auto simp: com_AddRef_def evolves_put_some)

lemma evolves_release_all:
  assumes rel: "\<And>s a s' r. rel s a = Some (s', r) \<Longrightarrow> evolves s s'"
    and "release_all rel s ps = Some s'"
  shows "evolves s s'"
  using assms(2)
proof (induction ps arbitrary: s)
  case (Cons p ps)
  then obtain s1 r where "rel s p = Some (s1, r)" "release_all rel s1 ps = Some s'"
    by (auto split: Option.bind_splits)
  then show ?case using Cons.IH rel evolves_trans by blast
qed simp

lemma evolves_counted:
  assumes rel: "\<And>s a s' r. rel s a = Some (s', r) \<Longrightarrow> evolves s s'"
    and a: "com_get s a = Some (k, n)" "\<not> immortal k"
    and res: "counted_Release rel s a ps = Some (s', r)"
  shows "evolves s s'"
proof -
  let ?s1 = "com_put s a (Some (k, n - 1))"
  have e1: "evolves s ?s1" by (rule evolves_put_some [OF a(1) refl])
  show ?thesis
  proof (cases "n - 1 = 0")
    case False
    then show ?thesis using res a(1) e1 by (auto simp: counted_Release_def Let_def)
  next
    case True
    then obtain s2 where s2: "release_all rel ?s1 ps = Some s2" "s' = com_put s2 a None"
      using res a(1) by (auto simp: counted_Release_def Let_def split: Option.bind_splits)
    have e2: "evolves ?s1 s2" by (rule evolves_release_all [OF rel s2(1)])
    have e: "evolves s s2" by (rule evolves_trans [OF e1 e2])
    have al: "a < length (cells s)" "cells s ! a = Some (k, n)" using com_get_bound [OF a(1)] by auto
    have al2: "a < length (cells s2)" using e al(1) by (simp add: evolves_def)
    have cs: "cell_step (Some (k, n)) (cells s2 ! a)" using evolves_at [OF e al(1)] al(2) by simp
    have "cell_step (cells s2 ! a) None"
    proof (cases "cells s2 ! a")
      case (Some c)
      then show ?thesis
        using cs a(2) immortal_flag_free [of "fst c" k] by (cases c) (simp add: cell_step_def)
    qed (simp add: cell_step_def)
    then show ?thesis using evolves_trans [OF e evolves_put [OF al2]] s2(2) by simp
  qed
qed

lemma evolves_safe: "Safe_Release s a = Some (s', r) \<Longrightarrow> evolves s s'"
  by (cases "com_get s a") (auto simp: Safe_Release_def evolves_put_some split: if_splits)

lemma evolves_vtable_Release: "vtable_Release d s a = Some (s', r) \<Longrightarrow> evolves s s'"
proof (induction d arbitrary: s a s' r)
  case (Suc d)
  obtain k n where a: "com_get s a = Some (k, n)" using Suc.prems by (cases "com_get s a") auto
  note cnt = evolves_counted [OF Suc.IH a]
  show ?case
  proof (cases "immortal k")
    case True
    then show ?thesis using Suc.prems a evolves_safe by (cases k) (auto simp: release_defs)
  next
    case False
    then show ?thesis using Suc.prems a cnt by (cases k) (auto simp: release_defs)
  qed
qed simp

lemma evolves_Release: "com_Release s a = Some (s', r) \<Longrightarrow> evolves s s'"
  unfolding com_Release_def by (rule evolves_vtable_Release)

lemma evolves_create_leaf: "create_leaf h s k = (s', out) \<Longrightarrow> evolves s s'"
  using evolves_alloc [of s k] by (cases "com_alloc s k") (auto simp: create_leaf_def split: if_splits)

lemma evolves_create_holder:
  assumes "create_holder h s k p = Some (s', out)"
  shows "evolves s s'"
proof (cases h)
  case True
  obtain s1 a where al: "com_alloc s k = (s1, a)" by fastforce
  obtain r where "com_AddRef s1 p = Some (s', r)"
    using assms True al by (auto simp: create_holder_def split: Option.bind_splits)
  then show ?thesis using evolves_AddRef evolves_alloc [of s k] evolves_trans al by fastforce
qed (use assms in \<open>simp add: create_holder_def\<close>)


lemma evolves_QueryInterface:
  assumes "vtable_QueryInterface rh s a riid = Some (s', h, out)"
  shows "evolves s s'"
proof -
  obtain k n where a: "com_get s a = Some (k, n)"
    using assms by (cases "com_get s a") (auto simp: vtable_QueryInterface_def)
  from QueryInterface_shape [OF a, of rh riid] show ?thesis
    using assms evolves_AddRef
    by (auto simp: qi_self_def SM_QueryInterface_def split: if_splits Option.bind_splits)
qed

lemma evolves_fetch:
  assumes a: "com_get s a = Some (k, n)" and k': "flag_free k' = flag_free k"
    and res: "fetch_once s a k' p r celt = Some (s', h, out)"
  shows "evolves s s'"
proof (cases "\<not> r \<and> celt \<ge> 1")
  case False
  then have "fetch_once s a k' p r celt = Some (s, S_FALSE, None)"
    by (simp only: fetch_once_def if_False)
  then show ?thesis using res by simp
next
  case True
  then obtain s1 q k1 n1 where s1: "com_AddRef s p = Some (s1, q)" "com_get s1 a = Some (k1, n1)"
      "s' = com_put s1 a (Some (k', n1))"
    using res by (auto simp: fetch_once_def split: Option.bind_splits)
  have e: "evolves s s1" by (rule evolves_AddRef [OF s1(1)])
  have "flag_free k' = flag_free k1" using evolvesD [OF e a s1(2)] k' by simp
  then show ?thesis using evolves_trans [OF e evolves_put_some [OF s1(2)]] s1(3) by simp
qed

lemma evolves_made: "evolves s s1 \<Longrightarrow> made (s1, o1) = (s', h, out) \<Longrightarrow> evolves s s'"
  by (simp add: made_def)

lemma evolves_invoke: "invoke_value s p d r = Some (s', h, out) \<Longrightarrow> evolves s s'"
  using evolves_AddRef by (auto simp: invoke_value_def split: if_splits Option.bind_splits)

lemma evolves_wmi_enum:
  assumes "evolves s s1" "wmi_enum h (s1, ob) = Some (s', hr, out)"
  shows "evolves s s'"
proof (cases ob)
  case (Some f)
  then obtain s2 e s3 q where "CreateFakeEnumWbemClassObject h s1 f = Some (s2, e)"
      "com_Release s2 f = Some (s3, q)" "s' = s3"
    using assms(2) by (auto simp: wmi_enum_def made_def split: Option.bind_splits)
  then show ?thesis
    using assms(1) evolves_create_holder evolves_Release evolves_trans
    unfolding CreateFakeEnumWbemClassObject_def by metis
qed (use assms in \<open>simp add: wmi_enum_def\<close>)

lemma evolves_connections:
  assumes "CreateFakeEnumNetworkConnections h1 h2 s = Some (s', out)"
  shows "evolves s s'"
proof -
  obtain s1 c where c: "CreateFakeNetworkConnection h1 s = (s1, c)" by fastforce
  have e: "evolves s s1" using evolves_create_leaf c by (simp add: CreateFakeNetworkConnection_def)
  show ?thesis
  proof (cases c)
    case None
    then show ?thesis using assms c e by (simp add: CreateFakeEnumNetworkConnections_def)
  next
    case (Some conn)
    show ?thesis
    proof (cases h2)
      case True
      then show ?thesis
        using assms c Some evolves_trans [OF e evolves_alloc, of "FakeEnumNetworkConnections conn False"]
        by (cases "com_alloc s1 (FakeEnumNetworkConnections conn False)")
          (simp add: CreateFakeEnumNetworkConnections_def)
    next
      case False
      then obtain q where "com_Release s1 conn = Some (s', q)"
        using assms c Some by (auto simp: CreateFakeEnumNetworkConnections_def split: Option.bind_splits)
      then show ?thesis using evolves_trans [OF e evolves_Release] by blast
    qed
  qed
qed

lemma evolves_CoCreate:
  assumes "Hook_CoCreateInstance h r cl riid s = Some (s', hr, out)"
  shows "evolves s s'"
proof (cases "cl = CLSID_WbemLocator")
  case True
  then show ?thesis using assms evolves_create_leaf
    by (auto simp: Hook_CoCreateInstance_def split: prod.splits option.splits)
next
  case False
  obtain s1 ro where ro: "create_leaf r s RealObject = (s1, ro)" by fastforce
  have e: "evolves s s1" by (rule evolves_create_leaf [OF ro])
  show ?thesis
  proof (cases ro)
    case None
    then show ?thesis using assms ro e False by (simp add: Hook_CoCreateInstance_def)
  next
    case (Some ra)
    show ?thesis
    proof (cases "cl = CLSID_NetSharingManager")
      case True
      then obtain m where "CreateFakeNetSharingManager h s1 ra = Some (s', m)"
        using assms ro Some by (auto simp: Hook_CoCreateInstance_def split: Option.bind_splits)
      then show ?thesis
        using evolves_trans [OF e evolves_create_holder] by (simp add: CreateFakeNetSharingManager_def)
    next
      case f: False
      obtain s2 m where m: "create_leaf h s1 FakeNetworkListManager = (s2, m)" by fastforce
      have "evolves s s2" using evolves_trans [OF e evolves_create_leaf [OF m]] .
      then show ?thesis
        using assms ro Some e False f m
        by (auto simp: Hook_CoCreateInstance_def CreateFakeNetworkListManager_def made_def split: if_splits)
    qed
  qed
qed

text \<open>Every call except \<open>get_EnumEveryConnection\<close>, which may create the global connection.\<close>

lemma the_out_Some: "the_out r = Some (s', out) \<longleftrightarrow> (\<exists>h. r = Some (s', h, out))"
  by (auto simp: the_out_def)

lemma drop_out_Some: "drop_out r = Some (s', out) \<longleftrightarrow> (\<exists>x. r = Some (s', x)) \<and> out = None"
  by (auto simp: drop_out_def)

lemma evolves_leaf_made:
  "Some (made (create_leaf h s k)) = Some (s', hr, out) \<Longrightarrow> evolves s s'"
  using evolves_create_leaf by (cases "create_leaf h s k") (auto simp: made_def)

lemma evolves_next:
  "VarEnum_Next s a n = Some (s', h, out) \<Longrightarrow> evolves s s'"
  "FakeEnumWbem_Next s a n = Some (s', h, out) \<Longrightarrow> evolves s s'"
  "FENC_Next s a n = Some (s', h, out) \<Longrightarrow> evolves s s'"
  by (auto simp: VarEnum_Next_def FakeEnumWbem_Next_def FENC_Next_def
      split: option.splits com_class.splits)
    (rule evolves_fetch [rotated 2], assumption, assumption, simp)+

lemma evolves_reset:
  "VarEnum_Reset s a = Some (s', x) \<Longrightarrow> evolves s s'"
  "FakeEnumWbem_Reset s a = Some (s', x) \<Longrightarrow> evolves s s'"
  "FENC_Reset s a = Some (s', x) \<Longrightarrow> evolves s s'"
  by (auto simp: VarEnum_Reset_def FakeEnumWbem_Reset_def FENC_Reset_def evolves_put_some
      split: option.splits com_class.splits)


lemma com_call_evolves:
  assumes "com_call rh s c = Some (s', out)" "\<And>a h1 h2. c \<noteq> Call_EnumEvery a h1 h2"
  shows "evolves s s'"
proof (cases c)
  case (Call_NewEnum a h)
  then show ?thesis using assms(1) evolves_create_holder
    by (fastforce simp: the_out_Some Coll_get__NewEnum_def CreateVarEnumerator_def made_def
        split: option.splits com_class.splits)
next
  case (Call_Connections a h1 h2)
  then show ?thesis using assms(1) evolves_connections
    by (fastforce simp: the_out_Some NLM_GetNetworkConnections_def made_def)
next
  case (Call_InstanceEnum a h1 h2 f)
  then show ?thesis
    using assms(1) evolves_wmi_enum [OF evolves_create_leaf]
    by (cases "create_leaf h1 s FakeWbemClassObject")
      (auto simp: the_out_Some FakeSvcs_CreateInstanceEnum_def CreateFakeWbemClassObject_def
        split: option.splits if_splits)
next
  case (Call_ExecQuery a h1 h2 i q)
  obtain s1 ob where ob: "CreateFakeNetAdapterObject h1 s (Some (fake_settingID i)) = (s1, ob)" by fastforce
  have "evolves s s1" using ob evolves_create_leaf by (simp add: CreateFakeNetAdapterObject_def)
  then show ?thesis
    using assms(1) Call_ExecQuery ob evolves_wmi_enum
    by (auto simp: the_out_Some FakeSvcs_ExecQuery_def split: option.splits if_splits Option.bind_splits)
next
  case (Call_GetObject a h path)
  then show ?thesis
    using assms(1) evolves_create_leaf evolves_leaf_made
    by (fastforce simp: the_out_Some Hook_IWbemServices_GetObject_def CreateFakeWbemClassObject_def
        CreateFakeNetAdapterObject_def split: if_splits prod.splits)
next
  case (Call_SharingConfiguration a h)
  then show ?thesis
    using assms(1) evolves_create_leaf
    by (auto simp: the_out_Some SM_get_INetSharingConfigurationForINetConnection_def
        CreateFakeNetSharingConfiguration_def split: prod.splits)
next
  case (Call_GetNetwork a h r)
  then show ?thesis
    using assms(1) evolves_leaf_made
    by (fastforce simp: the_out_Some FNC_GetNetwork_def CreateFakeNetwork_def split: if_splits)
next
  case (Call_ConnectServer a h)
  then show ?thesis
    using assms(1) evolves_leaf_made
    by (fastforce simp: the_out_Some Hook_IWbemLocator_ConnectServer_def)
next
  case (Call_Dispatch_Invoke a d r)
  then show ?thesis using assms(1) evolves_invoke
    by (fastforce simp: the_out_Some VarEnumIDispatch_Invoke_def split: option.splits com_class.splits)
next
  case (Call_Coll_Invoke a d r)
  then show ?thesis using assms(1) evolves_invoke
    by (fastforce simp: the_out_Some Coll_Invoke_def split: option.splits com_class.splits)
next
  case (Call_EnumEvery a h1 h2)
  then show ?thesis using assms(2) by blast
qed (use assms(1) evolves_AddRef evolves_Release evolves_QueryInterface evolves_next evolves_reset
    evolves_CoCreate in \<open>auto simp: the_out_Some drop_out_Some\<close>)


section \<open>Every allowed call is good\<close>

text \<open>A reference nobody will release can be forgotten when the count need not be exact.\<close>

lemma com_inv_forget:
  assumes "com_inv s own" "com_get s a = Some (k, n)" "\<not> exact k"
  shows "com_inv s (own(a := own a - 1))"
proof -
  have "int (own a - 1 + internal s a) \<le> n" using com_invD(2) [OF assms(1,2)] by simp
  then show ?thesis using assms unfolding com_inv_def by auto
qed

lemma good_callE:
  assumes "good_call own res"
  obtains s' h out where "res = Some (s', h, out)" "com_inv s' (gain own out)"
  using assms by (auto simp: good_call_def)

lemma leaf_alloc:
  assumes "com_inv s own" "holds k = []"
  obtains s1 a where "com_alloc s k = (s1, a)" "a = length (cells s)" "own a = 0"
    "com_inv s1 (own(a := 1))" "com_get s1 a = Some (k, 1)" "internal s1 a = 0"
proof -
  have "own (length (cells s)) = 0" "internal s (length (cells s)) = 0"
    using assms(1) com_get_new [of s] by (auto simp: com_inv_def)
  then show ?thesis
    using that [of "fst (com_alloc s k)" "length (cells s)"] alloc_leaf_inv [OF assms]
      com_get_alloc [of s k] internal_alloc [of s k] assms(2) by (simp add: com_alloc_def)
qed

lemma wmi_enum_good:
  assumes inv: "com_inv s own" and k: "holds k = []"
  shows "good_call own (wmi_enum h2 (create_leaf h1 s k))"
proof (cases h1)
  case False
  then show ?thesis using none_good [OF inv] by (simp add: create_leaf_def wmi_enum_def)
next
  case True
  obtain s1 a where s1: "com_alloc s k = (s1, a)" "own a = 0"
    "com_inv s1 (own(a := 1))" "com_get s1 a = Some (k, 1)"
    using leaf_alloc [OF inv k] by metis
  have "\<exists>s2 out. create_holder h2 s1 (FakeEnumWbemClassObject a False) a = Some (s2, out) \<and>
      com_inv s2 (gain (own(a := 1)) out)"
    by (rule create_holder_good [OF s1(3)]) (use s1(4) k in auto)
  then obtain s2 out where s2: "create_holder h2 s1 (FakeEnumWbemClassObject a False) a = Some (s2, out)"
    "com_inv s2 (gain (own(a := 1)) out)" by blast
  have ne: "out \<noteq> Some a"
  proof
    assume "out = Some a"
    then have "a = length (cells s1)"
      using s2(1) by (auto simp: create_holder_def com_alloc_def Let_def split: if_splits Option.bind_splits)
    then show False using com_get_bound [OF s1(4)] by simp
  qed
  have g1: "gain (own(a := 1)) out a = 1" using ne by (cases out) auto
  then obtain s3 r where s3: "com_Release s2 a = Some (s3, r)"
    "com_inv s3 ((gain (own(a := 1)) out)(a := gain (own(a := 1)) out a - 1))"
    using Release_inv [OF s2(2), of a] by auto
  have "(gain (own(a := 1)) out)(a := gain (own(a := 1)) out a - 1) = gain own out"
    using g1 ne s1(2) by (cases out) (auto simp: fun_eq_iff)
  then show ?thesis
    using True s1(1) s2(1) s3
    by (simp add: create_leaf_def wmi_enum_def CreateFakeEnumWbemClassObject_def good_call_def made_def)
qed

lemma connections_good:
  assumes inv: "com_inv s own"
  shows "good_call own (NLM_GetNetworkConnections h1 h2 s)"
proof (cases h1)
  case False
  then show ?thesis using inv
    by (simp add: NLM_GetNetworkConnections_def CreateFakeEnumNetworkConnections_def
        CreateFakeNetworkConnection_def create_leaf_def good_call_def made_def)
next
  case True
  obtain s1 c where s1: "com_alloc s FakeNetworkConnection = (s1, c)" "own c = 0"
    "com_inv s1 (own(c := 1))" "com_get s1 c = Some (FakeNetworkConnection, 1)"
    using leaf_alloc [OF inv] by (metis holds.simps(14))
  show ?thesis
  proof (cases h2)
    case True
    let ?k = "FakeEnumNetworkConnections c False" and ?a = "length (cells s1)"
    have i: "com_inv (fst (com_alloc s1 ?k)) ((own(c := 1))(c := (own(c := 1)) c - 1, ?a := 1))"
      by (rule alloc_holder_inv [OF s1(3)]) (use s1(4) in auto)
    have "own ?a = 0"
      using s1(3) com_get_new [of s1] com_get_bound [OF s1(4)] by (auto simp: com_inv_def split: if_splits)
    moreover have "c \<noteq> ?a" using com_get_bound [OF s1(4)] by simp
    ultimately have "(own(c := 1))(c := (own(c := 1)) c - 1, ?a := 1) = gain own (Some ?a)"
      using s1(2) by (auto simp: fun_eq_iff)
    then show ?thesis using i \<open>h1\<close> True s1(1)
      by (simp add: NLM_GetNetworkConnections_def CreateFakeEnumNetworkConnections_def
        CreateFakeNetworkConnection_def create_leaf_def good_call_def made_def com_alloc_def)
  next
    case False
    have u: "(own(c := 1))(c := (own(c := 1)) c - 1) = own" using s1(2) by auto
    have "0 < (own(c := 1)) c" by simp
    from Release_inv [OF s1(3) this, unfolded u] obtain s2 r
      where "com_Release s1 c = Some (s2, r)" "com_inv s2 own" by blast
    then show ?thesis using \<open>h1\<close> False s1(1)
      by (simp add: NLM_GetNetworkConnections_def CreateFakeEnumNetworkConnections_def
        CreateFakeNetworkConnection_def create_leaf_def good_call_def made_def)
  qed
qed

lemma CoCreate_good:
  assumes inv: "com_inv s own"
  shows "good_call own (Hook_CoCreateInstance h r cl riid s)"
proof (cases "cl = CLSID_WbemLocator")
  case True
  have "good_call own (Some (made (create_leaf h s FakeWbemLocator)))"
    by (rule create_leaf_good [OF inv]) simp
  then show ?thesis using True
    by (cases "create_leaf h s FakeWbemLocator"; cases "snd (create_leaf h s FakeWbemLocator)")
      (simp_all add: Hook_CoCreateInstance_def good_call_def made_def)
next
  case n: False
  show ?thesis
  proof (cases r)
    case False
    then show ?thesis using n inv by (simp add: Hook_CoCreateInstance_def create_leaf_def good_call_def)
  next
    case True
    obtain s1 a where s1: "com_alloc s RealObject = (s1, a)" "own a = 0"
      "com_inv s1 (own(a := 1))" "com_get s1 a = Some (RealObject, 1)"
      using leaf_alloc [OF inv] by (metis holds.simps(16))
    have "(own(a := 1))(a := (own(a := 1)) a - 1) = own" using s1(2) by auto
    then have i0: "com_inv s1 own" using com_inv_forget [OF s1(3,4)] by simp
    consider "cl = CLSID_NetSharingManager" | "cl = CLSID_NetworkListManager \<and> riid = IID_INetworkListManager"
      | "\<not> (cl = CLSID_NetSharingManager \<or> cl = CLSID_NetworkListManager \<and> riid = IID_INetworkListManager)"
      by blast
    then show ?thesis
    proof cases
      case 1
      have "\<exists>s2 out. create_holder h s1 (FakeNetSharingManager a) a = Some (s2, out) \<and>
          com_inv s2 (gain (own(a := 1)) out)"
        by (rule create_holder_good [OF s1(3)]) (use s1(4) in auto)
      then obtain s2 out where s2: "create_holder h s1 (FakeNetSharingManager a) a = Some (s2, out)"
        "com_inv s2 (gain (own(a := 1)) out)" by blast
      have "evolves s1 s2" by (rule evolves_create_holder [OF s2(1)])
      have ne: "out \<noteq> Some a"
      proof
        assume "out = Some a"
        then have "a = length (cells s1)"
          using s2(1) by (auto simp: create_holder_def com_alloc_def Let_def split: if_splits Option.bind_splits)
        then show False using com_get_bound [OF s1(4)] by simp
      qed
      have pos: "gain (own(a := 1)) out a = 1" using ne by (cases out) auto
      obtain k2 n2 where g2: "com_get s2 a = Some (k2, n2)"
        using com_inv_live [OF s2(2), of a] pos by auto
      have "flag_free k2 = RealObject" using evolvesD [OF \<open>evolves s1 s2\<close> s1(4) g2] by simp
      then have "\<not> exact k2" by (cases k2) auto
      from com_inv_forget [OF s2(2) g2 this]
      have "com_inv s2 (gain own out)"
      proof -
        have "(gain (own(a := 1)) out)(a := gain (own(a := 1)) out a - 1) = gain own out"
          using pos ne s1(2) by (cases out) (auto simp: fun_eq_iff)
        then show ?thesis using com_inv_forget [OF s2(2) g2 \<open>\<not> exact k2\<close>] by simp
      qed
      then show ?thesis using 1 True s1(1) s2(1)
        by (simp add: Hook_CoCreateInstance_def create_leaf_def CreateFakeNetSharingManager_def good_call_def)
    next
      case 2
      have "good_call own (Some (made (create_leaf h s1 FakeNetworkListManager)))"
        by (rule create_leaf_good [OF i0]) simp
      then show ?thesis using 2 n True s1(1)
        by (simp add: Hook_CoCreateInstance_def create_leaf_def CreateFakeNetworkListManager_def)
    next
      case 3
      have "own(a := own a + 1) = own(a := 1)" using s1(2) by simp
      then show ?thesis using 3 n True s1(1,3)
        by (auto simp: Hook_CoCreateInstance_def create_leaf_def good_call_def)
    qed
  qed
qed


section \<open>The invariant of the reachable states\<close>

definition connection_ok :: "com \<Rightarrow> bool" where
  "connection_ok s \<longleftrightarrow> (\<forall>c. g_FakeRadminConnection s = Some c \<longrightarrow>
     (\<exists>n. com_get s c = Some (FakeNetConnection, n)))"

lemma connection_ok_evolves:
  assumes "connection_ok s" "evolves s s'" "com_inv s' own'"
  shows "connection_ok s'"
proof -
  have g: "g_FakeRadminConnection s' = g_FakeRadminConnection s" using assms(2) by (simp add: evolves_def)
  have "\<exists>n. com_get s' c = Some (FakeNetConnection, n)" if c: "g_FakeRadminConnection s = Some c" for c
  proof -
    obtain n where n: "com_get s c = Some (FakeNetConnection, n)"
      using assms(1) c by (auto simp: connection_ok_def)
    have pos: "0 < own' c + internal s' c" using c g by (simp add: internal_def)
    obtain k' n' where k': "com_get s' c = Some (k', n')" using com_inv_live [OF assms(3) pos] by blast
    show ?thesis using evolvesD [OF assms(2) n k'] connection_flag_free [of k'] k' by simp
  qed
  then show ?thesis using g by (simp add: connection_ok_def)
qed

lemma EnumEvery_connection_ok:
  assumes inv: "com_inv s own" and c: "connection_ok s"
    and res: "SM_get_EnumEveryConnection h1 h2 s = Some (s', h, out)" "com_inv s' own'"
  shows "connection_ok s'"
proof -
  have "\<exists>s1 o1. GetOrCreateFakeRadminConnection h1 s = (s1, o1) \<and> com_inv s1 own \<and>
    (o1 = None \<longleftrightarrow> g_FakeRadminConnection s = None \<and> \<not> h1) \<and>
    (\<forall>c. o1 = Some c \<longrightarrow> g_FakeRadminConnection s1 = Some c \<and>
       (\<exists>n. com_get s1 c = Some (FakeNetConnection, n)))"
    by (rule GetOrCreate_inv [OF inv]) (use c in \<open>auto simp: connection_ok_def\<close>)
  then obtain s1 o1 where g: "GetOrCreateFakeRadminConnection h1 s = (s1, o1)"
    "o1 = None \<longleftrightarrow> g_FakeRadminConnection s = None \<and> \<not> h1"
    "\<forall>c. o1 = Some c \<longrightarrow> g_FakeRadminConnection s1 = Some c \<and>
       (\<exists>n. com_get s1 c = Some (FakeNetConnection, n))" by blast
  show ?thesis
  proof (cases o1)
    case None
    then have "s1 = s"
      using g(1,2) by (auto simp: GetOrCreateFakeRadminConnection_def CreateFakeNetConnection_def create_leaf_def)
    then show ?thesis using res(1) g(1) None c by (simp add: SM_get_EnumEveryConnection_def split: if_splits)
  next
    case (Some p)
    then have "connection_ok s1" using g(3) by (simp add: connection_ok_def)
    moreover obtain o2 where "create_holder h2 s1 (FakeConnectionCollection p) p = Some (s', o2)"
      using res(1) g(1) Some
      by (auto simp: SM_get_EnumEveryConnection_def CreateConnectionCollection_def made_def)
    ultimately show ?thesis using connection_ok_evolves [OF _ evolves_create_holder res(2)] by blast
  qed
qed

text \<open>Calls that hand out an object, and the others.\<close>

lemma good_out:
  assumes "good_call own r"
  shows "\<exists>s' out. the_out r = Some (s', out) \<and> com_inv s' (gain own out)"
  using assms by (auto simp: good_call_def the_out_def)

lemma reset_drop:
  assumes "com_inv s own" "com_get s a = Some (k, n)" "holds k' = holds k" "exact k' = exact k"
  shows "\<exists>s' out. drop_out (Some (com_put s a (Some (k', n)), S_OK, ())) = Some (s', out) \<and>
    com_inv s' (gain own out)"
  using reset_inv [OF assms] by (simp add: drop_out_def)

lemma com_call_good:
  assumes inv: "com_inv s own" and conn: "connection_ok s" and al: "com_allowed s own c"
  shows "\<exists>s' out. com_call rh s c = Some (s', out) \<and> com_inv s' (own_after own c out)"
proof (cases "call_target c")
  case None
  then show ?thesis using good_out [OF CoCreate_good [OF inv]] by (cases c) auto
next
  case (Some a)
  then have own: "0 < own a" and df: "call_defined s c" using al by (auto simp: com_allowed_def)
  then obtain k n where a: "com_get s a = Some (k, n)" using com_inv_live [OF inv, of a] by auto
  have m: "has_method c k" using al Some a by (simp add: com_allowed_def)
  have i: "0 < own a + internal s a" using own by simp
  note outs = good_out [OF QueryInterface_good [OF inv own]]
    good_out [OF fetch_once_good [OF inv a]] reset_drop [OF inv a]
    good_out [OF held_good(1) [OF inv a]] good_out [OF held_good(2) [OF inv a]]
    good_out [OF create_leaf_good [OF inv]] good_out [OF connections_good [OF inv]]
    good_out [OF none_good [OF inv]]
  show ?thesis
  proof (cases c)
    case (Call_AddRef b)
    then show ?thesis using AddRef_inv [OF inv i] Some by auto
  next
    case (Call_Release b)
    then show ?thesis using Release_inv [OF inv own] Some by (auto simp: drop_out_def)
  next
    case (Call_EnumEvery b h1 h2)
    have "good_call own (SM_get_EnumEveryConnection h1 h2 s)"
      by (rule EnumEvery_good [OF inv]) (use conn df Call_EnumEvery in \<open>auto simp: connection_ok_def\<close>)
    from good_out [OF this] show ?thesis using Call_EnumEvery by simp
  next
    case (Call_SharingConfiguration b h)
    have "good_call own (SM_get_INetSharingConfigurationForINetConnection h s)"
      using create_leaf_good [OF inv, of FakeNetSharingConfiguration h]
      by (auto simp: SM_get_INetSharingConfigurationForINetConnection_def made_def good_call_def
          CreateFakeNetSharingConfiguration_def split: prod.splits)
    from good_out [OF this] show ?thesis using Call_SharingConfiguration by simp
  next
    case (Call_InstanceEnum b h1 h2 f)
    have "good_call own (FakeSvcs_CreateInstanceEnum h1 h2 s f)"
      using wmi_enum_good [OF inv, of FakeWbemClassObject h2 h1] none_good [OF inv]
      by (auto simp: FakeSvcs_CreateInstanceEnum_def CreateFakeWbemClassObject_def split: option.split)
    from good_out [OF this] show ?thesis using Call_InstanceEnum by simp
  next
    case (Call_ExecQuery b h1 h2 i q)
    have "good_call own (wmi_enum h2 (CreateFakeNetAdapterObject h1 s (Some (fake_settingID i))))"
      using wmi_enum_good [OF inv] by (simp add: CreateFakeNetAdapterObject_def)
    then have "good_call own (FakeSvcs_ExecQuery h1 h2 i s q)"
      using none_good [OF inv] df Call_ExecQuery
      by (auto simp: FakeSvcs_ExecQuery_def split: option.splits)
    from good_out [OF this] show ?thesis using Call_ExecQuery by simp
  next
    case (Call_GetObject b h path)
    have "good_call own (Hook_IWbemServices_GetObject None h s path)"
      using df Call_GetObject create_leaf_good [OF inv, of FakeWbemClassObject h]
        create_leaf_good [OF inv, of "FakeNetAdapterObject g" h for g]
      by (auto simp: Hook_IWbemServices_GetObject_def CreateFakeWbemClassObject_def made_def
          CreateFakeNetAdapterObject_def good_call_def split: prod.splits)
    from good_out [OF this] show ?thesis using Call_GetObject by simp
  next
    case (Call_GetNetwork b h r)
    then show ?thesis using outs(6) [of FakeNetwork h] outs(8)
      by (simp add: FNC_GetNetwork_def CreateFakeNetwork_def)
  next
    case (Call_ConnectServer b h)
    then show ?thesis using outs(6) [of FakeWbemServices h]
      by (simp add: Hook_IWbemLocator_ConnectServer_def)
  next
    case (Call_QueryInterface b riid)
    then show ?thesis using outs(1) [of rh riid] Some by simp
  next
    case (Call_Connections b h1 h2)
    then show ?thesis using outs(7) by simp
  next
    case (Call_CoCreateInstance h r cl riid)
    then show ?thesis using Some by simp
  qed (use a m Some outs in \<open>auto simp: VarEnum_Next_def FakeEnumWbem_Next_def FENC_Next_def
      VarEnum_Reset_def FakeEnumWbem_Reset_def FENC_Reset_def VarEnumIDispatch_Invoke_def
      Coll_Invoke_def Coll_get__NewEnum_def split: com_class.splits\<close>)
qed


lemma com_initial_inv: "com_inv com_initial (\<lambda>_. 0)" "connection_ok com_initial"
  by (simp_all add: com_inv_def com_initial_def com_get_def internal_def connection_ok_def)

lemma com_call_connection:
  assumes inv: "com_inv s own" and conn: "connection_ok s"
    and res: "com_call rh s c = Some (s', out)" "com_inv s' own'"
  shows "connection_ok s'"
proof (cases "\<exists>a h1 h2. c = Call_EnumEvery a h1 h2")
  case True
  then show ?thesis using EnumEvery_connection_ok [OF inv conn _ res(2)] res(1) by (auto simp: the_out_Some)
next
  case False
  then show ?thesis using connection_ok_evolves [OF conn com_call_evolves [OF res(1)] res(2)] by blast
qed

lemma com_reach_inv: "com_reach rh s own \<Longrightarrow> com_inv s own \<and> connection_ok s"
proof (induction rule: com_reach.induct)
  case start
  show ?case using com_initial_inv by blast
next
  case (call s own c s' out)
  then have "com_inv s' (own_after own c out)" using com_call_good [of s own c rh] by auto
  then show ?case using com_call_connection call by blast
qed

text \<open>A sequence of calls as a list: the state and the references after all of them, None when
  one is not allowed or undefined.\<close>

fun com_run :: "(iid \<Rightarrow> bool) \<Rightarrow> client_call list \<Rightarrow> com \<Rightarrow> (oaddr \<Rightarrow> nat) \<Rightarrow>
    (com \<times> (oaddr \<Rightarrow> nat)) option" where
  "com_run rh [] s own = Some (s, own)"
| "com_run rh (c # cs) s own =
     (if com_allowed s own c then do {
        (s', out) \<leftarrow> com_call rh s c;
        com_run rh cs s' (own_after own c out) }
      else None)"

lemma com_run_reach:
  "com_reach rh s own \<Longrightarrow> com_run rh cs s own = Some (s', own') \<Longrightarrow> com_reach rh s' own'"
proof (induction cs arbitrary: s own)
  case (Cons c cs)
  then show ?case using com_reach.call by (fastforce split: if_splits Option.bind_splits)
qed simp

section \<open>Properties\<close>


text \<open>A client that opens the sharing manager and asks for the connections: the real object is
  at 0, the manager at 1, the global connection at 2, the collection at 3.\<close>

definition sharing_calls :: "client_call list" where
  "sharing_calls = [Call_CoCreateInstance True True CLSID_NetSharingManager IID_INetSharingManager,
     Call_EnumEvery 1 True True]"

definition sharing_com :: com where
  "sharing_com = \<lparr>cells = [Some (RealObject, 2), Some (FakeNetSharingManager 0, 1),
     Some (FakeNetConnection, 2), Some (FakeConnectionCollection 2, 1)],
     g_FakeRadminConnection = Some 2\<rparr>"

lemma sharing_run:
  "com_run rh sharing_calls com_initial (\<lambda>_. 0) = Some (sharing_com, (\<lambda>_. 0)(1 := 1, 3 := 1))"
  by (simp add: sharing_calls_def sharing_com_def com_allowed_def com_initial_def Hook_CoCreateInstance_def
      create_leaf_def com_alloc_def CreateFakeNetSharingManager_def create_holder_def com_AddRef_def
      com_get_def com_put_def the_out_def SM_get_EnumEveryConnection_def CreateFakeNetConnection_def
      GetOrCreateFakeRadminConnection_def CreateConnectionCollection_def made_def
      numeral_3_eq_3)

lemma sharing_reach: "com_reach rh sharing_com ((\<lambda>_. 0)(1 := 1, 3 := 1))"
  by (rule com_run_reach [OF com_reach.start sharing_run])


text \<open>What is held, by whom.\<close>

lemma internal_unheld:
  assumes "\<And>b k n. com_get s b = Some (k, n) \<Longrightarrow> a \<notin> set (holds k)"
  shows "internal s a = (if g_FakeRadminConnection s = Some a then 1 else 0)"
proof -
  have "cell_holds a c = 0" if c: "c \<in> set (cells s)" for c
  proof (cases c)
    case (Some kn)
    obtain b where "b < length (cells s)" "cells s ! b = c" using c by (auto simp: in_set_conv_nth)
    then have "com_get s b = Some (fst kn, snd kn)" using Some by (simp add: com_get_def)
    then have "a \<notin> set (holds (fst kn))" by (rule assms)
    then show ?thesis using Some by (cases kn) (simp add: cell_holds_def count_list_0_iff)
  qed (simp add: cell_holds_def)
  then have "sum_list (map (cell_holds a) (cells s)) = 0" by simp
  then show ?thesis unfolding internal_def by (simp only: add_0)
qed

lemma held_by:
  "0 < internal s a \<Longrightarrow> g_FakeRadminConnection s = Some a \<or>
     (\<exists>b k n. com_get s b = Some (k, n) \<and> a \<in> set (holds k))"
  using internal_unheld [of s a] by (metis less_numeral_extra(3))

lemma no_holder:
  assumes inv: "com_inv s (\<lambda>_. 0)" and conn: "connection_ok s" and b: "com_get s b = Some (k, n)"
  shows "holds k = []"
proof (rule ccontr)
  assume h: "holds k \<noteq> []"
  then have "exact k" by (cases k) auto
  then have "0 < internal s b" using com_invD(1,3) [OF inv b] by auto
  from held_by [OF this] show False
  proof
    assume "g_FakeRadminConnection s = Some b"
    then show False using conn b h by (auto simp: connection_ok_def)
  next
    assume "\<exists>b' k' n'. com_get s b' = Some (k', n') \<and> b \<in> set (holds k')"
    then show False using com_invD(4) [OF inv] b h by fastforce
  qed
qed


definition sharing_done :: com where
  "sharing_done = \<lparr>cells = [Some (RealObject, 1), None, Some (FakeNetConnection, 1), None],
     g_FakeRadminConnection = Some 2\<rparr>"

lemma release_run:
  "com_run rh [Call_Release 3, Call_Release 1] sharing_com ((\<lambda>_. 0)(1 := 1, 3 := 1)) =
     Some (sharing_done, \<lambda>_. 0)"
  by (simp add: com_allowed_def sharing_com_def sharing_done_def com_get_def com_Release_def
      numeral_2_eq_2 numeral_3_eq_3 release_defs counted_Release_def com_put_def drop_out_def Let_def
      fun_eq_iff)


end
