(* ===== verification/Wmi_Claims.thy ===== *)
theory Wmi_Claims
  imports Com_Claims
begin

text \<open>
  What a client of the fake WMI provider sees: the life of a query from \<open>ExecQuery\<close> to the
  release of its enumerator, the object paths, and the properties that are answered.
\<close>

section \<open>The text between two marks\<close>

lemma strchr_append: "c \<notin> set g \<Longrightarrow> strchr (g @ c # r) c = Some (c # r)"
  by (induction g) auto

lemma between_found:
  assumes "strstr s prefix = Some (prefix @ g @ c # r)" "c \<notin> set g"
  shows "between prefix c s = Some g"
  using assms by (simp add: between_def strchr_append)

text \<open>The device path is the only place of its text where the mark can start.\<close>

lemma device_id_of_path:
  assumes "34 \<notin> set guid"
  shows "ExtractDeviceIDFromPath (object_path guid) = Some guid"
proof -
  have "strstr (object_path guid) (str ''DeviceID='' @ [34]) =
      Some ((str ''DeviceID='' @ [34]) @ guid @ 34 # [])"
    by (simp add: object_path_def)
  then show ?thesis unfolding ExtractDeviceIDFromPath_def by (rule between_found [OF _ assms])
qed

lemma contains_object_path: "contains (object_path guid) (str ''Win32_NetworkAdapter'')"
  by (simp add: object_path_def contains_def)

lemma not_configuration_path:
  assumes "34 \<notin> set guid" "\<not> contains guid (str ''Win32_NetworkAdapterConfiguration'')"
  shows "\<not> contains (object_path guid) (str ''Win32_NetworkAdapterConfiguration'')"
proof
  let ?c = "str ''Win32_NetworkAdapterConfiguration'' :: wstr"
  assume "contains (object_path guid) ?c"
  then have "contains (guid @ [34]) ?c" by (simp add: object_path_def contains_def)
  then obtain pre post where e: "guid @ [34] = pre @ ?c @ post" unfolding contains_iff by blast
  have "post \<noteq> []"
  proof
    assume "post = []"
    then have "last (guid @ [34]) = last ?c" using e by simp
    then show False by simp
  qed
  then have "post = butlast post @ [last post]" by simp
  then obtain post' z where "post = post' @ [z]" by blast
  then have "guid = pre @ ?c @ post'" using e by simp
  then show False using assms(2) unfolding contains_iff by blast
qed


definition wmi_env0 :: wmi_env where
  "wmi_env0 = \<lparr>we_string_from_guid = (\<lambda>_. str ''{1}''), we_rand = replicate 20 7, we_guid = None,
     we_client = tap_client_initial, we_heap_ok = True, we_udp = Sent,
     we_array_ok = True, we_reg_open = (\<lambda>_. None), we_reg_query = (\<lambda>_ _. None)\<rparr>"

text \<open>Object paths round trip: the __PATH an adapter object reports, given to \<open>GetObject\<close>,
  yields a new adapter object with the same GUID and count 1 and leaves the other objects as
  they are.\<close>

theorem device_path_roundtrip:
  assumes "34 \<notin> set guid" "\<not> contains guid (str ''Win32_NetworkAdapterConfiguration'')"
    "length (object_path guid) < 255"
  shows "\<exists>p s' a. FakeNetAdapter_Get e ad guid (str ''__PATH'') i n = Some (i, n, S_OK, VT_BSTR p) \<and>
    Hook_IWbemServices_GetObject None True s p = Some (s', S_OK, Some a) \<and>
    com_get s' a = Some (FakeNetAdapterObject guid, 1) \<and> (\<forall>b. b \<noteq> a \<longrightarrow> com_get s' b = com_get s b)"
proof -
  have "FakeNetAdapter_Get e ad guid (str ''__PATH'') i n = Some (i, n, S_OK, VT_BSTR (object_path guid))"
    using assms(3) by (simp add: FakeNetAdapter_Get_def)
  moreover have "Hook_IWbemServices_GetObject None True s (object_path guid) =
      Some (fst (com_alloc s (FakeNetAdapterObject guid)), S_OK, Some (length (cells s)))"
    using not_configuration_path [OF assms(1,2)] contains_object_path device_id_of_path [OF assms(1)]
    by (simp add: Hook_IWbemServices_GetObject_def CreateFakeNetAdapterObject_def create_leaf_def
        com_alloc_def made_def)
  ultimately show ?thesis by (auto simp: com_get_alloc)
qed

theorem device_path_roundtrip_witness:
  "\<exists>p s' a. FakeNetAdapter_Get wmi_env0 adapter_initial (str ''{1}'') (str ''__PATH'') identity_initial \<lparr>wire = [], open_sockets = 0\<rparr> =
     Some (identity_initial, \<lparr>wire = [], open_sockets = 0\<rparr>, S_OK, VT_BSTR p) \<and>
    Hook_IWbemServices_GetObject None True com_initial p = Some (s', S_OK, Some a) \<and>
    com_get s' a = Some (FakeNetAdapterObject (str ''{1}''), 1)"
proof -
  have "34 \<notin> set (str ''{1}'' :: wstr)" by simp
  moreover have "\<not> contains (str ''{1}'' :: wstr) (str ''Win32_NetworkAdapterConfiguration'')"
    by (simp add: contains_def)
  moreover have "length (object_path (str ''{1}'')) < 255" by (simp add: object_path_def)
  ultimately show ?thesis
    using device_path_roundtrip [of "str ''{1}''" wmi_env0 adapter_initial identity_initial "\<lparr>wire = [], open_sockets = 0\<rparr>" com_initial] by blast
qed

text \<open>C18. The life of a query: any query that names Win32_NetworkAdapter (also one for the
  configuration class) without a GUID filter gives an enumerator that delivers one adapter
  object and then nothing; after the client has released the object and the enumerator, the
  enumerator is freed and the adapter object stays for ever with count 1: one object is lost
  per query.\<close>

theorem wmi_query_cycle:
  assumes "contains q (str ''Win32_NetworkAdapter'')" "ExtractGuidFromQuery (Some q) = None"
  shows "\<exists>s1 s2 s3 s4 a enum.
    FakeSvcs_ExecQuery True True i s (Some q) = Some (s1, S_OK, Some enum) \<and>
    FakeEnumWbem_Next s1 enum (Suc m) = Some (s2, S_OK, Some a) \<and>
    FakeEnumWbem_Next s2 enum m' = Some (s2, S_FALSE, None) \<and>
    com_Release s2 a = Some (s3, 1) \<and> com_Release s3 enum = Some (s4, 0) \<and>
    com_get s4 enum = None \<and> com_get s4 a = Some (FakeNetAdapterObject (fake_settingID i), 1) \<and>
    com_get s a = None \<and> (\<forall>b. b < length (cells s) \<longrightarrow> com_get s4 b = com_get s b)"
proof -
  let ?a = "length (cells s)" and ?k = "FakeNetAdapterObject (fake_settingID i)"
  let ?s = "\<lambda>x y. s\<lparr>cells := cells s @ [x, y]\<rparr>"
  let ?e = "\<lambda>r. Some (FakeEnumWbemClassObject ?a r, 1)"
  have get: "com_get (?s x y) ?a = x" "com_get (?s x y) (Suc ?a) = y" for x y
    by (simp_all add: com_get_def nth_append)
  have put: "com_put (?s x y) ?a z = ?s z y" "com_put (?s x y) (Suc ?a) z = ?s x z" for x y z
    by (simp_all add: com_put_def list_update_append)
  have q: "FakeSvcs_ExecQuery True True i s (Some q) = Some (?s (Some (?k, 1)) (?e False), S_OK, Some (Suc ?a))"
  proof -
    have al: "create_leaf True s ?k = (s\<lparr>cells := cells s @ [Some (?k, 1)]\<rparr>, Some ?a)"
      by (simp add: create_leaf_def com_alloc_def)
    have "create_holder True (s\<lparr>cells := cells s @ [Some (?k, 1)]\<rparr>) (FakeEnumWbemClassObject ?a False) ?a =
        Some (?s (Some (?k, 2)) (?e False), Some (Suc ?a))"
      by (simp add: create_holder_def com_alloc_def com_AddRef_def com_get_def com_put_def nth_append
          list_update_append)
    moreover have "com_Release (?s (Some (?k, 2)) (?e False)) ?a = Some (?s (Some (?k, 1)) (?e False), 1)"
      by (simp add: com_Release_def numeral_2_eq_2 get put Safe_Release_def)
    ultimately show ?thesis using assms al
      by (simp add: FakeSvcs_ExecQuery_def CreateFakeNetAdapterObject_def wmi_enum_def
          CreateFakeEnumWbemClassObject_def made_def)
  qed
  have nx: "FakeEnumWbem_Next (?s (Some (?k, 1)) (?e False)) (Suc ?a) (Suc m) =
      Some (?s (Some (?k, 2)) (?e True), S_OK, Some ?a)"
    by (simp add: FakeEnumWbem_Next_def get fetch_once_def com_AddRef_def put)
  have nx2: "FakeEnumWbem_Next (?s (Some (?k, 2)) (?e True)) (Suc ?a) m' =
      Some (?s (Some (?k, 2)) (?e True), S_FALSE, None)"
    by (simp add: FakeEnumWbem_Next_def get fetch_once_def)
  have r1: "com_Release (?s (Some (?k, 2)) (?e True)) ?a = Some (?s (Some (?k, 1)) (?e True), 1)"
    by (simp add: com_Release_def numeral_2_eq_2 get put Safe_Release_def)
  have r2: "com_Release (?s (Some (?k, 1)) (?e True)) (Suc ?a) = Some (?s (Some (?k, 1)) None, 0)"
    by (simp add: com_Release_def numeral_2_eq_2 get put Safe_Release_def FakeEnumWbem_Release_def
        counted_Release_def Let_def)
  have keep: "com_get (?s x y) b = com_get s b" if "b < ?a" for x y b
    using that by (simp add: com_get_def nth_append)
  show ?thesis
    using q nx nx2 r1 r2 get(1) [of "Some (?k, 1)" None] get(2) [of "Some (?k, 1)" None] com_get_new [of s]
      keep [of _ "Some (?k, 1)" None] by blast
qed

theorem wmi_query_cycle_witness:
  "\<exists>s1 s2 s3 s4 a enum.
    FakeSvcs_ExecQuery True True identity_initial com_initial
      (Some (str ''SELECT * FROM Win32_NetworkAdapterConfiguration'')) = Some (s1, S_OK, Some enum) \<and>
    FakeEnumWbem_Next s1 enum 1 = Some (s2, S_OK, Some a) \<and>
    com_Release s2 a = Some (s3, 1) \<and> com_Release s3 enum = Some (s4, 0) \<and>
    com_get s4 a = Some (FakeNetAdapterObject (str ''{00000000-0000-0000-0000-000000000000}''), 1)"
proof -
  let ?q = "str ''SELECT * FROM Win32_NetworkAdapterConfiguration'' :: wstr"
  have "contains ?q (str ''Win32_NetworkAdapter'')" by (simp add: contains_def)
  moreover have "ExtractGuidFromQuery (Some ?q) = None" by (simp add: ExtractGuidFromQuery_def between_def)
  moreover have "fake_settingID identity_initial = str ''{00000000-0000-0000-0000-000000000000}''"
    by (simp add: identity_initial_def)
  ultimately show ?thesis using wmi_query_cycle [of ?q identity_initial com_initial 0 0] by auto
qed


section \<open>Properties that are answered\<close>

lemma init_mac_total:
  "\<exists>i' n'. init_mac e i n = Some (i', n') \<and> fake_mac_initialized i' \<and>
     (fake_mac_initialized i \<longrightarrow> i' = i \<and> n' = n)"
proof (cases "fake_mac_initialized i")
  case True
  then show ?thesis by (simp add: init_mac_def InitFakeMac_def)
next
  case False
  then show ?thesis by (simp add: init_mac_def InitFakeMac_first)
qed

text \<open>The configuration object answers every query, and with a value exactly for the names
  that \<open>GetNames\<close> lists: the list and the chain of comparisons agree.\<close>

theorem wmi_names_answered:
  assumes "we_array_ok e"
  shows "\<exists>i' n' v. FakeWbemClass_Get e a (Some name) True i n = Some (i', n', S_OK, Some v) \<and>
    (v = VT_NULL \<longleftrightarrow> name \<notin> set (snd (FakeWbemClass_GetNames e)))"
proof (cases "name = str ''MACAddress''")
  case True
  obtain i' n' where "init_mac e i n = Some (i', n')" using init_mac_total by blast
  then show ?thesis using True assms by (simp add: FakeWbemClass_Get_def FakeWbemClass_GetNames_def)
next
  case False
  then show ?thesis using assms
    by (simp add: FakeWbemClass_Get_def FakeWbemClass_GetNames_def one_string_def Let_def)
qed

theorem wmi_names_answered_witness:
  "\<exists>i' n' v. FakeWbemClass_Get wmi_env0 adapter_initial (Some (str ''IPAddress'')) True identity_initial \<lparr>wire = [], open_sockets = 0\<rparr> =
     Some (i', n', S_OK, Some v) \<and> v \<noteq> VT_NULL"
proof -
  have "we_array_ok wmi_env0" by (simp add: wmi_env0_def)
  moreover have "str ''IPAddress'' \<in> set (snd (FakeWbemClass_GetNames wmi_env0))"
    by (simp add: FakeWbemClass_GetNames_def wmi_env0_def)
  ultimately show ?thesis
    using wmi_names_answered [of wmi_env0 adapter_initial "str ''IPAddress''" identity_initial "\<lparr>wire = [], open_sockets = 0\<rparr>"] by blast
qed

end
