(* ===== verification/Limited_Registry.thy ===== *)
theory Limited_Registry
  imports C_Strings
begin

text \<open>
  The small registry of src/register_limited.c: one fake key, Registration, with one value,
  ServerPassword, kept in a buffer of 256 bytes and in the file ServerPassword.dat beside the
  program.  The names of the hooks carry the suffix \<open>_limited\<close> to tell them from those of
  src/register.c.  The real advapi32 functions are parameters, None for a null pointer; the files
  are a map from paths to contents; \<open>io_env\<close> says what the system answers to the opening of the
  file and to each transfer.  A hook whose result is None has left a buffer or followed a null
  pointer.
\<close>

definition FAKE_REGISTRATION_KEY :: u32 where "FAKE_REGISTRATION_KEY = 0x30000001"
definition SERVER_PASSWORD_SIZE :: nat where "SERVER_PASSWORD_SIZE = 256"
definition MAX_PATH :: nat where "MAX_PATH = 260"

definition LR_SUCCESS :: u32 where "LR_SUCCESS = 0"
definition LR_FILE_NOT_FOUND :: u32 where "LR_FILE_NOT_FOUND = 2"
definition LR_MORE_DATA :: u32 where "LR_MORE_DATA = 234"
definition LR_BINARY :: u32 where "LR_BINARY = 3"
definition LR_OPENED_EXISTING_KEY :: u32 where "LR_OPENED_EXISTING_KEY = 2"

type_synonym disk = "wstr \<Rightarrow> bytes option"

record password_store =
  g_serverPassword :: bytes
  g_serverPasswordSize :: u32
  g_serverPasswordType :: u32
  g_passwordFilePath :: wstr
  disk_of :: disk

definition password_initial :: "disk \<Rightarrow> password_store" where
  "password_initial d = \<lparr>g_serverPassword = replicate SERVER_PASSWORD_SIZE 0, g_serverPasswordSize = 0,
     g_serverPasswordType = LR_BINARY, g_passwordFilePath = [], disk_of = d\<rparr>"

section \<open>The file of the password\<close>

text \<open>\<open>io_limits\<close> bounds the bytes moved by each transfer in turn; None is a failing call.  A
  healthy system bounds none below 256.\<close>

record io_env =
  io_opened :: bool
  io_limits :: "nat option list"

definition healthy :: io_env where
  "healthy = \<lparr>io_opened = True, io_limits = [Some 4, Some 4, Some 256]\<rparr>"

definition io_limit :: "io_env \<Rightarrow> nat \<Rightarrow> nat option" where
  "io_limit e i = (if i < length (io_limits e) then io_limits e ! i else None)"

text \<open>The bytes read and the rest of the file, None if the call fails.\<close>

definition ReadFile :: "nat option \<Rightarrow> nat \<Rightarrow> bytes \<Rightarrow> (bytes \<times> bytes) option" where
  "ReadFile lim n f = map_option (\<lambda>m. (take (min m n) f, drop (min m n) f)) lim"

definition WriteFile :: "nat option \<Rightarrow> bytes \<Rightarrow> bytes \<Rightarrow> bytes" where
  "WriteFile lim b f = (case lim of None \<Rightarrow> f | Some m \<Rightarrow> f @ take m b)"

text \<open>The directory of the program file, with its last backslash, or the whole name when it has
  none; the copy of the file name leaves the buffer when the directory is too long.\<close>

definition directory :: "wstr \<Rightarrow> wstr" where
  "directory p = (if 92 \<in> set p then rev (dropWhile (\<lambda>c. c \<noteq> 92) (rev p)) else p)"

definition password_file :: wstr where "password_file = str ''ServerPassword.dat''"

definition InitPasswordFilePath :: "wstr \<Rightarrow> password_store \<Rightarrow> password_store option" where
  "InitPasswordFilePath module_path s =
     (let p = directory module_path @ password_file in
      if length p < MAX_PATH then Some (s\<lparr>g_passwordFilePath := p\<rparr>) else None)"

definition LoadServerPasswordFromFile :: "io_env \<Rightarrow> password_store \<Rightarrow> password_store" where
  "LoadServerPasswordFromFile e s =
     (case (if io_opened e then disk_of s (g_passwordFilePath s) else None) of
        None \<Rightarrow> s
      | Some f \<Rightarrow>
        (case ReadFile (io_limit e 0) 4 f of
           None \<Rightarrow> s
         | Some (t, f) \<Rightarrow>
           if length t \<noteq> 4 then s
           else (case ReadFile (io_limit e 1) 4 f of
              None \<Rightarrow> s
            | Some (z, f) \<Rightarrow>
              if length z \<noteq> 4 then s
              else
                (let size = of_le32 z;
                     size = (if unat size > SERVER_PASSWORD_SIZE then of_nat SERVER_PASSWORD_SIZE else size) in
                 case ReadFile (io_limit e 2) (unat size) f of
                   None \<Rightarrow> s
                 | Some (d, _) \<Rightarrow>
                   (let s = s\<lparr>g_serverPassword := d @ drop (length d) (g_serverPassword s)\<rparr> in
                    if length d \<noteq> unat size then s
                    else s\<lparr>g_serverPasswordType := of_le32 t, g_serverPasswordSize := size\<rparr>)))))"

definition SaveServerPasswordToFile :: "io_env \<Rightarrow> password_store \<Rightarrow> password_store option" where
  "SaveServerPasswordToFile e s =
     (if \<not> io_opened e then Some s
      else do {
        let f = WriteFile (io_limit e 0) (le32 (g_serverPasswordType s)) [];
        let f = WriteFile (io_limit e 1) (le32 (g_serverPasswordSize s)) f;
        f \<leftarrow> (if g_serverPasswordSize s > 0
              then do { d \<leftarrow> mem_read (g_serverPassword s) 0 (unat (g_serverPasswordSize s));
                        Some (WriteFile (io_limit e 2) d f) }
              else Some f);
        Some (s\<lparr>disk_of := (disk_of s)(g_passwordFilePath s \<mapsto> f)\<rparr>) })"

section \<open>Comparison of names\<close>

fun StrCmpIW_chars :: "wstr \<Rightarrow> wstr \<Rightarrow> int" where
  "StrCmpIW_chars (a # as) (b # bs) =
     (let diff = uint (lower a) - uint (lower b) in if diff \<noteq> 0 then diff else StrCmpIW_chars as bs)"
| "StrCmpIW_chars as bs = of_bool (as \<noteq> []) - of_bool (bs \<noteq> [])"

definition StrCmpIW :: "wstr option \<Rightarrow> wstr option \<Rightarrow> int" where
  "StrCmpIW a b = (case (a, b) of
     (None, None) \<Rightarrow> 0
   | (Some a, Some b) \<Rightarrow> StrCmpIW_chars a b
   | _ \<Rightarrow> -1)"

definition is_registration :: "wstr option \<Rightarrow> bool" where
  "is_registration lpSubKey \<longleftrightarrow> lpSubKey \<noteq> None \<and> StrCmpIW lpSubKey (Some (str ''Registration'')) = 0"

definition is_password :: "wstr option \<Rightarrow> bool" where
  "is_password lpValueName \<longleftrightarrow> lpValueName \<noteq> None \<and> StrCmpIW lpValueName (Some (str ''ServerPassword'')) = 0"

section \<open>The hooks\<close>

text \<open>Opening: the status and the handle stored, which the log line reads in every case.\<close>

definition Hook_RegOpenKeyW_limited ::
    "(u32 \<Rightarrow> wstr option \<Rightarrow> u32 option \<Rightarrow> u32 \<times> u32 option) option \<Rightarrow>
     u32 \<Rightarrow> wstr option \<Rightarrow> u32 option \<Rightarrow> (u32 \<times> u32) option" where
  "Hook_RegOpenKeyW_limited real hKey lpSubKey phkResult =
     (if is_registration lpSubKey then do { _ \<leftarrow> phkResult; Some (LR_SUCCESS, FAKE_REGISTRATION_KEY) }
      else do {
        let (st, res) = (case real of Some f \<Rightarrow> f hKey lpSubKey phkResult | None \<Rightarrow> (LR_FILE_NOT_FOUND, phkResult));
        h \<leftarrow> res;
        Some (st, h) })"

definition Hook_RegOpenKeyExW_limited ::
    "(u32 \<Rightarrow> wstr option \<Rightarrow> u32 \<Rightarrow> u32 \<Rightarrow> u32 option \<Rightarrow> u32 \<times> u32 option) option \<Rightarrow>
     u32 \<Rightarrow> wstr option \<Rightarrow> u32 \<Rightarrow> u32 \<Rightarrow> u32 option \<Rightarrow> (u32 \<times> u32) option" where
  "Hook_RegOpenKeyExW_limited real hKey lpSubKey ulOptions samDesired phkResult =
     (if is_registration lpSubKey then do { _ \<leftarrow> phkResult; Some (LR_SUCCESS, FAKE_REGISTRATION_KEY) }
      else do {
        let (st, res) = (case real of Some f \<Rightarrow> f hKey lpSubKey ulOptions samDesired phkResult
                         | None \<Rightarrow> (LR_FILE_NOT_FOUND, phkResult));
        h \<leftarrow> res;
        Some (st, h) })"

text \<open>Creation: status, handle and disposition; the class, options, rights and security
  attributes are handed to the real function as \<open>extra\<close>.\<close>

definition Hook_RegCreateKeyExW_limited ::
    "(u32 \<Rightarrow> wstr option \<Rightarrow> 'x \<Rightarrow> u32 option \<Rightarrow> u32 option \<Rightarrow> u32 \<times> u32 option \<times> u32 option) option \<Rightarrow>
     u32 \<Rightarrow> wstr option \<Rightarrow> 'x \<Rightarrow> u32 option \<Rightarrow> u32 option \<Rightarrow> (u32 \<times> u32 \<times> u32 option) option" where
  "Hook_RegCreateKeyExW_limited real hKey lpSubKey extra phkResult lpdwDisposition =
     (if is_registration lpSubKey then do {
        _ \<leftarrow> phkResult;
        Some (LR_SUCCESS, FAKE_REGISTRATION_KEY, map_option (\<lambda>_. LR_OPENED_EXISTING_KEY) lpdwDisposition) }
      else do {
        let (st, res, disp) = (case real of Some f \<Rightarrow> f hKey lpSubKey extra phkResult lpdwDisposition
                               | None \<Rightarrow> (LR_FILE_NOT_FOUND, phkResult, lpdwDisposition));
        h \<leftarrow> res;
        Some (st, h, disp) })"

definition Hook_RegSetValueExW_limited ::
    "(u32 \<Rightarrow> wstr option \<Rightarrow> u32 \<Rightarrow> u32 \<Rightarrow> bytes option \<Rightarrow> u32 \<Rightarrow> u32) option \<Rightarrow> io_env \<Rightarrow> password_store \<Rightarrow>
     u32 \<Rightarrow> wstr option \<Rightarrow> u32 \<Rightarrow> u32 \<Rightarrow> bytes option \<Rightarrow> u32 \<Rightarrow> (password_store \<times> u32) option" where
  "Hook_RegSetValueExW_limited real e s hKey lpValueName Res dwType lpData cbData =
     (if hKey = FAKE_REGISTRATION_KEY then
        (if is_password lpValueName then do {
           let cbData = (if unat cbData > SERVER_PASSWORD_SIZE then of_nat SERVER_PASSWORD_SIZE else cbData);
           d \<leftarrow> (if cbData = 0 then Some [] else do { p \<leftarrow> lpData; mem_read p 0 (unat cbData) });
           pw \<leftarrow> mem_write (g_serverPassword s) 0 d;
           let s = s\<lparr>g_serverPassword := pw, g_serverPasswordSize := cbData, g_serverPasswordType := dwType\<rparr>;
           s \<leftarrow> SaveServerPasswordToFile e s;
           Some (s, LR_SUCCESS) }
         else Some (s, LR_FILE_NOT_FOUND))
      else Some (s, case real of Some f \<Rightarrow> f hKey lpValueName Res dwType lpData cbData
                               | None \<Rightarrow> LR_FILE_NOT_FOUND))"

text \<open>The out-parameters of a query: type, data and size, None for a null pointer.\<close>

record value_out =
  out_type :: "u32 option"
  out_data :: "bytes option"
  out_size :: "u32 option"

definition Hook_RegQueryValueExW_limited ::
    "(u32 \<Rightarrow> wstr option \<Rightarrow> value_out \<Rightarrow> u32 \<times> value_out) option \<Rightarrow> password_store \<Rightarrow>
     u32 \<Rightarrow> wstr option \<Rightarrow> value_out \<Rightarrow> (u32 \<times> value_out) option" where
  "Hook_RegQueryValueExW_limited real s hKey lpValueName q =
     (let bufSize = (case out_size q of Some n \<Rightarrow> n | None \<Rightarrow> 0) in
      if hKey = FAKE_REGISTRATION_KEY then
        (if is_password lpValueName then
           (if g_serverPasswordSize s = 0 then Some (LR_FILE_NOT_FOUND, q)
            else do {
              let q = q\<lparr>out_type := map_option (\<lambda>_. g_serverPasswordType s) (out_type q)\<rparr>;
              if out_data q \<noteq> None \<and> bufSize < g_serverPasswordSize s then do {
                _ \<leftarrow> out_size q;
                Some (LR_MORE_DATA, q\<lparr>out_size := Some (g_serverPasswordSize s)\<rparr>) }
              else do {
                q \<leftarrow> (case out_data q of
                        None \<Rightarrow> Some q
                      | Some buf \<Rightarrow> do {
                          d \<leftarrow> mem_read (g_serverPassword s) 0 (unat (g_serverPasswordSize s));
                          buf \<leftarrow> mem_write buf 0 d;
                          Some (q\<lparr>out_data := Some buf\<rparr>) });
                _ \<leftarrow> out_size q;
                Some (LR_SUCCESS, q\<lparr>out_size := Some (g_serverPasswordSize s)\<rparr>) } })
         else Some (LR_FILE_NOT_FOUND, q))
      else Some (case real of Some f \<Rightarrow> f hKey lpValueName q | None \<Rightarrow> (LR_FILE_NOT_FOUND, q)))"

definition Hook_RegCloseKey_limited :: "(u32 \<Rightarrow> u32) option \<Rightarrow> u32 \<Rightarrow> u32" where
  "Hook_RegCloseKey_limited real hKey =
     (if hKey = FAKE_REGISTRATION_KEY then LR_SUCCESS
      else (case real of Some f \<Rightarrow> f hKey | None \<Rightarrow> LR_SUCCESS))"

definition Hook_RegDeleteValueW_limited ::
    "(u32 \<Rightarrow> wstr option \<Rightarrow> u32) option \<Rightarrow> password_store \<Rightarrow> u32 \<Rightarrow> wstr option \<Rightarrow> password_store \<times> u32" where
  "Hook_RegDeleteValueW_limited real s hKey lpValueName =
     (if hKey = FAKE_REGISTRATION_KEY then
        (if is_password lpValueName then
           (s\<lparr>g_serverPassword := replicate SERVER_PASSWORD_SIZE 0, g_serverPasswordSize := 0\<rparr>, LR_SUCCESS)
         else (s, LR_FILE_NOT_FOUND))
      else (s, case real of Some f \<Rightarrow> f hKey lpValueName | None \<Rightarrow> LR_FILE_NOT_FOUND))"

definition Hook_RegNotifyChangeKeyValue_limited :: "(u32 \<Rightarrow> 'x \<Rightarrow> u32) option \<Rightarrow> u32 \<Rightarrow> 'x \<Rightarrow> u32" where
  "Hook_RegNotifyChangeKeyValue_limited real hKey extra =
     (if hKey = FAKE_REGISTRATION_KEY then LR_SUCCESS
      else (case real of Some f \<Rightarrow> f hKey extra | None \<Rightarrow> LR_SUCCESS))"

text \<open>The start: the path, the saved password, and the addresses of the real functions in the
  order of the code.\<close>

definition limited_reals :: "string list" where
  "limited_reals = [''RegOpenKeyW'', ''RegOpenKeyExW'', ''RegCreateKeyExW'', ''RegSetValueExW'',
     ''RegQueryValueExW'', ''RegCloseKey'', ''RegDeleteValueW'', ''RegNotifyChangeKeyValue'']"

definition Register_InstallHooks_limited ::
    "wstr \<Rightarrow> io_env \<Rightarrow> (string \<Rightarrow> u32) \<Rightarrow> password_store \<Rightarrow> (password_store \<times> u32 list) option" where
  "Register_InstallHooks_limited module_path e GetProcAddress s = do {
     s \<leftarrow> InitPasswordFilePath module_path s;
     Some (LoadServerPasswordFromFile e s, map GetProcAddress limited_reals) }"

section \<open>What the store is\<close>

definition password_store_ok :: "password_store \<Rightarrow> bool" where
  "password_store_ok s \<longleftrightarrow> length (g_serverPassword s) = SERVER_PASSWORD_SIZE \<and>
     unat (g_serverPasswordSize s) \<le> SERVER_PASSWORD_SIZE"

text \<open>The runs of the program, over restarts that keep the disk.\<close>

inductive limited_reach :: "password_store \<Rightarrow> bool" where
  start: "Register_InstallHooks_limited mp e gpa (password_initial d) = Some (s, r) \<Longrightarrow> limited_reach s"
| set_value: "limited_reach s \<Longrightarrow>
    Hook_RegSetValueExW_limited real e s hk nm res t p n = Some (s', st) \<Longrightarrow> limited_reach s'"
| delete_value: "limited_reach s \<Longrightarrow> Hook_RegDeleteValueW_limited real s hk nm = (s', st) \<Longrightarrow> limited_reach s'"
| restart: "limited_reach s \<Longrightarrow>
    Register_InstallHooks_limited mp e gpa (password_initial (disk_of s)) = Some (s', r) \<Longrightarrow> limited_reach s'"

lemma ReadFile_length: "ReadFile lim n f = Some (d, r) \<Longrightarrow> length d \<le> n"
  by (auto simp: ReadFile_def)

lemma size_word [simp]: "unat (of_nat SERVER_PASSWORD_SIZE :: u32) = SERVER_PASSWORD_SIZE"
  by (simp add: SERVER_PASSWORD_SIZE_def)

lemma size_cut: "unat (if unat n > SERVER_PASSWORD_SIZE then of_nat SERVER_PASSWORD_SIZE else n :: u32) \<le> SERVER_PASSWORD_SIZE"
  by simp

lemma Load_ok: "password_store_ok s \<Longrightarrow> password_store_ok (LoadServerPasswordFromFile e s)"
  by (auto simp: LoadServerPasswordFromFile_def password_store_ok_def Let_def
      split: option.split dest!: ReadFile_length simp del: not_None_eq)

lemma Save_fields:
  "SaveServerPasswordToFile e s = Some s' \<Longrightarrow>
   g_serverPassword s' = g_serverPassword s \<and> g_serverPasswordSize s' = g_serverPasswordSize s"
  by (auto simp: SaveServerPasswordToFile_def bind_eq_Some Let_def split: if_splits)

lemma Install_ok:
  assumes "Register_InstallHooks_limited mp e gpa (password_initial d) = Some (s, r)"
  shows "password_store_ok s"
proof -
  obtain s0 where "InitPasswordFilePath mp (password_initial d) = Some s0" "s = LoadServerPasswordFromFile e s0"
    using assms by (auto simp: Register_InstallHooks_limited_def bind_eq_Some)
  moreover from this have "password_store_ok s0"
    by (auto simp: InitPasswordFilePath_def Let_def password_store_ok_def password_initial_def split: if_splits)
  ultimately show ?thesis by (simp add: Load_ok)
qed

lemma Set_ok:
  "password_store_ok s \<Longrightarrow> Hook_RegSetValueExW_limited real e s hk nm res t p n = Some (s', st) \<Longrightarrow>
   password_store_ok s'"
  using size_cut [of n]
  by (auto simp: Hook_RegSetValueExW_limited_def password_store_ok_def bind_eq_Some Let_def
      dest!: Save_fields mem_write_length split: if_splits)

lemma limited_reach_ok: "limited_reach s \<Longrightarrow> password_store_ok s"
proof (induction rule: limited_reach.induct)
  case (delete_value s real hk nm s' st)
  then show ?case
    by (auto simp: Hook_RegDeleteValueW_limited_def password_store_ok_def split: if_splits)
qed (auto intro: Install_ok Set_ok)

lemma query_defined:
  assumes "password_store_ok s" "out_size q = Some n"
    "case out_data q of None \<Rightarrow> True | Some buf \<Rightarrow> unat n \<le> length buf"
  shows "Hook_RegQueryValueExW_limited real s FAKE_REGISTRATION_KEY nm q \<noteq> None"
proof (cases "out_data q")
  case None
  then show ?thesis using assms(2) by (simp add: Hook_RegQueryValueExW_limited_def Let_def)
next
  case (Some buf)
  show ?thesis
  proof (cases "n < g_serverPasswordSize s")
    case True
    then show ?thesis using assms(2) Some by (simp add: Hook_RegQueryValueExW_limited_def Let_def)
  next
    case False
    then have "unat (g_serverPasswordSize s) \<le> length buf"
      using assms(3) Some by (simp add: word_less_nat_alt)
    then show ?thesis using assms Some False
      by (simp add: Hook_RegQueryValueExW_limited_def Let_def mem_read_def mem_write_def
          password_store_ok_def SERVER_PASSWORD_SIZE_def)
  qed
qed


definition store0 :: password_store where
  "store0 = (password_initial (\<lambda>_. None))\<lparr>g_passwordFilePath := password_file\<rparr>"

lemma install_empty:
  "Register_InstallHooks_limited [] healthy (\<lambda>_. 0) (password_initial (\<lambda>_. None)) = Some (store0, replicate 8 0)"
  by (simp add: Register_InstallHooks_limited_def InitPasswordFilePath_def directory_def password_file_def
      MAX_PATH_def LoadServerPasswordFromFile_def password_initial_def store0_def limited_reals_def Let_def
      numeral_eq_Suc)

lemma reach_store0: "limited_reach store0"
  by (rule limited_reach.start [OF install_empty])


section \<open>A password over restarts\<close>

lemma file_of_save:
  assumes "password_store_ok s"
  shows "SaveServerPasswordToFile healthy s = Some (s\<lparr>disk_of := (disk_of s)(g_passwordFilePath s \<mapsto>
     le32 (g_serverPasswordType s) @ le32 (g_serverPasswordSize s) @
     take (unat (g_serverPasswordSize s)) (g_serverPassword s))\<rparr>)"
  using assms
  by (cases "g_serverPasswordSize s = 0")
    (simp_all add: SaveServerPasswordToFile_def healthy_def io_limit_def WriteFile_def Let_def mem_read_def
      password_store_ok_def SERVER_PASSWORD_SIZE_def word_neq_0_conv)

lemma load_of_file:
  assumes "disk_of s (g_passwordFilePath s) = Some (le32 t @ le32 n @ d)" "length d = unat n" "unat n \<le> SERVER_PASSWORD_SIZE"
  shows "LoadServerPasswordFromFile healthy s = s\<lparr>g_serverPassword := d @ drop (length d) (g_serverPassword s),
     g_serverPasswordType := t, g_serverPasswordSize := n\<rparr>"
  using assms
  by (simp add: LoadServerPasswordFromFile_def healthy_def io_limit_def ReadFile_def Let_def SERVER_PASSWORD_SIZE_def)

lemma set_password_eq:
  assumes "password_store_ok s" "length d < 2 ^ 32" "is_password nm"
  shows "Hook_RegSetValueExW_limited real healthy s FAKE_REGISTRATION_KEY nm res t (Some d) (of_nat (length d)) =
    Some (s\<lparr>g_serverPassword := take 256 d @ drop (min 256 (length d)) (g_serverPassword s),
       g_serverPasswordSize := of_nat (min 256 (length d)), g_serverPasswordType := t,
       disk_of := (disk_of s)(g_passwordFilePath s \<mapsto>
         le32 t @ le32 (of_nat (min 256 (length d))) @ take 256 d)\<rparr>, LR_SUCCESS)"
proof -
  define k where "k = min 256 (length d)"
  have k: "k \<le> 256" "k \<le> length d" "take 256 d = take k d" by (simp_all add: k_def min_def)
  let ?s = "s\<lparr>g_serverPassword := take k d @ drop k (g_serverPassword s),
     g_serverPasswordSize := of_nat k, g_serverPasswordType := t\<rparr>"
  have u: "unat (of_nat (length d) :: u32) = length d" "unat (of_nat k :: u32) = k"
    using assms(2) k by (simp_all add: unat_of_nat_u32)
  have c: "(if unat (of_nat (length d) :: u32) > SERVER_PASSWORD_SIZE then of_nat SERVER_PASSWORD_SIZE
      else of_nat (length d)) = (of_nat k :: u32)"
    unfolding u by (simp add: SERVER_PASSWORD_SIZE_def k_def min_def)
  have r: "(if of_nat k = (0 :: u32) then Some [] else do { p \<leftarrow> Some d; mem_read p 0 (unat (of_nat k :: u32)) }) = Some (take k d)"
    using u(2) k(2) by (auto simp: mem_read_def)
  have w: "mem_write (g_serverPassword s) 0 (take k d) = Some (g_serverPassword ?s)"
    using assms(1) k by (simp add: mem_write_def password_store_ok_def SERVER_PASSWORD_SIZE_def)
  have ok: "password_store_ok ?s"
    using assms(1) u(2) k by (simp add: password_store_ok_def SERVER_PASSWORD_SIZE_def)
  have f: "SaveServerPasswordToFile healthy ?s = Some (?s\<lparr>disk_of := (disk_of s)(g_passwordFilePath s \<mapsto>
      le32 t @ le32 (of_nat k) @ take k d)\<rparr>)"
    using file_of_save [OF ok] u(2) k by simp
  show ?thesis
    unfolding Hook_RegSetValueExW_limited_def Let_def c r k(3) k_def [symmetric]
    using assms(3) w f by simp
qed

lemma query_eq:
  assumes "password_store_ok s" "g_serverPasswordSize s \<noteq> 0" "is_password nm"
    "unat (g_serverPasswordSize s) \<le> length buf" "length buf < 2 ^ 32"
  shows "Hook_RegQueryValueExW_limited real s FAKE_REGISTRATION_KEY nm
      \<lparr>out_type = Some t0, out_data = Some buf, out_size = Some (of_nat (length buf))\<rparr> =
    Some (LR_SUCCESS, \<lparr>out_type = Some (g_serverPasswordType s),
      out_data = Some (take (unat (g_serverPasswordSize s)) (g_serverPassword s) @
                       drop (unat (g_serverPasswordSize s)) buf),
      out_size = Some (g_serverPasswordSize s)\<rparr>)"
proof -
  have "\<not> of_nat (length buf) < g_serverPasswordSize s"
    using assms(4,5) by (simp add: word_less_nat_alt unat_of_nat_u32)
  then show ?thesis
    using assms by (simp add: Hook_RegQueryValueExW_limited_def Let_def mem_read_def mem_write_def
        password_store_ok_def SERVER_PASSWORD_SIZE_def min_absorb2)
qed

lemma restart_query:
  assumes "disk_of s (g_passwordFilePath s) = Some (le32 t @ le32 (of_nat (min 256 (length d))) @ take 256 d)"
    "d \<noteq> []" "is_password nm" "InitPasswordFilePath mp s = Some s"
    "min 256 (length d) \<le> length buf" "length buf < 2 ^ 32"
  shows "\<exists>s2 r. Register_InstallHooks_limited mp healthy gpa (password_initial (disk_of s)) = Some (s2, r) \<and>
    Hook_RegQueryValueExW_limited real' s2 FAKE_REGISTRATION_KEY nm
      \<lparr>out_type = Some t0, out_data = Some buf, out_size = Some (of_nat (length buf))\<rparr> =
      Some (LR_SUCCESS, \<lparr>out_type = Some t, out_data = Some (take 256 d @ drop (min 256 (length d)) buf),
        out_size = Some (of_nat (min 256 (length d)))\<rparr>)"
proof -
  let ?n = "min 256 (length d)"
  let ?s = "(password_initial (disk_of s))\<lparr>g_passwordFilePath := g_passwordFilePath s\<rparr>"
  let ?s2 = "?s\<lparr>g_serverPassword := take 256 d @ drop ?n (g_serverPassword ?s), g_serverPasswordType := t,
     g_serverPasswordSize := of_nat ?n\<rparr>"
  have u: "unat (of_nat ?n :: u32) = ?n" by (simp add: unat_of_nat_u32)
  have n0: "of_nat ?n \<noteq> (0 :: u32)" using u assms(2) by (metis min_0R length_0_conv unat_0 min_def zero_neq_numeral)
  have p: "InitPasswordFilePath mp (password_initial (disk_of s)) = Some ?s"
    using assms(4) by (auto simp: InitPasswordFilePath_def Let_def split: if_splits)
      (metis password_store.select_convs(4) password_store.update_convs(4) password_store.surjective)
  have l: "LoadServerPasswordFromFile healthy ?s = ?s2"
    using load_of_file [of ?s t "of_nat ?n" "take 256 d"] u assms(1)
    by (simp add: password_initial_def SERVER_PASSWORD_SIZE_def min.commute)
  have i: "Register_InstallHooks_limited mp healthy gpa (password_initial (disk_of s)) = Some (?s2, map gpa limited_reals)"
    by (simp add: Register_InstallHooks_limited_def p l)
  have "Hook_RegQueryValueExW_limited real' ?s2 FAKE_REGISTRATION_KEY nm
      \<lparr>out_type = Some t0, out_data = Some buf, out_size = Some (of_nat (length buf))\<rparr> =
      Some (LR_SUCCESS, \<lparr>out_type = Some t, out_data = Some (take 256 d @ drop ?n buf),
        out_size = Some (of_nat ?n)\<rparr>)"
    using query_eq [OF Install_ok [OF i], of nm buf real' t0] n0 u assms(3,5,6)
    by (simp add: min.commute) (simp add: min_def)
  then show ?thesis using i by blast
qed

lemma set_keeps_path:
  "InitPasswordFilePath mp s = Some s \<Longrightarrow> g_passwordFilePath s' = g_passwordFilePath s \<Longrightarrow>
   InitPasswordFilePath mp s' = Some s'"
  by (auto simp: InitPasswordFilePath_def Let_def split: if_splits)
    (metis password_store.select_convs(4) password_store.update_convs(4) password_store.surjective)

text \<open>A password set through the fake key is found again after a restart: the next start of the
  same program reads ServerPassword.dat and a query with enough room returns the type and the
  data, cut at 256 bytes.\<close>

theorem password_survives_restart:
  assumes "limited_reach s" "d \<noteq> []" "length d < 2 ^ 32" "is_password nm"
    and "InitPasswordFilePath mp s = Some s" "min 256 (length d) \<le> length buf" "length buf < 2 ^ 32"
  shows "\<exists>s1 s2 r.
    Hook_RegSetValueExW_limited real healthy s FAKE_REGISTRATION_KEY nm res t (Some d) (of_nat (length d)) =
      Some (s1, LR_SUCCESS) \<and>
    Register_InstallHooks_limited mp healthy gpa (password_initial (disk_of s1)) = Some (s2, r) \<and>
    Hook_RegQueryValueExW_limited real' s2 FAKE_REGISTRATION_KEY nm
      \<lparr>out_type = Some t0, out_data = Some buf, out_size = Some (of_nat (length buf))\<rparr> =
      Some (LR_SUCCESS, \<lparr>out_type = Some t, out_data = Some (take 256 d @ drop (min 256 (length d)) buf),
        out_size = Some (of_nat (min 256 (length d)))\<rparr>)"
proof -
  obtain s1 where s1: "Hook_RegSetValueExW_limited real healthy s FAKE_REGISTRATION_KEY nm res t (Some d)
      (of_nat (length d)) = Some (s1, LR_SUCCESS)"
    "g_passwordFilePath s1 = g_passwordFilePath s"
    "disk_of s1 (g_passwordFilePath s1) = Some (le32 t @ le32 (of_nat (min 256 (length d))) @ take 256 d)"
    using set_password_eq [OF limited_reach_ok [OF assms(1)] assms(3,4), of real res t] by simp
  show ?thesis
    using s1(1) restart_query [OF s1(3) assms(2,4) set_keeps_path [OF assms(5) s1(2)] assms(6,7), of gpa real' t0]
    by blast
qed

theorem password_survives_restart_witness:
  "\<exists>s1 s2 r.
    Hook_RegSetValueExW_limited None healthy store0 FAKE_REGISTRATION_KEY (Some (str ''serverpassword'')) 0 3
      (Some [1, 2]) 2 = Some (s1, LR_SUCCESS) \<and>
    Register_InstallHooks_limited [] healthy (\<lambda>_. 0) (password_initial (disk_of s1)) = Some (s2, r) \<and>
    Hook_RegQueryValueExW_limited None s2 FAKE_REGISTRATION_KEY (Some (str ''serverpassword''))
      \<lparr>out_type = Some 0, out_data = Some [9, 9, 9], out_size = Some 3\<rparr> =
      Some (LR_SUCCESS, \<lparr>out_type = Some 3, out_data = Some [1, 2, 9], out_size = Some 2\<rparr>)"
proof -
  have n: "is_password (Some (str ''serverpassword''))"
    by (simp add: is_password_def StrCmpIW_def lower_def)
  have p: "InitPasswordFilePath [] store0 = Some store0"
    by (simp add: InitPasswordFilePath_def directory_def store0_def password_file_def MAX_PATH_def Let_def)
  show ?thesis
    using password_survives_restart [OF reach_store0 _ _ n p, of "[1, 2]" "[9, 9, 9]" None 0 3 "\<lambda>_. 0" None 0] by simp
qed

text \<open>A deleted password comes back: the deletion clears the memory but not the file, so after
  the next start a query finds the password that was set before.\<close>

theorem deleted_password_returns:
  assumes "limited_reach s" "d \<noteq> []" "length d < 2 ^ 32" "is_password nm"
    and "InitPasswordFilePath mp s = Some s" "min 256 (length d) \<le> length buf" "length buf < 2 ^ 32"
    and "Hook_RegSetValueExW_limited real healthy s FAKE_REGISTRATION_KEY nm res t (Some d) (of_nat (length d)) =
      Some (s1, LR_SUCCESS)"
  shows "\<exists>s2 s3 r. Hook_RegDeleteValueW_limited real1 s1 FAKE_REGISTRATION_KEY nm = (s2, LR_SUCCESS) \<and>
    Hook_RegQueryValueExW_limited real' s2 FAKE_REGISTRATION_KEY nm q = Some (LR_FILE_NOT_FOUND, q) \<and>
    Register_InstallHooks_limited mp healthy gpa (password_initial (disk_of s2)) = Some (s3, r) \<and>
    Hook_RegQueryValueExW_limited real' s3 FAKE_REGISTRATION_KEY nm
      \<lparr>out_type = Some t0, out_data = Some buf, out_size = Some (of_nat (length buf))\<rparr> =
      Some (LR_SUCCESS, \<lparr>out_type = Some t, out_data = Some (take 256 d @ drop (min 256 (length d)) buf),
        out_size = Some (of_nat (min 256 (length d)))\<rparr>)"
proof -
  let ?s2 = "s1\<lparr>g_serverPassword := replicate SERVER_PASSWORD_SIZE 0, g_serverPasswordSize := 0\<rparr>"
  have s1: "g_passwordFilePath ?s2 = g_passwordFilePath s"
    "disk_of ?s2 (g_passwordFilePath ?s2) = Some (le32 t @ le32 (of_nat (min 256 (length d))) @ take 256 d)"
    using set_password_eq [OF limited_reach_ok [OF assms(1)] assms(3,4), of real res t] assms(8) by auto
  have "Hook_RegDeleteValueW_limited real1 s1 FAKE_REGISTRATION_KEY nm = (?s2, LR_SUCCESS)"
    using assms(4) by (simp add: Hook_RegDeleteValueW_limited_def)
  moreover have "Hook_RegQueryValueExW_limited real' ?s2 FAKE_REGISTRATION_KEY nm q = Some (LR_FILE_NOT_FOUND, q)"
    using assms(4) by (simp add: Hook_RegQueryValueExW_limited_def Let_def)
  ultimately show ?thesis
    using restart_query [OF s1(2) assms(2,4) set_keeps_path [OF assms(5) s1(1)] assms(6,7), of gpa real' t0]
    by blast
qed

theorem deleted_password_returns_witness:
  "\<exists>s1 s2 s3 r. Hook_RegSetValueExW_limited None healthy store0 FAKE_REGISTRATION_KEY (Some (str ''serverpassword'')) 0 3
      (Some [1, 2]) 2 = Some (s1, LR_SUCCESS) \<and>
    Hook_RegDeleteValueW_limited None s1 FAKE_REGISTRATION_KEY (Some (str ''serverpassword'')) = (s2, LR_SUCCESS) \<and>
    Register_InstallHooks_limited [] healthy (\<lambda>_. 0) (password_initial (disk_of s2)) = Some (s3, r) \<and>
    Hook_RegQueryValueExW_limited None s3 FAKE_REGISTRATION_KEY (Some (str ''serverpassword''))
      \<lparr>out_type = Some 0, out_data = Some [9, 9, 9], out_size = Some 3\<rparr> =
      Some (LR_SUCCESS, \<lparr>out_type = Some 3, out_data = Some [1, 2, 9], out_size = Some 2\<rparr>)"
proof -
  have n: "is_password (Some (str ''serverpassword''))"
    by (simp add: is_password_def StrCmpIW_def lower_def)
  have p: "InitPasswordFilePath [] store0 = Some store0"
    by (simp add: InitPasswordFilePath_def directory_def store0_def password_file_def MAX_PATH_def Let_def)
  obtain s1 where s: "Hook_RegSetValueExW_limited None healthy store0 FAKE_REGISTRATION_KEY
      (Some (str ''serverpassword'')) 0 3 (Some [1, 2]) (of_nat (length [1, 2 :: u8])) = Some (s1, LR_SUCCESS)"
    using set_password_eq [OF limited_reach_ok [OF reach_store0] _ n, of "[1, 2]" None 0 3] by auto
  show ?thesis
    using deleted_password_returns [OF reach_store0 _ _ n p _ _ s, of "[9, 9, 9]" None None
        "\<lparr>out_type = None, out_data = None, out_size = None\<rparr>" "\<lambda>_. 0" 0] s
    by (simp del: str_Cons) blast
qed

end
