(* ===== verification/Launchers.thy ===== *)
theory Launchers
  imports C_Strings
begin

text \<open>
  The two launchers: src/inject_exe.c starts a program suspended and makes it load the library,
  src/start_rvpn.c starts the user interface and the injector, finds the service among the
  injector's children and watches all three.  What the system answers is a record; the state
  holds the processes that live, the handles that are open and what was done to the target.  A
  wait that never ends makes the result None.
\<close>

section \<open>The injector\<close>

record inject_env =
  ie_created :: bool
  ie_alloc :: bool
  ie_written :: bool
  ie_load_library :: bool     \<comment> \<open>\<open>LoadLibraryA\<close> is found\<close>
  ie_thread :: bool
  ie_thread_ends :: bool
  ie_target_ends :: bool

datatype inject_handle = H_Process | H_Thread | H_Remote

record target =
  t_command :: "bytes option"       \<comment> \<open>the command line it was started with\<close>
  t_alive :: bool
  t_suspended :: bool
  t_memory :: "bytes option"        \<comment> \<open>the block allocated in it\<close>
  t_loaded :: "bytes list"          \<comment> \<open>the libraries it was made to load, before it ran\<close>
  t_handles :: "inject_handle list"

definition no_target :: target where
  "no_target = \<lparr>t_command = None, t_alive = False, t_suspended = False, t_memory = None, t_loaded = [],
     t_handles = []\<rparr>"

definition inject_command :: "bytes \<Rightarrow> bytes" where
  "inject_command targetExe = take 519 (34 # targetExe @ 34 # str '' /run'')"

definition close_handle :: "inject_handle \<Rightarrow> target \<Rightarrow> target" where
  "close_handle h t = t\<lparr>t_handles := remove1 h (t_handles t)\<rparr>"

text \<open>The three lines each error path ends with, and the release of the remote memory.\<close>

definition give_up :: "target \<Rightarrow> target" where
  "give_up t = close_handle H_Thread (close_handle H_Process (t\<lparr>t_alive := False\<rparr>))"

definition VirtualFreeEx :: "target \<Rightarrow> target" where
  "VirtualFreeEx t = t\<lparr>t_memory := None\<rparr>"

definition inject_main :: "inject_env \<Rightarrow> bytes list \<Rightarrow> (int \<times> target) option" where
  "inject_main e argv =
     (if length argv \<noteq> 3 then Some (1, no_target)
      else
        (let targetExe = argv ! 1; dllPath = argv ! 2 in
         if \<not> ie_created e then Some (1, no_target)
         else
           (let t = no_target\<lparr>t_command := Some (inject_command targetExe), t_alive := True, t_suspended := True,
                      t_handles := [H_Process, H_Thread]\<rparr> in
            if \<not> ie_alloc e then Some (1, give_up t)
            else
              (let t = t\<lparr>t_memory := Some (replicate (Suc (length dllPath)) 0)\<rparr> in
               if \<not> ie_written e then Some (1, give_up (VirtualFreeEx t))
               else
                 (let t = t\<lparr>t_memory := Some (dllPath @ [0])\<rparr> in
                  if \<not> ie_load_library e then Some (1, give_up (VirtualFreeEx t))
                  else if \<not> ie_thread e then Some (1, give_up (VirtualFreeEx t))
                  else
                    (let t = t\<lparr>t_handles := H_Remote # t_handles t\<rparr> in
                     if \<not> ie_thread_ends e then None
                     else
                       (let t = t\<lparr>t_loaded := t_loaded t @ [takeWhile (\<lambda>c. c \<noteq> 0) (the (t_memory t))]\<rparr>;
                            t = VirtualFreeEx (close_handle H_Remote t);
                            t = t\<lparr>t_suspended := False\<rparr> in
                        if \<not> ie_target_ends e then None
                        else Some (0, close_handle H_Thread (close_handle H_Process (t\<lparr>t_alive := False\<rparr>))))))))))"


definition all_well :: inject_env where
  "all_well = \<lparr>ie_created = True, ie_alloc = True, ie_written = True, ie_load_library = True, ie_thread = True,
     ie_thread_ends = True, ie_target_ends = True\<rparr>"


section \<open>The search for the service\<close>

record process_entry =
  szExeFile :: bytes
  th32ParentProcessID :: u32
  th32ProcessID :: u32

text \<open>The n-th snapshot, None when it cannot be taken, and the n-th reading of the tick counter, the
  first of which is the start.\<close>

record search_env =
  se_snapshot :: "nat \<Rightarrow> process_entry list option"
  se_ticks :: "nat \<Rightarrow> u32"

definition is_child :: "bytes \<Rightarrow> u32 \<Rightarrow> process_entry \<Rightarrow> bool" where
  "is_child exeName parentPid pe \<longleftrightarrow> icmp_eq (szExeFile pe) exeName \<and> th32ParentProcessID pe = parentPid"

partial_function (option) search_loop :: "search_env \<Rightarrow> bytes \<Rightarrow> u32 \<Rightarrow> u32 \<Rightarrow> nat \<Rightarrow> u32 option" where
  "search_loop e exeName parentPid timeout n =
     (case se_snapshot e n of
        None \<Rightarrow> Some 0
      | Some ps \<Rightarrow>
        (case find (is_child exeName parentPid) ps of
           Some pe \<Rightarrow> Some (th32ProcessID pe)
         | None \<Rightarrow>
             if se_ticks e (Suc n) - se_ticks e 0 > timeout then Some 0
             else search_loop e exeName parentPid timeout (Suc n)))"

definition FindProcessByNameAndParent :: "search_env \<Rightarrow> bytes \<Rightarrow> u32 \<Rightarrow> u32 \<Rightarrow> u32 option" where
  "FindProcessByNameAndParent e exeName parentPid timeout_ms = search_loop e exeName parentPid timeout_ms 0"

text \<open>A clock in milliseconds since some moment, of which the counter shows the last 32 bits; a round
  of the loop sleeps for 300 and lasts less than the time that would make the counter wrap past
  the timeout.\<close>

definition clock_ok :: "(nat \<Rightarrow> nat) \<Rightarrow> search_env \<Rightarrow> u32 \<Rightarrow> bool" where
  "clock_ok T e timeout \<longleftrightarrow> (\<forall>n. se_ticks e n = of_nat (T n)) \<and> T 0 \<le> T 1 \<and> T 1 - T 0 < 2 ^ 32 \<and>
     (\<forall>n\<ge>1. T n + 300 \<le> T (Suc n) \<and> T (Suc n) - T n < 2 ^ 32 - unat timeout)"

lemma clock_advances: "clock_ok T e tm \<Longrightarrow> T 0 + 300 * n \<le> T (Suc n)"
proof (induction n)
  case 0
  then show ?case by (simp add: clock_ok_def)
next
  case (Suc n)
  then have "T (Suc n) + 300 \<le> T (Suc (Suc n))" by (simp add: clock_ok_def)
  then show ?case using Suc by simp
qed

lemma elapsed: "a \<le> b \<Longrightarrow> b - a < 2 ^ 32 \<Longrightarrow> unat (of_nat b - of_nat a :: u32) = b - a"
  by (metis of_nat_diff unat_of_nat_u32)

lemma clock_round:
  assumes "clock_ok T e tm" "T n - T 0 \<le> unat tm"
  shows "T n \<le> T (Suc n) \<and> T 0 \<le> T n \<and> T (Suc n) - T 0 < 2 ^ 32"
proof (cases n)
  case 0
  then show ?thesis using assms by (simp add: clock_ok_def)
next
  case (Suc k)
  have "T 0 \<le> T n" using clock_advances [OF assms(1), of k] Suc by simp
  moreover have "T n + 300 \<le> T (Suc n)" "T (Suc n) - T n < 2 ^ 32 - unat tm"
    using assms(1) Suc by (simp_all add: clock_ok_def)
  ultimately show ?thesis using assms(2) by linarith
qed

text \<open>The outcome of a round: the answer, or the next round.\<close>

definition found_in :: "search_env \<Rightarrow> bytes \<Rightarrow> u32 \<Rightarrow> nat \<Rightarrow> u32 option" where
  "found_in e exe par n = (case se_snapshot e n of
     None \<Rightarrow> Some 0 | Some ps \<Rightarrow> map_option th32ProcessID (find (is_child exe par) ps))"

lemma search_round:
  "search_loop e exe par tm n =
     (case found_in e exe par n of Some r \<Rightarrow> Some r
      | None \<Rightarrow> if se_ticks e (Suc n) - se_ticks e 0 > tm then Some 0 else search_loop e exe par tm (Suc n))"
  by (subst search_loop.simps) (simp add: found_in_def split: option.split)

definition outcome :: "u32 option \<Rightarrow> u32" where
  "outcome r = (case r of Some p \<Rightarrow> p | None \<Rightarrow> 0)"

lemma search_loop_ends:
  assumes "clock_ok T e tm" "T n - T 0 \<le> unat tm"
  shows "\<exists>m\<ge>n. T m - T 0 \<le> unat tm \<and> (\<forall>i. n \<le> i \<longrightarrow> i < m \<longrightarrow> found_in e exe par i = None) \<and>
    search_loop e exe par tm n = Some (outcome (found_in e exe par m)) \<and>
    (found_in e exe par m = None \<longrightarrow> unat tm < T (Suc m) - T 0)"
  using assms(2)
proof (induction "unat tm + 601 - 300 * n" arbitrary: n rule: less_induct)
  case less
  show ?case
  proof (cases "found_in e exe par n")
    case (Some r)
    then show ?thesis using less(2) by (intro exI [of _ n]) (simp add: search_round [of e exe par tm n] outcome_def)
  next
    case None
    have adv: "T 0 + 300 * n \<le> T (Suc n)" by (rule clock_advances [OF assms(1)])
    have up: "T n \<le> T (Suc n)" "T 0 \<le> T n" "T (Suc n) - T 0 < 2 ^ 32"
      using clock_round [OF assms(1) less(2)] by simp_all
    have d: "unat (se_ticks e (Suc n) - se_ticks e 0) = T (Suc n) - T 0"
      using assms(1) up elapsed [of "T 0" "T (Suc n)"] by (simp add: clock_ok_def)
    show ?thesis
    proof (cases "unat tm < T (Suc n) - T 0")
      case True
      then show ?thesis using less(2) None d
        by (intro exI [of _ n]) (simp add: search_round [of e exe par tm n] outcome_def word_less_nat_alt)
    next
      case False
      then have s: "search_loop e exe par tm n = search_loop e exe par tm (Suc n)"
        using None d by (simp add: search_round [of e exe par tm n] word_less_nat_alt)
      have "unat tm + 601 - 300 * Suc n < unat tm + 601 - 300 * n" using False adv by simp
      then obtain m where m: "Suc n \<le> m" "T m - T 0 \<le> unat tm"
        "\<forall>i. Suc n \<le> i \<longrightarrow> i < m \<longrightarrow> found_in e exe par i = None"
        "search_loop e exe par tm (Suc n) = Some (outcome (found_in e exe par m))"
        "found_in e exe par m = None \<longrightarrow> unat tm < T (Suc m) - T 0"
        using less(1) [of "Suc n"] False by auto
      have "\<forall>i. n \<le> i \<longrightarrow> i < m \<longrightarrow> found_in e exe par i = None"
        using m(3) None by (metis Suc_leI le_neq_implies_less)
      then show ?thesis using m s by (intro exI [of _ m]) simp
    qed
  qed
qed

text \<open>C35. The search always ends, after at most timeout / 300 + 2 snapshots, also when the tick
  counter wraps meanwhile: it returns the process of the first snapshot that holds a child of the
  injector with that name, or 0 when a snapshot fails or the time is over.\<close>

theorem FindProcess_terminates:
  assumes "clock_ok T e timeout"
  shows "\<exists>m\<le>unat timeout div 300 + 1. (\<forall>i. i < m \<longrightarrow> found_in e exe par i = None) \<and>
    FindProcessByNameAndParent e exe par timeout = Some (outcome (found_in e exe par m)) \<and>
    (found_in e exe par m = None \<longrightarrow> unat timeout < T (Suc m) - T 0)"
proof -
  obtain m where m: "T m - T 0 \<le> unat timeout" "\<forall>i. i < m \<longrightarrow> found_in e exe par i = None"
    "search_loop e exe par timeout 0 = Some (outcome (found_in e exe par m))"
    "found_in e exe par m = None \<longrightarrow> unat timeout < T (Suc m) - T 0"
    using search_loop_ends [OF assms, of 0 exe par] by auto
  have "300 * (m - 1) \<le> unat timeout"
    using m(1) clock_advances [OF assms, of "m - 1"] by (cases m) auto
  then have "m \<le> unat timeout div 300 + 1" by (simp add: less_eq_div_iff_mult_less_eq mult.commute le_diff_conv)
  then show ?thesis using m by (auto simp: FindProcessByNameAndParent_def)
qed

definition quick_search :: search_env where
  "quick_search = \<lparr>se_snapshot = \<lambda>n. Some (if n = 2 then [\<lparr>szExeFile = [65], th32ParentProcessID = 7, th32ProcessID = 42\<rparr>] else []),
     se_ticks = \<lambda>n. of_nat (2 ^ 32 - 100 + 300 * n)\<rparr>"

theorem FindProcess_terminates_witness:
  "FindProcessByNameAndParent quick_search [97] 7 10000 = Some 42 \<and>
   FindProcessByNameAndParent quick_search [97] 8 500 = Some 0"
proof
  have c: "clock_ok (\<lambda>n. 2 ^ 32 - 100 + 300 * n) quick_search tm" if "unat tm < 2 ^ 31" for tm
    using that by (auto simp: clock_ok_def quick_search_def)
  have f: "found_in quick_search [97] 7 n = (if n = 2 then Some 42 else None)"
    "found_in quick_search [97] 8 n = None" for n
    by (simp_all add: found_in_def quick_search_def is_child_def icmp_eq_def lower_def)
  show "FindProcessByNameAndParent quick_search [97] 7 10000 = Some 42"
    using FindProcess_terminates [OF c, of 10000 "[97]" 7] by (auto simp: f outcome_def split: if_splits)
  show "FindProcessByNameAndParent quick_search [97] 8 500 = Some 0"
    using FindProcess_terminates [OF c, of 500 "[97]" 8] by (auto simp: f outcome_def)
qed

section \<open>The launcher\<close>

datatype proc = Gui | Injector | Service

record launch_env =
  le_file :: "bytes \<Rightarrow> bool"
  le_gui :: bool
  le_injector :: bool
  le_pid :: u32               \<comment> \<open>the process id of the injector\<close>
  le_search :: search_env
  le_service_started :: bool  \<comment> \<open>the injector got as far as starting the service\<close>
  le_open :: bool
  le_first_end :: "proc option"   \<comment> \<open>the process whose end wakes the launcher, None when all live on\<close>

record launcher =
  la_alive :: "proc list"
  la_handles :: "proc list"
  la_message :: "bytes option"

definition required_files :: "bytes list" where
  "required_files = map str [''RvRvpnGui.exe'', ''inject.exe'', ''RvControlSvc.exe'', ''hooklib.dll'']"

text \<open>The part of the message that names the missing files.\<close>

definition missing_text :: "bytes list \<Rightarrow> bytes" where
  "missing_text ms = (case ms of [] \<Rightarrow> [] | m # ms \<Rightarrow> m @ concat (map (\<lambda>x. 10 # x) ms))"

definition stop :: "proc \<Rightarrow> launcher \<Rightarrow> launcher" where
  "stop p l = l\<lparr>la_alive := removeAll p (la_alive l)\<rparr>"

definition close_proc :: "proc \<Rightarrow> launcher \<Rightarrow> launcher" where
  "close_proc p l = l\<lparr>la_handles := remove1 p (la_handles l)\<rparr>"

definition say :: "string \<Rightarrow> launcher \<Rightarrow> launcher" where
  "say m l = l\<lparr>la_message := Some (str m)\<rparr>"

definition launcher_main :: "launch_env \<Rightarrow> (int \<times> launcher) option" where
  "launcher_main e =
     (let l = \<lparr>la_alive = [], la_handles = [], la_message = None\<rparr>;
          missing = filter (\<lambda>f. \<not> le_file e f) required_files in
      if missing \<noteq> [] then Some (1, l\<lparr>la_message := Some (missing_text missing)\<rparr>)
      else if \<not> le_gui e then Some (1, say ''Failed to start RvRvpnGui.exe'' l)
      else
        (let l = l\<lparr>la_alive := [Gui], la_handles := [Gui]\<rparr> in
         if \<not> le_injector e then
           Some (1, say ''Failed to start inject.exe'' (close_proc Gui (stop Gui l)))
         else
           (let l = l\<lparr>la_alive := (if le_service_started e then [Service] else []) @ Injector # la_alive l,
                      la_handles := Injector # la_handles l\<rparr> in
            do {
              targetPid \<leftarrow> FindProcessByNameAndParent (le_search e) (str ''RvControlSvc.exe'') (le_pid e) 10000;
              let both_down = close_proc Injector (close_proc Gui (stop Injector (stop Gui l)));
              if targetPid = 0 then
                Some (1, say ''Could not find RvControlSvc.exe after launching inject.exe.'' both_down)
              else if \<not> le_open e then
                Some (1, say ''Failed to open RvControlSvc.exe process.'' both_down)
              else do {
                let l = l\<lparr>la_handles := Service # la_handles l\<rparr>;
                first \<leftarrow> le_first_end e;
                let l = stop first l;
                let l = close_proc Gui (stop Gui l);
                let l = close_proc Injector (stop Injector l);
                let l = close_proc Service (stop Service l);
                Some (0, l) } })))"

text \<open>When the launcher returns, it holds no handle and has ended the user interface and the
  injector.  The service has ended too when the launcher came as far as opening it; on the two
  error paths before, a service that the injector has started is left running.\<close>

theorem launcher_cleans_up:
  assumes "launcher_main e = Some (r, l)"
  shows "la_handles l = [] \<and> Gui \<notin> set (la_alive l) \<and> Injector \<notin> set (la_alive l) \<and>
    (if r = 0 then la_alive l = [] \<and> la_message l = None
     else r = 1 \<and> la_message l \<noteq> None \<and>
       la_alive l = (if filter (\<lambda>f. \<not> le_file e f) required_files = [] \<and> le_gui e \<and> le_injector e \<and>
                        le_service_started e then [Service] else []))"
  using assms
  by (auto simp: launcher_main_def Let_def stop_def close_proc_def say_def bind_eq_Some split: if_splits)

theorem launcher_cleans_up_witness:
  "\<exists>l. launcher_main \<lparr>le_file = \<lambda>_. True, le_gui = True, le_injector = True, le_pid = 7,
      le_search = \<lparr>se_snapshot = \<lambda>_. None, se_ticks = \<lambda>_. 0\<rparr>, le_service_started = True, le_open = True,
      le_first_end = None\<rparr> = Some (1, l) \<and> la_alive l = [Service] \<and> la_handles l = []"
proof -
  let ?e = "\<lparr>le_file = \<lambda>_. True, le_gui = True, le_injector = True, le_pid = 7,
      le_search = \<lparr>se_snapshot = \<lambda>_. None, se_ticks = \<lambda>_. 0\<rparr>, le_service_started = True, le_open = True,
      le_first_end = None\<rparr>"
  have "\<exists>l. launcher_main ?e = Some (1, l)"
    by (simp add: launcher_main_def Let_def FindProcessByNameAndParent_def search_loop.simps)
  then obtain l where l: "launcher_main ?e = Some (1, l)" ..
  show ?thesis using launcher_cleans_up [OF l] l by simp
qed

end
