(* ===== verification/Forwarders.thy ===== *)
theory Forwarders
  imports C_Strings
begin

text \<open>
  The libraries that stand in for system libraries and hand every exported function on to the
  real one: src/version_proxy.c, src/winmm_proxy.c, src/cryptbase_proxy.c and
  src/rvrolclient_proxy.c.  A library is its \<open>GetProcAddress\<close>, from names to addresses, 0 for a
  name it has not; a call of an exported function is the address control goes to.  What the
  loader answers is a parameter, 0 for failure.
\<close>

type_synonym exports = "bytes \<Rightarrow> u32"

section \<open>Pointers resolved at the first call\<close>

text \<open>The FORWARD macro: the static pointer of each function, and the address called, None when the
  function returns 0 instead.\<close>

definition FORWARD :: "exports \<Rightarrow> exports \<Rightarrow> bytes \<Rightarrow> exports \<times> u32 option" where
  "FORWARD lib pReal fn =
     (let pReal = (if pReal fn = 0 then pReal(fn := lib fn) else pReal) in
      (pReal, if pReal fn = 0 then None else Some (pReal fn)))"

definition version_exports :: "string list" where
  "version_exports =
    [''GetFileVersionInfoA'', ''GetFileVersionInfoW'', ''GetFileVersionInfoExA'',
     ''GetFileVersionInfoExW'', ''GetFileVersionInfoSizeA'', ''GetFileVersionInfoSizeW'',
     ''GetFileVersionInfoSizeExA'', ''GetFileVersionInfoSizeExW'', ''VerFindFileA'', ''VerFindFileW'',
     ''VerInstallFileA'', ''VerInstallFileW'', ''VerQueryValueA'', ''VerQueryValueW'']"

definition kernel_exports :: "string list" where
  "kernel_exports = [''VerLanguageNameA'', ''VerLanguageNameW'']"

definition winmm_audio :: "string list" where
  "winmm_audio =
    [''PlaySoundA'', ''PlaySoundW'', ''sndPlaySoundA'', ''sndPlaySoundW'', ''waveOutOpen'',
     ''waveOutClose'', ''waveOutWrite'', ''waveOutPrepareHeader'', ''waveOutUnprepareHeader'',
     ''waveOutReset'', ''waveOutPause'', ''waveOutRestart'', ''waveOutGetPosition'', ''waveOutGetVolume'',
     ''waveOutSetVolume'', ''waveOutBreakLoop'', ''waveOutMessage'', ''waveOutGetDevCapsA'',
     ''waveOutGetDevCapsW'', ''waveOutGetNumDevs'', ''waveOutGetPlaybackRate'', ''waveOutSetPlaybackRate'',
     ''waveOutGetPitch'', ''waveOutSetPitch'', ''waveOutGetID'', ''waveInOpen'', ''waveInClose'',
     ''waveInStart'', ''waveInStop'', ''waveInReset'', ''waveInAddBuffer'', ''waveInPrepareHeader'',
     ''waveInUnprepareHeader'', ''waveInGetDevCapsA'', ''waveInGetDevCapsW'', ''waveInGetNumDevs'',
     ''waveInGetPosition'', ''waveInMessage'', ''waveInGetID'', ''midiOutOpen'', ''midiOutClose'',
     ''midiOutShortMsg'', ''midiOutLongMsg'', ''midiOutReset'', ''midiOutGetDevCapsA'',
     ''midiOutGetDevCapsW'', ''midiOutGetNumDevs'', ''midiOutGetVolume'', ''midiOutSetVolume'',
     ''midiOutMessage'', ''midiOutPrepareHeader'', ''midiOutUnprepareHeader'', ''midiOutCachePatches'',
     ''midiOutCacheDrumPatches'', ''midiOutGetID'', ''midiInOpen'', ''midiInClose'', ''midiInStart'',
     ''midiInStop'', ''midiInReset'', ''midiInAddBuffer'', ''midiInPrepareHeader'',
     ''midiInUnprepareHeader'', ''midiInGetDevCapsA'', ''midiInGetDevCapsW'', ''midiInGetNumDevs'',
     ''midiInMessage'', ''midiInGetID'', ''midiStreamOpen'', ''midiStreamClose'', ''midiStreamOut'',
     ''midiStreamPause'', ''midiStreamRestart'', ''midiStreamStop'', ''midiStreamPosition'',
     ''auxGetDevCapsA'', ''auxGetDevCapsW'', ''auxGetNumDevs'', ''auxGetVolume'', ''auxSetVolume'',
     ''auxOutMessage'', ''mixerOpen'', ''mixerClose'', ''mixerGetControlDetailsA'',
     ''mixerGetControlDetailsW'', ''mixerGetLineControlsA'', ''mixerGetLineInfoA'', ''mixerGetDevCapsA'',
     ''mixerGetDevCapsW'', ''mixerGetNumDevs'', ''mixerGetID'', ''mixerSetControlDetails'']"

definition winmm_control :: "string list" where
  "winmm_control =
    [''timeGetTime'', ''timeBeginPeriod'', ''timeEndPeriod'', ''timeGetDevCaps'', ''timeGetSystemTime'',
     ''timeKillEvent'', ''timeSetEvent'', ''mciSendCommandA'', ''mciSendCommandW'', ''mciSendStringA'',
     ''mciSendStringW'', ''mciGetDeviceIDA'', ''mciGetDeviceIDW'', ''mciGetErrorStringA'',
     ''mciGetErrorStringW'', ''mciGetYieldProc'', ''mciSetYieldProc'', ''mciExecute'',
     ''mciFreeCommandResource'', ''mciSetDriverData'', ''mciGetDriverData'', ''mciDriverYield'',
     ''mmioOpenA'', ''mmioOpenW'', ''mmioClose'', ''mmioRead'', ''mmioWrite'', ''mmioSeek'',
     ''mmioGetInfo'', ''mmioSetBuffer'', ''mmioFlush'', ''mmioAdvance'', ''mmioAscend'',
     ''mmioCreateChunk'', ''mmioStringToFOURCCA'', ''mmioStringToFOURCCW'', ''mmioInstallIOProcA'',
     ''mmioInstallIOProcW'', ''mmioRenameA'', ''mmioRenameW'', ''CloseDriver'', ''DefDriverProc'',
     ''DriverCallback'', ''DrvClose'', ''DrvDefDriverProc'', ''DrvGetModuleHandle'', ''DrvSendMessage'',
     ''DrvOpen'', ''DrvOpenA'', ''SendDriverMessage'', ''OpenDriver'', ''OpenDriverA'', ''GetDriverFlags'',
     ''GetDriverModuleHandle'', ''mmsystemGetVersion'', ''mmGetCurrentTask'', ''mmTaskBlock'',
     ''mmTaskSignal'', ''mmTaskYield'', ''joyConfigChanged'', ''joyGetDevCapsA'', ''joyGetDevCapsW'',
     ''joyGetNumDevs'', ''joyGetPos'', ''joyGetPosEx'', ''joyGetThreshold'', ''joyReleaseCapture'',
     ''joySetCapture'', ''joySetThreshold'']"

definition winmm_extra :: "string list" where
  "winmm_extra =
    [''mciDriverNotify'', ''mciGetCreatorTask'', ''mciGetDeviceIDFromElementIDA'',
     ''mciGetDeviceIDFromElementIDW'', ''mciLoadCommandResource'', ''midiInGetErrorTextA'',
     ''midiInGetErrorTextW'', ''midiOutGetErrorTextA'', ''midiOutGetErrorTextW'', ''waveInGetErrorTextA'',
     ''waveInGetErrorTextW'', ''waveOutGetErrorTextA'', ''waveOutGetErrorTextW'',
     ''mixerGetLineControlsW'', ''mixerGetLineInfoW'', ''mixerMessage'', ''midiStreamProperty'',
     ''mmioDescend'', ''mmioSetInfo'', ''midiConnect'', ''midiDisconnect'', ''mmioSendMessage'']"

definition winmm_exports :: "string list" where
  "winmm_exports = winmm_audio @ winmm_control @ winmm_extra"

text \<open>A call of an export of the stand-in; None for a name it does not export.\<close>

definition version_call :: "exports \<Rightarrow> exports \<Rightarrow> exports \<Rightarrow> bytes \<Rightarrow> (exports \<times> u32 option) option" where
  "version_call g_hRealVersion g_hKernel32 pReal fn =
     (if fn \<in> set (map str version_exports) then Some (FORWARD g_hRealVersion pReal fn)
      else if fn \<in> set (map str kernel_exports) then Some (FORWARD g_hKernel32 pReal fn)
      else None)"

definition winmm_call :: "exports \<Rightarrow> exports \<Rightarrow> bytes \<Rightarrow> (exports \<times> u32 option) option" where
  "winmm_call g_hRealWinMM pReal fn =
     (if fn \<in> set (map str winmm_exports) then Some (FORWARD g_hRealWinMM pReal fn) else None)"

section \<open>Loading the stand-ins\<close>

text \<open>\<open>strcat_s\<close> and \<open>wcscat_s\<close> into 260 characters; the runtime stops the process when the text does
  not fit, None.\<close>

definition strcat_s :: "'c list \<Rightarrow> 'c list \<Rightarrow> 'c list option" where
  "strcat_s s t = (if length s + length t < 260 then Some (s @ t) else None)"

text \<open>Result of an attach: the return value, the module held, and whether the hooks were started.\<close>

record attached =
  at_result :: bool
  at_module :: u32
  at_injected :: bool

definition version_attach :: "bytes \<Rightarrow> (bytes \<Rightarrow> u32) \<Rightarrow> u32 \<Rightarrow> attached option" where
  "version_attach sysPath LoadLibraryA kernel32 = do {
     verPath \<leftarrow> strcat_s sysPath (92 # str ''version.dll'');
     let h = LoadLibraryA verPath;
     Some (if h = 0 then \<lparr>at_result = False, at_module = 0, at_injected = False\<rparr>
           else if kernel32 = 0 then \<lparr>at_result = False, at_module = h, at_injected = False\<rparr>
           else \<lparr>at_result = True, at_module = h, at_injected = True\<rparr>) }"

definition winmm_attach :: "bytes \<Rightarrow> (bytes \<Rightarrow> u32) \<Rightarrow> attached option" where
  "winmm_attach sysPath LoadLibraryA = do {
     path \<leftarrow> strcat_s sysPath (92 # str ''winmm.dll'');
     let h = LoadLibraryA path;
     Some (if h = 0 then \<lparr>at_result = False, at_module = 0, at_injected = False\<rparr>
           else \<lparr>at_result = True, at_module = h, at_injected = True\<rparr>) }"

text \<open>\<open>RvROLClient.dll\<close>: every pointer is resolved when the library is attached.\<close>

definition rol_exports :: "string list" where
  "rol_exports =
    [''?g_DefaultCaCertPem@FamCurl@@3QBEB'', ''ROLClient_CancelJoin'', ''ROLClient_ChatCommand'',
     ''ROLClient_CheckUpdates'', ''ROLClient_Connect'', ''ROLClient_ContinueConnect'',
     ''ROLClient_DisableEncryption'', ''ROLClient_EnableModuleEvents'', ''ROLClient_EnumPublicNetworks'',
     ''ROLClient_FreeChannel'', ''ROLClient_FreeConnector'', ''ROLClient_FreeDll'',
     ''ROLClient_FreeMemory'', ''ROLClient_GetChannelProductVersion'', ''ROLClient_GetNodeRegionSupport'',
     ''ROLClient_GetNodes'', ''ROLClient_GetUnsendDataSize'', ''ROLClient_InitConnector'',
     ''ROLClient_InitDll'', ''ROLClient_InitSRP'', ''ROLClient_IsConnectorReadyToDie'',
     ''ROLClient_IsReadyToDie'', ''ROLClient_JoinNetwork'', ''ROLClient_Listen'', ''ROLClient_ListenVpn'',
     ''ROLClient_ManageLicense'', ''ROLClient_ManageNetwork'', ''ROLClient_ManageNetwork2'',
     ''ROLClient_NeedMasterAddress'', ''ROLClient_Receive'', ''ROLClient_Register'',
     ''ROLClient_RejectConnect'', ''ROLClient_ReportIpConflict'', ''ROLClient_ReportLanguage'',
     ''ROLClient_ReportSessionSummary'', ''ROLClient_Send'', ''ROLClient_SetCompression'',
     ''ROLClient_SetMaxPacketSize'', ''ROLClient_SetPriority'', ''ROLClient_SetVirtualAddresses'',
     ''ROLClient_ShutdownChannel'', ''ROLClient_ShutdownConnector'', ''ROLClient_ShutdownDll'',
     ''ROLClient_WaitForSend'', ''ROLClient_WaitModuleEvent'', ''ROLClient_WaitROLEvent'',
     ''ROLClient_WaitThreads'']"

definition cut_path :: "bytes \<Rightarrow> bytes" where
  "cut_path p = (if 92 \<in> set p then rev (drop 1 (dropWhile (\<lambda>c. c \<noteq> 92) (rev p))) else p)"

definition rol_attach ::
    "bytes \<Rightarrow> (bytes \<Rightarrow> u32) \<Rightarrow> (u32 \<Rightarrow> exports) \<Rightarrow> (attached \<times> u32 list) option" where
  "rol_attach module_path LoadLibraryA GetProcAddress = do {
     path \<leftarrow> strcat_s (cut_path module_path) (92 # str ''RvROLClient_orig.dll'');
     let h = LoadLibraryA path;
     Some (if h = 0 then (\<lparr>at_result = False, at_module = 0, at_injected = False\<rparr>, replicate 47 0)
           else (\<lparr>at_result = True, at_module = h, at_injected = True\<rparr>, map (GetProcAddress h \<circ> str) rol_exports)) }"

text \<open>\<open>stub_k\<close> jumps to \<open>p_k\<close>; a jump to 0 ends the process.\<close>

definition rol_stub :: "u32 list \<Rightarrow> nat \<Rightarrow> u32 option" where
  "rol_stub p k = (if k < length p \<and> p ! k \<noteq> 0 then Some (p ! k) else None)"

section \<open>CRYPTBASE\<close>

record cryptbase =
  g_RealFuncs :: "u32 list"
  g_hRealCrypt :: u32
  freed :: "u32 list"

definition crypt_names :: "bytes list" where
  "crypt_names = map str [''SystemFunction001'', ''SystemFunction002'', ''SystemFunction003'',
     ''SystemFunction004'', ''SystemFunction005'', ''SystemFunction028'', ''SystemFunction029'',
     ''SystemFunction034'', ''SystemFunction036'', ''SystemFunction040'', ''SystemFunction041'']"

definition cryptbase_initial :: cryptbase where
  "cryptbase_initial = \<lparr>g_RealFuncs = replicate 11 0, g_hRealCrypt = 0, freed = []\<rparr>"

fun resolve_loop :: "(u32 \<Rightarrow> exports) \<Rightarrow> nat \<Rightarrow> bytes list \<Rightarrow> cryptbase \<Rightarrow> cryptbase \<times> bool" where
  "resolve_loop gpa i [] c = (c, True)"
| "resolve_loop gpa i (n # ns) c =
     (let f = gpa (g_hRealCrypt c) n; c = c\<lparr>g_RealFuncs := (g_RealFuncs c)[i := f]\<rparr> in
      if f = 0 then (c\<lparr>freed := g_hRealCrypt c # freed c, g_hRealCrypt := 0\<rparr>, False)
      else resolve_loop gpa (Suc i) ns c)"

text \<open>\<open>sysPath\<close> is None when the system directory is not available or too long.\<close>

definition LoadRealCryptBase ::
    "wstr option \<Rightarrow> (wstr \<Rightarrow> u32) \<Rightarrow> (u32 \<Rightarrow> exports) \<Rightarrow> cryptbase \<Rightarrow> (cryptbase \<times> bool) option" where
  "LoadRealCryptBase systemPath LoadLibraryW gpa c =
     (case systemPath of
        None \<Rightarrow> Some (c, False)
      | Some p \<Rightarrow> do {
          p \<leftarrow> strcat_s p (92 # str ''cryptbase.dll'');
          let c = c\<lparr>g_hRealCrypt := LoadLibraryW p\<rparr>;
          Some (if g_hRealCrypt c = 0 then (c, False) else resolve_loop gpa 0 crypt_names c) })"

text \<open>\<open>SystemFunctionNNN\<close>: nothing is called while its pointer is null.\<close>

definition SystemFunction :: "cryptbase \<Rightarrow> nat \<Rightarrow> u32 option" where
  "SystemFunction c idx = (if g_RealFuncs c ! idx \<noteq> 0 then Some (g_RealFuncs c ! idx) else None)"

definition file_name :: "wstr \<Rightarrow> wstr" where
  "file_name p = rev (takeWhile (\<lambda>c. c \<noteq> 92) (rev p))"

text \<open>Whether \<open>InjectHooks\<close> starts the hooks, by the path of the executable.\<close>

definition InjectHooks :: "wstr option \<Rightarrow> bool" where
  "InjectHooks exePath =
     (case exePath of None \<Rightarrow> False | Some p \<Rightarrow> icmp_eq (file_name p) (str ''RvControlSvc.exe''))"

definition cryptbase_attach ::
    "wstr option \<Rightarrow> (wstr \<Rightarrow> u32) \<Rightarrow> (u32 \<Rightarrow> exports) \<Rightarrow> wstr option \<Rightarrow> cryptbase \<Rightarrow> (cryptbase \<times> attached) option" where
  "cryptbase_attach systemPath LoadLibraryW gpa exePath c = do {
     (c, ok) \<leftarrow> LoadRealCryptBase systemPath LoadLibraryW gpa c;
     Some (c, \<lparr>at_result = ok, at_module = g_hRealCrypt c, at_injected = ok \<and> InjectHooks exePath\<rparr>) }"

section \<open>What a caller sees\<close>

text \<open>The calls of a program, in their order, from fresh pointers on.\<close>

fun call_all :: "(exports \<Rightarrow> bytes \<Rightarrow> (exports \<times> u32 option) option) \<Rightarrow> exports \<Rightarrow> bytes list \<Rightarrow> u32 option list option" where
  "call_all call p [] = Some []"
| "call_all call p (fn # fns) = do {
     (p, r) \<leftarrow> call p fn;
     rs \<leftarrow> call_all call p fns;
     Some (r # rs) }"

definition direct :: "exports \<Rightarrow> bytes \<Rightarrow> u32 option" where
  "direct lib fn = (if lib fn = 0 then None else Some (lib fn))"

text \<open>A stand-in that resolves lazily behaves as the library behind it.\<close>

locale forwarding =
  fixes call :: "exports \<Rightarrow> bytes \<Rightarrow> (exports \<times> u32 option) option"
    and behind :: "exports"
    and exported :: "bytes set"
  assumes call_exported: "fn \<in> exported \<Longrightarrow> call p fn = Some (FORWARD behind p fn)"
begin

lemma call_all_direct:
  "(\<forall>fn. p fn = 0 \<or> p fn = behind fn) \<Longrightarrow> set fns \<subseteq> exported \<Longrightarrow>
   call_all call p fns = Some (map (direct behind) fns)"
proof (induction fns arbitrary: p)
  case (Cons fn fns)
  have "\<forall>g. fst (FORWARD behind p fn) g = 0 \<or> fst (FORWARD behind p fn) g = behind g"
    "snd (FORWARD behind p fn) = direct behind fn"
    using Cons.prems(1) by (auto simp: FORWARD_def direct_def Let_def)
  moreover have "call p fn = Some (fst (FORWARD behind p fn), snd (FORWARD behind p fn))"
    using Cons.prems(2) call_exported by simp
  ultimately show ?case using Cons by simp
qed simp

end

definition version_behind :: "exports \<Rightarrow> exports \<Rightarrow> exports" where
  "version_behind real k32 fn = (if fn \<in> set (map str kernel_exports) then k32 fn else real fn)"

lemma version_disjoint: "set (map str version_exports) \<inter> (set (map str kernel_exports) :: bytes set) = {}"
  by (simp add: version_exports_def kernel_exports_def)

lemma FORWARD_cong: "lib fn = lib' fn \<Longrightarrow> FORWARD lib p fn = FORWARD lib' p fn"
  by (simp add: FORWARD_def)

interpretation version: forwarding "version_call real k32" "version_behind real k32"
  "set (map str version_exports) \<union> set (map str kernel_exports)"
proof
  fix fn :: bytes and p assume fn: "fn \<in> set (map str version_exports) \<union> set (map str kernel_exports)"
  show "version_call real k32 p fn = Some (FORWARD (version_behind real k32) p fn)"
  proof (cases "fn \<in> set (map str version_exports)")
    case True
    then have "fn \<notin> set (map str kernel_exports)" using version_disjoint by blast
    then have "FORWARD real p fn = FORWARD (version_behind real k32) p fn"
      by (intro FORWARD_cong) (simp only: version_behind_def if_False)
    then show ?thesis using True by (simp only: version_call_def if_True)
  next
    case False
    then have k: "fn \<in> set (map str kernel_exports)" using fn by blast
    then have "FORWARD k32 p fn = FORWARD (version_behind real k32) p fn"
      by (intro FORWARD_cong) (simp only: version_behind_def if_True)
    then show ?thesis using False k by (simp only: version_call_def if_True if_False)
  qed
qed

interpretation winmm: forwarding "winmm_call real" real "set (map str winmm_exports)"
  by unfold_locales (simp only: winmm_call_def if_True)



text \<open>RvROLClient: stub k jumps to the function of the k-th name in the original library.\<close>

theorem rol_forwards:
  assumes "rol_attach mp load gpa = Some (a, p)" "at_result a" "k < 47"
  shows "rol_stub p k = direct (gpa (at_module a)) (str (rol_exports ! k)) \<and> at_injected a"
proof -
  have "length rol_exports = 47" by (simp add: rol_exports_def)
  then show ?thesis
    using assms by (auto simp: rol_attach_def bind_eq_Some Let_def rol_stub_def direct_def split: if_splits)
qed

lemma resolve_loop_all:
  "resolve_loop gpa i ns c = (c', ok) \<Longrightarrow> i + length ns \<le> length (g_RealFuncs c) \<Longrightarrow>
   (if ok then g_hRealCrypt c' = g_hRealCrypt c \<and> freed c' = freed c \<and>
      g_RealFuncs c' = take i (g_RealFuncs c) @ map (gpa (g_hRealCrypt c)) ns @ drop (i + length ns) (g_RealFuncs c) \<and>
      (\<forall>n\<in>set ns. gpa (g_hRealCrypt c) n \<noteq> 0)
    else g_hRealCrypt c' = 0 \<and> freed c' = g_hRealCrypt c # freed c \<and>
      (\<exists>n\<in>set ns. gpa (g_hRealCrypt c) n = 0))"
proof (induction gpa i ns c arbitrary: c' ok rule: resolve_loop.induct)
  case (2 gpa i n ns c)
  show ?case
  proof (cases "gpa (g_hRealCrypt c) n = 0")
    case True
    then show ?thesis using 2(2) by (auto simp: Let_def)
  next
    case False
    let ?c = "c\<lparr>g_RealFuncs := (g_RealFuncs c)[i := gpa (g_hRealCrypt c) n]\<rparr>"
    have r: "resolve_loop gpa (Suc i) ns ?c = (c', ok)" using 2(2) False by (simp add: Let_def)
    have i: "i < length (g_RealFuncs c)" using 2(3) by simp
    have t: "take (Suc i) ((g_RealFuncs c)[i := gpa (g_hRealCrypt c) n]) =
        take i (g_RealFuncs c) @ [gpa (g_hRealCrypt c) n]"
      using i by (simp add: take_Suc_conv_app_nth)
    have "Suc i + length ns \<le> length (g_RealFuncs ?c)" using 2(3) by simp
    from 2(1) [OF refl refl False r this] show ?thesis using False i by (cases ok) (simp_all add: t)
  qed
qed auto

text \<open>CRYPTBASE attaches exactly when the real library loads and has all eleven functions; then
  every export calls the function of its name, and the hooks are started in RvControlSvc.exe
  only.  Otherwise the real library is given back and no hook is started.\<close>

theorem cryptbase_attaches:
  assumes "cryptbase_attach (Some sys) load gpa exe cryptbase_initial = Some (c, a)"
    and "h = load (sys @ 92 # str ''cryptbase.dll'')"
  shows "at_result a = (h \<noteq> 0 \<and> (\<forall>n\<in>set crypt_names. gpa h n \<noteq> 0)) \<and>
    (if at_result a then (at_injected a \<longleftrightarrow> InjectHooks exe) \<and>
        (\<forall>k<11. SystemFunction c k = Some (gpa h (crypt_names ! k)))
     else \<not> at_injected a \<and> g_hRealCrypt c = 0 \<and> freed c = (if h = 0 then [] else [h]))"
proof -
  have len: "length crypt_names = 11" by (simp add: crypt_names_def)
  let ?c = "cryptbase_initial\<lparr>g_hRealCrypt := h\<rparr>"
  obtain c' ok where r: "resolve_loop gpa 0 crypt_names ?c = (c', ok)" by fastforce
  have all: "if ok then g_hRealCrypt c' = h \<and> freed c' = [] \<and> g_RealFuncs c' = map (gpa h) crypt_names \<and>
        (\<forall>n\<in>set crypt_names. gpa h n \<noteq> 0)
      else g_hRealCrypt c' = 0 \<and> freed c' = [h] \<and> (\<exists>n\<in>set crypt_names. gpa h n = 0)"
    using resolve_loop_all [OF r] by (cases ok) (simp_all add: cryptbase_initial_def len)
  show ?thesis
  proof (cases "h = 0")
    case True
    then show ?thesis
      using assms by (auto simp: cryptbase_attach_def LoadRealCryptBase_def strcat_s_def bind_eq_Some
          cryptbase_initial_def split: if_splits)
  next
    case False
    then have "c = c'" "at_result a = ok" "at_injected a = (ok \<and> InjectHooks exe)"
      using assms r by (auto simp: cryptbase_attach_def LoadRealCryptBase_def strcat_s_def bind_eq_Some
          split: if_splits)
    then show ?thesis
      using all len False by (auto simp: SystemFunction_def split: if_splits)
  qed
qed

end
