(* ===== verification/Export_Patching.thy ===== *)
theory Export_Patching
  imports Code_Patching
begin

text \<open>
  The stand-in for wow64.dll of src/wow64_proxy.c: its exports are stubs of ten NOP bytes, and
  \<open>PatchAllExports\<close> walks its own export table and writes over every stub a relative jump to the
  real function of the same name.  The image is in the memory of Import_Table, with the headers of
  a 32-bit image; \<open>gpa\<close> is \<open>GetProcAddress\<close> on the real library, 0 for a name it has not.  A
  read or write outside the mapped memory is None.
\<close>

definition load16 :: "ram \<Rightarrow> u32 \<Rightarrow> u16 option" where
  "load16 m a = do { b0 \<leftarrow> m a; b1 \<leftarrow> m (a + 1); Some (ucast b0 OR push_bit 8 (ucast b1)) }"

partial_function (option) read_cstr :: "ram \<Rightarrow> u32 \<Rightarrow> bytes option" where
  "read_cstr m a = do {
     c \<leftarrow> m a;
     if c = 0 then Some [] else do { cs \<leftarrow> read_cstr m (a + 1); Some (c # cs) } }"

definition IMAGE_DOS_SIGNATURE :: u16 where "IMAGE_DOS_SIGNATURE = 0x5A4D"
definition IMAGE_NT_SIGNATURE :: u32 where "IMAGE_NT_SIGNATURE = 0x4550"

text \<open>The export directory; the inner None is an image without the two signatures.\<close>

definition export_directory :: "ram \<Rightarrow> u32 \<Rightarrow> u32 option option" where
  "export_directory m hSelf = do {
     e_magic \<leftarrow> load16 m hSelf;
     if e_magic \<noteq> IMAGE_DOS_SIGNATURE then Some None
     else do {
       e_lfanew \<leftarrow> load32 m (hSelf + 0x3C);
       sig \<leftarrow> load32 m (hSelf + e_lfanew);
       if sig \<noteq> IMAGE_NT_SIGNATURE then Some None
       else do { rva \<leftarrow> load32 m (hSelf + e_lfanew + 120); Some (Some (hSelf + rva)) } } }"

text \<open>The name and the address of the i-th entry, from the three parallel tables.\<close>

definition export_entry :: "ram \<Rightarrow> u32 \<Rightarrow> u32 \<Rightarrow> u32 \<Rightarrow> u32 \<Rightarrow> u32 \<Rightarrow> (bytes \<times> u32) option" where
  "export_entry m hSelf pNames pOrdinals pFunctions i = do {
     nameRVA \<leftarrow> load32 m (pNames + 4 * i);
     name \<leftarrow> read_cstr m (hSelf + nameRVA);
     ordinalIndex \<leftarrow> load16 m (pOrdinals + 2 * i);
     funcRVA \<leftarrow> load32 m (pFunctions + 4 * ucast ordinalIndex);
     Some (name, funcRVA) }"

definition patch_export :: "(bytes \<Rightarrow> u32) \<Rightarrow> u32 \<Rightarrow> bytes \<times> u32 \<Rightarrow> ram \<Rightarrow> ram option" where
  "patch_export gpa hSelf entry m =
     (case entry of (name, funcRVA) \<Rightarrow>
        if funcRVA = 0 then Some m
        else (let realFunc = gpa name in
          if realFunc = 0 then Some m else put_jmp m (hSelf + funcRVA) realFunc))"

partial_function (option) export_loop ::
    "(bytes \<Rightarrow> u32) \<Rightarrow> u32 \<Rightarrow> u32 \<Rightarrow> u32 \<times> u32 \<times> u32 \<Rightarrow> u32 \<Rightarrow> ram \<Rightarrow> ram option" where
  "export_loop gpa hSelf dir tables i m = do {
     n \<leftarrow> load32 m (dir + 24);
     if i < n then do {
       e \<leftarrow> export_entry m hSelf (fst tables) (fst (snd tables)) (snd (snd tables)) i;
       m \<leftarrow> patch_export gpa hSelf e m;
       export_loop gpa hSelf dir tables (i + 1) m }
     else Some m }"

text \<open>\<open>hReal\<close> says whether the real library was loaded.\<close>

definition PatchAllExports :: "bool \<Rightarrow> (bytes \<Rightarrow> u32) \<Rightarrow> u32 \<Rightarrow> ram \<Rightarrow> ram option" where
  "PatchAllExports hReal gpa hSelf m =
     (if \<not> hReal then Some m
      else do {
        d \<leftarrow> export_directory m hSelf;
        (case d of
           None \<Rightarrow> Some m
         | Some dir \<Rightarrow> do {
             names \<leftarrow> load32 m (dir + 32);
             ordinals \<leftarrow> load32 m (dir + 36);
             addresses \<leftarrow> load32 m (dir + 28);
             export_loop gpa hSelf dir (hSelf + names, hSelf + ordinals, hSelf + addresses) 0 m }) })"

section \<open>Every export is redirected\<close>

text \<open>The image exports the list \<open>es\<close> of names and addresses.\<close>

definition exports_at :: "ram \<Rightarrow> u32 \<Rightarrow> u32 \<times> u32 \<times> u32 \<times> u32 \<Rightarrow> (bytes \<times> u32) list \<Rightarrow> bool" where
  "exports_at m hSelf tb es \<longleftrightarrow> (case tb of (dir, names, ordinals, addresses) \<Rightarrow>
     export_directory m hSelf = Some (Some dir) \<and>
     load32 m (dir + 24) = Some (of_nat (length es)) \<and> load32 m (dir + 32) = Some names \<and>
     load32 m (dir + 36) = Some ordinals \<and> load32 m (dir + 28) = Some addresses \<and>
     length es < 2 ^ 32 \<and>
     (\<forall>i<length es. export_entry m hSelf (hSelf + names) (hSelf + ordinals) (hSelf + addresses) (of_nat i) =
        Some (es ! i)))"

text \<open>The entries that get a jump, and the bytes of their stubs.\<close>

definition redirected :: "(bytes \<Rightarrow> u32) \<Rightarrow> (bytes \<times> u32) list \<Rightarrow> (bytes \<times> u32) list" where
  "redirected gpa es = filter (\<lambda>(n, f). f \<noteq> 0 \<and> gpa n \<noteq> 0) es"

definition stub_bytes :: "u32 \<Rightarrow> (bytes \<times> u32) list \<Rightarrow> u32 set" where
  "stub_bytes hSelf es = (\<Union>(n, f)\<in>set es. span (hSelf + f) 5)"

text \<open>Two entries share no stub byte unless they are the same function; the tables and names stay
  readable whatever the stubs become.\<close>

definition image_ok :: "(bytes \<Rightarrow> u32) \<Rightarrow> u32 \<Rightarrow> u32 \<times> u32 \<times> u32 \<times> u32 \<Rightarrow> (bytes \<times> u32) list \<Rightarrow> ram \<Rightarrow> bool" where
  "image_ok gpa hSelf tb es m \<longleftrightarrow>
     (\<forall>m'. same_outside (stub_bytes hSelf es) m m' \<longrightarrow> exports_at m' hSelf tb es) \<and>
     (\<forall>x\<in>stub_bytes hSelf es. m x \<noteq> None) \<and>
     distinct (map snd (redirected gpa es)) \<and>
     (\<forall>(n, f)\<in>set (redirected gpa es). \<forall>(n', f')\<in>set (redirected gpa es).
        f \<noteq> f' \<longrightarrow> span (hSelf + f) 5 \<inter> span (hSelf + f') 5 = {})"

definition jumps_to :: "(bytes \<Rightarrow> u32) \<Rightarrow> u32 \<Rightarrow> (bytes \<times> u32) list \<Rightarrow> ram \<Rightarrow> bool" where
  "jumps_to gpa hSelf es m \<longleftrightarrow> (\<forall>(n, f)\<in>set (redirected gpa es). jmp_target m (hSelf + f) = Some (gpa n))"

lemma same_outside_refl: "same_outside S m m"
  by (simp add: same_outside_def)

lemma redirected_in: "(n, f) \<in> set (redirected gpa es) \<Longrightarrow> (n, f) \<in> set es"
  by (auto simp: redirected_def)

lemma export_loop_redirects:
  assumes "image_ok gpa hSelf (dir, names, ordinals, addresses) es m0" "i \<le> length es"
    "same_outside (stub_bytes hSelf (redirected gpa es)) m0 m" "\<forall>x. m x = None \<longleftrightarrow> m0 x = None"
    "jumps_to gpa hSelf (take i es) m"
  shows "\<exists>m'. export_loop gpa hSelf dir (hSelf + names, hSelf + ordinals, hSelf + addresses) (of_nat i) m = Some m' \<and>
    jumps_to gpa hSelf es m' \<and> same_outside (stub_bytes hSelf (redirected gpa es)) m0 m'"
  using assms(2-)
proof (induction "length es - i" arbitrary: i m)
  case 0
  have sub: "stub_bytes hSelf (redirected gpa es) \<subseteq> stub_bytes hSelf es"
    by (auto simp: stub_bytes_def dest: redirected_in)
  have "exports_at m hSelf (dir, names, ordinals, addresses) es"
    using assms(1) same_outside_mono [OF 0(3) sub] by (simp add: image_ok_def)
  then have "load32 m (dir + 24) = Some (of_nat (length es))" by (simp add: exports_at_def)
  then show ?case using 0 by (subst export_loop.simps) simp
next
  case (Suc k)
  let ?R = "redirected gpa es"
  let ?S = "stub_bytes hSelf ?R"
  have sub: "?S \<subseteq> stub_bytes hSelf es"
    by (auto simp: stub_bytes_def dest: redirected_in)
  have ex: "exports_at m hSelf (dir, names, ordinals, addresses) es"
    using assms(1) same_outside_mono [OF Suc(4) sub] by (simp add: image_ok_def)
  have i: "i < length es" using Suc(2) by simp
  obtain n f where nf: "es ! i = (n, f)" by (cases "es ! i")
  have len: "length es < 2 ^ 32" using ex by (simp add: exports_at_def)
  have lt: "(of_nat i :: u32) < of_nat (length es)"
    using i len by (simp add: word_less_nat_alt unat_of_nat_u32)
  have take: "take (Suc i) es = take i es @ [(n, f)]" using i nf by (simp add: take_Suc_conv_app_nth)
  have "\<exists>m'. patch_export gpa hSelf (n, f) m = Some m' \<and> same_outside ?S m0 m' \<and>
    (\<forall>x. m' x = None \<longleftrightarrow> m0 x = None) \<and> jumps_to gpa hSelf (take (Suc i) es) m'"
  proof (cases "f = 0 \<or> gpa n = 0")
    case True
    then show ?thesis using Suc(4,5,6) by (auto simp: patch_export_def take jumps_to_def redirected_def)
  next
    case False
    then have nR: "(n, f) \<in> set ?R" using i nf nth_mem by (fastforce simp: redirected_def)
    have mapped: "\<forall>x\<in>span (hSelf + f) 5. m x \<noteq> None"
      using assms(1) Suc(5) nR redirected_in [OF nR] by (fastforce simp: image_ok_def stub_bytes_def)
    obtain m' where m': "put_jmp m (hSelf + f) (gpa n) = Some m'" "jmp_target m' (hSelf + f) = Some (gpa n)"
      "same_outside (span (hSelf + f) 5) m m'" "\<forall>x. m' x = None \<longleftrightarrow> m x = None"
      using put_jmp_spec [OF mapped] by blast
    have "span (hSelf + f) 5 \<subseteq> ?S" using nR by (auto simp: stub_bytes_def)
    then have same: "same_outside ?S m0 m'"
      using same_outside_trans Suc(4) same_outside_mono [OF m'(3)] by blast
    have "jmp_target m' (hSelf + f') = Some (gpa n')" if "(n', f') \<in> set (redirected gpa (take i es))" for n' f'
    proof (cases "f' = f")
      case True
      have "redirected gpa es = redirected gpa (take i es) @ redirected gpa (drop i es)"
        by (simp add: redirected_def flip: filter_append)
      moreover have "(n, f) \<in> set (redirected gpa (drop i es))"
        using False i nf by (simp add: redirected_def flip: Cons_nth_drop_Suc)
      ultimately have "\<not> distinct (map snd ?R)" using that True by force
      then show ?thesis using assms(1) by (simp add: image_ok_def)
    next
      case other: False
      have "(n', f') \<in> set ?R" using that by (auto simp: redirected_def dest: in_set_takeD)
      then have "span (hSelf + f') 5 \<inter> span (hSelf + f) 5 = {}"
        using assms(1) nR other by (fastforce simp: image_ok_def)
      then have "jmp_target m' (hSelf + f') = jmp_target m (hSelf + f')" by (rule jmp_target_same [OF m'(3)])
      then show ?thesis using Suc(6) that by (auto simp: jumps_to_def)
    qed
    then have "jumps_to gpa hSelf (take (Suc i) es) m'"
      using m'(2) False by (auto simp: jumps_to_def take redirected_def)
    then show ?thesis using m'(1,4) same False Suc(5) by (auto simp: patch_export_def Let_def)
  qed
  then obtain m' where m': "patch_export gpa hSelf (n, f) m = Some m'" "same_outside ?S m0 m'"
    "\<forall>x. m' x = None \<longleftrightarrow> m0 x = None" "jumps_to gpa hSelf (take (Suc i) es) m'" by blast
  have "\<exists>m''. export_loop gpa hSelf dir (hSelf + names, hSelf + ordinals, hSelf + addresses) (of_nat (Suc i)) m' = Some m'' \<and>
    jumps_to gpa hSelf es m'' \<and> same_outside ?S m0 m''"
    using Suc(1) [of "Suc i" m'] Suc(2) i m' by simp
  then show ?case
    using ex lt i nf m'(1) by (subst export_loop.simps) (simp add: exports_at_def add.commute)
qed

text \<open>C38. Every exported name that the real wow64.dll has as well ends up, after the attach, at a jump to
  the real function, and no byte outside these stubs changes; the walk always ends.\<close>

theorem wow64_exports_redirected:
  assumes "image_ok gpa hSelf tb es m"
  shows "\<exists>m'. PatchAllExports True gpa hSelf m = Some m' \<and>
    same_outside (stub_bytes hSelf (redirected gpa es)) m m' \<and>
    list_all (\<lambda>(n, f). f = 0 \<or> gpa n = 0 \<or> jmp_target m' (hSelf + f) = Some (gpa n)) es"
proof -
  obtain dir names ordinals addresses where tb: "tb = (dir, names, ordinals, addresses)" by (cases tb)
  have ex: "exports_at m hSelf tb es" using assms same_outside_refl by (simp add: image_ok_def)
  obtain m' where m': "export_loop gpa hSelf dir (hSelf + names, hSelf + ordinals, hSelf + addresses) (of_nat 0) m = Some m'"
    "jumps_to gpa hSelf es m'" "same_outside (stub_bytes hSelf (redirected gpa es)) m m'"
    using export_loop_redirects [OF assms [unfolded tb], of 0 m] same_outside_refl
    by (auto simp: jumps_to_def redirected_def)
  have "PatchAllExports True gpa hSelf m = Some m'"
    using ex m'(1) by (simp add: tb PatchAllExports_def exports_at_def)
  moreover have "list_all (\<lambda>(n, f). f = 0 \<or> gpa n = 0 \<or> jmp_target m' (hSelf + f) = Some (gpa n)) es"
    using m'(2) by (fastforce simp: jumps_to_def redirected_def list_all_iff)
  ultimately show ?thesis using m'(3) by blast
qed

section \<open>An image with one export\<close>

definition stub_ram :: ram where
  "stub_ram = ram_of [(0x10000, [0x4D, 0x5A]), (0x1003C, le32 0x40), (0x10040, le32 0x4550),
     (0x100B8, le32 0x100), (0x10118, le32 1), (0x1011C, le32 0x140), (0x10120, le32 0x144),
     (0x10124, le32 0x148), (0x10140, le32 0x200), (0x10144, le32 0x150), (0x10148, [0, 0]),
     (0x10150, [70, 0]), (0x10200, replicate 10 0x90)]"

lemma stub_image: "image_ok (\<lambda>n. if n = [70] then 0x50000 else 0) 0x10000 (0x10100, 0x144, 0x148, 0x140) [([70], 0x200)] stub_ram"
proof -
  have "exports_at m 0x10000 (0x10100, 0x144, 0x148, 0x140) [([70], 0x200)]"
    if "same_outside (stub_bytes 0x10000 [([70], 0x200)]) stub_ram m" for m
  proof -
    have eq: "m a = stub_ram a" if "5 \<le> unat (a - 0x10200)" for a
      using that \<open>same_outside _ _ _\<close> in_span_iff [of 5 a "0x10200"]
      by (auto simp: same_outside_def stub_bytes_def)
    show ?thesis
      by (simp add: exports_at_def export_directory_def export_entry_def load16_def load32_def eq stub_ram_def
          code_ram_def le32_def of_le32_def read_cstr.simps IMAGE_DOS_SIGNATURE_def IMAGE_NT_SIGNATURE_def)
  qed
  moreover have "\<forall>x\<in>stub_bytes 0x10000 [([70], 0x200)]. stub_ram x \<noteq> None"
    by (auto simp: stub_bytes_def span_def stub_ram_def code_ram_def)
  ultimately show ?thesis by (auto simp: image_ok_def redirected_def)
qed

theorem wow64_exports_redirected_witness:
  "\<exists>m'. PatchAllExports True (\<lambda>n. if n = [70] then 0x50000 else 0) 0x10000 stub_ram = Some m' \<and>
    jmp_target m' 0x10200 = Some 0x50000"
  using wow64_exports_redirected [OF stub_image] by auto

end
