(* ===== verification/Gui_Hooks.thy ===== *)
theory Gui_Hooks
  imports Hook_Install_Properties Tree_Dump
begin

text \<open>
  The hooks of the user interface: \<open>run_injection2\<close> of src/inject2.c, started by the stand-ins for
  version.dll and wow64.dll.  It patches the registry functions in the executable and in its own
  module, without the two that deal with the security of keys, and starts the emulated registry.
\<close>

definition gui_hooks :: "bytes list" where
  "gui_hooks = map str [''RegOpenKeyW'', ''RegOpenKeyExW'', ''RegQueryValueExW'', ''RegCloseKey'',
     ''RegCreateKeyExW'', ''RegSetValueExW'', ''RegDeleteValueW'', ''RegNotifyChangeKeyValue'',
     ''RegCreateKeyW'', ''RegDeleteKeyW'', ''RegDeleteKeyExW'', ''RegEnumKeyW'', ''RegEnumKeyExW'',
     ''RegEnumValueW'', ''RegGetValueW'', ''RegQueryInfoKeyW'', ''RegDeleteTreeW'', ''RegCopyTreeW'']"

text \<open>\<open>ds\<close> is the stack of the dump; \<open>named\<close> says whether the path of the executable was available; the emulated registry is None
  while it is not started.\<close>

definition run_injection2 ::
    "process_env \<Rightarrow> dump_sys \<Rightarrow> bool \<Rightarrow> bool \<Rightarrow> bytes option \<Rightarrow> hstate \<Rightarrow> (hstate \<times> registry option) option" where
  "run_injection2 e ds named wow64 regfile s =
     (if \<not> named then Some (s, None)
      else (let hAdvapi32 = pe_loaded e ADVAPI32 in
        if hAdvapi32 = 0 then Some (s, None)
        else do {
          s \<leftarrow> run_steps (map (patch_exe_dll_self e 0 ADVAPI32) gui_hooks) s;
          s \<leftarrow> registry_reals e hAdvapi32 s;
          (r, _) \<leftarrow> Register_InstallHooks_logged ds wow64 regfile;
          Some (s, Some r) }))"

lemma gui_hooks_registry: "set gui_hooks \<subseteq> set registry_hooks"
  unfolding gui_hooks_def registry_hooks_def set_map by (rule image_mono) simp

text \<open>The user interface gets the emulated registry: every import entry for one of its functions in
  the executable and in the module itself holds our function, every other entry is as before.\<close>

theorem gui_registry_hooked:
  assumes ok: "loaded_ok e 0 C ms" and i: "installing e C ms s"
    and a: "pe_loaded e ADVAPI32 \<noteq> 0" and r: "Register_InstallHooks_logged ds wow64 regfile = Some (r, ls)"
  shows "\<exists>s'. run_injection2 e ds True wow64 regfile s = Some (s', Some r) \<and>
    patched e ms (with_self e 0 \<times> {ADVAPI32} \<times> set gui_hooks) (h_ram s') \<and>
    only_named e ms (set gui_hooks) (h_ram s) (h_ram s')"
proof -
  have d: "distinct (map fst (named_slots ms))" using ok by (simp add: loaded_ok_def)
  have nn: "0 \<notin> set fn" if "fn \<in> set gui_hooks" for fn
    using no_nul [of fn] that gui_hooks_registry by auto
  have p: "achieves e C ms (run_steps (map (patch_exe_dll_self e 0 ADVAPI32) gui_hooks))
      (with_self e 0 \<times> {ADVAPI32} \<times> set gui_hooks) (set gui_hooks)"
    by (rule run_patches [OF ok]) (rule patch_exe_dll_self_achieves [OF ok nn no_nul_dll(1)], blast)
  have "achieves e C ms (\<lambda>s. Option.bind (run_steps (map (patch_exe_dll_self e 0 ADVAPI32) gui_hooks) s)
      (registry_reals e (pe_loaded e ADVAPI32))) (with_self e 0 \<times> {ADVAPI32} \<times> set gui_hooks \<union> {}) (set gui_hooks \<union> {})"
    unfolding registry_reals_def by (rule achieves_bind [OF d p run_reals [OF ok]])
  then obtain s1 s2 where "run_steps (map (patch_exe_dll_self e 0 ADVAPI32) gui_hooks) s = Some s1"
    "registry_reals e (pe_loaded e ADVAPI32) s1 = Some s2"
    "patched e ms (with_self e 0 \<times> {ADVAPI32} \<times> set gui_hooks) (h_ram s2)"
    "only_named e ms (set gui_hooks) (h_ram s) (h_ram s2)"
    using i unfolding achieves_def by (auto simp: bind_eq_Some)
  then show ?thesis using a r by (simp add: run_injection2_def Let_def)
qed

end
