(* ===== verification/Loopback_Report.thy ===== *)
theory Loopback_Report
  imports C_Strings
begin

text \<open>
  The stand-in for iphlpapi.dll of src/iphlpapi_proxy.c: one loopback interface in the answers of
  six functions, and stubs for all others.  The sizes of the Windows structures are the record
  \<open>sizes\<close>; a caller is described by the length of its buffer and the value behind its size
  pointer, and an answer that does not fit the buffer is None.
\<close>

record sizes =
  sz_addresses :: nat     \<comment> \<open>\<open>IP_ADAPTER_ADDRESSES_LH\<close>\<close>
  sz_adapter_info :: nat
  sz_iftable :: nat
  sz_ifrow :: nat
  sz_ipaddrtable :: nat
  sz_ipaddrrow :: nat
  sz_ipnettable :: nat
  sz_ipnetrow :: nat
  sz_fixed_info :: nat

definition LB_INVALID_PARAMETER :: u32 where "LB_INVALID_PARAMETER = 87"
definition LB_BUFFER_OVERFLOW :: u32 where "LB_BUFFER_OVERFLOW = 111"
definition LB_INSUFFICIENT_BUFFER :: u32 where "LB_INSUFFICIENT_BUFFER = 122"
definition LB_NOT_SUPPORTED :: u32 where "LB_NOT_SUPPORTED = 50"

text \<open>Status, value stored through the size pointer, and what the buffer holds afterwards.\<close>

type_synonym 'c sized_reply = "(u32 \<times> u32 option \<times> 'c option) option"

section \<open>GetAdaptersAddresses\<close>

definition LOOPBACK_NAME :: bytes where "LOOPBACK_NAME = str ''Loopback Pseudo-Interface 1''"
definition LOOPBACK_FRIENDLY :: wstr where "LOOPBACK_FRIENDLY = str ''Loopback''"
definition LOOPBACK_DESC :: wstr where "LOOPBACK_DESC = str ''Software Loopback Interface''"

text \<open>The structure, the three pointers as offsets into the buffer, and the bytes behind it.\<close>

record loopback_addresses =
  la_Length :: nat
  la_IfIndex :: u32
  la_IfType :: u32
  la_OperStatus :: u32
  la_Mtu :: u32
  la_PhysicalAddressLength :: u32
  la_Flags :: u32
  la_AdapterName :: nat
  la_FriendlyName :: nat
  la_Description :: nat
  la_behind :: bytes

definition name_len :: nat where "name_len = length LOOPBACK_NAME + 1"
definition friendly_len :: nat where "friendly_len = (length LOOPBACK_FRIENDLY + 1) * 2"
definition desc_len :: nat where "desc_len = (length LOOPBACK_DESC + 1) * 2"

definition addresses_size :: "sizes \<Rightarrow> nat" where
  "addresses_size s = sz_addresses s + name_len + friendly_len + desc_len"

definition loopback_entry :: "sizes \<Rightarrow> loopback_addresses option" where
  "loopback_entry s = do {
     let behind = replicate (name_len + friendly_len + desc_len) 0;
     behind \<leftarrow> mem_write behind 0 (LOOPBACK_NAME @ [0]);
     behind \<leftarrow> mem_write behind name_len (wbytes (LOOPBACK_FRIENDLY @ [0]));
     behind \<leftarrow> mem_write behind (name_len + friendly_len) (wbytes (LOOPBACK_DESC @ [0]));
     Some \<lparr>la_Length = sz_addresses s, la_IfIndex = 1, la_IfType = 24, la_OperStatus = 1, la_Mtu = 1500,
       la_PhysicalAddressLength = 0, la_Flags = 0x34, la_AdapterName = sz_addresses s,
       la_FriendlyName = sz_addresses s + name_len, la_Description = sz_addresses s + name_len + friendly_len,
       la_behind = behind\<rparr> }"

definition GetAdaptersAddresses :: "sizes \<Rightarrow> nat \<Rightarrow> u32 option \<Rightarrow> loopback_addresses sized_reply" where
  "GetAdaptersAddresses s buflen SizePointer =
     (case SizePointer of
        None \<Rightarrow> Some (LB_INVALID_PARAMETER, None, None)
      | Some avail \<Rightarrow>
          if avail < of_nat (addresses_size s) then Some (LB_BUFFER_OVERFLOW, Some (of_nat (addresses_size s)), None)
          else if buflen < addresses_size s then None
          else do { e \<leftarrow> loopback_entry s; Some (0, Some (of_nat (addresses_size s)), Some e) })"

section \<open>The tables\<close>

record loopback_info =
  li_Index :: u32
  li_Type :: u32
  li_DhcpEnabled :: u32
  li_AddressLength :: u32
  li_HaveWins :: bool
  li_AdapterName :: bytes
  li_Description :: bytes

definition GetAdaptersInfo :: "sizes \<Rightarrow> nat \<Rightarrow> u32 option \<Rightarrow> loopback_info sized_reply" where
  "GetAdaptersInfo s buflen SizePointer =
     (case SizePointer of
        None \<Rightarrow> Some (LB_INVALID_PARAMETER, None, None)
      | Some avail \<Rightarrow>
          if avail < of_nat (sz_adapter_info s) then Some (LB_BUFFER_OVERFLOW, Some (of_nat (sz_adapter_info s)), None)
          else if buflen < sz_adapter_info s then None
          else Some (0, Some (of_nat (sz_adapter_info s)),
            Some \<lparr>li_Index = 1, li_Type = 24, li_DhcpEnabled = 0, li_AddressLength = 4, li_HaveWins = False,
              li_AdapterName = take 259 (92 # str ''DEVICE'' @ 92 # str ''TCPIP_{LOOPBACK}''),
              li_Description = take 131 (str ''MS TCP Loopback interface'')\<rparr>))"

record if_row =
  if_dwIndex :: u32
  if_wszName :: wstr
  if_dwType :: u32
  if_dwMtu :: u32
  if_dwSpeed :: u32
  if_dwPhysAddrLen :: u32
  if_dwOperStatus :: u32
  if_dwDescrLen :: u32

definition GetIfTable :: "sizes \<Rightarrow> nat \<Rightarrow> u32 option \<Rightarrow> if_row list sized_reply" where
  "GetIfTable s buflen pdwSize =
     (let needed = sz_iftable s + sz_ifrow s in
      case pdwSize of
        None \<Rightarrow> Some (LB_INVALID_PARAMETER, None, None)
      | Some avail \<Rightarrow>
          if avail < of_nat needed then Some (LB_INSUFFICIENT_BUFFER, Some (of_nat needed), None)
          else if buflen < needed then None
          else Some (0, Some (of_nat needed),
            Some [\<lparr>if_dwIndex = 1, if_wszName = str ''Loopback'', if_dwType = 24, if_dwMtu = 1500,
              if_dwSpeed = 10000000, if_dwPhysAddrLen = 0, if_dwOperStatus = 5, if_dwDescrLen = 0\<rparr>]))"

record ipaddr_row =
  ia_dwAddr :: u32
  ia_dwIndex :: u32
  ia_dwMask :: u32
  ia_dwBCastAddr :: u32
  ia_dwReasmSize :: u32

definition GetIpAddrTable :: "sizes \<Rightarrow> nat \<Rightarrow> u32 option \<Rightarrow> ipaddr_row list sized_reply" where
  "GetIpAddrTable s buflen pdwSize =
     (let needed = sz_ipaddrtable s + sz_ipaddrrow s in
      case pdwSize of
        None \<Rightarrow> Some (LB_INVALID_PARAMETER, None, None)
      | Some avail \<Rightarrow>
          if avail < of_nat needed then Some (LB_INSUFFICIENT_BUFFER, Some (of_nat needed), None)
          else if buflen < needed then None
          else Some (0, Some (of_nat needed),
            Some [\<lparr>ia_dwAddr = of_le32 [127, 0, 0, 1], ia_dwIndex = 1, ia_dwMask = of_le32 [255, 0, 0, 0],
              ia_dwBCastAddr = 1, ia_dwReasmSize = 65535\<rparr>]))"

text \<open>The table of neighbours is empty.\<close>

definition GetIpNetTable :: "sizes \<Rightarrow> nat \<Rightarrow> u32 option \<Rightarrow> unit list sized_reply" where
  "GetIpNetTable s buflen SizePointer =
     (let needed = sz_ipnettable s + sz_ipnetrow s in
      case SizePointer of
        None \<Rightarrow> Some (LB_INVALID_PARAMETER, None, None)
      | Some avail \<Rightarrow>
          if avail < of_nat needed then Some (LB_INSUFFICIENT_BUFFER, Some (of_nat needed), None)
          else if buflen < needed then None
          else Some (0, Some (of_nat needed), Some []))"

record fixed_info =
  fi_HostName :: bytes
  fi_DomainName :: bytes
  fi_DnsServer :: bytes
  fi_NodeType :: u32
  fi_ScopeId :: bytes
  fi_EnableRouting :: u32
  fi_EnableProxy :: u32
  fi_EnableDns :: u32

definition GetNetworkParams :: "sizes \<Rightarrow> nat \<Rightarrow> u32 option \<Rightarrow> fixed_info sized_reply" where
  "GetNetworkParams s buflen pOutBufLen =
     (let needed = sz_fixed_info s in
      case pOutBufLen of
        None \<Rightarrow> Some (LB_INVALID_PARAMETER, None, None)
      | Some avail \<Rightarrow>
          if avail < of_nat needed then Some (LB_BUFFER_OVERFLOW, Some (of_nat needed), None)
          else if buflen < needed then None
          else Some (0, Some (of_nat needed),
            Some \<lparr>fi_HostName = str ''localhost'', fi_DomainName = [], fi_DnsServer = [], fi_NodeType = 1,
              fi_ScopeId = [], fi_EnableRouting = 0, fi_EnableProxy = 0, fi_EnableDns = 0\<rparr>))"

section \<open>Everything else\<close>

text \<open>The stubs by the type of their result: status codes, truth values, handles, pointers.\<close>

definition status_stubs :: "string list" where
  "status_stubs =
    [''AddIPAddress'', ''AllocateAndGetArpEntTableFromStack'', ''AllocateAndGetIfTableFromStack'',
     ''AllocateAndGetIpAddrTableFromStack'', ''AllocateAndGetIpForwardTableFromStack'',
     ''AllocateAndGetIpNetTableFromStack'', ''AllocateAndGetTcpExTableFromStack'',
     ''AllocateAndGetTcpTableFromStack'', ''AllocateAndGetUdpTableFromStack'', ''CancelMibChangeNotify2'',
     ''ConvertGuidToStringA'', ''ConvertGuidToStringW'', ''ConvertInterfaceAliasToLuid'',
     ''ConvertInterfaceGuidToLuid'', ''ConvertInterfaceIndexToLuid'', ''ConvertInterfaceLuidToAlias'',
     ''ConvertInterfaceLuidToGuid'', ''ConvertInterfaceLuidToIndex'', ''ConvertInterfaceLuidToNameA'',
     ''ConvertInterfaceLuidToNameW'', ''ConvertInterfaceNameToLuidA'', ''ConvertInterfaceNameToLuidW'',
     ''ConvertLengthToIpv4Mask'', ''ConvertStringToGuidW'', ''CreateIpForwardEntry'', ''CreateIpNetEntry'',
     ''CreateProxyArpEntry'', ''CreateSortedAddressPairs'', ''DeleteIPAddress'', ''DeleteIpForwardEntry'',
     ''DeleteIpNetEntry'', ''DeleteProxyArpEntry'', ''EnableRouter'', ''FlushIpNetTable'',
     ''FlushIpNetTableFromStack'', ''GetAdapterIndex'', ''GetBestInterface'', ''GetBestInterfaceEx'',
     ''GetBestInterfaceFromStack'', ''GetBestRoute'', ''GetBestRouteFromStack'', ''GetExtendedTcpTable'',
     ''GetExtendedUdpTable'', ''GetFriendlyIfIndex'', ''GetIcmpStatisticsEx'', ''GetIcmpStatistics'',
     ''GetIcmpStatsFromStack'', ''GetIfEntry'', ''GetIfEntryFromStack'', ''GetIfTableFromStack'',
     ''GetInterfaceInfo'', ''GetIpAddrTableFromStack'', ''GetIpForwardTable'',
     ''GetIpForwardTableFromStack'', ''GetIpNetTableFromStack'', ''GetIpStatisticsEx'',
     ''GetIpStatistics'', ''GetIpStatsFromStack'', ''GetNumberOfInterfaces'',
     ''GetOwnerModuleFromTcp6Entry'', ''GetOwnerModuleFromTcpEntry'', ''GetPerAdapterInfo'',
     ''GetPerTcp6ConnectionEStats'', ''GetPerTcpConnectionEStats'', ''GetTcp6Table'', ''GetTcp6Table2'',
     ''GetTcpStatisticsEx'', ''GetTcpStatistics'', ''GetTcpStatsFromStack'', ''GetTcpTable'',
     ''GetTcpTable2'', ''GetTcpTableFromStack'', ''GetUdp6Table'', ''GetUdpStatisticsEx'',
     ''GetUdpStatistics'', ''GetUdpStatsFromStack'', ''GetUdpTable'', ''GetUdpTableFromStack'',
     ''GetUniDirectionalAdapterInfo'', ''Icmp6ParseReplies'', ''IcmpParseReplies'', ''IcmpSendEcho'',
     ''if_nametoindex'', ''InternalCreateIpForwardEntry'', ''InternalCreateIpNetEntry'',
     ''InternalDeleteIpForwardEntry'', ''InternalDeleteIpNetEntry'', ''InternalGetIfTable'',
     ''InternalGetIpAddrTable'', ''InternalGetIpForwardTable'', ''InternalGetIpNetTable'',
     ''InternalGetTcpTable'', ''InternalGetUdpTable'', ''InternalSetIfEntry'',
     ''InternalSetIpForwardEntry'', ''InternalSetIpNetEntry'', ''InternalSetIpStats'',
     ''InternalSetTcpEntry'', ''IpReleaseAddress'', ''IpRenewAddress'', ''NhGetGuidFromInterfaceName'',
     ''NhGetInterfaceNameFromGuid'', ''NhpAllocateAndGetInterfaceInfoFromStack'',
     ''NhpGetInterfaceIndexFromStack'', ''NotifyAddrChange'', ''NotifyRouteChange'', ''SendARP'',
     ''SetAdapterIpAddress'', ''SetBlockRoutes'', ''SetIfEntry'', ''SetIfEntryToStack'',
     ''SetIpForwardEntry'', ''SetIpForwardEntryToStack'', ''SetIpMultihopRouteEntryToStack'',
     ''SetIpNetEntry'', ''SetIpNetEntryToStack'', ''SetIpRouteEntryToStack'', ''SetIpStatistics'',
     ''SetIpStatsToStack'', ''SetIpTTL'', ''SetPerTcp6ConnectionEStats'', ''SetPerTcpConnectionEStats'',
     ''SetProxyArpEntryToStack'', ''SetRouteWithRef'', ''SetTcpEntry'', ''SetTcpEntryToStack'',
     ''UnenableRouter'']"

definition bool_stubs :: "string list" where
  "bool_stubs = [''CancelIPChangeNotify'', ''GetRTTAndHopCount'', ''IcmpCloseHandle'', ''IsLocalAddress'']"

definition handle_stubs :: "string list" where
  "handle_stubs = [''Icmp6CreateFile'', ''IcmpCreateFile'']"

definition pointer_stubs :: "string list" where
  "pointer_stubs = [''if_indextoname'', ''GetAdapterOrderMap'']"

definition void_stubs :: "string list" where
  "void_stubs = [''FreeMibTable'']"

text \<open>Value returned, and the last error set.\<close>

definition STUB_FUNC :: "string \<Rightarrow> (u32 option \<times> u32 option) option" where
  "STUB_FUNC name =
     (if name \<in> set (status_stubs @ bool_stubs @ handle_stubs @ pointer_stubs)
      then Some (Some LB_NOT_SUPPORTED, Some LB_NOT_SUPPORTED)
      else if name \<in> set void_stubs then Some (None, None) else None)"

section \<open>The protocol of two calls\<close>

text \<open>A function with a size pointer: it asks for more room, or fills the buffer; a caller that asks
  with nothing and comes back with the room named is served, and a buffer as long as it claims is
  never left.\<close>

locale sized_query =
  fixes query :: "nat \<Rightarrow> u32 option \<Rightarrow> 'c sized_reply" and needed :: nat and small :: u32
  assumes no_pointer: "query buflen None = Some (LB_INVALID_PARAMETER, None, None)"
    and too_small: "avail < of_nat needed \<Longrightarrow> query buflen (Some avail) = Some (small, Some (of_nat needed), None)"
    and enough: "\<not> avail < of_nat needed \<Longrightarrow> needed \<le> buflen \<Longrightarrow>
      \<exists>c. query buflen (Some avail) = Some (0, Some (of_nat needed), Some c)"
    and needed_bound: "needed < 2 ^ 32"
begin

lemma two_calls:
  assumes "0 < needed"
  shows "query 0 (Some 0) = Some (small, Some (of_nat needed), None) \<and>
    (\<exists>c. query needed (Some (of_nat needed)) = Some (0, Some (of_nat needed), Some c))"
proof -
  have "(0 :: u32) < of_nat needed"
    using assms needed_bound by (simp add: word_less_nat_alt unat_of_nat_u32)
  then show ?thesis using too_small enough by simp
qed

lemma honest_defined:
  assumes "case p of None \<Rightarrow> True | Some avail \<Rightarrow> unat avail \<le> buflen"
  shows "query buflen p \<noteq> None"
proof (cases p)
  case None
  then show ?thesis by (simp add: no_pointer)
next
  case (Some avail)
  show ?thesis
  proof (cases "avail < of_nat needed")
    case True
    then show ?thesis by (simp add: Some too_small)
  next
    case False
    then have "needed \<le> unat avail"
      using needed_bound by (simp add: word_less_nat_alt unat_of_nat_u32)
    then have "needed \<le> buflen" using assms Some by simp
    from enough [OF False this] show ?thesis using Some by auto
  qed
qed

end

definition sizes_ok :: "sizes \<Rightarrow> bool" where
  "sizes_ok s \<longleftrightarrow> (\<forall>f\<in>{sz_addresses, sz_adapter_info, sz_iftable, sz_ifrow, sz_ipaddrtable, sz_ipaddrrow,
     sz_ipnettable, sz_ipnetrow, sz_fixed_info}. 0 < f s \<and> f s < 2 ^ 16)"

lemma mem_write_first:
  "length x = a \<Longrightarrow> a \<le> n \<Longrightarrow> mem_write (replicate n v) 0 x = Some (x @ replicate (n - a) v)"
  by (simp add: mem_write_def)

lemma mem_write_next:
  "length p = a \<Longrightarrow> length y = b \<Longrightarrow> b \<le> n \<Longrightarrow> mem_write (p @ replicate n v) a y = Some ((p @ y) @ replicate (n - b) v)"
  by (simp add: mem_write_def)

definition loopback_filled :: "sizes \<Rightarrow> loopback_addresses" where
  "loopback_filled s = \<lparr>la_Length = sz_addresses s, la_IfIndex = 1, la_IfType = 24, la_OperStatus = 1, la_Mtu = 1500,
     la_PhysicalAddressLength = 0, la_Flags = 0x34, la_AdapterName = sz_addresses s,
     la_FriendlyName = sz_addresses s + name_len, la_Description = sz_addresses s + name_len + friendly_len,
     la_behind = ((LOOPBACK_NAME @ [0]) @ wbytes (LOOPBACK_FRIENDLY @ [0])) @ wbytes (LOOPBACK_DESC @ [0])\<rparr>"

lemma part_lengths:
  "length (LOOPBACK_NAME @ [0]) = name_len" "length (wbytes (LOOPBACK_FRIENDLY @ [0])) = friendly_len"
  "length (wbytes (LOOPBACK_DESC @ [0])) = desc_len"
  by (simp_all add: name_len_def friendly_len_def desc_len_def)

lemma loopback_entry_eq: "loopback_entry s = Some (loopback_filled s)"
proof -
  have p: "length ((LOOPBACK_NAME @ [0]) @ wbytes (LOOPBACK_FRIENDLY @ [0])) = name_len + friendly_len"
    by (simp add: name_len_def friendly_len_def)
  have n: "name_len + friendly_len + desc_len - name_len = friendly_len + desc_len"
    "friendly_len + desc_len - friendly_len = desc_len" "desc_len - desc_len = 0" by simp_all
  have "mem_write (replicate (name_len + friendly_len + desc_len) 0) 0 (LOOPBACK_NAME @ [0]) =
      Some ((LOOPBACK_NAME @ [0]) @ replicate (friendly_len + desc_len) 0)"
    using mem_write_first [OF part_lengths(1), of "name_len + friendly_len + desc_len" 0] unfolding n by simp
  moreover have "mem_write ((LOOPBACK_NAME @ [0]) @ replicate (friendly_len + desc_len) 0) name_len (wbytes (LOOPBACK_FRIENDLY @ [0])) =
      Some (((LOOPBACK_NAME @ [0]) @ wbytes (LOOPBACK_FRIENDLY @ [0])) @ replicate desc_len 0)"
    using mem_write_next [OF part_lengths(1,2), of "friendly_len + desc_len" 0] unfolding n by simp
  moreover have "mem_write (((LOOPBACK_NAME @ [0]) @ wbytes (LOOPBACK_FRIENDLY @ [0])) @ replicate desc_len 0)
      (name_len + friendly_len) (wbytes (LOOPBACK_DESC @ [0])) =
      Some ((((LOOPBACK_NAME @ [0]) @ wbytes (LOOPBACK_FRIENDLY @ [0])) @ wbytes (LOOPBACK_DESC @ [0])))"
    using mem_write_next [OF p part_lengths(3), of desc_len 0] unfolding n by simp
  ultimately show ?thesis by (simp only: loopback_entry_def Let_def bind.bind_lunit loopback_filled_def)
qed

lemma three_parts:
  "length x = a \<Longrightarrow> length y = b \<Longrightarrow> length z = c \<Longrightarrow>
   take a ((x @ y) @ z) = x \<and> take b (drop a ((x @ y) @ z)) = y \<and> take c (drop (a + b) ((x @ y) @ z)) = z"
  by simp

lemma loopback_entry_defined: "\<exists>e. loopback_entry s = Some e"
  by (simp add: loopback_entry_eq)

lemma length_names: "name_len = 28" "friendly_len = 18" "desc_len = 56"
  by (simp_all add: name_len_def friendly_len_def desc_len_def LOOPBACK_NAME_def LOOPBACK_FRIENDLY_def LOOPBACK_DESC_def)

lemma addresses_query: "sizes_ok s \<Longrightarrow> sized_query (GetAdaptersAddresses s) (addresses_size s) LB_BUFFER_OVERFLOW"
  using loopback_entry_defined [of s]
  by unfold_locales (auto simp: GetAdaptersAddresses_def sizes_ok_def addresses_size_def length_names)

lemma info_query: "sizes_ok s \<Longrightarrow> sized_query (GetAdaptersInfo s) (sz_adapter_info s) LB_BUFFER_OVERFLOW"
  by unfold_locales (auto simp: GetAdaptersInfo_def sizes_ok_def)

lemma iftable_query: "sizes_ok s \<Longrightarrow> sized_query (GetIfTable s) (sz_iftable s + sz_ifrow s) LB_INSUFFICIENT_BUFFER"
  by unfold_locales (auto simp: GetIfTable_def sizes_ok_def Let_def)

lemma ipaddr_query: "sizes_ok s \<Longrightarrow> sized_query (GetIpAddrTable s) (sz_ipaddrtable s + sz_ipaddrrow s) LB_INSUFFICIENT_BUFFER"
  by unfold_locales (auto simp: GetIpAddrTable_def sizes_ok_def Let_def)

lemma ipnet_query: "sizes_ok s \<Longrightarrow> sized_query (GetIpNetTable s) (sz_ipnettable s + sz_ipnetrow s) LB_INSUFFICIENT_BUFFER"
  by unfold_locales (auto simp: GetIpNetTable_def sizes_ok_def Let_def)

lemma params_query: "sizes_ok s \<Longrightarrow> sized_query (GetNetworkParams s) (sz_fixed_info s) LB_BUFFER_OVERFLOW"
  by unfold_locales (auto simp: GetNetworkParams_def sizes_ok_def Let_def)

text \<open>The sizes of the 32-bit build.\<close>

definition win32_sizes :: sizes where
  "win32_sizes = \<lparr>sz_addresses = 376, sz_adapter_info = 640, sz_iftable = 864, sz_ifrow = 860,
     sz_ipaddrtable = 28, sz_ipaddrrow = 24, sz_ipnettable = 28, sz_ipnetrow = 24, sz_fixed_info = 584\<rparr>"

lemma win32_sizes_ok: "sizes_ok win32_sizes"
  by (simp add: sizes_ok_def win32_sizes_def)

interpretation addresses: sized_query "GetAdaptersAddresses win32_sizes" "addresses_size win32_sizes" LB_BUFFER_OVERFLOW
  by (rule addresses_query [OF win32_sizes_ok])

interpretation info: sized_query "GetAdaptersInfo win32_sizes" "sz_adapter_info win32_sizes" LB_BUFFER_OVERFLOW
  by (rule info_query [OF win32_sizes_ok])

interpretation iftable: sized_query "GetIfTable win32_sizes" "sz_iftable win32_sizes + sz_ifrow win32_sizes" LB_INSUFFICIENT_BUFFER
  by (rule iftable_query [OF win32_sizes_ok])

interpretation ipaddr: sized_query "GetIpAddrTable win32_sizes" "sz_ipaddrtable win32_sizes + sz_ipaddrrow win32_sizes" LB_INSUFFICIENT_BUFFER
  by (rule ipaddr_query [OF win32_sizes_ok])

interpretation ipnet: sized_query "GetIpNetTable win32_sizes" "sz_ipnettable win32_sizes + sz_ipnetrow win32_sizes" LB_INSUFFICIENT_BUFFER
  by (rule ipnet_query [OF win32_sizes_ok])

interpretation params: sized_query "GetNetworkParams win32_sizes" "sz_fixed_info win32_sizes" LB_BUFFER_OVERFLOW
  by (rule params_query [OF win32_sizes_ok])

text \<open>All six functions keep the protocol of Windows: whatever a caller claims, as long as its buffer
  is that long, no byte outside it is written; a caller that asks with size 0 and comes back with
  a buffer of the size named is served.\<close>

theorem loopback_size_protocol:
  assumes "unat avail \<le> buflen"
  shows "GetAdaptersAddresses win32_sizes buflen (Some avail) \<noteq> None \<and>
    GetAdaptersInfo win32_sizes buflen (Some avail) \<noteq> None \<and>
    GetIfTable win32_sizes buflen (Some avail) \<noteq> None \<and>
    GetIpAddrTable win32_sizes buflen (Some avail) \<noteq> None \<and>
    GetIpNetTable win32_sizes buflen (Some avail) \<noteq> None \<and>
    GetNetworkParams win32_sizes buflen (Some avail) \<noteq> None \<and>
    (\<exists>e. GetAdaptersAddresses win32_sizes 0 (Some 0) = Some (LB_BUFFER_OVERFLOW, Some 478, None) \<and>
      GetAdaptersAddresses win32_sizes 478 (Some 478) = Some (0, Some 478, Some e) \<and>
      take (length LOOPBACK_NAME + 1) (drop (la_AdapterName e - la_Length e) (la_behind e)) = LOOPBACK_NAME @ [0] \<and>
      take friendly_len (drop (la_FriendlyName e - la_Length e) (la_behind e)) = wbytes (LOOPBACK_FRIENDLY @ [0]) \<and>
      take desc_len (drop (la_Description e - la_Length e) (la_behind e)) = wbytes (LOOPBACK_DESC @ [0]))"
proof -
  have n: "addresses_size win32_sizes = 478"
    by (simp add: addresses_size_def length_names win32_sizes_def)
  obtain e where e: "GetAdaptersAddresses win32_sizes 478 (Some 478) = Some (0, Some 478, Some e)"
    using addresses.two_calls n by auto
  then have "loopback_entry win32_sizes = Some e"
    by (auto simp: GetAdaptersAddresses_def n bind_eq_Some)
  then have "e = loopback_filled win32_sizes" by (simp add: loopback_entry_eq)
  then have "take (length LOOPBACK_NAME + 1) (drop (la_AdapterName e - la_Length e) (la_behind e)) = LOOPBACK_NAME @ [0] \<and>
      take friendly_len (drop (la_FriendlyName e - la_Length e) (la_behind e)) = wbytes (LOOPBACK_FRIENDLY @ [0]) \<and>
      take desc_len (drop (la_Description e - la_Length e) (la_behind e)) = wbytes (LOOPBACK_DESC @ [0])"
    using three_parts [OF part_lengths] by (simp add: loopback_filled_def name_len_def add.assoc del: append_assoc append.simps)
  then show ?thesis
    using assms e n addresses.two_calls addresses.honest_defined [where p = "Some avail" and buflen = buflen] info.honest_defined [where p = "Some avail" and buflen = buflen]
      iftable.honest_defined [where p = "Some avail" and buflen = buflen] ipaddr.honest_defined [where p = "Some avail" and buflen = buflen]
      ipnet.honest_defined [where p = "Some avail" and buflen = buflen] params.honest_defined [where p = "Some avail" and buflen = buflen]
    by auto
qed

theorem loopback_size_protocol_witness:
  "GetIfTable win32_sizes 2000 (Some 2000) \<noteq> None \<and> GetNetworkParams win32_sizes 2000 (Some 2000) \<noteq> None"
  using loopback_size_protocol [of 2000 2000] by simp

text \<open>The stubs report their error by its number in every type: where the result is a truth value, a
  handle or a pointer, the number 50 reads as success.\<close>

theorem stubs_look_successful:
  "list_all (\<lambda>f. STUB_FUNC f = Some (Some LB_NOT_SUPPORTED, Some LB_NOT_SUPPORTED)) (bool_stubs @ handle_stubs @ pointer_stubs) \<and>
   LB_NOT_SUPPORTED \<noteq> 0"
  by (simp add: STUB_FUNC_def list_all_iff LB_NOT_SUPPORTED_def)

end
