(* ===== verification/Code_Search.thy ===== *)
theory Code_Search
  imports Export_Patching
begin

text \<open>
  The hook of the functions that handle MAC addresses in src/emulate_driver_running.c: the
  search of the \<open>.text\<close> section for a function by its bytes (\<open>FindSub464650\<close>), the address of the
  formatting function from the operand of a call (\<open>ResolveSub464520\<close>), the two replacements and
  the patches that install them (\<open>InstallRvControlSvcMacHook\<close>).  The executable is an image in the
  memory of Import_Table; an access outside the mapped memory is None.  The log is not modelled,
  except where writing it reads memory.
\<close>

section \<open>The section\<close>

text \<open>The section headers, 40 bytes each; \<open>n\<close> of them are left.  The comparison looks at five
  bytes, so it accepts every name that starts with \<open>.text\<close>.\<close>

fun find_text :: "ram \<Rightarrow> u32 \<Rightarrow> nat \<Rightarrow> u32 \<Rightarrow> (u32 \<times> u32) option option" where
  "find_text m hMod 0 sec = Some None"
| "find_text m hMod (Suc n) sec = do {
     name \<leftarrow> load_bytes m sec 5;
     if name = str ''.text'' then do {
       va \<leftarrow> load32 m (sec + 12);
       virtualSize \<leftarrow> load32 m (sec + 8);
       Some (Some (hMod + va, virtualSize)) }
     else find_text m hMod n (sec + 40) }"

definition GetTextSection :: "ram \<Rightarrow> u32 \<Rightarrow> (u32 \<times> u32) option option" where
  "GetTextSection m hMod = do {
     lfanew \<leftarrow> load32 m (hMod + 60);
     let nt = hMod + lfanew;
     n \<leftarrow> load16 m (nt + 6);
     opt \<leftarrow> load16 m (nt + 20);
     find_text m hMod (unat n) (nt + 24 + ucast opt) }"

section \<open>The search\<close>

definition sig_464650 :: bytes where
  "sig_464650 = [0xC2, 0x04, 0x00, 0x8B, 0x02, 0x89, 0x01]"

text \<open>The prologue is compared byte by byte, up to the first difference.\<close>

definition prologue_at :: "ram \<Rightarrow> u32 \<Rightarrow> bool option" where
  "prologue_at m c = do {
     b0 \<leftarrow> m c;
     if b0 \<noteq> 0x55 then Some False
     else do {
       b1 \<leftarrow> m (c + 1);
       if b1 \<noteq> 0x8B then Some False
       else do { b2 \<leftarrow> m (c + 2); Some (b2 = 0xEC) } } }"

text \<open>\<open>n\<close> positions from \<open>p\<close> on are left.\<close>

fun search_464650 :: "ram \<Rightarrow> nat \<Rightarrow> u32 \<Rightarrow> u32 option option" where
  "search_464650 m 0 p = Some None"
| "search_464650 m (Suc n) p = do {
     bs \<leftarrow> load_bytes m p 7;
     hit \<leftarrow> (if bs = sig_464650 then prologue_at m (p - 0x0D) else Some False);
     if hit then Some (Some (p - 0x0D)) else search_464650 m n (p + 1) }"

text \<open>\<open>textSize - sizeof(sig)\<close> is unsigned.\<close>

definition FindSub464650 :: "ram \<Rightarrow> u32 \<Rightarrow> u32 option option" where
  "FindSub464650 m hExe =
     (if hExe = 0 then Some None
      else do {
        s \<leftarrow> GetTextSection m hExe;
        (case s of
           None \<Rightarrow> Some None
         | Some (textBase, textSize) \<Rightarrow> search_464650 m (unat (textSize - 7)) textBase) })"

section \<open>The replacements\<close>

record mac_hook =
  inHook :: bool
  g_pFormat :: u32             \<comment> \<open>0 as long as it is not resolved\<close>
  g_Data4ffd40 :: u32

definition ResolveSub464520 :: "ram \<Rightarrow> u32 \<Rightarrow> u32 option" where
  "ResolveSub464520 m pSub464650 = do {
     let callSite = pSub464650 + 0x44;
     op \<leftarrow> m callSite;
     if op \<noteq> 0xE8 then Some 0
     else do { rel32 \<leftarrow> load32 m (callSite + 1); Some (callSite + 5 + rel32) } }"

text \<open>\<open>call\<close> is the formatting function at an address: it writes the text of six bytes to a buffer
  of 18 characters.  The log reads that text afterwards.\<close>

definition Hook_sub_464650 ::
    "(u32 \<Rightarrow> u32 \<Rightarrow> bytes \<Rightarrow> ram \<Rightarrow> ram option) \<Rightarrow> u32 \<Rightarrow> u32 \<Rightarrow> mac_hook \<times> ram \<Rightarrow>
     ((mac_hook \<times> ram) \<times> bool) option" where
  "Hook_sub_464650 call dest src s =
     (case s of (st, m) \<Rightarrow>
        if inHook st then Some ((st, m), False)
        else if src = 0 then Some ((st, m), False)
        else do {
          bs \<leftarrow> load_bytes m src 6;
          m \<leftarrow> store_bytes m dest bs;
          if g_pFormat st = 0 then Some ((st, m), False)
          else do {
            mac \<leftarrow> load_bytes m dest 6;
            m \<leftarrow> call (g_pFormat st) (dest + 6) mac m;
            _ \<leftarrow> read_cstr m (dest + 6);
            Some ((st, m), True) } })"

text \<open>128 bytes of the argument and of the result go to the log.\<close>

definition Hook_sub_4624e0 :: "mac_hook \<Rightarrow> ram \<Rightarrow> u32 \<Rightarrow> u32 option" where
  "Hook_sub_4624e0 st m arg1 = do {
     result \<leftarrow>
       (if arg1 \<noteq> 0 then do {
          val4 \<leftarrow> load32 m (arg1 + 4);
          val8 \<leftarrow> load32 m (arg1 + 8);
          _ \<leftarrow> load_bytes m arg1 128;
          Some (if val8 \<noteq> 0 \<and> val4 \<noteq> 0 then val8 else g_Data4ffd40 st) }
        else Some (g_Data4ffd40 st));
     if result \<noteq> 0 then do { _ \<leftarrow> load_bytes m result 128; Some result } else Some result }"

section \<open>Installation\<close>

text \<open>\<open>hook1\<close> and \<open>hook2\<close> are the addresses of the replacements.\<close>

definition InstallRvControlSvcMacHook ::
    "u32 \<Rightarrow> u32 \<Rightarrow> u32 \<Rightarrow> mac_hook \<times> ram \<Rightarrow> (mac_hook \<times> ram) option" where
  "InstallRvControlSvcMacHook hExe hook1 hook2 s =
     (case s of (st, m) \<Rightarrow> do {
        found \<leftarrow> FindSub464650 m hExe;
        (case found of
           None \<Rightarrow> Some (st, m)
         | Some pOriginal \<Rightarrow> do {
             f \<leftarrow> ResolveSub464520 m pOriginal;
             let st = st\<lparr>g_pFormat := f\<rparr>;
             if f = 0 then Some (st, m)
             else do {
               m \<leftarrow> put_jmp m pOriginal hook1;
               let st = st\<lparr>g_Data4ffd40 := hExe + 0x4FFD40\<rparr>;
               m \<leftarrow> put_jmp m (pOriginal - 0x2170) hook2;
               Some (st, m) } }) })"

section \<open>What the search finds\<close>

text \<open>A function of the wanted shape: the signature 13 bytes behind the prologue.\<close>

definition match_464650 :: "ram \<Rightarrow> u32 \<Rightarrow> bool" where
  "match_464650 m p \<longleftrightarrow> load_bytes m p 7 = Some sig_464650 \<and> prologue_at m (p - 0x0D) = Some True"

lemma search_464650_first:
  assumes "search_464650 m n p = Some r"
  shows "case r of
      Some c \<Rightarrow> \<exists>i<n. c = p + of_nat i - 0x0D \<and> match_464650 m (p + of_nat i) \<and>
        (\<forall>j<i. \<not> match_464650 m (p + of_nat j))
    | None \<Rightarrow> \<forall>j<n. \<not> match_464650 m (p + of_nat j)"
  using assms
proof (induction m n p arbitrary: r rule: search_464650.induct)
  case (2 m n p)
  from "2.prems" obtain bs hit where bs: "load_bytes m p 7 = Some bs"
    and hit: "(if bs = sig_464650 then prologue_at m (p - 0x0D) else Some False) = Some hit"
    and rest: "(if hit then Some (Some (p - 0x0D)) else search_464650 m n (p + 1)) = Some r"
    by (auto simp only: search_464650.simps bind_eq_Some)
  have here: "match_464650 m p \<longleftrightarrow> hit" using bs hit by (auto simp: match_464650_def split: if_splits)
  have step: "(\<forall>j<Suc k. Q (p + of_nat j)) \<longleftrightarrow> Q p \<and> (\<forall>j<k. Q (p + 1 + of_nat j))"
    for k and Q :: "u32 \<Rightarrow> bool"
    by (auto simp: All_less_Suc2 add.assoc)
  show ?case
  proof (cases hit)
    case True
    then show ?thesis using rest here by (auto intro!: exI [of _ 0])
  next
    case False
    then have r: "search_464650 m n (p + 1) = Some r" using rest by simp
    note IH = "2.IH" [OF bs hit False r]
    show ?thesis
    proof (cases r)
      case None
      then show ?thesis using IH here False step [where Q = "\<lambda>x. \<not> match_464650 m x" and k = n] by simp
    next
      case (Some c)
      then obtain i where "i < n" "c = p + 1 + of_nat i - 0x0D" "match_464650 m (p + 1 + of_nat i)"
        "\<forall>j<i. \<not> match_464650 m (p + 1 + of_nat j)" using IH by auto
      then show ?thesis
        using here False step [where Q = "\<lambda>x. \<not> match_464650 m x" and k = i] Some
        by (auto intro!: exI [of _ "Suc i"] simp: add.assoc)
    qed
  qed
qed simp

lemma prologue_bytes:
  "prologue_at m c = Some True \<longleftrightarrow> m c = Some 0x55 \<and> m (c + 1) = Some 0x8B \<and> m (c + 2) = Some 0xEC"
  by (auto simp: prologue_at_def bind_eq_Some split: if_splits)

text \<open>The search runs to its end when every position it compares and the 13 bytes in front of the
  section are mapped.\<close>

lemma search_464650_ends:
  "\<forall>x\<in>span (p - 0x0D) (n + 19). m x \<noteq> None \<Longrightarrow> \<exists>r. search_464650 m n p = Some r"
proof (induction m n p rule: search_464650.induct)
  case (2 m n p)
  have at: "m (p - 0x0D + of_nat k) \<noteq> None" if "k < Suc n + 19" for k
    using "2.prems" that unfolding span_def by blast
  have "span p 7 \<subseteq> span (p - 0x0D) (Suc n + 19)"
    using span_mono [of 13 7 "Suc n + 19" "p - 0x0D"] by simp
  then obtain bs where bs: "load_bytes m p 7 = Some bs" using mapped_load_bytes [of p 7 m] "2.prems" by blast
  have "\<exists>h. prologue_at m (p - 0x0D) = Some h"
    using at [of 0] at [of 1] at [of 2] by (auto simp: prologue_at_def)
  then obtain hit where hit: "(if bs = sig_464650 then prologue_at m (p - 0x0D) else Some False) = Some hit"
    by (cases "bs = sig_464650") auto
  have "span (p + 1 - 0x0D) (n + 19) \<subseteq> span (p - 0x0D) (Suc n + 19)"
    using span_mono [of 1 "n + 19" "Suc n + 19" "p - 0x0D"] by (simp add: algebra_simps)
  then have "\<forall>x\<in>span (p + 1 - 0x0D) (n + 19). m x \<noteq> None" using "2.prems" by blast
  then show ?case using bs hit "2.IH" [OF bs hit] by (cases hit) (auto simp: bind_eq_Some)
qed simp

text \<open>A section of fewer than seven bytes makes the bound wrap around: the search compares almost
  the whole address space.\<close>

lemma short_section_wraps: "unat (n :: u32) < 7 \<Longrightarrow> unat (n - 7) = 2 ^ 32 - 7 + unat n"
  by (simp add: unat_sub_if_size word_size)

lemma Hook_sub_464650_reentered: "inHook st \<Longrightarrow> Hook_sub_464650 call dest src (st, m) = Some ((st, m), False)"
  by (simp add: Hook_sub_464650_def)

lemma Hook_sub_4624e0_result:
  "Hook_sub_4624e0 st m arg1 = Some r \<Longrightarrow>
   r = g_Data4ffd40 st \<or> (arg1 \<noteq> 0 \<and> r \<noteq> 0 \<and> load32 m (arg1 + 8) = Some r)"
  by (auto simp: Hook_sub_4624e0_def bind_eq_Some split: if_splits)

section \<open>Both functions are replaced\<close>

lemma mac_hook_effect:
  assumes found: "FindSub464650 m hExe = Some (Some p)" and f: "ResolveSub464520 m p = Some f" "f \<noteq> 0"
    and mapped: "\<forall>x\<in>span p 5 \<union> span (p - 0x2170) 5. m x \<noteq> None"
  shows "\<exists>st' m'. InstallRvControlSvcMacHook hExe hook1 hook2 (st, m) = Some (st', m') \<and>
    jmp_target m' p = Some hook1 \<and> jmp_target m' (p - 0x2170) = Some hook2 \<and> g_pFormat st' = f \<and>
    same_outside (span p 5 \<union> span (p - 0x2170) 5) m m'"
proof -
  let ?q = "p - 0x2170"
  have apart: "span p 5 \<inter> span ?q 5 = {}" using spans_apart [of 5 "0x2170" 5 ?q] by (simp add: Int_commute)
  have "\<forall>x\<in>span p 5. m x \<noteq> None" using mapped by blast
  from put_jmp_spec [OF this, of hook1]
  obtain m1 where m1: "put_jmp m p hook1 = Some m1" "jmp_target m1 p = Some hook1"
    "same_outside (span p 5) m m1" "\<forall>x. m1 x = None \<longleftrightarrow> m x = None" by blast
  have "\<forall>x\<in>span ?q 5. m1 x \<noteq> None" using mapped m1(4) by blast
  from put_jmp_spec [OF this, of hook2]
  obtain m2 where m2: "put_jmp m1 ?q hook2 = Some m2" "jmp_target m2 ?q = Some hook2"
    "same_outside (span ?q 5) m1 m2" by blast
  have "jmp_target m2 p = Some hook1"
    using jmp_target_same [OF m2(3) apart] m1(2) by simp
  moreover have "same_outside (span p 5 \<union> span ?q 5) m m2"
    using m1(3) m2(3) by (auto simp: same_outside_def)
  ultimately show ?thesis
    using found f m1(1) m2(1,2) by (simp add: InstallRvControlSvcMacHook_def)
qed

end
