(* ===== verification/Wmi_Proxies.thy ===== *)
theory Wmi_Proxies
  imports Wmi
begin

text \<open>
  The proxies around real WMI objects in src/emulate_driver_running.c: enumerators, class objects
  and services that forward to a real object and log.  The real objects are cells of class
  \<open>RealObject\<close> in the heap of \<open>Com_Objects\<close>; the proxies are cells of a second heap and hold one
  reference on their real object.  The methods of the real objects are parameters.  The constant
  \<open>BLOCK_REAL\<close> of the source is the argument \<open>block\<close>; a call on a freed object is None.
\<close>

section \<open>Objects\<close>

datatype proxy_kind = Proxy_Enum | Proxy_Class | Proxy_Services

text \<open>A pointer to an object of \<open>Com_Objects\<close> or to a proxy.\<close>

datatype wptr = At oaddr | Proxy_At nat

text \<open>The slots of the vtable that all proxies of class objects share: the own methods and the
  pointers copied from the vtable of a real object (its number and the slot).\<close>

datatype vslot = Own_QueryInterface | Own_AddRef | Own_Release | Own_Get | Copied nat nat | Empty_Slot

record wmi_heap =
  w_com :: com
  w_proxies :: "(proxy_kind \<times> oaddr \<times> int) option list"
  g_ProxyWbemClassVtable :: "vslot list"
  vtableFilled :: bool

definition wmi_start :: "com \<Rightarrow> wmi_heap" where
  "wmi_start c = \<lparr>w_com = c, w_proxies = [],
     g_ProxyWbemClassVtable = replicate 32 Empty_Slot, vtableFilled = False\<rparr>"

definition proxy_get :: "wmi_heap \<Rightarrow> nat \<Rightarrow> (proxy_kind \<times> oaddr \<times> int) option" where
  "proxy_get w p = (if p < length (w_proxies w) then w_proxies w ! p else None)"

definition proxy_put :: "wmi_heap \<Rightarrow> nat \<Rightarrow> (proxy_kind \<times> oaddr \<times> int) option \<Rightarrow> wmi_heap" where
  "proxy_put w p c = w\<lparr>w_proxies := (w_proxies w)[p := c]\<rparr>"

text \<open>The result codes of the interfaces.\<close>

fun hresult_code :: "hresult \<Rightarrow> u32" where
  "hresult_code S_OK = 0"
| "hresult_code S_FALSE = 1"
| "hresult_code E_INVALIDARG = 0x80070057"
| "hresult_code E_NOTIMPL = 0x80004001"
| "hresult_code E_NOINTERFACE = 0x80004002"
| "hresult_code E_OUTOFMEMORY = 0x8007000E"
| "hresult_code E_POINTER = 0x80004003"

definition SUCCEEDED :: "u32 \<Rightarrow> bool" where
  "SUCCEEDED hr \<longleftrightarrow> \<not> bit hr 31"

definition WBEM_E_NOT_FOUND :: u32 where "WBEM_E_NOT_FOUND = 0x80041002"

section \<open>The real objects\<close>

text \<open>A value with its type, as \<open>Get\<close> delivers it.  An array is its lower bound and its elements;
  an element that cannot be fetched is None.\<close>

datatype real_value =
    V_BSTR "wstr option" | V_BOOL bool
  | V_I4 int | V_UI4 int | V_I2 int | V_UI2 int | V_I8 int | V_UI8 int
  | V_R4 u32 | V_R8 u64 | V_NULL | V_EMPTY
  | V_ARRAY_BSTR "(int \<times> wstr option option list) option"
  | V_ARRAY_I4 "(int \<times> int option list) option"
  | V_ARRAY_UI4 "(int \<times> int option list) option"
  | V_OTHER u16

datatype svc_method =
    OpenNamespace | CancelAsyncCall | QueryObjectSink | GetObject | GetObjectAsync | PutClass
  | PutClassAsync | DeleteClass | DeleteClassAsync | CreateClassEnum | CreateClassEnumAsync
  | PutInstance | PutInstanceAsync | DeleteInstance | DeleteInstanceAsync | CreateInstanceEnum
  | CreateInstanceEnumAsync | ExecQuery | ExecQueryAsync | ExecNotificationQuery
  | ExecNotificationQueryAsync | ExecMethod | ExecMethodAsync

record wmi_real =
  rw_QueryInterface :: "oaddr \<Rightarrow> iid \<Rightarrow> com \<Rightarrow> com \<times> u32 \<times> oaddr option"
  rw_Reset :: "oaddr \<Rightarrow> com \<Rightarrow> com \<times> u32"
  rw_Next :: "oaddr \<Rightarrow> int \<Rightarrow> nat \<Rightarrow> com \<Rightarrow> com \<times> u32 \<times> oaddr list"
  rw_Skip :: "oaddr \<Rightarrow> int \<Rightarrow> nat \<Rightarrow> com \<Rightarrow> com \<times> u32"
  rw_Clone :: "oaddr \<Rightarrow> com \<Rightarrow> com \<times> u32 \<times> oaddr option"
  rw_Get :: "oaddr \<Rightarrow> wstr option \<Rightarrow> u32 \<times> real_value \<times> u32"
  rw_vtable :: "oaddr \<Rightarrow> nat"
  rw_service :: "oaddr \<Rightarrow> svc_method \<Rightarrow> wstr list \<Rightarrow> com \<Rightarrow> com \<times> u32 \<times> oaddr option"

type_synonym wmi_result = "(wmi_heap \<times> u32 \<times> wptr option) option"

text \<open>A method call on a real object, which has to be alive.\<close>

definition on_real :: "wmi_heap \<Rightarrow> oaddr \<Rightarrow> (com \<Rightarrow> com \<times> 'r) \<Rightarrow> (wmi_heap \<times> 'r) option" where
  "on_real w r f = do {
     _ \<leftarrow> com_get (w_com w) r;
     (let (c, x) = f (w_com w) in Some (w\<lparr>w_com := c\<rparr>, x)) }"

definition of_com :: "wmi_heap \<Rightarrow> oaddr option com_result \<Rightarrow> wmi_result" where
  "of_com w r = do {
     (c, h, ob) \<leftarrow> r;
     Some (w\<lparr>w_com := c\<rparr>, hresult_code h, map_option At ob) }"

section \<open>Counting\<close>

definition proxy_AddRef :: "wmi_heap \<Rightarrow> nat \<Rightarrow> (wmi_heap \<times> int) option" where
  "proxy_AddRef w p = do {
     (k, r, n) \<leftarrow> proxy_get w p;
     Some (proxy_put w p (Some (k, r, n + 1)), n + 1) }"

definition proxy_Release :: "wmi_heap \<Rightarrow> nat \<Rightarrow> (wmi_heap \<times> int) option" where
  "proxy_Release w p = do {
     (k, r, n) \<leftarrow> proxy_get w p;
     let w = proxy_put w p (Some (k, r, n - 1));
     if n - 1 = 0 then do {
       (c, _) \<leftarrow> com_Release (w_com w) r;
       Some (proxy_put (w\<lparr>w_com := c\<rparr>) p None, 0) }
     else Some (w, n - 1) }"

definition wptr_Release :: "wmi_heap \<Rightarrow> wptr \<Rightarrow> wmi_heap option" where
  "wptr_Release w x =
     (case x of
        At a \<Rightarrow> do { (c, _) \<leftarrow> com_Release (w_com w) a; Some (w\<lparr>w_com := c\<rparr>) }
      | Proxy_At p \<Rightarrow> do { (w, _) \<leftarrow> proxy_Release w p; Some w })"

fun wptr_Release_all :: "wmi_heap \<Rightarrow> wptr list \<Rightarrow> wmi_heap option" where
  "wptr_Release_all w [] = Some w"
| "wptr_Release_all w (x # xs) = do { w \<leftarrow> wptr_Release w x; wptr_Release_all w xs }"

text \<open>Allocate, count 1, keep the real object alive.\<close>

definition create_proxy :: "bool \<Rightarrow> proxy_kind \<Rightarrow> wmi_heap \<Rightarrow> oaddr \<Rightarrow> (wmi_heap \<times> wptr option) option" where
  "create_proxy heap_ok k w real =
     (if \<not> heap_ok then Some (w, None)
      else do {
        (c, _) \<leftarrow> com_AddRef (w_com w) real;
        Some (w\<lparr>w_com := c, w_proxies := w_proxies w @ [Some (k, real, 1)]\<rparr>,
              Some (Proxy_At (length (w_proxies w)))) })"

definition CreateProxyEnumWbem :: "bool \<Rightarrow> wmi_heap \<Rightarrow> oaddr \<Rightarrow> (wmi_heap \<times> wptr option) option" where
  "CreateProxyEnumWbem heap_ok w realEnum = create_proxy heap_ok Proxy_Enum w realEnum"

definition CreateProxyWbemServices :: "bool \<Rightarrow> wmi_heap \<Rightarrow> oaddr \<Rightarrow> (wmi_heap \<times> wptr option) option" where
  "CreateProxyWbemServices heap_ok w realService = create_proxy heap_ok Proxy_Services w realService"

definition InitProxyWbemClassVtable :: "wmi_heap \<Rightarrow> wmi_heap" where
  "InitProxyWbemClassVtable w =
     (if g_ProxyWbemClassVtable w ! 0 \<noteq> Empty_Slot then w
      else w\<lparr>g_ProxyWbemClassVtable := (g_ProxyWbemClassVtable w)
        [0 := Own_QueryInterface, 1 := Own_AddRef, 2 := Own_Release]\<rparr>)"

text \<open>The first real object gives its vtable to all proxies.\<close>

definition fill_vtable :: "wmi_real \<Rightarrow> wmi_heap \<Rightarrow> oaddr \<Rightarrow> wmi_heap" where
  "fill_vtable e w realObj =
     (if vtableFilled w then w
      else w\<lparr>g_ProxyWbemClassVtable :=
          (take 3 (g_ProxyWbemClassVtable w) @ map (Copied (rw_vtable e realObj)) [3..<32])[4 := Own_Get],
        vtableFilled := True\<rparr>)"

definition CreateProxyWbemClassObject ::
    "wmi_real \<Rightarrow> bool \<Rightarrow> wmi_heap \<Rightarrow> oaddr \<Rightarrow> (wmi_heap \<times> wptr option) option" where
  "CreateProxyWbemClassObject e heap_ok w realObj = do {
     (w, p) \<leftarrow> create_proxy heap_ok Proxy_Class (InitProxyWbemClassVtable w) realObj;
     (case p of
        None \<Rightarrow> Some (w, None)
      | Some x \<Rightarrow> Some (fill_vtable e w realObj, Some x)) }"

text \<open>The own interfaces get another reference on the proxy, the others come from the real object.\<close>

definition proxy_QueryInterface ::
    "iid list \<Rightarrow> wmi_real \<Rightarrow> wmi_heap \<Rightarrow> nat \<Rightarrow> iid \<Rightarrow> wmi_result" where
  "proxy_QueryInterface own e w p riid = do {
     (_, r, _) \<leftarrow> proxy_get w p;
     if riid \<in> set own then do { (w, _) \<leftarrow> proxy_AddRef w p; Some (w, 0, Some (Proxy_At p)) }
     else do {
       (w, hr, ob) \<leftarrow> on_real w r (rw_QueryInterface e r riid);
       Some (w, hr, map_option At ob) } }"

definition ProxyEnumWbem_QueryInterface :: "wmi_real \<Rightarrow> wmi_heap \<Rightarrow> nat \<Rightarrow> iid \<Rightarrow> wmi_result" where
  "ProxyEnumWbem_QueryInterface =
     proxy_QueryInterface [IID_IUnknown, IID_IEnumWbemClassObject, IID_IEnumVARIANT]"

definition ProxyWbemCls_QueryInterface :: "wmi_real \<Rightarrow> wmi_heap \<Rightarrow> nat \<Rightarrow> iid \<Rightarrow> wmi_result" where
  "ProxyWbemCls_QueryInterface = proxy_QueryInterface [IID_IUnknown, IID_IWbemClassObject]"

definition Proxy_QueryInterface :: "wmi_real \<Rightarrow> wmi_heap \<Rightarrow> nat \<Rightarrow> iid \<Rightarrow> wmi_result" where
  "Proxy_QueryInterface = proxy_QueryInterface [IID_IUnknown, IID_IWbemServices]"

section \<open>Enumerators\<close>

definition ProxyEnumWbem_Reset :: "wmi_real \<Rightarrow> wmi_heap \<Rightarrow> nat \<Rightarrow> (wmi_heap \<times> u32) option" where
  "ProxyEnumWbem_Reset e w p = do { (_, r, _) \<leftarrow> proxy_get w p; on_real w r (rw_Reset e r) }"

definition ProxyEnumWbem_Skip ::
    "wmi_real \<Rightarrow> wmi_heap \<Rightarrow> nat \<Rightarrow> int \<Rightarrow> nat \<Rightarrow> (wmi_heap \<times> u32) option" where
  "ProxyEnumWbem_Skip e w p lTimeout nCount = do {
     (_, r, _) \<leftarrow> proxy_get w p;
     on_real w r (rw_Skip e r lTimeout nCount) }"

text \<open>One object: when there is memory for the proxy, the reference of the caller passes to it.\<close>

definition wrap_object :: "wmi_real \<Rightarrow> bool \<Rightarrow> wmi_heap \<Rightarrow> oaddr \<Rightarrow> (wmi_heap \<times> wptr) option" where
  "wrap_object e heap_ok w realObj = do {
     (w, wrapped) \<leftarrow> CreateProxyWbemClassObject e heap_ok w realObj;
     (case wrapped of
        None \<Rightarrow> Some (w, At realObj)
      | Some x \<Rightarrow> do {
          (c, _) \<leftarrow> com_Release (w_com w) realObj;
          Some (w\<lparr>w_com := c\<rparr>, x) }) }"

fun wrap_objects :: "wmi_real \<Rightarrow> (nat \<Rightarrow> bool) \<Rightarrow> wmi_heap \<Rightarrow> oaddr list \<Rightarrow> (wmi_heap \<times> wptr list) option" where
  "wrap_objects e heap_ok w [] = Some (w, [])"
| "wrap_objects e heap_ok w (r # rs) = do {
     (w, x) \<leftarrow> wrap_object e (heap_ok 0) w r;
     (w, xs) \<leftarrow> wrap_objects e (\<lambda>i. heap_ok (Suc i)) w rs;
     Some (w, x # xs) }"

text \<open>\<open>heap_ok\<close> is the answer for each object, \<open>counted\<close> says whether \<open>pcReturned\<close> was given.\<close>

definition ProxyEnumWbem_Next ::
    "wmi_real \<Rightarrow> (nat \<Rightarrow> bool) \<Rightarrow> bool \<Rightarrow> wmi_heap \<Rightarrow> nat \<Rightarrow> int \<Rightarrow> nat \<Rightarrow>
     (wmi_heap \<times> u32 \<times> wptr list) option" where
  "ProxyEnumWbem_Next e heap_ok counted w p lTimeout celt = do {
     (_, r, _) \<leftarrow> proxy_get w p;
     (w, hr, objs) \<leftarrow> on_real w r (rw_Next e r lTimeout celt);
     if SUCCEEDED hr \<and> counted then do {
       (w, xs) \<leftarrow> wrap_objects e heap_ok w objs;
       Some (w, hr, xs) }
     else Some (w, hr, map At objs) }"

definition ProxyEnumWbem_NextAsync :: u32 where
  "ProxyEnumWbem_NextAsync = hresult_code E_NOTIMPL"

text \<open>An enumerator from a real call, put into a proxy; the reference of the caller stays on the
  real one (shared by \<open>ProxyEnumWbem_Clone\<close> and the proxy mode of \<open>Proxy_ExecQuery\<close>).\<close>

definition wrap_enum :: "bool \<Rightarrow> wmi_heap \<times> u32 \<times> oaddr option \<Rightarrow> wmi_result" where
  "wrap_enum heap_ok answer =
     (case answer of
        (w, hr, Some r) \<Rightarrow>
          if SUCCEEDED hr then do {
            (w, p) \<leftarrow> CreateProxyEnumWbem heap_ok w r;
            (case p of
               None \<Rightarrow> do {
                 (c, _) \<leftarrow> com_Release (w_com w) r;
                 Some (w\<lparr>w_com := c\<rparr>, hresult_code E_OUTOFMEMORY, None) }
             | Some x \<Rightarrow> Some (w, hr, Some x)) }
          else Some (w, hr, Some (At r))
      | (w, hr, None) \<Rightarrow> Some (w, hr, None))"

definition ProxyEnumWbem_Clone :: "wmi_real \<Rightarrow> bool \<Rightarrow> wmi_heap \<Rightarrow> nat \<Rightarrow> wmi_result" where
  "ProxyEnumWbem_Clone e heap_ok w p = do {
     (_, r, _) \<leftarrow> proxy_get w p;
     (w, hr, realClone) \<leftarrow> on_real w r (rw_Clone e r);
     if SUCCEEDED hr then wrap_enum heap_ok (w, hr, realClone) else Some (w, hr, None) }"

section \<open>Class objects: the log of Get\<close>

datatype logged =
    L_Text wstr | L_Number int | L_Real u64 | L_None | L_Array int | L_Null_Array
  | L_Other_Array u16 u16 | L_Unknown u16

datatype get_line =
    Got wstr wstr logged            \<comment> \<open>name, name of the type, value\<close>
  | Element int logged
  | Cim_Type wstr u32
  | Get_Failed wstr u32
  | Null_Output wstr

definition VT_ARRAY_bit :: u16 where "VT_ARRAY_bit = 0x2000"

text \<open>The loop from the lower to the upper bound; at the largest upper bound it has no end.\<close>

definition array_lines ::
    "wstr \<Rightarrow> wstr \<Rightarrow> ('a \<Rightarrow> logged) \<Rightarrow> (int \<times> 'a option list) option \<Rightarrow> get_line list option" where
  "array_lines name ty f psa =
     (case psa of
        None \<Rightarrow> Some [Got name ty L_Null_Array]
      | Some (lbound, es) \<Rightarrow>
          if lbound + int (length es) - 1 = 2 ^ 31 - 1 then None
          else Some (Got name ty (L_Array (int (length es))) #
            concat (map (\<lambda>(i, x). case x of None \<Rightarrow> [] | Some v \<Rightarrow> [Element (int i) (f v)])
              (enumerate 0 es))))"

fun value_lines :: "wstr \<Rightarrow> real_value \<Rightarrow> get_line list option" where
  "value_lines n (V_BSTR s) = Some [Got n (str ''BSTR'') (L_Text (case s of None \<Rightarrow> [] | Some x \<Rightarrow> x))]"
| "value_lines n (V_BOOL b) = Some [Got n (str ''BOOL'') (L_Text (if b then str ''TRUE'' else str ''FALSE''))]"
| "value_lines n (V_I4 i) = Some [Got n (str ''I4'') (L_Number i)]"
| "value_lines n (V_UI4 i) = Some [Got n (str ''UI4'') (L_Number i)]"
| "value_lines n (V_I2 i) = Some [Got n (str ''I2'') (L_Number i)]"
| "value_lines n (V_UI2 i) = Some [Got n (str ''UI2'') (L_Number i)]"
| "value_lines n (V_I8 i) = Some [Got n (str ''I8'') (L_Number i)]"
| "value_lines n (V_UI8 i) = Some [Got n (str ''UI8'') (L_Number i)]"
| "value_lines n (V_R4 x) = Some [Got n (str ''R4'') (L_Real (ucast x))]"
| "value_lines n (V_R8 x) = Some [Got n (str ''R8'') (L_Real x)]"
| "value_lines n V_NULL = Some [Got n (str ''NULL'') L_None]"
| "value_lines n V_EMPTY = Some [Got n (str ''EMPTY'') L_None]"
| "value_lines n (V_ARRAY_BSTR psa) = array_lines n (str ''ARRAY|BSTR'')
     (\<lambda>s. L_Text (case s of None \<Rightarrow> [] | Some x \<Rightarrow> x)) psa"
| "value_lines n (V_ARRAY_I4 psa) = array_lines n (str ''ARRAY|I4'') L_Number psa"
| "value_lines n (V_ARRAY_UI4 psa) = array_lines n (str ''ARRAY|UI4'') L_Number psa"
| "value_lines n (V_OTHER vt) =
     Some [Got n [] (if vt AND VT_ARRAY_bit \<noteq> 0 then L_Other_Array (vt AND NOT VT_ARRAY_bit) vt
       else L_Unknown vt)]"

definition CIM_ILLEGAL :: u32 where "CIM_ILLEGAL = 0xFFF"
definition CIM_FLAG_ARRAY :: u32 where "CIM_FLAG_ARRAY = 0x2000"

definition cim_names :: "(u32 \<times> wstr) list" where
  "cim_names =
     [(16, str ''SINT8''), (17, str ''UINT8''), (2, str ''SINT16''), (18, str ''UINT16''),
      (3, str ''SINT32''), (19, str ''UINT32''), (20, str ''SINT64''), (21, str ''UINT64''),
      (4, str ''REAL32''), (5, str ''REAL64''), (11, str ''BOOLEAN''), (8, str ''STRING''),
      (101, str ''DATETIME''), (102, str ''REFERENCE''), (103, str ''CHAR16''), (13, str ''OBJECT'')]"

definition cimTypeStr :: "u32 \<Rightarrow> wstr" where
  "cimTypeStr ty =
     (if ty AND CIM_FLAG_ARRAY \<noteq> 0 then str ''ARRAY|'' else []) @
     (case map_of cim_names (ty AND NOT CIM_FLAG_ARRAY) of None \<Rightarrow> str ''UNKNOWN'' | Some s \<Rightarrow> s)"

definition ProxyWbemCls_Get ::
    "wmi_real \<Rightarrow> wmi_heap \<Rightarrow> nat \<Rightarrow> wstr option \<Rightarrow> bool \<Rightarrow> bool \<Rightarrow>
     ((u32 \<times> real_value \<times> u32) \<times> get_line list) option" where
  "ProxyWbemCls_Get e w p wszName has_val has_type = do {
     (_, r, _) \<leftarrow> proxy_get w p;
     _ \<leftarrow> com_get (w_com w) r;
     let name = (case wszName of None \<Rightarrow> str ''(null)'' | Some n \<Rightarrow> n);
     (case rw_Get e r wszName of (hr, v, ty) \<Rightarrow> do {
        lines \<leftarrow>
          (if SUCCEEDED hr \<and> has_val then do {
             ls \<leftarrow> value_lines name v;
             Some (ls @ (if has_type \<and> ty \<noteq> CIM_ILLEGAL then [Cim_Type (cimTypeStr ty) ty] else [])) }
           else if \<not> SUCCEEDED hr then Some [Get_Failed name hr]
           else Some [Null_Output name]);
        Some ((hr, v, ty), lines) }) }"

section \<open>Services\<close>

text \<open>The methods that log and forward; the arguments that are no strings are passed on
  unchanged and not represented.\<close>

definition Proxy_forward :: "wmi_real \<Rightarrow> wmi_heap \<Rightarrow> nat \<Rightarrow> svc_method \<Rightarrow> wstr list \<Rightarrow> wmi_result" where
  "Proxy_forward e w p method args = do {
     (_, r, _) \<leftarrow> proxy_get w p;
     (w, hr, ob) \<leftarrow> on_real w r (rw_service e r method args);
     Some (w, hr, map_option At ob) }"

definition s_configuration :: wstr where "s_configuration = str ''Win32_NetworkAdapterConfiguration''"
definition s_adapter :: wstr where "s_adapter = str ''Win32_NetworkAdapter''"

definition Proxy_GetObject ::
    "wmi_real \<Rightarrow> bool \<Rightarrow> bool \<Rightarrow> wmi_heap \<Rightarrow> nat \<Rightarrow> wstr \<Rightarrow> wmi_result" where
  "Proxy_GetObject e block heap_ok w p strObjectPath =
     (if block \<and> contains strObjectPath s_configuration then
        (let (c, ob) = CreateFakeWbemClassObject heap_ok (w_com w) in
         Some (w\<lparr>w_com := c\<rparr>, 0, map_option At ob))
      else if block \<and> contains strObjectPath s_adapter then
        of_com w (Some (made (CreateFakeNetAdapterObject heap_ok (w_com w)
          (ExtractDeviceIDFromPath strObjectPath))))
      else Proxy_forward e w p GetObject [strObjectPath])"

definition Proxy_CreateInstanceEnum ::
    "wmi_real \<Rightarrow> bool \<Rightarrow> bool \<Rightarrow> bool \<Rightarrow> wmi_heap \<Rightarrow> nat \<Rightarrow> wstr option \<Rightarrow> wmi_result" where
  "Proxy_CreateInstanceEnum e block h1 h2 w p strFilter =
     (case strFilter of
        None \<Rightarrow> Proxy_forward e w p CreateInstanceEnum []
      | Some f \<Rightarrow>
          if block \<and> icmp_eq f s_configuration
          then of_com w (wmi_enum h2 (CreateFakeWbemClassObject h1 (w_com w)))
          else Proxy_forward e w p CreateInstanceEnum [f])"

text \<open>The log prints 16 bytes of the extracted text as if they were a GUID; the text and its
  terminator have to be that long.\<close>

definition guid_logged :: "wstr option \<Rightarrow> unit option" where
  "guid_logged guid =
     (case guid of None \<Rightarrow> Some () | Some g \<Rightarrow> if 2 * (length g + 1) < 16 then None else Some ())"

definition Proxy_ExecQuery ::
    "wmi_real \<Rightarrow> bool \<Rightarrow> bool \<Rightarrow> bool \<Rightarrow> wmi_heap \<Rightarrow> nat \<Rightarrow> wstr \<Rightarrow> wstr \<Rightarrow> wmi_result" where
  "Proxy_ExecQuery e block h1 h2 w p strQueryLanguage strQuery =
     (if block then
        if contains strQuery s_configuration
        then of_com w (wmi_enum h2 (CreateFakeWbemClassObject h1 (w_com w)))
        else if contains strQuery s_adapter then do {
          let guid = ExtractGuidFromQuery (Some strQuery);
          _ \<leftarrow> guid_logged guid;
          of_com w (wmi_enum h2 (CreateFakeNetAdapterObject h1 (w_com w) guid)) }
        else Proxy_forward e w p ExecQuery [strQueryLanguage, strQuery]
      else do {
        (_, r, _) \<leftarrow> proxy_get w p;
        (w, hr, en) \<leftarrow> on_real w r (rw_service e r ExecQuery [strQueryLanguage, strQuery]);
        wrap_enum h1 (w, hr, en) })"

definition Proxy_ExecMethod ::
    "wmi_real \<Rightarrow> bool \<Rightarrow> wmi_heap \<Rightarrow> nat \<Rightarrow> wstr \<Rightarrow> wstr \<Rightarrow> wmi_result" where
  "Proxy_ExecMethod e block w p strObjectPath strMethodName =
     (if block \<and> (contains strObjectPath s_configuration \<or> contains strObjectPath s_adapter)
      then Some (w, 0, None)
      else Proxy_forward e w p ExecMethod [strObjectPath, strMethodName])"

text \<open>The vtable: four methods are intercepted.\<close>

definition g_proxyVtbl ::
    "wmi_real \<Rightarrow> bool \<Rightarrow> bool \<Rightarrow> bool \<Rightarrow> svc_method \<Rightarrow> wmi_heap \<Rightarrow> nat \<Rightarrow> wstr list \<Rightarrow> wmi_result" where
  "g_proxyVtbl e block h1 h2 method w p args =
     (case (method, args) of
        (GetObject, [path]) \<Rightarrow> Proxy_GetObject e block h1 w p path
      | (CreateInstanceEnum, []) \<Rightarrow> Proxy_CreateInstanceEnum e block h1 h2 w p None
      | (CreateInstanceEnum, [f]) \<Rightarrow> Proxy_CreateInstanceEnum e block h1 h2 w p (Some f)
      | (ExecQuery, [l, q]) \<Rightarrow> Proxy_ExecQuery e block h1 h2 w p l q
      | (ExecMethod, [path, m]) \<Rightarrow> Proxy_ExecMethod e block w p path m
      | _ \<Rightarrow> Proxy_forward e w p method args)"

section \<open>The result of a call\<close>

text \<open>The static object of class \<open>IWbemCallResult\<close>: its count, which never falls below one, the
  return value and the word written through the output pointer.\<close>

datatype cr_method =
    CR_QueryInterface | CR_AddRef | CR_Release | CR_GetCallStatus | CR_GetResultObject
  | CR_GetResultString | CR_GetResultServices

definition g_FakeCallResultVtable :: "cr_method list" where
  "g_FakeCallResultVtable = [CR_QueryInterface, CR_AddRef, CR_Release, CR_GetCallStatus,
     CR_GetResultObject, CR_GetResultString, CR_GetResultServices]"

text \<open>The order of the interface in wbemcli.h.\<close>

definition IWbemCallResult_slots :: "cr_method list" where
  "IWbemCallResult_slots = [CR_QueryInterface, CR_AddRef, CR_Release, CR_GetResultObject,
     CR_GetResultString, CR_GetResultServices, CR_GetCallStatus]"

definition FakeCallResult_AddRef :: "u32 \<Rightarrow> u32 \<times> u32" where
  "FakeCallResult_AddRef n = (n + 1, n + 1)"

definition FakeCallResult_Release :: "u32 \<Rightarrow> u32 \<times> u32" where
  "FakeCallResult_Release n = (let n = (if sint n > 1 then n - 1 else n) in (n, n))"

text \<open>The return value and the word written, for the methods that return a result code.\<close>

fun FakeCallResult_get :: "cr_method \<Rightarrow> u32 \<times> u32 option" where
  "FakeCallResult_get CR_GetCallStatus = (0, Some 0)"
| "FakeCallResult_get _ = (WBEM_E_NOT_FOUND, None)"

section \<open>Enumeration keeps the count\<close>

lemma com_AddRef_real: "com_get c a = Some (RealObject, n) \<Longrightarrow>
  com_AddRef c a = Some (com_put c a (Some (RealObject, n + 1)), n + 1)"
  by (simp add: com_AddRef_def)

lemma com_Release_real: "com_get c a = Some (RealObject, n) \<Longrightarrow> n \<noteq> 1 \<Longrightarrow>
  com_Release c a = Some (com_put c a (Some (RealObject, n - 1)), n - 1)"
  using Release_leaf [of c a RealObject n "Suc 0"]
  by (simp add: com_Release_def numeral_2_eq_2 leaf_after_def del: vtable_Release.simps)

lemma com_get_put_same: "com_get c a = Some k \<Longrightarrow> com_get (com_put c a x) a = x"
  using com_get_bound [of c a k] by (simp add: com_get_put)

lemma proxy_get_put: "p \<noteq> q \<Longrightarrow> proxy_get (proxy_put w p c) q = proxy_get w q"
  by (simp add: proxy_get_def proxy_put_def nth_list_update_neq)

lemma proxy_get_append: "p < length (w_proxies w) \<Longrightarrow> w_proxies w' = w_proxies w @ cs \<Longrightarrow>
  proxy_get w' p = proxy_get w p"
  by (simp add: proxy_get_def nth_append)

lemma proxy_get_new: "w_proxies w' = w_proxies w @ [x] \<Longrightarrow> proxy_get w' (length (w_proxies w)) = x"
  by (simp add: proxy_get_def)

lemma proxy_get_bound: "proxy_get w p = Some x \<Longrightarrow> p < length (w_proxies w)"
  by (simp add: proxy_get_def split: if_splits)

lemma fill_vtable_fields [simp]:
  "w_com (fill_vtable e w r) = w_com w" "w_proxies (fill_vtable e w r) = w_proxies w"
  "w_com (InitProxyWbemClassVtable w) = w_com w" "w_proxies (InitProxyWbemClassVtable w) = w_proxies w"
  by (simp_all add: fill_vtable_def InitProxyWbemClassVtable_def)

text \<open>A proxy object stands for a real one: it is the object itself, or a proxy with count 1.\<close>

definition represents :: "wmi_heap \<Rightarrow> wptr \<Rightarrow> oaddr \<Rightarrow> bool" where
  "represents w x a \<longleftrightarrow> x = At a \<or> (\<exists>p. x = Proxy_At p \<and> proxy_get w p = Some (Proxy_Class, a, 1))"

fun new_proxies :: "wptr list \<Rightarrow> nat list" where
  "new_proxies [] = []"
| "new_proxies (At _ # xs) = new_proxies xs"
| "new_proxies (Proxy_At p # xs) = p # new_proxies xs"

lemma wrap_object_spec:
  assumes "com_get (w_com w) a = Some (RealObject, n)" "0 < n"
  shows "\<exists>w' x. wrap_object e heap_ok w a = Some (w', x) \<and> w_com w' = w_com w \<and>
    (if heap_ok then w_proxies w' = w_proxies w @ [Some (Proxy_Class, a, 1)] \<and>
       x = Proxy_At (length (w_proxies w))
     else w_proxies w' = w_proxies w \<and> x = At a)"
proof (cases heap_ok)
  case True
  let ?c = "com_put (w_com w) a (Some (RealObject, n + 1))"
  have "com_get ?c a = Some (RealObject, n + 1)" by (rule com_get_put_same [OF assms(1)])
  from com_Release_real [OF this]
  have "com_Release ?c a = Some (w_com w, n)" using assms com_put_same [OF assms(1)] by simp
  then show ?thesis
    using True assms com_AddRef_real [OF assms(1)]
    by (simp add: wrap_object_def CreateProxyWbemClassObject_def create_proxy_def)
qed (simp add: wrap_object_def CreateProxyWbemClassObject_def create_proxy_def)

lemma represents_mono:
  "represents w x a \<Longrightarrow> w_proxies w' = w_proxies w @ cs \<Longrightarrow> represents w' x a"
proof -
  assume r: "represents w x a" and w': "w_proxies w' = w_proxies w @ cs"
  have "proxy_get w' p = Some y" if "proxy_get w p = Some y" for p y
    using proxy_get_append [OF proxy_get_bound [OF that] w'] that by simp
  with r show "represents w' x a" unfolding represents_def by blast
qed

lemma wrap_objects_spec:
  assumes "\<forall>a\<in>set objs. \<exists>n>0. com_get (w_com w) a = Some (RealObject, n)"
  shows "\<exists>w' xs cs. wrap_objects e heap_ok w objs = Some (w', xs) \<and> w_com w' = w_com w \<and>
    w_proxies w' = w_proxies w @ cs \<and> list_all2 (represents w') xs objs \<and>
    distinct (new_proxies xs) \<and> (\<forall>p\<in>set (new_proxies xs). length (w_proxies w) \<le> p)"
  using assms
proof (induction e heap_ok w objs rule: wrap_objects.induct)
  case (2 e heap_ok w a objs)
  from "2.prems" obtain n where "com_get (w_com w) a = Some (RealObject, n)" "0 < n" by auto
  from wrap_object_spec [OF this, of e "heap_ok 0"]
  obtain w1 x where x: "wrap_object e (heap_ok 0) w a = Some (w1, x)" "w_com w1 = w_com w"
    "if heap_ok 0 then w_proxies w1 = w_proxies w @ [Some (Proxy_Class, a, 1)] \<and>
       x = Proxy_At (length (w_proxies w)) else w_proxies w1 = w_proxies w \<and> x = At a" by blast
  have "\<forall>a\<in>set objs. \<exists>n>0. com_get (w_com w1) a = Some (RealObject, n)" using "2.prems" x(2) by simp
  from "2.IH" [OF x(1) refl this]
  obtain w2 xs cs where xs: "wrap_objects e (\<lambda>i. heap_ok (Suc i)) w1 objs = Some (w2, xs)"
    "w_com w2 = w_com w1" "w_proxies w2 = w_proxies w1 @ cs" "list_all2 (represents w2) xs objs"
    "distinct (new_proxies xs)" "\<forall>p\<in>set (new_proxies xs). length (w_proxies w1) \<le> p" by blast
  have "represents w1 x a"
    using x(3) by (cases "heap_ok 0") (simp_all add: represents_def proxy_get_new)
  then have "represents w2 x a" using represents_mono xs(3) by blast
  moreover have "distinct (new_proxies (x # xs)) \<and> (\<forall>p\<in>set (new_proxies (x # xs)). length (w_proxies w) \<le> p)"
  proof (cases "heap_ok 0")
    case True
    then have "x = Proxy_At (length (w_proxies w))" "length (w_proxies w1) = Suc (length (w_proxies w))"
      using x(3) by simp_all
    then show ?thesis using xs(5,6) by fastforce
  next
    case False
    then show ?thesis using x(3) xs(5,6) by simp
  qed
  moreover have "\<exists>cs. w_proxies w2 = w_proxies w @ cs" using x(3) xs(3) by (auto split: if_splits)
  ultimately show ?case
    using x(1,2) xs(1,2,4) by (intro exI [of _ w2] exI [of _ "x # xs"]) auto
qed simp

lemma represents_other:
  "represents w x a \<Longrightarrow> x \<noteq> Proxy_At p \<Longrightarrow> represents (proxy_put w p c) x a"
  by (auto simp: represents_def proxy_get_put)

lemma represents_com [simp]: "represents (w\<lparr>w_com := c\<rparr>) x a = represents w x a"
  by (simp add: represents_def proxy_get_def)

lemma proxy_put_fields [simp]:
  "w_com (proxy_put w p c) = w_com w" "proxy_put (proxy_put w p c) p d = proxy_put w p d"
  "(proxy_put w p c)\<lparr>w_com := x\<rparr> = proxy_put (w\<lparr>w_com := x\<rparr>) p c"
  by (simp_all add: proxy_put_def)

lemma not_new_proxy: "p \<notin> set (new_proxies xs) \<Longrightarrow> x \<in> set xs \<Longrightarrow> x \<noteq> Proxy_At p"
  by (induction xs rule: new_proxies.induct) auto

text \<open>Releasing what stands for a real object releases the real object once.\<close>

lemma release_represented:
  assumes "represents w x a"
  shows "(case com_Release (w_com w) a of
      None \<Rightarrow> wptr_Release w x = None
    | Some (c, _) \<Rightarrow> \<exists>w'. wptr_Release w x = Some w' \<and> w_com w' = c \<and>
        (\<forall>y b. represents w y b \<longrightarrow> (\<forall>p. x = Proxy_At p \<longrightarrow> y \<noteq> Proxy_At p) \<longrightarrow> represents w' y b))"
proof (cases x)
  case (At b)
  then show ?thesis using assms
    by (auto simp: represents_def wptr_Release_def proxy_get_def split: option.splits)
next
  case (Proxy_At p)
  have "proxy_get w p = Some (Proxy_Class, a, 1)" using assms Proxy_At by (simp add: represents_def)
  then show ?thesis
    using Proxy_At represents_other
    by (auto simp: wptr_Release_def proxy_Release_def Let_def split: option.splits)
qed

lemma release_all_represented:
  "list_all2 (represents w) xs objs \<Longrightarrow> distinct (new_proxies xs) \<Longrightarrow>
   map_option w_com (wptr_Release_all w xs) = release_all com_Release (w_com w) objs"
proof (induction xs arbitrary: w objs)
  case (Cons x xs)
  then obtain a rest where objs: "objs = a # rest" "represents w x a" "list_all2 (represents w) xs rest"
    by (cases objs) auto
  have d: "distinct (new_proxies xs)" "x = Proxy_At p \<Longrightarrow> p \<notin> set (new_proxies xs)" for p
    using Cons.prems(2) by (cases x; auto)+
  show ?case
  proof (cases "com_Release (w_com w) a")
    case None
    then show ?thesis using release_represented [OF objs(2)] objs(1) by simp
  next
    case (Some r)
    then obtain c n where c: "com_Release (w_com w) a = Some (c, n)" by (cases r) auto
    then obtain w' where w': "wptr_Release w x = Some w'" "w_com w' = c"
      "\<And>y b. represents w y b \<Longrightarrow> (\<And>p. x = Proxy_At p \<Longrightarrow> y \<noteq> Proxy_At p) \<Longrightarrow> represents w' y b"
      using release_represented [OF objs(2)] by auto
    have "list_all2 (represents w') xs rest"
      using objs(3) by (rule list.rel_mono_strong) (use w'(3) d(2) not_new_proxy in blast)
    then show ?thesis using Cons.IH [OF _ d(1)] w' c objs(1) by simp
  qed
qed simp

text \<open>The proxy of an enumerator neither keeps nor loses a reference: whatever the allocations
  answer, the real objects are as the real \<open>Next\<close> left them, and a client that releases what it
  got leaves them as a client of the real enumerator would.\<close>

theorem proxied_enumeration_balanced:
  assumes "proxy_get w p = Some (Proxy_Enum, r, n)" "com_get (w_com w) r \<noteq> None"
    "rw_Next e r t celt (w_com w) = (c, hr, objs)"
    "\<forall>a\<in>set objs. \<exists>n>0. com_get c a = Some (RealObject, n)"
  shows "\<exists>w' xs. ProxyEnumWbem_Next e heap_ok counted w p t celt = Some (w', hr, xs) \<and>
    length xs = length objs \<and> w_com w' = c \<and>
    map_option w_com (wptr_Release_all w' xs) = release_all com_Release c objs"
proof -
  let ?w = "w\<lparr>w_com := c\<rparr>"
  have real: "on_real w r (rw_Next e r t celt) = Some (?w, hr, objs)"
    using assms(2,3) by (auto simp: on_real_def)
  show ?thesis
  proof (cases "SUCCEEDED hr \<and> counted")
    case True
    from wrap_objects_spec [of objs ?w e heap_ok] assms(4)
    obtain w' xs where w': "wrap_objects e heap_ok ?w objs = Some (w', xs)" "w_com w' = c"
      "list_all2 (represents w') xs objs" "distinct (new_proxies xs)" by auto
    then show ?thesis
      using True real assms(1) release_all_represented [OF w'(3,4)] list_all2_lengthD [OF w'(3)]
      by (simp add: ProxyEnumWbem_Next_def)
  next
    case False
    then have "ProxyEnumWbem_Next e heap_ok counted w p t celt = Some (?w, hr, map At objs)"
      using real assms(1) by (auto simp: ProxyEnumWbem_Next_def)
    moreover have "list_all2 (represents ?w) (map At objs) objs"
      by (simp add: list_all2_map1 list_all2_same represents_def)
    moreover have "new_proxies (map At objs) = []" by (induction objs) auto
    ultimately show ?thesis
      using release_all_represented [of ?w "map At objs" objs] by simp
  qed
qed

text \<open>The clone does not balance: the client's reference on the real clone stays with nobody, so
  after the release of the proxy the real enumerator still has a count.\<close>

theorem proxied_clone_leaks:
  assumes "proxy_get w p = Some (Proxy_Enum, r, n)" "com_get (w_com w) r \<noteq> None"
    "rw_Clone e r (w_com w) = (c, 0, Some a)" "com_get c a = Some (RealObject, 1)"
  shows "\<exists>w' x w''. ProxyEnumWbem_Clone e True w p = Some (w', 0, Some x) \<and>
    wptr_Release w' x = Some w'' \<and> com_get (w_com w'') a = Some (RealObject, 1)"
proof -
  let ?c = "com_put c a (Some (RealObject, 2))"
  let ?w = "w\<lparr>w_com := ?c, w_proxies := w_proxies w @ [Some (Proxy_Enum, a, 1)]\<rparr>"
  have "com_get ?c a = Some (RealObject, 2)" by (rule com_get_put_same [OF assms(4)])
  from com_Release_real [OF this]
  have rel: "com_Release ?c a = Some (c, 1)" using com_put_same [OF assms(4)] by simp
  have "on_real w r (rw_Clone e r) = Some (w\<lparr>w_com := c\<rparr>, 0, Some a)"
    using assms(2,3) by (auto simp: on_real_def)
  then have "ProxyEnumWbem_Clone e True w p = Some (?w, 0, Some (Proxy_At (length (w_proxies w))))"
    using assms(1) com_AddRef_real [OF assms(4)]
    by (simp add: ProxyEnumWbem_Clone_def wrap_enum_def SUCCEEDED_def CreateProxyEnumWbem_def
        create_proxy_def)
  moreover have "proxy_get ?w (length (w_proxies w)) = Some (Proxy_Enum, a, 1)"
    by (simp add: proxy_get_def)
  ultimately show ?thesis
    using rel assms(4) by (simp add: wptr_Release_def proxy_Release_def)
qed

text \<open>Every slot but \<open>QueryInterface\<close>, \<open>AddRef\<close>, \<open>Release\<close> and \<open>Get\<close> of a proxy of a class object runs
  the method of the first real object wrapped, with the proxy as its object.\<close>

lemma class_proxy_slots:
  assumes "create_proxy True Proxy_Class (InitProxyWbemClassVtable (wmi_start c)) a = Some (w, Some x)"
    "2 < i" "i < 32" "i \<noteq> 4"
  shows "g_ProxyWbemClassVtable (fill_vtable e w a) ! i = Copied (rw_vtable e a) i"
proof -
  have w: "vtableFilled w = False" "length (g_ProxyWbemClassVtable w) = 32"
    using assms(1) by (auto simp: create_proxy_def bind_eq_Some InitProxyWbemClassVtable_def wmi_start_def)
  moreover have "map (Copied (rw_vtable e a)) [3..<32] ! (i - 3) = Copied (rw_vtable e a) i"
    using assms(2,3) by (simp add: nth_upt del: upt_rec_numeral)
  ultimately show ?thesis
    using assms(2-4) by (simp add: fill_vtable_def nth_append del: upt_rec_numeral)
qed

lemma cim_text_fits: "length (cimTypeStr ty) < 64"
proof -
  have names: "\<forall>s\<in>set (map snd cim_names). length s \<le> 9" by (simp add: cim_names_def str_def)
  have "length (case map_of cim_names k of None \<Rightarrow> str ''UNKNOWN'' | Some s \<Rightarrow> s) \<le> 9" for k
  proof (cases "map_of cim_names k")
    case (Some s)
    have "s \<in> set (map snd cim_names)" using map_of_SomeD [OF Some] by (force simp: image_iff)
    then show ?thesis using names Some by auto
  qed (simp add: str_def)
  from this [of "ty AND NOT CIM_FLAG_ARRAY"] show ?thesis by (simp add: cimTypeStr_def str_def)
qed

text \<open>A client of the documented interface asks slot 3 for the result object and gets a success
  with a null pointer.\<close>

lemma call_result_slots:
  "g_FakeCallResultVtable ! 3 = CR_GetCallStatus" "IWbemCallResult_slots ! 3 = CR_GetResultObject"
  "FakeCallResult_get (g_FakeCallResultVtable ! 3) = (0, Some 0)"
  by (simp_all add: g_FakeCallResultVtable_def IWbemCallResult_slots_def)

lemma FakeCallResult_stays: "0 < sint n \<Longrightarrow> 0 < sint (fst (FakeCallResult_Release n))"
  using sint_lt [of n]
  by (auto simp: FakeCallResult_Release_def Let_def sint_word_ariths signed_take_bit_int_eq_self)

end
