(* ===== verification/Com_Interfaces.thy ===== *)
theory Com_Interfaces
  imports Wmi
begin

text \<open>
  The vtables of the fake COM objects of src/emulate_driver_running.c and the answers of the
  methods that only report: the network list manager, its connection and network, the connection
  of the network folder, the sharing configuration and manager, and the stubs of the WMI objects.
  The methods that count references, create objects or enumerate are those of \<open>Com_Objects\<close> and
  \<open>Wmi\<close>; they answer \<open>By_Object\<close> here.  A call through an empty slot or behind the table, and a
  write through a null pointer, is \<open>Fault\<close>.
\<close>

section \<open>Answers\<close>

datatype out_value =
    No_Out                       \<comment> \<open>nothing written\<close>
  | Null_Pointer
  | Out_Bool bool
  | Out_Text wstr
  | Out_Guid "bytes option"      \<comment> \<open>None: the text is no GUID, nothing is written\<close>
  | Out_Word u32

datatype answer = Answer hresult out_value | By_Object | By_Real | Fault

text \<open>What the answers depend on; \<open>ne_clsid\<close> is \<open>CLSIDFromString\<close>.\<close>

record net_env =
  ne_identity :: identity
  ne_adapter :: fake_adapter
  ne_clsid :: "wstr \<Rightarrow> bytes option"

definition radmin_guid :: "net_env \<Rightarrow> bytes option" where
  "radmin_guid e = ne_clsid e (fake_settingID (ne_identity e))"

text \<open>A getter whose output pointer may be null.\<close>

definition gives :: "bool \<Rightarrow> out_value \<Rightarrow> answer" where
  "gives out v = Answer S_OK (if out then v else No_Out)"

definition slot_call :: "'m option list \<Rightarrow> ('m \<Rightarrow> answer) \<Rightarrow> nat \<Rightarrow> answer" where
  "slot_call vt call i =
     (if i < length vt then (case vt ! i of None \<Rightarrow> Fault | Some m \<Rightarrow> call m) else Fault)"

text \<open>NLM_CONNECTIVITY and NLM_DOMAIN_TYPE of netlistmgr.h.\<close>

definition NLM_CONNECTIVITY_IPV4_SUBNET :: u32 where "NLM_CONNECTIVITY_IPV4_SUBNET = 0x10"
definition NLM_CONNECTIVITY_IPV4_LOCALNETWORK :: u32 where "NLM_CONNECTIVITY_IPV4_LOCALNETWORK = 0x20"
definition NLM_CONNECTIVITY_IPV4_INTERNET :: u32 where "NLM_CONNECTIVITY_IPV4_INTERNET = 0x40"
definition NLM_DOMAIN_TYPE_DOMAIN_AUTHENTICATED :: u32 where "NLM_DOMAIN_TYPE_DOMAIN_AUTHENTICATED = 2"
definition NLM_NETWORK_CATEGORY_PRIVATE :: u32 where "NLM_NETWORK_CATEGORY_PRIVATE = 1"

section \<open>INetwork\<close>

datatype fn_method =
    FN_QI | FN_AddRef' | FN_Release' | FN_GetTypeInfoCount | FN_GetTypeInfo | FN_GetIDsOfNames
  | FN_Invoke | FN_GetName | FN_SetName | FN_GetDescription | FN_SetDescription | FN_GetNetworkId
  | FN_GetDomainType | FN_GetNetworkConnections | FN_GetTimeCreatedAndConnected
  | FN_get_IsConnectedToInternet | FN_get_IsConnected | FN_GetConnectivity | FN_GetCategory
  | FN_SetCategory

definition g_FakeNetworkVtable :: "fn_method option list" where
  "g_FakeNetworkVtable = map Some
     [FN_QI, FN_AddRef', FN_Release', FN_GetTypeInfoCount, FN_GetTypeInfo, FN_GetIDsOfNames,
      FN_Invoke, FN_GetName, FN_SetName, FN_GetDescription, FN_SetDescription, FN_GetNetworkId,
      FN_GetDomainType, FN_GetNetworkConnections, FN_GetTimeCreatedAndConnected,
      FN_get_IsConnectedToInternet, FN_get_IsConnected, FN_GetConnectivity, FN_GetCategory,
      FN_SetCategory]"

fun FN_call :: "net_env \<Rightarrow> bool \<Rightarrow> fn_method \<Rightarrow> answer" where
  "FN_call e out FN_QI = By_Object"
| "FN_call e out FN_AddRef' = By_Object"
| "FN_call e out FN_Release' = By_Object"
| "FN_call e out FN_GetName = gives out (Out_Text (fake_FriendlyName (ne_adapter e)))"
| "FN_call e out FN_GetNetworkId = gives out (Out_Guid (radmin_guid e))"
| "FN_call e out FN_GetDomainType = gives out (Out_Word NLM_DOMAIN_TYPE_DOMAIN_AUTHENTICATED)"
| "FN_call e out FN_GetNetworkConnections = Answer S_FALSE (if out then Null_Pointer else No_Out)"
| "FN_call e out FN_get_IsConnectedToInternet = gives out (Out_Bool True)"
| "FN_call e out FN_get_IsConnected = gives out (Out_Bool True)"
| "FN_call e out FN_GetConnectivity =
     gives out (Out_Word (NLM_CONNECTIVITY_IPV4_INTERNET OR NLM_CONNECTIVITY_IPV4_LOCALNETWORK))"
| "FN_call e out FN_GetCategory = gives out (Out_Word NLM_NETWORK_CATEGORY_PRIVATE)"
| "FN_call e out _ = Answer E_NOTIMPL No_Out"

section \<open>INetworkConnection\<close>

datatype fnc_method =
    FNC_QI | FNC_AddRef' | FNC_Release' | FNC_GetTypeInfoCount | FNC_GetTypeInfo
  | FNC_GetIDsOfNames | FNC_Invoke | FNC_GetNetwork' | FNC_get_IsConnectedToInternet
  | FNC_get_IsConnected | FNC_GetConnectivity | FNC_GetConnectionId | FNC_GetAdapterId
  | FNC_GetDomainType

definition g_FakeNetworkConnectionVtbl :: "fnc_method option list" where
  "g_FakeNetworkConnectionVtbl = map Some
     [FNC_QI, FNC_AddRef', FNC_Release', FNC_GetTypeInfoCount, FNC_GetTypeInfo, FNC_GetIDsOfNames,
      FNC_Invoke, FNC_GetNetwork', FNC_get_IsConnectedToInternet, FNC_get_IsConnected,
      FNC_GetConnectivity, FNC_GetConnectionId, FNC_GetAdapterId, FNC_GetDomainType]"

fun FNC_call :: "net_env \<Rightarrow> bool \<Rightarrow> fnc_method \<Rightarrow> answer" where
  "FNC_call e out FNC_GetTypeInfoCount = Answer E_NOTIMPL No_Out"
| "FNC_call e out FNC_GetTypeInfo = Answer E_NOTIMPL No_Out"
| "FNC_call e out FNC_GetIDsOfNames = Answer E_NOTIMPL No_Out"
| "FNC_call e out FNC_Invoke = Answer E_NOTIMPL No_Out"
| "FNC_call e out FNC_get_IsConnectedToInternet = gives out (Out_Bool True)"
| "FNC_call e out FNC_get_IsConnected = gives out (Out_Bool True)"
| "FNC_call e out FNC_GetConnectivity =
     gives out (Out_Word (NLM_CONNECTIVITY_IPV4_INTERNET OR NLM_CONNECTIVITY_IPV4_LOCALNETWORK))"
| "FNC_call e out FNC_GetConnectionId = gives out (Out_Guid (radmin_guid e))"
| "FNC_call e out FNC_GetAdapterId = gives out (Out_Guid (radmin_guid e))"
| "FNC_call e out FNC_GetDomainType = gives out (Out_Word NLM_DOMAIN_TYPE_DOMAIN_AUTHENTICATED)"
| "FNC_call e out _ = By_Object"

section \<open>INetworkListManager\<close>

datatype nlm_method =
    NLM_QI | NLM_AddRef' | NLM_Release' | NLM_GetTypeInfoCount | NLM_GetTypeInfo
  | NLM_GetIDsOfNames | NLM_Invoke | NLM_GetNetworks | NLM_GetNetwork | NLM_GetNetworkConnections'
  | NLM_GetNetworkConnection | NLM_IsConnectedToInternet | NLM_IsConnected | NLM_GetConnectivity

definition g_FakeNetworkListManagerVtable :: "nlm_method option list" where
  "g_FakeNetworkListManagerVtable = map Some
     [NLM_QI, NLM_AddRef', NLM_Release', NLM_GetTypeInfoCount, NLM_GetTypeInfo, NLM_GetIDsOfNames,
      NLM_Invoke, NLM_GetNetworks, NLM_GetNetwork, NLM_GetNetworkConnections',
      NLM_GetNetworkConnection, NLM_IsConnectedToInternet, NLM_IsConnected, NLM_GetConnectivity]"

text \<open>\<open>GetNetworks\<close> and the second assignment of \<open>GetConnectivity\<close> do not test the pointer.\<close>

fun NLM_call :: "bool \<Rightarrow> nlm_method \<Rightarrow> answer" where
  "NLM_call out NLM_QI = By_Object"
| "NLM_call out NLM_AddRef' = By_Object"
| "NLM_call out NLM_Release' = By_Object"
| "NLM_call out NLM_GetNetworks = (if out then Answer S_OK Null_Pointer else Fault)"
| "NLM_call out NLM_GetNetworkConnections' = By_Object"
| "NLM_call out NLM_IsConnectedToInternet = gives out (Out_Bool True)"
| "NLM_call out NLM_IsConnected = gives out (Out_Bool True)"
| "NLM_call out NLM_GetConnectivity = (if out then Answer S_OK (Out_Word 0x50) else Fault)"
| "NLM_call out _ = Answer E_NOTIMPL No_Out"

datatype fenc_method =
    FENC_QI | FENC_AddRef' | FENC_Release' | FENC_GetTypeInfoCount | FENC_GetTypeInfo
  | FENC_GetIDsOfNames | FENC_Invoke | FENC_get_NewEnum | FENC_Next' | FENC_Skip | FENC_Reset'
  | FENC_Clone

definition g_FakeEnumNetworkConnectionsVtable :: "fenc_method option list" where
  "g_FakeEnumNetworkConnectionsVtable = map Some
     [FENC_QI, FENC_AddRef', FENC_Release', FENC_GetTypeInfoCount, FENC_GetTypeInfo,
      FENC_GetIDsOfNames, FENC_Invoke, FENC_get_NewEnum, FENC_Next', FENC_Skip, FENC_Reset', FENC_Clone]"

fun FENC_call :: "bool \<Rightarrow> fenc_method \<Rightarrow> answer" where
  "FENC_call out FENC_QI = By_Object"
| "FENC_call out FENC_AddRef' = By_Object"
| "FENC_call out FENC_Release' = By_Object"
| "FENC_call out FENC_get_NewEnum = Answer E_NOTIMPL (if out then Null_Pointer else No_Out)"
| "FENC_call out FENC_Next' = By_Object"
| "FENC_call out FENC_Skip = Answer S_OK No_Out"
| "FENC_call out FENC_Reset' = By_Object"
| "FENC_call out FENC_Clone = Answer E_NOTIMPL (if out then Null_Pointer else No_Out)"
| "FENC_call out _ = Answer E_NOTIMPL No_Out"

section \<open>INetConnection\<close>

datatype conn_method =
    Conn_QI | Conn_AddRef | Conn_Release | FakeConn_Connect | FakeConn_Disconnect | FakeConn_Delete
  | FakeConn_Duplicate | FakeConn_GetProperties' | FakeConn_GetUiObjectClassId | FakeConn_Rename

definition g_FakeConnectionVtable :: "conn_method option list" where
  "g_FakeConnectionVtable = map Some
     [Conn_QI, Conn_AddRef, Conn_Release, FakeConn_Connect, FakeConn_Disconnect, FakeConn_Delete,
      FakeConn_Duplicate, FakeConn_GetProperties', FakeConn_GetUiObjectClassId, FakeConn_Rename]"

fun FakeConn_call :: "conn_method \<Rightarrow> answer" where
  "FakeConn_call FakeConn_Connect = Answer S_OK No_Out"
| "FakeConn_call FakeConn_Disconnect = Answer S_OK No_Out"
| "FakeConn_call FakeConn_Delete = Answer S_OK No_Out"
| "FakeConn_call FakeConn_Duplicate = Answer E_NOTIMPL No_Out"
| "FakeConn_call FakeConn_GetUiObjectClassId = Answer E_NOTIMPL No_Out"
| "FakeConn_call FakeConn_Rename = Answer S_OK No_Out"
| "FakeConn_call _ = By_Object"

record netcon_properties =
  guidId :: "bytes option"          \<comment> \<open>None: zero, as allocated\<close>
  pszwName :: wstr
  pszwDeviceName :: wstr
  np_Status :: netcon_status
  dwCharacter :: u32

definition NCCF_ALL_USERS :: u32 where "NCCF_ALL_USERS = 0x1"
definition NCCF_ALLOW_RENAME :: u32 where "NCCF_ALLOW_RENAME = 0x8"
definition NCCF_HOMENET_CAPABLE :: u32 where "NCCF_HOMENET_CAPABLE = 0x1000"

text \<open>Three allocations, answered by \<open>a1\<close>, \<open>a2\<close>, \<open>a3\<close>; the last component is the number of blocks
  left allocated.  The media type and the class identifiers are constants.\<close>

definition FakeConn_GetProperties ::
    "net_env \<Rightarrow> bool \<Rightarrow> bool \<Rightarrow> bool \<Rightarrow> bool \<Rightarrow> hresult \<times> netcon_properties option \<times> int" where
  "FakeConn_GetProperties e ppProps a1 a2 a3 =
     (if \<not> ppProps then (E_POINTER, None, 0)
      else if \<not> a1 then (E_OUTOFMEMORY, None, 0)
      else let live = (1 :: int) in
        if \<not> a2 then (let live = live - 1 in (E_OUTOFMEMORY, None, live))
        else let live = live + 1 in
          if \<not> a3 then (let live = live - 1; live = live - 1 in (E_OUTOFMEMORY, None, live))
          else let live = live + 1 in
            (S_OK, Some \<lparr>guidId = radmin_guid e, pszwName = fake_FriendlyName (ne_adapter e),
               pszwDeviceName = str ''Famatech Radmin VPN Ethernet Adapter'', np_Status = NCS_CONNECTED,
               dwCharacter = NCCF_ALL_USERS OR NCCF_ALLOW_RENAME OR NCCF_HOMENET_CAPABLE\<rparr>, live))"

section \<open>Internet connection sharing\<close>

datatype cfg_method =
    Cfg_QI | Cfg_AddRef' | Cfg_Release' | Cfg_GetTypeInfoCount | Cfg_GetTypeInfo
  | Cfg_GetIDsOfNames | Cfg_Invoke | Cfg_get_SharingEnabled | Cfg_get_SharingConnectionType
  | Cfg_DisableSharing | Cfg_EnableSharing | Cfg_get_InternetFirewallEnabled
  | Cfg_DisableInternetFirewall | Cfg_EnableInternetFirewall

definition g_FakeSharingConfigVtable :: "cfg_method option list" where
  "g_FakeSharingConfigVtable = map Some
     [Cfg_QI, Cfg_AddRef', Cfg_Release', Cfg_GetTypeInfoCount, Cfg_GetTypeInfo, Cfg_GetIDsOfNames,
      Cfg_Invoke, Cfg_get_SharingEnabled, Cfg_get_SharingConnectionType, Cfg_DisableSharing,
      Cfg_EnableSharing, Cfg_get_InternetFirewallEnabled, Cfg_DisableInternetFirewall,
      Cfg_EnableInternetFirewall]"

definition ICSSHARINGTYPE_PUBLIC :: u32 where "ICSSHARINGTYPE_PUBLIC = 0"

fun Cfg_call :: "bool \<Rightarrow> cfg_method \<Rightarrow> answer" where
  "Cfg_call out Cfg_QI = By_Object"
| "Cfg_call out Cfg_AddRef' = By_Object"
| "Cfg_call out Cfg_Release' = By_Object"
| "Cfg_call out Cfg_get_SharingEnabled = gives out (Out_Bool False)"
| "Cfg_call out Cfg_get_SharingConnectionType = gives out (Out_Word ICSSHARINGTYPE_PUBLIC)"
| "Cfg_call out Cfg_DisableSharing = Answer S_OK No_Out"
| "Cfg_call out Cfg_EnableSharing = Answer S_OK No_Out"
| "Cfg_call out Cfg_get_InternetFirewallEnabled = gives out (Out_Bool False)"
| "Cfg_call out Cfg_DisableInternetFirewall = Answer S_OK No_Out"
| "Cfg_call out Cfg_EnableInternetFirewall = Answer S_OK No_Out"
| "Cfg_call out _ = Answer E_NOTIMPL No_Out"

datatype sm_method =
    SM_QI | SM_AddRef' | SM_Release' | SM_GetTypeInfoCount | SM_GetTypeInfo | SM_GetIDsOfNames
  | SM_Invoke | SM_get_SharingInstalled | SM_get_EnumPublicConnections
  | SM_get_EnumPrivateConnections | SM_get_INetSharingConfiguration | SM_get_EnumEveryConnection'
  | SM_get_NetConnectionProps | SM_Stub

definition g_FakeSharingManagerVtable :: "sm_method option list" where
  "g_FakeSharingManagerVtable = map Some
     [SM_QI, SM_AddRef', SM_Release', SM_GetTypeInfoCount, SM_GetTypeInfo, SM_GetIDsOfNames,
      SM_Invoke, SM_get_SharingInstalled, SM_get_EnumPublicConnections,
      SM_get_EnumPrivateConnections, SM_get_INetSharingConfiguration, SM_get_EnumEveryConnection',
      SM_get_NetConnectionProps, SM_Stub]"

text \<open>The methods of \<open>IDispatch\<close> go to the real manager.\<close>

fun SM_call :: "bool \<Rightarrow> sm_method \<Rightarrow> answer" where
  "SM_call out SM_GetTypeInfoCount = By_Real"
| "SM_call out SM_GetTypeInfo = By_Real"
| "SM_call out SM_GetIDsOfNames = By_Real"
| "SM_call out SM_Invoke = By_Real"
| "SM_call out SM_get_SharingInstalled = gives out (Out_Bool True)"
| "SM_call out SM_get_EnumPublicConnections = (if out then Answer S_FALSE Null_Pointer else Fault)"
| "SM_call out SM_get_EnumPrivateConnections = (if out then Answer S_FALSE Null_Pointer else Fault)"
| "SM_call out SM_get_NetConnectionProps = Answer E_NOTIMPL No_Out"
| "SM_call out SM_Stub = Answer E_NOTIMPL No_Out"
| "SM_call out _ = By_Object"

section \<open>WMI\<close>

text \<open>The class object: methods with a body, and the stubs of \<open>DEFINE_CLASS_STUB\<close>.\<close>

datatype cls_method =
    Cls_QI | Cls_AddRef | Cls_Release | Cls_Get | Cls_GetNames
  | FakeWbemClass_BeginEnumeration | FakeWbemClass_Next | FakeWbemClass_EndEnumeration
  | Class_Stub string

definition fake_class_vtable :: "cls_method option list" where
  "fake_class_vtable = map Some
     [Cls_QI, Cls_AddRef, Cls_Release, Class_Stub ''GetQualifierSet'', Cls_Get, Class_Stub ''Put'',
      Class_Stub ''Delete'', Cls_GetNames, FakeWbemClass_BeginEnumeration, FakeWbemClass_Next,
      FakeWbemClass_EndEnumeration, Class_Stub ''GetPropertyQualifierSet'', Class_Stub ''Clone'',
      Class_Stub ''GetObjectText'', Class_Stub ''SpawnDerivedClass'', Class_Stub ''SpawnInstance'',
      Class_Stub ''CompareTo'', Class_Stub ''GetPropertyOrigin'', Class_Stub ''InheritsFrom'',
      Class_Stub ''GetMethod'', Class_Stub ''PutMethod'', Class_Stub ''DeleteMethod'',
      Class_Stub ''BeginMethodEnumeration'', Class_Stub ''NextMethod'',
      Class_Stub ''EndMethodEnumeration'', Class_Stub ''GetMethodQualifierSet'',
      Class_Stub ''PutMethodQualifierSet'', Class_Stub ''DeleteMethodQualifierSet''] @ replicate 4 None"

definition WBEM_S_NO_MORE_DATA :: u32 where "WBEM_S_NO_MORE_DATA = 0x40005"

text \<open>\<open>Next\<close> answers \<open>WBEM_S_NO_MORE_DATA\<close>, given here as the word of the result.\<close>

datatype cls_answer = Cls_Answer answer | Cls_Word u32

fun FakeWbemClass_call :: "cls_method \<Rightarrow> cls_answer" where
  "FakeWbemClass_call FakeWbemClass_BeginEnumeration = Cls_Answer (Answer S_OK No_Out)"
| "FakeWbemClass_call FakeWbemClass_Next = Cls_Word WBEM_S_NO_MORE_DATA"
| "FakeWbemClass_call FakeWbemClass_EndEnumeration = Cls_Answer (Answer S_OK No_Out)"
| "FakeWbemClass_call (Class_Stub _) = Cls_Answer (Answer E_NOTIMPL No_Out)"
| "FakeWbemClass_call _ = Cls_Answer By_Object"

text \<open>The services object.\<close>

datatype svcs_method =
    Svcs_QI | Svcs_AddRef | Svcs_Release | Svcs_GetObject | Svcs_CreateInstanceEnum
  | Svcs_ExecQuery | Svcs_ExecMethod | Stub_CancelAsyncCall | Svcs_Stub string

definition g_fakeWbemServicesVtable :: "svcs_method option list" where
  "g_fakeWbemServicesVtable = map Some
     [Svcs_QI, Svcs_AddRef, Svcs_Release, Svcs_Stub ''OpenNamespace'', Stub_CancelAsyncCall,
      Svcs_Stub ''QueryObjectSink'', Svcs_GetObject, Svcs_Stub ''GetObjectAsync'',
      Svcs_Stub ''PutClass'', Svcs_Stub ''PutClassAsync'', Svcs_Stub ''DeleteClass'',
      Svcs_Stub ''DeleteClassAsync'', Svcs_Stub ''CreateClassEnum'', Svcs_Stub ''CreateClassEnumAsync'',
      Svcs_Stub ''PutInstance'', Svcs_Stub ''PutInstanceAsync'', Svcs_Stub ''DeleteInstance'',
      Svcs_Stub ''DeleteInstanceAsync'', Svcs_CreateInstanceEnum, Svcs_Stub ''CreateInstanceEnumAsync'',
      Svcs_ExecQuery, Svcs_Stub ''ExecQueryAsync'', Svcs_Stub ''ExecNotificationQuery'',
      Svcs_Stub ''ExecNotificationQueryAsync'', Svcs_ExecMethod, Svcs_Stub ''ExecMethodAsync'']"

fun FakeSvcs_call :: "svcs_method \<Rightarrow> answer" where
  "FakeSvcs_call Stub_CancelAsyncCall = Answer S_OK No_Out"
| "FakeSvcs_call (Svcs_Stub _) = Answer E_NOTIMPL No_Out"
| "FakeSvcs_call _ = By_Object"

text \<open>The dummy vtable has three entries; all others are null.\<close>

datatype dummy_method = Dummy_QI | Safe_AddRef' | Safe_Release'

definition g_dummyVtable :: "dummy_method option list" where
  "g_dummyVtable = [Some Dummy_QI, Some Safe_AddRef', Some Safe_Release'] @ replicate 29 None"

fun Dummy_call :: "dummy_method \<Rightarrow> answer" where
  "Dummy_call _ = By_Object"

section \<open>What the tables promise\<close>

text \<open>No slot of the documented interfaces is empty.\<close>

lemma tables_complete:
  "None \<notin> set g_FakeNetworkVtable" "None \<notin> set g_FakeNetworkConnectionVtbl"
  "None \<notin> set g_FakeNetworkListManagerVtable" "None \<notin> set g_FakeEnumNetworkConnectionsVtable"
  "None \<notin> set g_FakeConnectionVtable" "None \<notin> set g_FakeSharingConfigVtable"
  "None \<notin> set g_FakeSharingManagerVtable" "None \<notin> set g_fakeWbemServicesVtable"
  by (auto simp: g_FakeNetworkVtable_def g_FakeNetworkConnectionVtbl_def
      g_FakeNetworkListManagerVtable_def g_FakeEnumNetworkConnectionsVtable_def
      g_FakeConnectionVtable_def g_FakeSharingConfigVtable_def g_FakeSharingManagerVtable_def
      g_fakeWbemServicesVtable_def)

lemma slot_call_complete: "None \<notin> set vt \<Longrightarrow> i < length vt \<Longrightarrow> (\<And>m. call m \<noteq> Fault) \<Longrightarrow> slot_call vt call i \<noteq> Fault"
  by (auto simp: slot_call_def in_set_conv_nth split: option.splits)

lemma FN_no_fault: "FN_call e out m \<noteq> Fault" by (cases m) (simp_all add: gives_def)
lemma FNC_no_fault: "FNC_call e out m \<noteq> Fault" by (cases m) (simp_all add: gives_def)

text \<open>The network list manager faults exactly when its caller gives \<open>GetNetworks\<close> or \<open>GetConnectivity\<close>
  a null pointer.\<close>

lemma NLM_fault_iff: "NLM_call out m = Fault \<longleftrightarrow> \<not> out \<and> m \<in> {NLM_GetNetworks, NLM_GetConnectivity}"
  by (cases m) (auto simp: gives_def)

lemma GetProperties_no_leak:
  "FakeConn_GetProperties e out a1 a2 a3 = (hr, None, live) \<Longrightarrow> live = 0"
  "FakeConn_GetProperties e out a1 a2 a3 = (hr, Some p, live) \<Longrightarrow> live = 3 \<and> hr = S_OK"
  by (auto simp: FakeConn_GetProperties_def Let_def split: if_splits)

text \<open>All objects of the network name the same adapter: the GUID of WMI's SettingID.\<close>

definition network_guids :: "net_env \<Rightarrow> answer list" where
  "network_guids e =
     [slot_call g_FakeNetworkVtable (FN_call e True) 11,
      slot_call g_FakeNetworkConnectionVtbl (FNC_call e True) 11,
      slot_call g_FakeNetworkConnectionVtbl (FNC_call e True) 12]"

lemma one_guid_everywhere:
  "set (network_guids e) = {Answer S_OK (Out_Guid (radmin_guid e))}"
  "FakeConn_GetProperties e True True True True = (S_OK, Some p, n) \<Longrightarrow> guidId p = radmin_guid e"
  by (auto simp: network_guids_def slot_call_def g_FakeNetworkVtable_def gives_def
      g_FakeNetworkConnectionVtbl_def FakeConn_GetProperties_def numeral_eq_Suc)

text \<open>The manager and its connection do not agree about the connectivity: 0x50 is the Internet and
  the subnet, and the comment of the source takes 0x10 for the local network.\<close>

lemma connectivity_disagrees:
  "slot_call g_FakeNetworkListManagerVtable (NLM_call True) 13 =
     Answer S_OK (Out_Word (NLM_CONNECTIVITY_IPV4_INTERNET OR NLM_CONNECTIVITY_IPV4_SUBNET))"
  "slot_call g_FakeNetworkConnectionVtbl (FNC_call e True) 10 =
     Answer S_OK (Out_Word (NLM_CONNECTIVITY_IPV4_INTERNET OR NLM_CONNECTIVITY_IPV4_LOCALNETWORK))"
  by (simp_all add: slot_call_def g_FakeNetworkListManagerVtable_def g_FakeNetworkConnectionVtbl_def
      gives_def numeral_eq_Suc NLM_CONNECTIVITY_IPV4_INTERNET_def NLM_CONNECTIVITY_IPV4_SUBNET_def)

text \<open>Disabling the adapter is remembered and never shown: no object of the network reports
  differently.\<close>

lemma FN_call_status: "FN_call (e\<lparr>ne_adapter := ne_adapter e\<lparr>g_FakeConnectionStatus := x\<rparr>\<rparr>) out m = FN_call e out m"
  by (cases m) (simp_all add: radmin_guid_def)

lemma FNC_call_status: "FNC_call (e\<lparr>ne_adapter := ne_adapter e\<lparr>g_FakeConnectionStatus := x\<rparr>\<rparr>) out m = FNC_call e out m"
  by (cases m) (simp_all add: radmin_guid_def)

lemma FakeConn_GetProperties_status:
  "FakeConn_GetProperties (e\<lparr>ne_adapter := ne_adapter e\<lparr>g_FakeConnectionStatus := x\<rparr>\<rparr>) out a1 a2 a3 =
   FakeConn_GetProperties e out a1 a2 a3"
  by (simp add: FakeConn_GetProperties_def radmin_guid_def)

text \<open>Disabling the adapter through WMI reports success and changes nothing a client sees of the
  network.\<close>

theorem disable_not_shown:
  assumes "FakeSvcs_ExecMethod path (Some (str ''Disable'')) (ne_adapter e) = (a, h)"
  shows "h = S_OK \<and> FN_call (e\<lparr>ne_adapter := a\<rparr>) out m = FN_call e out m \<and>
    FNC_call (e\<lparr>ne_adapter := a\<rparr>) out m' = FNC_call e out m' \<and>
    FakeConn_GetProperties (e\<lparr>ne_adapter := a\<rparr>) out' a1 a2 a3 = FakeConn_GetProperties e out' a1 a2 a3"
proof -
  have "h = S_OK \<and> (a = ne_adapter e \<or> (\<exists>x. a = ne_adapter e\<lparr>g_FakeConnectionStatus := x\<rparr>))"
    using assms by (auto simp: FakeSvcs_ExecMethod_def split: if_splits)
  then show ?thesis
    using FN_call_status [where e = e] FNC_call_status [where e = e]
      FakeConn_GetProperties_status [where e = e] by auto
qed

end
