(* ===== verification/Adapter_Tool.thy ===== *)
theory Adapter_Tool
  imports Com_Interfaces
begin

text \<open>
  The tool of src/adapter_info.c, which lists the network connections in three ways, as a client
  of the fake objects: through the sharing manager, through WMI and through the IP helper (here
  the loop that finds the size of its buffer; the printing of the structures is
  \<open>Adapter_Listing\<close>).  The lines it prints are values.  A method call through a null pointer, or on an object whose class
  has no such method, is None.
\<close>

datatype tool_line =
    Connection nat netcon_properties
  | Properties_Failed nat hresult
  | Connection_Skipped nat hresult
  | No_Connections
  | Call_Failed string hresult
  | Wmi_Adapter nat wstr wstr          \<comment> \<open>name, SettingID\<close>
  | Wmi_Failed nat

definition failed :: "hresult \<Rightarrow> bool" where
  "failed hr \<longleftrightarrow> hr \<notin> {S_OK, S_FALSE}"

section \<open>The sharing manager\<close>

text \<open>\<open>INetConnection_GetProperties\<close>: slot 7 of the connection's vtable; \<open>a\<close> are the answers of its
  three allocations.\<close>

definition connection_properties ::
    "net_env \<Rightarrow> bool \<times> bool \<times> bool \<Rightarrow> com \<Rightarrow> oaddr \<Rightarrow> (hresult \<times> netcon_properties option) option" where
  "connection_properties e a s c =
     (case com_get s c of
        Some (FakeNetConnection, _) \<Rightarrow>
          (case FakeConn_GetProperties e True (fst a) (fst (snd a)) (snd (snd a)) of
             (hr, p, _) \<Rightarrow> Some (hr, p))
      | _ \<Rightarrow> None)"

definition as_connection :: "(iid \<Rightarrow> bool) \<Rightarrow> com \<Rightarrow> oaddr \<Rightarrow> oaddr option com_result" where
  "as_connection real_has s p = do {
     (s, hr, c) \<leftarrow> vtable_QueryInterface real_has s p IID_INetConnection;
     if failed hr then vtable_QueryInterface real_has s p IID_INetConnection else Some (s, hr, c) }"

text \<open>One variant of the enumeration; the tool's second identifier of a connection has the value of
  the first.\<close>

definition show_connection ::
    "net_env \<Rightarrow> bool \<times> bool \<times> bool \<Rightarrow> (iid \<Rightarrow> bool) \<Rightarrow> com \<Rightarrow> oaddr \<Rightarrow> nat \<Rightarrow> (com \<times> tool_line) option" where
  "show_connection e a real_has s p n = do {
     (s, hr, pConn) \<leftarrow> as_connection real_has s p;
     (case pConn of
        None \<Rightarrow> Some (s, Connection_Skipped n hr)
      | Some c \<Rightarrow>
          if failed hr then Some (s, Connection_Skipped n hr)
          else do {
            (hr, props) \<leftarrow> connection_properties e a s c;
            (s, _) \<leftarrow> com_Release s c;
            Some (s, case props of Some x \<Rightarrow> Connection n x | None \<Rightarrow> Properties_Failed n hr) }) }"

partial_function (option) sharing_loop ::
    "net_env \<Rightarrow> bool \<times> bool \<times> bool \<Rightarrow> (iid \<Rightarrow> bool) \<Rightarrow> com \<Rightarrow> oaddr \<Rightarrow> nat \<Rightarrow>
     (com \<times> tool_line list \<times> nat) option" where
  "sharing_loop e a real_has s pEnum n = do {
     (s, hr, v) \<leftarrow> VarEnum_Next s pEnum 1;
     if hr \<noteq> S_OK then Some (s, [], n)
     else do {
       p \<leftarrow> v;
       (s, line) \<leftarrow> show_connection e a real_has s p (n + 1);
       (s, _) \<leftarrow> com_Release s p;
       (s, ls, n) \<leftarrow> sharing_loop e a real_has s pEnum (n + 1);
       Some (s, line # ls, n) } }"

definition show_sharing ::
    "net_env \<Rightarrow> bool \<times> bool \<times> bool \<Rightarrow> (iid \<Rightarrow> bool) \<Rightarrow> com \<Rightarrow> oaddr \<Rightarrow> (com \<times> tool_line list) option" where
  "show_sharing e a real_has s u = do {
     (s, hr, en) \<leftarrow> vtable_QueryInterface real_has s u IID_IEnumVARIANT;
     (s, _) \<leftarrow> com_Release s u;
     if failed hr then Some (s, [Call_Failed ''QueryInterface(IEnumVARIANT)'' hr])
     else do {
       pEnum \<leftarrow> en;
       (s, ls, n) \<leftarrow> sharing_loop e a real_has s pEnum 0;
       (s, _) \<leftarrow> com_Release s pEnum;
       Some (s, ls @ (if n = 0 then [No_Connections] else [])) } }"

text \<open>\<open>h\<close> are the answers of the heap for the manager, the connection, the collection and the
  enumerator.\<close>

definition list_sharing ::
    "net_env \<Rightarrow> bool \<times> bool \<times> bool \<Rightarrow> (nat \<Rightarrow> bool) \<Rightarrow> bool \<Rightarrow> (iid \<Rightarrow> bool) \<Rightarrow> com \<Rightarrow>
     (com \<times> tool_line list) option" where
  "list_sharing e a h real_ok real_has s = do {
     (s, hr, nsm) \<leftarrow> Hook_CoCreateInstance (h 0) real_ok CLSID_NetSharingManager IID_INetSharingManager s;
     if failed hr then Some (s, [Call_Failed ''CoCreateInstance(NetSharingManager)'' hr])
     else do {
       pNSM \<leftarrow> nsm;
       (s, hr, coll) \<leftarrow> SM_get_EnumEveryConnection (h 1) (h 2) s;
       (s, _) \<leftarrow> com_Release s pNSM;
       if failed hr then Some (s, [Call_Failed ''get_EnumEveryConnection'' hr])
       else do {
         pColl \<leftarrow> coll;
         (s, hr, u) \<leftarrow> Coll_get__NewEnum (h 3) s pColl;
         (s, _) \<leftarrow> com_Release s pColl;
         if failed hr then Some (s, [Call_Failed ''get__NewEnum'' hr])
         else do { pEnumUnk \<leftarrow> u; show_sharing e a real_has s pEnumUnk } } } }"

section \<open>WMI\<close>

type_synonym tool_state = "com \<times> identity \<times> net"

definition show_adapter ::
    "wmi_env \<Rightarrow> fake_adapter \<Rightarrow> tool_state \<Rightarrow> oaddr \<Rightarrow> nat \<Rightarrow> (tool_state \<times> tool_line) option" where
  "show_adapter e a s p idx =
     (case s of (c, i, n) \<Rightarrow>
        (case com_get c p of
           Some (FakeNetAdapterObject guid, _) \<Rightarrow> do {
             (i, n, hr, v) \<leftarrow> FakeNetAdapter_Get e a guid (str ''SettingID'') i n;
             (case v of
                VT_BSTR setting \<Rightarrow> do {
                  (i, n, hrName, vName) \<leftarrow> FakeNetAdapter_Get e a guid (str ''Name'') i n;
                  Some ((c, i, n), Wmi_Adapter idx
                    (case vName of VT_BSTR x \<Rightarrow> x | _ \<Rightarrow> str ''(unknown)'') setting) }
              | _ \<Rightarrow> Some ((c, i, n), Wmi_Failed idx)) }
         | _ \<Rightarrow> None))"

partial_function (option) wmi_loop ::
    "wmi_env \<Rightarrow> fake_adapter \<Rightarrow> tool_state \<Rightarrow> oaddr \<Rightarrow> nat \<Rightarrow> (tool_state \<times> tool_line list) option" where
  "wmi_loop e a s pEnum idx = do {
     (c, hr, ob) \<leftarrow> FakeEnumWbem_Next (fst s) pEnum 1;
     let s = (c, snd s);
     if hr \<noteq> S_OK then Some (s, [])
     else do {
       p \<leftarrow> ob;
       (s, line) \<leftarrow> show_adapter e a s p (idx + 1);
       (c, _) \<leftarrow> com_Release (fst s) p;
       (s, ls) \<leftarrow> wmi_loop e a (c, snd s) pEnum (idx + 1);
       Some (s, line # ls) } }"

definition wmi_query_text :: wstr where
  "wmi_query_text = str ''SELECT * FROM Win32_NetworkAdapter''"

text \<open>The vtable of the locator has no \<open>ConnectServer\<close> but the one of the hook.\<close>

definition list_wmi ::
    "wmi_env \<Rightarrow> fake_adapter \<Rightarrow> (nat \<Rightarrow> bool) \<Rightarrow> bool \<Rightarrow> tool_state \<Rightarrow> (tool_state \<times> tool_line list) option" where
  "list_wmi e a h real_ok s =
     (case s of (c, i, n) \<Rightarrow> do {
        (c, hr, loc) \<leftarrow> Hook_CoCreateInstance (h 0) real_ok CLSID_WbemLocator IID_IWbemLocator c;
        if failed hr then Some ((c, i, n), [Call_Failed ''CoCreateInstance(WbemLocator)'' hr])
        else do {
          pLocator \<leftarrow> loc;
          (c, hr, svc) \<leftarrow> Hook_IWbemLocator_ConnectServer (h 1) c;
          (c, _) \<leftarrow> com_Release c pLocator;
          (case svc of
             None \<Rightarrow> Some ((c, i, n), [Call_Failed ''IWbemLocator::ConnectServer'' hr])
           | Some pSvc \<Rightarrow> do {
               (c, hr, en) \<leftarrow> FakeSvcs_ExecQuery (h 2) (h 3) i c (Some wmi_query_text);
               (s, ls) \<leftarrow>
                 (case en of
                    None \<Rightarrow> Some ((c, i, n), [Call_Failed ''WMI ExecQuery'' hr])
                  | Some pEnum \<Rightarrow> do {
                      (s, ls) \<leftarrow> wmi_loop e a (c, i, n) pEnum 0;
                      (c, _) \<leftarrow> com_Release (fst s) pEnum;
                      Some ((c, snd s), ls) });
               (c, _) \<leftarrow> com_Release (fst s) pSvc;
               Some ((c, snd s), ls) }) } })"

section \<open>The size of the buffer\<close>

text \<open>\<open>api\<close> answers a buffer of some size by a status and the new value of the size; the result is
  the status, the size of the buffer kept, and the number of buffers still allocated.\<close>

fun address_attempts ::
    "(nat \<Rightarrow> bool) \<Rightarrow> (nat \<Rightarrow> u32 \<times> nat) \<Rightarrow> nat \<Rightarrow> nat \<Rightarrow> u32 \<Rightarrow> u32 \<times> nat option \<times> nat" where
  "address_attempts malloc api 0 size' ret' = (ret', None, 0)"
| "address_attempts malloc api (Suc k) size' ret' =
     (if \<not> malloc size' then (ret', None, 0)
      else (case api size' of (st, size2) \<Rightarrow>
        if st = 111 then address_attempts malloc api k size2 st
        else (st, Some size', 1)))"

definition list_addresses :: "(nat \<Rightarrow> bool) \<Rightarrow> (nat \<Rightarrow> u32 \<times> nat) \<Rightarrow> u32 \<times> nat option \<times> nat" where
  "list_addresses malloc api = address_attempts malloc api 3 15000 0"

text \<open>A buffer is left exactly when one is returned, and it is one the function accepted.\<close>

lemma address_attempts_buffer:
  "address_attempts malloc api k n r = (st, b, live) \<Longrightarrow>
   (case b of None \<Rightarrow> live = 0 | Some m \<Rightarrow> live = 1 \<and> malloc m \<and> fst (api m) = st \<and> st \<noteq> 111)"
  by (induction k arbitrary: n r) (auto split: if_splits prod.splits)

text \<open>A function that keeps to its contract, to accept the size it asked for, is called at most
  twice.\<close>

lemma address_attempts_contract:
  assumes "api n = (111, need)" "api need = (0, need)" "malloc n" "malloc need"
  shows "address_attempts malloc api (Suc (Suc k)) n r = (0, Some need, 1)"
  using assms by simp

section \<open>The program\<close>

text \<open>\<open>com_ok\<close>: \<open>CoInitializeEx\<close> succeeded.  \<open>h1\<close> and \<open>h2\<close> are the answers of the heap to the two parts.\<close>

definition adapter_tool ::
    "wmi_env \<Rightarrow> net_env \<Rightarrow> bool \<times> bool \<times> bool \<Rightarrow> (nat \<Rightarrow> bool) \<Rightarrow> (nat \<Rightarrow> bool) \<Rightarrow> bool \<Rightarrow> (iid \<Rightarrow> bool) \<Rightarrow>
     (nat \<Rightarrow> bool) \<Rightarrow> (nat \<Rightarrow> u32 \<times> nat) \<Rightarrow> bool \<Rightarrow> com \<times> net \<Rightarrow>
     (tool_state \<times> tool_line list \<times> u32 \<times> nat option \<times> nat) option" where
  "adapter_tool we e a h1 h2 real_ok real_has malloc api com_ok s =
     (case s of (c, n) \<Rightarrow> do {
        (c, ls1) \<leftarrow> (if com_ok then list_sharing e a h1 real_ok real_has c else Some (c, []));
        (s, ls2) \<leftarrow> (if com_ok then list_wmi we (ne_adapter e) h2 real_ok (c, ne_identity e, n)
                     else Some ((c, ne_identity e, n), []));
        Some (s, ls1 @ ls2, list_addresses malloc api) })"

section \<open>The tool and the emulation\<close>

lemma query_text:
  "contains wmi_query_text (str ''Win32_NetworkAdapter'')" "ExtractGuidFromQuery (Some wmi_query_text) = None"
  by (simp_all add: wmi_query_text_def contains_def ExtractGuidFromQuery_def between_def)

definition no_answer :: "iid \<Rightarrow> bool" where "no_answer i = False"

lemma com_cells:
  "com_get \<lparr>cells = cs, g_FakeRadminConnection = g\<rparr> a = (if a < length cs then cs ! a else None)"
  "com_put \<lparr>cells = cs, g_FakeRadminConnection = g\<rparr> a c = \<lparr>cells = cs[a := c], g_FakeRadminConnection = g\<rparr>"
  "com_alloc \<lparr>cells = cs, g_FakeRadminConnection = g\<rparr> k =
    (\<lparr>cells = cs @ [Some (k, 1)], g_FakeRadminConnection = g\<rparr>, length cs)"
  by (simp_all add: com_get_def com_put_def com_alloc_def)

lemmas com_run = com_cells com_AddRef_def com_Release_def numeral_eq_Suc counted_Release_def Let_def
  release_defs Safe_Release_def

text \<open>The sharing part lists the Radmin connection, with the GUID and the name of the fake adapter,
  and leaves the connection with its one global reference and the real manager, which the fake
  one has taken a second reference of, alive.\<close>

lemma list_sharing_run:
  "list_sharing e (True, True, True) (\<lambda>_. True) True no_answer com_initial =
     Some (\<lparr>cells = [Some (RealObject, 1), None, Some (FakeNetConnection, 1), None, None],
        g_FakeRadminConnection = Some 2\<rparr>,
       [Connection 1 \<lparr>guidId = radmin_guid e, pszwName = fake_FriendlyName (ne_adapter e),
          pszwDeviceName = str ''Famatech Radmin VPN Ethernet Adapter'', np_Status = NCS_CONNECTED,
          dwCharacter = NCCF_ALL_USERS OR NCCF_ALLOW_RENAME OR NCCF_HOMENET_CAPABLE\<rparr>])"
proof -
  let ?S = "\<lambda>r n. \<lparr>cells = [Some (RealObject, 1), None, Some (FakeNetConnection, n), None,
      Some (FakeVarEnumerator 2 r, 1)], g_FakeRadminConnection = Some 2\<rparr>"
  have stop: "sharing_loop e (True, True, True) no_answer (?S True 2) 4 n = Some (?S True 2, [], n)" for n
    by (subst sharing_loop.simps) (simp add: VarEnum_Next_def fetch_once_def com_cells)
  have "show_connection e (True, True, True) no_answer (?S True 3) 2 1 = Some (?S True 3,
      Connection 1 (the (fst (snd (FakeConn_GetProperties e True True True True)))))"
    by (simp add: show_connection_def as_connection_def vtable_QueryInterface_def com_run
        FakeConn_QueryInterface_def qi_self_def failed_def connection_properties_def
        FakeConn_GetProperties_def)
  then have loop: "sharing_loop e (True, True, True) no_answer (?S False 2) 4 0 = Some (?S True 2,
      [Connection 1 (the (fst (snd (FakeConn_GetProperties e True True True True))))], 1)"
    using stop by (subst sharing_loop.simps) (simp add: VarEnum_Next_def fetch_once_def com_run)
  show ?thesis
    using loop
    by (simp add: list_sharing_def Hook_CoCreateInstance_def create_leaf_def com_initial_def com_run
        CreateFakeNetSharingManager_def create_holder_def failed_def SM_get_EnumEveryConnection_def
        GetOrCreateFakeRadminConnection_def CreateFakeNetConnection_def CreateConnectionCollection_def
        made_def Coll_get__NewEnum_def CreateVarEnumerator_def show_sharing_def
        vtable_QueryInterface_def VarEnum_QueryInterface_def qi_self_def FakeConn_GetProperties_def)
qed

text \<open>The WMI part lists one adapter; the locator and the adapter object have an immortal \<open>Release\<close>
  and stay.\<close>

lemma list_wmi_run:
  fixes cs :: "com_cell option list" and g :: "oaddr option"
  defines "n0 \<equiv> length cs"
  shows "list_wmi we a (\<lambda>_. True) True (\<lparr>cells = cs, g_FakeRadminConnection = g\<rparr>, i, n) =
     Some ((\<lparr>cells = cs @ [Some (FakeWbemLocator, 1), None, Some (FakeNetAdapterObject (fake_settingID i), 1), None],
        g_FakeRadminConnection = g\<rparr>, i, n), [Wmi_Adapter 1 (fake_FriendlyName a) (fake_settingID i)])"
proof -
  let ?o = "FakeNetAdapterObject (fake_settingID i)"
  let ?S = "\<lambda>m r. \<lparr>cells = cs @ [Some (FakeWbemLocator, 1), Some (FakeWbemServices, 1), Some (?o, m),
      Some (FakeEnumWbemClassObject (n0 + 2) r, 1)], g_FakeRadminConnection = g\<rparr>"
  have app: "(cs @ xs) ! (n0 + k) = xs ! k" "(cs @ xs)[n0 + k := y] = cs @ xs[k := y]" for xs y k
    by (simp_all add: n0_def nth_append list_update_append)
  have app0: "(cs @ xs) ! n0 = xs ! 0" "(cs @ xs)[n0 := y] = cs @ xs[0 := y]" for xs y
    using app [of xs 0] by simp_all
  have app1: "(cs @ xs) ! Suc n0 = xs ! 1" "(cs @ xs)[Suc n0 := y] = cs @ xs[1 := y]" for xs y
    using app [of xs 1] by simp_all
  have app2: "(cs @ xs) ! Suc (Suc n0) = xs ! 2" "(cs @ xs)[Suc (Suc n0) := y] = cs @ xs[2 := y]" for xs y
    using app [of xs 2] by simp_all
  have app3: "(cs @ xs) ! Suc (Suc (Suc n0)) = xs ! 3" "(cs @ xs)[Suc (Suc (Suc n0)) := y] = cs @ xs[3 := y]" for xs y
    using app [of xs 3] by (simp_all add: numeral_eq_Suc)
  note run = com_run app app0 app1 app2 app3
  have stop: "wmi_loop we a (?S m True, i, n) (n0 + 3) k = Some ((?S m True, i, n), [])" for k m
    by (subst wmi_loop.simps) (simp add: FakeEnumWbem_Next_def fetch_once_def run n0_def [symmetric])
  have "show_adapter we a (?S m True, i, n) (n0 + 2) 1 =
      Some ((?S m True, i, n), Wmi_Adapter 1 (fake_FriendlyName a) (fake_settingID i))" for m
    by (simp add: show_adapter_def com_cells app2 FakeNetAdapter_Get_def n0_def [symmetric])
  then have loop: "wmi_loop we a (?S 1 False, i, n) (n0 + 3) 0 =
      Some ((?S 1 True, i, n), [Wmi_Adapter 1 (fake_FriendlyName a) (fake_settingID i)])"
    using stop by (subst wmi_loop.simps)
      (simp add: FakeEnumWbem_Next_def fetch_once_def run n0_def [symmetric])
  show ?thesis
    using loop query_text
    by (simp add: list_wmi_def Hook_CoCreateInstance_def create_leaf_def run failed_def n0_def [symmetric]
        Hook_IWbemLocator_ConnectServer_def made_def FakeSvcs_ExecQuery_def wmi_enum_def
        CreateFakeNetAdapterObject_def CreateFakeEnumWbemClassObject_def create_holder_def)
qed

definition radmin_properties :: "net_env \<Rightarrow> netcon_properties" where
  "radmin_properties e = \<lparr>guidId = radmin_guid e, pszwName = fake_FriendlyName (ne_adapter e),
     pszwDeviceName = str ''Famatech Radmin VPN Ethernet Adapter'', np_Status = NCS_CONNECTED,
     dwCharacter = NCCF_ALL_USERS OR NCCF_ALLOW_RENAME OR NCCF_HOMENET_CAPABLE\<rparr>"


text \<open>Where the heap refuses the connection but not the collection, the first list is not printed
  but ends in a call through a null pointer.\<close>

lemma sharing_fault:
  "h 0 \<Longrightarrow> \<not> h 1 \<Longrightarrow> h 2 \<Longrightarrow> list_sharing e a h True real_has com_initial = None"
  by (simp add: list_sharing_def Hook_CoCreateInstance_def create_leaf_def com_initial_def com_cells
      CreateFakeNetSharingManager_def create_holder_def com_AddRef_def failed_def Let_def
      SM_get_EnumEveryConnection_def GetOrCreateFakeRadminConnection_def CreateFakeNetConnection_def)

end
