(* ===== verification/Device_Proxy.thy ===== *)
theory Device_Proxy
  imports Driver_Hooks
begin

text \<open>
  The other mode of the device hooks, src/proxy_real.c: every operation on a fake handle goes to
  the real driver behind it and is logged.  The handle list and the memory of the caller are
  those of \<open>Driver_Hooks\<close>; the functions of the real driver are parameters that may change the
  caller's memory.  The text of the log is not modelled, the reads it makes are.  The build of
  the repository does not select this mode (USE_REAL_AND_PROXY is 0).  None is a memory access
  outside its object or through a null pointer.
\<close>

record real_device =
  rd_CreateFile :: "wstr option \<Rightarrow> driver \<Rightarrow> driver \<times> u32"
  rd_CloseHandle :: "u32 \<Rightarrow> driver \<Rightarrow> driver \<times> bool"
  rd_ReadFile :: "u32 \<Rightarrow> u32 \<Rightarrow> u32 \<Rightarrow> u32 \<Rightarrow> driver \<Rightarrow> driver \<times> bool \<times> u32"
  rd_WriteFile :: "u32 \<Rightarrow> bytes option \<Rightarrow> u32 \<Rightarrow> u32 \<Rightarrow> driver \<Rightarrow> driver \<times> bool \<times> u32"
  rd_DeviceIoControl :: "u32 \<Rightarrow> u32 \<Rightarrow> bytes option \<Rightarrow> u32 \<Rightarrow> u32 \<Rightarrow> driver \<Rightarrow> driver \<times> bool \<times> u32 \<times> bytes option"
  rd_GetOverlappedResult :: "u32 \<Rightarrow> u32 \<Rightarrow> bool \<Rightarrow> driver \<Rightarrow> driver \<times> bool \<times> u32"

text \<open>\<open>pending_buffer\<close> and \<open>pending_buflen\<close> of a context, by handle; 0 is the null pointer.\<close>

record proxy_dev =
  px_dev :: driver
  px_pending :: "u32 \<Rightarrow> u32 \<times> u32"

definition pending_buffer :: "proxy_dev \<Rightarrow> u32 \<Rightarrow> u32" where
  "pending_buffer s hd' = fst (px_pending s hd')"

definition set_pending :: "u32 \<Rightarrow> u32 \<times> u32 \<Rightarrow> proxy_dev \<Rightarrow> proxy_dev" where
  "set_pending hd' v s = s\<lparr>px_pending := (px_pending s)(hd' := v)\<rparr>"

definition log_reads :: "driver \<Rightarrow> bytes option \<Rightarrow> u32 \<Rightarrow> unit option" where
  "log_reads d dat len =
     (if \<not> g_LoggingEnabled (logger d) then Some ()
      else case dat of
        None \<Rightarrow> Some ()
      | Some b \<Rightarrow> if len = 0 then Some () else do { _ \<leftarrow> hex_loop (unat len) 0 b; Some () })"

section \<open>The hooks\<close>

definition px_CreateFileW :: "dev_env \<Rightarrow> real_device \<Rightarrow> wstr option \<Rightarrow> proxy_dev \<Rightarrow> proxy_dev \<times> u32" where
  "px_CreateFileW env rd lpFileName s =
     (if lpFileName = Some DEVICE_NAME then
        (case AddFakeHandle env (px_dev s) of
           (d, None) \<Rightarrow> (s\<lparr>px_dev := SetLastError ERROR_OUTOFMEMORY d\<rparr>, INVALID_HANDLE_VALUE)
         | (d, Some hd') \<Rightarrow>
             (case rd_CreateFile rd lpFileName d of
                (d, real) \<Rightarrow>
                  if real = INVALID_HANDLE_VALUE
                  then (s\<lparr>px_dev := fst (RemoveFakeHandle hd' d)\<rparr>, INVALID_HANDLE_VALUE)
                  else (set_pending hd' (0, 0)
                          (s\<lparr>px_dev := with_ctx hd' (\<lambda>c. c\<lparr>real_handle := real\<rparr>) d\<rparr>), hd')))
      else (case rd_CreateFile rd lpFileName (px_dev s) of (d, r) \<Rightarrow> (s\<lparr>px_dev := d\<rparr>, r)))"

text \<open>\<open>RemoveFakeHandle\<close> closes the real handle of the context.\<close>

definition px_CloseHandle :: "real_device \<Rightarrow> u32 \<Rightarrow> proxy_dev \<Rightarrow> proxy_dev \<times> bool" where
  "px_CloseHandle rd hObject s =
     (case GetHandleContext (px_dev s) hObject of
        None \<Rightarrow> (case rd_CloseHandle rd hObject (px_dev s) of (d, r) \<Rightarrow> (s\<lparr>px_dev := d\<rparr>, r))
      | Some c \<Rightarrow>
          (case RemoveFakeHandle hObject (px_dev s) of
             (d, None) \<Rightarrow> (s\<lparr>px_dev := d\<rparr>, True)
           | (d, Some real) \<Rightarrow> (s\<lparr>px_dev := fst (rd_CloseHandle rd real d)\<rparr>, True)))"

text \<open>The log of a read shows at most 256 bytes of the buffer.\<close>

definition px_ReadFile ::
    "real_device \<Rightarrow> u32 \<Rightarrow> u32 \<Rightarrow> u32 \<Rightarrow> bool \<Rightarrow> u32 \<Rightarrow> proxy_dev \<Rightarrow> (proxy_dev \<times> io_result) option" where
  "px_ReadFile rd hFile lpBuffer n want lpOverlapped s =
     (case GetHandleContext (px_dev s) hFile of
        None \<Rightarrow> (case rd_ReadFile rd hFile lpBuffer n lpOverlapped (px_dev s) of
           (d, ok, k) \<Rightarrow> Some (s\<lparr>px_dev := d\<rparr>, io ok (opt_out want k)))
      | Some c \<Rightarrow> (case rd_ReadFile rd (real_handle c) lpBuffer n lpOverlapped (px_dev s) of
           (d, ok, k) \<Rightarrow>
             (let s = s\<lparr>px_dev := d\<rparr>; r = io ok (opt_out want k) in
              if lpOverlapped \<noteq> 0 \<and> \<not> ok \<and> last_error d = ERROR_IO_PENDING
              then Some (set_pending hFile (lpBuffer, n) s, r)
              else if ok \<and> want \<and> k \<noteq> 0 then do {
                b \<leftarrow> ubufs d lpBuffer;
                _ \<leftarrow> mem_read b 0 (unat (min k 256));
                Some (s, r) }
              else Some (s, r))))"

definition px_WriteFile ::
    "real_device \<Rightarrow> u32 \<Rightarrow> bytes option \<Rightarrow> u32 \<Rightarrow> bool \<Rightarrow> u32 \<Rightarrow> proxy_dev \<Rightarrow> (proxy_dev \<times> io_result) option" where
  "px_WriteFile rd hFile ubuf n want lpOverlapped s =
     (let forward = (\<lambda>hd'. case rd_WriteFile rd hd' ubuf n lpOverlapped (px_dev s) of
            (d, ok, k) \<Rightarrow> Some (s\<lparr>px_dev := d\<rparr>, io ok (opt_out want k))) in
      case GetHandleContext (px_dev s) hFile of
        None \<Rightarrow> forward hFile
      | Some c \<Rightarrow> do { _ \<leftarrow> log_reads (px_dev s) ubuf (min n 256); forward (real_handle c) })"

text \<open>\<open>ctx->real_handle\<close> is read without the test of \<open>ctx\<close>.\<close>

definition px_DeviceIoControl ::
    "real_device \<Rightarrow> u32 \<Rightarrow> u32 \<Rightarrow> bytes option \<Rightarrow> u32 \<Rightarrow> u32 \<Rightarrow> bool \<Rightarrow> proxy_dev \<Rightarrow>
     (proxy_dev \<times> io_result \<times> bytes option) option" where
  "px_DeviceIoControl rd hDevice code inb nIn nOut want s = do {
     c \<leftarrow> GetHandleContext (px_dev s) hDevice;
     _ \<leftarrow> (if nIn > 0 then log_reads (px_dev s) inb (min nIn 256) else Some ());
     (case rd_DeviceIoControl rd (real_handle c) code inb nIn nOut (px_dev s) of
        (d, ok, k, outb) \<Rightarrow> do {
          _ \<leftarrow> (if ok \<and> want \<and> k > 0 then log_reads d outb (min k 256) else Some ());
          Some (s\<lparr>px_dev := d\<rparr>, io ok (opt_out want k), outb) }) }"

text \<open>The first four bytes of the buffer say whether it is a status message.\<close>

definition is_status :: "proxy_dev \<Rightarrow> u32 \<Rightarrow> u32 \<Rightarrow> bool option" where
  "is_status s hFile n =
     (if 4 \<le> n \<and> pending_buffer s hFile \<noteq> 0 then do {
        b \<leftarrow> ubufs (px_dev s) (pending_buffer s hFile);
        w \<leftarrow> mem_read b 0 4;
        Some (w \<noteq> [0, 0, 0, 0]) }
      else Some False)"

definition ResetEvent :: "u32 \<Rightarrow> driver \<Rightarrow> driver" where
  "ResetEvent e d = d\<lparr>signalled := filter (\<lambda>x. x \<noteq> e) (signalled d)\<rparr>"

definition px_GetOverlappedResult ::
    "dev_env \<Rightarrow> real_device \<Rightarrow> u32 \<Rightarrow> u32 \<Rightarrow> bool \<Rightarrow> bool \<Rightarrow> proxy_dev \<Rightarrow> (proxy_dev \<times> io_result) option" where
  "px_GetOverlappedResult env rd hFile lpOverlapped want bWait s =
     (let forward = (\<lambda>hd'. case rd_GetOverlappedResult rd hd' lpOverlapped bWait (px_dev s) of
            (d, ok, k) \<Rightarrow> (s\<lparr>px_dev := d\<rparr>, ok, k)) in
      case GetHandleContext (px_dev s) hFile of
        None \<Rightarrow> (case forward hFile of (s, ok, k) \<Rightarrow> Some (s, io ok (opt_out want k)))
      | Some c \<Rightarrow>
          if real_handle c = 0 then (case forward hFile of (s, ok, k) \<Rightarrow> Some (s, io ok (opt_out want k)))
          else (case forward (real_handle c) of (s, ok, k) \<Rightarrow>
            if ok \<and> want then do {
              status \<leftarrow> is_status s hFile k;
              let buf = ubufs (px_dev s) (pending_buffer s hFile);
              if status then do {
                _ \<leftarrow> log_reads (px_dev s) buf (min k 64);
                o1 \<leftarrow> deref_ov (px_dev s) lpOverlapped;
                let d = (px_dev s)\<lparr>ovs := (ovs (px_dev s))(lpOverlapped \<mapsto>
                  o1\<lparr>Internal := STATUS_PENDING, InternalHigh := 0\<rparr>)\<rparr>;
                Some (s\<lparr>px_dev := (if hEvent o1 \<noteq> 0 then ResetEvent (hEvent o1) d else d)\<rparr>,
                  io False (opt_out want k)) }
              else if pending_buffer s hFile = 0 then Some (s, io True (opt_out want k))
              else do {
                _ \<leftarrow> log_reads (px_dev s) buf k;
                _ \<leftarrow> (if e_heap env (k + 1) then do { b \<leftarrow> buf; _ \<leftarrow> mem_read b 0 (unat k); Some () } else Some ());
                Some (set_pending hFile (0, snd (px_pending s hFile)) s, io True (opt_out want k)) } }
            else Some (s, io ok (opt_out want k))))"

section \<open>Handles\<close>

lemma find_upd_ctx: "find_ctx (upd_ctx hd' f cs) hd' = map_option f (find_ctx cs hd')"
  if "\<And>c. h (f c) = h c"
  using that by (induction cs) auto

lemma unlink_upd_ctx: "unlink_ctx hd' (upd_ctx hd' f cs) =
    (fst (unlink_ctx hd' cs), map_option f (snd (unlink_ctx hd' cs)))"
  if "\<And>c. h (f c) = h c"
  using that by (induction cs) (auto simp: Let_def split: prod.splits)

text \<open>Opening the device and closing it again leaves the list of handles as it was and closes the
  handle of the real driver.\<close>

theorem px_open_close:
  assumes "px_CreateFileW env rd (Some DEVICE_NAME) s = (s', hd')" "hd' \<noteq> INVALID_HANDLE_VALUE"
    and "\<And>d. g_HandleList (fst (rd_CreateFile rd (Some DEVICE_NAME) d)) = g_HandleList d"
    and "snd (rd_CreateFile rd (Some DEVICE_NAME) d1) \<noteq> 0" "d1 = fst (AddFakeHandle env (px_dev s))"
  shows "\<exists>d2. px_CloseHandle rd hd' s' =
      (s'\<lparr>px_dev := fst (rd_CloseHandle rd (snd (rd_CreateFile rd (Some DEVICE_NAME) d1)) d2)\<rparr>, True) \<and>
    g_HandleList d2 = g_HandleList (px_dev s)"
proof -
  obtain d real where c: "rd_CreateFile rd (Some DEVICE_NAME) d1 = (d, real)" by fastforce
  have a: "AddFakeHandle env (px_dev s) = (d1, Some hd')" and r: "real \<noteq> INVALID_HANDLE_VALUE"
    and s': "s' = set_pending hd' (0, 0) (s\<lparr>px_dev := with_ctx hd' (\<lambda>c. c\<lparr>real_handle := real\<rparr>) d\<rparr>)"
    using assms(1,2,5) c by (auto simp: px_CreateFileW_def split: prod.splits option.splits if_splits)
  have l: "g_HandleList d1 = new_ctx hd' # g_HandleList (px_dev s)"
    using a by (auto simp: AddFakeHandle_def Let_def split: if_splits)
  have "g_HandleList d = g_HandleList d1" using assms(3) [of d1] c by simp
  then have g: "g_HandleList (px_dev s') = (new_ctx hd')\<lparr>real_handle := real\<rparr> # g_HandleList (px_dev s)"
    using l s' by (simp add: set_pending_def with_ctx_def new_ctx_def)
  let ?d2 = "(px_dev s')\<lparr>g_HandleList := g_HandleList (px_dev s)\<rparr>"
  have "RemoveFakeHandle hd' (px_dev s') = (?d2, Some real)"
    using g r assms(4) c by (simp add: RemoveFakeHandle_def new_ctx_def Let_def)
  moreover have "GetHandleContext (px_dev s') hd' \<noteq> None"
    using g by (simp add: GetHandleContext_def new_ctx_def)
  ultimately show ?thesis
    using c by (intro exI [of _ ?d2]) (auto simp: px_CloseHandle_def)
qed

section \<open>What goes wrong\<close>

text \<open>\<open>DeviceIoControl\<close> on any handle that is not the device, which the other hooks pass on, is an
  access through a null pointer.\<close>

theorem px_ioctl_faults:
  "GetHandleContext (px_dev s) hDevice = None \<Longrightarrow> px_DeviceIoControl rd hDevice code inb nIn nOut want s = None"
  by (simp add: px_DeviceIoControl_def)

text \<open>A context remembers one buffer only: with two reads pending, the completion of the first is
  judged by the buffer of the second.  If that begins with anything but zeros, the frame of the
  first is reported as not there.\<close>

theorem px_judges_wrong_buffer:
  assumes "GetHandleContext (px_dev s) hFile = Some c" "real_handle c \<noteq> 0"
    and "rd_GetOverlappedResult rd (real_handle c) ov1 wait (px_dev s) = (d, True, n)" "4 \<le> n"
    and "px_pending s hFile = (b2, len2)" "b2 \<noteq> 0"
    and "ubufs d b2 = Some stale" "4 \<le> length stale" "take 4 stale \<noteq> [0, 0, 0, 0]"
    and "ov1 \<noteq> 0" "ovs d ov1 = Some o1" "\<not> g_LoggingEnabled (logger d)"
  shows "\<exists>s'. px_GetOverlappedResult env rd hFile ov1 True wait s = Some (s', io False (Some n))"
  using assms
  by (simp add: px_GetOverlappedResult_def is_status_def pending_buffer_def mem_read_def
      log_reads_def deref_ov_def opt_out_def Let_def)

end
