(* ===== verification/Small_Stand_Ins.thy ===== *)
theory Small_Stand_Ins
  imports Forwarders
begin

text \<open>
  The small libraries that stand in for a system library: the stubs of netshell.dll
  (src/netshell_inject.c) and fwpuclnt.dll (src/fwpuclnt_proxy.c), which answer constants, and the
  logging forwarders of the registry functions (src/register_proxy.c).  The log of netshell.dll is
  in \<open>Log_Opening\<close>.
\<close>

section \<open>netshell.dll\<close>

datatype netshell_export =
    DllCanUnloadNow | DllGetClassObject | DllRegisterServer | DllUnregisterServer
  | HrCreateDesktopIcon | HrGetIconFromMediaType | HrGetIconFromMediaTypeEx | HrLaunchConnection
  | HrLaunchConnectionEx | HrLaunchPropertiesSheet | HrRenameConnection | NcFreeNetconProperties
  | NcIsValidConnectionName | StartNCW

definition CLASS_E_CLASSNOTAVAILABLE :: u32 where "CLASS_E_CLASSNOTAVAILABLE = 0x80040111"
definition NS_E_NOTIMPL :: u32 where "NS_E_NOTIMPL = 0x80004001"

text \<open>The return value and the word written through the output pointer, if one was given.\<close>

fun netshell_call :: "netshell_export \<Rightarrow> bool \<Rightarrow> u32 \<times> u32 option" where
  "netshell_call DllGetClassObject out = (CLASS_E_CLASSNOTAVAILABLE, if out then Some 0 else None)"
| "netshell_call HrGetIconFromMediaType out = (NS_E_NOTIMPL, if out then Some 0 else None)"
| "netshell_call HrGetIconFromMediaTypeEx out = (NS_E_NOTIMPL, if out then Some 0 else None)"
| "netshell_call NcIsValidConnectionName out = (1, None)"
| "netshell_call _ out = (0, None)"

text \<open>\<open>FwpmEngineOpen0\<close> always fails, with a null handle.\<close>

definition FwpmEngineOpen0 :: "bool \<Rightarrow> u32 \<times> u32 option" where
  "FwpmEngineOpen0 out = (0x80070032, if out then Some 0 else None)"

text \<open>No output pointer is left unwritten where the caller is told of a failure.\<close>

lemma stubs_clear_their_output:
  "bit (fst (netshell_call x True)) 31 \<Longrightarrow> snd (netshell_call x True) = Some 0"
  "snd (FwpmEngineOpen0 True) = Some 0"
  by (cases x) (simp_all add: FwpmEngineOpen0_def)

section \<open>The registry functions\<close>

definition registry_names :: "string list" where
  "registry_names = [''RegOpenKeyW'', ''RegOpenKeyExW'', ''RegQueryValueExW'', ''RegCloseKey'',
     ''RegCreateKeyExW'', ''RegSetValueExW'', ''RegDeleteValueW'', ''RegNotifyChangeKeyValue'']"

text \<open>The eight pointers, as a function from names; advapi32 is None when it is not loaded.\<close>

definition InitRealRegistryHooks :: "exports option \<Rightarrow> exports \<Rightarrow> exports" where
  "InitRealRegistryHooks hAdvapi32 pReal =
     (case hAdvapi32 of
        None \<Rightarrow> pReal
      | Some gpa \<Rightarrow> (\<lambda>fn. if fn \<in> set (map str registry_names) then gpa fn else pReal fn))"

text \<open>\<open>Proxy_RegX\<close> calls the pointer without a test; a call of 0 is None.\<close>

definition Proxy_Reg :: "exports \<Rightarrow> bytes \<Rightarrow> u32 option" where
  "Proxy_Reg pReal fn = (if pReal fn = 0 then None else Some (pReal fn))"

lemma registry_forwarded:
  "fn \<in> set (map str registry_names) \<Longrightarrow>
   Proxy_Reg (InitRealRegistryHooks (Some gpa) pReal) fn = direct gpa fn"
  unfolding Proxy_Reg_def InitRealRegistryHooks_def direct_def option.case by (simp only: if_True)

lemma registry_without_init: "Proxy_Reg (InitRealRegistryHooks None (\<lambda>_. 0)) fn = None"
  by (simp add: Proxy_Reg_def InitRealRegistryHooks_def)

end
