(* ===== verification/Net_Cfg.thy ===== *)
theory Net_Cfg
  imports Com_Interfaces
begin

text \<open>
  The network configuration objects of src/emulate_driver_running.c: an enumerator that puts one
  fake component in front of the components of a real enumerator, the component with its
  bindings, and the wrapper that shows a connection through the interface of HNetCfg.  They live
  in a heap of their own beside that of \<open>Com_Objects\<close>, which has the real enumerator and the
  connection.  The only call of \<open>PatchCNetCfg\<close> is commented out.
\<close>

section \<open>Objects\<close>

datatype cfg_class =
    FakeComponentEnumerator oaddr nat bool       \<comment> \<open>\<open>realEnum\<close>, \<open>fakeComponent\<close>, \<open>fakeReturned\<close>\<close>
  | FakeNetCfgComponent nat                      \<comment> \<open>\<open>bindings\<close>\<close>
  | FakeComponentBindings
  | HNetCfgNetConnection oaddr bytes           \<comment> \<open>\<open>realConn\<close>, \<open>adapterGuid\<close>\<close>

record cfg_heap =
  c_com :: com
  c_cells :: "(cfg_class \<times> int) option list"

definition cfg_get :: "cfg_heap \<Rightarrow> nat \<Rightarrow> (cfg_class \<times> int) option" where
  "cfg_get s a = (if a < length (c_cells s) then c_cells s ! a else None)"

definition cfg_put :: "cfg_heap \<Rightarrow> nat \<Rightarrow> (cfg_class \<times> int) option \<Rightarrow> cfg_heap" where
  "cfg_put s a c = s\<lparr>c_cells := (c_cells s)[a := c]\<rparr>"

definition cfg_alloc :: "cfg_heap \<Rightarrow> cfg_class \<Rightarrow> cfg_heap \<times> nat" where
  "cfg_alloc s k = (s\<lparr>c_cells := c_cells s @ [Some (k, 1)]\<rparr>, length (c_cells s))"

definition cfg_AddRef :: "cfg_heap \<Rightarrow> nat \<Rightarrow> (cfg_heap \<times> int) option" where
  "cfg_AddRef s a = do {
     (k, n) \<leftarrow> cfg_get s a;
     Some (cfg_put s a (Some (k, n + 1)), n + 1) }"

text \<open>Count down; at zero run \<open>rel\<close> and free.\<close>

definition cfg_release_with ::
    "(cfg_class \<Rightarrow> cfg_heap \<Rightarrow> cfg_heap option) \<Rightarrow> cfg_heap \<Rightarrow> nat \<Rightarrow> (cfg_heap \<times> int) option" where
  "cfg_release_with rel s a = do {
     (k, n) \<leftarrow> cfg_get s a;
     let s = cfg_put s a (Some (k, n - 1));
     if n - 1 = 0 then do { s \<leftarrow> rel k s; Some (cfg_put s a None, 0) } else Some (s, n - 1) }"

definition release_com :: "oaddr \<Rightarrow> cfg_heap \<Rightarrow> cfg_heap option" where
  "release_com p s = do { (c, _) \<leftarrow> com_Release (c_com s) p; Some (s\<lparr>c_com := c\<rparr>) }"

definition FakeBindings_Release :: "cfg_heap \<Rightarrow> nat \<Rightarrow> (cfg_heap \<times> int) option" where
  "FakeBindings_Release = cfg_release_with (\<lambda>_ s. Some s)"

definition FakeComponent_Release :: "cfg_heap \<Rightarrow> nat \<Rightarrow> (cfg_heap \<times> int) option" where
  "FakeComponent_Release = cfg_release_with (\<lambda>k s.
     case k of FakeNetCfgComponent b \<Rightarrow> map_option fst (FakeBindings_Release s b) | _ \<Rightarrow> None)"

definition FakeEnum_Release :: "cfg_heap \<Rightarrow> nat \<Rightarrow> (cfg_heap \<times> int) option" where
  "FakeEnum_Release = cfg_release_with (\<lambda>k s.
     case k of
       FakeComponentEnumerator r c _ \<Rightarrow> do {
         s \<leftarrow> release_com r s;
         map_option fst (FakeComponent_Release s c) }
     | _ \<Rightarrow> None)"

definition HNC_Release :: "cfg_heap \<Rightarrow> nat \<Rightarrow> (cfg_heap \<times> int) option" where
  "HNC_Release = cfg_release_with (\<lambda>k s. case k of HNetCfgNetConnection r _ \<Rightarrow> release_com r s | _ \<Rightarrow> None)"

section \<open>Creation and enumeration\<close>

text \<open>Component, bindings, enumerator; when the third allocation fails the first two are lost.  The
  reference on the real enumerator is taken over from the caller.\<close>

definition CreateFakeComponentEnumerator ::
    "bool \<Rightarrow> bool \<Rightarrow> bool \<Rightarrow> cfg_heap \<Rightarrow> oaddr \<Rightarrow> cfg_heap \<times> nat option" where
  "CreateFakeComponentEnumerator h1 h2 h3 s realEnum =
     (if \<not> h1 then (s, None)
      else (let (s1, comp) = cfg_alloc s (FakeNetCfgComponent 0) in
        if \<not> h2 then (cfg_put s1 comp None, None)
        else (let (s2, bind) = cfg_alloc s1 FakeComponentBindings;
                  s2 = cfg_put s2 comp (Some (FakeNetCfgComponent bind, 1)) in
          if \<not> h3 then (s2, None)
          else (let (s3, en) = cfg_alloc s2 (FakeComponentEnumerator realEnum comp False) in
            (s3, Some en)))))"

datatype component = Fake nat | Real oaddr

text \<open>\<open>next\<close> is the method of the real enumerator: result, and the components fetched.\<close>

definition FakeEnum_Next ::
    "(oaddr \<Rightarrow> nat \<Rightarrow> com \<Rightarrow> com \<times> hresult \<times> oaddr list) \<Rightarrow> cfg_heap \<Rightarrow> nat \<Rightarrow> nat \<Rightarrow>
     (cfg_heap \<times> hresult \<times> component list) option" where
  "FakeEnum_Next next s a celt =
     (case cfg_get s a of
        Some (FakeComponentEnumerator r c returned, n) \<Rightarrow>
          if \<not> returned \<and> celt > 0 then do {
            (s, _) \<leftarrow> cfg_AddRef s c;
            Some (cfg_put s a (Some (FakeComponentEnumerator r c True, n)), S_OK, [Fake c]) }
          else do {
            _ \<leftarrow> com_get (c_com s) r;
            (case next r celt (c_com s) of (cc, hr, rs) \<Rightarrow> Some (s\<lparr>c_com := cc\<rparr>, hr, map Real rs)) }
      | _ \<Rightarrow> None)"

definition FakeEnum_Skip :: hresult where "FakeEnum_Skip = S_OK"
definition FakeEnum_Reset :: hresult where "FakeEnum_Reset = S_OK"
definition FakeEnum_Clone :: hresult where "FakeEnum_Clone = E_NOTIMPL"

text \<open>A failed allocation is reported as success with a null pointer.\<close>

definition Hook_INetCfg_EnumComponents ::
    "(com \<Rightarrow> com \<times> hresult \<times> oaddr) \<Rightarrow> bool \<Rightarrow> bool \<Rightarrow> bool \<Rightarrow> cfg_heap \<Rightarrow> cfg_heap \<times> hresult \<times> nat option" where
  "Hook_INetCfg_EnumComponents real h1 h2 h3 s =
     (case real (c_com s) of (cc, hr, r) \<Rightarrow>
        let s = s\<lparr>c_com := cc\<rparr> in
        if hr \<in> {S_OK, S_FALSE} then
          (let (s, en) = CreateFakeComponentEnumerator h1 h2 h3 s r in (s, hr, en))
        else (s, hr, None))"

text \<open>The copy of the vtable: slot 5 is replaced, its old content kept.\<close>

definition PatchCNetCfg :: "'f list \<Rightarrow> 'f \<Rightarrow> 'f list \<times> 'f" where
  "PatchCNetCfg realVtbl hook = ((take 16 realVtbl)[5 := hook], realVtbl ! 5)"

section \<open>Other methods\<close>

text \<open>The buffer the caller's pointer shows to, None for null; it has to hold the name.\<close>

definition FakeComponent_GetDisplayName :: "wstr \<Rightarrow> wstr option \<Rightarrow> wstr option option" where
  "FakeComponent_GetDisplayName friendly buf =
     (case buf of
        None \<Rightarrow> Some None
      | Some b \<Rightarrow> map_option Some (mem_write b 0 (friendly @ [0])))"

definition FakeBindings_EnumBindingPaths :: "hresult \<times> out_value" where
  "FakeBindings_EnumBindingPaths = (S_FALSE, Null_Pointer)"

text \<open>What \<open>QueryInterface\<close> of the component asks for, and what it gives: itself, its bindings, or a
  new connection.\<close>

datatype cfg_iid = C_IUnknown | C_INetCfgComponent | C_INetCfgComponentBindings
  | C_IEnumNetCfgComponent | C_INetConnection | C_other

definition FakeComponent_QueryInterface ::
    "bool \<Rightarrow> cfg_heap \<Rightarrow> nat \<Rightarrow> cfg_iid \<Rightarrow> (cfg_heap \<times> hresult \<times> (nat + oaddr) option) option" where
  "FakeComponent_QueryInterface heap_ok s a riid =
     (case cfg_get s a of
        Some (FakeNetCfgComponent b, _) \<Rightarrow>
          if riid = C_IUnknown \<or> riid = C_INetCfgComponent
          then do { (s, _) \<leftarrow> cfg_AddRef s a; Some (s, S_OK, Some (Inl a)) }
          else if riid = C_INetCfgComponentBindings
          then do { (s, _) \<leftarrow> cfg_AddRef s b; Some (s, S_OK, Some (Inl b)) }
          else if riid = C_INetConnection then
            (case CreateFakeNetConnection heap_ok (c_com s) of
               (cc, None) \<Rightarrow> Some (s\<lparr>c_com := cc\<rparr>, E_OUTOFMEMORY, None)
             | (cc, Some conn) \<Rightarrow> Some (s\<lparr>c_com := cc\<rparr>, S_OK, Some (Inr conn)))
          else Some (s, E_NOINTERFACE, None)
      | _ \<Rightarrow> None)"

text \<open>The bindings and the enumerator give only themselves; for another interface the caller's
  pointer is left as it is.  \<open>own\<close> is the interface of the object beside IUnknown.\<close>

definition cfg_QueryInterface ::
    "cfg_iid \<Rightarrow> cfg_heap \<Rightarrow> nat \<Rightarrow> cfg_iid \<Rightarrow> (cfg_heap \<times> hresult \<times> nat option) option" where
  "cfg_QueryInterface own s a riid =
     (if riid = C_IUnknown \<or> riid = own
      then do { (s, _) \<leftarrow> cfg_AddRef s a; Some (s, S_OK, Some a) }
      else Some (s, E_NOINTERFACE, None))"

definition FakeBindings_QueryInterface ::
    "cfg_heap \<Rightarrow> nat \<Rightarrow> cfg_iid \<Rightarrow> (cfg_heap \<times> hresult \<times> nat option) option" where
  "FakeBindings_QueryInterface = cfg_QueryInterface C_INetCfgComponentBindings"

definition FakeEnum_QueryInterface ::
    "cfg_heap \<Rightarrow> nat \<Rightarrow> cfg_iid \<Rightarrow> (cfg_heap \<times> hresult \<times> nat option) option" where
  "FakeEnum_QueryInterface = cfg_QueryInterface C_IEnumNetCfgComponent"

text \<open>The wrapper answers for IUnknown and the interface of HNetCfg (None) itself; the rest goes to the
  connection.\<close>

definition HNC_QueryInterface ::
    "cfg_heap \<Rightarrow> nat \<Rightarrow> iid option \<Rightarrow> (cfg_heap \<times> hresult \<times> (nat + oaddr) option) option" where
  "HNC_QueryInterface s a riid =
     (case cfg_get s a of
        Some (HNetCfgNetConnection r g, _) \<Rightarrow>
          (case riid of
             Some i \<Rightarrow>
               if i = IID_IUnknown then do { (s, _) \<leftarrow> cfg_AddRef s a; Some (s, S_OK, Some (Inl a)) }
               else do {
                 (c, hr, p) \<leftarrow> FakeConn_QueryInterface (c_com s) r i;
                 Some (s\<lparr>c_com := c\<rparr>, hr, map_option Inr p) }
           | None \<Rightarrow> do { (s, _) \<leftarrow> cfg_AddRef s a; Some (s, S_OK, Some (Inl a)) })
      | _ \<Rightarrow> None)"

text \<open>The identity of a connection, refreshed at each call: \<open>clsid old\<close> is what CLSIDFromString leaves
  in place of \<open>old\<close> for the setting of that moment, whose result is not looked at.\<close>

definition HNC_GetConnectionId ::
    "(bytes \<Rightarrow> bytes) \<Rightarrow> cfg_heap \<Rightarrow> nat \<Rightarrow> bool \<Rightarrow> (cfg_heap \<times> hresult \<times> bytes option) option" where
  "HNC_GetConnectionId clsid s a out =
     (if \<not> out then Some (s, E_POINTER, None)
      else case cfg_get s a of
        Some (HNetCfgNetConnection r g, n) \<Rightarrow>
          Some (cfg_put s a (Some (HNetCfgNetConnection r (clsid g), n)), S_OK, Some (clsid g))
      | _ \<Rightarrow> None)"

text \<open>Four methods go to the connection.\<close>

datatype hnc_method = HNC_GetProperties | HNC_Rename | HNC_GetUiObjectClassId | HNC_Connect

fun hnc_target :: "hnc_method \<Rightarrow> conn_method" where
  "hnc_target HNC_GetProperties = FakeConn_GetProperties'"
| "hnc_target HNC_Rename = FakeConn_Rename"
| "hnc_target HNC_GetUiObjectClassId = FakeConn_GetUiObjectClassId"
| "hnc_target HNC_Connect = FakeConn_Connect"

definition g_HNetCfgConnVtable :: "hnc_method option list" where
  "g_HNetCfgConnVtable = [None, None, None, Some HNC_GetProperties, Some HNC_Rename,
     Some HNC_GetUiObjectClassId, Some HNC_Connect, None]"

text \<open>The tables of the three objects; the slots of the stub answer E_NOTIMPL.\<close>

datatype net_method = M_QueryInterface | M_AddRef | M_Release | M_Next | M_Skip | M_Reset | M_Clone
  | M_GetDisplayName | M_EnumBindingPaths | M_Stub

definition FakeComponent_Stub :: hresult where "FakeComponent_Stub = E_NOTIMPL"

definition g_FakeEnumVtable :: "net_method list" where
  "g_FakeEnumVtable = [M_QueryInterface, M_AddRef, M_Release, M_Next, M_Skip, M_Reset, M_Clone]"

definition g_FakeComponentVtable :: "net_method list" where
  "g_FakeComponentVtable =
     (replicate 32 M_Stub)[0 := M_QueryInterface, 1 := M_AddRef, 2 := M_Release, 3 := M_GetDisplayName]"

definition g_FakeBindingsVtable :: "net_method list" where
  "g_FakeBindingsVtable =
     (replicate 16 M_Stub)[0 := M_QueryInterface, 1 := M_AddRef, 2 := M_Release, 8 := M_EnumBindingPaths]"

section \<open>The life of an enumeration\<close>

lemma cfg_cells:
  "cfg_get \<lparr>c_com = c, c_cells = cs\<rparr> a = (if a < length cs then cs ! a else None)"
  "cfg_put \<lparr>c_com = c, c_cells = cs\<rparr> a x = \<lparr>c_com = c, c_cells = cs[a := x]\<rparr>"
  "cfg_alloc \<lparr>c_com = c, c_cells = cs\<rparr> k = (\<lparr>c_com = c, c_cells = cs @ [Some (k, 1)]\<rparr>, length cs)"
  by (simp_all add: cfg_get_def cfg_put_def cfg_alloc_def)

text \<open>The enumerator gives the fake component once, then what the real one gives; after the client
  has released both, nothing of the three fake objects is left and the reference on the real
  enumerator is given back.\<close>

theorem cfg_cycle:
  assumes "com_get c r = Some (RealObject, n)" "1 < n"
  shows "\<exists>s1 s2 s3 a comp.
    CreateFakeComponentEnumerator True True True \<lparr>c_com = c, c_cells = []\<rparr> r = (s1, Some a) \<and>
    FakeEnum_Next next s1 a (Suc k) = Some (s2, S_OK, [Fake comp]) \<and>
    (\<forall>j. FakeEnum_Next next s2 a j = (case next r j c of (c', hr, rs) \<Rightarrow> Some (s2\<lparr>c_com := c'\<rparr>, hr, map Real rs))) \<and>
    FakeComponent_Release s2 comp = Some (s3, 1) \<and>
    FakeEnum_Release s3 a =
      Some (\<lparr>c_com = com_put c r (Some (RealObject, n - 1)), c_cells = [None, None, None]\<rparr>, 0)"
proof -
  let ?S = "\<lambda>m ret. \<lparr>c_com = c, c_cells = [Some (FakeNetCfgComponent 1, m), Some (FakeComponentBindings, 1),
      Some (FakeComponentEnumerator r 0 ret, 1)]\<rparr>"
  have rel: "com_Release c r = Some (com_put c r (Some (RealObject, n - 1)), n - 1)"
    using Release_leaf [of c r RealObject n "Suc 0"] assms
    by (simp add: com_Release_def numeral_2_eq_2 leaf_after_def del: vtable_Release.simps)
  have "CreateFakeComponentEnumerator True True True \<lparr>c_com = c, c_cells = []\<rparr> r = (?S 1 False, Some 2)"
    by (simp add: CreateFakeComponentEnumerator_def cfg_cells Let_def)
  moreover have "FakeEnum_Next next (?S 1 False) 2 (Suc k) = Some (?S 2 True, S_OK, [Fake 0])"
    by (simp add: FakeEnum_Next_def cfg_cells cfg_AddRef_def)
  moreover have "FakeEnum_Next next (?S 2 True) 2 j =
      (case next r j c of (c', hr, rs) \<Rightarrow> Some ((?S 2 True)\<lparr>c_com := c'\<rparr>, hr, map Real rs))" for j
    using assms by (simp add: FakeEnum_Next_def cfg_cells)
  moreover have "FakeComponent_Release (?S 2 True) 0 = Some (?S 1 True, 1)"
    by (simp add: FakeComponent_Release_def cfg_release_with_def cfg_cells Let_def)
  moreover have "FakeEnum_Release (?S 1 True) 2 =
      Some (\<lparr>c_com = com_put c r (Some (RealObject, n - 1)), c_cells = [None, None, None]\<rparr>, 0)"
    using rel
    by (simp add: FakeEnum_Release_def FakeComponent_Release_def FakeBindings_Release_def
        cfg_release_with_def release_com_def cfg_cells Let_def)
  ultimately show ?thesis by blast
qed

text \<open>When the third allocation fails, the component and its bindings are lost.\<close>

lemma cfg_leak:
  "CreateFakeComponentEnumerator True True False \<lparr>c_com = c, c_cells = []\<rparr> r =
   (\<lparr>c_com = c, c_cells = [Some (FakeNetCfgComponent 1, 1), Some (FakeComponentBindings, 1)]\<rparr>, None)"
  by (simp add: CreateFakeComponentEnumerator_def cfg_cells Let_def)

text \<open>The answer to a query for an interface counts the reference it gives: after the client has
  released it, the heap is as before.\<close>

lemma cell_unchanged: "a < length (c_cells s) \<Longrightarrow> c_cells s ! a = x \<Longrightarrow> s\<lparr>c_cells := (c_cells s)[a := x]\<rparr> = s"
  by (cases s) auto

lemma cfg_query_release:
  assumes "cfg_get s a = Some (k, n)" "1 \<le> n" "cfg_QueryInterface own s a riid = Some (s1, hr, Some p)"
  shows "p = a" "cfg_release_with rel s1 a = Some (s, n)"
  using assms by (auto simp: cell_unchanged cfg_QueryInterface_def cfg_AddRef_def cfg_get_def cfg_put_def
      cfg_release_with_def Let_def split: if_splits Option.bind_splits)

text \<open>The wrapper breaks the rule of COM that a query to an interface and back arrives at the same
  object: the connection it hands out knows nothing of the wrapper.\<close>

lemma hnc_identity_lost:
  assumes "cfg_get s a = Some (HNetCfgNetConnection r g, n)" "com_get (c_com s) r = Some (k, m)"
  shows "\<exists>s1. HNC_QueryInterface s a (Some IID_INetConnection) = Some (s1, S_OK, Some (Inr r)) \<and>
    (\<forall>i c. FakeConn_QueryInterface c r i \<noteq> None \<longrightarrow> i \<noteq> IID_IUnknown \<and> i \<noteq> IID_INetConnection \<longrightarrow>
       FakeConn_QueryInterface c r i = Some (c, E_NOINTERFACE, None))"
  using assms by (simp add: HNC_QueryInterface_def FakeConn_QueryInterface_def qi_self_def com_AddRef_def)

text \<open>The order of INetCfg in netcfgx.h: the slot that is patched is that of \<open>Apply\<close>.\<close>

definition INetCfg_slots :: "string list" where
  "INetCfg_slots = [''QueryInterface'', ''AddRef'', ''Release'', ''Initialize'', ''Uninitialize'',
     ''Apply'', ''Cancel'', ''EnumComponents'', ''FindComponent'', ''QueryNetCfgClass'']"

lemma patched_slot: "INetCfg_slots ! 5 = ''Apply''" "INetCfg_slots ! 7 = ''EnumComponents''"
  by (simp_all add: INetCfg_slots_def)

end
