(* ===== verification/Wmi_Locator.thy ===== *)
theory Wmi_Locator
  imports Wmi_Proxies
begin

text \<open>
  The locator of src/emulate_driver_running.c in the build with BLOCK_REAL 0: the patch of the
  vtable of a real locator, the connection whose services are put into a proxy, and the log of all
  adapters that follows it.  \<open>h1\<close>, \<open>h2\<close> and \<open>h i\<close> are answers of the heap.
\<close>

section \<open>The log of all adapters\<close>

text \<open>One adapter: its number and the three texts, None for (unavailable).\<close>

record adapter_entry =
  ae_idx :: nat
  ae_ServiceName :: "wstr option option"
  ae_MACAddress :: "wstr option option"
  ae_SettingID :: "wstr option option"

text \<open>\<open>Get\<close> of a real object or of its proxy, as the loop looks at it: a text that was delivered.\<close>

definition WbemObj_Get :: "wmi_real \<Rightarrow> wmi_heap \<Rightarrow> wptr \<Rightarrow> wstr \<Rightarrow> (u32 \<times> real_value) option" where
  "WbemObj_Get e w x name =
     (case x of
        At a \<Rightarrow> do {
          _ \<leftarrow> com_get (w_com w) a;
          (case rw_Get e a (Some name) of (hr, v, _) \<Rightarrow> Some (hr, v)) }
      | Proxy_At q \<Rightarrow> do {
          ((hr, v, _), _) \<leftarrow> ProxyWbemCls_Get e w q (Some name) True False;
          Some (hr, v) })"

definition text_got :: "u32 \<times> real_value \<Rightarrow> wstr option option" where
  "text_got g = (case g of (hr, V_BSTR s) \<Rightarrow> if SUCCEEDED hr then Some s else None | _ \<Rightarrow> None)"

definition log_adapter :: "wmi_real \<Rightarrow> wmi_heap \<Rightarrow> nat \<Rightarrow> wptr \<Rightarrow> adapter_entry option" where
  "log_adapter e w idx x = do {
     s \<leftarrow> WbemObj_Get e w x (str ''ServiceName'');
     m \<leftarrow> WbemObj_Get e w x (str ''MACAddress'');
     i \<leftarrow> WbemObj_Get e w x (str ''SettingID'');
     Some \<lparr>ae_idx = idx, ae_ServiceName = text_got s, ae_MACAddress = text_got m,
       ae_SettingID = text_got i\<rparr> }"

text \<open>The loop over \<open>Next\<close> of the proxy \<open>p\<close>, which ends at the first answer that is not S_OK.\<close>

partial_function (option) adapters_loop ::
    "wmi_real \<Rightarrow> (nat \<Rightarrow> bool) \<Rightarrow> nat \<Rightarrow> nat \<Rightarrow> wmi_heap \<Rightarrow> nat \<Rightarrow> (wmi_heap \<times> adapter_entry list) option" where
  "adapters_loop e h i idx w p = do {
     (w, hr, xs) \<leftarrow> ProxyEnumWbem_Next e (\<lambda>_. h i) True w p 10000 1;
     if hr \<noteq> 0 then Some (w, [])
     else if length xs = 1 then do {
       l \<leftarrow> log_adapter e w (Suc idx) (hd xs);
       w \<leftarrow> wptr_Release w (hd xs);
       (w, ls) \<leftarrow> adapters_loop e h (Suc i) (Suc idx) w p;
       Some (w, l # ls) }
     else adapters_loop e h (Suc i) idx w p }"

definition adapters_query :: wstr where
  "adapters_query = str ''SELECT * FROM Win32_NetworkAdapter''"

definition LogAllRealAdapterDetailsFromServices ::
    "wmi_real \<Rightarrow> bool \<Rightarrow> (nat \<Rightarrow> bool) \<Rightarrow> wmi_heap \<Rightarrow> nat \<Rightarrow> (wmi_heap \<times> adapter_entry list) option" where
  "LogAllRealAdapterDetailsFromServices e h2 h w pSvc = do {
     (w, hr, en) \<leftarrow> Proxy_ExecQuery e False h2 h2 w pSvc (str ''WQL'') adapters_query;
     (case en of
        Some (Proxy_At p) \<Rightarrow>
          if SUCCEEDED hr then do {
            (w, ls) \<leftarrow> adapters_loop e h 0 0 w p;
            w \<leftarrow> wptr_Release w (Proxy_At p);
            Some (w, ls) }
          else Some (w, [])
      | _ \<Rightarrow> Some (w, [])) }"

section \<open>The locator\<close>

text \<open>The slots of the patched vtable: the pointers of the real one, two replaced.  The copy reads
  eight slots, whatever the real table has; the saved slot is \<open>ConnectServer\<close>.\<close>

datatype locator_slot = Real_Slot nat | Fake_QueryInterface | Hook_ConnectServer

definition PatchWbemLocator :: "locator_slot list \<Rightarrow> (locator_slot list \<times> locator_slot) option" where
  "PatchWbemLocator vtable =
     (if length vtable < 8 then None
      else Some ((take 8 vtable)[0 := Fake_QueryInterface, 3 := Hook_ConnectServer], vtable ! 3))"

text \<open>\<open>real\<close> is the saved method, None before a locator was patched; the caller gives a pointer for
  the services.\<close>

definition Hook_ConnectServer_of ::
    "wmi_real \<Rightarrow> (com \<Rightarrow> com \<times> u32 \<times> oaddr option) option \<Rightarrow> bool \<Rightarrow> bool \<Rightarrow> (nat \<Rightarrow> bool) \<Rightarrow> wmi_heap \<Rightarrow>
     (wmi_heap \<times> u32 \<times> wptr option \<times> adapter_entry list) option" where
  "Hook_ConnectServer_of e real h1 h2 h w =
     (case real of
        None \<Rightarrow> do {
          (w, hr, p) \<leftarrow> of_com w (Hook_IWbemLocator_ConnectServer h1 (w_com w));
          Some (w, hr, p, []) }
      | Some connect \<Rightarrow>
          (case connect (w_com w) of (c, hr, svc) \<Rightarrow>
             let w = w\<lparr>w_com := c\<rparr> in
             (case svc of
                Some a \<Rightarrow>
                  if SUCCEEDED hr then do {
                    (w, p) \<leftarrow> CreateProxyWbemServices h1 w a;
                    (case p of
                       Some (Proxy_At q) \<Rightarrow> do {
                         (w, ls) \<leftarrow> LogAllRealAdapterDetailsFromServices e h2 h w q;
                         Some (w, hr, Some (Proxy_At q), ls) }
                     | _ \<Rightarrow> Some (w, hresult_code E_OUTOFMEMORY, None, [])) }
                  else Some (w, hr, Some (At a), [])
              | None \<Rightarrow> Some (w, hr, None, []))))"

section \<open>What the loop does to the real objects\<close>

text \<open>A client of the real enumerator that takes one object after the other and releases it.\<close>

inductive real_rounds :: "wmi_real \<Rightarrow> oaddr \<Rightarrow> com \<Rightarrow> oaddr list \<Rightarrow> com \<Rightarrow> bool" for e r where
  no_more: "com_get c r \<noteq> None \<Longrightarrow> rw_Next e r 10000 1 c = (c', 1, []) \<Longrightarrow> real_rounds e r c [] c'"
| one_more: "com_get c r \<noteq> None \<Longrightarrow> rw_Next e r 10000 1 c = (c1, 0, [a]) \<Longrightarrow>
    com_get c1 a = Some (RealObject, m) \<Longrightarrow> 0 < m \<Longrightarrow> com_Release c1 a = Some (c2, k) \<Longrightarrow>
    real_rounds e r c2 as c' \<Longrightarrow> real_rounds e r c (a # as) c'"

definition real_text :: "wmi_real \<Rightarrow> oaddr \<Rightarrow> wstr \<Rightarrow> wstr option option" where
  "real_text e a name = (case rw_Get e a (Some name) of (hr, v, _) \<Rightarrow> text_got (hr, v))"

definition real_entry :: "wmi_real \<Rightarrow> nat \<Rightarrow> oaddr \<Rightarrow> adapter_entry" where
  "real_entry e idx a = \<lparr>ae_idx = idx, ae_ServiceName = real_text e a (str ''ServiceName''),
     ae_MACAddress = real_text e a (str ''MACAddress''), ae_SettingID = real_text e a (str ''SettingID'')\<rparr>"

text \<open>Every value of the real objects can be logged (no array that ends at the largest index).\<close>

definition loggable :: "wmi_real \<Rightarrow> bool" where
  "loggable e \<longleftrightarrow> (\<forall>a n. value_lines n (fst (snd (rw_Get e a (Some n)))) \<noteq> None)"

lemma WbemObj_Get_represented:
  assumes "loggable e" "represents w x a" "com_get (w_com w) a \<noteq> None"
  shows "map_option text_got (WbemObj_Get e w x name) = Some (real_text e a name)"
proof -
  obtain hr v ty where g: "rw_Get e a (Some name) = (hr, v, ty)" by (cases "rw_Get e a (Some name)")
  have "value_lines name v \<noteq> None" using assms(1) g unfolding loggable_def by (metis fst_conv snd_conv)
  then show ?thesis
    using assms(2,3) g
    by (auto simp: represents_def WbemObj_Get_def ProxyWbemCls_Get_def real_text_def Let_def)
qed

lemma log_adapter_represented:
  assumes "loggable e" "represents w x a" "com_get (w_com w) a \<noteq> None"
  shows "log_adapter e w idx x = Some (real_entry e idx a)"
  using WbemObj_Get_represented [OF assms, of "str ''ServiceName''"]
    WbemObj_Get_represented [OF assms, of "str ''MACAddress''"]
    WbemObj_Get_represented [OF assms, of "str ''SettingID''"]
  by (auto simp: log_adapter_def real_entry_def)

lemma one_round:
  assumes "proxy_get w p = Some (Proxy_Enum, r, n)" "com_get (w_com w) r \<noteq> None"
    "rw_Next e r 10000 1 (w_com w) = (c1, 0, [a])" "com_get c1 a = Some (RealObject, m)" "0 < m"
    "com_Release c1 a = Some (c2, k)"
  shows "\<exists>w1 x w2. ProxyEnumWbem_Next e (\<lambda>_. ok) True w p 10000 1 = Some (w1, 0, [x]) \<and>
    represents w1 x a \<and> w_com w1 = c1 \<and> wptr_Release w1 x = Some w2 \<and> w_com w2 = c2 \<and>
    proxy_get w2 p = proxy_get w p"
proof -
  let ?w = "w\<lparr>w_com := c1\<rparr>"
  from wrap_object_spec [of ?w a m e ok] assms(4,5)
  obtain w1 x where w1: "wrap_object e ok ?w a = Some (w1, x)" "w_com w1 = c1"
    "if ok then w_proxies w1 = w_proxies w @ [Some (Proxy_Class, a, 1)] \<and> x = Proxy_At (length (w_proxies w))
     else w_proxies w1 = w_proxies w \<and> x = At a" by auto
  have "on_real w r (rw_Next e r 10000 1) = Some (?w, 0, [a])"
    using assms(2,3) by (auto simp: on_real_def)
  then have nxt: "ProxyEnumWbem_Next e (\<lambda>_. ok) True w p 10000 1 = Some (w1, 0, [x])"
    using assms(1) w1(1) by (simp add: ProxyEnumWbem_Next_def SUCCEEDED_def)
  have p: "p < length (w_proxies w)" using proxy_get_bound [OF assms(1)] .
  have rep: "represents w1 x a"
    using w1(3) by (cases ok) (simp_all add: represents_def proxy_get_new)
  obtain w2 where w2: "wptr_Release w1 x = Some w2" "w_com w2 = c2"
    using release_represented [OF rep] assms(6) w1(2) by auto
  have "proxy_get w2 p = proxy_get w p"
  proof (cases ok)
    case True
    then have "proxy_get w1 (length (w_proxies w)) = Some (Proxy_Class, a, 1)"
      using w1(3) by (simp add: proxy_get_new)
    then have "w2 = proxy_put (w1\<lparr>w_com := c2\<rparr>) (length (w_proxies w)) None"
      using True w1 w2(1) assms(6) by (simp add: wptr_Release_def proxy_Release_def)
    then show ?thesis
      using p w1(3) True
      by (simp add: proxy_get_put proxy_get_append [of p w "w1\<lparr>w_com := c2\<rparr>"])
  next
    case False
    then have "w2 = w1\<lparr>w_com := c2\<rparr>"
      using w1 w2(1) assms(6) by (simp add: wptr_Release_def)
    then show ?thesis using w1(3) False by (simp add: proxy_get_def)
  qed
  then show ?thesis using nxt rep w1(2) w2 by blast
qed

text \<open>Whatever the allocations answer, the loop ends with the real enumeration, logs the values of
  the real objects in their order, and leaves the real objects as a client that releases each.\<close>

theorem adapters_loop_logs_real:
  assumes "real_rounds e r c as c'" "w_com w = c" "proxy_get w p = Some (Proxy_Enum, r, n)" "loggable e"
  shows "\<exists>w'. adapters_loop e h i idx w p = Some (w', map2 (real_entry e) [Suc idx..<Suc (idx + length as)] as)
    \<and> w_com w' = c' \<and> proxy_get w' p = proxy_get w p"
  using assms
proof (induction c as c' arbitrary: w i idx rule: real_rounds.induct)
  case (no_more c c')
  then have "on_real w r (rw_Next e r 10000 1) = Some (w\<lparr>w_com := c'\<rparr>, 1, [])"
    by (auto simp: on_real_def)
  moreover have "SUCCEEDED 1" by (simp add: SUCCEEDED_def)
  ultimately show ?case
    using no_more by (subst adapters_loop.simps) (simp add: ProxyEnumWbem_Next_def, simp add: proxy_get_def split: if_splits)
next
  case (one_more c c1 a m c2 k as c')
  from one_round [of w p r n e c1 a m c2 k "h i"] one_more
  obtain w1 x w2 where s: "ProxyEnumWbem_Next e (\<lambda>_. h i) True w p 10000 1 = Some (w1, 0, [x])"
    "represents w1 x a" "w_com w1 = c1" "wptr_Release w1 x = Some w2" "w_com w2 = c2"
    "proxy_get w2 p = proxy_get w p" by auto
  have "log_adapter e w1 (Suc idx) x = Some (real_entry e (Suc idx) a)"
    using log_adapter_represented [OF one_more.prems(3) s(2)] one_more.hyps(3) s(3) by simp
  moreover obtain w' where "adapters_loop e h (Suc i) (Suc idx) w2 p =
      Some (w', map2 (real_entry e) [Suc (Suc idx)..<Suc (Suc idx + length as)] as)"
    "w_com w' = c'" "proxy_get w' p = proxy_get w2 p"
    using one_more.IH [of w2 "Suc i" "Suc idx"] s(5,6) one_more.prems by auto
  moreover have "[Suc idx..<Suc (idx + length (a # as))] = Suc idx # [Suc (Suc idx)..<Suc (Suc idx + length as)]"
    by (simp add: upt_conv_Cons del: upt_Suc)
  ultimately show ?case
    using s by (subst adapters_loop.simps) simp
qed

section \<open>The connection leaks the real services\<close>

text \<open>When the query of the log is refused, the client holds a proxy; after it has released it the
  real services still have a count, which nobody owns.\<close>

theorem connection_leaks:
  assumes "connect (w_com w) = (c, 0, Some a)" "com_get c a = Some (RealObject, 1)"
    "\<And>c. rw_service e a ExecQuery [str ''WQL'', adapters_query] c = (c, 0x80041003, None)"
  shows "\<exists>w' x w''. Hook_ConnectServer_of e (Some connect) True h2 h w = Some (w', 0, Some x, []) \<and>
    wptr_Release w' x = Some w'' \<and> com_get (w_com w'') a = Some (RealObject, 1)"
proof -
  let ?c = "com_put c a (Some (RealObject, 2))"
  let ?w = "w\<lparr>w_com := ?c, w_proxies := w_proxies w @ [Some (Proxy_Services, a, 1)]\<rparr>"
  let ?q = "length (w_proxies w)"
  have two: "com_get ?c a = Some (RealObject, 2)" by (rule com_get_put_same [OF assms(2)])
  from com_Release_real [OF this]
  have rel: "com_Release ?c a = Some (c, 1)" using com_put_same [OF assms(2)] by simp
  have q: "proxy_get ?w ?q = Some (Proxy_Services, a, 1)" by (simp add: proxy_get_def)
  have "CreateProxyWbemServices True (w\<lparr>w_com := c\<rparr>) a = Some (?w, Some (Proxy_At ?q))"
    using com_AddRef_real [OF assms(2)] by (simp add: CreateProxyWbemServices_def create_proxy_def)
  moreover have "LogAllRealAdapterDetailsFromServices e h2 h ?w ?q = Some (?w, [])"
    using q two assms(3)
    by (simp add: LogAllRealAdapterDetailsFromServices_def Proxy_ExecQuery_def on_real_def wrap_enum_def)
  ultimately have "Hook_ConnectServer_of e (Some connect) True h2 h w = Some (?w, 0, Some (Proxy_At ?q), [])"
    using assms(1) by (simp add: Hook_ConnectServer_of_def SUCCEEDED_def)
  then show ?thesis
    using q rel assms(2) by (auto simp: wptr_Release_def proxy_Release_def)
qed

text \<open>The interface of a locator has four slots: the patch reads behind a table of that length.\<close>

lemma PatchWbemLocator_faults: "PatchWbemLocator (map Real_Slot [0..<4]) = None"
  by (simp add: PatchWbemLocator_def)

text \<open>A locator that is patched again would save the hook as the real method.\<close>

lemma patched_twice:
  assumes "8 \<le> length vtable"
  shows "\<exists>v1 v2. PatchWbemLocator vtable = Some (v1, vtable ! 3) \<and>
    PatchWbemLocator v1 = Some (v2, Hook_ConnectServer)"
  using assms by (simp add: PatchWbemLocator_def)

end
