(* ===== verification/Log_Opening.thy ===== *)
theory Log_Opening
  imports Logging
begin

text \<open>
  The start of the log: \<open>InitLog\<close> of src/log.c and of src/netshell_inject.c, which differ in a text,
  and the loading of the two libraries that call it.  What Windows answers is an argument: whether
  a console is created, the temporary directory (None when the call fails), the path of the
  library, and the content of the file a path can be opened for (it is opened for appending).
\<close>

record log_env =
  le_console :: bool
  le_temp :: "bytes option"
  le_module :: "bytes option"
  le_open :: "bytes \<Rightarrow> bytes option"
  le_pid :: nat
  le_time :: systime

definition MAX_PATH :: nat where "MAX_PATH = 260"

definition log_name :: bytes where "log_name = str ''rvpn_inject.log''"

definition default_temp :: bytes where
  "default_temp = str ''C:'' @ 92 # str ''Windows'' @ 92 # str ''Temp'' @ [92]"

text \<open>\<open>sprintf_s\<close> into a path: without room for the terminator the program is ended.\<close>

definition path_printf :: "bytes \<Rightarrow> bytes option" where
  "path_printf s = (if length s < MAX_PATH then Some s else None)"

text \<open>The text before the last backslash.\<close>

definition directory_of :: "bytes \<Rightarrow> bytes option" where
  "directory_of path =
     (if 92 \<in> set path then Some (rev (tl (dropWhile (\<lambda>c. c \<noteq> 92) (rev path)))) else None)"

text \<open>The second place for the log, with the line that tells it on the console.\<close>

definition log_fallback :: "log_env \<Rightarrow> logger \<Rightarrow> logger option" where
  "log_fallback e l =
     (case Option.bind (le_module e) directory_of of
        None \<Rightarrow> Some (l\<lparr>g_LogFile := None\<rparr>)
      | Some dir \<Rightarrow> do {
          logPath \<leftarrow> path_printf (dir @ 92 # log_name);
          Some (case le_open e logPath of
            None \<Rightarrow> l\<lparr>g_LogFile := None\<rparr>
          | Some old \<Rightarrow> l\<lparr>g_LogFile := Some old,
              g_Console := map_option (\<lambda>c. c @ str ''Logging to '' @ logPath @ str '' (temp path failed)'' @ newline)
                (g_Console l)\<rparr>) })"

definition open_log :: "log_env \<Rightarrow> logger \<Rightarrow> logger option" where
  "open_log e l = do {
     logPath \<leftarrow> path_printf ((case le_temp e of None \<Rightarrow> default_temp | Some t \<Rightarrow> t) @ log_name);
     (case le_open e logPath of
        Some old \<Rightarrow> Some (l\<lparr>g_LogFile := Some old\<rparr>)
      | None \<Rightarrow> log_fallback e l) }"

text \<open>\<open>who\<close> is the name in the first line.\<close>

definition first_line :: "bytes \<Rightarrow> log_env \<Rightarrow> bytes" where
  "first_line who e = str ''=== '' @ who @ str '' started (PID '' @ dec (le_pid e) @ str '')''"

definition InitLog_as :: "bytes \<Rightarrow> log_env \<Rightarrow> logger \<Rightarrow> logger option" where
  "InitLog_as who e l = do {
     let l = (if le_console e \<and> g_Console l = None then l\<lparr>g_Console := Some []\<rparr> else l);
     l \<leftarrow> open_log e l;
     (case g_LogFile l of
        None \<Rightarrow> Some l
      | Some f \<Rightarrow> Some (l\<lparr>
          g_LogFile := Some (f @ newline @ first_line who e @ str '' at '' @ time_text (le_time e) @
            str '' ==='' @ newline),
          g_Console := map_option (\<lambda>c. c @ first_line who e @ str '' ==='' @ newline) (g_Console l)\<rparr>)) }"

definition InitLog :: "log_env \<Rightarrow> logger \<Rightarrow> logger option" where
  "InitLog = InitLog_as (str ''Emulation + WireGuard'')"

section \<open>The libraries\<close>

text \<open>The log of netshell.dll has no switch.\<close>

definition netshell_InitLog :: "log_env \<Rightarrow> logger \<Rightarrow> logger option" where
  "netshell_InitLog = InitLog_as (str ''netshell proxy'')"

definition netshell_LogTimestamp :: "systime \<Rightarrow> logger \<Rightarrow> logger" where
  "netshell_LogTimestamp st l = log_write (str ''['' @ time_text st @ str ''] '') l"

definition netshell_LogMsg :: "systime \<Rightarrow> bytes \<Rightarrow> logger \<Rightarrow> logger" where
  "netshell_LogMsg st msg l = log_write (take 1023 msg @ newline) (netshell_LogTimestamp st l)"

datatype dll_reason = DLL_PROCESS_ATTACH | DLL_PROCESS_DETACH | DLL_THREAD

definition netshell_DllMain :: "log_env \<Rightarrow> dll_reason \<Rightarrow> logger \<Rightarrow> logger option" where
  "netshell_DllMain e reason l =
     (case reason of
        DLL_PROCESS_ATTACH \<Rightarrow> do {
          l \<leftarrow> netshell_InitLog e l;
          Some (netshell_LogMsg (le_time e) (str ''netshell.dll proxy loaded'') l) }
      | _ \<Rightarrow> Some l)"

section \<open>Where the log goes\<close>

text \<open>The process ends in \<open>InitLog\<close> exactly when one of the two paths does not fit: a temporary
  directory of 245 characters is enough.\<close>

theorem InitLog_fault_iff:
  "InitLog e l = None \<longleftrightarrow>
     (let temp = (case le_temp e of None \<Rightarrow> default_temp | Some t \<Rightarrow> t) in
      245 \<le> length temp \<or>
      le_open e (temp @ log_name) = None \<and>
        (\<exists>dir. Option.bind (le_module e) directory_of = Some dir \<and> 244 \<le> length dir))"
proof -
  have name: "length log_name = 15" by (simp add: log_name_def str_def)
  define temp where "temp = (case le_temp e of None \<Rightarrow> default_temp | Some t \<Rightarrow> t)"
  have fb: "log_fallback e l' = None \<longleftrightarrow>
      (\<exists>dir. Option.bind (le_module e) directory_of = Some dir \<and> 244 \<le> length dir)" for l'
    using name
    by (cases "Option.bind (le_module e) directory_of")
      (auto simp: log_fallback_def path_printf_def MAX_PATH_def)
  have "open_log e l' = None \<longleftrightarrow> 245 \<le> length temp \<or> le_open e (temp @ log_name) = None \<and>
      (\<exists>dir. Option.bind (le_module e) directory_of = Some dir \<and> 244 \<le> length dir)" for l'
    using name fb [of l']
    by (simp add: open_log_def path_printf_def MAX_PATH_def temp_def [symmetric] split: option.split)
  then show ?thesis
    unfolding temp_def [symmetric] Let_def
    by (auto simp: InitLog_def InitLog_as_def Let_def bind_eq_None_conv split: option.splits)
qed

text \<open>After a start in the temporary directory, a message is in the file behind the old content and
  the line of the start; on a console, if there is one, it is the same text without its time.\<close>

theorem log_is_kept:
  assumes "le_temp e = Some t" "length t < 245" "le_open e (t @ log_name) = Some old"
    "g_LoggingEnabled l" "\<not> le_console e" "g_Console l = None"
  shows "\<exists>l'. InitLog e l = Some l' \<and>
    g_LogFile (LogMsg st msg l') = Some (old @ newline @ first_line (str ''Emulation + WireGuard'') e @
      str '' at '' @ time_text (le_time e) @ str '' ==='' @ newline @
      str ''['' @ time_text st @ str ''] '' @ take 1023 msg @ newline)"
proof -
  have "length log_name = 15" by (simp add: log_name_def str_def)
  then show ?thesis
    using assms
    by (simp add: InitLog_def InitLog_as_def open_log_def path_printf_def MAX_PATH_def LogMsg_def
        LogTimestamp_def log_write_def)
qed

text \<open>The library and the injection both start the log: the second start opens the file again and
  keeps what the first one wrote, so the line of the start is there twice.\<close>

lemma InitLog_twice:
  assumes "le_temp e = Some t" "length t < 245" "le_open e (t @ log_name) = Some old"
    "InitLog e l = Some l1" "le_open e2 (t @ log_name) = g_LogFile l1" "le_temp e2 = Some t"
  shows "\<exists>l2 a b. InitLog e2 l1 = Some l2 \<and> g_LogFile l1 = Some (old @ a) \<and> g_LogFile l2 = Some (old @ a @ b) \<and>
    a \<noteq> [] \<and> b \<noteq> []"
proof -
  have "length log_name = 15" by (simp add: log_name_def str_def)
  moreover have "newline \<noteq> []" by (simp add: newline_def)
  ultimately show ?thesis
    using assms
    by (auto simp: InitLog_def InitLog_as_def open_log_def path_printf_def MAX_PATH_def Let_def
        split: if_splits)
qed

text \<open>Without a file there is no line of the start, and messages go to the console alone.\<close>

lemma no_file_no_start:
  assumes "InitLog e l = Some l'" "g_LogFile l' = None" "g_LoggingEnabled l"
  shows "g_LogFile (LogMsg st msg l') = None" "le_console e \<Longrightarrow> g_Console l = None \<Longrightarrow> g_Console l' = Some []"
  using assms
  by (auto simp: InitLog_def InitLog_as_def open_log_def log_fallback_def Let_def bind_eq_Some_conv
      LogMsg_def LogTimestamp_def log_write_def split: if_splits option.splits)

lemma directory_of_path: "92 \<notin> set n \<Longrightarrow> directory_of (d @ 92 # n) = Some d"
  by (simp add: directory_of_def dropWhile_append)

end
