(* ===== verification/Com_Tables.thy ===== *)
theory Com_Tables
  imports Com_Interfaces
begin

text \<open>
  The remaining vtables of src/emulate_driver_running.c (the enumerators, the collection, the
  IDispatch object and the adapter object), and the contract all tables share as a locale: a table
  with no empty slot that begins with the three methods of IUnknown, and one of an interface that is
  derived from IDispatch.
\<close>

section \<open>Tables\<close>

text \<open>The enumerator of variants.  \<open>Skip\<close> reports success and skips nothing.\<close>

datatype ve_method = VE_QI | VE_AddRef | VE_Release | VE_Next | VE_Skip | VE_Reset | VE_Clone

definition g_VarEnumVtable :: "ve_method option list" where
  "g_VarEnumVtable = map Some [VE_QI, VE_AddRef, VE_Release, VE_Next, VE_Skip, VE_Reset, VE_Clone]"

fun VarEnum_call :: "ve_method \<Rightarrow> answer" where
  "VarEnum_call VE_Skip = Answer S_OK No_Out"
| "VarEnum_call VE_Clone = Answer E_NOTIMPL No_Out"
| "VarEnum_call _ = By_Object"

datatype vd_method = VD_QI | VD_AddRef | VD_Release | VD_GetTypeInfoCount | VD_GetTypeInfo
  | VD_GetIDsOfNames | VD_Invoke

definition g_VarEnumIDispatchVtable :: "vd_method option list" where
  "g_VarEnumIDispatchVtable = map Some [VD_QI, VD_AddRef, VD_Release, VD_GetTypeInfoCount,
     VD_GetTypeInfo, VD_GetIDsOfNames, VD_Invoke]"

fun VarEnumIDispatch_call :: "vd_method \<Rightarrow> answer" where
  "VarEnumIDispatch_call VD_GetTypeInfoCount = Answer E_NOTIMPL No_Out"
| "VarEnumIDispatch_call VD_GetTypeInfo = Answer E_NOTIMPL No_Out"
| "VarEnumIDispatch_call VD_GetIDsOfNames = Answer E_NOTIMPL No_Out"
| "VarEnumIDispatch_call _ = By_Object"

text \<open>The IDispatch methods of the enumerator itself, which stand in no table.\<close>

definition VarEnum_IDispatch_Invoke :: "com \<Rightarrow> oaddr \<Rightarrow> int \<Rightarrow> bool \<Rightarrow> oaddr option com_result" where
  "VarEnum_IDispatch_Invoke s a dispId has_result =
     (case com_get s a of
        Some (FakeVarEnumerator c _, _) \<Rightarrow> invoke_value s c dispId has_result
      | _ \<Rightarrow> None)"

fun VarEnum_IDispatch_call :: "vd_method \<Rightarrow> answer" where
  "VarEnum_IDispatch_call VD_GetTypeInfoCount = Answer E_NOTIMPL No_Out"
| "VarEnum_IDispatch_call VD_GetTypeInfo = Answer E_NOTIMPL No_Out"
| "VarEnum_IDispatch_call VD_GetIDsOfNames = Answer E_NOTIMPL No_Out"
| "VarEnum_IDispatch_call _ = By_Object"

datatype coll_method = Coll_QI | Coll_AddRef' | Coll_Release' | Coll_GetTypeInfoCount | Coll_GetTypeInfo
  | Coll_GetIDsOfNames | Coll_Invoke' | Coll_get_NewEnum | Coll_get_Count

definition g_CollectionVtable :: "coll_method option list" where
  "g_CollectionVtable = map Some [Coll_QI, Coll_AddRef', Coll_Release', Coll_GetTypeInfoCount,
     Coll_GetTypeInfo, Coll_GetIDsOfNames, Coll_Invoke', Coll_get_NewEnum, Coll_get_Count]"

fun Coll_call :: "bool \<Rightarrow> coll_method \<Rightarrow> answer" where
  "Coll_call out Coll_GetTypeInfoCount = Answer E_NOTIMPL No_Out"
| "Coll_call out Coll_GetTypeInfo = Answer E_NOTIMPL No_Out"
| "Coll_call out Coll_GetIDsOfNames = Answer E_NOTIMPL No_Out"
| "Coll_call out Coll_get_Count = gives out (Out_Word 1)"
| "Coll_call out _ = By_Object"

text \<open>The WMI enumerator; \<open>WBEM_S_FALSE\<close> is the number of \<open>S_FALSE\<close>.\<close>

datatype ew_method = EW_QI | EW_AddRef | EW_Release | EW_Reset | EW_Next | EW_NextAsync | EW_Clone | EW_Skip

definition g_fakeEnumWbemVtable :: "ew_method option list" where
  "g_fakeEnumWbemVtable = map Some
     [EW_QI, EW_AddRef, EW_Release, EW_Reset, EW_Next, EW_NextAsync, EW_Clone, EW_Skip]"

fun FakeEnumWbem_call :: "bool \<Rightarrow> ew_method \<Rightarrow> answer" where
  "FakeEnumWbem_call out EW_NextAsync = Answer S_FALSE No_Out"
| "FakeEnumWbem_call out EW_Skip = Answer S_FALSE No_Out"
| "FakeEnumWbem_call out EW_Clone = Answer E_NOTIMPL (if out then Null_Pointer else No_Out)"
| "FakeEnumWbem_call out _ = By_Object"

text \<open>The adapter object.  Its first three slots are copied from the dummy table as that is at the
  moment; an empty slot becomes the stub.\<close>

datatype na_method = NA_Dummy dummy_method | NA_Get | NA_SafeStub

definition g_fakeNetAdapterVtable :: "dummy_method option list \<Rightarrow> na_method option list" where
  "g_fakeNetAdapterVtable dummy =
     (let vt = (map (map_option NA_Dummy) (take 3 dummy) @ replicate 29 None)[4 := Some NA_Get] in
      map (\<lambda>m. case m of None \<Rightarrow> Some NA_SafeStub | Some x \<Rightarrow> Some x) vt)"

text \<open>The methods of reference counting that were written for the adapter object and stand in no
  table.\<close>

definition FakeNetAdapter_QueryInterface :: "com \<Rightarrow> oaddr \<Rightarrow> iid \<Rightarrow> oaddr option com_result" where
  "FakeNetAdapter_QueryInterface = qi_self [IID_IUnknown, IID_IWbemClassObject]"

definition FakeNetAdapter_Release :: "com \<Rightarrow> oaddr \<Rightarrow> (com \<times> int) option" where
  "FakeNetAdapter_Release s a = counted_Release com_Release s a []"

text \<open>Two getters of the connection that stand in no table.\<close>

datatype conn_getter = FakeConn_GetConnectionStatus | FakeConn_GetAdapterId

fun conn_getter_call :: "net_env \<Rightarrow> bool \<Rightarrow> conn_getter \<Rightarrow> answer + netcon_status option" where
  "conn_getter_call e out FakeConn_GetConnectionStatus = Inr (if out then Some NCS_CONNECTED else None)"
| "conn_getter_call e out FakeConn_GetAdapterId = Inl (gives out (Out_Guid (radmin_guid e)))"

section \<open>The contract of a table\<close>

locale interface_table =
  fixes table :: "'m option list"
    and call :: "bool \<Rightarrow> 'm \<Rightarrow> answer"
  assumes table_full: "None \<notin> set table"
    and unknown_first: "\<exists>qi ar rl rest. table = Some qi # Some ar # Some rl # rest \<and>
      (\<forall>out. call out qi = By_Object \<and> call out ar = By_Object \<and> call out rl = By_Object)"
    and call_defined: "call True m \<noteq> Fault"
begin

lemma slot_defined: "i < length table \<Longrightarrow> slot_call table (call True) i \<noteq> Fault"
  using slot_call_complete [OF table_full _ call_defined] .

lemma slot_unknown: "i < 3 \<Longrightarrow> slot_call table (call out) i = By_Object"
proof -
  assume "i < 3"
  then consider "i = 0" | "i = 1" | "i = 2" by linarith
  then show ?thesis
    using unknown_first by cases (auto simp: slot_call_def)
qed

lemma behind_table: "length table \<le> i \<Longrightarrow> slot_call table (call out) i = Fault"
  by (simp add: slot_call_def)

end

text \<open>Late binding is refused by every table or left to the real object: no client can ask for the
  number of a name.\<close>

locale dispatch_table = interface_table +
  assumes dispatch_slots: "7 \<le> length table"
    "i \<in> {3, 4, 5} \<Longrightarrow> slot_call table (call out) i \<in> {Answer E_NOTIMPL No_Out, By_Real}"
begin

lemma GetIDsOfNames_refused: "slot_call table (call out) 5 \<in> {Answer E_NOTIMPL No_Out, By_Real}"
  by (rule dispatch_slots(2)) simp

lemma Invoke_defined: "slot_call table (call True) 6 \<noteq> Fault"
  using dispatch_slots(1) by (intro slot_defined) simp

end

lemmas table_defs = g_FakeNetworkVtable_def g_FakeNetworkConnectionVtbl_def
  g_FakeNetworkListManagerVtable_def g_FakeEnumNetworkConnectionsVtable_def
  g_FakeConnectionVtable_def g_FakeSharingConfigVtable_def g_FakeSharingManagerVtable_def
  g_fakeWbemServicesVtable_def g_VarEnumVtable_def g_VarEnumIDispatchVtable_def
  g_CollectionVtable_def g_fakeEnumWbemVtable_def

interpretation network: dispatch_table g_FakeNetworkVtable "FN_call e" for e
  by unfold_locales (auto simp: table_defs slot_call_def numeral_eq_Suc FN_no_fault)

interpretation connection: dispatch_table g_FakeNetworkConnectionVtbl "FNC_call e" for e
  by unfold_locales (auto simp: table_defs slot_call_def numeral_eq_Suc FNC_no_fault)

interpretation manager: dispatch_table g_FakeNetworkListManagerVtable NLM_call
  by unfold_locales (auto simp: table_defs slot_call_def numeral_eq_Suc NLM_fault_iff)

interpretation connections: dispatch_table g_FakeEnumNetworkConnectionsVtable FENC_call
proof unfold_locales
  show "FENC_call True m \<noteq> Fault" for m by (cases m) simp_all
qed (auto simp: table_defs slot_call_def numeral_eq_Suc)

interpretation sharing_config: dispatch_table g_FakeSharingConfigVtable Cfg_call
proof unfold_locales
  show "Cfg_call True m \<noteq> Fault" for m by (cases m) (simp_all add: gives_def)
qed (auto simp: table_defs slot_call_def numeral_eq_Suc)

interpretation sharing: dispatch_table g_FakeSharingManagerVtable SM_call
proof unfold_locales
  show "SM_call True m \<noteq> Fault" for m by (cases m) (simp_all add: gives_def)
qed (auto simp: table_defs slot_call_def numeral_eq_Suc)

interpretation var_dispatch: dispatch_table g_VarEnumIDispatchVtable "\<lambda>_. VarEnumIDispatch_call"
proof unfold_locales
  show "VarEnumIDispatch_call m \<noteq> Fault" for m by (cases m) simp_all
qed (auto simp: table_defs slot_call_def numeral_eq_Suc)

interpretation coll: dispatch_table g_CollectionVtable Coll_call
proof unfold_locales
  show "Coll_call True m \<noteq> Fault" for m by (cases m) (simp_all add: gives_def)
qed (auto simp: table_defs slot_call_def numeral_eq_Suc)

interpretation var_enum: interface_table g_VarEnumVtable "\<lambda>_. VarEnum_call"
proof unfold_locales
  show "VarEnum_call m \<noteq> Fault" for m by (cases m) simp_all
qed (auto simp: table_defs)

interpretation enum_wbem: interface_table g_fakeEnumWbemVtable FakeEnumWbem_call
proof unfold_locales
  show "FakeEnumWbem_call True m \<noteq> Fault" for m by (cases m) simp_all
qed (auto simp: table_defs)

interpretation conn: interface_table g_FakeConnectionVtable "\<lambda>_. FakeConn_call"
proof unfold_locales
  show "FakeConn_call m \<noteq> Fault" for m by (cases m) simp_all
qed (auto simp: table_defs)

interpretation svcs: interface_table g_fakeWbemServicesVtable "\<lambda>_. FakeSvcs_call"
proof unfold_locales
  show "FakeSvcs_call m \<noteq> Fault" for m by (cases m) simp_all
qed (auto simp: table_defs)

text \<open>The dummy table does not keep the contract: everything behind IUnknown is a null pointer.\<close>

lemma dummy_faults: "3 \<le> i \<Longrightarrow> slot_call g_dummyVtable Dummy_call i = Fault"
  by (auto simp: slot_call_def g_dummyVtable_def nth_append nth_Cons' split: option.split)

section \<open>The adapter object\<close>

text \<open>The copy is right only when the dummy table was filled before; otherwise the three methods of
  IUnknown are the stub.  Every way to the adapter object leads through an object with the dummy
  table, so they are filled.\<close>

lemma adapter_table:
  "take 5 (g_fakeNetAdapterVtable g_dummyVtable) =
     [Some (NA_Dummy Dummy_QI), Some (NA_Dummy Safe_AddRef'), Some (NA_Dummy Safe_Release'),
      Some NA_SafeStub, Some NA_Get]"
  "take 3 (g_fakeNetAdapterVtable (replicate 32 None)) = replicate 3 (Some NA_SafeStub)"
  by (simp_all add: g_fakeNetAdapterVtable_def g_dummyVtable_def numeral_eq_Suc)

text \<open>With its own \<open>Release\<close> the last reference would free the object; the one in the table never
  does.\<close>

lemma adapter_release_differs:
  assumes "com_get s a = Some (FakeNetAdapterObject g, 1)"
  shows "FakeNetAdapter_Release s a = Some (com_put (com_put s a (Some (FakeNetAdapterObject g, 0))) a None, 0)"
    "com_Release s a = Some (s, 1)"
  using assms by (simp_all add: FakeNetAdapter_Release_def counted_Release_def com_Release_def
      numeral_2_eq_2 Safe_Release_def)

section \<open>An enumerator with the wrong layout\<close>

text \<open>The slots of IEnumVARIANT in oaidl.h.  \<open>QueryInterface\<close> of the WMI enumerator answers for this
  interface with the object itself, whose fourth slot is \<open>Reset\<close> and not \<open>Next\<close>.\<close>

definition IEnumVARIANT_slots :: "string list" where
  "IEnumVARIANT_slots = [''QueryInterface'', ''AddRef'', ''Release'', ''Next'', ''Skip'', ''Reset'', ''Clone'']"

text \<open>What a call of slot i of the object does to it, for the methods that move the enumeration.\<close>

definition wbem_enum_slot :: "nat \<Rightarrow> com \<Rightarrow> oaddr \<Rightarrow> (com \<times> hresult) option" where
  "wbem_enum_slot i s a =
     (if i < length g_fakeEnumWbemVtable then
        (case g_fakeEnumWbemVtable ! i of
           Some EW_Reset \<Rightarrow> do { (s, hr, _) \<leftarrow> FakeEnumWbem_Reset s a; Some (s, hr) }
         | Some EW_Next \<Rightarrow> do { (s, hr, _) \<leftarrow> FakeEnumWbem_Next s a 1; Some (s, hr) }
         | Some m \<Rightarrow> (case FakeEnumWbem_call True m of Answer hr _ \<Rightarrow> Some (s, hr) | _ \<Rightarrow> None)
         | None \<Rightarrow> None)
      else None)"

text \<open>A client of IEnumVARIANT calls slot 3 until the answer is not S_OK; the result is the state
  after k calls, None when the enumeration has ended before.  The arguments that \<open>Reset\<close> does not
  take from the stack are not modelled.\<close>

fun variant_client :: "nat \<Rightarrow> com \<Rightarrow> oaddr \<Rightarrow> com option" where
  "variant_client 0 s a = Some s"
| "variant_client (Suc k) s a =
     (case wbem_enum_slot 3 s a of Some (s, S_OK) \<Rightarrow> variant_client k s a | _ \<Rightarrow> None)"

lemma wbem_slot_3:
  "com_get s a = Some (FakeEnumWbemClassObject ob r, m) \<Longrightarrow>
   wbem_enum_slot 3 s a = Some (com_put s a (Some (FakeEnumWbemClassObject ob False, m)), S_OK)"
  by (simp add: wbem_enum_slot_def g_fakeEnumWbemVtable_def FakeEnumWbem_Reset_def numeral_3_eq_3)

text \<open>It gets S_OK each time, and no object: no other cell changes, so no reference is taken.\<close>

theorem variant_client_never_ends:
  assumes "com_get s a = Some (FakeEnumWbemClassObject ob r, n)"
  shows "IEnumVARIANT_slots ! 3 = ''Next'' \<and>
    (\<exists>s1. FakeEnumWbem_QueryInterface s a IID_IEnumVARIANT = Some (s1, S_OK, Some a) \<and>
      (\<exists>s'. variant_client k s1 a = Some s' \<and> (\<forall>b. b \<noteq> a \<longrightarrow> com_get s' b = com_get s b)))"
proof -
  have run: "\<exists>s'. variant_client k s a = Some s' \<and> (\<forall>b. b \<noteq> a \<longrightarrow> com_get s' b = com_get s b)"
    if "com_get s a = Some (FakeEnumWbemClassObject ob r, m)" for s r m
    using that
  proof (induction k arbitrary: s r)
    case (Suc k)
    let ?s = "com_put s a (Some (FakeEnumWbemClassObject ob False, m))"
    have "com_get ?s a = Some (FakeEnumWbemClassObject ob False, m)"
      using com_get_bound [OF Suc.prems] by (simp add: com_get_put)
    then obtain s' where "variant_client k ?s a = Some s'" "\<forall>b. b \<noteq> a \<longrightarrow> com_get s' b = com_get ?s b"
      using Suc.IH by blast
    then show ?case
      using wbem_slot_3 [OF Suc.prems] com_get_bound [OF Suc.prems] by (simp add: com_get_put)
  qed simp
  let ?s1 = "com_put s a (Some (FakeEnumWbemClassObject ob r, n + 1))"
  have b: "com_get ?s1 c = (if c = a then Some (FakeEnumWbemClassObject ob r, n + 1) else com_get s c)" for c
    using com_get_bound [OF assms] by (simp add: com_get_put)
  have "FakeEnumWbem_QueryInterface s a IID_IEnumVARIANT = Some (?s1, S_OK, Some a)"
    using assms by (simp add: FakeEnumWbem_QueryInterface_def qi_self_def com_AddRef_def)
  then show ?thesis
    using run [of ?s1 r "n + 1"] b by (auto simp: IEnumVARIANT_slots_def numeral_3_eq_3)
qed

end
