(* ===== verification/Adapter_Listing.thy ===== *)
theory Adapter_Listing
  imports Adapter_Properties Adapter_Tool Logging
begin

text \<open>
  The last part of src/adapter_info.c: what the tool prints for each structure of
  GetAdaptersAddresses, and the whole program.  The structures are records with the linked lists as
  lists; the text is the bytes written to the standard output.  \<open>fake_entry\<close> reads the answer of
  \<open>Adapter_Report\<close> back as such a record, as the tool does: texts up to their terminator, wherever
  that is.
\<close>

section \<open>Addresses\<close>

datatype socket_address = No_Sockaddr | In4 bytes | In6 bytes | Other_Family nat

text \<open>The two functions of inet_ntop, \<open>StringFromGUID2\<close>, and the conversion of \<open>%ls\<close>.\<close>

record print_env =
  pe_ntop4 :: "bytes \<Rightarrow> bytes option"
  pe_ntop6 :: "bytes \<Rightarrow> bytes option"
  pe_guid :: "bytes \<Rightarrow> wstr"
  pe_mb :: "wstr \<Rightarrow> bytes"
  pe_suffixes :: bool               \<comment> \<open>built for Vista SP1 or later\<close>

fun PrintSocketAddress :: "print_env \<Rightarrow> socket_address \<Rightarrow> bytes" where
  "PrintSocketAddress e No_Sockaddr = str ''(null)''"
| "PrintSocketAddress e (In4 b) = (case pe_ntop4 e b of Some t \<Rightarrow> t | None \<Rightarrow> str ''(invalid IPv4)'')"
| "PrintSocketAddress e (In6 b) = (case pe_ntop6 e b of Some t \<Rightarrow> t | None \<Rightarrow> str ''(invalid IPv6)'')"
| "PrintSocketAddress e (Other_Family f) = str ''(family '' @ dec f @ str '')''"

definition PrintGuid :: "print_env \<Rightarrow> bytes \<Rightarrow> bytes \<Rightarrow> bytes" where
  "PrintGuid e guid label = label @ str '': '' @ pe_mb e (pe_guid e guid) @ newline"

fun hex_digits :: "nat \<Rightarrow> bytes" where
  "hex_digits n = (if n < 16 then [hex_digit n] else hex_digits (n div 16) @ [hex_digit (n mod 16)])"

declare hex_digits.simps [simp del]

section \<open>One adapter\<close>

record address_entry =
  ad_AdapterName :: "bytes option"
  ad_Description :: "wstr option"
  ad_FriendlyName :: "wstr option"
  ad_PhysicalAddress :: bytes
  ad_PhysicalAddressLength :: nat
  ad_Mtu :: u32
  ad_IfType :: u32
  ad_OperStatus :: u32
  ad_IfIndex :: u32
  ad_Ipv6IfIndex :: u32
  ad_Ipv4Metric :: u32
  ad_Ipv6Metric :: u32
  ad_Flags :: u32
  ad_Luid :: u64
  ad_NetworkGuid :: bytes
  ad_CompartmentId :: u32
  ad_ConnectionType :: u32
  ad_TunnelType :: u32
  ad_Dhcpv4Server :: socket_address
  ad_Dhcpv6Server :: socket_address
  ad_Unicast :: "socket_address list"
  ad_Anycast :: "socket_address list"
  ad_Multicast :: "socket_address list"
  ad_Dns :: "socket_address list"
  ad_Gateway :: "socket_address list"
  ad_Wins :: "socket_address list"
  ad_Prefix :: "(socket_address \<times> u32) list"
  ad_Suffix :: "wstr list"

definition or_null :: "bytes option \<Rightarrow> bytes" where
  "or_null t = (case t of None \<Rightarrow> str ''(null)'' | Some s \<Rightarrow> s)"

definition num :: "u32 \<Rightarrow> bytes" where "num n = dec (unat n)"

text \<open>The conversion d of the two enumerations.\<close>

definition snum :: "u32 \<Rightarrow> bytes" where
  "snum n = (if sint n < 0 then 45 # dec (nat (- sint n)) else dec (nat (sint n)))"

text \<open>A list with its title, one line for each element.\<close>

definition print_list :: "bytes \<Rightarrow> ('a \<Rightarrow> bytes) \<Rightarrow> 'a list \<Rightarrow> bytes" where
  "print_list title f xs =
     (if xs = [] then [] else str ''  '' @ title @ str '':'' @ newline) @
     concat (map (\<lambda>x. str ''    '' @ f x @ newline) xs)"

definition print_identity :: "print_env \<Rightarrow> nat \<Rightarrow> address_entry \<Rightarrow> bytes" where
  "print_identity e idx a =
     newline @ str ''--- Adapter #'' @ dec idx @ str '' ---'' @ newline @
     str ''AdapterName : '' @ or_null (ad_AdapterName a) @ newline @
     str ''Description : '' @ or_null (map_option (pe_mb e) (ad_Description a)) @ newline @
     str ''FriendlyName: '' @ or_null (map_option (pe_mb e) (ad_FriendlyName a)) @ newline"

text \<open>The array of the physical address has eight bytes; a greater length reads behind it.\<close>

definition print_physical :: "address_entry \<Rightarrow> bytes option" where
  "print_physical a = do {
     b \<leftarrow> mem_read (ad_PhysicalAddress a) 0 (ad_PhysicalAddressLength a);
     Some (str ''PhysicalAddress: '' @ concat (map hex2 b) @ newline) }"

definition print_general :: "print_env \<Rightarrow> address_entry \<Rightarrow> bytes" where
  "print_general e a =
     str ''Mtu         : '' @ num (ad_Mtu a) @ newline @
     str ''IfType      : '' @ num (ad_IfType a) @ newline @
     str ''OperStatus  : '' @ num (ad_OperStatus a) @ newline @
     str ''IfIndex     : '' @ num (ad_IfIndex a) @ newline @
     str ''Ipv6IfIndex : '' @ num (ad_Ipv6IfIndex a) @ newline @
     str ''Ipv4Metric  : '' @ num (ad_Ipv4Metric a) @ str '', Ipv6Metric : '' @ num (ad_Ipv6Metric a) @ newline @
     str ''Flags       : 0x'' @ hex_digits (unat (ad_Flags a)) @ newline @
     str ''Luid        : 0x'' @ hex_digits (unat (ad_Luid a)) @ newline @
     str ''NetworkGuid : '' @ pe_mb e (pe_guid e (ad_NetworkGuid a)) @ newline @
     str ''CompartmentId: '' @ num (ad_CompartmentId a) @ newline @
     str ''ConnectionType: '' @ snum (ad_ConnectionType a) @ str '', TunnelType: '' @ snum (ad_TunnelType a) @ newline @
     str ''Dhcpv4Server: '' @ PrintSocketAddress e (ad_Dhcpv4Server a) @ newline @
     str ''Dhcpv6Server: '' @ PrintSocketAddress e (ad_Dhcpv6Server a) @ newline"

definition print_lists :: "print_env \<Rightarrow> address_entry \<Rightarrow> bytes" where
  "print_lists e a =
     print_list (str ''Unicast addresses'') (PrintSocketAddress e) (ad_Unicast a) @
     print_list (str ''Anycast addresses'') (PrintSocketAddress e) (ad_Anycast a) @
     print_list (str ''Multicast addresses'') (PrintSocketAddress e) (ad_Multicast a) @
     print_list (str ''DNS servers'') (PrintSocketAddress e) (ad_Dns a) @
     print_list (str ''Gateways'') (PrintSocketAddress e) (ad_Gateway a) @
     print_list (str ''WINS servers'') (PrintSocketAddress e) (ad_Wins a) @
     print_list (str ''Prefixes'') (\<lambda>(x, n). PrintSocketAddress e x @ str '' /'' @ num n) (ad_Prefix a) @
     (if pe_suffixes e then print_list (str ''DNS suffixes'') (pe_mb e) (ad_Suffix a) else [])"

definition print_adapter :: "print_env \<Rightarrow> nat \<Rightarrow> address_entry \<Rightarrow> bytes option" where
  "print_adapter e idx a = do {
     p \<leftarrow> print_physical a;
     Some (print_identity e idx a @ p @ print_general e a @ print_lists e a) }"

fun print_adapters :: "print_env \<Rightarrow> nat \<Rightarrow> address_entry list \<Rightarrow> bytes option" where
  "print_adapters e idx [] = Some []"
| "print_adapters e idx (a # as) = do {
     t \<leftarrow> print_adapter e (idx + 1) a;
     ts \<leftarrow> print_adapters e (idx + 1) as;
     Some (t @ ts) }"

section \<open>The program\<close>

text \<open>\<open>entries n\<close> is what a buffer of n bytes holds after a success.  The result is the text and the
  number of buffers left: a buffer that was kept is freed on both paths.\<close>

definition print_result ::
    "print_env \<Rightarrow> (nat \<Rightarrow> address_entry list) \<Rightarrow> u32 \<times> nat option \<times> nat \<Rightarrow> (bytes \<times> nat) option" where
  "print_result e entries r =
     (case r of
        (ret, Some n, live) \<Rightarrow>
          if ret = 0 then do {
            t \<leftarrow> print_adapters e 0 (entries n);
            Some (newline @ str ''=== Adapters via GetAdaptersAddresses ==='' @ newline @ t, live - 1) }
          else Some (str ''GetAdaptersAddresses failed: '' @ num ret @ newline, live - 1)
      | (ret, None, live) \<Rightarrow> Some (str ''GetAdaptersAddresses failed: '' @ num ret @ newline, live))"

text \<open>What the loop for the buffer prints: a line when the heap refuses.\<close>

fun address_messages :: "(nat \<Rightarrow> bool) \<Rightarrow> (nat \<Rightarrow> u32 \<times> nat) \<Rightarrow> nat \<Rightarrow> nat \<Rightarrow> bytes" where
  "address_messages malloc api 0 n = []"
| "address_messages malloc api (Suc k) n =
     (if \<not> malloc n then str ''GetAdaptersAddresses: allocation failed'' @ newline
      else (case api n of (st, n2) \<Rightarrow> if st = 111 then address_messages malloc api k n2 else []))"

definition tool_main ::
    "print_env \<Rightarrow> wmi_env \<Rightarrow> net_env \<Rightarrow> bool \<times> bool \<times> bool \<Rightarrow> (nat \<Rightarrow> bool) \<Rightarrow> (nat \<Rightarrow> bool) \<Rightarrow> bool \<Rightarrow>
     (iid \<Rightarrow> bool) \<Rightarrow> (nat \<Rightarrow> bool) \<Rightarrow> (nat \<Rightarrow> u32 \<times> nat) \<Rightarrow> (nat \<Rightarrow> address_entry list) \<Rightarrow> bool \<Rightarrow> com \<times> net \<Rightarrow>
     (tool_state \<times> tool_line list \<times> bytes \<times> nat) option" where
  "tool_main pe we e a h1 h2 real_ok real_has malloc api entries com_ok s = do {
     (s, ls, r) \<leftarrow> adapter_tool we e a h1 h2 real_ok real_has malloc api com_ok s;
     (t, live) \<leftarrow> print_result pe entries r;
     Some (s, ls, address_messages malloc api 3 15000 @ t, live) }"

text \<open>A heap that refuses at once gives two lines, the second of which names the status 0 of a success.\<close>

lemma refused_at_once:
  assumes "\<not> malloc 15000"
  shows "address_messages malloc api 3 15000 = str ''GetAdaptersAddresses: allocation failed'' @ newline"
    "print_result e entries (list_addresses malloc api) = Some (str ''GetAdaptersAddresses failed: 0'' @ newline, 0)"
  using assms by (simp_all add: list_addresses_def print_result_def numeral_3_eq_3 num_def dec_def digits.simps str_def)

text \<open>The last part of the program leaves no buffer, whatever the function and the heap answer.\<close>

lemma tool_frees_buffers:
  assumes "print_result e entries (list_addresses malloc api) = Some (t, live)"
  shows "live = 0"
proof -
  obtain st b l where r: "list_addresses malloc api = (st, b, l)" by (cases "list_addresses malloc api") auto
  then have "case b of None \<Rightarrow> l = 0 | Some m \<Rightarrow> l = 1 \<and> malloc m \<and> fst (api m) = st \<and> st \<noteq> 111"
    unfolding list_addresses_def by (rule address_attempts_buffer)
  then show ?thesis using assms r by (auto simp: print_result_def bind_eq_Some split: option.splits if_splits)
qed

text \<open>The listing ends and reads only the arrays exactly when no length is above eight.\<close>

lemma print_adapter_defined:
  "print_adapter e idx a = None \<longleftrightarrow> length (ad_PhysicalAddress a) < ad_PhysicalAddressLength a"
  by (simp add: print_adapter_def print_physical_def mem_read_def not_le)

lemma print_adapters_defined:
  "print_adapters e idx as = None \<longleftrightarrow> (\<exists>a\<in>set as. length (ad_PhysicalAddress a) < ad_PhysicalAddressLength a)"
proof (induction as arbitrary: idx)
  case (Cons a as)
  show ?case
  proof (cases "print_adapter e (idx + 1) a")
    case None
    then have "length (ad_PhysicalAddress a) < ad_PhysicalAddressLength a"
      by (simp only: print_adapter_defined)
    then show ?thesis using None by simp
  next
    case (Some t)
    then have "\<not> length (ad_PhysicalAddress a) < ad_PhysicalAddressLength a"
      using print_adapter_defined [of e "idx + 1" a] by auto
    then show ?thesis using Some Cons.IH [of "idx + 1"] by (cases "print_adapters e (idx + 1) as") auto
  qed
qed simp

section \<open>The answer of the emulation\<close>

definition cstr_at :: "bytes \<Rightarrow> bytes option" where
  "cstr_at b = (if 0 \<in> set b then Some (takeWhile (\<lambda>c. c \<noteq> 0) b) else None)"

definition wide_at :: "bytes \<Rightarrow> wstr option" where
  "wide_at b = (let s = of_wbytes b in if 0 \<in> set s then Some (takeWhile (\<lambda>c. c \<noteq> 0) s) else None)"

text \<open>The fields the hook sets to constants; all others are zero.\<close>

definition IF_TYPE_ETHERNET_CSMACD :: u32 where "IF_TYPE_ETHERNET_CSMACD = 6"
definition IfOperStatusUp :: u32 where "IfOperStatusUp = 1"
definition IP_ADAPTER_DDNS_ENABLED :: u32 where "IP_ADAPTER_DDNS_ENABLED = 1"
definition IP_ADAPTER_DHCP_ENABLED :: u32 where "IP_ADAPTER_DHCP_ENABLED = 4"

definition fake_entry :: "adapter_addrs \<Rightarrow> address_entry option" where
  "fake_entry aa = do {
     nm \<leftarrow> cstr_at (drop name_off (aa_ext aa));
     ds \<leftarrow> wide_at (drop desc_off (aa_ext aa));
     fr \<leftarrow> wide_at (drop friendly_off (aa_ext aa));
     Some \<lparr>ad_AdapterName = Some nm, ad_Description = Some ds, ad_FriendlyName = Some fr,
       ad_PhysicalAddress = aa_mac aa @ [0, 0], ad_PhysicalAddressLength = 6,
       ad_Mtu = 0, ad_IfType = IF_TYPE_ETHERNET_CSMACD, ad_OperStatus = IfOperStatusUp,
       ad_IfIndex = 1, ad_Ipv6IfIndex = 0, ad_Ipv4Metric = 0, ad_Ipv6Metric = 0,
       ad_Flags = IP_ADAPTER_DDNS_ENABLED OR IP_ADAPTER_DHCP_ENABLED, ad_Luid = 0,
       ad_NetworkGuid = replicate 16 0, ad_CompartmentId = 0, ad_ConnectionType = 0, ad_TunnelType = 0,
       ad_Dhcpv4Server = No_Sockaddr, ad_Dhcpv6Server = No_Sockaddr,
       ad_Unicast = (case aa_uni4 aa of None \<Rightarrow> [] | Some (_, ip, _) \<Rightarrow> [In4 (le32 ip)]) @
                    (case aa_uni6 aa of None \<Rightarrow> [] | Some (_, b) \<Rightarrow> [In6 b]),
       ad_Anycast = [], ad_Multicast = [], ad_Dns = [],
       ad_Gateway = (case aa_gateway aa of None \<Rightarrow> [] | Some (_, ip) \<Rightarrow> [In4 (le32 ip)]),
       ad_Wins = [], ad_Prefix = [], ad_Suffix = []\<rparr> }"

lemma takeWhile_terminated: "0 \<notin> set s \<Longrightarrow> takeWhile (\<lambda>c. c \<noteq> 0) (s @ 0 # r) = s"
  by (rule takeWhile_append_stop) auto

lemma cstr_at_prefix:
  assumes "take n b = strncpy_pad n s" "length s < n" "0 \<notin> set s"
  shows "cstr_at b = Some s"
proof -
  obtain k where k: "n - length s = Suc k" using assms(2) by (cases "n - length s") auto
  then have "strncpy_pad n s = s @ 0 # replicate k 0" using assms(2) by (simp add: strncpy_pad_def)
  then have "b = s @ 0 # (replicate k 0 @ drop n b)"
    using assms(1) append_take_drop_id [of n b] by simp
  then show ?thesis using takeWhile_terminated [OF assms(3)] by (metis cstr_at_def in_set_conv_decomp)
qed

lemma wbytes_append: "wbytes (s @ t) = wbytes s @ wbytes t"
  by (induction s rule: wbytes.induct) auto

lemma of_wbytes_append: "of_wbytes (wbytes s @ b) = s @ of_wbytes b"
  by (induction s rule: wbytes.induct) (simp_all add: u16_of_bytes)

lemma wide_at_prefix:
  assumes "take (2 * length s + 2) b = wbytes (s @ [0])" "0 \<notin> set s"
  shows "wide_at b = Some s"
proof -
  have "b = wbytes (s @ [0]) @ drop (2 * length s + 2) b"
    using assms(1) append_take_drop_id [of "2 * length s + 2" b] by simp
  then have "of_wbytes b = s @ 0 # of_wbytes (drop (2 * length s + 2) b)"
    using of_wbytes_append [of "s @ [0]"] by (metis append.assoc append_Cons append_Nil)
  then show ?thesis using takeWhile_terminated [OF assms(2)] by (simp add: wide_at_def)
qed

lemma le32_wide:
  assumes "n < 2 ^ 16"
  shows "le32 (of_nat n) = wbytes [of_nat n, 0]"
proof -
  have u: "(of_nat n :: u32) = ucast (of_nat n :: u16)"
    using assms by (simp add: unsigned_of_nat take_bit_nat_eq_self)
  have "drop_bit k (ucast (x :: u16) :: u32) = ucast (drop_bit k x)" for k x
    by (rule bit_word_eqI) (auto simp: bit_ucast_iff bit_drop_bit_eq dest: bit_imp_le_length)
  moreover have "drop_bit 16 (x :: u16) = 0" "drop_bit 24 (x :: u16) = 0" for x
    by (rule bit_word_eqI; auto simp: bit_drop_bit_eq dest: bit_imp_le_length)+
  moreover have "(ucast (ucast (x :: u16) :: u32) :: u8) = ucast x" for x
    by (rule bit_word_eqI) (auto simp: bit_ucast_iff dest: bit_imp_le_length)
  ultimately show ?thesis unfolding u le32_def by simp
qed

text \<open>The tool shows the adapter with its name, its MAC address, its addresses and its gateway; the
  description is cut after 32 characters and continued by the length of the structure that
  overwrote it, read as a character.\<close>

theorem tool_shows_adapter:
  assumes i: "fake_mac_initialized i" "length (fake_mac i) = 6"
    and w: "winsys_ok w" and fit: "settings_fit w i a" and lay: "layout_ok s body" "sz_uni s < 2 ^ 16"
    and nz: "0 \<notin> set (to_ansi w (fake_settingID i))" "0 \<notin> set (fake_FriendlyName a)"
    and mem: "total_size s a AF_UNSPEC + sz_gw s + 8 \<le> sz_addrs s + length mem"
      "total_size s a AF_UNSPEC \<le> unat out_len"
    and ia: "prefix_mask p = Some m" "ia (to_ansi w (fake_ipSubnet a)) = of_le32 (be32 m)"
  shows "\<exists>aa ent rest. Hook_GetAdaptersAddresses s w ia body sg rs g c h ans i a n AF_UNSPEC (Some mem) out_len =
      Some (i, n, Addrs_Ok aa) \<and> fake_entry aa = Some ent \<and>
    ad_Unicast ent = In4 (le32 (ia (to_ansi w (fake_ipAddress a)))) #
      (case reported_ipv6 w a AF_UNSPEC of None \<Rightarrow> [] | Some b \<Rightarrow> [In6 b]) \<and>
    ad_Gateway ent = [In4 (le32 (ia (to_ansi w (fake_gateway a))))] \<and>
    print_adapters e 0 [ent] = Some (newline @ str ''--- Adapter #1 ---'' @ newline @
      str ''AdapterName : '' @ to_ansi w (fake_settingID i) @ newline @
      str ''Description : '' @ pe_mb e (take 32 fake_description @ [of_nat (sz_uni s)]) @ newline @
      str ''FriendlyName: '' @ pe_mb e (fake_FriendlyName a) @ newline @
      str ''PhysicalAddress: '' @ concat (map hex2 (fake_mac i)) @ newline @ rest)"
proof -
  have "AF_UNSPEC = AF_INET \<or> AF_UNSPEC = AF_UNSPEC" by simp
  from adapter_answer [of i AF_UNSPEC w a s body mem out_len p m ia sg rs g c h ans n, OF i(1) this w fit lay(1) mem ia]
  obtain aa where aa: "Hook_GetAdaptersAddresses s w ia body sg rs g c h ans i a n AF_UNSPEC (Some mem) out_len =
      Some (i, n, Addrs_Ok aa)" "aa_mac aa = fake_mac i"
    "take 64 (aa_ext aa) = strncpy_pad 64 (to_ansi w (fake_settingID i))"
    "take (2 * length (fake_FriendlyName a) + 2) (drop friendly_off (aa_ext aa)) = wbytes (fake_FriendlyName a @ [0])"
    "map_option snd (aa_uni6 aa) = reported_ipv6 w a AF_UNSPEC"
    "aa_uni4 aa = Some (ext_size, ia (to_ansi w (fake_ipAddress a)), if p = 32 then 32 else unat p - 24)"
    "map_option snd (aa_gateway aa) = Some (ia (to_ansi w (fake_gateway a)))"
    "take 68 (drop desc_off (aa_ext aa)) = wbytes (take 32 fake_description) @ le32 (of_nat (sz_uni s))"
    by blast
  have nm: "cstr_at (drop name_off (aa_ext aa)) = Some (to_ansi w (fake_settingID i))"
    using cstr_at_prefix [OF aa(3)] nz(1) fit by (simp add: name_off_def settings_fit_def)
  have fr: "wide_at (drop friendly_off (aa_ext aa)) = Some (fake_FriendlyName a)"
    by (rule wide_at_prefix [OF aa(4) nz(2)])
  have "16 \<le> sz_uni s" using lay(1) by (simp add: layout_ok_def)
  then have n0: "(of_nat (sz_uni s) :: u16) \<noteq> 0" using lay(2) by (simp add: word_of_nat_eq_0_iff nat_dvd_not_less)
  have d32: "length (take 32 fake_description) = 32" "0 \<notin> set (take 32 fake_description)"
    by (simp_all add: fake_description_def str_def)
  have "take (2 * length (take 32 fake_description @ [of_nat (sz_uni s)]) + 2) (drop desc_off (aa_ext aa)) =
      wbytes ((take 32 fake_description @ [of_nat (sz_uni s)]) @ [0])"
    using aa(8) d32(1) le32_wide [OF lay(2)] by (simp add: wbytes_append)
  from wide_at_prefix [OF this]
  have ds: "wide_at (drop desc_off (aa_ext aa)) = Some (take 32 fake_description @ [of_nat (sz_uni s)])"
    using d32(2) n0 by auto
  obtain ent where ent: "fake_entry aa = Some ent" using nm fr ds by (simp add: fake_entry_def)
  then have f: "ad_AdapterName ent = Some (to_ansi w (fake_settingID i))"
    "ad_Description ent = Some (take 32 fake_description @ [of_nat (sz_uni s)])"
    "ad_FriendlyName ent = Some (fake_FriendlyName a)"
    "ad_PhysicalAddress ent = fake_mac i @ [0, 0]" "ad_PhysicalAddressLength ent = 6"
    "ad_Unicast ent = In4 (le32 (ia (to_ansi w (fake_ipAddress a)))) #
      (case aa_uni6 aa of None \<Rightarrow> [] | Some (_, b) \<Rightarrow> [In6 b])"
    "ad_Gateway ent = [In4 (le32 (ia (to_ansi w (fake_gateway a))))]"
    using nm fr ds aa(2,6,7) by (auto simp: fake_entry_def split: option.splits)
  have v6: "(case aa_uni6 aa of None \<Rightarrow> [] | Some (_, b) \<Rightarrow> [In6 b]) =
      (case reported_ipv6 w a AF_UNSPEC of None \<Rightarrow> [] | Some b \<Rightarrow> [In6 b])"
    unfolding aa(5) [symmetric] by (cases "aa_uni6 aa") auto
  have "print_adapters e 0 [ent] = Some (newline @ str ''--- Adapter #1 ---'' @ newline @
      str ''AdapterName : '' @ to_ansi w (fake_settingID i) @ newline @
      str ''Description : '' @ pe_mb e (take 32 fake_description @ [of_nat (sz_uni s)]) @ newline @
      str ''FriendlyName: '' @ pe_mb e (fake_FriendlyName a) @ newline @
      str ''PhysicalAddress: '' @ concat (map hex2 (fake_mac i)) @ newline @ print_general e ent @ print_lists e ent)"
    using f(1-5) i(2)
    by (simp add: print_adapter_def print_identity_def print_physical_def mem_read_def or_null_def
        str_def dec_def digits.simps)
  then show ?thesis using aa(1) ent f(6,7) v6 by auto
qed

end
