(* ===== verification/Spec2Isabelle.thy ===== *)
theory Spec2Isabelle
  imports Start_Up System_Hooks Bridge_Link Logging Fake_Identity Driver_Properties Config Registry_Claims
    Adapter_Properties Wmi_Claims Netsh_Properties Registry_Dump Limited_Registry Launchers Forwarders
    Export_Patching Gui_Hooks Loopback_Report Code_Search Wmi_Proxies Adapter_Tool Device_Proxy Small_Stand_Ins
    Net_Cfg Wmi_Locator Log_Opening Com_Tables Adapter_Listing
begin

text \<open>
  Verification of the unofficial Linux port of Radmin VPN.

  The Windows service of Radmin VPN runs under Wine.  A library that is injected into it answers
  for the missing kernel driver, registry, WMI provider, COM objects and IP helper functions
  (src/inject.c, src/register.c, src/emulate_driver_running.c), and exchanges Ethernet frames
  and settings over UDP (src/tap_client_udp.c) with a Linux program that owns a TAP device
  (src/linux_tap.c).  A frame goes

    service - WriteFile on the fake device - datagram - poll loop - TAP device,
    TAP device - poll loop - datagram to every client - pending read - service,

  and a setting goes from a netsh command line through a control datagram to an ioctl.

  Theories and what they model:

  \<^item> \<open>Prelude\<close>, \<open>C_Strings\<close>: checked memory accesses (None is a read or write outside a buffer),
    C strings, decimal numbers, little-endian words, the locale \<open>keyed_store\<close>.
  \<^item> \<open>Tap_Protocol\<close>: src/tap_client_udp.c and tap_client.h, with every answer of the socket calls.
  \<^item> \<open>Linux_Tap\<close>: src/linux_tap.c; one iteration of \<open>main\<close>'s loop is \<open>poll_step\<close>, a run is
    \<open>bridge_loop\<close> over the list of poll results, start-up and shutdown are \<open>main_run\<close>.  The kernel is
    a record that answers each operation and logs it.
  \<^item> \<open>Bridge_Link\<close>: the locale \<open>command_link\<close> of an ordered command channel, interpreted on the
    client functions and the poll loop.
  \<^item> \<open>Pending_Queue\<close>, \<open>Driver_Hooks\<close>, \<open>Driver_Properties\<close>: src/inject.c; the list of pending reads
    lives in a heap of cells with head and tail pointers and refines a FIFO queue (locale
    \<open>fifo_queue\<close>); \<open>dev_step\<close> is any call of the hooks, \<open>dev_reach\<close> the reachable states.
    \<open>Device_Proxy\<close>: the same hooks over a real driver, src/proxy_real.c (not compiled in).
  \<^item> \<open>Config\<close>: src/config.c; \<open>Logging\<close>, \<open>Log_Opening\<close>: src/log.c.
  \<^item> \<open>Registry\<close>, \<open>Registry_File\<close>, \<open>Registry_Hooks\<close>: src/register.c; keys live in a heap (a freed key is
    None), so that dangling handles are visible; \<open>Registry_Tree\<close> relates the heap to a tree,
    \<open>Registry_Properties\<close> and \<open>Registry_Claims\<close> hold the invariant of \<open>reg_step\<close> and the file laws.
    \<open>Tree_Dump\<close>, \<open>Tree_Dump_Properties\<close>: the recursive dump that ends the start of the registry, over
    the hooks, and its equality with a traversal of the tree; \<open>Restart_Dump\<close>: what the log shows
    after a restart.
  \<^item> \<open>Fake_Identity\<close>, \<open>Netsh\<close>, \<open>Netsh_Properties\<close>, \<open>Adapter_Report\<close>, \<open>Adapter_Properties\<close>,
    \<open>Com_Objects\<close>, \<open>Com_Properties\<close>, \<open>Wmi\<close>, \<open>Com_Claims\<close>, \<open>Wmi_Claims\<close>: parts of
    src/emulate_driver_running.c, namely the MAC address and GUID, the replaced netsh, the IP
    helper reports (the build with BLOCK_REAL 1), the reference-counted COM objects with their
    heap, and the WMI provider.  \<open>com_reach\<close> is a client that obeys the COM rules, with the
    references it owns.  \<open>Com_Interfaces\<close>, \<open>Com_Tables\<close>: the vtables and the constant answers, with
    the contract of a table as a locale; \<open>Wmi_Proxies\<close>:
    the proxies around real WMI objects, with the calculus of their references; \<open>Wmi_Locator\<close>: the
    patched locator and the log of the real adapters.  \<open>Adapter_Tool\<close>, \<open>Adapter_Listing\<close>:
    src/adapter_info.c as a client of these objects, and the text it prints.  \<open>Net_Cfg\<close>: the component enumerator of the
    network configuration, in a heap of its own.

  \<^item> \<open>Import_Table\<close>, \<open>Code_Patching\<close>, \<open>Hook_Install\<close>, \<open>Hook_Install_Properties\<close>: src/iat_helpers.c and
    the patches and installations of src/inject.c and src/emulate_driver_running.c, over a
    byte-addressed memory; \<open>achieves\<close> is the calculus by which the effect of a list of patches is
    the union of their effects.  \<open>Code_Search\<close>: the search for a function of the service by its
    bytes and its replacement.  \<open>Gui_Hooks\<close>: src/inject2.c.  \<open>Start_Up\<close>: \<open>run_injection\<close>, composed of
    the models of the parts.
  \<^item> \<open>System_Hooks\<close>: the hooks for services, SetupDi, security descriptors and waits.
  \<^item> \<open>Registry_Dump\<close>: src/reg_read.c, over any registry functions and over the hooks of
    src/register.c; \<open>Folder_Dump\<close>: the two dumps that end \<open>run_injection\<close>, with the state of the
    emulated registry, where the cached handles must agree with the tree (\<open>coherent\<close>).  \<open>Limited_Registry\<close>: src/register_limited.c with the file of the password.
  \<^item> \<open>Launchers\<close>: src/inject_exe.c and src/start_rvpn.c.
  \<^item> \<open>Forwarders\<close> (src/version_proxy.c, src/winmm_proxy.c, src/cryptbase_proxy.c,
    src/rvrolclient_proxy.c), \<open>Export_Patching\<close> (src/wow64_proxy.c), \<open>Loopback_Report\<close>
    (src/iphlpapi_proxy.c), \<open>Small_Stand_Ins\<close> (src/netshell_inject.c, src/fwpuclnt_proxy.c,
    src/register_proxy.c): the libraries that stand in for system libraries; the locale
    \<open>forwarding\<close> is a stand-in that cannot be told from the library behind it, \<open>sized_query\<close> the
    protocol of the functions with a size pointer.

  Conventions.  A function with result type option is None exactly where the C code leaves its
  memory, follows a dangling pointer, calls a null pointer, shifts by a negative count or does not
  return; errors the code reports are ordinary results.  Integers have their C width.  What the
  operating system answers (sockets, heap, events, registry, inet_pton, GUIDs, random numbers) is
  an argument.  No fuel is used except \<open>vtable_Release\<close>, whose depth 2 is the nesting of the
  objects (an object that holds pointers holds only objects that hold none; \<open>com_no_use_after_free\<close>
  shows that the depth is never exhausted); loops with no syntactic bound are partial functions
  (\<open>pq_find\<close>, \<open>save_keys\<close>, \<open>values_dump\<close>, \<open>tree_dump\<close>, \<open>folder_values\<close>, \<open>folder_dump\<close>, \<open>load_keys\<close>, \<open>values_loop\<close>, \<open>search_loop\<close>, \<open>export_loop\<close>, \<open>sharing_loop\<close>,
  \<open>wmi_loop\<close>, \<open>adapters_loop\<close>), for which the states in which they return are proved.

  What the properties show: the frame path in both directions and the settings path end to end
  (this theory); what a program that lists the connections sees; the invariants of bridge, driver, registry and COM objects over all sequences of
  calls; the exact conditions under which a call leaves its memory; round trips of registry
  file, configuration, masks and object paths; and the observable errors of the code.

  Not modelled: the resource and DLL entry glue (src/hooklib.c only calls \<open>InitLog\<close> and
  \<open>run_injection\<close>), the exception filter and the stack trace of the log.  Log output has
  no effect on the state beyond the logger record and is left out where it is only printed.
\<close>

section \<open>From the service to the TAP device and back\<close>

text \<open>C7. A frame the service writes to its device arrives on the TAP device: WriteFile accepts a
  framed packet of at most 2047 bytes and puts one datagram on the wire, addressed to the
  configured bridge; the bridge that receives it writes exactly the frame to the TAP device,
  sends nothing back, and knows the sender from then on.\<close>

theorem written_frame_reaches_tap:
  assumes w: "GetHandleContext d k = Some c" "g_isAnyTAPDriverActive d"
      "dat = radmin_header_write (of_nat (length frame)) @ frame @ padding"
      "length dat < 2 ^ 32 - 1" "p \<noteq> 0 \<longrightarrow> ovs d p \<noteq> None"
      "e_heap env (1 + of_nat (length frame))" "e_socket env" "e_connect env" "e_send env"
    and b: "bridge_wf b" "length frame \<le> 2047"
  shows "\<exists>d' dgram b' st. Hook_WriteFile env k (Some dat) (of_nat (length dat)) want p d =
      Some (Done d' (io True (opt_out want (of_nat (length dat))))) \<and>
    dwire d' = dwire d @ [(tap_addr d, tap_port d, dgram)] \<and>
    poll_step ntop6 (Poll_Ready None (Some (UR_Data a dgram)) tw) b = Some (b', st) \<and>
    out_tap b' = out_tap b @ [frame] \<and> out_udp b' = out_udp b \<and> kern b' = kern b \<and>
    a \<in> set (clients b')"
proof -
  obtain d' where d': "Hook_WriteFile env k (Some dat) (of_nat (length dat)) want p d =
      Some (Done d' (io True (opt_out want (of_nat (length dat)))))"
    "dwire d' = dwire d @ [(tap_addr d, tap_port d, 0x00 # frame)]"
    using Hook_WriteFile_datagram [OF w] by blast
  obtain b' st where b': "poll_step ntop6 (Poll_Ready None (Some (UR_Data a (0x00 # frame))) tw) b = Some (b', st)"
    "out_tap b' = out_tap b @ [take 2047 frame]" "out_udp b' = out_udp b" "kern b' = kern b"
    "clients b' = update_clients (clients b) a"
    using udp_frame_step [OF b(1)] by blast
  then show ?thesis using d' b(2) update_clients_mem [of a "clients b"] by auto
qed

theorem written_frame_reaches_tap_witness:
  "\<exists>d' dgram b' st. Hook_WriteFile Driver_Properties.env_ok 0x1001 (Some (radmin_header_write 2 @ [0xAA, 0xBB] @ [0])) 11 True 0
      online = Some (Done d' (io True (Some 11))) \<and>
    poll_step (\<lambda>_. []) (Poll_Ready None (Some (UR_Data [9] dgram)) (TW_Written 2)) bridge0 = Some (b', st) \<and>
    dwire d' = [(str ''127.0.0.1'', 4242, dgram)] \<and> out_tap b' = [[0xAA, 0xBB]]"
  using written_frame_reaches_tap [OF online_ctx refl, of "[0xAA, 0xBB]" "[0]" 0 Driver_Properties.env_ok bridge0 True
      "\<lambda>_. []" "[9]" "TW_Written 2"] bridge0_wf
  by (auto simp: Driver_Properties.env_ok_def online_def opened_eq driver_initial_def opt_out_def bridge0_def)

text \<open>The datagrams the bridge sent to one client in an iteration.\<close>

definition datagrams_for :: "sockaddr \<Rightarrow> bridge \<Rightarrow> bridge \<Rightarrow> bytes list" where
  "datagrams_for a b b' = map snd (filter (\<lambda>x. fst x = a) (drop (length (out_udp b)) (out_udp b')))"

lemma filter_clients:
  "distinct cs \<Longrightarrow> a \<in> set cs \<Longrightarrow>
   map snd (filter (\<lambda>x. fst x = a) (map (\<lambda>c. (c, m)) cs)) = [m]"
  by (induction cs) (auto simp: filter_empty_conv comp_def)

text \<open>C8. A frame that arrives on the TAP device reaches the reader: when the bridge reads a frame
  and the socket of a pending read holds what the bridge sent to that client, asking for the
  result of the read gives the framed packet in the caller's buffer, provided the frame passes
  the address filter of the handle.\<close>

theorem tap_frame_reaches_reader:
  assumes b: "bridge_wf b" "a \<in> set (clients b)"
      "poll_step ntop6 (Poll_Ready (Some (TR_Data frame)) None tw) b = Some (b', st)"
    and p: "pending_on d k p bs ad ds r" "GetHandleContext d k = Some c" "sock r = Some s"
      "socks d s = Some (map RI_Data (datagrams_for a b b'))"
    and f: "13 \<le> length frame" "length frame \<le> 2047" "frame_matches frame c"
    and u: "ubufs d (buffer r) = Some ub" "unat (buflen r) \<le> length ub" "8 + length frame \<le> unat (buflen r)"
  shows "\<exists>d'. Hook_GetOverlappedResult k p want d =
      Some (Done d' (io True (opt_out want (of_nat (8 + length frame))))) \<and>
    ubufs d' (buffer r) =
      Some (radmin_header_write (of_nat (length frame)) @ frame @ drop (8 + length frame) ub) \<and>
    socks d' s = None \<and> queue_is d' k (bs @ ds)"
proof -
  have "frame \<noteq> []" using f(1) by auto
  then have "out_udp b' = out_udp b @ map (\<lambda>c. (c, 0x00 # frame)) (clients b)"
    using tap_frame_sent [OF b(1) _ f(2), of ntop6 tw] b(3) by auto
  moreover have "distinct (clients b)" using b(1) by (simp add: bridge_wf_def clients_ok_def)
  ultimately have "datagrams_for a b b' = [0x00 # frame]"
    using filter_clients [of "clients b" a "0x00 # frame"] b(2) by (simp add: datagrams_for_def)
  then have s: "socks d s = Some (map RI_Data [] @ RI_Data (0x00 # frame) # [])" using p(4) by simp
  have n: "8 + length frame = min (8 + length frame) (unat (buflen r))" using u(3) by simp
  have t: "take (8 + length frame) (radmin_header_write (of_nat (length frame)) @ frame) =
      radmin_header_write (of_nat (length frame)) @ frame" by simp
  show ?thesis
    using GetOverlappedResult_completes [OF p(1-3) s _ f u(1,2) n, of want] unfolding t by auto
qed

definition reading_one :: driver where
  "reading_one = reading\<lparr>socks := [0 \<mapsto> [RI_Data (0 # bcast_frame)]]\<rparr>"

theorem tap_frame_reaches_reader_witness:
  "\<exists>b' d'. poll_step (\<lambda>_. []) (Poll_Ready (Some (TR_Data bcast_frame)) None (TW_Written 0))
      (bridge0\<lparr>clients := [[8], [9]]\<rparr>) = Some (b', Continue) \<and>
    socks reading_one 0 = Some (map RI_Data (datagrams_for [9] (bridge0\<lparr>clients := [[8], [9]]\<rparr>) b')) \<and>
    Hook_GetOverlappedResult 0x1001 0x50 True reading_one = Some (Done d' (io True (Some 22))) \<and>
    ubufs d' 0x60 = Some (radmin_header_write 14 @ bcast_frame @ replicate 2 0xEE)"
proof -
  let ?b = "bridge0\<lparr>clients := [[8], [9]]\<rparr>"
  let ?r = "\<lparr>ov = 0x50, buffer = 0x60, buflen = 24, sock = Some 0, next_pr = 2\<rparr>"
  let ?c = "(new_ctx 0x1001)\<lparr>mac := [2, 0x50, 1, 2, 3, 4], mac_set := True,
      queue := \<lparr>pending_head = 1, pending_tail = 2\<rparr>\<rparr>"
  have wf: "bridge_wf ?b" by (simp add: bridge_wf_def bridge0_def clients_ok_def MAX_CLIENTS_def)
  obtain b' where b': "poll_step (\<lambda>_. []) (Poll_Ready (Some (TR_Data bcast_frame)) None (TW_Written 0)) ?b =
      Some (b', Continue)" "out_udp b' = [([8], 0 # bcast_frame), ([9], 0 # bcast_frame)]"
    using tap_frame_sent [OF wf, of bcast_frame "\<lambda>_. []" "TW_Written 0"]
    by (auto simp: bcast_frame_def bridge0_def)
  have dg: "datagrams_for [9] ?b b' = [0 # bcast_frame]"
    using b'(2) by (simp add: datagrams_for_def bridge0_def)
  have s: "socks reading_one 0 = Some (map RI_Data (datagrams_for [9] ?b b'))"
    by (simp add: dg reading_one_def)
  have p: "pending_on reading_one 0x1001 0x50 [] 1 [2] ?r" "GetHandleContext reading_one 0x1001 = Some ?c"
    using reading_pending by (simp_all add: reading_one_def pending_on_def GetHandleContext_def deref_ov_def)
  have u: "ubufs reading_one (buffer ?r) = Some (replicate 24 0xEE)"
    by (simp add: reading_one_def reading_def)
  have f: "13 \<le> length bcast_frame" "length bcast_frame \<le> 2047" "frame_matches bcast_frame ?c"
    by (simp_all add: frame_matches_def bcast_frame_def bit_0)
  have a: "[9] \<in> set (clients ?b)" "sock ?r = Some 0" by simp_all
  obtain d' where "Hook_GetOverlappedResult 0x1001 0x50 True reading_one =
      Some (Done d' (io True (opt_out True (of_nat (8 + length bcast_frame)))))"
    "ubufs d' (buffer ?r) = Some (radmin_header_write (of_nat (length bcast_frame)) @ bcast_frame @
        drop (8 + length bcast_frame) (replicate 24 0xEE))"
    using tap_frame_reaches_reader [OF wf a(1) b'(1) p a(2) s f u, of True]
    by (auto simp: bcast_frame_def)
  then show ?thesis using b'(1) s by (simp add: bcast_frame_def opt_out_def)
qed

section \<open>Settings\<close>

text \<open>C10. The adapter configuration of the service takes effect on the TAP device: a netsh line
  with an IPv4 address and a dotted mask makes the injected side report this address and mask
  as the adapter's, and the first datagram it sends makes the bridge set exactly this address
  and this mask on its interface.\<close>

theorem netsh_configures_tap:
  assumes w: "winsys_ok w" "pton4 w (to_ansi w A) = Some ip"
    and cmd: "argument cmd (str ''addr='') A" "length A \<le> 63" "58 \<notin> set A"
      "argument cmd (str ''mask='') (dotted m)" "prefix_mask p = Some m" "\<not> contains cmd (str ''ipv6'')"
    and sent: "ans 0 = Sent" and b: "willing ifn b"
  shows "\<exists>a' n' b'. ParseNetshCommand w c True ans cmd a n = Some (a', n') \<and>
    fake_ipAddress a' = A \<and> fake_ipSubnet a' = dotted m \<and>
    poll_step ntop6 (udp_event s (snd (snd (wire n' ! length (wire n))))) b = Some (b', Continue) \<and>
    k_log (kern b') = k_log (kern b) @ [K_Socket, K_SIOCSIFADDR ifn ip, K_SIOCSIFNETMASK ifn (be32 m)]"
proof -
  have le: "p \<le> 32" using cmd(5) prefix_mask_defined [of p] by (auto simp: word_le_nat_alt)
  have ok: "command_ok (Cmd_IPv4 ip p)" using w le by (auto simp: winsys_ok_def)
  obtain a' n' ds where n': "ParseNetshCommand w c True ans cmd a n = Some (a', n')"
    "wire n' = wire n @ (g_bridge_ip c, g_bridge_port c, 0x01 # TAP_CTRL_SET_IPV4 # ip @ [p]) # ds"
    "fake_ipAddress a' = A" "fake_ipSubnet a' = dotted m"
    using ParseNetshCommand_ipv4 [of w cmd A m p ip ans, OF w(1) cmd(1-5) w(2) cmd(6) sent] by blast
  obtain b' where b': "bridge_gets ntop6 s (command_bytes (Cmd_IPv4 ip p)) b = Some b'"
    "kernel_view b' = obey ntop6 ifn (Cmd_IPv4 ip p) (kernel_view b)"
    using bridge_gets_command [OF ok b] by blast
  have "poll_step ntop6 (udp_event s (snd (snd (wire n' ! length (wire n))))) b = Some (b', Continue)"
    using b'(1) n'(2)
    by (simp add: bridge_gets_def udp_event_def split: option.splits prod.splits loop_status.splits)
  moreover have "k_log (kern b') = k_log (kern b) @ [K_Socket, K_SIOCSIFADDR ifn ip, K_SIOCSIFNETMASK ifn (be32 m)]"
    using b'(2) cmd(5) by (simp add: kernel_view_def)
  ultimately show ?thesis using n' by blast
qed

definition address_line :: wstr where
  "address_line = str ''netsh interface ip set address addr=26.1.2.3 mask=255.0.0.0''"

theorem netsh_configures_tap_witness:
  "\<exists>a' n' b'. ParseNetshCommand winsys0 tap_client_initial True (\<lambda>_. Sent) address_line adapter_initial
      \<lparr>wire = [], open_sockets = 0\<rparr> = Some (a', n') \<and>
    fake_ipSubnet a' = str ''255.0.0.0'' \<and>
    poll_step (\<lambda>_. []) (udp_event [9] (snd (snd (wire n' ! 0)))) bridge0 = Some (b', Continue) \<and>
    k_log (kern b') = [K_Socket, K_SIOCSIFADDR (str ''tap0'') [26, 1, 2, 3],
      K_SIOCSIFNETMASK (str ''tap0'') [255, 0, 0, 0]]"
proof -
  have d: "dotted 0xFF000000 = str ''255.0.0.0''"
    by (simp add: dotted_def be32_def le32_def dec_def digits.simps)
  have bytes: "be32 0xFF000000 = [255, 0, 0, 0]" by (simp add: be32_def le32_def)
  have m: "prefix_mask 8 = Some 0xFF000000" by (simp add: prefix_mask_def)
  have a1: "argument address_line (str ''addr='') (str ''26.1.2.3'')"
    and a2: "argument address_line (str ''mask='') (dotted 0xFF000000)"
    unfolding d by (simp_all add: argument_def address_line_def)
  have c: "\<not> contains address_line (str ''ipv6'')" by (simp add: contains_def address_line_def)
  have l: "length (str ''26.1.2.3'' :: wstr) \<le> 63" "58 \<notin> set (str ''26.1.2.3'' :: wstr)" by simp_all
  have ip: "pton4 winsys0 (to_ansi winsys0 (str ''26.1.2.3'')) = Some [26, 1, 2, 3]"
    by (simp add: winsys0_def)
  have b: "willing (str ''tap0'') bridge0" using bridge0_wf by (simp add: willing_def bridge0_def kernel0_def)
  show ?thesis
    using netsh_configures_tap [of winsys0 "str ''26.1.2.3''" "[26, 1, 2, 3]" address_line "0xFF000000" 8
        "\<lambda>_. Sent" "str ''tap0''" bridge0 tap_client_initial adapter_initial
        "\<lparr>wire = [], open_sockets = 0\<rparr>" "\<lambda>_. []" "[9]",
        OF winsys0_ok ip a1 l a2 m c refl b]
    unfolding d bytes by (simp add: bridge0_def kernel0_def) blast
qed

text \<open>C11. There is one MAC address: the first use of the identity announces it to the bridge, which
  sets it on its interface, and from then on the WMI property, the answer to the service's
  address request and the accessor all give this address.\<close>

theorem one_mac_everywhere:
  assumes i: "\<not> fake_mac_initialized i" and e: "we_heap_ok e" "we_udp e = Sent" and b: "willing ifn b"
    and d: "GetHandleContext d k = Some c" and l: "length ib = 8" "length ob = 12"
  shows "\<exists>i' n' b' d' m. init_mac e i n = Some (i', n') \<and> length m = 6 \<and>
    poll_step ntop6 (udp_event s (snd (snd (wire n' ! length (wire n))))) b = Some (b', Continue) \<and>
    k_log (kern b') = k_log (kern b) @ [K_Socket, K_SIOCSIFHWADDR ifn m] \<and>
    FakeWbemClass_Get e a (Some (str ''MACAddress'')) True i' n' = Some (i', n', S_OK, Some (VT_BSTR (mac_text m))) \<and>
    GetFakeMacAddress i' = (m, True) \<and>
    ioctl_switch env k 0x22C004 (Some ib) 8 (Some ob) 12 (d\<lparr>ident := i'\<rparr>) =
      Some (d', True, 12, Some ([0, 0, 0, 0] @ m @ [0, 0]))"
proof -
  let ?m = "random_mac (we_rand e)"
  obtain i' n' where i': "init_mac e i n = Some (i', n')" "fake_mac i' = ?m" "fake_mac_initialized i'"
    "wire n' = wire n @ [(g_bridge_ip (we_client e), g_bridge_port (we_client e), command_bytes (Cmd_MAC ?m))]"
    using InitFakeMac_first [OF i] e by (simp add: init_mac_def send_control_eq)
  have ok: "command_ok (Cmd_MAC ?m)" by simp
  obtain b' where b': "bridge_gets ntop6 s (command_bytes (Cmd_MAC ?m)) b = Some b'"
    "kernel_view b' = obey ntop6 ifn (Cmd_MAC ?m) (kernel_view b)"
    using bridge_gets_command [OF ok b] by blast
  have "poll_step ntop6 (udp_event s (snd (snd (wire n' ! length (wire n))))) b = Some (b', Continue)"
    using b'(1) i'(4)
    by (simp add: bridge_gets_def udp_event_def split: option.splits prod.splits loop_status.splits)
  moreover have "k_log (kern b') = k_log (kern b) @ [K_Socket, K_SIOCSIFHWADDR ifn ?m]"
    using b'(2) by (simp add: kernel_view_def)
  moreover have "FakeWbemClass_Get e a (Some (str ''MACAddress'')) True i' n' =
      Some (i', n', S_OK, Some (VT_BSTR (mac_text ?m)))"
    using i'(2,3) by (simp add: FakeWbemClass_Get_def init_mac_def InitFakeMac_again)
  moreover obtain d' where "ioctl_switch env k 0x22C004 (Some ib) 8 (Some ob) 12 (d\<lparr>ident := i'\<rparr>) =
      Some (d', True, 12, Some ([0, 0, 0, 0] @ ?m @ [0, 0]))"
    using ioctl_switch_spec [of ib ob "d\<lparr>ident := i'\<rparr>" k c env "0x22C004"] d l i'(2)
    by (auto simp: ioctl_accepts_def ioctl_reply_def GetHandleContext_def)
  ultimately show ?thesis using i'(1,2) by (simp add: GetFakeMacAddress_def)
qed

theorem one_mac_everywhere_witness:
  "\<exists>i' n' b' d' m. init_mac wmi_env0 identity_initial \<lparr>wire = [], open_sockets = 0\<rparr> = Some (i', n') \<and>
    poll_step (\<lambda>_. []) (udp_event [9] (snd (snd (wire n' ! 0)))) bridge0 = Some (b', Continue) \<and>
    k_log (kern b') = [K_Socket, K_SIOCSIFHWADDR (str ''tap0'') m] \<and>
    ioctl_switch Driver_Properties.env_ok 0x1001 0x22C004 (Some (replicate 8 0)) 8 (Some (replicate 12 0)) 12
      (online\<lparr>ident := i'\<rparr>) = Some (d', True, 12, Some ([0, 0, 0, 0] @ m @ [0, 0]))"
proof -
  have "willing (str ''tap0'') bridge0" using bridge0_wf by (simp add: willing_def bridge0_def kernel0_def)
  moreover have "\<not> fake_mac_initialized identity_initial" by (simp add: identity_initial_def)
  moreover have "we_heap_ok wmi_env0" "we_udp wmi_env0 = Sent" by (simp_all add: wmi_env0_def)
  moreover have "length (replicate 8 (0 :: u8)) = 8" "length (replicate 12 (0 :: u8)) = 12" by simp_all
  moreover have "k_log (kern bridge0) = []" by (simp add: bridge0_def kernel0_def)
  ultimately show ?thesis
    using one_mac_everywhere [of identity_initial wmi_env0 "str ''tap0''" bridge0 online "0x1001"
        "new_ctx 0x1001" "replicate 8 0" "replicate 12 0" "\<lparr>wire = [], open_sockets = 0\<rparr>" "\<lambda>_. []" "[9]"
        adapter_initial Driver_Properties.env_ok] online_ctx(1)
    by (simp del: str_Cons replicate.simps) blast
qed

end
